(* ===== verification/Prelude.thy ===== *)
theory Prelude
  imports Main "HOL-Library.Char_ord" "HOL-Library.List_Lexorder" "HOL-Library.Product_Lexorder"
begin

text \<open>
  Shared vocabulary of the development.

  The theory models the JavaScript values the program handles: numbers, strings, arrays and
  objects, with the conversions of the language that the program relies on (\<open>Number()\<close>,
  \<open>String()\<close>, \<open>trim\<close>, \<open>??\<close>, property access). Strings are lists of ASCII code units. A number is
  an integer, a finite non-integer decimal, NaN or an infinity; integers are exact, which agrees
  with the double format for every value the program accepts, since it accepts only safe integers.

  Three collections of rules start here: \<open>eff_simps\<close> and \<open>evolves_intro\<close> for operations, \<open>triple_intro\<close>
  for their pre- and postconditions.
\<close>

named_theorems eff_simps "unfolding rules of the effect combinators"
named_theorems evolves_intro "rules that carry a state relation through an operation"
named_theorems triple_intro "rules for the triples of operations"

subsection \<open>JavaScript values\<close>

datatype jsnum = NInt int | NFrac int nat | NNaN | NInf bool

datatype jsval =
    JUndef
  | JNull
  | JBool bool
  | JNum jsnum
  | JStr string
  | JArr "jsval list"
  | JObj "(string \<times> jsval) list"

abbreviation jint :: "int \<Rightarrow> jsval" where
  "jint n \<equiv> JNum (NInt n)"

text \<open>\<open>value?.key\<close> on an object; every other value has none of the properties the program reads.\<close>

fun jget :: "jsval \<Rightarrow> string \<Rightarrow> jsval" where
  "jget (JObj kvs) k = (case map_of kvs k of Some v \<Rightarrow> v | None \<Rightarrow> JUndef)"
| "jget _ _ = JUndef"

fun is_nullish :: "jsval \<Rightarrow> bool" where
  "is_nullish JUndef = True"
| "is_nullish JNull = True"
| "is_nullish _ = False"

text \<open>\<open>left ?? right\<close>\<close>

definition nullish :: "jsval \<Rightarrow> jsval \<Rightarrow> jsval" where
  "nullish v d = (if is_nullish v then d else v)"

text \<open>The guard \<open>value === null || value === undefined || value === ''\<close>.\<close>

definition is_absent :: "jsval \<Rightarrow> bool" where
  "is_absent v \<longleftrightarrow> is_nullish v \<or> v = JStr []"

definition is_object :: "jsval \<Rightarrow> bool" where
  "is_object v \<longleftrightarrow> (case v of JObj _ \<Rightarrow> True | _ \<Rightarrow> False)"

text \<open>Truthiness, as \<open>if (value)\<close> and \<open>!value\<close> test it.\<close>

fun truthy :: "jsval \<Rightarrow> bool" where
  "truthy JUndef = False"
| "truthy JNull = False"
| "truthy (JBool b) = b"
| "truthy (JNum n) = (n \<noteq> NInt 0 \<and> n \<noteq> NNaN)"
| "truthy (JStr s) = (s \<noteq> [])"
| "truthy (JArr _) = True"
| "truthy (JObj _) = True"

subsection \<open>Text\<close>

definition is_space :: "char \<Rightarrow> bool" where
  "is_space c \<longleftrightarrow> c \<in> {CHR 0x09, CHR 0x0A, CHR 0x0B, CHR 0x0C, CHR 0x0D, CHR 0x20}"

definition trim :: "string \<Rightarrow> string" where
  "trim s = rev (dropWhile is_space (rev (dropWhile is_space s)))"

definition is_digit :: "char \<Rightarrow> bool" where
  "is_digit c \<longleftrightarrow> CHR ''0'' \<le> c \<and> c \<le> CHR ''9''"

definition is_upper_char :: "char \<Rightarrow> bool" where
  "is_upper_char c \<longleftrightarrow> CHR ''A'' \<le> c \<and> c \<le> CHR ''Z''"

definition is_lower_char :: "char \<Rightarrow> bool" where
  "is_lower_char c \<longleftrightarrow> CHR ''a'' \<le> c \<and> c \<le> CHR ''z''"

definition lower_char :: "char \<Rightarrow> char" where
  "lower_char c = (if is_upper_char c then char_of (of_char c + (32::nat)) else c)"

definition upper_char :: "char \<Rightarrow> char" where
  "upper_char c = (if is_lower_char c then char_of (of_char c - (32::nat)) else c)"

definition to_lower :: "string \<Rightarrow> string" where
  "to_lower = map lower_char"

definition to_upper :: "string \<Rightarrow> string" where
  "to_upper = map upper_char"

definition starts_with :: "string \<Rightarrow> string \<Rightarrow> bool" where
  "starts_with p s \<longleftrightarrow> take (length p) s = p"

fun contains :: "string \<Rightarrow> string \<Rightarrow> bool" where
  "contains p [] = (p = [])"
| "contains p (c # s) = (starts_with p (c # s) \<or> contains p s)"

fun join :: "string \<Rightarrow> string list \<Rightarrow> string" where
  "join sep [] = []"
| "join sep [x] = x"
| "join sep (x # y # ys) = x @ sep @ join sep (y # ys)"

lemma trim_Nil [simp]: "trim [] = []"
  by (simp add: trim_def)

lemma dropWhile_hd_False: "dropWhile P xs = y # ys \<Longrightarrow> \<not> P y"
  by (metis hd_dropWhile list.sel(1) list.distinct(1))

lemma dropWhile_idem_if: "xs = [] \<or> \<not> P (hd xs) \<Longrightarrow> dropWhile P xs = xs"
  by (cases xs) auto

lemma trim_idem [simp]: "trim (trim s) = trim s"
proof -
  define a where "a = dropWhile is_space s"
  define b where "b = dropWhile is_space (rev a)"
  have b: "dropWhile is_space b = b"
    unfolding b_def by (simp add: dropWhile_idem)
  have a: "a = [] \<or> \<not> is_space (hd a)"
    unfolding a_def using hd_dropWhile by blast
  have "rev b = [] \<or> \<not> is_space (hd (rev b))"
  proof (cases "b = []")
    case False
    obtain pre where "rev a = pre @ b"
      unfolding b_def by (metis takeWhile_dropWhile_id)
    then have "a = rev b @ rev pre" by (metis rev_append rev_rev_ident)
    with False a show ?thesis by (cases "rev b") auto
  qed simp
  then have "dropWhile is_space (rev b) = rev b" by (rule dropWhile_idem_if)
  then show ?thesis using b by (simp add: trim_def a_def b_def)
qed

lemma trim_ends: "s \<noteq> [] \<Longrightarrow> \<not> is_space (hd s) \<Longrightarrow> \<not> is_space (last s) \<Longrightarrow> trim s = s"
proof -
  assume s: "s \<noteq> []" "\<not> is_space (hd s)" "\<not> is_space (last s)"
  have a: "dropWhile is_space s = s" using s(1,2) by (intro dropWhile_idem_if) simp
  have "dropWhile is_space (rev s) = rev s" using s by (intro dropWhile_idem_if) (simp add: hd_rev)
  then show ?thesis by (simp add: trim_def a)
qed

subsection \<open>Numbers\<close>

definition digit_char :: "nat \<Rightarrow> char" where
  "digit_char d = char_of (48 + d)"

fun nat_text :: "nat \<Rightarrow> string" where
  "nat_text n = (if n < 10 then [digit_char n] else nat_text (n div 10) @ [digit_char (n mod 10)])"

declare nat_text.simps [simp del]

definition int_text :: "int \<Rightarrow> string" where
  "int_text n = (if n < 0 then CHR ''-'' # nat_text (nat (- n)) else nat_text (nat n))"

text \<open>\<open>String(number)\<close>, for the magnitudes JavaScript prints without an exponent.\<close>

definition pad_left :: "nat \<Rightarrow> string \<Rightarrow> string" where
  "pad_left k s = replicate (k - length s) (CHR ''0'') @ s"

fun num_text :: "jsnum \<Rightarrow> string" where
  "num_text (NInt n) = int_text n"
| "num_text (NFrac m k) =
     (let d = nat \<bar>m\<bar>; s = (if m < 0 then ''-'' else [])
      in s @ nat_text (d div 10 ^ k) @ ''.'' @ pad_left k (nat_text (d mod 10 ^ k)))"
| "num_text NNaN = ''NaN''"
| "num_text (NInf neg) = (if neg then ''-Infinity'' else ''Infinity'')"

primrec norm_frac :: "nat \<Rightarrow> int \<Rightarrow> jsnum" where
  "norm_frac 0 m = NInt m"
| "norm_frac (Suc k) m = (if m mod 10 = 0 then norm_frac k (m div 10) else NFrac m (Suc k))"

definition scaled :: "int \<Rightarrow> int \<Rightarrow> jsnum" where
  "scaled m x = (if 0 \<le> x then NInt (m * 10 ^ nat x) else norm_frac (nat (- x)) m)"

definition digit_val :: "char \<Rightarrow> nat" where
  "digit_val c = of_char c - 48"

definition digits_val :: "string \<Rightarrow> nat" where
  "digits_val s = foldl (\<lambda>a c. 10 * a + digit_val c) 0 s"

definition radix_digit :: "nat \<Rightarrow> char \<Rightarrow> nat option" where
  "radix_digit r c =
     (let d = (if is_digit c then Some (digit_val c)
               else if is_lower_char c then Some (of_char c - 87)
               else if is_upper_char c then Some (of_char c - 55) else None)
      in case d of Some n \<Rightarrow> if n < r then Some n else None | None \<Rightarrow> None)"

fun radix_val :: "nat \<Rightarrow> nat \<Rightarrow> string \<Rightarrow> jsnum" where
  "radix_val r acc [] = NInt (int acc)"
| "radix_val r acc (c # cs) =
     (case radix_digit r c of None \<Rightarrow> NNaN | Some d \<Rightarrow> radix_val r (r * acc + d) cs)"

text \<open>The exponent part of a decimal literal: \<open>None\<close> when the text is malformed.\<close>

definition exponent_of :: "string \<Rightarrow> int option" where
  "exponent_of s = (case s of
       [] \<Rightarrow> Some 0
     | e # rest \<Rightarrow>
         if e \<noteq> CHR ''e'' \<and> e \<noteq> CHR ''E'' then None
         else let neg = (starts_with ''-'' rest);
                  ds = (if neg \<or> starts_with ''+'' rest then tl rest else rest)
              in if ds \<noteq> [] \<and> list_all is_digit ds
                 then Some (if neg then - int (digits_val ds) else int (digits_val ds)) else None)"

definition decimal_val :: "string \<Rightarrow> jsnum" where
  "decimal_val s =
     (let whole = takeWhile is_digit s; r1 = dropWhile is_digit s;
          dot = starts_with ''.'' r1;
          frac = (if dot then takeWhile is_digit (tl r1) else []);
          r2 = (if dot then dropWhile is_digit (tl r1) else r1)
      in if whole = [] \<and> frac = [] then NNaN
         else case exponent_of r2 of
           None \<Rightarrow> NNaN
         | Some e \<Rightarrow> scaled (int (digits_val (whole @ frac))) (e - int (length frac)))"

fun neg_num :: "jsnum \<Rightarrow> jsnum" where
  "neg_num (NInt n) = NInt (- n)"
| "neg_num (NFrac m k) = NFrac (- m) k"
| "neg_num NNaN = NNaN"
| "neg_num (NInf b) = NInf (\<not> b)"

definition string_number :: "string \<Rightarrow> jsnum" where
  "string_number s0 =
     (let s = trim s0; p = take 2 s; body = drop 2 s in
      if s = [] then NInt 0
      else if p = ''0x'' \<or> p = ''0X'' then (if body = [] then NNaN else radix_val 16 0 body)
      else if p = ''0o'' \<or> p = ''0O'' then (if body = [] then NNaN else radix_val 8 0 body)
      else if p = ''0b'' \<or> p = ''0B'' then (if body = [] then NNaN else radix_val 2 0 body)
      else let neg = starts_with ''-'' s;
               u = (if neg \<or> starts_with ''+'' s then tl s else s);
               v = (if u = ''Infinity'' then NInf False else decimal_val u)
           in if neg then neg_num v else v)"

text \<open>\<open>String(value)\<close> and \<open>Number(value)\<close>.\<close>

fun js_text :: "jsval \<Rightarrow> string" where
  "js_text JUndef = ''undefined''"
| "js_text JNull = ''null''"
| "js_text (JBool b) = (if b then ''true'' else ''false'')"
| "js_text (JNum n) = num_text n"
| "js_text (JStr s) = s"
| "js_text (JArr xs) = join '','' (map (\<lambda>x. if is_nullish x then [] else js_text x) xs)"
| "js_text (JObj _) = ''[object Object]''"

fun js_number :: "jsval \<Rightarrow> jsnum" where
  "js_number JUndef = NNaN"
| "js_number JNull = NInt 0"
| "js_number (JBool b) = NInt (if b then 1 else 0)"
| "js_number (JNum n) = n"
| "js_number (JStr s) = string_number s"
| "js_number (JArr xs) = string_number (js_text (JArr xs))"
| "js_number (JObj _) = NNaN"

definition max_safe :: int where
  "max_safe = 9007199254740991"

definition safe_int :: "jsnum \<Rightarrow> int option" where
  "safe_int n = (case n of NInt i \<Rightarrow> if \<bar>i\<bar> \<le> max_safe then Some i else None | _ \<Rightarrow> None)"

definition is_safe :: "int \<Rightarrow> bool" where
  "is_safe i \<longleftrightarrow> \<bar>i\<bar> \<le> max_safe"

lemma safe_int_NInt [simp]: "is_safe i \<Longrightarrow> safe_int (NInt i) = Some i"
  by (simp add: safe_int_def is_safe_def)

lemma safe_int_SomeD: "safe_int n = Some i \<Longrightarrow> n = NInt i \<and> is_safe i"
  by (auto simp: safe_int_def is_safe_def split: jsnum.splits if_splits)

subsection \<open>Insertion-ordered maps\<close>

text \<open>\<open>Map.set\<close> and the spread of one property into an object: a known key keeps its place and gets the new value.\<close>

fun map_set :: "'k \<Rightarrow> 'v \<Rightarrow> ('k \<times> 'v) list \<Rightarrow> ('k \<times> 'v) list" where
  "map_set k v [] = [(k, v)]"
| "map_set k v ((k', v') # m) = (if k' = k then (k, v) # m else (k', v') # map_set k v m)"

lemma map_set_keys: "map fst (map_set k v m) = (if k \<in> fst ` set m then map fst m else map fst m @ [k])"
  by (induction k v m rule: map_set.induct) auto

lemma map_set_of: "map_of (map_set k v m) x = (if x = k then Some v else map_of m x)"
  by (induction k v m rule: map_set.induct) auto

lemma map_set_distinct: "distinct (map fst m) \<Longrightarrow> distinct (map fst (map_set k v m))"
  by (auto simp: map_set_keys)

lemma map_set_length: "length (map_set k v m) = (if k \<in> fst ` set m then length m else Suc (length m))"
  using arg_cong [OF map_set_keys, of length k v m] by (auto split: if_splits)

text \<open>\<open>{...object, key: value}\<close>\<close>

fun jput :: "string \<Rightarrow> jsval \<Rightarrow> jsval \<Rightarrow> jsval" where
  "jput k v (JObj kvs) = JObj (map_set k v kvs)"
| "jput k v x = x"

lemma jget_jput: "is_object x \<Longrightarrow> jget (jput k v x) k' = (if k' = k then v else jget x k')"
  by (cases x) (simp_all add: is_object_def map_set_of)

lemma is_object_jput [simp]: "is_object (jput k v x) = is_object x"
  by (cases x) (simp_all add: is_object_def)

end
