(* ===== verification/Runtime_Errors.thy ===== *)
theory Runtime_Errors
  imports Prelude
begin

text \<open>
  The standard errors of the program and the sanitizers of its operational boundary
  (\<open>packages/shared/src/errors/runtime-error.js\<close>): the error record, the constructors
  \<open>permanentError\<close>, \<open>transientError\<close> and \<open>partialSyncError\<close>, and the redaction of secrets and
  external identities in text and in nested values before they are logged or persisted.

  The \<open>cause\<close> chain of an error is not kept: no modelled code reads it. A value is a tree, so the
  \<open>[CIRCULAR]\<close> marker of the sanitizers (a second visit of the same object) does not occur.
\<close>

subsection \<open>Errors\<close>

datatype errkind = TypeErr | RangeErr | PlainErr | RuntimeErr | WriteProgressErr | PartialSyncErr

record write_progress =
  wp_operation :: string
  wp_tableId :: string
  wp_writeOutcome :: string
  wp_confirmedRows :: int
  wp_completedChunks :: int
  wp_failedChunk :: int
  wp_totalChunks :: int
  wp_totalRows :: int
  wp_remainingRows :: int

record jserror =
  err_kind :: errkind
  err_code :: "string option"
  err_retryable :: "bool option"
  err_message :: string
  err_details :: jsval
  err_progress :: "write_progress option"
  err_partial :: "jsval option"
  err_reliabilityHandled :: bool
  err_syncRunId :: "string option"

definition plain_error :: "string \<Rightarrow> jserror" where
  "plain_error m = \<lparr>err_kind = PlainErr, err_code = None, err_retryable = None, err_message = m,
     err_details = JUndef, err_progress = None, err_partial = None,
     err_reliabilityHandled = False, err_syncRunId = None\<rparr>"

definition type_error :: "string \<Rightarrow> jserror" where
  "type_error m = (plain_error m)\<lparr>err_kind := TypeErr\<rparr>"

definition range_error :: "string \<Rightarrow> jserror" where
  "range_error m = (plain_error m)\<lparr>err_kind := RangeErr\<rparr>"

definition normalizeCode :: "jsval \<Rightarrow> string" where
  "normalizeCode v = (let c = (case v of JStr s \<Rightarrow> to_upper (trim s) | _ \<Rightarrow> [])
                      in if c = [] then ''RUNTIME_ERROR'' else c)"

text \<open>\<open>freezeDetails\<close>: \<open>None\<close> stands for the TypeError.\<close>

definition freezeDetails :: "jsval \<Rightarrow> jsval option" where
  "freezeDetails v = (if is_nullish v then Some (JObj []) else if is_object v then Some v else None)"

text \<open>
  The constructor of \<open>RuntimeError\<close>. A constructor that throws leaves its own TypeError as the
  thrown value, so the result is always the error that reaches the handler.
\<close>

definition runtime_error :: "string \<Rightarrow> jsval \<Rightarrow> bool \<Rightarrow> jsval \<Rightarrow> jserror" where
  "runtime_error msg code retryable details =
     (if trim msg = [] then type_error ''RuntimeError requires a non-empty message''
      else case freezeDetails details of
        None \<Rightarrow> type_error ''RuntimeError details must be an object''
      | Some d \<Rightarrow> \<lparr>err_kind = RuntimeErr, err_code = Some (normalizeCode code),
           err_retryable = Some retryable, err_message = trim msg, err_details = d,
           err_progress = None, err_partial = None, err_reliabilityHandled = False, err_syncRunId = None\<rparr>)"

definition permanentError :: "string \<Rightarrow> string \<Rightarrow> jsval \<Rightarrow> jserror" where
  "permanentError msg code details = runtime_error msg (JStr code) False details"

definition transientError :: "string \<Rightarrow> string \<Rightarrow> jsval \<Rightarrow> jserror" where
  "transientError msg code details = runtime_error msg (JStr code) True details"

definition partialSyncError :: "string \<Rightarrow> string \<Rightarrow> bool \<Rightarrow> jsval \<Rightarrow> jsval \<Rightarrow> jserror" where
  "partialSyncError msg code retryable details partial =
     (let e = runtime_error msg (JStr code) retryable details in
      if err_kind e = TypeErr then e
      else e\<lparr>err_kind := PartialSyncErr, err_partial := Some partial\<rparr>)"

definition isRetryableError :: "jserror \<Rightarrow> bool" where
  "isRetryableError e \<longleftrightarrow> err_retryable e = Some True"

definition isWriteProgressError :: "jserror \<Rightarrow> bool" where
  "isWriteProgressError e \<longleftrightarrow>
     err_kind e = WriteProgressErr \<or>
     (case err_progress e of Some p \<Rightarrow> wp_writeOutcome p \<noteq> [] | None \<Rightarrow> False)"

definition isPartialSyncError :: "jserror \<Rightarrow> bool" where
  "isPartialSyncError e \<longleftrightarrow> err_kind e = PartialSyncErr \<or> err_code e = Some ''SYNC_PARTIAL_WRITE''"

text \<open>The mark of an error that the runner has recorded: two hidden properties of the error object.\<close>

definition markReliabilityHandled :: "jserror \<Rightarrow> string option \<Rightarrow> jserror" where
  "markReliabilityHandled e syncRunId = e\<lparr>err_reliabilityHandled := True, err_syncRunId := syncRunId\<rparr>"

text \<open>\<open>error?.code ?? null\<close> as a value.\<close>

definition err_code_val :: "jserror \<Rightarrow> jsval" where
  "err_code_val e = (case err_code e of Some c \<Rightarrow> JStr c | None \<Rightarrow> JNull)"

definition has_code :: "jserror \<Rightarrow> string list \<Rightarrow> bool" where
  "has_code e codes \<longleftrightarrow> (case err_code e of Some c \<Rightarrow> c \<in> set codes | None \<Rightarrow> False)"

definition code_starts :: "jserror \<Rightarrow> string \<Rightarrow> bool" where
  "code_starts e p \<longleftrightarrow> (case err_code e of Some c \<Rightarrow> starts_with p c | None \<Rightarrow> False)"

text \<open>A validation followed by the rest of an expression, and over a list.\<close>

definition bind_res :: "jserror + 'a \<Rightarrow> ('a \<Rightarrow> jserror + 'b) \<Rightarrow> jserror + 'b" where
  "bind_res r f = (case r of Inl e \<Rightarrow> Inl e | Inr x \<Rightarrow> f x)"

fun map_res :: "('a \<Rightarrow> jserror + 'b) \<Rightarrow> 'a list \<Rightarrow> jserror + 'b list" where
  "map_res f [] = Inr []"
| "map_res f (x # xs) = bind_res (f x) (\<lambda>y. bind_res (map_res f xs) (\<lambda>ys. Inr (y # ys)))"

lemma bind_res_simps [simp]:
  "bind_res (Inl e) f = Inl e" "bind_res (Inr x) f = f x"
  by (simp_all add: bind_res_def)

lemma bind_res_Inr_iff: "bind_res r f = Inr y \<longleftrightarrow> (\<exists>x. r = Inr x \<and> f x = Inr y)"
  by (cases r) simp_all

lemma map_res_Inr: "(\<And>x. x \<in> set xs \<Longrightarrow> f x = Inr (g x)) \<Longrightarrow> map_res f xs = Inr (map g xs)"
  by (induction xs) simp_all

subsection \<open>Small regular expressions\<close>

text \<open>
  The key patterns are alternations of literals with optional separators. \<open>rx_rest\<close> gives every
  remainder after a match at the head; \<open>rx_search\<close> is the unanchored \<open>test\<close>.
\<close>

datatype rx = REps | RChr char | RAlt rx rx | RSeq rx rx

primrec rx_rest :: "rx \<Rightarrow> string \<Rightarrow> string list" where
  "rx_rest REps s = [s]"
| "rx_rest (RChr c) s = (case s of x # xs \<Rightarrow> if x = c then [xs] else [] | [] \<Rightarrow> [])"
| "rx_rest (RAlt a b) s = rx_rest a s @ rx_rest b s"
| "rx_rest (RSeq a b) s = concat (map (rx_rest b) (rx_rest a s))"

fun rx_search :: "rx \<Rightarrow> string \<Rightarrow> bool" where
  "rx_search r [] = (rx_rest r [] \<noteq> [])"
| "rx_search r (c # s) = (rx_rest r (c # s) \<noteq> [] \<or> rx_search r s)"

definition rx_lit :: "string \<Rightarrow> rx" where
  "rx_lit s = foldr (\<lambda>c r. RSeq (RChr c) r) s REps"

fun rx_any :: "rx list \<Rightarrow> rx" where
  "rx_any [] = REps"
| "rx_any [r] = r"
| "rx_any (r # q # rs) = RAlt r (rx_any (q # rs))"

definition rx_cat :: "rx list \<Rightarrow> rx" where
  "rx_cat rs = foldr RSeq rs REps"

definition rx_opt :: "rx \<Rightarrow> rx" where
  "rx_opt r = RAlt r REps"

definition rx_sep :: rx where
  "rx_sep = rx_opt (RAlt (RChr (CHR ''_'')) (RChr (CHR ''-'')))"

definition rx_words :: "string list \<Rightarrow> rx" where
  "rx_words ws = rx_any (map rx_lit ws)"

definition OPERATIONAL_SECRET_KEY_PATTERN :: rx where
  "OPERATIONAL_SECRET_KEY_PATTERN = rx_any [
     rx_words [''secret'', ''token'', ''password'', ''authorization''],
     rx_cat [rx_lit ''credential'', rx_opt (RChr (CHR ''s''))],
     rx_cat [rx_words [''private'', ''signing'', ''api''], rx_sep, rx_lit ''key''],
     rx_cat [rx_lit ''consumer'', rx_sep, rx_lit ''secret'']]"

definition OPERATIONAL_IDENTITY_KEY_PATTERN :: rx where
  "OPERATIONAL_IDENTITY_KEY_PATTERN = rx_any [
     rx_cat [rx_lit ''lock'', rx_sep, rx_lit ''key''],
     rx_cat [rx_lit ''cursor'', rx_sep, rx_lit ''key''],
     rx_cat [rx_lit ''customer'', rx_sep, rx_words [''profile'', ''key'', ''id'']],
     rx_cat [rx_lit ''connection'', rx_sep, rx_lit ''id''],
     rx_cat [rx_lit ''invitation'',
       rx_opt (rx_any [rx_cat [rx_sep, rx_lit ''id''], rx_cat [rx_sep, rx_lit ''url'']])],
     rx_cat [rx_lit ''oauth'', rx_sep,
       rx_any [rx_lit ''state'', rx_cat [rx_lit ''attempt'', rx_sep, rx_lit ''id'']]],
     rx_lit ''nonce'',
     rx_cat [rx_lit ''redirect'', rx_sep, rx_lit ''uri''],
     rx_cat [rx_lit ''account'', rx_sep, rx_words [''key'', ''id'']],
     rx_cat [rx_lit ''page'', rx_sep, rx_lit ''id''],
     rx_cat [rx_lit ''ig'', rx_sep, rx_opt (rx_words [''user'', ''account'']), rx_sep, rx_lit ''id''],
     rx_cat [rx_lit ''instagram'', rx_sep, rx_opt (rx_words [''user'', ''account'']), rx_sep,
       rx_lit ''id''],
     rx_cat [rx_lit ''ad'', rx_sep, rx_lit ''account'', rx_sep, rx_lit ''id''],
     rx_cat [rx_lit ''table'', rx_sep, rx_lit ''id''],
     rx_cat [rx_lit ''report'', rx_sep, rx_lit ''setting'', rx_sep, rx_lit ''key''],
     rx_lit ''identity'',
     rx_cat [rx_lit ''handle'', rx_opt (RChr (CHR ''s''))],
     rx_cat [rx_words [''channel'', ''video'', ''content''], rx_sep, rx_lit ''id'',
       rx_opt (RChr (CHR ''s''))],
     rx_cat [rx_words [''source'', ''expected'', ''actual'', ''detected''], rx_sep,
       rx_opt (rx_words [''channel'', ''video'', ''content'']), rx_sep,
       rx_any [rx_cat [rx_lit ''id'', rx_opt (RChr (CHR ''s''))],
               rx_cat [rx_lit ''handle'', rx_opt (RChr (CHR ''s''))]]],
     rx_cat [rx_lit ''uploads'', rx_sep, rx_lit ''playlist'', rx_sep, rx_lit ''id''],
     rx_cat [rx_lit ''mismatched'', rx_sep, rx_lit ''video'', rx_opt (RChr (CHR ''s''))],
     rx_cat [rx_lit ''stable'', rx_sep, rx_lit ''key'', rx_opt (RChr (CHR ''s''))]]"

subsection \<open>Operational text\<close>

definition OPERATIONAL_REDACTION :: string where
  "OPERATIONAL_REDACTION = ''[REDACTED]''"

definition IDENTITY_ERROR_CODE_PATTERN :: "string \<Rightarrow> bool" where
  "IDENTITY_ERROR_CODE_PATTERN c \<longleftrightarrow> contains ''IDENTITY_MISMATCH'' c \<or> contains ''SOURCE_HANDLE_MISMATCH'' c"

text \<open>\<open>/(?:identity|source handle)\s+mismatch/iu\<close>, applied to lower-cased text.\<close>

definition identity_mismatch_here :: "string \<Rightarrow> bool" where
  "identity_mismatch_here s \<longleftrightarrow> list_ex (\<lambda>w. starts_with w s \<and>
     (let r = drop (length w) s
      in r \<noteq> [] \<and> is_space (hd r) \<and> starts_with ''mismatch'' (dropWhile is_space r)))
     [''identity'', ''source handle'']"

fun identity_mismatch_in :: "string \<Rightarrow> bool" where
  "identity_mismatch_in [] = False"
| "identity_mismatch_in (c # s) = (identity_mismatch_here (c # s) \<or> identity_mismatch_in s)"

definition IDENTITY_MESSAGE_PATTERN :: "string \<Rightarrow> bool" where
  "IDENTITY_MESSAGE_PATTERN s = identity_mismatch_in (to_lower s)"

definition is_word_char :: "char \<Rightarrow> bool" where
  "is_word_char c \<longleftrightarrow> is_digit c \<or> is_upper_char c \<or> is_lower_char c \<or> c = CHR ''_''"

text \<open>
  A matcher yields the number of kept characters (the group \<open>$1\<close>) and of replaced ones.
  \<open>replace_all\<close> is the global replacement of a pattern that starts at a word boundary.
\<close>

type_synonym matcher = "string \<Rightarrow> (nat \<times> nat) option"

function replace_all :: "matcher \<Rightarrow> bool \<Rightarrow> string \<Rightarrow> string" where
  "replace_all m inword [] = []"
| "replace_all m inword (c # cs) =
     (case (if inword then None else m (c # cs)) of
        None \<Rightarrow> c # replace_all m (is_word_char c) cs
      | Some (kept, dropped) \<Rightarrow>
          if kept + dropped = 0 then c # replace_all m (is_word_char c) cs
          else take kept (c # cs) @ OPERATIONAL_REDACTION
               @ replace_all m (is_word_char (last (take (kept + dropped) (c # cs))))
                   (drop (kept + dropped) (c # cs)))"
  by pat_completeness auto
termination
  by (relation "measure (\<lambda>(m, w, s). length s)") auto

definition first_word :: "string list \<Rightarrow> string \<Rightarrow> string option" where
  "first_word ws s = find (\<lambda>w. starts_with w (to_lower s)) ws"

text \<open>\<open>\s*(?:=|:)\s*\<close> and then \<open>[^\s,|]+\<close>, after \<open>n\<close> characters of the text.\<close>

definition after_assign :: "string \<Rightarrow> nat \<Rightarrow> (nat \<times> nat) option" where
  "after_assign s n =
     (case dropWhile is_space (drop n s) of
        [] \<Rightarrow> None
      | e # r \<Rightarrow>
          if e \<noteq> CHR ''='' \<and> e \<noteq> CHR '':'' then None
          else let v = dropWhile is_space r;
                   tok = takeWhile (\<lambda>c. \<not> is_space c \<and> c \<noteq> CHR '','' \<and> c \<noteq> CHR ''|'') v
               in if tok = [] then None else Some (length s - length v, length tok))"

definition match_assigned :: matcher where
  "match_assigned s = (case first_word [''expected'', ''actual'', ''detected''] s of
      None \<Rightarrow> None | Some w \<Rightarrow> after_assign s (length w))"

definition is_handle_char :: "char \<Rightarrow> bool" where
  "is_handle_char c \<longleftrightarrow> is_word_char c \<or> c = CHR ''.'' \<or> c = CHR ''-''"

definition match_handle :: matcher where
  "match_handle s = (case first_word [''expected'', ''detected''] s of
      None \<Rightarrow> None
    | Some w \<Rightarrow>
        (let r = drop (length w) s; v = dropWhile is_space r
         in if r = [] \<or> \<not> is_space (hd r) \<or> v = [] \<or> hd v \<noteq> CHR ''@'' then None
            else let tok = takeWhile is_handle_char (tl v)
                 in if tok = [] then None else Some (length s - length v, Suc (length tok))))"

definition match_entity_id :: matcher where
  "match_entity_id s = (case first_word [''channel'', ''video'', ''content''] s of
      None \<Rightarrow> None
    | Some w \<Rightarrow>
        (let r1 = drop (length w) s;
             r2 = (if r1 \<noteq> [] \<and> (hd r1 = CHR ''_'' \<or> hd r1 = CHR ''-'') then tl r1 else r1)
         in if \<not> starts_with ''id'' (to_lower r2) then None
            else let r3 = drop 2 r2;
                     r4 = (if starts_with ''s'' (to_lower r3) then tl r3 else r3)
                 in after_assign s (length s - length r4)))"

definition sanitize_text :: "string \<Rightarrow> string \<Rightarrow> string" where
  "sanitize_text text code =
     (if IDENTITY_ERROR_CODE_PATTERN code \<or> IDENTITY_MESSAGE_PATTERN text
      then ''Source identity validation failed''
      else if starts_with ''SYNC_LOCK_'' code then ''Sync lock operation failed''
      else replace_all match_entity_id False
             (replace_all match_handle False (replace_all match_assigned False text)))"

definition code_option :: "jsval \<Rightarrow> string" where
  "code_option v = (case v of JStr s \<Rightarrow> to_upper (trim s) | _ \<Rightarrow> [])"

definition sanitizeOperationalText :: "jsval \<Rightarrow> jsval \<Rightarrow> string" where
  "sanitizeOperationalText value code =
     sanitize_text (js_text (nullish value (JStr []))) (code_option code)"

subsection \<open>Operational values\<close>

definition camel_split :: "string \<Rightarrow> string" where
  "camel_split s = concat (map (\<lambda>(a, b). if (is_lower_char a \<or> is_digit a) \<and> is_upper_char b
      then [a, CHR ''_''] else [a]) (zip s (tl s @ [CHR '' ''])))"

definition is_alnum :: "char \<Rightarrow> bool" where
  "is_alnum c \<longleftrightarrow> is_digit c \<or> is_upper_char c \<or> is_lower_char c"

fun collapse_separators :: "string \<Rightarrow> string" where
  "collapse_separators [] = []"
| "collapse_separators (c # cs) =
     (if is_alnum c then c # collapse_separators cs
      else case collapse_separators cs of
        [] \<Rightarrow> [CHR ''_'']
      | d # ds \<Rightarrow> if d = CHR ''_'' then d # ds else CHR ''_'' # d # ds)"

definition strip_underscores :: "string \<Rightarrow> string" where
  "strip_underscores s =
     (let u = (\<lambda>c. c = CHR ''_'') in rev (dropWhile u (rev (dropWhile u s))))"

definition normalizeOperationalKey :: "string \<Rightarrow> string" where
  "normalizeOperationalKey k = to_lower (strip_underscores (collapse_separators (camel_split k)))"

definition OPERATIONAL_SAFE_COUNTER_KEYS :: "string list" where
  "OPERATIONAL_SAFE_COUNTER_KEYS = [
     ''analytics_tracked_video_ids'', ''attempts'', ''completed_chunks'', ''confirmed_rows'',
     ''content_rows'', ''daily_snapshot_rows'', ''expected_items'', ''failed_chunk'',
     ''issue_count'', ''max_pages'', ''metric_count'', ''mismatched_video_count'',
     ''missing_count'', ''missing_video_ids'', ''page'', ''page_rows'', ''pages_processed'',
     ''playlist_video_ids'', ''processed_items'', ''queried_video_ids'', ''record_count'',
     ''records'', ''remaining_rows'', ''result_count'', ''retry_count'', ''rows'',
     ''selected_video_ids'', ''skipped_rows'', ''source_snapshot_count'', ''top_content_count'',
     ''total_chunks'', ''total_rows'', ''tracked_content_count'', ''tracked_video_ids'',
     ''warning_count'']"

definition ends_with :: "string \<Rightarrow> string \<Rightarrow> bool" where
  "ends_with p s \<longleftrightarrow> starts_with (rev p) (rev s)"

definition OPERATIONAL_SAFE_COUNTER_SUFFIX_PATTERN :: "string \<Rightarrow> bool" where
  "OPERATIONAL_SAFE_COUNTER_SUFFIX_PATTERN k \<longleftrightarrow>
     list_ex (\<lambda>w. k = w \<or> ends_with (CHR ''_'' # w) k)
       [''count'', ''rows'', ''records'', ''attempts'', ''retries'', ''pages'', ''chunks'', ''items'']"

definition isSafeOperationalCounter :: "string \<Rightarrow> jsval \<Rightarrow> bool" where
  "isSafeOperationalCounter key value =
     (case value of
        JNum n \<Rightarrow> (case n of NNaN \<Rightarrow> False | NInf _ \<Rightarrow> False
          | _ \<Rightarrow> (let k = normalizeOperationalKey key
                 in k \<in> set OPERATIONAL_SAFE_COUNTER_KEYS \<or> OPERATIONAL_SAFE_COUNTER_SUFFIX_PATTERN k))
      | _ \<Rightarrow> False)"

definition is_secret_key :: "string \<Rightarrow> bool" where
  "is_secret_key key = rx_search OPERATIONAL_SECRET_KEY_PATTERN (to_lower key)"

definition is_identity_key :: "string \<Rightarrow> bool" where
  "is_identity_key key = rx_search OPERATIONAL_IDENTITY_KEY_PATTERN (to_lower key)"

definition shouldRedactOperationalValue :: "string \<Rightarrow> jsval \<Rightarrow> bool" where
  "shouldRedactOperationalValue key value =
     (if is_secret_key key then value \<noteq> JNull
      else if isSafeOperationalCounter key value then False
      else is_identity_key key \<and> value \<noteq> JNull)"

fun sanitizeValue :: "jsval \<Rightarrow> jsval" where
  "sanitizeValue (JStr s) = JStr (sanitize_text s [])"
| "sanitizeValue JUndef = JNull"
| "sanitizeValue JNull = JNull"
| "sanitizeValue (JBool b) = JBool b"
| "sanitizeValue (JNum n) = JNum n"
| "sanitizeValue (JArr xs) = JArr (map sanitizeValue xs)"
| "sanitizeValue (JObj kvs) = JObj (map (\<lambda>(k, v).
     (k, if shouldRedactOperationalValue k v then JStr OPERATIONAL_REDACTION else sanitizeValue v)) kvs)"

definition sanitizeOperationalValue :: "jsval \<Rightarrow> jsval" where
  "sanitizeOperationalValue v = sanitizeValue v"

definition isQueueReplaySecretKey :: "string \<Rightarrow> bool" where
  "isQueueReplaySecretKey key =
     (let n = normalizeOperationalKey key in
      n = ''token'' \<or> n = ''authorization'' \<or> n = ''password''
      \<or> list_ex (\<lambda>f. contains f n)
          [''secret'', ''api_key'', ''consumer_key'', ''consumer_secret'', ''client_secret'',
           ''client_id'', ''access_token'', ''refresh_token'', ''oauth_token'', ''bearer_token'',
           ''tenant_token'', ''app_token'', ''private_key'', ''signing_key'', ''credential'',
           ''credentials''])"

fun sanitizeReplayValue :: "jsval \<Rightarrow> jsval" where
  "sanitizeReplayValue (JStr s) = JStr s"
| "sanitizeReplayValue JUndef = JNull"
| "sanitizeReplayValue JNull = JNull"
| "sanitizeReplayValue (JBool b) = JBool b"
| "sanitizeReplayValue (JNum n) = JNum n"
| "sanitizeReplayValue (JArr xs) = JArr (map sanitizeReplayValue xs)"
| "sanitizeReplayValue (JObj kvs) = JObj (map (\<lambda>(k, v).
     (k, if isQueueReplaySecretKey k \<and> v \<noteq> JNull then JStr OPERATIONAL_REDACTION
         else sanitizeReplayValue v)) kvs)"

definition sanitizeQueueReplayValue :: "jsval \<Rightarrow> jsval" where
  "sanitizeQueueReplayValue v = sanitizeReplayValue v"

text \<open>The summary of an error at the boundary that persists it: code, message and details.\<close>

record operational_error =
  oe_code :: "string option"
  oe_message :: string
  oe_details :: jsval

definition error_code_option :: "jserror \<Rightarrow> string option" where
  "error_code_option e = (case err_code e of
     Some c \<Rightarrow> if trim c = [] then None else Some (to_upper (trim c)) | None \<Rightarrow> None)"

definition sanitizeOperationalError :: "jserror \<Rightarrow> operational_error" where
  "sanitizeOperationalError e =
     \<lparr>oe_code = error_code_option e,
      oe_message = sanitize_text (err_message e)
        (case error_code_option e of Some c \<Rightarrow> c | None \<Rightarrow> []),
      oe_details = sanitizeOperationalValue (nullish (err_details e) (JObj []))\<rparr>"

subsection \<open>Redaction reaches every depth\<close>

text \<open>
  \<open>keys_redacted bad v\<close>: every member of an object nested anywhere in \<open>v\<close> whose key and value
  satisfy \<open>bad\<close> is the redaction marker or null.
\<close>

fun keys_redacted :: "(string \<Rightarrow> jsval \<Rightarrow> bool) \<Rightarrow> jsval \<Rightarrow> bool" where
  "keys_redacted bad (JObj kvs) =
     list_all (\<lambda>(k, v). if bad k v then v = JStr OPERATIONAL_REDACTION \<or> v = JNull
                        else keys_redacted bad v) kvs"
| "keys_redacted bad (JArr xs) = list_all (keys_redacted bad) xs"
| "keys_redacted bad _ = True"

lemma keys_redacted_sanitizeValue:
  "keys_redacted (\<lambda>k v. is_secret_key k) (sanitizeValue v)"
  by (induction v rule: sanitizeValue.induct)
    (auto simp: list_all_iff shouldRedactOperationalValue_def)

lemma keys_redacted_sanitizeReplay:
  "keys_redacted (\<lambda>k v. isQueueReplaySecretKey k) (sanitizeReplayValue v)"
  by (induction v rule: sanitizeReplayValue.induct) (auto simp: list_all_iff)

text \<open>Identities are gone unless the value is a safe counter.\<close>

lemma sanitizeValue_JNum: "sanitizeValue v = JNum n \<Longrightarrow> v = JNum n"
  by (cases v) auto

lemma identities_redacted_sanitizeValue:
  "keys_redacted (\<lambda>k v. is_identity_key k \<and> \<not> isSafeOperationalCounter k v) (sanitizeValue v)"
proof (induction v rule: sanitizeValue.induct)
  case (7 kvs)
  have "if is_identity_key k \<and> \<not> isSafeOperationalCounter k v'
        then v' = JStr OPERATIONAL_REDACTION \<or> v' = JNull
        else keys_redacted (\<lambda>k v. is_identity_key k \<and> \<not> isSafeOperationalCounter k v) v'"
    if kv: "(k, v) \<in> set kvs"
      and v': "v' = (if shouldRedactOperationalValue k v then JStr OPERATIONAL_REDACTION
                     else sanitizeValue v)" for k v v'
  proof (cases "shouldRedactOperationalValue k v")
    case False
    have ih: "keys_redacted (\<lambda>k v. is_identity_key k \<and> \<not> isSafeOperationalCounter k v) (sanitizeValue v)"
      using 7 kv False by auto
    have "isSafeOperationalCounter k (sanitizeValue v)" if "isSafeOperationalCounter k v"
      using that by (cases v) (auto simp: isSafeOperationalCounter_def)
    with False ih v' show ?thesis
      by (auto simp: shouldRedactOperationalValue_def split: if_splits)
  qed (use v' in simp)
  then show ?case by (fastforce simp: list_all_iff)
qed (auto simp: list_all_iff)

text \<open>What the replay copy keeps: a tree without undefined values or secret keys is unchanged.\<close>

fun replay_clean :: "jsval \<Rightarrow> bool" where
  "replay_clean JUndef = False"
| "replay_clean (JArr xs) = list_all replay_clean xs"
| "replay_clean (JObj kvs) =
     list_all (\<lambda>(k, v). (isQueueReplaySecretKey k \<longrightarrow> v = JNull) \<and> replay_clean v) kvs"
| "replay_clean _ = True"

lemma sanitizeReplay_clean_id: "replay_clean v \<Longrightarrow> sanitizeReplayValue v = v"
proof (induction v rule: sanitizeReplayValue.induct)
  case (6 xs)
  then show ?case by (auto simp: list_all_iff intro: map_idI)
next
  case (7 kvs)
  have "(case kv of (k, v) \<Rightarrow> (k, if isQueueReplaySecretKey k \<and> v \<noteq> JNull
           then JStr OPERATIONAL_REDACTION else sanitizeReplayValue v)) = kv"
    if "kv \<in> set kvs" for kv
    using 7 that by (cases kv) (fastforce simp: list_all_iff)
  then show ?case by (simp add: map_idI)
qed auto

lemma sanitizeReplay_idem: "sanitizeReplayValue (sanitizeReplayValue v) = sanitizeReplayValue v"
  by (induction v rule: sanitizeReplayValue.induct) auto

subsection \<open>Facts about the constructors\<close>

lemma err_kind_simps [simp]:
  "err_kind (type_error m) = TypeErr" "err_kind (range_error m) = RangeErr"
  "err_kind (plain_error m) = PlainErr"
  by (simp_all add: type_error_def range_error_def plain_error_def)

lemma err_code_simps [simp]:
  "err_code (type_error m) = None" "err_code (range_error m) = None"
  "err_code (plain_error m) = None"
  by (simp_all add: type_error_def range_error_def plain_error_def)

lemma err_retryable_simps [simp]:
  "err_retryable (type_error m) = None" "err_retryable (range_error m) = None"
  "err_retryable (plain_error m) = None"
  by (simp_all add: type_error_def range_error_def plain_error_def)

lemma not_retryable_type_error [simp]: "\<not> isRetryableError (type_error m)"
  by (simp add: isRetryableError_def)

text \<open>A message starting with a visible character is accepted by the constructor.\<close>

lemma trim_visible: "\<not> is_space c \<Longrightarrow> trim (c # cs) \<noteq> []"
proof -
  assume c: "\<not> is_space c"
  have "dropWhile is_space (rev (c # cs)) \<noteq> []"
    using c by (auto simp: dropWhile_eq_Nil_conv)
  with c show ?thesis by (simp add: trim_def)
qed

definition ok_details :: "jsval \<Rightarrow> bool" where
  "ok_details d \<longleftrightarrow> freezeDetails d \<noteq> None"

lemma ok_details_JObj [simp]: "ok_details (JObj kvs)"
  by (simp add: ok_details_def freezeDetails_def is_object_def)

lemma runtime_error_simps:
  assumes "trim m \<noteq> []" "ok_details d"
  shows "err_code (runtime_error m c r d) = Some (normalizeCode c)"
    and "err_retryable (runtime_error m c r d) = Some r"
    and "err_kind (runtime_error m c r d) = RuntimeErr"
    and "err_details (runtime_error m c r d) = the (freezeDetails d)"
  using assms by (auto simp: runtime_error_def ok_details_def)

lemma transient_simps:
  assumes "trim m \<noteq> []" "ok_details d"
  shows "err_code (transientError m c d) = Some (normalizeCode (JStr c))"
    and "isRetryableError (transientError m c d)"
  using runtime_error_simps [OF assms]
  by (simp_all add: transientError_def isRetryableError_def)

lemma permanent_simps:
  assumes "trim m \<noteq> []" "ok_details d"
  shows "err_code (permanentError m c d) = Some (normalizeCode (JStr c))"
    and "err_retryable (permanentError m c d) = Some False"
  using runtime_error_simps [OF assms] by (simp_all add: permanentError_def)

end
