(* ===== verification/Effects.thy ===== *)
theory Effects
  imports Runtime_Errors
begin

text \<open>
  Effects and stored JSON.

  An operation is a function from a state to a result and a state. \<open>andThen\<close> is the await of one
  operation followed by the rest, \<open>check\<close> the same for a pure validation, \<open>catching\<close> a try block
  with its handler. \<open>evolves R m\<close> says that every run of \<open>m\<close>, whether it returns or throws, moves
  the state along the relation \<open>R\<close>; its introduction rules carry such facts through the
  combinators, so that a state invariant of an operation reduces to its statements.

  A JSON text column is represented by the value the text denotes (\<open>JsonText\<close>), or by the text
  itself when \<open>JSON.parse\<close> rejects it (\<open>RawText\<close>).
\<close>

subsection \<open>Combinators\<close>

type_synonym ('s, 'a) eff = "'s \<Rightarrow> (jserror + 'a) \<times> 's"

definition ret :: "'a \<Rightarrow> ('s, 'a) eff" where
  "ret x = (\<lambda>s. (Inr x, s))"

definition throw :: "jserror \<Rightarrow> ('s, 'a) eff" where
  "throw e = (\<lambda>s. (Inl e, s))"

definition andThen :: "('s, 'a) eff \<Rightarrow> ('a \<Rightarrow> ('s, 'b) eff) \<Rightarrow> ('s, 'b) eff" where
  "andThen m f = (\<lambda>s. case m s of (Inl e, t) \<Rightarrow> (Inl e, t) | (Inr x, t) \<Rightarrow> f x t)"

definition check :: "jserror + 'a \<Rightarrow> ('a \<Rightarrow> ('s, 'b) eff) \<Rightarrow> ('s, 'b) eff" where
  "check r f = (\<lambda>s. case r of Inl e \<Rightarrow> (Inl e, s) | Inr x \<Rightarrow> f x s)"

definition catching :: "('s, 'a) eff \<Rightarrow> (jserror \<Rightarrow> ('s, 'a) eff) \<Rightarrow> ('s, 'a) eff" where
  "catching m h = (\<lambda>s. case m s of (Inl e, t) \<Rightarrow> h e t | (Inr x, t) \<Rightarrow> (Inr x, t))"

fun for_each :: "('x \<Rightarrow> ('s, unit) eff) \<Rightarrow> 'x list \<Rightarrow> ('s, unit) eff" where
  "for_each f [] = ret ()"
| "for_each f (x # xs) = andThen (f x) (\<lambda>_. for_each f xs)"

definition gets :: "('s \<Rightarrow> 'a) \<Rightarrow> ('s, 'a) eff" where
  "gets f = (\<lambda>s. (Inr (f s), s))"

definition modify :: "('s \<Rightarrow> 's) \<Rightarrow> ('s, unit) eff" where
  "modify f = (\<lambda>s. (Inr (), f s))"

lemma gets_run [eff_simps]: "gets f s = (Inr (f s), s)"
  by (simp add: gets_def)

lemma modify_run [eff_simps]: "modify f s = (Inr (), f s)"
  by (simp add: modify_def)

lemma ret_run [eff_simps]: "ret x s = (Inr x, s)"
  by (simp add: ret_def)

lemma throw_run [eff_simps]: "throw e s = (Inl e, s)"
  by (simp add: throw_def)

lemma andThen_run [eff_simps]:
  "andThen m f s = (case m s of (Inl e, t) \<Rightarrow> (Inl e, t) | (Inr x, t) \<Rightarrow> f x t)"
  by (simp add: andThen_def)

lemma check_run [eff_simps]: "check r f s = (case r of Inl e \<Rightarrow> (Inl e, s) | Inr x \<Rightarrow> f x s)"
  by (simp add: check_def)

lemma catching_run [eff_simps]:
  "catching m h s = (case m s of (Inl e, t) \<Rightarrow> h e t | (Inr x, t) \<Rightarrow> (Inr x, t))"
  by (simp add: catching_def)

lemma check_Inr [simp]: "check (Inr x) f = f x"
  by (simp add: check_def)

lemma check_Inl [simp]: "check (Inl e) f = throw e"
  by (simp add: check_def throw_def)

lemma andThen_ret [simp]: "andThen (ret x) f = f x"
  by (simp add: andThen_def ret_def)

lemma andThen_throw [simp]: "andThen (throw e) f = throw e"
  by (simp add: andThen_def throw_def)

lemma catching_ret [simp]: "catching (ret x) h = ret x"
  by (simp add: catching_def ret_def)

lemma catching_throw [simp]: "catching (throw e) h = h e"
  by (simp add: catching_def throw_def)

lemma andThen_assoc: "andThen (andThen m f) g = andThen m (\<lambda>x. andThen (f x) g)"
  by (auto simp: andThen_def fun_eq_iff split: prod.splits sum.splits)

subsection \<open>State relations\<close>

definition evolves :: "('s \<Rightarrow> 's \<Rightarrow> bool) \<Rightarrow> ('s, 'a) eff \<Rightarrow> bool" where
  "evolves R m \<longleftrightarrow> (\<forall>s. R s (snd (m s)))"

lemma evolvesI: "(\<And>s. R s (snd (m s))) \<Longrightarrow> evolves R m"
  by (simp add: evolves_def)

lemma evolvesD: "evolves R m \<Longrightarrow> m s = (r, t) \<Longrightarrow> R s t"
  unfolding evolves_def by (metis snd_conv)

lemma evolves_ret [evolves_intro]: "reflp R \<Longrightarrow> evolves R (ret x)"
  by (simp add: evolves_def ret_def reflp_def)

lemma evolves_throw [evolves_intro]: "reflp R \<Longrightarrow> evolves R (throw e)"
  by (simp add: evolves_def throw_def reflp_def)

lemma evolves_mono: "evolves R m \<Longrightarrow> (\<And>s t. R s t \<Longrightarrow> R' s t) \<Longrightarrow> evolves R' m"
  by (simp add: evolves_def)

text \<open>A part of the state an operation leaves alone.\<close>

definition unchanged :: "('s \<Rightarrow> 'p) \<Rightarrow> 's \<Rightarrow> 's \<Rightarrow> bool" where
  "unchanged f s t \<longleftrightarrow> f t = f s"

lemma reflp_unchanged [simp]: "reflp (unchanged f)"
  by (simp add: reflp_def unchanged_def)

lemma transp_unchanged [simp]: "transp (unchanged f)"
  by (auto simp: transp_def unchanged_def)

lemma evolves_gets [evolves_intro]: "reflp R \<Longrightarrow> evolves R (gets f)"
  by (simp add: evolves_def gets_def reflp_def)

lemma evolves_modify [evolves_intro]: "(\<And>s. R s (f s)) \<Longrightarrow> evolves R (modify f)"
  by (simp add: evolves_def modify_def)

lemma evolves_andThen [evolves_intro]:
  assumes "transp R" "evolves R m" "\<And>x. evolves R (f x)"
  shows "evolves R (andThen m f)"
proof (rule evolvesI)
  fix s
  obtain r t where m: "m s = (r, t)" by force
  have st: "R s t" using evolvesD [OF assms(2) m] .
  show "R s (snd (andThen m f s))"
  proof (cases r)
    case (Inr x)
    have "R t (snd (f x t))" using assms(3) by (simp add: evolves_def)
    with st m Inr assms(1) show ?thesis by (auto simp: andThen_run dest: transpD)
  qed (use m st in \<open>simp add: andThen_run\<close>)
qed

lemma evolves_catching [evolves_intro]:
  assumes "transp R" "evolves R m" "\<And>e. evolves R (h e)"
  shows "evolves R (catching m h)"
proof (rule evolvesI)
  fix s
  obtain r t where m: "m s = (r, t)" by force
  have st: "R s t" using evolvesD [OF assms(2) m] .
  show "R s (snd (catching m h s))"
  proof (cases r)
    case (Inl e)
    have "R t (snd (h e t))" using assms(3) by (simp add: evolves_def)
    with st m Inl assms(1) show ?thesis by (auto simp: catching_run dest: transpD)
  qed (use m st in \<open>simp add: catching_run\<close>)
qed

lemma evolves_check [evolves_intro]:
  "reflp R \<Longrightarrow> (\<And>x. r = Inr x \<Longrightarrow> evolves R (f x)) \<Longrightarrow> evolves R (check r f)"
  by (cases r) (auto simp: check_def evolves_def reflp_def)

lemma evolves_if [evolves_intro]:
  "(c \<Longrightarrow> evolves R m) \<Longrightarrow> (\<not> c \<Longrightarrow> evolves R n) \<Longrightarrow> evolves R (if c then m else n)"
  by simp

lemma evolves_case_option [evolves_intro]:
  "(x = None \<Longrightarrow> evolves R m) \<Longrightarrow> (\<And>y. x = Some y \<Longrightarrow> evolves R (f y))
   \<Longrightarrow> evolves R (case x of None \<Rightarrow> m | Some y \<Rightarrow> f y)"
  by (cases x) auto

lemma evolves_case_prod [evolves_intro]:
  "(\<And>a b. x = (a, b) \<Longrightarrow> evolves R (f a b)) \<Longrightarrow> evolves R (case x of (a, b) \<Rightarrow> f a b)"
  by (cases x) auto

lemma evolves_for_each [evolves_intro]:
  "reflp R \<Longrightarrow> transp R \<Longrightarrow> (\<And>x. evolves R (f x)) \<Longrightarrow> evolves R (for_each f xs)"
  by (induction xs) (auto intro: evolves_intro)

lemma evolves_let [evolves_intro]: "(\<And>x. x = v \<Longrightarrow> evolves R (f x)) \<Longrightarrow> evolves R (let x = v in f x)"
  by (simp add: Let_def)

text \<open>A predicate kept by an operation is the relation that implies it forwards.\<close>

definition keeping :: "('s \<Rightarrow> bool) \<Rightarrow> 's \<Rightarrow> 's \<Rightarrow> bool" where
  "keeping P s t \<longleftrightarrow> (P s \<longrightarrow> P t)"

lemma reflp_keeping [simp]: "reflp (keeping P)"
  by (simp add: reflp_def keeping_def)

lemma transp_keeping [simp]: "transp (keeping P)"
  by (auto simp: transp_def keeping_def)

subsection \<open>Triples\<close>

text \<open>
  \<open>triple P m Q E\<close>: from a state in \<open>P\<close>, an operation that returns \<open>x\<close> leaves a state in \<open>Q x\<close>,
  and one that throws leaves a state in \<open>E\<close>.
\<close>

definition triple ::
    "('s \<Rightarrow> bool) \<Rightarrow> ('s, 'a) eff \<Rightarrow> ('a \<Rightarrow> 's \<Rightarrow> bool) \<Rightarrow> ('s \<Rightarrow> bool) \<Rightarrow> bool" where
  "triple P m Q E \<longleftrightarrow> (\<forall>s r t. P s \<and> m s = (r, t) \<longrightarrow> (case r of Inr x \<Rightarrow> Q x t | Inl e \<Rightarrow> E t))"

lemma tripleI:
  assumes "\<And>s x t. P s \<Longrightarrow> m s = (Inr x, t) \<Longrightarrow> Q x t" "\<And>s e t. P s \<Longrightarrow> m s = (Inl e, t) \<Longrightarrow> E t"
  shows "triple P m Q E"
  using assms by (auto simp: triple_def split: sum.split)

lemma triple_InrD: "triple P m Q E \<Longrightarrow> P s \<Longrightarrow> m s = (Inr x, t) \<Longrightarrow> Q x t"
  by (fastforce simp: triple_def)

lemma triple_InlD: "triple P m Q E \<Longrightarrow> P s \<Longrightarrow> m s = (Inl e, t) \<Longrightarrow> E t"
  by (fastforce simp: triple_def)

lemma triple_weaken:
  "triple P m Q E \<Longrightarrow> (\<And>s. P' s \<Longrightarrow> P s) \<Longrightarrow> (\<And>x s. Q x s \<Longrightarrow> Q' x s) \<Longrightarrow> (\<And>s. E s \<Longrightarrow> E' s) \<Longrightarrow>
   triple P' m Q' E'"
  by (rule tripleI) (blast dest: triple_InrD triple_InlD)+

lemma triple_ret [triple_intro]: "(\<And>s. P s \<Longrightarrow> Q x s) \<Longrightarrow> triple P (ret x) Q E"
  by (simp add: triple_def ret_def)

lemma triple_throw [triple_intro]: "(\<And>s. P s \<Longrightarrow> E s) \<Longrightarrow> triple P (throw e) Q E"
  by (simp add: triple_def throw_def)

lemma triple_check [triple_intro]:
  "(\<And>s. P s \<Longrightarrow> E s) \<Longrightarrow> (\<And>x. r = Inr x \<Longrightarrow> triple P (f x) Q E) \<Longrightarrow> triple P (check r f) Q E"
  by (cases r) (auto intro: triple_throw)

lemma triple_andThen [triple_intro]:
  "triple P m R E \<Longrightarrow> (\<And>x. triple (R x) (f x) Q E) \<Longrightarrow> triple P (andThen m f) Q E"
  by (rule tripleI) (auto simp: andThen_run split: prod.splits sum.splits dest: triple_InrD triple_InlD)

lemma triple_catching [triple_intro]:
  "triple P m Q R \<Longrightarrow> (\<And>e. triple R (h e) Q E) \<Longrightarrow> triple P (catching m h) Q E"
  by (rule tripleI) (auto simp: catching_run split: prod.splits sum.splits dest: triple_InrD triple_InlD)

lemma triple_if [triple_intro]:
  "(c \<Longrightarrow> triple P m Q E) \<Longrightarrow> (\<not> c \<Longrightarrow> triple P n Q E) \<Longrightarrow> triple P (if c then m else n) Q E"
  by simp

text \<open>A loop: the invariant speaks of the elements already visited.\<close>

lemma triple_for_each_from:
  assumes "\<And>visited x rest. visited @ x # rest = all \<Longrightarrow> triple (I visited) (f x) (\<lambda>_. I (visited @ [x])) E"
  shows "visited @ xs = all \<Longrightarrow> triple (I visited) (for_each f xs) (\<lambda>_. I all) E"
proof (induction xs arbitrary: visited)
  case (Cons x xs)
  have "triple (I visited) (f x) (\<lambda>_. I (visited @ [x])) E" using assms Cons.prems by blast
  then show ?case using Cons by (auto intro!: triple_andThen)
qed (auto intro: triple_ret)

lemmas triple_for_each = triple_for_each_from [where visited = "[]", simplified]

subsection \<open>Stored JSON\<close>

datatype json_text = JsonText jsval | RawText string

text \<open>What \<open>JSON.parse(JSON.stringify(v))\<close> gives.\<close>

fun json_norm :: "jsval \<Rightarrow> jsval" where
  "json_norm JUndef = JNull"
| "json_norm (JNum NNaN) = JNull"
| "json_norm (JNum (NInf b)) = JNull"
| "json_norm (JArr xs) = JArr (map json_norm xs)"
| "json_norm (JObj kvs) =
     JObj (map (\<lambda>(k, v). (k, json_norm v)) (filter (\<lambda>(k, v). v \<noteq> JUndef) kvs))"
| "json_norm v = v"

definition hex_char :: "nat \<Rightarrow> char" where
  "hex_char d = (if d < 10 then char_of (48 + d) else char_of (87 + d))"

definition json_char :: "char \<Rightarrow> string" where
  "json_char c =
     (if c = CHR 0x22 then [CHR 0x5C, CHR 0x22]
      else if c = CHR 0x5C then [CHR 0x5C, CHR 0x5C]
      else if c = CHR 0x08 then [CHR 0x5C, CHR ''b'']
      else if c = CHR 0x0C then [CHR 0x5C, CHR ''f'']
      else if c = CHR 0x0A then [CHR 0x5C, CHR ''n'']
      else if c = CHR 0x0D then [CHR 0x5C, CHR ''r'']
      else if c = CHR 0x09 then [CHR 0x5C, CHR ''t'']
      else if c < CHR 0x20 then
        [CHR 0x5C] @ ''u00'' @ [hex_char (of_char c div 16), hex_char (of_char c mod 16)]
      else [c])"

definition json_quote :: "string \<Rightarrow> string" where
  "json_quote s = [CHR 0x22] @ concat (map json_char s) @ [CHR 0x22]"

text \<open>The text of \<open>JSON.stringify\<close>, which the size limits measure.\<close>

fun json_print :: "jsval \<Rightarrow> string" where
  "json_print JUndef = ''null''"
| "json_print JNull = ''null''"
| "json_print (JBool b) = (if b then ''true'' else ''false'')"
| "json_print (JNum n) = (case n of NNaN \<Rightarrow> ''null'' | NInf _ \<Rightarrow> ''null'' | _ \<Rightarrow> num_text n)"
| "json_print (JStr s) = json_quote s"
| "json_print (JArr xs) = ''['' @ join '','' (map json_print xs) @ '']''"
| "json_print (JObj kvs) = ''{'' @ join '',''
     (map (\<lambda>(k, v). json_quote k @ '':'' @ json_print v) (filter (\<lambda>(k, v). v \<noteq> JUndef) kvs)) @ ''}''"

definition json_stringify :: "jsval \<Rightarrow> json_text" where
  "json_stringify v = JsonText (json_norm v)"

definition json_parse :: "json_text \<Rightarrow> jsval option" where
  "json_parse t = (case t of JsonText v \<Rightarrow> Some v | RawText _ \<Rightarrow> None)"

end
