(* ===== verification/D1_Database.thy ===== *)
theory D1_Database
  imports Effects
begin

text \<open>
  The D1 (SQLite) database the stores share: the tables of \<open>migrations/0002\<close> to \<open>0010\<close> as lists of
  rows in insertion order, the statements \<open>SELECT\<close>, \<open>UPDATE\<close>, \<open>DELETE\<close> and
  \<open>INSERT .. ON CONFLICT DO UPDATE .. WHERE\<close> over them, and the ways a statement can fail.

  A column with a \<open>CHECK (.. IN ..)\<close> constraint is a datatype, a nullable column an option. Rows
  that an \<open>ORDER BY\<close> leaves tied keep insertion order.

  A statement meets the next fault of \<open>faults\<close> (none when the list is empty): it may run, be
  refused without effect, or take effect while its reply is lost. Only the last one makes a caller
  see an error although the write is durable.
\<close>

subsection \<open>Rows\<close>

datatype lifecycle = Active | Completed | Terminal | Superseded
datatype outbox_status = Pending | Delivered
datatype dlq_status = Open | Replayed | Resolved | Discarded | RedrivePending | Redriven
datatype recovery_status = NotStarted | InProgress | RecoveryCompleted
datatype mirror_status = MirrorPending | MirrorDelivered | MirrorFailedPermanent

record lock_row =
  lk_key :: string
  lk_owner :: string
  lk_acquired_at :: int
  lk_expires_at :: int
  lk_updated_at :: int

record fence_row =
  fn_cursor_key :: string
  fn_generation :: int
  fn_requested_at :: int
  fn_work_key :: string
  fn_updated_at :: int

record work_row =
  wk_key :: string
  wk_cursor_key :: string
  wk_type :: string
  wk_fingerprint :: string
  wk_generation :: int
  wk_requested_at :: int
  wk_lifecycle :: lifecycle
  wk_terminal_reason :: "string option"
  wk_abandoned_at :: "int option"
  wk_completed_at :: "int option"
  wk_expires_at :: "int option"
  wk_audit :: "string option"
  wk_completion :: "json_text option"
  wk_created_at :: int
  wk_updated_at :: int

record phase_row =
  ph_work_key :: string
  ph_phase :: string
  ph_state :: json_text
  ph_expected :: int
  ph_processed :: int
  ph_pages :: int
  ph_chunks :: int
  ph_complete :: bool
  ph_created_at :: int
  ph_updated_at :: int

record unit_row =
  un_work_key :: string
  un_phase :: string
  un_key :: string
  un_sequence :: int
  un_payload :: json_text
  un_created_at :: int
  un_updated_at :: int

record warning_row =
  wn_outbox_id :: string
  wn_work_key :: string
  wn_sync_run_id :: string
  wn_type :: string
  wn_source_key :: string
  wn_payload :: json_text
  wn_status :: outbox_status
  wn_attempts :: int
  wn_last_error :: "string option"
  wn_created_at :: int
  wn_updated_at :: int
  wn_delivered_at :: "int option"

record cursor_row =
  cu_key :: string
  cu_customer_profile :: string
  cu_platform :: string
  cu_account_key :: string
  cu_source :: string
  cu_sync_type :: string
  cu_last_metric_date :: "string option"
  cu_dictionary_hash :: "string option"
  cu_last_full_sync_at :: "int option"
  cu_last_successful_sync_at :: int
  cu_run_count :: int
  cu_last_sync_run_id :: string
  cu_generation :: int
  cu_generation_work_key :: "string option"
  cu_requested_at :: int
  cu_created_at :: int
  cu_updated_at :: int

record record_state_row =
  rs_cursor_key :: string
  rs_source_record_id :: string
  rs_source_modified_at :: "int option"
  rs_source_hash :: string
  rs_external_content_id :: "string option"
  rs_last_seen_sync_run_id :: string
  rs_last_seen_at :: int
  rs_created_at :: int
  rs_updated_at :: int

record run_row =
  sr_id :: string
  sr_customer_profile :: "string option"
  sr_platform :: string
  sr_account_key :: "string option"
  sr_source :: "string option"
  sr_sync_type :: string
  sr_status :: string
  sr_started_at :: "int option"
  sr_finished_at :: "int option"
  sr_pulled :: int
  sr_created :: int
  sr_updated :: int
  sr_skipped :: int
  sr_written :: int
  sr_retry_count :: int
  sr_error_code :: "string option"
  sr_error_message :: "string option"
  sr_details :: json_text
  sr_created_at :: int
  sr_updated_at :: int

record alert_row =
  al_id :: string
  al_sync_run_id :: "string option"
  al_type :: string
  al_severity :: string
  al_platform :: string
  al_status :: string
  al_message :: string
  al_error_code :: "string option"
  al_details :: json_text
  al_created_at :: int
  al_updated_at :: int

record dlq_row =
  dl_id :: string
  dl_message_id :: "string option"
  dl_queue_name :: "string option"
  dl_job_type :: "string option"
  dl_schema_version :: "int option"
  dl_payload :: json_text
  dl_replay_payload :: "json_text option"
  dl_error_code :: "string option"
  dl_error_message :: "string option"
  dl_retry_count :: int
  dl_status :: dlq_status
  dl_created_at :: int
  dl_updated_at :: int
  dl_redrive_requested_at :: "int option"
  dl_redrive_reference :: "string option"
  dl_redriven_at :: "int option"

record mirror_row =
  mr_id :: string
  mr_method :: string
  mr_payload :: json_text
  mr_status :: mirror_status
  mr_revision :: int
  mr_attempts :: int
  mr_last_error_code :: "string option"
  mr_last_error_message :: "string option"
  mr_created_at :: int
  mr_updated_at :: int
  mr_delivered_at :: "int option"

record attempt_row =
  qa_operation_id :: string
  qa_work_key :: string
  qa_generation :: "int option"
  qa_requested_at :: "int option"
  qa_attempts :: int
  qa_last_message_id :: "string option"
  qa_created_at :: int
  qa_updated_at :: int

record meta_row =
  md_dlq_id :: string
  md_operation_id :: "string option"
  md_work_key :: "string option"
  md_generation :: "int option"
  md_requested_at :: "int option"
  md_main_attempts :: int
  md_dlq_attempts :: int
  md_recovery_status :: "recovery_status option"
  md_recovery_reference :: "string option"
  md_recovery_started_at :: "int option"
  md_recovery_completed_at :: "int option"
  md_audit :: "string option"
  md_created_at :: int
  md_updated_at :: int

datatype fault = Fine | Refused string | LostReply string

record d1 =
  faults :: "fault list"
  sync_locks :: "lock_row list"
  sync_generation_fences :: "fence_row list"
  sync_work_runs :: "work_row list"
  sync_work_phases :: "phase_row list"
  sync_work_units :: "unit_row list"
  sync_warning_outbox :: "warning_row list"
  sync_cursors :: "cursor_row list"
  source_record_states :: "record_state_row list"
  sync_runs :: "run_row list"
  system_alerts :: "alert_row list"
  dead_letter_jobs :: "dlq_row list"
  reliability_mirror_outbox :: "mirror_row list"
  queue_operation_attempts :: "attempt_row list"
  dead_letter_operation_metadata :: "meta_row list"

definition empty_d1 :: d1 where
  "empty_d1 = \<lparr>faults = [], sync_locks = [], sync_generation_fences = [], sync_work_runs = [],
     sync_work_phases = [], sync_work_units = [], sync_warning_outbox = [], sync_cursors = [],
     source_record_states = [], sync_runs = [], system_alerts = [], dead_letter_jobs = [],
     reliability_mirror_outbox = [], queue_operation_attempts = [],
     dead_letter_operation_metadata = []\<rparr>"

subsection \<open>Statements over one table\<close>

definition sql_first :: "('r \<Rightarrow> bool) \<Rightarrow> 'r list \<Rightarrow> 'r option" where
  "sql_first p t = find p t"

definition sql_update :: "('r \<Rightarrow> bool) \<Rightarrow> ('r \<Rightarrow> 'r) \<Rightarrow> 'r list \<Rightarrow> nat \<times> 'r list" where
  "sql_update p f t = (length (filter p t), map (\<lambda>r. if p r then f r else r) t)"

definition sql_delete :: "('r \<Rightarrow> bool) \<Rightarrow> 'r list \<Rightarrow> nat \<times> 'r list" where
  "sql_delete p t = (length (filter p t), filter (\<lambda>r. \<not> p r) t)"

text \<open>\<open>INSERT .. ON CONFLICT(key) DO UPDATE SET .. WHERE guard\<close>\<close>

definition sql_upsert ::
    "('r \<Rightarrow> bool) \<Rightarrow> ('r \<Rightarrow> bool) \<Rightarrow> ('r \<Rightarrow> 'r) \<Rightarrow> 'r \<Rightarrow> 'r list \<Rightarrow> nat \<times> 'r list" where
  "sql_upsert same guard upd new t =
     (if list_ex same t then sql_update (\<lambda>r. same r \<and> guard r) upd t else (1, t @ [new]))"

definition sql_select :: "('r \<Rightarrow> bool) \<Rightarrow> ('r \<Rightarrow> 'k::linorder) \<Rightarrow> nat \<Rightarrow> 'r list \<Rightarrow> 'r list" where
  "sql_select p key n t = take n (sort_key key (filter p t))"

text \<open>A statement over one table, run on the database.\<close>

definition on_table ::
    "(d1 \<Rightarrow> 'r list) \<Rightarrow> (('r list \<Rightarrow> 'r list) \<Rightarrow> d1 \<Rightarrow> d1) \<Rightarrow> ('r list \<Rightarrow> nat \<times> 'r list) \<Rightarrow>
     d1 \<Rightarrow> nat \<times> d1" where
  "on_table tab put q s = (fst (q (tab s)), put (\<lambda>_. snd (q (tab s))) s)"

lemma fst_on_table [simp]: "fst (on_table tab put q s) = fst (q (tab s))"
  by (simp add: on_table_def)

lemma snd_on_table [simp]: "snd (on_table tab put q s) = put (\<lambda>_. snd (q (tab s))) s"
  by (simp add: on_table_def)

definition coalesce :: "'a option \<Rightarrow> 'a option \<Rightarrow> 'a option" where
  "coalesce a b = (case a of Some x \<Rightarrow> Some x | None \<Rightarrow> b)"

lemma coalesce_simps [simp]: "coalesce (Some x) b = Some x" "coalesce None b = b"
  by (simp_all add: coalesce_def)

definition keyed :: "('r \<Rightarrow> 'k) \<Rightarrow> 'r list \<Rightarrow> bool" where
  "keyed k t \<longleftrightarrow> distinct (map k t)"

definition row_at :: "('r \<Rightarrow> 'k) \<Rightarrow> 'k \<Rightarrow> 'r list \<Rightarrow> 'r option" where
  "row_at k x t = find (\<lambda>r. k r = x) t"

lemma row_at_Nil [simp]: "row_at k x [] = None"
  by (simp add: row_at_def)

lemma row_at_Cons [simp]: "row_at k x (r # t) = (if k r = x then Some r else row_at k x t)"
  by (simp add: row_at_def)

lemma row_at_SomeD: "row_at k x t = Some r \<Longrightarrow> r \<in> set t \<and> k r = x"
  by (induction t) (auto split: if_splits)

lemma row_at_None_iff: "row_at k x t = None \<longleftrightarrow> x \<notin> k ` set t"
  by (induction t) auto

lemma row_at_None_all: "row_at k x t = None \<longleftrightarrow> (\<forall>r \<in> set t. k r \<noteq> x)"
  by (induction t) auto

lemma row_at_in: "keyed k t \<Longrightarrow> r \<in> set t \<Longrightarrow> row_at k (k r) t = Some r"
  by (induction t) (auto simp: keyed_def image_iff)

lemma row_at_append: "row_at k x (t @ u) = (case row_at k x t of Some r \<Rightarrow> Some r | None \<Rightarrow> row_at k x u)"
  by (induction t) auto

lemma row_at_update:
  assumes "\<And>r. p r \<Longrightarrow> k (f r) = k r"
  shows "row_at k x (snd (sql_update p f t)) = map_option (\<lambda>r. if p r then f r else r) (row_at k x t)"
  using assms by (induction t) (auto simp: sql_update_def)

lemma row_at_delete:
  assumes "keyed k t"
  shows "row_at k x (snd (sql_delete p t)) =
    (case row_at k x t of Some r \<Rightarrow> if p r then None else Some r | None \<Rightarrow> None)"
  using assms
proof (induction t)
  case (Cons r t)
  show ?case
  proof (cases "k r = x \<and> p r")
    case True
    with Cons.prems have "x \<notin> k ` set (filter (\<lambda>r. \<not> p r) t)"
      by (auto simp: keyed_def)
    with True show ?thesis by (simp add: sql_delete_def row_at_None_iff)
  qed (use Cons in \<open>auto simp: sql_delete_def keyed_def\<close>)
qed (simp add: sql_delete_def)

lemma row_at_upsert:
  assumes "\<And>r. k r = k new \<Longrightarrow> k (f r) = k r"
  shows "row_at k x (snd (sql_upsert (\<lambda>r. k r = k new) g f new t)) =
    (if x = k new
     then (case row_at k x t of Some r \<Rightarrow> Some (if g r then f r else r) | None \<Rightarrow> Some new)
     else row_at k x t)"
proof (cases "row_at k (k new) t")
  case None
  then have "\<not> list_ex (\<lambda>r. k r = k new) t"
    by (simp add: row_at_None_all list_ex_iff)
  with None show ?thesis
    by (auto simp: sql_upsert_def row_at_append split: option.splits)
next
  case (Some r)
  then have ex: "list_ex (\<lambda>r. k r = k new) t"
    by (auto simp: list_ex_iff dest: row_at_SomeD)
  have "row_at k x (snd (sql_update (\<lambda>r. k r = k new \<and> g r) f t)) =
      map_option (\<lambda>r. if k r = k new \<and> g r then f r else r) (row_at k x t)"
    by (rule row_at_update) (use assms in auto)
  with ex Some show ?thesis
    by (auto simp: sql_upsert_def map_option_case dest: row_at_SomeD split: option.splits)
qed

lemma keyed_update: "(\<And>r. p r \<Longrightarrow> k (f r) = k r) \<Longrightarrow> keyed k t \<Longrightarrow> keyed k (snd (sql_update p f t))"
proof -
  assume k: "\<And>r. p r \<Longrightarrow> k (f r) = k r" and t: "keyed k t"
  have "map k (map (\<lambda>r. if p r then f r else r) t) = map k t"
    using k by (induction t) auto
  with t show ?thesis by (simp only: keyed_def sql_update_def snd_conv)
qed

lemma keyed_delete: "keyed k t \<Longrightarrow> keyed k (snd (sql_delete p t))"
  by (simp add: keyed_def sql_delete_def distinct_map_filter)

lemma keyed_upsert:
  assumes "keyed k t" "\<And>r. k r = k new \<Longrightarrow> k (f r) = k r"
  shows "keyed k (snd (sql_upsert (\<lambda>r. k r = k new) g f new t))"
proof (cases "list_ex (\<lambda>r. k r = k new) t")
  case True
  have "keyed k (snd (sql_update (\<lambda>r. k r = k new \<and> g r) f t))"
    by (rule keyed_update) (use assms in auto)
  with True show ?thesis by (simp add: sql_upsert_def)
next
  case False
  then have "k new \<notin> k ` set t" by (force simp: list_ex_iff)
  with assms(1) False show ?thesis by (simp add: sql_upsert_def keyed_def)
qed

lemma set_update: "set (snd (sql_update p f t)) = (\<lambda>r. if p r then f r else r) ` set t"
  by (simp add: sql_update_def)

lemma update_changes_pos: "0 < fst (sql_update p f t) \<longleftrightarrow> (\<exists>r \<in> set t. p r)"
  by (auto simp: sql_update_def filter_empty_conv)

lemma upsert_changes_pos:
  "0 < fst (sql_upsert same g f new t) \<longleftrightarrow> (\<forall>r \<in> set t. \<not> same r) \<or> (\<exists>r \<in> set t. same r \<and> g r)"
  by (auto simp: sql_upsert_def list_ex_iff update_changes_pos)

lemma upsert_same_key_changes:
  assumes "keyed k t"
  shows "0 < fst (sql_upsert (\<lambda>r. k r = x) g f new t) \<longleftrightarrow>
    (case row_at k x t of None \<Rightarrow> True | Some r \<Rightarrow> g r)"
proof (cases "row_at k x t")
  case None
  then have "\<forall>r \<in> set t. k r \<noteq> x" by (simp add: row_at_None_all)
  with None show ?thesis by (simp add: upsert_changes_pos)
next
  case (Some r)
  then have r: "r \<in> set t" "k r = x" by (auto dest: row_at_SomeD)
  have "r' = r" if "r' \<in> set t" "k r' = x" for r'
    using row_at_in [OF assms that(1)] that(2) Some by simp
  then have "(\<exists>r' \<in> set t. k r' = x \<and> g r') \<longleftrightarrow> g r" using r by blast
  moreover have "\<not> (\<forall>r' \<in> set t. k r' \<noteq> x)" using r by blast
  ultimately show ?thesis using Some by (auto simp: upsert_changes_pos)
qed

lemma key_row_unique: "keyed k t \<Longrightarrow> row_at k x t = Some r \<Longrightarrow> r' \<in> set t \<Longrightarrow> k r' = x \<Longrightarrow> r' = r"
  using row_at_in by fastforce

lemma changes_keyed_update:
  assumes "keyed k t"
  shows "0 < fst (sql_update (\<lambda>r. k r = x \<and> g r) f t) \<longleftrightarrow>
    (case row_at k x t of None \<Rightarrow> False | Some r \<Rightarrow> g r)"
  using key_row_unique [OF assms]
  by (auto simp: update_changes_pos row_at_None_all dest: row_at_SomeD split: option.split)

lemma changes_keyed_delete:
  assumes "keyed k t"
  shows "0 < fst (sql_delete (\<lambda>r. k r = x \<and> g r) t) \<longleftrightarrow>
    (case row_at k x t of None \<Rightarrow> False | Some r \<Rightarrow> g r)"
  using changes_keyed_update [OF assms, of x g] by (simp add: sql_delete_def sql_update_def)

lemma update_no_changes: "fst (sql_update p f t) = 0 \<Longrightarrow> snd (sql_update p f t) = t"
  by (auto simp: sql_update_def filter_empty_conv intro: map_idI)

lemma upsert_no_changes: "fst (sql_upsert same g f new t) = 0 \<Longrightarrow> snd (sql_upsert same g f new t) = t"
  by (auto simp: sql_upsert_def update_no_changes split: if_splits)

lemma put_same [simp]:
  "s\<lparr>sync_locks := sync_locks s\<rparr> = s"
  "s\<lparr>sync_generation_fences := sync_generation_fences s\<rparr> = s"
  "s\<lparr>sync_work_runs := sync_work_runs s\<rparr> = s"
  "s\<lparr>dead_letter_jobs := dead_letter_jobs s\<rparr> = s"
  "s\<lparr>queue_operation_attempts := queue_operation_attempts s\<rparr> = s"
  by (simp_all add: d1.equality)

subsection \<open>Running statements\<close>

definition next_fault :: "d1 \<Rightarrow> fault" where
  "next_fault s = (case faults s of [] \<Rightarrow> Fine | f # _ \<Rightarrow> f)"

definition spend_fault :: "d1 \<Rightarrow> d1" where
  "spend_fault s = s\<lparr>faults := tl (faults s)\<rparr>"

text \<open>The argument maps the database to a constraint violation or to a reply and a new database.\<close>

definition stmt :: "(d1 \<Rightarrow> string + ('a \<times> d1)) \<Rightarrow> (d1, 'a) eff" where
  "stmt q = (\<lambda>s. let s0 = spend_fault s in
     case next_fault s of
       Refused m \<Rightarrow> (Inl (plain_error m), s0)
     | Fine \<Rightarrow> (case q s0 of Inl m \<Rightarrow> (Inl (plain_error m), s0) | Inr (x, t) \<Rightarrow> (Inr x, t))
     | LostReply m \<Rightarrow>
         (Inl (plain_error m), case q s0 of Inl _ \<Rightarrow> s0 | Inr (x, t) \<Rightarrow> t))"

definition query :: "(d1 \<Rightarrow> 'a) \<Rightarrow> (d1, 'a) eff" where
  "query q = stmt (\<lambda>s. Inr (q s, s))"

definition run_sql :: "(d1 \<Rightarrow> nat \<times> d1) \<Rightarrow> (d1, nat) eff" where
  "run_sql q = stmt (\<lambda>s. Inr (q s))"

text \<open>\<open>db.batch\<close>: one transaction, undone by a constraint violation.\<close>

definition batch :: "(d1 \<Rightarrow> string + d1) \<Rightarrow> (d1, unit) eff" where
  "batch q = stmt (\<lambda>s. case q s of Inl m \<Rightarrow> Inl m | Inr t \<Rightarrow> Inr ((), t))"

lemma faults_self [simp]: "(s::d1)\<lparr>faults := faults s\<rparr> = s"
  by (cases s) simp

lemma spend_update [simp]: "(spend_fault s)\<lparr>faults := fs\<rparr> = s\<lparr>faults := fs\<rparr>"
  by (simp add: spend_fault_def)

definition quiet :: "d1 \<Rightarrow> bool" where
  "quiet s \<longleftrightarrow> faults s = []"

lemma quiet_empty [simp]: "quiet empty_d1"
  by (simp add: quiet_def empty_d1_def)

lemma stmt_quiet: "quiet s \<Longrightarrow> stmt q s =
    (case q s of Inl m \<Rightarrow> (Inl (plain_error m), s) | Inr (x, t) \<Rightarrow> (Inr x, t))"
proof -
  assume "quiet s"
  then have f: "faults s = []" by (simp add: quiet_def)
  have "next_fault s = Fine" using f by (simp add: next_fault_def)
  moreover have "spend_fault s = s"
    unfolding spend_fault_def using f faults_self [of s] by simp
  ultimately show ?thesis by (simp only: stmt_def Let_def fault.case)
qed

lemma query_quiet [eff_simps]: "quiet s \<Longrightarrow> query q s = (Inr (q s), s)"
  by (simp add: query_def stmt_quiet)

lemma run_sql_quiet [eff_simps]: "quiet s \<Longrightarrow> run_sql q s = (Inr (fst (q s)), snd (q s))"
  by (simp add: run_sql_def stmt_quiet split: prod.split)

lemma stmt_InrD: "stmt q s = (Inr x, t) \<Longrightarrow> q (spend_fault s) = Inr (x, t)"
  by (auto simp: stmt_def Let_def split: fault.splits sum.splits prod.splits)

lemma query_InrD: "query q s = (Inr x, t) \<Longrightarrow> t = spend_fault s \<and> x = q t"
  by (auto simp: query_def dest: stmt_InrD)

lemma query_snd: "snd (query q s) = spend_fault s"
  by (auto simp: query_def stmt_def Let_def split: fault.splits)

lemma run_sql_InrD: "run_sql q s = (Inr n, t) \<Longrightarrow> (n, t) = q (spend_fault s)"
  by (auto simp: run_sql_def dest: stmt_InrD)

lemma run_sql_eq: "run_sql q s = (case next_fault s of
      Fine \<Rightarrow> (Inr (fst (q (spend_fault s))), snd (q (spend_fault s)))
    | Refused m \<Rightarrow> (Inl (plain_error m), spend_fault s)
    | LostReply m \<Rightarrow> (Inl (plain_error m), snd (q (spend_fault s))))"
  by (simp add: run_sql_def stmt_def Let_def split: fault.split prod.split)

lemma query_eq: "query q s = (case next_fault s of
      Fine \<Rightarrow> (Inr (q (spend_fault s)), spend_fault s)
    | Refused m \<Rightarrow> (Inl (plain_error m), spend_fault s)
    | LostReply m \<Rightarrow> (Inl (plain_error m), spend_fault s))"
  by (simp add: query_def stmt_def Let_def split: fault.split)

lemma run_sql_cases:
  assumes "run_sql q s = (r, t)"
  obtains (failed) m where "r = Inl (plain_error m)" "t = spend_fault s"
    | (lost) m where "r = Inl (plain_error m)" "t = snd (q (spend_fault s))"
    | (committed) "r = Inr (fst (q (spend_fault s)))" "t = snd (q (spend_fault s))"
proof (cases "next_fault s")
  case Fine
  show ?thesis by (rule committed) (use assms Fine in \<open>auto simp: run_sql_eq\<close>)
next
  case (Refused m)
  show ?thesis by (rule failed [of m]) (use assms Refused in \<open>auto simp: run_sql_eq\<close>)
next
  case (LostReply m)
  show ?thesis by (rule lost [of m]) (use assms LostReply in \<open>auto simp: run_sql_eq\<close>)
qed

lemma query_cases:
  assumes "query q s = (r, t)"
  obtains (failed) m where "r = Inl (plain_error m)" "t = spend_fault s"
    | (committed) "r = Inr (q (spend_fault s))" "t = spend_fault s"
proof (cases "next_fault s")
  case Fine
  show ?thesis by (rule committed) (use assms Fine in \<open>auto simp: query_eq\<close>)
next
  case (Refused m)
  show ?thesis by (rule failed [of m]) (use assms Refused in \<open>auto simp: query_eq\<close>)
next
  case (LostReply m)
  show ?thesis by (rule failed [of m]) (use assms LostReply in \<open>auto simp: query_eq\<close>)
qed

lemma spend_tables [simp]:
  "sync_locks (spend_fault s) = sync_locks s"
  "sync_generation_fences (spend_fault s) = sync_generation_fences s"
  "sync_work_runs (spend_fault s) = sync_work_runs s"
  "sync_work_phases (spend_fault s) = sync_work_phases s"
  "sync_work_units (spend_fault s) = sync_work_units s"
  "sync_warning_outbox (spend_fault s) = sync_warning_outbox s"
  "sync_cursors (spend_fault s) = sync_cursors s"
  "source_record_states (spend_fault s) = source_record_states s"
  "sync_runs (spend_fault s) = sync_runs s"
  "system_alerts (spend_fault s) = system_alerts s"
  "dead_letter_jobs (spend_fault s) = dead_letter_jobs s"
  "reliability_mirror_outbox (spend_fault s) = reliability_mirror_outbox s"
  "queue_operation_attempts (spend_fault s) = queue_operation_attempts s"
  "dead_letter_operation_metadata (spend_fault s) = dead_letter_operation_metadata s"
  by (simp_all add: spend_fault_def)

text \<open>Relations that ignore the fault schedule; they pass through statements.\<close>

definition fault_blind :: "(d1 \<Rightarrow> d1 \<Rightarrow> bool) \<Rightarrow> bool" where
  "fault_blind R \<longleftrightarrow> (\<forall>s t fs gs. R s t \<longrightarrow> R (s\<lparr>faults := fs\<rparr>) (t\<lparr>faults := gs\<rparr>))"

lemma fault_blind_spend:
  assumes "reflp R" "fault_blind R"
  shows "R s (spend_fault s)"
proof -
  have "R s s" using assms(1) by (simp add: reflp_def)
  then have "R (s\<lparr>faults := faults s\<rparr>) (s\<lparr>faults := tl (faults s)\<rparr>)"
    using assms(2) unfolding fault_blind_def by blast
  then show ?thesis by (simp add: spend_fault_def)
qed

lemma fault_blind_unspend:
  assumes "fault_blind R" "R (spend_fault s) t"
  shows "R s t"
proof -
  have "R ((spend_fault s)\<lparr>faults := faults s\<rparr>) (t\<lparr>faults := faults t\<rparr>)"
    using assms unfolding fault_blind_def by blast
  then show ?thesis by simp
qed

lemma evolves_stmt:
  assumes "reflp R" "fault_blind R" "\<And>s x t. q s = Inr (x, t) \<Longrightarrow> R s t"
  shows "evolves R (stmt q)"
proof (rule evolvesI)
  fix s
  have sp: "R s (spend_fault s)" using assms(1,2) by (rule fault_blind_spend)
  have ex: "R s t" if "q (spend_fault s) = Inr (x, t)" for x t
    using assms(2) assms(3) [OF that] by (rule fault_blind_unspend)
  show "R s (snd (stmt q s))"
    using sp ex by (auto simp: stmt_def Let_def split: fault.splits sum.splits)
qed

lemma evolves_query [evolves_intro]:
  "reflp R \<Longrightarrow> fault_blind R \<Longrightarrow> evolves R (query q)"
  unfolding query_def by (rule evolves_stmt) (auto simp: reflp_def)

lemma evolves_run_sql [evolves_intro]:
  "reflp R \<Longrightarrow> fault_blind R \<Longrightarrow> (\<And>s. R s (snd (q s))) \<Longrightarrow> evolves R (run_sql q)"
  unfolding run_sql_def by (rule evolves_stmt) (auto, metis snd_conv)

lemma evolves_batch [evolves_intro]:
  "reflp R \<Longrightarrow> fault_blind R \<Longrightarrow> (\<And>s t. q s = Inr t \<Longrightarrow> R s t) \<Longrightarrow> evolves R (batch q)"
  unfolding batch_def by (rule evolves_stmt) (auto split: sum.splits)

lemma batch_quiet [eff_simps]: "quiet s \<Longrightarrow> batch q s =
    (case q s of Inl m \<Rightarrow> (Inl (plain_error m), s) | Inr t \<Rightarrow> (Inr (), t))"
  by (simp add: batch_def stmt_quiet split: sum.split)

lemma batch_eq: "batch q s = (let s0 = spend_fault s in case next_fault s of
      Refused m \<Rightarrow> (Inl (plain_error m), s0)
    | Fine \<Rightarrow> (case q s0 of Inl m \<Rightarrow> (Inl (plain_error m), s0) | Inr t \<Rightarrow> (Inr (), t))
    | LostReply m \<Rightarrow> (Inl (plain_error m), case q s0 of Inl _ \<Rightarrow> s0 | Inr t \<Rightarrow> t))"
  by (auto simp: batch_def stmt_def Let_def split: fault.split sum.split)

lemma fault_blind_unchanged:
  "(\<And>s fs. f (s\<lparr>faults := fs\<rparr>) = f s) \<Longrightarrow> fault_blind (unchanged f)"
  by (simp add: fault_blind_def unchanged_def)

lemma evolves_query_plain [evolves_intro]:
  "(\<And>s fs. f (s\<lparr>faults := fs\<rparr>) = f s) \<Longrightarrow> evolves (unchanged f) (query q)"
  by (intro evolves_query fault_blind_unchanged) simp_all

lemma evolves_run_sql_plain [evolves_intro]:
  "(\<And>s fs. f (s\<lparr>faults := fs\<rparr>) = f s) \<Longrightarrow> (\<And>s. f (snd (q s)) = f s) \<Longrightarrow>
   evolves (unchanged f) (run_sql q)"
  by (intro evolves_run_sql fault_blind_unchanged) (simp_all add: unchanged_def)

lemma evolves_batch_plain [evolves_intro]:
  "(\<And>s fs. f (s\<lparr>faults := fs\<rparr>) = f s) \<Longrightarrow> (\<And>s t. q s = Inr t \<Longrightarrow> f t = f s) \<Longrightarrow>
   evolves (unchanged f) (batch q)"
  by (intro evolves_batch fault_blind_unchanged) (simp_all add: unchanged_def)

lemma evolves_stmt_plain [evolves_intro]:
  "(\<And>s fs. f (s\<lparr>faults := fs\<rparr>) = f s) \<Longrightarrow> (\<And>s x t. q s = Inr (x, t) \<Longrightarrow> f t = f s) \<Longrightarrow>
   evolves (unchanged f) (stmt q)"
  by (intro evolves_stmt fault_blind_unchanged) (simp_all add: unchanged_def)

subsection \<open>The error every store wraps a database failure in\<close>

definition d1Error :: "string \<Rightarrow> string \<Rightarrow> jserror \<Rightarrow> jserror" where
  "d1Error msg code cause = transientError msg code
     (JObj [(''causeMessage'', JStr (sanitizeOperationalText (JStr (err_message cause)) JUndef))])"

definition requireText :: "string \<Rightarrow> jsval \<Rightarrow> jserror + string" where
  "requireText msg v = (case v of
     JStr s \<Rightarrow> if trim s = [] then Inl (type_error msg) else Inr (trim s)
   | _ \<Rightarrow> Inl (type_error msg))"

definition optionalText :: "jsval \<Rightarrow> string option" where
  "optionalText v = (case v of
     JStr s \<Rightarrow> if trim s = [] then None else Some (trim s) | _ \<Rightarrow> None)"

definition safe_number :: "(int \<Rightarrow> bool) \<Rightarrow> string \<Rightarrow> jsval \<Rightarrow> jserror + int" where
  "safe_number ok msg v = (case safe_int (js_number v) of
     Some n \<Rightarrow> if ok n then Inr n else Inl (type_error msg) | None \<Rightarrow> Inl (type_error msg))"

definition jopt :: "string option \<Rightarrow> jsval" where
  "jopt x = (case x of Some s \<Rightarrow> JStr s | None \<Rightarrow> JNull)"

definition jopt_int :: "int option \<Rightarrow> jsval" where
  "jopt_int x = (case x of Some n \<Rightarrow> jint n | None \<Rightarrow> JNull)"

text \<open>A text that the validators return unchanged.\<close>

definition plain_text :: "string \<Rightarrow> bool" where
  "plain_text s \<longleftrightarrow> trim s = s \<and> s \<noteq> []"

lemma requireText_plain [simp]: "plain_text s \<Longrightarrow> requireText msg (JStr s) = Inr s"
  by (simp add: requireText_def plain_text_def)

lemma requireText_InrD: "requireText msg v = Inr s \<Longrightarrow> plain_text s"
  by (auto simp: requireText_def plain_text_def split: jsval.splits if_splits)

lemma safe_number_int [simp]: "is_safe n \<Longrightarrow> ok n \<Longrightarrow> safe_number ok msg (jint n) = Inr n"
  by (simp add: safe_number_def)

lemma safe_number_InrD: "safe_number ok msg v = Inr n \<Longrightarrow> is_safe n \<and> ok n"
  by (auto simp: safe_number_def dest: safe_int_SomeD split: option.splits if_splits)

lemma safe_number_jintD: "safe_number ok msg (jint n) = Inr m \<Longrightarrow> m = n \<and> is_safe n \<and> ok n"
  by (auto simp: safe_number_def dest!: safe_int_SomeD split: option.splits if_splits)

end
