(* ===== verification/Lease_Lock.thy ===== *)
theory Lease_Lock
  imports D1_Database
begin

text \<open>
  The lease lock that serialises sync runs: the in-process manager
  (\<open>in-memory-lease-lock-manager.js\<close>), the distributed one on D1 (\<open>acquire\<close>, \<open>renew\<close> and \<open>release\<close>
  of \<open>d1-reliability-store.js\<close>) and its extension that reports the expiry of a busy lease
  (\<open>d1-stale-aware-reliability-store.js\<close>). The locale \<open>lease_lock\<close> is the contract the sync runner
  relies on; all three providers interpret it. Time is the value the injected clock returns.
\<close>

record lock_reply =
  lr_ok :: bool
  lr_lockKey :: string
  lr_ownerId :: string
  lr_expiresAt :: "int option"

subsection \<open>The in-memory manager\<close>

record mem_lock =
  ml_ownerId :: string
  ml_expiresAt :: int

type_synonym mem_locks = "string \<Rightarrow> mem_lock option"

definition mem_lock_requireText :: "jsval \<Rightarrow> string \<Rightarrow> jserror + string" where
  "mem_lock_requireText v f = requireText (''InMemoryLeaseLockManager requires '' @ f) v"

definition mem_lock_positiveInteger :: "jsval \<Rightarrow> string \<Rightarrow> jserror + int" where
  "mem_lock_positiveInteger v f = (case js_number v of
     NInt n \<Rightarrow> if n \<le> 0 then Inl (type_error (''InMemoryLeaseLockManager '' @ f @ '' must be a positive integer''))
              else Inr n
   | _ \<Rightarrow> Inl (type_error (''InMemoryLeaseLockManager '' @ f @ '' must be a positive integer'')))"

definition mem_acquire :: "jsval \<Rightarrow> int \<Rightarrow> (mem_locks, lock_reply) eff" where
  "mem_acquire input now =
     check (mem_lock_requireText (jget input ''lockKey'') ''lockKey'') (\<lambda>lockKey.
     check (mem_lock_requireText (jget input ''ownerId'') ''ownerId'') (\<lambda>ownerId.
     check (mem_lock_positiveInteger (jget input ''leaseMs'') ''leaseMs'') (\<lambda>leaseMs.
     \<lambda>locks.
       let granted = (Inr \<lparr>lr_ok = True, lr_lockKey = lockKey, lr_ownerId = ownerId,
                           lr_expiresAt = Some (now + leaseMs)\<rparr>,
                      locks(lockKey \<mapsto> \<lparr>ml_ownerId = ownerId, ml_expiresAt = now + leaseMs\<rparr>))
       in case locks lockKey of
            Some existing \<Rightarrow>
              if now < ml_expiresAt existing \<and> ml_ownerId existing \<noteq> ownerId
              then (Inr \<lparr>lr_ok = False, lr_lockKey = lockKey, lr_ownerId = ownerId,
                         lr_expiresAt = Some (ml_expiresAt existing)\<rparr>, locks)
              else granted
          | None \<Rightarrow> granted)))"

definition mem_renew :: "jsval \<Rightarrow> int \<Rightarrow> (mem_locks, lock_reply) eff" where
  "mem_renew input now =
     check (mem_lock_requireText (jget input ''lockKey'') ''lockKey'') (\<lambda>lockKey.
     check (mem_lock_requireText (jget input ''ownerId'') ''ownerId'') (\<lambda>ownerId.
     check (mem_lock_positiveInteger (jget input ''leaseMs'') ''leaseMs'') (\<lambda>leaseMs.
     \<lambda>locks.
       let lost = (Inr \<lparr>lr_ok = False, lr_lockKey = lockKey, lr_ownerId = ownerId,
                        lr_expiresAt = None\<rparr>, locks)
       in case locks lockKey of
            None \<Rightarrow> lost
          | Some existing \<Rightarrow>
              if ml_ownerId existing \<noteq> ownerId \<or> ml_expiresAt existing \<le> now then lost
              else (Inr \<lparr>lr_ok = True, lr_lockKey = lockKey, lr_ownerId = ownerId,
                         lr_expiresAt = Some (now + leaseMs)\<rparr>,
                    locks(lockKey \<mapsto> \<lparr>ml_ownerId = ownerId, ml_expiresAt = now + leaseMs\<rparr>)))))"

definition mem_release :: "jsval \<Rightarrow> (mem_locks, bool) eff" where
  "mem_release input =
     check (mem_lock_requireText (jget input ''lockKey'') ''lockKey'') (\<lambda>lockKey.
     check (mem_lock_requireText (jget input ''ownerId'') ''ownerId'') (\<lambda>ownerId.
     \<lambda>locks. case locks lockKey of
         None \<Rightarrow> (Inr False, locks)
       | Some existing \<Rightarrow>
           if ml_ownerId existing \<noteq> ownerId
           then (Inl (transientError (''Cannot release lock '' @ lockKey @ '': owner mismatch'')
                   ''SYNC_LOCK_OWNER_MISMATCH'' (JObj [(''lockKey'', JStr lockKey)])), locks)
           else (Inr True, locks(lockKey := None))))"

subsection \<open>The distributed lock on D1\<close>

definition d1_requireText :: "jsval \<Rightarrow> string \<Rightarrow> jserror + string" where
  "d1_requireText v f = requireText (''D1ReliabilityStore requires '' @ f) v"

definition d1_positiveInteger :: "jsval \<Rightarrow> string \<Rightarrow> jserror + int" where
  "d1_positiveInteger v f =
     safe_number (\<lambda>n. 0 < n) (''D1ReliabilityStore '' @ f @ '' must be a positive integer'') v"

definition sql_acquire :: "string \<Rightarrow> string \<Rightarrow> int \<Rightarrow> int \<Rightarrow> d1 \<Rightarrow> nat \<times> d1" where
  "sql_acquire lockKey ownerId now expiresAt =
     on_table sync_locks sync_locks_update
       (sql_upsert (\<lambda>r. lk_key r = lockKey)
          (\<lambda>r. lk_expires_at r \<le> now \<or> lk_owner r = ownerId)
          (\<lambda>r. r\<lparr>lk_owner := ownerId, lk_acquired_at := now, lk_expires_at := expiresAt,
                lk_updated_at := now\<rparr>)
          \<lparr>lk_key = lockKey, lk_owner = ownerId, lk_acquired_at = now,
           lk_expires_at = expiresAt, lk_updated_at = now\<rparr>)"

definition d1_acquire :: "jsval \<Rightarrow> int \<Rightarrow> (d1, lock_reply) eff" where
  "d1_acquire input now =
     check (d1_requireText (jget input ''lockKey'') ''lockKey'') (\<lambda>lockKey.
     check (d1_requireText (jget input ''ownerId'') ''ownerId'') (\<lambda>ownerId.
     check (d1_positiveInteger (jget input ''leaseMs'') ''leaseMs'') (\<lambda>leaseMs.
     catching
       (andThen (run_sql (sql_acquire lockKey ownerId now (now + leaseMs))) (\<lambda>changes.
          ret \<lparr>lr_ok = 0 < changes, lr_lockKey = lockKey, lr_ownerId = ownerId,
               lr_expiresAt = (if 0 < changes then Some (now + leaseMs) else None)\<rparr>))
       (\<lambda>cause. throw (d1Error ''Failed to acquire distributed sync lock''
                        ''D1_SYNC_LOCK_ACQUIRE_FAILED'' cause)))))"

definition sql_renew :: "string \<Rightarrow> string \<Rightarrow> int \<Rightarrow> int \<Rightarrow> d1 \<Rightarrow> nat \<times> d1" where
  "sql_renew lockKey ownerId now expiresAt =
     on_table sync_locks sync_locks_update
       (sql_update (\<lambda>r. lk_key r = lockKey \<and> lk_owner r = ownerId \<and> now < lk_expires_at r)
          (\<lambda>r. r\<lparr>lk_expires_at := expiresAt, lk_updated_at := now\<rparr>))"

definition d1_renew :: "jsval \<Rightarrow> int \<Rightarrow> (d1, lock_reply) eff" where
  "d1_renew input now =
     check (d1_requireText (jget input ''lockKey'') ''lockKey'') (\<lambda>lockKey.
     check (d1_requireText (jget input ''ownerId'') ''ownerId'') (\<lambda>ownerId.
     check (d1_positiveInteger (jget input ''leaseMs'') ''leaseMs'') (\<lambda>leaseMs.
     catching
       (andThen (run_sql (sql_renew lockKey ownerId now (now + leaseMs))) (\<lambda>changes.
          ret \<lparr>lr_ok = 0 < changes, lr_lockKey = lockKey, lr_ownerId = ownerId,
               lr_expiresAt = (if 0 < changes then Some (now + leaseMs) else None)\<rparr>))
       (\<lambda>cause. throw (d1Error ''Failed to renew distributed sync lock''
                        ''D1_SYNC_LOCK_RENEW_FAILED'' cause)))))"

definition sql_release :: "string \<Rightarrow> string \<Rightarrow> d1 \<Rightarrow> nat \<times> d1" where
  "sql_release lockKey ownerId =
     on_table sync_locks sync_locks_update
       (sql_delete (\<lambda>r. lk_key r = lockKey \<and> lk_owner r = ownerId))"

definition d1_release :: "jsval \<Rightarrow> (d1, bool) eff" where
  "d1_release input =
     check (d1_requireText (jget input ''lockKey'') ''lockKey'') (\<lambda>lockKey.
     check (d1_requireText (jget input ''ownerId'') ''ownerId'') (\<lambda>ownerId.
     catching
       (andThen (run_sql (sql_release lockKey ownerId)) (\<lambda>changes. ret (0 < changes)))
       (\<lambda>cause. throw (d1Error ''Failed to release distributed sync lock''
                        ''D1_SYNC_LOCK_RELEASE_FAILED'' cause))))"

text \<open>
  The extension: a refused acquire also reads the persisted expiry, with the lock key as the caller
  passed it.
\<close>

definition stale_aware_acquire :: "jsval \<Rightarrow> int \<Rightarrow> (d1, lock_reply) eff" where
  "stale_aware_acquire input now =
     andThen (d1_acquire input now) (\<lambda>result.
       if lr_ok result then ret result
       else catching
         (andThen (query (\<lambda>s. row_at lk_key (js_text (jget input ''lockKey'')) (sync_locks s))) (\<lambda>row.
            ret (result\<lparr>lr_expiresAt := (case row of
                Some r \<Rightarrow> if is_safe (lk_expires_at r) \<and> 0 \<le> lk_expires_at r
                          then Some (lk_expires_at r) else None
              | None \<Rightarrow> None)\<rparr>)))
         (\<lambda>cause. throw (transientError ''Failed to read busy distributed sync lock lease''
            ''D1_SYNC_LOCK_READ_FAILED''
            (JObj [(''lockKey'', nullish (jget input ''lockKey'') JNull),
                   (''causeMessage'', JStr (sanitizeOperationalText (JStr (err_message cause)) JUndef))]))))"

subsection \<open>The contract\<close>

datatype lock_op =
    Acquire string string int int  \<comment> \<open>key, owner, lease, time\<close>
  | Renew string string int int
  | Release string string

fun op_key :: "lock_op \<Rightarrow> string" where
  "op_key (Acquire k w l t) = k"
| "op_key (Renew k w l t) = k"
| "op_key (Release k w) = k"

fun op_owner :: "lock_op \<Rightarrow> string" where
  "op_owner (Acquire k w l t) = w"
| "op_owner (Renew k w l t) = w"
| "op_owner (Release k w) = w"

fun op_before :: "lock_op \<Rightarrow> int \<Rightarrow> bool" where
  "op_before (Acquire k w l t) e = (t < e)"
| "op_before (Renew k w l t) e = (t < e)"
| "op_before (Release k w) e = True"

definition op_valid :: "lock_op \<Rightarrow> bool" where
  "op_valid x \<longleftrightarrow> plain_text (op_key x) \<and> plain_text (op_owner x) \<and>
     (case x of Acquire k w l t \<Rightarrow> 0 < l \<and> is_safe l
      | Renew k w l t \<Rightarrow> 0 < l \<and> is_safe l | Release k w \<Rightarrow> True)"

text \<open>One operation through a manager: whether it was granted, and the state it leaves.\<close>

fun lock_step ::
    "(string \<Rightarrow> string \<Rightarrow> int \<Rightarrow> int \<Rightarrow> ('s, lock_reply) eff) \<Rightarrow>
     (string \<Rightarrow> string \<Rightarrow> int \<Rightarrow> int \<Rightarrow> ('s, lock_reply) eff) \<Rightarrow>
     (string \<Rightarrow> string \<Rightarrow> ('s, bool) eff) \<Rightarrow> lock_op \<Rightarrow> 's \<Rightarrow> bool \<times> 's" where
  "lock_step acq ren rel (Acquire k w l t) s =
     (case acq k w l t s of (Inr r, s') \<Rightarrow> (lr_ok r, s') | (Inl e, s') \<Rightarrow> (False, s'))"
| "lock_step acq ren rel (Renew k w l t) s =
     (case ren k w l t s of (Inr r, s') \<Rightarrow> (lr_ok r, s') | (Inl e, s') \<Rightarrow> (False, s'))"
| "lock_step acq ren rel (Release k w) s =
     (case rel k w s of (Inr b, s') \<Rightarrow> (b, s') | (Inl e, s') \<Rightarrow> (False, s'))"

fun lock_run ::
    "(string \<Rightarrow> string \<Rightarrow> int \<Rightarrow> int \<Rightarrow> ('s, lock_reply) eff) \<Rightarrow>
     (string \<Rightarrow> string \<Rightarrow> int \<Rightarrow> int \<Rightarrow> ('s, lock_reply) eff) \<Rightarrow>
     (string \<Rightarrow> string \<Rightarrow> ('s, bool) eff) \<Rightarrow> lock_op list \<Rightarrow> 's \<Rightarrow> bool list \<times> 's" where
  "lock_run acq ren rel [] s = ([], s)"
| "lock_run acq ren rel (x # xs) s =
     (case lock_step acq ren rel x s of (b, s') \<Rightarrow>
      case lock_run acq ren rel xs s' of (bs, s'') \<Rightarrow> (b # bs, s''))"

text \<open>An operation of another owner, or on another key, before the lease ends.\<close>

definition foreign_op :: "string \<Rightarrow> string \<Rightarrow> int \<Rightarrow> lock_op \<Rightarrow> bool" where
  "foreign_op k w e x \<longleftrightarrow> op_valid x \<and> (op_key x = k \<longrightarrow> op_owner x \<noteq> w \<and> op_before x e)"

locale lease_lock =
  fixes acq :: "string \<Rightarrow> string \<Rightarrow> int \<Rightarrow> int \<Rightarrow> ('s, lock_reply) eff"
    and ren :: "string \<Rightarrow> string \<Rightarrow> int \<Rightarrow> int \<Rightarrow> ('s, lock_reply) eff"
    and rel :: "string \<Rightarrow> string \<Rightarrow> ('s, bool) eff"
    and holder :: "'s \<Rightarrow> string \<Rightarrow> (string \<times> int) option"
    and inv :: "'s \<Rightarrow> bool"
    and calm :: "'s \<Rightarrow> bool"
  assumes inv_step: "inv s \<Longrightarrow> op_valid x \<Longrightarrow> inv (snd (lock_step acq ren rel x s))"
    and other_key: "inv s \<Longrightarrow> op_valid x \<Longrightarrow> op_key x \<noteq> k \<Longrightarrow>
      holder (snd (lock_step acq ren rel x s)) k = holder s k"
    and protected: "inv s \<Longrightarrow> op_valid x \<Longrightarrow> holder s (op_key x) = Some (v, e) \<Longrightarrow>
      op_owner x \<noteq> v \<Longrightarrow> op_before x e \<Longrightarrow>
      holder (snd (lock_step acq ren rel x s)) (op_key x) = Some (v, e)
      \<and> \<not> fst (lock_step acq ren rel x s)"
    and granted: "inv s \<Longrightarrow> op_valid (Acquire k w l t) \<Longrightarrow> acq k w l t s = (Inr r, s') \<Longrightarrow>
      lr_ok r \<Longrightarrow> holder s' k = Some (w, t + l) \<and> lr_expiresAt r = Some (t + l)"
    and renewed: "inv s \<Longrightarrow> op_valid (Renew k w l t) \<Longrightarrow> ren k w l t s = (Inr r, s') \<Longrightarrow>
      lr_ok r \<Longrightarrow> (\<exists>e. holder s k = Some (w, e) \<and> t < e) \<and> holder s' k = Some (w, t + l)
        \<and> lr_expiresAt r = Some (t + l)"
    and released: "inv s \<Longrightarrow> op_valid (Release k w) \<Longrightarrow> rel k w s = (Inr True, s') \<Longrightarrow>
      (\<exists>e. holder s k = Some (w, e)) \<and> holder s' k = None"
    and available: "inv s \<Longrightarrow> calm s \<Longrightarrow> op_valid (Acquire k w l t) \<Longrightarrow>
      (case holder s k of None \<Rightarrow> True | Some (v, e) \<Rightarrow> v = w \<or> e \<le> t) \<Longrightarrow>
      \<exists>r s'. acq k w l t s = (Inr r, s') \<and> lr_ok r"
begin

text \<open>
  Mutual exclusion: a holder keeps the lease through every run of operations of the other
  participants before its expiry, and none of their requests for that key is granted.
\<close>

lemma exclusion:
  assumes "inv s" "holder s k = Some (w, e)" "\<forall>x \<in> set xs. foreign_op k w e x"
    and "lock_run acq ren rel xs s = (bs, s')"
  shows "inv s' \<and> holder s' k = Some (w, e)
    \<and> list_all2 (\<lambda>x b. op_key x = k \<longrightarrow> \<not> b) xs bs"
  using assms
proof (induction xs arbitrary: s bs)
  case Nil
  then show ?case by simp
next
  case (Cons x xs)
  obtain b s1 where st: "lock_step acq ren rel x s = (b, s1)" by force
  obtain bs1 where rest: "lock_run acq ren rel xs s1 = (bs1, s')" and bs: "bs = b # bs1"
    using Cons.prems(4) st by (auto split: prod.splits)
  have v: "op_valid x" using Cons.prems(3) by (simp add: foreign_op_def)
  have inv1: "inv s1" using inv_step [OF Cons.prems(1) v] st by simp
  have hold1: "holder s1 k = Some (w, e) \<and> (op_key x = k \<longrightarrow> \<not> b)"
  proof (cases "op_key x = k")
    case True
    then show ?thesis
      using protected [OF Cons.prems(1) v, of w e] Cons.prems(2,3) st
      by (simp add: foreign_op_def)
  next
    case False
    then show ?thesis using other_key [OF Cons.prems(1) v False] Cons.prems(2) st by simp
  qed
  have "inv s' \<and> holder s' k = Some (w, e) \<and> list_all2 (\<lambda>x b. op_key x = k \<longrightarrow> \<not> b) xs bs1"
    using Cons.IH [OF inv1 _ _ rest] hold1 Cons.prems(3) by simp
  with hold1 bs show ?case by simp
qed

lemma granted_exclusion:
  assumes "inv s" "op_valid (Acquire k w l t)" "acq k w l t s = (Inr r, s1)" "lr_ok r"
    and "\<forall>x \<in> set xs. foreign_op k w (t + l) x"
    and "lock_run acq ren rel xs s1 = (bs, s2)"
  shows "holder s2 k = Some (w, t + l) \<and> list_all2 (\<lambda>x b. op_key x = k \<longrightarrow> \<not> b) xs bs"
proof -
  have "inv s1" using inv_step [OF assms(1,2)] assms(3) by simp
  moreover have "holder s1 k = Some (w, t + l)" using granted [OF assms(1,2,3,4)] by simp
  ultimately show ?thesis using exclusion [OF _ _ assms(5,6)] by blast
qed

text \<open>A crashed holder does not block the key for ever: after the expiry another owner gets it.\<close>

lemma takeover:
  assumes "inv s" "calm s" "op_valid (Acquire k w l t)" "holder s k = Some (v, e)" "e \<le> t"
  shows "\<exists>r s'. acq k w l t s = (Inr r, s') \<and> lr_ok r \<and> holder s' k = Some (w, t + l)"
  using available [OF assms(1-3)] granted [OF assms(1,3)] assms(4,5) by fastforce

end

subsection \<open>The three providers\<close>

definition lock_input :: "string \<Rightarrow> string \<Rightarrow> int \<Rightarrow> jsval" where
  "lock_input k w l = JObj [(''lockKey'', JStr k), (''ownerId'', JStr w), (''leaseMs'', jint l)]"

definition release_input :: "string \<Rightarrow> string \<Rightarrow> jsval" where
  "release_input k w = JObj [(''lockKey'', JStr k), (''ownerId'', JStr w)]"

lemma lock_input_get [simp]:
  "jget (lock_input k w l) ''lockKey'' = JStr k"
  "jget (lock_input k w l) ''ownerId'' = JStr w"
  "jget (lock_input k w l) ''leaseMs'' = jint l"
  "jget (release_input k w) ''lockKey'' = JStr k"
  "jget (release_input k w) ''ownerId'' = JStr w"
  by (simp_all add: lock_input_def release_input_def)

definition mem_holder :: "mem_locks \<Rightarrow> string \<Rightarrow> (string \<times> int) option" where
  "mem_holder s k = map_option (\<lambda>r. (ml_ownerId r, ml_expiresAt r)) (s k)"

lemmas mem_lock_defs = mem_acquire_def mem_renew_def mem_release_def mem_lock_requireText_def
  mem_lock_positiveInteger_def mem_holder_def op_valid_def

interpretation mem_lock: lease_lock
  "\<lambda>k w l t. mem_acquire (lock_input k w l) t" "\<lambda>k w l t. mem_renew (lock_input k w l) t"
  "\<lambda>k w. mem_release (release_input k w)" mem_holder "\<lambda>_. True" "\<lambda>_. True"
proof (unfold_locales, goal_cases)
  case (2 s x k)
  then show ?case
    by (cases x) (auto simp: mem_lock_defs eff_simps Let_def split: option.splits sum.splits)
next
  case (3 s x v e)
  then show ?case
    by (cases x) (auto simp: mem_lock_defs eff_simps Let_def split: option.splits sum.splits)
next
  case (4 s k w l t r s')
  then show ?case by (auto simp: mem_lock_defs Let_def split: option.splits if_splits)
next
  case (5 s k w l t r s')
  then show ?case by (auto simp: mem_lock_defs Let_def split: option.splits if_splits)
next
  case (6 s k w s')
  then show ?case by (auto simp: mem_lock_defs split: option.splits if_splits)
next
  case (7 s k w l t)
  then show ?case by (auto simp: mem_lock_defs Let_def split: option.splits)
qed simp

definition d1_holder :: "d1 \<Rightarrow> string \<Rightarrow> (string \<times> int) option" where
  "d1_holder s k = map_option (\<lambda>r. (lk_owner r, lk_expires_at r)) (row_at lk_key k (sync_locks s))"

definition locks_keyed :: "d1 \<Rightarrow> bool" where
  "locks_keyed s \<longleftrightarrow> keyed lk_key (sync_locks s)"

lemma locks_keyed_spend [simp]: "locks_keyed (spend_fault s) = locks_keyed s"
  by (simp add: locks_keyed_def)

lemma d1_holder_spend [simp]: "d1_holder (spend_fault s) = d1_holder s"
  by (simp add: d1_holder_def fun_eq_iff)

definition free_for :: "string \<Rightarrow> int \<Rightarrow> (string \<times> int) option \<Rightarrow> bool" where
  "free_for w t h \<longleftrightarrow> (case h of None \<Rightarrow> True | Some (v, e) \<Rightarrow> e \<le> t \<or> v = w)"

definition live_own :: "string \<Rightarrow> int \<Rightarrow> (string \<times> int) option \<Rightarrow> bool" where
  "live_own w t h \<longleftrightarrow> (case h of None \<Rightarrow> False | Some (v, e) \<Rightarrow> v = w \<and> t < e)"

definition owned :: "string \<Rightarrow> (string \<times> int) option \<Rightarrow> bool" where
  "owned w h \<longleftrightarrow> (case h of None \<Rightarrow> False | Some (v, e) \<Rightarrow> v = w)"

lemma holder_sql_acquire:
  "d1_holder (snd (sql_acquire k w t e s)) x =
     (if x = k \<and> free_for w t (d1_holder s k) then Some (w, e) else d1_holder s x)"
  using row_at_upsert [of lk_key "\<lparr>lk_key = k, lk_owner = w, lk_acquired_at = t,
      lk_expires_at = e, lk_updated_at = t\<rparr>" "\<lambda>r. r\<lparr>lk_owner := w, lk_acquired_at := t,
      lk_expires_at := e, lk_updated_at := t\<rparr>" x "\<lambda>r. lk_expires_at r \<le> t \<or> lk_owner r = w"
      "sync_locks s"]
  by (simp add: sql_acquire_def d1_holder_def free_for_def split: option.split)

lemma changes_sql_acquire:
  assumes "locks_keyed s"
  shows "0 < fst (sql_acquire k w t e s) \<longleftrightarrow> free_for w t (d1_holder s k)"
  unfolding sql_acquire_def fst_on_table
    upsert_same_key_changes [OF assms [unfolded locks_keyed_def]]
  by (simp add: d1_holder_def free_for_def split: option.split)

lemma keyed_sql_acquire: "locks_keyed s \<Longrightarrow> locks_keyed (snd (sql_acquire k w t e s))"
  using keyed_upsert [of lk_key "sync_locks s" "\<lparr>lk_key = k, lk_owner = w, lk_acquired_at = t,
      lk_expires_at = e, lk_updated_at = t\<rparr>" "\<lambda>r. r\<lparr>lk_owner := w, lk_acquired_at := t,
      lk_expires_at := e, lk_updated_at := t\<rparr>" "\<lambda>r. lk_expires_at r \<le> t \<or> lk_owner r = w"]
  by (simp add: sql_acquire_def locks_keyed_def)

lemma holder_sql_renew:
  "d1_holder (snd (sql_renew k w t e s)) x =
     (if x = k \<and> live_own w t (d1_holder s k) then Some (w, e) else d1_holder s x)"
proof (cases "row_at lk_key x (sync_locks s)")
  case None
  then show ?thesis by (auto simp: sql_renew_def d1_holder_def live_own_def row_at_update)
next
  case (Some r)
  then show ?thesis using row_at_SomeD [OF Some]
    by (cases "x = k") (simp_all add: sql_renew_def d1_holder_def live_own_def row_at_update)
qed

lemma changes_sql_renew:
  assumes "locks_keyed s"
  shows "0 < fst (sql_renew k w t e s) \<longleftrightarrow> live_own w t (d1_holder s k)"
  unfolding sql_renew_def fst_on_table
    changes_keyed_update [OF assms [unfolded locks_keyed_def]]
  by (simp add: d1_holder_def live_own_def split: option.split)

lemma keyed_sql_renew: "locks_keyed s \<Longrightarrow> locks_keyed (snd (sql_renew k w t e s))"
  by (simp add: sql_renew_def locks_keyed_def keyed_update)

lemma holder_sql_release:
  assumes "locks_keyed s"
  shows "d1_holder (snd (sql_release k w s)) x =
     (if x = k \<and> owned w (d1_holder s k) then None else d1_holder s x)"
proof (cases "row_at lk_key x (sync_locks s)")
  case None
  then show ?thesis using assms
    by (auto simp: sql_release_def d1_holder_def owned_def row_at_delete locks_keyed_def)
next
  case (Some r)
  then show ?thesis using row_at_SomeD [OF Some] assms
    by (cases "x = k")
      (simp_all add: sql_release_def d1_holder_def owned_def row_at_delete locks_keyed_def)
qed

lemma changes_sql_release:
  assumes "locks_keyed s"
  shows "0 < fst (sql_release k w s) \<longleftrightarrow> owned w (d1_holder s k)"
  unfolding sql_release_def fst_on_table
    changes_keyed_delete [OF assms [unfolded locks_keyed_def]]
  by (simp add: d1_holder_def owned_def split: option.split)

lemma keyed_sql_release: "locks_keyed s \<Longrightarrow> locks_keyed (snd (sql_release k w s))"
  by (simp add: sql_release_def locks_keyed_def keyed_delete)

text \<open>What a run of each operation on D1 can leave, whatever the statement meets.\<close>

lemma d1_acquire_run:
  assumes "op_valid (Acquire k w l t)"
  shows "d1_acquire (lock_input k w l) t s =
    (case run_sql (sql_acquire k w t (t + l)) s of
       (Inl cause, s') \<Rightarrow> (Inl (d1Error ''Failed to acquire distributed sync lock''
                               ''D1_SYNC_LOCK_ACQUIRE_FAILED'' cause), s')
     | (Inr n, s') \<Rightarrow> (Inr \<lparr>lr_ok = 0 < n, lr_lockKey = k, lr_ownerId = w,
                           lr_expiresAt = (if 0 < n then Some (t + l) else None)\<rparr>, s'))"
  using assms
  by (simp add: d1_acquire_def op_valid_def d1_requireText_def d1_positiveInteger_def eff_simps
      split: prod.split sum.split)

lemma d1_renew_run:
  assumes "op_valid (Renew k w l t)"
  shows "d1_renew (lock_input k w l) t s =
    (case run_sql (sql_renew k w t (t + l)) s of
       (Inl cause, s') \<Rightarrow> (Inl (d1Error ''Failed to renew distributed sync lock''
                               ''D1_SYNC_LOCK_RENEW_FAILED'' cause), s')
     | (Inr n, s') \<Rightarrow> (Inr \<lparr>lr_ok = 0 < n, lr_lockKey = k, lr_ownerId = w,
                           lr_expiresAt = (if 0 < n then Some (t + l) else None)\<rparr>, s'))"
  using assms
  by (simp add: d1_renew_def op_valid_def d1_requireText_def d1_positiveInteger_def eff_simps
      split: prod.split sum.split)

lemma d1_release_run:
  assumes "op_valid (Release k w)"
  shows "d1_release (release_input k w) s =
    (case run_sql (sql_release k w) s of
       (Inl cause, s') \<Rightarrow> (Inl (d1Error ''Failed to release distributed sync lock''
                               ''D1_SYNC_LOCK_RELEASE_FAILED'' cause), s')
     | (Inr n, s') \<Rightarrow> (Inr (0 < n), s'))"
  using assms
  by (simp add: d1_release_def op_valid_def d1_requireText_def eff_simps
      split: prod.split sum.split)

text \<open>The statement of an operation, the holders that let it through, and what it leaves.\<close>

fun lock_sql :: "lock_op \<Rightarrow> d1 \<Rightarrow> nat \<times> d1" where
  "lock_sql (Acquire k w l t) = sql_acquire k w t (t + l)"
| "lock_sql (Renew k w l t) = sql_renew k w t (t + l)"
| "lock_sql (Release k w) = sql_release k w"

fun op_admitted :: "lock_op \<Rightarrow> (string \<times> int) option \<Rightarrow> bool" where
  "op_admitted (Acquire k w l t) h = free_for w t h"
| "op_admitted (Renew k w l t) h = live_own w t h"
| "op_admitted (Release k w) h = owned w h"

fun op_leaves :: "lock_op \<Rightarrow> (string \<times> int) option" where
  "op_leaves (Acquire k w l t) = Some (w, t + l)"
| "op_leaves (Renew k w l t) = Some (w, t + l)"
| "op_leaves (Release k w) = None"

lemma lock_sql_holder:
  "locks_keyed s \<Longrightarrow> d1_holder (snd (lock_sql x s)) y =
    (if y = op_key x \<and> op_admitted x (d1_holder s y) then op_leaves x else d1_holder s y)"
  by (cases x) (auto simp: holder_sql_acquire holder_sql_renew holder_sql_release)

lemma lock_sql_changes:
  "locks_keyed s \<Longrightarrow> 0 < fst (lock_sql x s) \<longleftrightarrow> op_admitted x (d1_holder s (op_key x))"
  by (cases x) (simp_all add: changes_sql_acquire changes_sql_renew changes_sql_release)

lemma lock_sql_keyed: "locks_keyed s \<Longrightarrow> locks_keyed (snd (lock_sql x s))"
  by (cases x) (simp_all add: keyed_sql_acquire keyed_sql_renew keyed_sql_release)

lemma foreign_not_admitted:
  "op_owner x \<noteq> v \<Longrightarrow> op_before x e \<Longrightarrow> \<not> op_admitted x (Some (v, e))"
  by (cases x) (auto simp: free_for_def live_own_def owned_def)

abbreviation d1_lock_step :: "lock_op \<Rightarrow> d1 \<Rightarrow> bool \<times> d1" where
  "d1_lock_step \<equiv> lock_step (\<lambda>k w l t. d1_acquire (lock_input k w l) t)
     (\<lambda>k w l t. d1_renew (lock_input k w l) t) (\<lambda>k w. d1_release (release_input k w))"

definition step_outcome :: "lock_op \<Rightarrow> d1 \<Rightarrow> bool \<Rightarrow> d1 \<Rightarrow> bool" where
  "step_outcome x s b s' \<longleftrightarrow> (let q = lock_sql x (spend_fault s) in
     b = (0 < fst q) \<and> s' = snd q \<or> \<not> b \<and> (s' = spend_fault s \<or> s' = snd q))"

lemma d1_lock_step_outcome:
  assumes "op_valid x"
  shows "step_outcome x s (fst (d1_lock_step x s)) (snd (d1_lock_step x s))"
proof (cases x)
  case (Acquire k w l t)
  with assms show ?thesis
    by (auto simp: step_outcome_def Let_def d1_acquire_run run_sql_eq split: fault.split)
next
  case (Renew k w l t)
  with assms show ?thesis
    by (auto simp: step_outcome_def Let_def d1_renew_run run_sql_eq split: fault.split)
next
  case (Release k w)
  with assms show ?thesis
    by (auto simp: step_outcome_def Let_def d1_release_run run_sql_eq split: fault.split)
qed

lemma outcome_keyed: "locks_keyed s \<Longrightarrow> step_outcome x s b s' \<Longrightarrow> locks_keyed s'"
  by (auto simp: step_outcome_def Let_def lock_sql_keyed)

lemma outcome_other:
  "locks_keyed s \<Longrightarrow> step_outcome x s b s' \<Longrightarrow> op_key x \<noteq> k \<Longrightarrow> d1_holder s' k = d1_holder s k"
  by (auto simp: step_outcome_def Let_def lock_sql_holder)

lemma outcome_protected:
  assumes "locks_keyed s" "step_outcome x s b s'" "d1_holder s (op_key x) = Some (v, e)"
    and "op_owner x \<noteq> v" "op_before x e"
  shows "d1_holder s' (op_key x) = Some (v, e) \<and> \<not> b"
  using assms foreign_not_admitted [OF assms(4,5)]
  by (auto simp: step_outcome_def Let_def lock_sql_holder lock_sql_changes)

lemma outcome_admitted:
  assumes "locks_keyed s" "step_outcome x s True s'"
  shows "op_admitted x (d1_holder s (op_key x)) \<and> d1_holder s' (op_key x) = op_leaves x"
  using assms by (auto simp: step_outcome_def Let_def lock_sql_holder lock_sql_changes)

interpretation d1_lock: lease_lock
  "\<lambda>k w l t. d1_acquire (lock_input k w l) t" "\<lambda>k w l t. d1_renew (lock_input k w l) t"
  "\<lambda>k w. d1_release (release_input k w)" d1_holder locks_keyed quiet
proof (unfold_locales, goal_cases)
  case (1 s x)
  then show ?case using outcome_keyed d1_lock_step_outcome by blast
next
  case (2 s x k)
  then show ?case using outcome_other d1_lock_step_outcome by blast
next
  case (3 s x v e)
  then show ?case using outcome_protected d1_lock_step_outcome by blast
next
  case (4 s k w l t r s')
  then have "step_outcome (Acquire k w l t) s True s'"
    using d1_lock_step_outcome [OF 4(2), of s] by simp
  with 4 show ?case using outcome_admitted [OF 4(1)]
    by (fastforce simp: d1_acquire_run split: prod.splits sum.splits)
next
  case (5 s k w l t r s')
  then have "step_outcome (Renew k w l t) s True s'"
    using d1_lock_step_outcome [OF 5(2), of s] by simp
  with 5 show ?case using outcome_admitted [OF 5(1)]
    by (fastforce simp: d1_renew_run live_own_def split: prod.splits sum.splits option.splits)
next
  case (6 s k w s')
  then have "step_outcome (Release k w) s True s'"
    using d1_lock_step_outcome [OF 6(2), of s] by simp
  then show ?case using outcome_admitted [OF 6(1)]
    by (fastforce simp: owned_def split: option.splits)
next
  case (7 s k w l t)
  then have "free_for w t (d1_holder s k)"
    by (auto simp: free_for_def split: option.splits)
  with 7 show ?case by (simp add: d1_acquire_run run_sql_quiet changes_sql_acquire)
qed

text \<open>
  The stale-aware acquire runs the same statement; its second read changes neither the table nor
  the answer.
\<close>

lemma stale_aware_cases:
  obtains (failed) e s0 where "d1_acquire input t s = (Inl e, s0)"
      "stale_aware_acquire input t s = (Inl e, s0)"
    | (given) r s0 where "d1_acquire input t s = (Inr r, s0)" "lr_ok r"
      "stale_aware_acquire input t s = (Inr r, s0)"
    | (busy) r r' s0 where "d1_acquire input t s = (Inr r, s0)" "\<not> lr_ok r"
      "stale_aware_acquire input t s = (r', spend_fault s0)" "\<And>x. r' = Inr x \<Longrightarrow> \<not> lr_ok x"
proof (cases "d1_acquire input t s")
  case (Pair r0 s0)
  show ?thesis
  proof (cases r0)
    case (Inl e)
    with Pair show ?thesis by (intro failed) (auto simp: stale_aware_acquire_def eff_simps)
  next
    case (Inr r)
    show ?thesis
    proof (cases "lr_ok r")
      case True
      with Pair Inr show ?thesis by (intro given) (auto simp: stale_aware_acquire_def eff_simps)
    next
      case False
      obtain r' where "stale_aware_acquire input t s = (r', spend_fault s0)"
        "\<And>x. r' = Inr x \<Longrightarrow> \<not> lr_ok x"
        using Pair Inr False
        by (cases "next_fault s0") (auto simp: stale_aware_acquire_def eff_simps query_eq)
      with Pair Inr False show ?thesis by (intro busy) auto
    qed
  qed
qed

abbreviation stale_lock_step :: "lock_op \<Rightarrow> d1 \<Rightarrow> bool \<times> d1" where
  "stale_lock_step \<equiv> lock_step (\<lambda>k w l t. stale_aware_acquire (lock_input k w l) t)
     (\<lambda>k w l t. d1_renew (lock_input k w l) t) (\<lambda>k w. d1_release (release_input k w))"

lemma stale_step_cases:
  "fst (stale_lock_step x s) = fst (d1_lock_step x s) \<and>
   (snd (stale_lock_step x s) = snd (d1_lock_step x s)
    \<or> snd (stale_lock_step x s) = spend_fault (snd (d1_lock_step x s)))"
proof (cases x)
  case (Acquire k w l t)
  then show ?thesis
    by (cases rule: stale_aware_cases [of "lock_input k w l" t s]) (auto split: sum.splits)
qed simp_all

lemma stale_acquire_granted:
  "stale_aware_acquire input t s = (Inr r, s') \<Longrightarrow> lr_ok r \<Longrightarrow> d1_acquire input t s = (Inr r, s')"
  by (cases rule: stale_aware_cases [of input t s]) auto

lemma stale_acquire_same:
  "d1_acquire input t s = (Inr r, s') \<Longrightarrow> lr_ok r \<Longrightarrow>
   stale_aware_acquire input t s = (Inr r, s')"
  by (cases rule: stale_aware_cases [of input t s]) auto

interpretation stale_lock: lease_lock
  "\<lambda>k w l t. stale_aware_acquire (lock_input k w l) t"
  "\<lambda>k w l t. d1_renew (lock_input k w l) t"
  "\<lambda>k w. d1_release (release_input k w)" d1_holder locks_keyed quiet
proof (unfold_locales, goal_cases)
  case (1 s x)
  then show ?case using d1_lock.inv_step [OF 1] stale_step_cases [of x s] by auto
next
  case (2 s x k)
  then show ?case using d1_lock.other_key [OF 2] stale_step_cases [of x s] by auto
next
  case (3 s x v e)
  then show ?case using d1_lock.protected [OF 3] stale_step_cases [of x s] by auto
next
  case (4 s k w l t r s')
  show ?case
    by (rule d1_lock.granted [OF 4(1,2) stale_acquire_granted [OF 4(3,4)] 4(4)])
next
  case (5 s k w l t r s')
  then show ?case by (rule d1_lock.renewed)
next
  case (6 s k w s')
  then show ?case by (rule d1_lock.released)
next
  case (7 s k w l t)
  obtain r s' where r: "d1_acquire (lock_input k w l) t s = (Inr r, s')" "lr_ok r"
    using d1_lock.available [OF 7] by blast
  then show ?case using stale_acquire_same [OF r] by blast
qed

lemma stale_acquire_busy:
  assumes "locks_keyed s" "quiet s" "op_valid (Acquire k w l t)"
    and "d1_holder s k = Some (v, e)" "v \<noteq> w" "t < e" "is_safe e" "0 \<le> e"
  shows "stale_aware_acquire (lock_input k w l) t s =
    (Inr \<lparr>lr_ok = False, lr_lockKey = k, lr_ownerId = w, lr_expiresAt = Some e\<rparr>, s)"
proof -
  have no: "fst (sql_acquire k w t (t + l) s) = 0"
    using changes_sql_acquire [OF assms(1), of k w t "t + l"] assms(4-6) by (simp add: free_for_def)
  obtain r where r: "row_at lk_key k (sync_locks s) = Some r" "lk_owner r = v" "lk_expires_at r = e"
    using assms(4) by (auto simp: d1_holder_def)
  have same: "snd (sql_acquire k w t (t + l) s) = s"
    using no by (simp add: sql_acquire_def upsert_no_changes)
  show ?thesis using assms(2,3,7,8) no r same
    by (simp add: stale_aware_acquire_def d1_acquire_run eff_simps)
qed

end
