(* ===== verification/Work_Contract.thy ===== *)
theory Work_Contract
  imports D1_Database
begin

text \<open>
  What every resumable-work store promises: its replies, its operations, and the generation fence.

  A sync job with generation \<open>g\<close> that works under \<open>workKey\<close> claims the fence of its cursor. The
  locale \<open>generation_fence\<close> states what the stores guarantee about the fence and proves what the
  connectors rely on: once a newer job has claimed the cursor, no older job ever passes
  \<open>assertCurrentGeneration\<close> again, whatever operations run in between.
\<close>

subsection \<open>Replies and operations\<close>

record begin_reply =
  br_workKey :: string
  br_resumed :: bool
  br_superseded :: bool
  br_completed :: bool
  br_completion :: jsval

record phase_progress =
  pp_state :: jsval
  pp_expectedItems :: int
  pp_processedItems :: int
  pp_pagesProcessed :: int
  pp_chunksProcessed :: int
  pp_complete :: bool
  pp_createdAt :: "int option"
  pp_updatedAt :: "int option"

record work_unit =
  wu_unitKey :: string
  wu_sequence :: int
  wu_payload :: jsval

record unit_page =
  up_units :: "work_unit list"
  up_nextSequence :: "int option"

record warning_reply =
  wr_outboxId :: string
  wr_status :: outbox_status

record abandon_reply =
  ab_terminal :: bool
  ab_found :: bool
  ab_status :: "lifecycle option"
  ab_protected :: bool

record generation_guard =
  gg_cursorKey :: string
  gg_generation :: int
  gg_workKey :: string

record warning_event =
  we_outboxId :: string
  we_workKey :: string
  we_syncRunId :: string
  we_warningType :: string
  we_sourceKey :: string
  we_payload :: jsval
  we_guard :: "generation_guard option"

definition active_reply :: "string \<Rightarrow> bool \<Rightarrow> begin_reply" where
  "active_reply w resumed = \<lparr>br_workKey = w, br_resumed = resumed, br_superseded = False,
     br_completed = False, br_completion = JUndef\<rparr>"

definition superseded_reply :: "string \<Rightarrow> begin_reply" where
  "superseded_reply w = \<lparr>br_workKey = w, br_resumed = False, br_superseded = True,
     br_completed = False, br_completion = JUndef\<rparr>"

definition completed_reply :: "string \<Rightarrow> jsval \<Rightarrow> begin_reply" where
  "completed_reply w c = \<lparr>br_workKey = w, br_resumed = True, br_superseded = False,
     br_completed = True, br_completion = c\<rparr>"

lemma begin_reply_simps [simp]:
  "br_superseded (active_reply w r) = False" "br_completed (active_reply w r) = False"
  "br_superseded (superseded_reply w) = True" "br_completed (superseded_reply w) = False"
  "br_superseded (completed_reply w c) = False" "br_completed (completed_reply w c) = True"
  "br_resumed (active_reply w r) = r"
  by (simp_all add: active_reply_def superseded_reply_def completed_reply_def)

text \<open>The operations that may change a store, each with its input and the clock reading.\<close>

datatype work_op =
    BeginWork jsval int
  | SavePhase jsval int
  | ResetPhase jsval
  | SaveWarning jsval int
  | WarningFailed jsval int
  | WarningDelivered jsval int
  | CompleteWork jsval int
  | AbandonWork jsval int
  | CleanupExpired jsval int

subsection \<open>The generation fence\<close>

type_synonym fence_claim = "(int \<times> string) option"

text \<open>A fence moves to a strictly newer generation, or stays with its work.\<close>

definition fence_le :: "fence_claim \<Rightarrow> fence_claim \<Rightarrow> bool" where
  "fence_le a b \<longleftrightarrow> (case a of None \<Rightarrow> True | Some (g, w) \<Rightarrow>
     (case b of None \<Rightarrow> False | Some (g', w') \<Rightarrow> g < g' \<or> g = g' \<and> w = w'))"

definition beaten :: "int \<Rightarrow> string \<Rightarrow> fence_claim \<Rightarrow> bool" where
  "beaten g w c \<longleftrightarrow> (case c of None \<Rightarrow> False | Some (g', w') \<Rightarrow> g < g' \<or> g = g' \<and> w' \<noteq> w)"

lemma not_beaten:
  "\<not> beaten g w None \<longleftrightarrow> True"
  "\<not> beaten g w (Some (g', w')) \<longleftrightarrow> g' < g \<or> g = g' \<and> w = w'"
  by (auto simp: beaten_def)

lemma unbeaten_le: "\<not> beaten g w c \<Longrightarrow> fence_le c (Some (g, w))"
  by (auto simp: beaten_def fence_le_def split: option.splits)

definition fences_grow :: "('s \<Rightarrow> string \<Rightarrow> fence_claim) \<Rightarrow> 's \<Rightarrow> 's \<Rightarrow> bool" where
  "fences_grow fence s t \<longleftrightarrow> (\<forall>c. fence_le (fence s c) (fence t c))"

lemma fence_le_refl [simp]: "fence_le a a"
  by (cases a) (auto simp: fence_le_def)

lemma fence_le_trans: "fence_le a b \<Longrightarrow> fence_le b c \<Longrightarrow> fence_le a c"
  by (auto simp: fence_le_def split: option.splits)

lemma fences_grow_refl [simp]: "fences_grow fence s s"
  by (simp add: fences_grow_def)

lemma fences_grow_trans: "fences_grow fence s t \<Longrightarrow> fences_grow fence t u \<Longrightarrow> fences_grow fence s u"
  unfolding fences_grow_def using fence_le_trans by blast

lemma reflp_fences_grow [simp]: "reflp (fences_grow fence)"
  by (simp add: reflp_def)

lemma transp_fences_grow [simp]: "transp (fences_grow fence)"
  using fences_grow_trans by (rule transpI)

locale generation_fence =
  fixes start :: "jsval \<Rightarrow> int \<Rightarrow> ('s, begin_reply) eff"
    and current :: "jsval \<Rightarrow> ('s, bool) eff"
    and apply_op :: "work_op \<Rightarrow> 's \<Rightarrow> 's"
    and fence :: "'s \<Rightarrow> string \<Rightarrow> fence_claim"
    and inv :: "'s \<Rightarrow> bool"
  assumes inv_op: "inv s \<Longrightarrow> inv (apply_op x s)"
    and op_grows: "fences_grow fence s (apply_op x s)"
    and begin_is_op: "apply_op (BeginWork input now) s = snd (start input now s)"
    and begin_claims: "inv s \<Longrightarrow> start input now s = (Inr r, s') \<Longrightarrow> \<not> br_superseded r \<Longrightarrow> \<not> br_completed r \<Longrightarrow>
      \<exists>c g. jget input ''cursorKey'' = JStr c \<and> fence s' (trim c) = Some (g, br_workKey r) \<and>
        (\<forall>n. is_safe n \<longrightarrow> jget input ''generation'' = jint n \<longrightarrow> g = n)"
    and current_holds: "current input s = (Inr b, s') \<Longrightarrow>
      \<exists>c w g. jget input ''cursorKey'' = JStr c \<and> jget input ''workKey'' = JStr w \<and>
        js_number (jget input ''generation'') = NInt g \<and> fence s (trim c) = Some (g, trim w)"
begin

definition run_ops :: "work_op list \<Rightarrow> 's \<Rightarrow> 's" where
  "run_ops xs s = fold apply_op xs s"

lemma run_grows: "fences_grow fence s (run_ops xs s)"
  unfolding run_ops_def
proof (induction xs arbitrary: s)
  case (Cons x xs)
  show ?case using fences_grow_trans [OF op_grows [of s x] Cons.IH] by simp
qed simp

text \<open>
  A job that began under generation \<open>g1\<close> shuts out every job of an older generation, and every
  other job of the same one: its check never returns, after any run of operations.
\<close>

lemma superseded_for_ever:
  assumes "inv s" "start input now s = (Inr r, s1)" "\<not> br_superseded r" "\<not> br_completed r"
    and "jget input ''cursorKey'' = JStr c" "jget input ''generation'' = jint g1" "is_safe g1"
    and "jget late ''cursorKey'' = JStr c" "jget late ''generation'' = jint g"
    and "jget late ''workKey'' = JStr w"
    and older: "g < g1 \<or> g = g1 \<and> trim w \<noteq> br_workKey r"
  shows "\<exists>e. fst (current late (run_ops xs s1)) = Inl e"
proof (cases "current late (run_ops xs s1)")
  case (Pair res s2)
  have "fence s1 (trim c) = Some (g1, br_workKey r)"
    using begin_claims [OF assms(1-4)] assms(5-7) by auto
  moreover have "fence_le (fence s1 (trim c)) (fence (run_ops xs s1) (trim c))"
    using run_grows by (simp add: fences_grow_def)
  ultimately have no: "fence (run_ops xs s1) (trim c) \<noteq> Some (g, trim w)"
    using older by (auto simp: fence_le_def)
  show ?thesis
  proof (cases res)
    case (Inr b)
    then show ?thesis using current_holds [of late "run_ops xs s1" b s2] Pair no assms(8-10) by auto
  qed (use Pair in simp)
qed

end

end
