(* ===== verification/Memory_Work_Store.thy ===== *)
theory Memory_Work_Store
  imports Work_Contract "HOL-Library.AList"
begin

text \<open>
  The in-memory resumable-work store (\<open>in-memory-resumable-work-store.js\<close>). A JavaScript \<open>Map\<close>
  is an association list in insertion order (\<open>AList.update\<close> keeps the place of a present key, as
  \<open>Map.set\<close> does). The store mutates its maps in place, so an operation that throws keeps the
  mutations made before the throw. The clock is read once per operation.
\<close>

subsection \<open>State\<close>

record mem_phase =
  mp_units :: "(string \<times> work_unit) list"
  mp_progress :: phase_progress

record mem_work =
  mw_operationFingerprint :: string
  mw_cursorKey :: string
  mw_workType :: string
  mw_generation :: int
  mw_requestedAt :: int
  mw_lifecycleStatus :: lifecycle
  mw_phases :: "(string \<times> mem_phase) list"
  mw_completion :: jsval
  mw_completedAt :: "int option"
  mw_abandonedAt :: "int option"
  mw_expiresAt :: "int option"
  mw_terminalReason :: "string option"
  mw_auditReference :: "string option"

record mem_fence =
  mf_generation :: int
  mf_requestedAt :: int
  mf_workKey :: string

record mem_warning =
  mo_event :: warning_event
  mo_status :: outbox_status
  mo_deliveryAttempts :: int
  mo_lastErrorCode :: "string option"
  mo_createdAt :: int
  mo_updatedAt :: int
  mo_deliveredAt :: "int option"

record mem_store =
  ms_works :: "(string \<times> mem_work) list"
  ms_fences :: "(string \<times> mem_fence) list"
  ms_outbox :: "(string \<times> mem_warning) list"
  ms_resets :: "(jsval \<times> string) list"
  ms_retentionMs :: int

subsection \<open>Validation\<close>

definition mem_requireText :: "jsval \<Rightarrow> string \<Rightarrow> jserror + string" where
  "mem_requireText v f = requireText (f @ '' is required'') v"

definition mem_timestamp :: "jsval \<Rightarrow> string \<Rightarrow> jserror + int" where
  "mem_timestamp v f = safe_number (\<lambda>n. 0 \<le> n) (f @ '' must be a timestamp'') v"

definition mem_positiveInteger :: "jsval \<Rightarrow> string \<Rightarrow> jserror + int" where
  "mem_positiveInteger v f = (case mem_timestamp v f of
     Inl e \<Rightarrow> Inl e
   | Inr n \<Rightarrow> if n \<le> 0 then Inl (type_error (f @ '' must be positive'')) else Inr n)"

definition mem_requireWarning :: "jsval \<Rightarrow> jserror + warning_event" where
  "mem_requireWarning input =
     bind_res (mem_requireText (jget input ''outboxId'') ''outboxId'') (\<lambda>outboxId.
     bind_res (mem_requireText (jget input ''workKey'') ''workKey'') (\<lambda>workKey.
     bind_res (mem_requireText (jget input ''syncRunId'') ''syncRunId'') (\<lambda>syncRunId.
     bind_res (mem_requireText (jget input ''warningType'') ''warningType'') (\<lambda>warningType.
     bind_res (mem_requireText (jget input ''sourceKey'') ''sourceKey'') (\<lambda>sourceKey.
     bind_res
       (let gg = jget input ''generationGuard'' in
        if truthy gg then
          bind_res (mem_requireText (jget gg ''cursorKey'') ''generationGuard.cursorKey'') (\<lambda>c.
          bind_res (mem_timestamp (jget gg ''generation'') ''generationGuard.generation'') (\<lambda>g.
          bind_res (mem_requireText (jget gg ''workKey'') ''generationGuard.workKey'') (\<lambda>w.
          Inr (Some \<lparr>gg_cursorKey = c, gg_generation = g, gg_workKey = w\<rparr>))))
        else Inr None) (\<lambda>guard.
     Inr \<lparr>we_outboxId = outboxId, we_workKey = workKey, we_syncRunId = syncRunId,
          we_warningType = warningType, we_sourceKey = sourceKey,
          we_payload = nullish (jget input ''payload'') (JObj []), we_guard = guard\<rparr>))))))"

text \<open>The constructor.\<close>

definition new_mem_store :: "jsval \<Rightarrow> jserror + mem_store" where
  "new_mem_store input =
     bind_res (mem_positiveInteger (nullish (jget input ''retentionMs'') (jint (7 * 86400000)))
       ''retentionMs'') (\<lambda>retention.
     Inr \<lparr>ms_works = [], ms_fences = [], ms_outbox = [], ms_resets = [],
          ms_retentionMs = retention\<rparr>)"

subsection \<open>Work and generation\<close>

definition new_mem_work ::
    "string \<Rightarrow> string \<Rightarrow> string \<Rightarrow> int \<Rightarrow> int \<Rightarrow> lifecycle \<Rightarrow> mem_work" where
  "new_mem_work fingerprint cursorKey workType generation requestedAt status =
     \<lparr>mw_operationFingerprint = fingerprint, mw_cursorKey = cursorKey, mw_workType = workType,
      mw_generation = generation, mw_requestedAt = requestedAt, mw_lifecycleStatus = status,
      mw_phases = [], mw_completion = JNull, mw_completedAt = None, mw_abandonedAt = None,
      mw_expiresAt = None, mw_terminalReason = None, mw_auditReference = None\<rparr>"

definition put_work :: "string \<Rightarrow> mem_work \<Rightarrow> mem_store \<Rightarrow> mem_store" where
  "put_work k w s = s\<lparr>ms_works := AList.update k w (ms_works s)\<rparr>"

definition put_fence :: "string \<Rightarrow> mem_fence \<Rightarrow> mem_store \<Rightarrow> mem_store" where
  "put_fence k f s = s\<lparr>ms_fences := AList.update k f (ms_fences s)\<rparr>"

definition mem_recordTerminal ::
    "string \<Rightarrow> string \<Rightarrow> string \<Rightarrow> string \<Rightarrow> int \<Rightarrow> int \<Rightarrow> int \<Rightarrow> (mem_store, unit) eff" where
  "mem_recordTerminal workKey cursorKey fingerprint workType generation requestedAt now =
     check (mem_timestamp (jint now) ''now'') (\<lambda>t.
     modify (\<lambda>s. put_work workKey
       ((new_mem_work fingerprint cursorKey workType generation requestedAt Superseded)
          \<lparr>mw_abandonedAt := Some t, mw_expiresAt := Some (t + ms_retentionMs s),
           mw_terminalReason := Some ''SYNC_WORK_SUPERSEDED''\<rparr>) s))"

definition mem_claim ::
    "string \<Rightarrow> string \<Rightarrow> string \<Rightarrow> int \<Rightarrow> int \<Rightarrow> jsval \<Rightarrow> int \<Rightarrow> mem_work option \<Rightarrow>
     (mem_store, begin_reply) eff" where
  "mem_claim workKey cursorKey fingerprint generation requestedAt workTypeInput now existing =
     andThen (gets (\<lambda>s. map_of (ms_fences s) cursorKey)) (\<lambda>fence.
     if (case fence of None \<Rightarrow> False
         | Some f \<Rightarrow> generation < mf_generation f
             \<or> generation = mf_generation f \<and> mf_workKey f \<noteq> workKey)
     then check (mem_requireText workTypeInput ''workType'') (\<lambda>workType.
          andThen (mem_recordTerminal workKey cursorKey fingerprint workType generation requestedAt
            now) (\<lambda>_. ret (superseded_reply workKey)))
     else andThen (modify (put_fence cursorKey \<lparr>mf_generation = generation,
            mf_requestedAt = requestedAt, mf_workKey = workKey\<rparr>)) (\<lambda>_.
          let resumed = (case existing of None \<Rightarrow> False
            | Some w \<Rightarrow> mw_lifecycleStatus w = Active \<and> mw_operationFingerprint w = fingerprint)
          in if resumed then ret (active_reply workKey True)
             else check (mem_requireText workTypeInput ''workType'') (\<lambda>workType.
               andThen (modify (put_work workKey
                 (new_mem_work fingerprint cursorKey workType generation requestedAt Active))) (\<lambda>_.
               ret (active_reply workKey False)))))"

definition mem_beginWork :: "jsval \<Rightarrow> int \<Rightarrow> (mem_store, begin_reply) eff" where
  "mem_beginWork input now =
     check (mem_requireText (jget input ''workKey'') ''workKey'') (\<lambda>workKey.
     check (mem_requireText (jget input ''cursorKey'') ''cursorKey'') (\<lambda>cursorKey.
     check (mem_requireText (jget input ''operationFingerprint'') ''operationFingerprint'') (\<lambda>fingerprint.
     check (mem_timestamp (nullish (nullish (jget input ''requestedAt'') (jget input ''generation''))
       (jint now)) ''requestedAt'') (\<lambda>requestedAt.
     check (mem_timestamp (nullish (jget input ''generation'') (jint requestedAt)) ''generation'')
       (\<lambda>generation.
     andThen (gets (\<lambda>s. map_of (ms_works s) workKey)) (\<lambda>existing.
     case existing of
       None \<Rightarrow> mem_claim workKey cursorKey fingerprint generation requestedAt
                 (jget input ''workType'') now existing
     | Some w \<Rightarrow>
         if mw_generation w \<noteq> generation then
           throw (permanentError ''Resumable work key was reused with a different generation''
             ''SYNC_WORK_GENERATION_MISMATCH'' (JObj [(''generation'', jint generation)]))
         else if mw_lifecycleStatus w = Completed then ret (completed_reply workKey (mw_completion w))
         else if mw_lifecycleStatus w \<in> {Terminal, Superseded} then ret (superseded_reply workKey)
         else if mw_operationFingerprint w \<noteq> fingerprint then
           throw (permanentError
             ''Resumable sync operation changed within the same active generation''
             ''SYNC_WORK_OPERATION_MISMATCH'' (JObj [(''generation'', jint generation)]))
         else mem_claim workKey cursorKey fingerprint generation requestedAt
                (jget input ''workType'') now existing))))))"

definition mem_assertCurrentGeneration :: "jsval \<Rightarrow> (mem_store, bool) eff" where
  "mem_assertCurrentGeneration input =
     check (mem_requireText (jget input ''cursorKey'') ''cursorKey'') (\<lambda>cursorKey.
     check (mem_requireText (jget input ''workKey'') ''workKey'') (\<lambda>workKey.
     check (mem_timestamp (jget input ''generation'') ''generation'') (\<lambda>generation.
     andThen (gets (\<lambda>s. map_of (ms_fences s) cursorKey)) (\<lambda>fence.
     if (case fence of None \<Rightarrow> True
         | Some f \<Rightarrow> mf_workKey f \<noteq> workKey \<or> mf_generation f \<noteq> generation)
     then throw (permanentError ''Sync work generation was superseded by a newer job''
            ''SYNC_WORK_SUPERSEDED'' (JObj [(''generation'', jint generation)]))
     else ret True))))"

subsection \<open>Phases\<close>

definition mem_theWork :: "jsval \<Rightarrow> (mem_store, string \<times> mem_work) eff" where
  "mem_theWork v =
     check (mem_requireText v ''workKey'') (\<lambda>key.
     andThen (gets (\<lambda>s. map_of (ms_works s) key)) (\<lambda>w. case w of
         None \<Rightarrow> throw (plain_error (''Unknown resumable work: '' @ key))
       | Some work \<Rightarrow> ret (key, work)))"

definition mem_activeWork :: "jsval \<Rightarrow> (mem_store, string \<times> mem_work) eff" where
  "mem_activeWork v =
     andThen (mem_theWork v) (\<lambda>(key, work).
       if mw_lifecycleStatus work \<noteq> Active
       then throw (plain_error (''Resumable work is not active: '' @ js_text v))
       else ret (key, work))"

definition mem_thePhase :: "jsval \<Rightarrow> jsval \<Rightarrow> (mem_store, mem_phase option) eff" where
  "mem_thePhase workKey phase =
     andThen (mem_theWork workKey) (\<lambda>(key, work).
     check (mem_requireText phase ''phase'') (\<lambda>p. ret (map_of (mw_phases work) p)))"

definition mem_loadPhase :: "jsval \<Rightarrow> (mem_store, phase_progress option) eff" where
  "mem_loadPhase input =
     andThen (mem_thePhase (jget input ''workKey'') (jget input ''phase''))
       (\<lambda>p. ret (map_option mp_progress p))"

definition mem_progress :: "jsval \<Rightarrow> jserror + phase_progress" where
  "mem_progress input =
     bind_res (mem_timestamp (nullish (jget input ''expectedItems'') (jint 0)) ''expectedItems'') (\<lambda>e.
     bind_res (mem_timestamp (nullish (jget input ''processedItems'') (jint 0)) ''processedItems'') (\<lambda>p.
     bind_res (mem_timestamp (nullish (jget input ''pagesProcessed'') (jint 0)) ''pagesProcessed'') (\<lambda>g.
     bind_res (mem_timestamp (nullish (jget input ''chunksProcessed'') (jint 0)) ''chunksProcessed'') (\<lambda>c.
     Inr \<lparr>pp_state = nullish (jget input ''state'') (JObj []), pp_expectedItems = e,
          pp_processedItems = p, pp_pagesProcessed = g, pp_chunksProcessed = c,
          pp_complete = (jget input ''complete'' = JBool True),
          pp_createdAt = None, pp_updatedAt = None\<rparr>))))"

definition mem_unit :: "jsval \<Rightarrow> jserror + (string \<times> work_unit)" where
  "mem_unit u =
     bind_res (mem_requireText (jget u ''unitKey'') ''unit.unitKey'') (\<lambda>key.
     bind_res (mem_timestamp (jget u ''sequence'') ''unit.sequence'') (\<lambda>seq.
     Inr (key, \<lparr>wu_unitKey = js_text (jget u ''unitKey''), wu_sequence = seq,
                wu_payload = jget u ''payload''\<rparr>)))"

definition put_phase :: "string \<Rightarrow> mem_work \<Rightarrow> string \<Rightarrow> mem_phase \<Rightarrow> mem_store \<Rightarrow> mem_store" where
  "put_phase key work p ph =
     put_work key (work\<lparr>mw_phases := AList.update p ph (mw_phases work)\<rparr>)"

text \<open>
  The unit is added to the units of the phase object, which an existing phase shares with the
  store: when the progress is then rejected, the unit of an existing phase stays.
\<close>

definition mem_savePhase :: "jsval \<Rightarrow> (mem_store, phase_progress) eff" where
  "mem_savePhase input =
     andThen (mem_activeWork (jget input ''workKey'')) (\<lambda>(key, work).
     check (mem_requireText (jget input ''phase'') ''phase'') (\<lambda>phase.
     let old = map_of (mw_phases work) phase;
         units = (case old of Some p \<Rightarrow> mp_units p | None \<Rightarrow> []);
         unit = jget input ''unit''
     in check (if truthy unit
               then bind_res (mem_unit unit) (\<lambda>(k, u). Inr (AList.update k u units))
               else Inr units) (\<lambda>units'.
        andThen (case old of
            Some p \<Rightarrow> modify (put_phase key work phase (p\<lparr>mp_units := units'\<rparr>))
          | None \<Rightarrow> ret ()) (\<lambda>_.
        check (mem_progress input) (\<lambda>progress.
        andThen (modify (put_phase key work phase \<lparr>mp_units = units', mp_progress = progress\<rparr>))
          (\<lambda>_. ret progress))))))"

definition mem_listPhaseUnits :: "jsval \<Rightarrow> (mem_store, unit_page) eff" where
  "mem_listPhaseUnits input =
     andThen (mem_thePhase (jget input ''workKey'') (jget input ''phase'')) (\<lambda>phase.
     check (mem_timestamp (nullish (jget input ''afterSequence'') (jint 0)) ''afterSequence'')
       (\<lambda>afterSequence.
     check (mem_positiveInteger (nullish (jget input ''limit'') (jint 100)) ''limit'') (\<lambda>limit.
     let units = take (nat limit) (sort_key wu_sequence (filter (\<lambda>u. afterSequence \<le> wu_sequence u)
           (case phase of Some p \<Rightarrow> map snd (mp_units p) | None \<Rightarrow> [])))
     in ret \<lparr>up_units = units, up_nextSequence =
               (if int (length units) = limit then Some (wu_sequence (last units) + 1) else None)\<rparr>)))"

definition mem_resetPhase :: "jsval \<Rightarrow> (mem_store, bool) eff" where
  "mem_resetPhase input =
     andThen (mem_activeWork (jget input ''workKey'')) (\<lambda>(key, work).
     check (mem_requireText (jget input ''phase'') ''phase'') (\<lambda>phase.
     andThen (modify (\<lambda>s.
       (put_work key (work\<lparr>mw_phases := AList.delete phase (mw_phases work)\<rparr>) s)
         \<lparr>ms_resets := ms_resets s @ [(jget input ''workKey'', phase)]\<rparr>)) (\<lambda>_. ret True)))"

subsection \<open>Warning outbox\<close>

definition put_warning :: "string \<Rightarrow> mem_warning \<Rightarrow> mem_store \<Rightarrow> mem_store" where
  "put_warning k w s = s\<lparr>ms_outbox := AList.update k w (ms_outbox s)\<rparr>"

definition guard_input :: "generation_guard \<Rightarrow> jsval" where
  "guard_input g = JObj [(''cursorKey'', JStr (gg_cursorKey g)),
     (''generation'', jint (gg_generation g)), (''workKey'', JStr (gg_workKey g))]"

definition mem_saveWarningOutbox :: "jsval \<Rightarrow> int \<Rightarrow> (mem_store, warning_reply) eff" where
  "mem_saveWarningOutbox input now =
     check (mem_requireWarning input) (\<lambda>event.
     andThen (case we_guard event of None \<Rightarrow> ret True
              | Some g \<Rightarrow> mem_assertCurrentGeneration (guard_input g)) (\<lambda>_.
     andThen (gets (\<lambda>s. map_of (ms_outbox s) (we_outboxId event))) (\<lambda>existing. case existing of
         Some w \<Rightarrow> ret \<lparr>wr_outboxId = we_outboxId event, wr_status = mo_status w\<rparr>
       | None \<Rightarrow>
           check (mem_timestamp (jint now) ''now'') (\<lambda>createdAt.
           andThen (modify (put_warning (we_outboxId event)
             \<lparr>mo_event = event, mo_status = Pending, mo_deliveryAttempts = 0,
              mo_lastErrorCode = None, mo_createdAt = createdAt, mo_updatedAt = createdAt,
              mo_deliveredAt = None\<rparr>)) (\<lambda>_.
           ret \<lparr>wr_outboxId = we_outboxId event, wr_status = Pending\<rparr>)))))"

definition mem_markWarningDeliveryFailed :: "jsval \<Rightarrow> int \<Rightarrow> (mem_store, bool) eff" where
  "mem_markWarningDeliveryFailed input now =
     check (mem_requireText (jget input ''outboxId'') ''outboxId'') (\<lambda>outboxId.
     andThen (gets (\<lambda>s. map_of (ms_outbox s) outboxId)) (\<lambda>event. case event of
         None \<Rightarrow> ret False
       | Some w \<Rightarrow>
           if mo_status w \<noteq> Pending then ret False
           else let w1 = w\<lparr>mo_deliveryAttempts := mo_deliveryAttempts w + 1,
                  mo_lastErrorCode := Some (case optionalText (jget input ''errorCode'') of
                    Some c \<Rightarrow> c | None \<Rightarrow> ''SYNC_WARNING_ALERT_WRITE_FAILED'')\<rparr>
                in andThen (modify (put_warning outboxId w1)) (\<lambda>_.
                   check (mem_timestamp (nullish (jget input ''updatedAt'') (jint now)) ''updatedAt'')
                     (\<lambda>t. andThen (modify (put_warning outboxId (w1\<lparr>mo_updatedAt := t\<rparr>)))
                            (\<lambda>_. ret True)))))"

definition mem_markWarningDelivered :: "jsval \<Rightarrow> int \<Rightarrow> (mem_store, bool) eff" where
  "mem_markWarningDelivered input now =
     check (mem_requireText (jget input ''outboxId'') ''outboxId'') (\<lambda>outboxId.
     andThen (gets (\<lambda>s. map_of (ms_outbox s) outboxId)) (\<lambda>event. case event of
         None \<Rightarrow> ret False
       | Some w \<Rightarrow>
           let w1 = w\<lparr>mo_status := Delivered, mo_deliveryAttempts := mo_deliveryAttempts w + 1\<rparr>
           in andThen (modify (put_warning outboxId w1)) (\<lambda>_.
              check (mem_timestamp (nullish (jget input ''deliveredAt'') (jint now)) ''deliveredAt'')
                (\<lambda>t. andThen (modify (put_warning outboxId (w1\<lparr>mo_deliveredAt := Some t\<rparr>)))
                       (\<lambda>_. ret True)))))"

definition mem_has_pending :: "string \<Rightarrow> mem_store \<Rightarrow> bool" where
  "mem_has_pending w s \<longleftrightarrow>
     list_ex (\<lambda>(k, e). we_workKey (mo_event e) = w \<and> mo_status e = Pending) (ms_outbox s)"

subsection \<open>Lifecycle\<close>

definition mem_completeWork :: "jsval \<Rightarrow> int \<Rightarrow> (mem_store, bool) eff" where
  "mem_completeWork input now =
     (let value = (case input of JStr k \<Rightarrow> JObj [(''workKey'', JStr k), (''completion'', JNull)]
                   | _ \<Rightarrow> input)
      in andThen (mem_theWork (jget value ''workKey'')) (\<lambda>(key, work).
         let w1 = work\<lparr>mw_phases := [], mw_lifecycleStatus := Completed,
                       mw_completion := nullish (jget value ''completion'') JNull\<rparr>
         in andThen (modify (put_work key w1)) (\<lambda>_.
            check (mem_timestamp (jint now) ''now'') (\<lambda>t.
            andThen (modify (\<lambda>s. put_work key (w1\<lparr>mw_completedAt := Some t,
              mw_expiresAt := Some (t + ms_retentionMs s)\<rparr>) s)) (\<lambda>_. ret True)))))"

definition mem_abandon_status :: "jsval \<Rightarrow> lifecycle" where
  "mem_abandon_status v = (if v = JStr ''superseded'' then Superseded else Terminal)"

definition mem_abandonWork :: "jsval \<Rightarrow> int \<Rightarrow> (mem_store, abandon_reply) eff" where
  "mem_abandonWork input now =
     check (mem_requireText (jget input ''workKey'') ''workKey'') (\<lambda>workKey.
     andThen (gets (\<lambda>s. (map_of (ms_works s) workKey, mem_has_pending workKey s))) (\<lambda>(found, pending).
     case found of
       None \<Rightarrow> ret \<lparr>ab_terminal = False, ab_found = False, ab_status = None, ab_protected = False\<rparr>
     | Some work \<Rightarrow>
         if mw_lifecycleStatus work = Completed \<and> pending
         then ret \<lparr>ab_terminal = False, ab_found = True, ab_status = Some Completed,
                   ab_protected = False\<rparr>
         else if mw_lifecycleStatus work \<in> {Terminal, Superseded}
         then ret \<lparr>ab_terminal = True, ab_found = True,
                   ab_status = Some (mw_lifecycleStatus work), ab_protected = False\<rparr>
         else
           let st = mem_abandon_status (jget input ''lifecycleStatus'');
               w1 = work\<lparr>mw_lifecycleStatus := st\<rparr>
           in andThen (modify (put_work workKey w1)) (\<lambda>_.
              check (mem_requireText (jget input ''reason'') ''reason'') (\<lambda>reason.
              let w2 = w1\<lparr>mw_terminalReason := Some reason,
                          mw_auditReference := optionalText (jget input ''auditReference'')\<rparr>
              in andThen (modify (put_work workKey w2)) (\<lambda>_.
                 check (mem_timestamp (jint now) ''now'') (\<lambda>t.
                 andThen (modify (\<lambda>s. put_work workKey (w2\<lparr>mw_abandonedAt := Some t,
                   mw_expiresAt := Some (t + ms_retentionMs s)\<rparr>) s)) (\<lambda>_.
                 ret \<lparr>ab_terminal = True, ab_found = True, ab_status = Some st,
                      ab_protected = False\<rparr>)))))))"

definition mem_expired :: "int \<Rightarrow> mem_store \<Rightarrow> string \<Rightarrow> mem_work \<Rightarrow> bool" where
  "mem_expired now s k w \<longleftrightarrow> mw_lifecycleStatus w \<noteq> Active \<and>
     (case mw_expiresAt w of Some e \<Rightarrow> e \<le> now | None \<Rightarrow> False) \<and> \<not> mem_has_pending k s"

text \<open>The loop over the works in insertion order; a deleted entry does not disturb the others.\<close>

fun mem_sweep :: "(string \<times> mem_work) list \<Rightarrow> int \<Rightarrow> int \<Rightarrow> int \<Rightarrow> mem_store \<Rightarrow> int \<times> mem_store" where
  "mem_sweep [] now limit deleted s = (deleted, s)"
| "mem_sweep ((k, w) # rest) now limit deleted s =
     (if limit \<le> deleted then (deleted, s)
      else if mem_expired now s k w
      then mem_sweep rest now limit (deleted + 1)
             (s\<lparr>ms_works := AList.delete k (ms_works s),
                ms_outbox := filter (\<lambda>(i, e). we_workKey (mo_event e) \<noteq> k) (ms_outbox s)\<rparr>)
      else mem_sweep rest now limit deleted s)"

definition mem_cleanupExpiredWork :: "jsval \<Rightarrow> int \<Rightarrow> (mem_store, int) eff" where
  "mem_cleanupExpiredWork input now =
     check (mem_timestamp (nullish (jget input ''now'') (jint now)) ''now'') (\<lambda>t.
     check (mem_positiveInteger (nullish (jget input ''limit'') (jint 100)) ''limit'') (\<lambda>limit.
     \<lambda>s. case mem_sweep (ms_works s) t limit 0 s of (n, s') \<Rightarrow> (Inr n, s')))"

subsection \<open>The fence\<close>

definition mem_fence_of :: "mem_store \<Rightarrow> string \<Rightarrow> fence_claim" where
  "mem_fence_of s c = map_option (\<lambda>f. (mf_generation f, mf_workKey f)) (map_of (ms_fences s) c)"

fun mem_apply :: "work_op \<Rightarrow> mem_store \<Rightarrow> mem_store" where
  "mem_apply (BeginWork i t) s = snd (mem_beginWork i t s)"
| "mem_apply (SavePhase i t) s = snd (mem_savePhase i s)"
| "mem_apply (ResetPhase i) s = snd (mem_resetPhase i s)"
| "mem_apply (SaveWarning i t) s = snd (mem_saveWarningOutbox i t s)"
| "mem_apply (WarningFailed i t) s = snd (mem_markWarningDeliveryFailed i t s)"
| "mem_apply (WarningDelivered i t) s = snd (mem_markWarningDelivered i t s)"
| "mem_apply (CompleteWork i t) s = snd (mem_completeWork i t s)"
| "mem_apply (AbandonWork i t) s = snd (mem_abandonWork i t s)"
| "mem_apply (CleanupExpired i t) s = snd (mem_cleanupExpiredWork i t s)"

lemma put_fields [simp]:
  "ms_fences (put_work k w s) = ms_fences s"
  "ms_fences (put_phase k work p ph s) = ms_fences s"
  "ms_fences (put_warning k v s) = ms_fences s"
  "ms_works (put_warning k v s) = ms_works s"
  "ms_works (put_fence k f s) = ms_works s"
  "ms_outbox (put_work k w s) = ms_outbox s"
  by (simp_all add: put_work_def put_phase_def put_warning_def put_fence_def)

abbreviation fences_kept :: "mem_store \<Rightarrow> mem_store \<Rightarrow> bool" where
  "fences_kept \<equiv> unchanged ms_fences"

lemma fences_kept_modify [evolves_intro]:
  "(\<And>s. ms_fences (f s) = ms_fences s) \<Longrightarrow> evolves fences_kept (modify f)"
  by (simp add: evolves_def modify_def unchanged_def)

lemma evolves_theWork: "reflp R \<Longrightarrow> transp R \<Longrightarrow> evolves R (mem_theWork v)"
  unfolding mem_theWork_def by (intro evolves_intro)

lemma evolves_activeWork: "reflp R \<Longrightarrow> transp R \<Longrightarrow> evolves R (mem_activeWork v)"
  unfolding mem_activeWork_def by (intro evolves_intro evolves_theWork)

lemma evolves_assertCurrent: "reflp R \<Longrightarrow> transp R \<Longrightarrow> evolves R (mem_assertCurrentGeneration i)"
  unfolding mem_assertCurrentGeneration_def by (intro evolves_intro)

lemmas mem_reads = evolves_theWork evolves_activeWork evolves_assertCurrent

lemma savePhase_keeps_fences: "evolves fences_kept (mem_savePhase i)"
  unfolding mem_savePhase_def by (intro evolves_intro mem_reads) simp_all

lemma resetPhase_keeps_fences: "evolves fences_kept (mem_resetPhase i)"
  unfolding mem_resetPhase_def by (intro evolves_intro mem_reads) simp_all

lemma saveWarning_keeps_fences: "evolves fences_kept (mem_saveWarningOutbox i t)"
  unfolding mem_saveWarningOutbox_def by (intro evolves_intro mem_reads) simp_all

lemma warningFailed_keeps_fences: "evolves fences_kept (mem_markWarningDeliveryFailed i t)"
  unfolding mem_markWarningDeliveryFailed_def by (intro evolves_intro) simp_all

lemma warningDelivered_keeps_fences: "evolves fences_kept (mem_markWarningDelivered i t)"
  unfolding mem_markWarningDelivered_def by (intro evolves_intro) simp_all

lemma completeWork_keeps_fences: "evolves fences_kept (mem_completeWork i t)"
  unfolding mem_completeWork_def by (intro evolves_intro mem_reads) simp_all

lemma abandonWork_keeps_fences: "evolves fences_kept (mem_abandonWork i t)"
  unfolding mem_abandonWork_def by (intro evolves_intro) simp_all

lemma sweep_keeps_fences: "ms_fences (snd (mem_sweep ws t l d s)) = ms_fences s"
  by (induction ws t l d s rule: mem_sweep.induct) simp_all

lemma cleanup_keeps_fences: "evolves fences_kept (mem_cleanupExpiredWork i t)"
  unfolding mem_cleanupExpiredWork_def
  by (intro evolves_intro)
    (auto simp: evolves_def unchanged_def split: prod.split, metis sweep_keeps_fences snd_conv)

lemma recordTerminal_keeps_fences: "evolves fences_kept (mem_recordTerminal w c f wt g r t)"
  unfolding mem_recordTerminal_def by (intro evolves_intro) simp_all

lemma kept_grow: "fences_kept s t \<Longrightarrow> fences_grow mem_fence_of s t"
  by (simp add: unchanged_def fences_grow_def mem_fence_of_def)

lemma fence_of_put [simp]:
  "mem_fence_of (put_fence c f s) x =
     (if x = c then Some (mf_generation f, mf_workKey f) else mem_fence_of s x)"
  by (simp add: mem_fence_of_def put_fence_def update_conv)

lemma fence_of_put_work [simp]: "mem_fence_of (put_work k w s) = mem_fence_of s"
  by (simp add: mem_fence_of_def fun_eq_iff)

text \<open>The claim, by what the fence holds.\<close>

lemma mem_claim_cases:
  assumes "mem_claim w c f g q wt t ex s = (r, s')"
  obtains (lost) "beaten g w (mem_fence_of s c)" "fences_kept s s'"
      "\<And>x. r = Inr x \<Longrightarrow> x = superseded_reply w"
    | (won) "\<not> beaten g w (mem_fence_of s c)"
      "mem_fence_of s' = (mem_fence_of s)(c \<mapsto> (g, w))"
      "\<And>x. r = Inr x \<Longrightarrow> \<exists>b. x = active_reply w b"
proof (cases "beaten g w (mem_fence_of s c)")
  case True
  then have "case map_of (ms_fences s) c of None \<Rightarrow> False
         | Some f \<Rightarrow> g < mf_generation f \<or> g = mf_generation f \<and> mf_workKey f \<noteq> w"
    by (auto simp: beaten_def mem_fence_of_def split: option.splits)
  with assms have run: "(r, s') = check (mem_requireText wt ''workType'') (\<lambda>workType.
          andThen (mem_recordTerminal w c f workType g q t) (\<lambda>_. ret (superseded_reply w))) s"
    by (simp add: mem_claim_def eff_simps)
  have "evolves fences_kept (check (mem_requireText wt ''workType'') (\<lambda>workType.
          andThen (mem_recordTerminal w c f workType g q t) (\<lambda>_. ret (superseded_reply w))))"
    by (intro evolves_intro recordTerminal_keeps_fences) simp_all
  then have "fences_kept s s'" using run by (metis evolvesD)
  moreover have "x = superseded_reply w" if "r = Inr x" for x
    using run that by (auto simp: eff_simps split: sum.splits prod.splits)
  ultimately show ?thesis using lost True by blast
next
  case False
  then have "\<not> (case map_of (ms_fences s) c of None \<Rightarrow> False
         | Some f \<Rightarrow> g < mf_generation f \<or> g = mf_generation f \<and> mf_workKey f \<noteq> w)"
    by (auto simp: beaten_def mem_fence_of_def split: option.splits)
  with assms False show ?thesis
    by (intro won) (auto simp: mem_claim_def eff_simps Let_def fun_eq_iff split: sum.splits if_splits)
qed

lemma mem_claim_grows: "evolves (fences_grow mem_fence_of) (mem_claim w c f g q wt t ex)"
proof (rule evolvesI)
  fix s
  obtain r s' where run: "mem_claim w c f g q wt t ex s = (r, s')" by force
  then show "fences_grow mem_fence_of s (snd (mem_claim w c f g q wt t ex s))"
  proof (cases rule: mem_claim_cases)
    case lost
    then show ?thesis using run kept_grow by simp
  next
    case won
    then show ?thesis using run unbeaten_le by (simp add: fences_grow_def)
  qed
qed

lemma mem_begin_grows: "evolves (fences_grow mem_fence_of) (mem_beginWork i t)"
  unfolding mem_beginWork_def by (intro evolves_intro mem_claim_grows) simp_all

lemma mem_begin_active:
  assumes "mem_beginWork input now s = (Inr r, s')" "\<not> br_superseded r" "\<not> br_completed r"
  obtains w c f q g ex where
    "mem_requireText (jget input ''workKey'') ''workKey'' = Inr w"
    "mem_requireText (jget input ''cursorKey'') ''cursorKey'' = Inr c"
    "mem_timestamp (nullish (jget input ''generation'') (jint q)) ''generation'' = Inr g"
    "mem_claim w c f g q (jget input ''workType'') now ex s = (Inr r, s')"
  using assms
  by (auto simp: mem_beginWork_def eff_simps split: sum.splits option.splits if_splits)

lemma mem_begin_claims:
  assumes "mem_beginWork input now s = (Inr r, s')" "\<not> br_superseded r" "\<not> br_completed r"
  shows "\<exists>c g. jget input ''cursorKey'' = JStr c \<and> mem_fence_of s' (trim c) = Some (g, br_workKey r) \<and>
        (\<forall>n. is_safe n \<longrightarrow> jget input ''generation'' = jint n \<longrightarrow> g = n)"
proof -
  obtain w c f q g ex where
    c: "mem_requireText (jget input ''cursorKey'') ''cursorKey'' = Inr c" and
    g: "mem_timestamp (nullish (jget input ''generation'') (jint q)) ''generation'' = Inr g" and
    run: "mem_claim w c f g q (jget input ''workType'') now ex s = (Inr r, s')"
    using mem_begin_active [OF assms] by metis
  obtain c0 where c0: "jget input ''cursorKey'' = JStr c0" "c = trim c0"
    using c by (auto simp: mem_requireText_def requireText_def split: jsval.splits if_splits)
  have gen: "g = n" if "is_safe n" "jget input ''generation'' = jint n" for n
    using g that by (auto simp: mem_timestamp_def nullish_def safe_number_def split: if_splits)
  from run have "mem_fence_of s' c = Some (g, br_workKey r)"
  proof (cases rule: mem_claim_cases)
    case lost
    then show ?thesis using assms(2) by auto
  next
    case won
    then show ?thesis by (auto simp: active_reply_def)
  qed
  then show ?thesis using c0 gen by blast
qed

lemma mem_current_holds:
  assumes "mem_assertCurrentGeneration input s = (Inr b, s')"
  shows "\<exists>c w g. jget input ''cursorKey'' = JStr c \<and> jget input ''workKey'' = JStr w \<and>
        js_number (jget input ''generation'') = NInt g \<and> mem_fence_of s (trim c) = Some (g, trim w)"
  using assms
  by (auto simp: mem_assertCurrentGeneration_def eff_simps mem_requireText_def requireText_def
      mem_timestamp_def safe_number_def mem_fence_of_def dest!: safe_int_SomeD
      split: sum.splits option.splits if_splits jsval.splits)

interpretation mem_fence: generation_fence
  mem_beginWork mem_assertCurrentGeneration mem_apply mem_fence_of "\<lambda>_. True"
proof (unfold_locales, goal_cases)
  case (2 s x)
  show ?case
  proof (cases x)
    case (BeginWork i t)
    then show ?thesis using mem_begin_grows by (simp add: evolves_def)
  qed (simp_all add: evolves_def kept_grow
      savePhase_keeps_fences [unfolded evolves_def] resetPhase_keeps_fences [unfolded evolves_def]
      saveWarning_keeps_fences [unfolded evolves_def] warningFailed_keeps_fences [unfolded evolves_def]
      warningDelivered_keeps_fences [unfolded evolves_def] completeWork_keeps_fences [unfolded evolves_def]
      abandonWork_keeps_fences [unfolded evolves_def] cleanup_keeps_fences [unfolded evolves_def])
next
  case (4 s input now r s')
  show ?case by (rule mem_begin_claims [OF 4(2-)])
next
  case (5 input s b s')
  then show ?case by (rule mem_current_holds)
qed simp_all

end
