(* ===== verification/D1_Work_Store.thy ===== *)
theory D1_Work_Store
  imports Work_Contract
begin

text \<open>
  The durable resumable-work store (\<open>d1-resumable-work-store.js\<close>) over the D1 tables \<open>sync_work_runs\<close>,
  \<open>sync_work_phases\<close>, \<open>sync_work_units\<close>, \<open>sync_warning_outbox\<close> and \<open>sync_generation_fences\<close>.
  A \<open>batch\<close> is one transaction: it meets one fault, and a constraint violation undoes all of it.
\<close>

subsection \<open>Validation\<close>

record work_config =
  wc_unitPageSize :: int
  wc_retentionMs :: int

definition work_requireText :: "jsval \<Rightarrow> string \<Rightarrow> jserror + string" where
  "work_requireText v f = requireText (''D1ResumableWorkStore requires '' @ f) v"

definition work_safeTimestamp :: "jsval \<Rightarrow> string \<Rightarrow> jserror + int" where
  "work_safeTimestamp v f =
     safe_number (\<lambda>n. 0 \<le> n) (''D1ResumableWorkStore '' @ f @ '' must be a non-negative safe integer'') v"

definition work_boundedPositiveInteger :: "jsval \<Rightarrow> string \<Rightarrow> int \<Rightarrow> jserror + int" where
  "work_boundedPositiveInteger v f maximum =
     safe_number (\<lambda>n. 0 < n \<and> n \<le> maximum)
       (''D1ResumableWorkStore '' @ f @ '' must be from 1 to '' @ int_text maximum) v"

definition work_uniqueTextList :: "jsval \<Rightarrow> string \<Rightarrow> nat \<Rightarrow> jserror + string list" where
  "work_uniqueTextList v f maximum =
     (let bad = Inl (type_error (''D1ResumableWorkStore '' @ f @ '' must contain at most ''
                  @ nat_text maximum @ '' entries''))
      in case v of
        JArr xs \<Rightarrow>
          if maximum < length xs then bad
          else bind_res (map_res (\<lambda>x. work_requireText x f) xs) (\<lambda>items.
            if distinct items then Inr items
            else Inl (type_error (''D1ResumableWorkStore '' @ f @ '' must not contain duplicates'')))
      | _ \<Rightarrow> bad)"

definition requireJsonObject :: "jsval \<Rightarrow> string \<Rightarrow> jserror + jsval" where
  "requireJsonObject v f =
     (if is_object v then Inr v else Inl (type_error (f @ '' must be an object'')))"

definition work_parseJsonObject :: "json_text \<Rightarrow> string \<Rightarrow> jserror + jsval" where
  "work_parseJsonObject t f =
     (let bad = Inl (permanentError (''Invalid resumable sync '' @ f) ''D1_SYNC_WORK_INVALID_JSON''
                  (JObj [(''fieldName'', JStr f)]))
      in case json_parse t of
        Some v \<Rightarrow> (if is_object v then Inr v else bad)
      | None \<Rightarrow> bad)"

definition work_parseNullable :: "json_text option \<Rightarrow> string \<Rightarrow> jserror + jsval" where
  "work_parseNullable t f = (case t of
     None \<Rightarrow> Inr JNull
   | Some (RawText s) \<Rightarrow> if s = [] then Inr JNull else work_parseJsonObject (RawText s) f
   | Some j \<Rightarrow> work_parseJsonObject j f)"

definition work_d1Error :: "string \<Rightarrow> string \<Rightarrow> jserror \<Rightarrow> jserror" where
  "work_d1Error msg code cause = transientError msg code
     (JObj [(''causeCode'', err_code_val cause), (''causeMessage'', JStr (err_message cause))])"

definition new_work_config :: "jsval \<Rightarrow> jserror + work_config" where
  "new_work_config input =
     bind_res (work_boundedPositiveInteger (nullish (jget input ''unitPageSize'') (jint 100))
       ''unitPageSize'' 500) (\<lambda>unitPageSize.
     bind_res (work_boundedPositiveInteger (nullish (jget input ''retentionMs'') (jint (7 * 86400000)))
       ''retentionMs'' (365 * 86400000)) (\<lambda>retentionMs.
     Inr \<lparr>wc_unitPageSize = unitPageSize, wc_retentionMs = retentionMs\<rparr>))"

record work_input =
  wi_workKey :: string
  wi_cursorKey :: string
  wi_workType :: string
  wi_fingerprint :: string
  wi_generation :: int
  wi_requestedAt :: int

definition work_requireWork :: "jsval \<Rightarrow> int \<Rightarrow> jserror + work_input" where
  "work_requireWork input fallback =
     bind_res (work_safeTimestamp (nullish (nullish (jget input ''requestedAt'')
       (jget input ''generation'')) (jint fallback)) ''requestedAt'') (\<lambda>requestedAt.
     bind_res (work_requireText (jget input ''workKey'') ''workKey'') (\<lambda>workKey.
     bind_res (work_requireText (jget input ''cursorKey'') ''cursorKey'') (\<lambda>cursorKey.
     bind_res (work_requireText (jget input ''workType'') ''workType'') (\<lambda>workType.
     bind_res (work_requireText (jget input ''operationFingerprint'') ''operationFingerprint'')
       (\<lambda>fingerprint.
     bind_res (work_safeTimestamp (nullish (jget input ''generation'') (jint requestedAt))
       ''generation'') (\<lambda>generation.
     Inr \<lparr>wi_workKey = workKey, wi_cursorKey = cursorKey, wi_workType = workType,
          wi_fingerprint = fingerprint, wi_generation = generation,
          wi_requestedAt = requestedAt\<rparr>))))))"

record phase_write =
  pw_workKey :: string
  pw_phase :: string
  pw_state :: jsval
  pw_expectedItems :: int
  pw_processedItems :: int
  pw_pagesProcessed :: int
  pw_chunksProcessed :: int
  pw_complete :: bool
  pw_unit :: "work_unit option"

definition work_requirePhaseWrite :: "jsval \<Rightarrow> jserror + phase_write" where
  "work_requirePhaseWrite input =
     bind_res (work_safeTimestamp (nullish (jget input ''expectedItems'') (jint 0))
       ''expectedItems'') (\<lambda>expected.
     bind_res (work_safeTimestamp (nullish (jget input ''processedItems'') (jint 0))
       ''processedItems'') (\<lambda>processed.
     if expected < processed
     then Inl (range_error ''processedItems cannot exceed expectedItems'')
     else
     bind_res (work_requireText (jget input ''workKey'') ''workKey'') (\<lambda>workKey.
     bind_res (work_requireText (jget input ''phase'') ''phase'') (\<lambda>phase.
     bind_res (requireJsonObject (nullish (jget input ''state'') (JObj [])) ''state'') (\<lambda>state.
     bind_res (work_safeTimestamp (nullish (jget input ''pagesProcessed'') (jint 0))
       ''pagesProcessed'') (\<lambda>pages.
     bind_res (work_safeTimestamp (nullish (jget input ''chunksProcessed'') (jint 0))
       ''chunksProcessed'') (\<lambda>chunks.
     bind_res
       (let u = jget input ''unit'' in
        if truthy u then
          bind_res (work_requireText (jget u ''unitKey'') ''unit.unitKey'') (\<lambda>key.
          bind_res (work_safeTimestamp (jget u ''sequence'') ''unit.sequence'') (\<lambda>seq.
          bind_res (requireJsonObject (jget u ''payload'') ''unit.payload'') (\<lambda>payload.
          Inr (Some \<lparr>wu_unitKey = key, wu_sequence = seq, wu_payload = payload\<rparr>))))
        else Inr None) (\<lambda>unit.
     Inr \<lparr>pw_workKey = workKey, pw_phase = phase, pw_state = state, pw_expectedItems = expected,
          pw_processedItems = processed, pw_pagesProcessed = pages, pw_chunksProcessed = chunks,
          pw_complete = (jget input ''complete'' = JBool True), pw_unit = unit\<rparr>))))))))"

definition work_requireWarning :: "jsval \<Rightarrow> jserror + warning_event" where
  "work_requireWarning input =
     bind_res
       (let gg = jget input ''generationGuard'' in
        if truthy gg then
          bind_res (work_requireText (jget gg ''cursorKey'') ''generationGuard.cursorKey'') (\<lambda>c.
          bind_res (work_safeTimestamp (jget gg ''generation'') ''generationGuard.generation'') (\<lambda>g.
          bind_res (work_requireText (jget gg ''workKey'') ''generationGuard.workKey'') (\<lambda>w.
          Inr (Some \<lparr>gg_cursorKey = c, gg_generation = g, gg_workKey = w\<rparr>))))
        else Inr None) (\<lambda>guard.
     bind_res (work_requireText (jget input ''outboxId'') ''outboxId'') (\<lambda>outboxId.
     bind_res (work_requireText (jget input ''workKey'') ''workKey'') (\<lambda>workKey.
     bind_res (work_requireText (jget input ''syncRunId'') ''syncRunId'') (\<lambda>syncRunId.
     bind_res (work_requireText (jget input ''warningType'') ''warningType'') (\<lambda>warningType.
     bind_res (work_requireText (jget input ''sourceKey'') ''sourceKey'') (\<lambda>sourceKey.
     bind_res (requireJsonObject (nullish (jget input ''payload'') (JObj [])) ''payload'') (\<lambda>payload.
     Inr \<lparr>we_outboxId = outboxId, we_workKey = workKey, we_syncRunId = syncRunId,
          we_warningType = warningType, we_sourceKey = sourceKey,
          we_payload = payload, we_guard = guard\<rparr>)))))))"

subsection \<open>Beginning a work and the generation fence\<close>

definition sql_claim_fence :: "work_input \<Rightarrow> int \<Rightarrow> d1 \<Rightarrow> nat \<times> d1" where
  "sql_claim_fence work now =
     on_table sync_generation_fences sync_generation_fences_update
       (sql_upsert (\<lambda>r. fn_cursor_key r = wi_cursorKey work)
          (\<lambda>r. fn_generation r < wi_generation work
             \<or> wi_generation work = fn_generation r \<and> wi_workKey work = fn_work_key r)
          (\<lambda>r. r\<lparr>fn_generation := wi_generation work, fn_requested_at := wi_requestedAt work,
                fn_work_key := wi_workKey work, fn_updated_at := now\<rparr>)
          \<lparr>fn_cursor_key = wi_cursorKey work, fn_generation = wi_generation work,
           fn_requested_at = wi_requestedAt work, fn_work_key = wi_workKey work,
           fn_updated_at = now\<rparr>)"

definition fresh_work_row :: "work_input \<Rightarrow> int \<Rightarrow> lifecycle \<Rightarrow> work_row" where
  "fresh_work_row work now status =
     \<lparr>wk_key = wi_workKey work, wk_cursor_key = wi_cursorKey work, wk_type = wi_workType work,
      wk_fingerprint = wi_fingerprint work, wk_generation = wi_generation work,
      wk_requested_at = wi_requestedAt work, wk_lifecycle = status, wk_terminal_reason = None,
      wk_abandoned_at = None, wk_completed_at = None, wk_expires_at = None, wk_audit = None,
      wk_completion = None, wk_created_at = now, wk_updated_at = now\<rparr>"

definition sql_start_work :: "work_input \<Rightarrow> int \<Rightarrow> d1 \<Rightarrow> nat \<times> d1" where
  "sql_start_work work now =
     on_table sync_work_runs sync_work_runs_update
       (sql_upsert (\<lambda>r. wk_key r = wi_workKey work)
          (\<lambda>r. wk_generation r = wi_generation work \<and> wk_lifecycle r = Active)
          (\<lambda>r. r\<lparr>wk_cursor_key := wi_cursorKey work, wk_type := wi_workType work,
                wk_fingerprint := wi_fingerprint work, wk_requested_at := wi_requestedAt work,
                wk_updated_at := now\<rparr>)
          (fresh_work_row work now Active))"

definition sql_record_superseded :: "work_config \<Rightarrow> work_input \<Rightarrow> int \<Rightarrow> d1 \<Rightarrow> nat \<times> d1" where
  "sql_record_superseded cfg work now =
     (let reason = ''SYNC_WORK_SUPERSEDED''; expires = now + wc_retentionMs cfg;
          audit = ''generation:'' @ int_text (wi_generation work)
      in on_table sync_work_runs sync_work_runs_update
       (sql_upsert (\<lambda>r. wk_key r = wi_workKey work) (\<lambda>r. True)
          (\<lambda>r. r\<lparr>wk_lifecycle := Superseded,
                wk_terminal_reason := coalesce (wk_terminal_reason r) (Some reason),
                wk_abandoned_at := coalesce (wk_abandoned_at r) (Some now),
                wk_expires_at := coalesce (wk_expires_at r) (Some expires),
                wk_audit := coalesce (wk_audit r) (Some audit),
                wk_updated_at := now\<rparr>)
          ((fresh_work_row work now Superseded)
             \<lparr>wk_terminal_reason := Some reason, wk_abandoned_at := Some now,
              wk_expires_at := Some expires, wk_audit := Some audit\<rparr>)))"

definition work_claim ::
    "work_config \<Rightarrow> work_input \<Rightarrow> int \<Rightarrow> work_row option \<Rightarrow> (d1, begin_reply) eff" where
  "work_claim cfg work now existing =
     andThen (run_sql (sql_claim_fence work now)) (\<lambda>claimed.
     if claimed = 0
     then andThen (run_sql (sql_record_superseded cfg work now))
            (\<lambda>_. ret (superseded_reply (wi_workKey work)))
     else andThen (run_sql (sql_start_work work now)) (\<lambda>_.
            ret (active_reply (wi_workKey work)
              (case existing of None \<Rightarrow> False
               | Some r \<Rightarrow> wk_lifecycle r = Active \<and> wk_fingerprint r = wi_fingerprint work))))"

definition begin_with ::
    "work_config \<Rightarrow> work_input \<Rightarrow> int \<Rightarrow> work_row option \<Rightarrow> (d1, begin_reply) eff" where
  "begin_with cfg work now existing = (case existing of
       None \<Rightarrow> work_claim cfg work now existing
     | Some r \<Rightarrow>
         if wk_generation r \<noteq> wi_generation work then
           throw (permanentError ''Resumable work key was reused with a different generation''
             ''SYNC_WORK_GENERATION_MISMATCH'' (JObj [(''generation'', jint (wi_generation work))]))
         else if wk_lifecycle r = Completed then
           check (work_parseNullable (wk_completion r) ''completion_json'')
             (\<lambda>c. ret (completed_reply (wi_workKey work) c))
         else if wk_lifecycle r \<in> {Terminal, Superseded} then
           ret (superseded_reply (wi_workKey work))
         else if wk_fingerprint r \<noteq> wi_fingerprint work then
           throw (permanentError
             ''Resumable sync operation changed within the same active generation''
             ''SYNC_WORK_OPERATION_MISMATCH'' (JObj [(''generation'', jint (wi_generation work))]))
         else work_claim cfg work now existing)"

definition work_beginWork :: "work_config \<Rightarrow> jsval \<Rightarrow> int \<Rightarrow> (d1, begin_reply) eff" where
  "work_beginWork cfg input clock =
     check (work_safeTimestamp (jint clock) ''now'') (\<lambda>now.
     check (work_requireWork input now) (\<lambda>work.
     catching
       (andThen (query (\<lambda>s. row_at wk_key (wi_workKey work) (sync_work_runs s)))
          (begin_with cfg work now))
       (\<lambda>cause.
          if has_code cause [''SYNC_WORK_OPERATION_MISMATCH'', ''SYNC_WORK_GENERATION_MISMATCH'']
          then throw cause
          else throw (work_d1Error ''Failed to begin resumable sync work''
                        ''D1_SYNC_WORK_BEGIN_FAILED'' cause))))"

definition work_assertCurrentGeneration :: "jsval \<Rightarrow> (d1, bool) eff" where
  "work_assertCurrentGeneration input =
     check (work_requireText (jget input ''workKey'') ''workKey'') (\<lambda>workKey.
     check (work_requireText (jget input ''cursorKey'') ''cursorKey'') (\<lambda>cursorKey.
     check (work_safeTimestamp (jget input ''generation'') ''generation'') (\<lambda>generation.
     catching
       (andThen (query (\<lambda>s. row_at fn_cursor_key cursorKey (sync_generation_fences s))) (\<lambda>row.
          if (case row of None \<Rightarrow> True
              | Some r \<Rightarrow> fn_generation r \<noteq> generation \<or> fn_work_key r \<noteq> workKey)
          then throw (permanentError ''Sync work generation was superseded by a newer job''
                 ''SYNC_WORK_SUPERSEDED'' (JObj [(''generation'', jint generation)]))
          else ret True))
       (\<lambda>cause. if has_code cause [''SYNC_WORK_SUPERSEDED''] then throw cause
          else throw (work_d1Error ''Failed to validate sync work generation''
                        ''D1_SYNC_WORK_FENCE_READ_FAILED'' cause)))))"

subsection \<open>Phases and units\<close>

definition phase_key :: "phase_row \<Rightarrow> string \<times> string" where
  "phase_key r = (ph_work_key r, ph_phase r)"

definition unit_key :: "unit_row \<Rightarrow> string \<times> string \<times> string" where
  "unit_key r = (un_work_key r, un_phase r, un_key r)"

definition freezePhase :: "phase_row \<Rightarrow> jserror + phase_progress" where
  "freezePhase r =
     bind_res (work_parseJsonObject (ph_state r) ''state_json'') (\<lambda>state.
     bind_res (work_safeTimestamp (jint (ph_expected r)) ''expected_items'') (\<lambda>expected.
     bind_res (work_safeTimestamp (jint (ph_processed r)) ''processed_items'') (\<lambda>processed.
     bind_res (work_safeTimestamp (jint (ph_pages r)) ''pages_processed'') (\<lambda>pages.
     bind_res (work_safeTimestamp (jint (ph_chunks r)) ''chunks_processed'') (\<lambda>chunks.
     bind_res (work_safeTimestamp (jint (ph_created_at r)) ''created_at'') (\<lambda>created.
     bind_res (work_safeTimestamp (jint (ph_updated_at r)) ''updated_at'') (\<lambda>updated.
     Inr \<lparr>pp_state = state, pp_expectedItems = expected, pp_processedItems = processed,
          pp_pagesProcessed = pages, pp_chunksProcessed = chunks, pp_complete = ph_complete r,
          pp_createdAt = Some created, pp_updatedAt = Some updated\<rparr>)))))))"

definition work_loadPhase :: "jsval \<Rightarrow> (d1, phase_progress option) eff" where
  "work_loadPhase input =
     check (work_requireText (jget input ''workKey'') ''workKey'') (\<lambda>workKey.
     check (work_requireText (jget input ''phase'') ''phase'') (\<lambda>phase.
     catching
       (andThen (query (\<lambda>s. row_at phase_key (workKey, phase) (sync_work_phases s))) (\<lambda>row.
          case row of None \<Rightarrow> ret None
          | Some r \<Rightarrow> check (freezePhase r) (\<lambda>p. ret (Some p))))
       (\<lambda>cause. throw (work_d1Error ''Failed to load resumable sync phase''
                        ''D1_SYNC_WORK_READ_FAILED'' cause))))"

text \<open>The unit upsert is bound by \<open>UNIQUE(work_key, phase, sequence)\<close> too.\<close>

definition sql_put_unit :: "string \<Rightarrow> string \<Rightarrow> work_unit \<Rightarrow> int \<Rightarrow> d1 \<Rightarrow> string + d1" where
  "sql_put_unit workKey phase u now s =
     (if list_ex (\<lambda>r. un_work_key r = workKey \<and> un_phase r = phase
           \<and> un_sequence r = wu_sequence u \<and> un_key r \<noteq> wu_unitKey u) (sync_work_units s)
      then Inl ''UNIQUE constraint failed: sync_work_units.work_key, sync_work_units.phase, sync_work_units.sequence''
      else Inr (snd (on_table sync_work_units sync_work_units_update
        (sql_upsert (\<lambda>r. unit_key r = (workKey, phase, wu_unitKey u)) (\<lambda>r. True)
           (\<lambda>r. r\<lparr>un_sequence := wu_sequence u, un_payload := json_stringify (wu_payload u),
                 un_updated_at := now\<rparr>)
           \<lparr>un_work_key = workKey, un_phase = phase, un_key = wu_unitKey u,
            un_sequence = wu_sequence u, un_payload = json_stringify (wu_payload u),
            un_created_at = now, un_updated_at = now\<rparr>) s)))"

definition sql_put_phase :: "phase_write \<Rightarrow> int \<Rightarrow> d1 \<Rightarrow> nat \<times> d1" where
  "sql_put_phase p now =
     on_table sync_work_phases sync_work_phases_update
       (sql_upsert (\<lambda>r. phase_key r = (pw_workKey p, pw_phase p)) (\<lambda>r. True)
          (\<lambda>r. r\<lparr>ph_state := json_stringify (pw_state p), ph_expected := pw_expectedItems p,
                ph_processed := pw_processedItems p, ph_pages := pw_pagesProcessed p,
                ph_chunks := pw_chunksProcessed p, ph_complete := pw_complete p,
                ph_updated_at := now\<rparr>)
          \<lparr>ph_work_key = pw_workKey p, ph_phase = pw_phase p, ph_state = json_stringify (pw_state p),
           ph_expected = pw_expectedItems p, ph_processed = pw_processedItems p,
           ph_pages = pw_pagesProcessed p, ph_chunks = pw_chunksProcessed p,
           ph_complete = pw_complete p, ph_created_at = now, ph_updated_at = now\<rparr>)"

definition sql_touch_work :: "string \<Rightarrow> int \<Rightarrow> d1 \<Rightarrow> nat \<times> d1" where
  "sql_touch_work workKey now =
     on_table sync_work_runs sync_work_runs_update
       (sql_update (\<lambda>r. wk_key r = workKey \<and> wk_lifecycle r = Active)
          (\<lambda>r. r\<lparr>wk_updated_at := now\<rparr>))"

definition work_savePhase :: "jsval \<Rightarrow> int \<Rightarrow> (d1, phase_progress) eff" where
  "work_savePhase input clock =
     check (work_requirePhaseWrite input) (\<lambda>p.
     check (work_safeTimestamp (jint clock) ''now'') (\<lambda>now.
     catching
       (andThen
          (batch (\<lambda>s. case (case pw_unit p of None \<Rightarrow> Inr s
                            | Some u \<Rightarrow> sql_put_unit (pw_workKey p) (pw_phase p) u now s) of
               Inl m \<Rightarrow> Inl m
             | Inr t \<Rightarrow> Inr (snd (sql_touch_work (pw_workKey p) now (snd (sql_put_phase p now t))))))
          (\<lambda>_. ret \<lparr>pp_state = pw_state p, pp_expectedItems = pw_expectedItems p,
                    pp_processedItems = pw_processedItems p, pp_pagesProcessed = pw_pagesProcessed p,
                    pp_chunksProcessed = pw_chunksProcessed p, pp_complete = pw_complete p,
                    pp_createdAt = Some now, pp_updatedAt = Some now\<rparr>))
       (\<lambda>cause. throw (work_d1Error ''Failed to save resumable sync phase''
                        ''D1_SYNC_WORK_WRITE_FAILED'' cause))))"

definition freezeUnit :: "unit_row \<Rightarrow> jserror + work_unit" where
  "freezeUnit r =
     bind_res (work_requireText (JStr (un_key r)) ''unit_key'') (\<lambda>key.
     bind_res (work_safeTimestamp (jint (un_sequence r)) ''sequence'') (\<lambda>seq.
     bind_res (work_parseJsonObject (un_payload r) ''payload_json'') (\<lambda>payload.
     Inr \<lparr>wu_unitKey = key, wu_sequence = seq, wu_payload = payload\<rparr>)))"

definition work_listPhaseUnits :: "work_config \<Rightarrow> jsval \<Rightarrow> (d1, unit_page) eff" where
  "work_listPhaseUnits cfg input =
     check (work_requireText (jget input ''workKey'') ''workKey'') (\<lambda>workKey.
     check (work_requireText (jget input ''phase'') ''phase'') (\<lambda>phase.
     check (work_safeTimestamp (nullish (jget input ''afterSequence'') (jint 0)) ''afterSequence'')
       (\<lambda>afterSequence.
     check (work_boundedPositiveInteger (nullish (jget input ''limit'') (jint (wc_unitPageSize cfg)))
       ''limit'' 500) (\<lambda>limit.
     catching
       (andThen (query (\<lambda>s. sql_select (\<lambda>r. un_work_key r = workKey \<and> un_phase r = phase
            \<and> afterSequence \<le> un_sequence r) un_sequence (nat limit) (sync_work_units s))) (\<lambda>rows.
        check (map_res freezeUnit rows) (\<lambda>units.
        ret \<lparr>up_units = units, up_nextSequence =
          (if int (length units) = limit then Some (wu_sequence (last units) + 1) else None)\<rparr>)))
       (\<lambda>cause. if code_starts cause ''D1_SYNC_WORK_'' then throw cause
          else throw (work_d1Error ''Failed to list resumable sync units''
                        ''D1_SYNC_WORK_READ_FAILED'' cause))))))"

definition work_resetPhase :: "jsval \<Rightarrow> (d1, bool) eff" where
  "work_resetPhase input =
     check (work_requireText (jget input ''workKey'') ''workKey'') (\<lambda>workKey.
     check (work_requireText (jget input ''phase'') ''phase'') (\<lambda>phase.
     catching
       (andThen (batch (\<lambda>s. Inr (s
            \<lparr>sync_work_units := snd (sql_delete (\<lambda>r. un_work_key r = workKey \<and> un_phase r = phase)
               (sync_work_units s)),
             sync_work_phases := snd (sql_delete (\<lambda>r. phase_key r = (workKey, phase))
               (sync_work_phases s))\<rparr>))) (\<lambda>_. ret True))
       (\<lambda>cause. throw (work_d1Error ''Failed to reset resumable sync phase''
                        ''D1_SYNC_WORK_RESET_FAILED'' cause))))"

end
