(* ===== verification/D1_Work_Lifecycle.thy ===== *)
theory D1_Work_Lifecycle
  imports D1_Work_Store
begin

text \<open>
  The warning outbox and the lifecycle of the durable work store
  (\<open>d1-resumable-work-store.js\<close>: \<open>saveWarningOutbox\<close> to \<open>cleanupSupersededWorkUnits\<close>).
\<close>

subsection \<open>Warning outbox\<close>

definition fence_holds :: "generation_guard \<Rightarrow> d1 \<Rightarrow> bool" where
  "fence_holds g s \<longleftrightarrow> list_ex (\<lambda>r. fn_cursor_key r = gg_cursorKey g
     \<and> fn_generation r = gg_generation g \<and> fn_work_key r = gg_workKey g) (sync_generation_fences s)"

definition sql_put_warning :: "warning_event \<Rightarrow> jsval \<Rightarrow> int \<Rightarrow> d1 \<Rightarrow> nat \<times> d1" where
  "sql_put_warning event payload now =
     on_table sync_warning_outbox sync_warning_outbox_update
       (sql_upsert (\<lambda>r. wn_outbox_id r = we_outboxId event) (\<lambda>r. True)
          (\<lambda>r. r\<lparr>wn_payload := (if wn_status r = Pending then json_stringify payload
                               else wn_payload r),
                wn_updated_at := now\<rparr>)
          \<lparr>wn_outbox_id = we_outboxId event, wn_work_key = we_workKey event,
           wn_sync_run_id = we_syncRunId event, wn_type = we_warningType event,
           wn_source_key = we_sourceKey event, wn_payload = json_stringify payload,
           wn_status = Pending, wn_attempts = 0, wn_last_error = None, wn_created_at = now,
           wn_updated_at = now, wn_delivered_at = None\<rparr>)"

definition sql_put_guarded_warning ::
    "generation_guard \<Rightarrow> warning_event \<Rightarrow> jsval \<Rightarrow> int \<Rightarrow> d1 \<Rightarrow> nat \<times> d1" where
  "sql_put_guarded_warning g event payload now s =
     (if fence_holds g s then sql_put_warning event payload now s else (0, s))"

definition work_saveWarningOutbox :: "jsval \<Rightarrow> int \<Rightarrow> (d1, warning_reply) eff" where
  "work_saveWarningOutbox input clock =
     check (work_requireWarning input) (\<lambda>event.
     check (work_safeTimestamp (jint clock) ''now'') (\<lambda>now.
     let payload = sanitizeOperationalValue (we_payload event);
         reply = \<lparr>wr_outboxId = we_outboxId event, wr_status = Pending\<rparr>
     in catching
       (case we_guard event of
          None \<Rightarrow> andThen (run_sql (sql_put_warning event payload now)) (\<lambda>_. ret reply)
        | Some g \<Rightarrow> andThen (run_sql (sql_put_guarded_warning g event payload now)) (\<lambda>changes.
            if changes = 0
            then throw (permanentError ''Sync warning generation was superseded''
                   ''SYNC_WORK_SUPERSEDED'' (JObj [(''generation'', jint (gg_generation g))]))
            else ret reply))
       (\<lambda>cause. if has_code cause [''SYNC_WORK_SUPERSEDED''] then throw cause
          else throw (work_d1Error ''Failed to persist sync warning outbox''
                        ''D1_SYNC_WARNING_OUTBOX_WRITE_FAILED'' cause))))"

record pending_warning =
  pe_outboxId :: string
  pe_workKey :: string
  pe_syncRunId :: string
  pe_warningType :: string
  pe_sourceKey :: string
  pe_payload :: jsval
  pe_status :: outbox_status
  pe_deliveryAttempts :: int
  pe_deliveredAt :: "int option"

definition freezeWarning :: "warning_row \<Rightarrow> jserror + pending_warning" where
  "freezeWarning r =
     bind_res (work_requireText (JStr (wn_outbox_id r)) ''outbox_id'') (\<lambda>outboxId.
     bind_res (work_requireText (JStr (wn_work_key r)) ''work_key'') (\<lambda>workKey.
     bind_res (work_requireText (JStr (wn_sync_run_id r)) ''sync_run_id'') (\<lambda>runId.
     bind_res (work_requireText (JStr (wn_type r)) ''warning_type'') (\<lambda>ty.
     bind_res (work_requireText (JStr (wn_source_key r)) ''source_key'') (\<lambda>src.
     bind_res (work_parseJsonObject (wn_payload r) ''payload_json'') (\<lambda>payload.
     bind_res (work_safeTimestamp (jint (wn_attempts r)) ''delivery_attempts'') (\<lambda>attempts.
     bind_res (case wn_delivered_at r of None \<Rightarrow> Inr None
               | Some t \<Rightarrow> bind_res (work_safeTimestamp (jint t) ''delivered_at'') (\<lambda>t. Inr (Some t)))
       (\<lambda>delivered.
     Inr \<lparr>pe_outboxId = outboxId, pe_workKey = workKey, pe_syncRunId = runId,
          pe_warningType = ty, pe_sourceKey = src, pe_payload = payload,
          pe_status = wn_status r, pe_deliveryAttempts = attempts,
          pe_deliveredAt = delivered\<rparr>))))))))"

definition work_listPendingWarnings :: "jsval \<Rightarrow> (d1, pending_warning list) eff" where
  "work_listPendingWarnings input =
     (let workKey = optionalText (jget input ''workKey'') in
     check (work_boundedPositiveInteger (nullish (jget input ''limit'') (jint 100)) ''limit'' 500)
       (\<lambda>limit.
     catching
       (andThen (query (\<lambda>s. sql_select
            (\<lambda>r. (case workKey of None \<Rightarrow> True | Some w \<Rightarrow> wn_work_key r = w) \<and> wn_status r = Pending)
            (\<lambda>r. (wn_created_at r, wn_outbox_id r)) (nat limit) (sync_warning_outbox s)))
          (\<lambda>rows. check (map_res freezeWarning rows) ret))
       (\<lambda>cause. if code_starts cause ''D1_SYNC_WORK_'' then throw cause
          else throw (work_d1Error ''Failed to read sync warning outbox''
                        ''D1_SYNC_WARNING_OUTBOX_READ_FAILED'' cause))))"

definition sql_warning_failed :: "string \<Rightarrow> string \<Rightarrow> int \<Rightarrow> d1 \<Rightarrow> nat \<times> d1" where
  "sql_warning_failed outboxId code t =
     on_table sync_warning_outbox sync_warning_outbox_update
       (sql_update (\<lambda>r. wn_outbox_id r = outboxId \<and> wn_status r = Pending)
          (\<lambda>r. r\<lparr>wn_attempts := wn_attempts r + 1, wn_last_error := Some code,
                wn_updated_at := t\<rparr>))"

definition work_markWarningDeliveryFailed :: "jsval \<Rightarrow> int \<Rightarrow> (d1, bool) eff" where
  "work_markWarningDeliveryFailed input clock =
     check (work_requireText (jget input ''outboxId'') ''outboxId'') (\<lambda>outboxId.
     let code = (case optionalText (jget input ''errorCode'') of Some c \<Rightarrow> c
                 | None \<Rightarrow> ''SYNC_WARNING_ALERT_WRITE_FAILED'')
     in check (work_safeTimestamp (nullish (jget input ''updatedAt'') (jint clock)) ''updatedAt'')
       (\<lambda>t. catching
         (andThen (run_sql (sql_warning_failed outboxId code t)) (\<lambda>_. ret True))
         (\<lambda>cause. throw (work_d1Error ''Failed to record sync warning delivery failure''
                          ''D1_SYNC_WARNING_OUTBOX_DELIVERY_FAILED'' cause))))"

definition sql_warning_delivered :: "string \<Rightarrow> int \<Rightarrow> d1 \<Rightarrow> nat \<times> d1" where
  "sql_warning_delivered outboxId t =
     on_table sync_warning_outbox sync_warning_outbox_update
       (sql_update (\<lambda>r. wn_outbox_id r = outboxId \<and> wn_status r = Pending)
          (\<lambda>r. r\<lparr>wn_status := Delivered, wn_attempts := wn_attempts r + 1, wn_last_error := None,
                wn_delivered_at := coalesce (wn_delivered_at r) (Some t), wn_updated_at := t\<rparr>))"

definition work_markWarningDelivered :: "jsval \<Rightarrow> int \<Rightarrow> (d1, bool) eff" where
  "work_markWarningDelivered input clock =
     check (work_requireText (jget input ''outboxId'') ''outboxId'') (\<lambda>outboxId.
     check (work_safeTimestamp (nullish (jget input ''deliveredAt'') (jint clock)) ''deliveredAt'')
       (\<lambda>t. catching
         (andThen (run_sql (sql_warning_delivered outboxId t)) (\<lambda>_. ret True))
         (\<lambda>cause. throw (work_d1Error ''Failed to complete sync warning delivery''
                          ''D1_SYNC_WARNING_OUTBOX_DELIVERY_FAILED'' cause))))"

subsection \<open>Completion and abandonment\<close>

definition sql_complete :: "work_config \<Rightarrow> string \<Rightarrow> json_text option \<Rightarrow> int \<Rightarrow> d1 \<Rightarrow> d1" where
  "sql_complete cfg key completion now s = s
     \<lparr>sync_work_units := snd (sql_delete (\<lambda>r. un_work_key r = key) (sync_work_units s)),
      sync_work_phases := snd (sql_delete (\<lambda>r. ph_work_key r = key) (sync_work_phases s)),
      sync_work_runs := snd (sql_update (\<lambda>r. wk_key r = key \<and> wk_lifecycle r = Active)
        (\<lambda>r. r\<lparr>wk_lifecycle := Completed, wk_completed_at := Some now,
              wk_expires_at := Some (now + wc_retentionMs cfg), wk_completion := completion,
              wk_updated_at := now\<rparr>) (sync_work_runs s))\<rparr>"

definition work_completeWork :: "work_config \<Rightarrow> jsval \<Rightarrow> int \<Rightarrow> (d1, bool) eff" where
  "work_completeWork cfg input clock =
     (let value = (case input of JStr k \<Rightarrow> JObj [(''workKey'', JStr k), (''completion'', JNull)]
                   | _ \<Rightarrow> input);
          completion = (if truthy (jget value ''completion'')
             then Some (json_stringify (sanitizeOperationalValue (jget value ''completion'')))
             else None)
      in check (work_requireText (jget value ''workKey'') ''workKey'') (\<lambda>key.
         check (work_safeTimestamp (jint clock) ''now'') (\<lambda>now.
         catching
           (andThen (batch (\<lambda>s. Inr (sql_complete cfg key completion now s))) (\<lambda>_. ret True))
           (\<lambda>cause. throw (work_d1Error ''Failed to complete resumable sync work''
                            ''D1_SYNC_WORK_COMPLETE_FAILED'' cause)))))"

text \<open>The correlated subqueries on locks and pending warnings.\<close>

definition cursor_locked :: "string \<Rightarrow> int \<Rightarrow> d1 \<Rightarrow> bool" where
  "cursor_locked c now s \<longleftrightarrow> list_ex (\<lambda>l. lk_key l = c \<and> now < lk_expires_at l) (sync_locks s)"

definition warning_pending :: "string \<Rightarrow> d1 \<Rightarrow> bool" where
  "warning_pending w s \<longleftrightarrow>
     list_ex (\<lambda>r. wn_work_key r = w \<and> wn_status r = Pending) (sync_warning_outbox s)"

definition sql_abandon ::
    "work_config \<Rightarrow> string \<Rightarrow> string \<Rightarrow> lifecycle \<Rightarrow> string option \<Rightarrow> int \<Rightarrow> d1 \<Rightarrow> nat \<times> d1" where
  "sql_abandon cfg workKey reason status audit now s =
     on_table sync_work_runs sync_work_runs_update
       (sql_update (\<lambda>r. wk_key r = workKey \<and>
            (wk_lifecycle r \<in> {Active, Terminal, Superseded}
             \<or> wk_lifecycle r = Completed \<and> \<not> warning_pending (wk_key r) s))
          (\<lambda>r. r\<lparr>wk_lifecycle := status,
                wk_terminal_reason := coalesce (wk_terminal_reason r) (Some reason),
                wk_abandoned_at := coalesce (wk_abandoned_at r) (Some now),
                wk_expires_at := coalesce (wk_expires_at r) (Some (now + wc_retentionMs cfg)),
                wk_audit := coalesce (wk_audit r) audit, wk_updated_at := now\<rparr>)) s"

definition work_abandonWork :: "work_config \<Rightarrow> jsval \<Rightarrow> int \<Rightarrow> (d1, abandon_reply) eff" where
  "work_abandonWork cfg input clock =
     check (work_requireText (jget input ''workKey'') ''workKey'') (\<lambda>workKey.
     check (work_requireText (jget input ''reason'') ''reason'') (\<lambda>reason.
     let status = (if jget input ''lifecycleStatus'' = JStr ''superseded'' then Superseded else Terminal);
         audit = optionalText (jget input ''auditReference'')
     in check (work_safeTimestamp (jint clock) ''now'') (\<lambda>now.
        catching
          (andThen (run_sql (sql_abandon cfg workKey reason status audit now)) (\<lambda>changes.
             ret \<lparr>ab_terminal = 0 < changes, ab_found = 0 < changes, ab_status = Some status,
                  ab_protected = False\<rparr>))
          (\<lambda>cause. throw (work_d1Error ''Failed to mark resumable sync work terminal''
                           ''D1_SYNC_WORK_TERMINAL_FAILED'' cause)))))"

subsection \<open>Cleanup\<close>

definition expired_work :: "int \<Rightarrow> d1 \<Rightarrow> work_row \<Rightarrow> bool" where
  "expired_work now s r \<longleftrightarrow> wk_lifecycle r \<in> {Completed, Terminal, Superseded}
     \<and> (case wk_expires_at r of Some e \<Rightarrow> e \<le> now | None \<Rightarrow> False)
     \<and> \<not> cursor_locked (wk_cursor_key r) now s \<and> \<not> warning_pending (wk_key r) s"

definition sql_purge_work :: "string \<Rightarrow> int \<Rightarrow> d1 \<Rightarrow> d1" where
  "sql_purge_work workKey now s =
     (let due = list_ex (\<lambda>r. wk_key r = workKey \<and> expired_work now s r) (sync_work_runs s);
          s1 = (if due then s
             \<lparr>sync_work_units := snd (sql_delete (\<lambda>r. un_work_key r = workKey) (sync_work_units s)),
              sync_work_phases := snd (sql_delete (\<lambda>r. ph_work_key r = workKey) (sync_work_phases s))\<rparr>
            else s);
          s2 = s1\<lparr>sync_warning_outbox := snd (sql_delete
                 (\<lambda>r. wn_work_key r = workKey \<and> wn_status r = Delivered) (sync_warning_outbox s1))\<rparr>
      in s2\<lparr>sync_work_runs := snd (sql_delete
              (\<lambda>r. wk_key r = workKey \<and> expired_work now s2 r) (sync_work_runs s2))\<rparr>)"

definition work_cleanupExpiredWork :: "jsval \<Rightarrow> int \<Rightarrow> (d1, int) eff" where
  "work_cleanupExpiredWork input clock =
     check (work_safeTimestamp (nullish (jget input ''now'') (jint clock)) ''now'') (\<lambda>now.
     check (work_boundedPositiveInteger (nullish (jget input ''limit'') (jint 100)) ''limit'' 500)
       (\<lambda>limit.
     catching
       (andThen (query (\<lambda>s. map wk_key (sql_select (expired_work now s)
            (\<lambda>r. case wk_expires_at r of Some e \<Rightarrow> e | None \<Rightarrow> 0) (nat limit) (sync_work_runs s))))
          (\<lambda>keys. check (map_res (\<lambda>k. work_requireText (JStr k) ''work_key'') keys) (\<lambda>candidates.
           andThen (for_each (\<lambda>k. batch (\<lambda>s. Inr (sql_purge_work k now s))) candidates)
             (\<lambda>_. ret (int (length candidates))))))
       (\<lambda>cause. throw (work_d1Error ''Failed to clean expired resumable sync work''
                        ''D1_SYNC_WORK_CLEANUP_FAILED'' cause))))"

definition stale_work :: "string list \<Rightarrow> int \<Rightarrow> d1 \<Rightarrow> work_row \<Rightarrow> bool" where
  "stale_work keep now s r \<longleftrightarrow>
     list_ex (\<lambda>f. fn_cursor_key f = wk_cursor_key r \<and> wk_generation r < fn_generation f)
       (sync_generation_fences s)
     \<and> wk_lifecycle r \<in> {Terminal, Superseded} \<and> wk_key r \<notin> set keep
     \<and> \<not> cursor_locked (wk_cursor_key r) now s \<and> \<not> warning_pending (wk_key r) s"

definition sql_drop_stale_units :: "string list \<Rightarrow> int \<Rightarrow> string \<Rightarrow> d1 \<Rightarrow> nat \<times> d1" where
  "sql_drop_stale_units keep now workKey s =
     on_table sync_work_units sync_work_units_update
       (sql_delete (\<lambda>u. un_work_key u = workKey \<and>
          list_ex (\<lambda>r. wk_key r = un_work_key u \<and> stale_work keep now s r) (sync_work_runs s))) s"

fun sum_deleted :: "string list \<Rightarrow> int \<Rightarrow> string list \<Rightarrow> int \<Rightarrow> (d1, int) eff" where
  "sum_deleted keep now [] n = ret n"
| "sum_deleted keep now (k # ks) n =
     andThen (run_sql (sql_drop_stale_units keep now k)) (\<lambda>d. sum_deleted keep now ks (n + int d))"

definition work_cleanupSupersededWorkUnits :: "jsval \<Rightarrow> int \<Rightarrow> (d1, int \<times> int) eff" where
  "work_cleanupSupersededWorkUnits input clock =
     check (work_safeTimestamp (nullish (jget input ''now'') (jint clock)) ''now'') (\<lambda>now.
     check (work_boundedPositiveInteger (nullish (jget input ''limit'') (jint 25)) ''limit'' 100)
       (\<lambda>limit.
     check (work_uniqueTextList (nullish (jget input ''protectedWorkKeys'') (JArr []))
       ''protectedWorkKeys'' 25) (\<lambda>keep.
     catching
       (andThen (query (\<lambda>s. map wk_key (sql_select (stale_work keep now s) wk_updated_at
            (nat limit) (sync_work_runs s)))) (\<lambda>keys.
        check (map_res (\<lambda>k. work_requireText (JStr k) ''work_key'') keys) (\<lambda>candidates.
        andThen (sum_deleted keep now candidates 0) (\<lambda>n. ret (int (length candidates), n)))))
       (\<lambda>cause. throw (work_d1Error ''Failed to clean superseded resumable sync work units''
                        ''D1_SYNC_WORK_SUPERSEDED_UNIT_CLEANUP_FAILED'' cause)))))"

end
