(* ===== verification/Queue_Terminal_Safe.thy ===== *)
theory Queue_Terminal_Safe
  imports D1_Work_Lifecycle
begin

text \<open>
  The queue-terminal-safe work store (\<open>queue-terminal-safe-d1-resumable-work-store.js\<close>): a
  completed work is never abandoned, and one terminal work of the same generation may be revived
  when its source phase is durably complete and its cursor is not locked.
\<close>

definition safe_requireText :: "jsval \<Rightarrow> string \<Rightarrow> jserror + string" where
  "safe_requireText v f = requireText (''Queue-terminal-safe Work store requires '' @ f) v"

definition safe_requireTimestamp :: "jsval \<Rightarrow> string \<Rightarrow> jserror + int" where
  "safe_requireTimestamp v f = safe_number (\<lambda>n. 946684800000 \<le> n)
     (''Queue-terminal-safe Work store requires valid '' @ f) v"

definition safe_abandonWork :: "work_config \<Rightarrow> jsval \<Rightarrow> int \<Rightarrow> (d1, abandon_reply) eff" where
  "safe_abandonWork cfg input clock =
     check (safe_requireText (jget input ''workKey'') ''workKey'') (\<lambda>workKey.
     andThen (query (\<lambda>s. row_at wk_key workKey (sync_work_runs s))) (\<lambda>current.
     if (case current of Some r \<Rightarrow> wk_lifecycle r = Completed | None \<Rightarrow> False)
     then ret \<lparr>ab_terminal = False, ab_found = True, ab_status = Some Completed,
               ab_protected = True\<rparr>
     else work_abandonWork cfg input clock))"

subsection \<open>Reviving a terminal work\<close>

datatype disposition = AlreadyCompleted | AlreadyProcessing | AlreadyActive | Revived

record recovery_state =
  rv_workKey :: string
  rv_generation :: int
  rv_lifecycle :: lifecycle
  rv_completedAt :: "int option"
  rv_sourceComplete :: int
  rv_sourceStage :: jsval
  rv_activeLockCount :: int

record recovery_reply =
  rr_disposition :: disposition
  rr_workKey :: string
  rr_generation :: int
  rr_lifecycle :: lifecycle
  rr_sourceComplete :: bool
  rr_sourceStage :: jsval

fun lifecycle_text :: "lifecycle \<Rightarrow> string" where
  "lifecycle_text Active = ''active''"
| "lifecycle_text Completed = ''completed''"
| "lifecycle_text Terminal = ''terminal''"
| "lifecycle_text Superseded = ''superseded''"

text \<open>\<open>json_extract(text, '$.key')\<close>: \<open>None\<close> when SQLite rejects the text as malformed.\<close>

fun sql_value :: "jsval \<Rightarrow> jsval" where
  "sql_value JUndef = JNull"
| "sql_value (JBool b) = jint (if b then 1 else 0)"
| "sql_value (JArr xs) = JStr (json_print (JArr xs))"
| "sql_value (JObj kvs) = JStr (json_print (JObj kvs))"
| "sql_value v = v"

definition json_extract :: "json_text \<Rightarrow> string \<Rightarrow> jsval option" where
  "json_extract t k = map_option (\<lambda>v. sql_value (jget v k)) (json_parse t)"

definition read_recovery :: "string \<Rightarrow> string \<Rightarrow> int \<Rightarrow> d1 \<Rightarrow> string + recovery_state option" where
  "read_recovery workKey sourcePhase now s =
     (case row_at wk_key workKey (sync_work_runs s) of
        None \<Rightarrow> Inr None
      | Some w \<Rightarrow>
          let phase = row_at phase_key (workKey, sourcePhase) (sync_work_phases s);
              locks = length (filter (\<lambda>l. lk_key l = wk_cursor_key w \<and> now < lk_expires_at l)
                        (sync_locks s));
              state = (\<lambda>complete stage. Inr (Some \<lparr>rv_workKey = wk_key w,
                 rv_generation = wk_generation w, rv_lifecycle = wk_lifecycle w,
                 rv_completedAt = wk_completed_at w, rv_sourceComplete = complete,
                 rv_sourceStage = stage, rv_activeLockCount = int locks\<rparr>))
          in case phase of
               None \<Rightarrow> state 0 JNull
             | Some p \<Rightarrow> (case json_extract (ph_state p) ''stage'' of
                   None \<Rightarrow> Inl ''malformed JSON''
                 | Some stage \<Rightarrow> state (if ph_complete p then 1 else 0) stage))"

definition assertRecoveryIdentity ::
    "recovery_state option \<Rightarrow> string \<Rightarrow> int \<Rightarrow> jserror + recovery_state" where
  "assertRecoveryIdentity current workKey generation = (case current of
       None \<Rightarrow> Inl (permanentError ''Resumable Work was not found for recovery''
                 ''SYNC_WORK_RECOVERY_NOT_FOUND'' (JObj [(''workKey'', JStr workKey)]))
     | Some c \<Rightarrow>
         if rv_workKey c \<noteq> workKey \<or> rv_generation c \<noteq> generation
         then Inl (permanentError ''Resumable Work recovery identity mismatch''
                ''SYNC_WORK_RECOVERY_IDENTITY_MISMATCH''
                (JObj [(''workKey'', JStr workKey), (''generation'', jint generation)]))
         else Inr c)"

definition freezeRecovery :: "recovery_state \<Rightarrow> disposition \<Rightarrow> recovery_reply" where
  "freezeRecovery c d = \<lparr>rr_disposition = d, rr_workKey = rv_workKey c,
     rr_generation = rv_generation c, rr_lifecycle = rv_lifecycle c,
     rr_sourceComplete = (rv_sourceComplete c = 1), rr_sourceStage = rv_sourceStage c\<rparr>"

definition source_ready :: "string \<Rightarrow> string \<Rightarrow> d1 \<Rightarrow> bool" where
  "source_ready workKey phase s \<longleftrightarrow> list_ex (\<lambda>p. phase_key p = (workKey, phase) \<and> ph_complete p
     \<and> json_extract (ph_state p) ''stage'' = Some (JStr ''complete'')) (sync_work_phases s)"

definition source_malformed :: "string \<Rightarrow> string \<Rightarrow> d1 \<Rightarrow> bool" where
  "source_malformed workKey phase s \<longleftrightarrow> list_ex (\<lambda>p. phase_key p = (workKey, phase) \<and> ph_complete p
     \<and> json_extract (ph_state p) ''stage'' = None) (sync_work_phases s)"

definition sql_revive :: "string \<Rightarrow> int \<Rightarrow> string \<Rightarrow> string \<Rightarrow> int \<Rightarrow> d1 \<Rightarrow> string + (nat \<times> d1)" where
  "sql_revive workKey generation sourcePhase audit now s =
     (if source_malformed workKey sourcePhase s then Inl ''malformed JSON''
      else Inr (on_table sync_work_runs sync_work_runs_update
        (sql_update (\<lambda>r. wk_key r = workKey \<and> wk_generation r = generation
             \<and> wk_lifecycle r = Terminal \<and> wk_completed_at r = None
             \<and> source_ready (wk_key r) sourcePhase s
             \<and> \<not> cursor_locked (wk_cursor_key r) now s)
          (\<lambda>r. r\<lparr>wk_lifecycle := Active, wk_terminal_reason := None, wk_abandoned_at := None,
                wk_expires_at := None, wk_audit := Some audit, wk_updated_at := now\<rparr>)) s))"

definition revive_terminal ::
    "string \<Rightarrow> int \<Rightarrow> string \<Rightarrow> string \<Rightarrow> int \<Rightarrow> (d1, recovery_reply) eff" where
  "revive_terminal workKey generation sourcePhase audit now =
     andThen
       (catching (stmt (sql_revive workKey generation sourcePhase audit now))
         (\<lambda>cause. throw (transientError ''Failed to revive completed-source terminal Work''
            ''D1_SYNC_WORK_RECOVERY_WRITE_FAILED'' JUndef)))
       (\<lambda>changes.
         if changes \<noteq> 1
         then throw (transientError ''Completed-source Work recovery lost its guarded transition race''
                ''D1_SYNC_WORK_RECOVERY_RACE''
                (JObj [(''workKey'', JStr workKey), (''generation'', jint generation)]))
         else ret \<lparr>rr_disposition = Revived, rr_workKey = workKey, rr_generation = generation,
                   rr_lifecycle = Active, rr_sourceComplete = True,
                   rr_sourceStage = JStr ''complete''\<rparr>)"

definition recovery_decision ::
    "recovery_state \<Rightarrow> string \<Rightarrow> int \<Rightarrow> string \<Rightarrow> string \<Rightarrow> int \<Rightarrow> (d1, recovery_reply) eff" where
  "recovery_decision c workKey generation sourcePhase audit now =
     (let ident = [(''workKey'', JStr workKey), (''generation'', jint generation)] in
      if rv_lifecycle c = Completed then ret (freezeRecovery c AlreadyCompleted)
      else if rv_lifecycle c = Superseded
      then throw (permanentError ''Superseded Work cannot be revived''
             ''SYNC_WORK_RECOVERY_SUPERSEDED'' (JObj ident))
      else if rv_sourceComplete c \<noteq> 1 \<or> rv_sourceStage c \<noteq> JStr ''complete''
      then throw (permanentError ''Terminal Work source staging is not durably complete''
             ''SYNC_WORK_RECOVERY_SOURCE_INCOMPLETE''
             (JObj (ident @ [(''sourcePhase'', JStr sourcePhase),
                (''sourceComplete'', jint (rv_sourceComplete c)),
                (''sourceStage'', rv_sourceStage c)])))
      else if 0 < rv_activeLockCount c then ret (freezeRecovery c AlreadyProcessing)
      else if rv_lifecycle c = Active then ret (freezeRecovery c AlreadyActive)
      else if rv_lifecycle c \<noteq> Terminal \<or> rv_completedAt c \<noteq> None
      then throw (permanentError ''Work lifecycle is not eligible for same-generation recovery''
             ''SYNC_WORK_RECOVERY_STATE_INVALID''
             (JObj (ident @ [(''lifecycleStatus'', JStr (lifecycle_text (rv_lifecycle c))),
                (''completed'', JBool (rv_completedAt c \<noteq> None))])))
      else revive_terminal workKey generation sourcePhase audit now)"

definition prepareCompletedSourceRedrive :: "jsval \<Rightarrow> int \<Rightarrow> (d1, recovery_reply) eff" where
  "prepareCompletedSourceRedrive input clock =
     check (safe_requireText (jget input ''workKey'') ''workKey'') (\<lambda>workKey.
     check (safe_requireTimestamp (jget input ''generation'') ''generation'') (\<lambda>generation.
     check (safe_requireText (jget input ''sourcePhase'') ''sourcePhase'') (\<lambda>sourcePhase.
     check (safe_requireText (jget input ''auditReference'') ''auditReference'') (\<lambda>audit.
     check (safe_requireTimestamp (nullish (jget input ''now'') (jint clock)) ''now'') (\<lambda>now.
     andThen
       (catching
          (stmt (\<lambda>s. case read_recovery workKey sourcePhase now s of
               Inl m \<Rightarrow> Inl m | Inr c \<Rightarrow> Inr (c, s)))
          (\<lambda>cause. throw (transientError ''Failed to read completed-source Work recovery state''
             ''D1_SYNC_WORK_RECOVERY_READ_FAILED'' JUndef)))
       (\<lambda>current. check (assertRecoveryIdentity current workKey generation) (\<lambda>c.
          recovery_decision c workKey generation sourcePhase audit now)))))))"

end
