(* ===== verification/D1_Work_Fence.thy ===== *)
theory D1_Work_Fence
  imports Queue_Terminal_Safe
begin

text \<open>
  The generation fence of the durable stores. Every operation of both stores, whatever faults its
  statements meet, only moves a fence forward; both interpret the contract \<open>generation_fence\<close>.
\<close>

definition d1_fence_of :: "d1 \<Rightarrow> string \<Rightarrow> fence_claim" where
  "d1_fence_of s c =
     map_option (\<lambda>r. (fn_generation r, fn_work_key r)) (row_at fn_cursor_key c (sync_generation_fences s))"

fun work_apply :: "work_config \<Rightarrow> work_op \<Rightarrow> d1 \<Rightarrow> d1" where
  "work_apply cfg (BeginWork i t) s = snd (work_beginWork cfg i t s)"
| "work_apply cfg (SavePhase i t) s = snd (work_savePhase i t s)"
| "work_apply cfg (ResetPhase i) s = snd (work_resetPhase i s)"
| "work_apply cfg (SaveWarning i t) s = snd (work_saveWarningOutbox i t s)"
| "work_apply cfg (WarningFailed i t) s = snd (work_markWarningDeliveryFailed i t s)"
| "work_apply cfg (WarningDelivered i t) s = snd (work_markWarningDelivered i t s)"
| "work_apply cfg (CompleteWork i t) s = snd (work_completeWork cfg i t s)"
| "work_apply cfg (AbandonWork i t) s = snd (work_abandonWork cfg i t s)"
| "work_apply cfg (CleanupExpired i t) s = snd (work_cleanupExpiredWork i t s)"

fun safe_apply :: "work_config \<Rightarrow> work_op \<Rightarrow> d1 \<Rightarrow> d1" where
  "safe_apply cfg (AbandonWork i t) s = snd (safe_abandonWork cfg i t s)"
| "safe_apply cfg x s = work_apply cfg x s"

abbreviation fences_same :: "d1 \<Rightarrow> d1 \<Rightarrow> bool" where
  "fences_same \<equiv> unchanged sync_generation_fences"

lemma same_grow: "fences_same s t \<Longrightarrow> fences_grow d1_fence_of s t"
  by (simp add: unchanged_def fences_grow_def d1_fence_of_def)

lemmas sql_work_defs = sql_start_work_def sql_record_superseded_def sql_put_phase_def
  sql_touch_work_def sql_put_warning_def sql_put_guarded_warning_def sql_warning_failed_def
  sql_warning_delivered_def sql_complete_def sql_abandon_def sql_purge_work_def
  sql_drop_stale_units_def

lemma put_unit_fences [simp]:
  "sql_put_unit w p u now s = Inr t \<Longrightarrow> sync_generation_fences t = sync_generation_fences s"
  by (auto simp: sql_put_unit_def split: if_splits)

lemma sql_work_fences [simp]:
  "sync_generation_fences (snd (sql_start_work work now s)) = sync_generation_fences s"
  "sync_generation_fences (snd (sql_record_superseded cfg work now s)) = sync_generation_fences s"
  "sync_generation_fences (snd (sql_put_phase p now s)) = sync_generation_fences s"
  "sync_generation_fences (snd (sql_touch_work w now s)) = sync_generation_fences s"
  "sync_generation_fences (snd (sql_put_warning e pl now s)) = sync_generation_fences s"
  "sync_generation_fences (snd (sql_put_guarded_warning g e pl now s)) = sync_generation_fences s"
  "sync_generation_fences (snd (sql_warning_failed i code now s)) = sync_generation_fences s"
  "sync_generation_fences (snd (sql_warning_delivered i now s)) = sync_generation_fences s"
  "sync_generation_fences (sql_complete cfg w c now s) = sync_generation_fences s"
  "sync_generation_fences (snd (sql_abandon cfg w r st a now s)) = sync_generation_fences s"
  "sync_generation_fences (sql_purge_work w now s) = sync_generation_fences s"
  by (simp_all add: sql_work_defs Let_def)

lemma savePhase_same: "evolves fences_same (work_savePhase i t)"
  unfolding work_savePhase_def
  by (intro evolves_intro) (auto split: sum.splits option.splits)

lemma resetPhase_same: "evolves fences_same (work_resetPhase i)"
  unfolding work_resetPhase_def by (intro evolves_intro) auto

lemma saveWarning_same: "evolves fences_same (work_saveWarningOutbox i t)"
  unfolding work_saveWarningOutbox_def by (intro evolves_intro) auto

lemma warningFailed_same: "evolves fences_same (work_markWarningDeliveryFailed i t)"
  unfolding work_markWarningDeliveryFailed_def by (intro evolves_intro) auto

lemma warningDelivered_same: "evolves fences_same (work_markWarningDelivered i t)"
  unfolding work_markWarningDelivered_def by (intro evolves_intro) auto

lemma completeWork_same: "evolves fences_same (work_completeWork cfg i t)"
  unfolding work_completeWork_def by (intro evolves_intro) auto

lemma abandonWork_same: "evolves fences_same (work_abandonWork cfg i t)"
  unfolding work_abandonWork_def by (intro evolves_intro) auto

lemma safe_abandonWork_same: "evolves fences_same (safe_abandonWork cfg i t)"
  unfolding safe_abandonWork_def by (intro evolves_intro abandonWork_same) auto

lemma cleanup_same: "evolves fences_same (work_cleanupExpiredWork i t)"
  unfolding work_cleanupExpiredWork_def by (intro evolves_intro) auto

lemma claim_fence_of:
  "d1_fence_of (snd (sql_claim_fence work now s)) x =
    (if x = wi_cursorKey work \<and> \<not> beaten (wi_generation work) (wi_workKey work) (d1_fence_of s x)
     then Some (wi_generation work, wi_workKey work) else d1_fence_of s x)"
  using row_at_upsert [of fn_cursor_key "\<lparr>fn_cursor_key = wi_cursorKey work,
      fn_generation = wi_generation work, fn_requested_at = wi_requestedAt work,
      fn_work_key = wi_workKey work, fn_updated_at = now\<rparr>"
      "\<lambda>r. r\<lparr>fn_generation := wi_generation work, fn_requested_at := wi_requestedAt work,
           fn_work_key := wi_workKey work, fn_updated_at := now\<rparr>" x
      "\<lambda>r. fn_generation r < wi_generation work
         \<or> wi_generation work = fn_generation r \<and> wi_workKey work = fn_work_key r"
      "sync_generation_fences s"]
  by (auto simp: sql_claim_fence_def d1_fence_of_def beaten_def split: option.split)

lemma claim_grows: "fences_grow d1_fence_of s (snd (sql_claim_fence work now s))"
  by (simp add: fences_grow_def claim_fence_of unbeaten_le)

lemma fault_blind_grow [simp]: "fault_blind (fences_grow d1_fence_of)"
  by (simp add: fault_blind_def fences_grow_def d1_fence_of_def)

lemma work_claim_grows: "evolves (fences_grow d1_fence_of) (work_claim cfg work now ex)"
  unfolding work_claim_def
  by (intro evolves_intro claim_grows) (auto intro: same_grow simp: unchanged_def)

lemma begin_grows: "evolves (fences_grow d1_fence_of) (work_beginWork cfg i t)"
  unfolding work_beginWork_def begin_with_def
  by (intro evolves_intro work_claim_grows) auto

definition fences_keyed :: "d1 \<Rightarrow> bool" where
  "fences_keyed s \<longleftrightarrow> keyed fn_cursor_key (sync_generation_fences s)"

lemma fences_keyed_empty [simp]: "fences_keyed empty_d1"
  by (simp add: fences_keyed_def empty_d1_def keyed_def)

lemma same_keyed: "fences_same s t \<Longrightarrow> keeping fences_keyed s t"
  by (simp add: unchanged_def keeping_def fences_keyed_def)

lemma fault_blind_keyed [simp]: "fault_blind (keeping fences_keyed)"
  by (simp add: fault_blind_def keeping_def fences_keyed_def)

lemma fences_keyed_spend [simp]: "fences_keyed (spend_fault s) = fences_keyed s"
  by (simp add: fences_keyed_def)

lemma claim_keyed: "keeping fences_keyed s (snd (sql_claim_fence work now s))"
  using keyed_upsert [of fn_cursor_key "sync_generation_fences s" "\<lparr>fn_cursor_key = wi_cursorKey work,
      fn_generation = wi_generation work, fn_requested_at = wi_requestedAt work,
      fn_work_key = wi_workKey work, fn_updated_at = now\<rparr>"
      "\<lambda>r. r\<lparr>fn_generation := wi_generation work, fn_requested_at := wi_requestedAt work,
           fn_work_key := wi_workKey work, fn_updated_at := now\<rparr>"]
  by (simp add: keeping_def fences_keyed_def sql_claim_fence_def)

lemma claim_changes:
  assumes "fences_keyed s"
  shows "0 < fst (sql_claim_fence work now s) \<longleftrightarrow>
    \<not> beaten (wi_generation work) (wi_workKey work) (d1_fence_of s (wi_cursorKey work))"
  unfolding sql_claim_fence_def fst_on_table
    upsert_same_key_changes [OF assms [unfolded fences_keyed_def]]
  by (cases "row_at fn_cursor_key (wi_cursorKey work) (sync_generation_fences s)")
    (simp_all only: d1_fence_of_def option.map option.case not_beaten prod.sel)

lemma begin_keyed: "evolves (keeping fences_keyed) (work_beginWork cfg i t)"
  unfolding work_beginWork_def begin_with_def work_claim_def
  by (intro evolves_intro claim_keyed)
    (auto intro!: same_keyed simp: unchanged_def)

lemma work_claim_wins:
  assumes "fences_keyed s" "work_claim cfg work now ex s = (Inr r, s')" "\<not> br_superseded r"
  shows "d1_fence_of s' (wi_cursorKey work) = Some (wi_generation work, wi_workKey work)
    \<and> br_workKey r = wi_workKey work
    \<and> \<not> beaten (wi_generation work) (wi_workKey work) (d1_fence_of s (wi_cursorKey work))"
proof -
  obtain n s1 where n: "run_sql (sql_claim_fence work now) s = (Inr n, s1)"
    using assms(2) by (auto simp: work_claim_def eff_simps split: sum.splits prod.splits)
  have s1: "n = fst (sql_claim_fence work now (spend_fault s))"
      "s1 = snd (sql_claim_fence work now (spend_fault s))"
    using run_sql_InrD [OF n] by (metis fst_conv, metis snd_conv)
  have pos: "0 < n" using assms(2,3) n by (auto simp: work_claim_def eff_simps split: sum.splits prod.splits if_splits)
  have nb: "\<not> beaten (wi_generation work) (wi_workKey work) (d1_fence_of s (wi_cursorKey work))"
    using pos s1(1) claim_changes [of "spend_fault s" work now] assms(1)
    by (simp add: d1_fence_of_def)
  have "d1_fence_of s1 (wi_cursorKey work) = Some (wi_generation work, wi_workKey work)"
    using nb s1(2) by (simp add: claim_fence_of) (simp add: d1_fence_of_def)
  moreover have "sync_generation_fences s' = sync_generation_fences s1"
    using assms(2) n pos
    by (auto simp: work_claim_def eff_simps run_sql_eq split: sum.splits prod.splits fault.splits)
  moreover have "br_workKey r = wi_workKey work"
    using assms(2) n pos
    by (auto simp: work_claim_def eff_simps active_reply_def split: sum.splits prod.splits)
  ultimately show ?thesis using nb by (simp add: d1_fence_of_def)
qed

lemma begin_with_active:
  assumes "begin_with cfg work now ex s = (Inr r, s')" "\<not> br_superseded r" "\<not> br_completed r"
  shows "work_claim cfg work now ex s = (Inr r, s')"
  using assms
  by (auto simp: begin_with_def eff_simps split: option.splits sum.splits if_splits)

lemma begin_run:
  assumes "work_beginWork cfg input clock s = (Inr r, s')"
  obtains work ex where "work_requireWork input clock = Inr work"
    "ex = row_at wk_key (wi_workKey work) (sync_work_runs s)"
    "begin_with cfg work clock ex (spend_fault s) = (Inr r, s')"
proof -
  have clock: "work_safeTimestamp (jint clock) ''now'' = Inr clock"
    using assms
    by (auto simp: work_beginWork_def eff_simps work_safeTimestamp_def safe_number_def
        dest: safe_int_SomeD split: sum.splits option.splits if_splits)
  obtain work where w: "work_requireWork input clock = Inr work"
    using assms clock by (auto simp: work_beginWork_def eff_simps split: sum.splits)
  show ?thesis
    using assms clock w
    by (intro that [OF w refl])
      (auto simp: work_beginWork_def eff_simps query_eq split: sum.splits prod.splits fault.splits if_splits)
qed

lemma requireWork_fields:
  assumes "work_requireWork input clock = Inr work"
  shows "\<exists>c. jget input ''cursorKey'' = JStr c \<and> wi_cursorKey work = trim c"
    and "is_safe n \<Longrightarrow> jget input ''generation'' = jint n \<Longrightarrow> wi_generation work = n"
  using assms
  by (auto simp: work_requireWork_def bind_res_Inr_iff work_requireText_def requireText_def
      work_safeTimestamp_def nullish_def safe_number_def split: jsval.splits if_splits)

lemma d1_begin_claims:
  assumes "fences_keyed s" "work_beginWork cfg input now s = (Inr r, s')"
    and "\<not> br_superseded r" "\<not> br_completed r"
  shows "\<exists>c g. jget input ''cursorKey'' = JStr c \<and> d1_fence_of s' (trim c) = Some (g, br_workKey r) \<and>
        (\<forall>n. is_safe n \<longrightarrow> jget input ''generation'' = jint n \<longrightarrow> g = n)"
proof -
  obtain work ex where w: "work_requireWork input now = Inr work"
    and run: "begin_with cfg work now ex (spend_fault s) = (Inr r, s')"
    using begin_run [OF assms(2)] by metis
  show ?thesis
    using work_claim_wins [OF _ begin_with_active [OF run assms(3,4)] assms(3)] assms(1)
      requireWork_fields [OF w] by fastforce
qed

lemma d1_current_holds:
  assumes "work_assertCurrentGeneration input s = (Inr b, s')"
  shows "\<exists>c w g. jget input ''cursorKey'' = JStr c \<and> jget input ''workKey'' = JStr w \<and>
        js_number (jget input ''generation'') = NInt g \<and> d1_fence_of s (trim c) = Some (g, trim w)"
  using assms
  by (auto simp: work_assertCurrentGeneration_def eff_simps work_requireText_def requireText_def
      work_safeTimestamp_def safe_number_def d1_fence_of_def query_eq dest!: safe_int_SomeD
      split: sum.splits option.splits if_splits jsval.splits fault.splits)

lemmas work_ops_same = savePhase_same resetPhase_same saveWarning_same warningFailed_same
  warningDelivered_same completeWork_same abandonWork_same safe_abandonWork_same cleanup_same

lemmas work_ops_run = work_ops_same [unfolded evolves_def, rule_format]

lemma op_same:
  "\<nexists>i t. x = BeginWork i t \<Longrightarrow> fences_same s (work_apply cfg x s)"
  "\<nexists>i t. x = BeginWork i t \<Longrightarrow> fences_same s (safe_apply cfg x s)"
  by (cases x; simp add: work_ops_run)+

lemma op_kept:
  "fences_keyed s \<Longrightarrow> fences_keyed (work_apply cfg x s)"
  "fences_keyed s \<Longrightarrow> fences_keyed (safe_apply cfg x s)"
proof -
  have "keeping fences_keyed s (work_apply cfg x s) \<and> keeping fences_keyed s (safe_apply cfg x s)"
  proof (cases "\<exists>i t. x = BeginWork i t")
    case True
    then show ?thesis using begin_keyed by (auto simp: evolves_def)
  next
    case False
    then show ?thesis using same_keyed op_same by blast
  qed
  then show "fences_keyed s \<Longrightarrow> fences_keyed (work_apply cfg x s)"
    "fences_keyed s \<Longrightarrow> fences_keyed (safe_apply cfg x s)"
    by (simp_all add: keeping_def)
qed

lemma op_grow:
  "fences_grow d1_fence_of s (work_apply cfg x s)"
  "fences_grow d1_fence_of s (safe_apply cfg x s)"
proof -
  have "fences_grow d1_fence_of s (work_apply cfg x s) \<and> fences_grow d1_fence_of s (safe_apply cfg x s)"
  proof (cases "\<exists>i t. x = BeginWork i t")
    case True
    then show ?thesis using begin_grows by (auto simp: evolves_def)
  next
    case False
    then show ?thesis using same_grow op_same by blast
  qed
  then show "fences_grow d1_fence_of s (work_apply cfg x s)"
    "fences_grow d1_fence_of s (safe_apply cfg x s)" by simp_all
qed

interpretation d1_fence: generation_fence
  "work_beginWork cfg" work_assertCurrentGeneration "work_apply cfg" d1_fence_of fences_keyed
  for cfg :: work_config
proof (unfold_locales, goal_cases)
  case (1 s x)
  then show ?case by (rule op_kept)
next
  case (2 s x)
  show ?case by (rule op_grow)
next
  case (4 s input now r s')
  then show ?case by (rule d1_begin_claims)
next
  case (5 input s b s')
  then show ?case by (rule d1_current_holds)
qed simp_all

interpretation safe_fence: generation_fence
  "work_beginWork cfg" work_assertCurrentGeneration "safe_apply cfg" d1_fence_of fences_keyed
  for cfg :: work_config
proof (unfold_locales, goal_cases)
  case (1 s x)
  then show ?case by (rule op_kept)
next
  case (2 s x)
  show ?case by (rule op_grow)
next
  case (4 s input now r s')
  then show ?case by (rule d1_begin_claims)
next
  case (5 input s b s')
  then show ?case by (rule d1_current_holds)
qed simp_all

end
