(* ===== verification/Work_Phases.thy ===== *)
theory Work_Phases
  imports D1_Work_Fence
begin

text \<open>
  Phases and staged units of the durable store: one \<open>savePhase\<close> is atomic under every fault, what
  it wrote is what \<open>loadPhase\<close> returns, and following \<open>nextSequence\<close> from page to page visits
  every staged unit exactly once.
\<close>

subsection \<open>Atomic writes\<close>

definition phase_written :: "phase_write \<Rightarrow> int \<Rightarrow> d1 \<Rightarrow> bool" where
  "phase_written p now s \<longleftrightarrow> (case row_at phase_key (pw_workKey p, pw_phase p) (sync_work_phases s) of
     None \<Rightarrow> False
   | Some r \<Rightarrow> ph_state r = json_stringify (pw_state p) \<and> ph_expected r = pw_expectedItems p
       \<and> ph_processed r = pw_processedItems p \<and> ph_pages r = pw_pagesProcessed p
       \<and> ph_chunks r = pw_chunksProcessed p \<and> ph_complete r = pw_complete p
       \<and> ph_updated_at r = now)"

definition unit_written :: "string \<Rightarrow> string \<Rightarrow> work_unit \<Rightarrow> d1 \<Rightarrow> bool" where
  "unit_written w ph u s \<longleftrightarrow> (case row_at unit_key (w, ph, wu_unitKey u) (sync_work_units s) of
     None \<Rightarrow> False
   | Some r \<Rightarrow> un_sequence r = wu_sequence u \<and> un_payload r = json_stringify (wu_payload u))"

definition staging :: "d1 \<Rightarrow> unit_row list \<times> phase_row list \<times> work_row list" where
  "staging s = (sync_work_units s, sync_work_phases s, sync_work_runs s)"

lemma put_phase_written: "phase_written p now (snd (sql_put_phase p now s))"
proof -
  let ?new = "\<lparr>ph_work_key = pw_workKey p, ph_phase = pw_phase p, ph_state = json_stringify (pw_state p),
     ph_expected = pw_expectedItems p, ph_processed = pw_processedItems p,
     ph_pages = pw_pagesProcessed p, ph_chunks = pw_chunksProcessed p,
     ph_complete = pw_complete p, ph_created_at = now, ph_updated_at = now\<rparr>"
  let ?f = "\<lambda>r. r\<lparr>ph_state := json_stringify (pw_state p), ph_expected := pw_expectedItems p,
     ph_processed := pw_processedItems p, ph_pages := pw_pagesProcessed p,
     ph_chunks := pw_chunksProcessed p, ph_complete := pw_complete p, ph_updated_at := now\<rparr>"
  have "row_at phase_key (phase_key ?new) (snd (sql_upsert (\<lambda>r. phase_key r = phase_key ?new)
      (\<lambda>r. True) ?f ?new (sync_work_phases s))) =
    (case row_at phase_key (phase_key ?new) (sync_work_phases s) of
       Some r \<Rightarrow> Some (?f r) | None \<Rightarrow> Some ?new)"
    using row_at_upsert [of phase_key ?new ?f "phase_key ?new" "\<lambda>r. True" "sync_work_phases s"]
    by (simp add: phase_key_def split: option.split)
  moreover have "phase_key ?new = (pw_workKey p, pw_phase p)" by (simp add: phase_key_def)
  ultimately show ?thesis
    by (simp add: phase_written_def sql_put_phase_def split: option.split)
qed

lemma put_unit_written: "sql_put_unit w ph u now s = Inr t \<Longrightarrow> unit_written w ph u t"
proof -
  let ?new = "\<lparr>un_work_key = w, un_phase = ph, un_key = wu_unitKey u, un_sequence = wu_sequence u,
     un_payload = json_stringify (wu_payload u), un_created_at = now, un_updated_at = now\<rparr>"
  let ?f = "\<lambda>r. r\<lparr>un_sequence := wu_sequence u, un_payload := json_stringify (wu_payload u),
     un_updated_at := now\<rparr>"
  have "row_at unit_key (unit_key ?new) (snd (sql_upsert (\<lambda>r. unit_key r = unit_key ?new)
      (\<lambda>r. True) ?f ?new (sync_work_units s))) =
    (case row_at unit_key (unit_key ?new) (sync_work_units s) of
       Some r \<Rightarrow> Some (?f r) | None \<Rightarrow> Some ?new)"
    using row_at_upsert [of unit_key ?new ?f "unit_key ?new" "\<lambda>r. True" "sync_work_units s"]
    by (simp add: unit_key_def split: option.split)
  moreover have "unit_key ?new = (w, ph, wu_unitKey u)" by (simp add: unit_key_def)
  moreover assume "sql_put_unit w ph u now s = Inr t"
  ultimately show ?thesis
    by (auto simp: unit_written_def sql_put_unit_def split: option.splits if_splits)
qed

lemma units_after [simp]:
  "sync_work_units (snd (sql_touch_work w now s)) = sync_work_units s"
  "sync_work_units (snd (sql_put_phase p now s)) = sync_work_units s"
  "sync_work_phases (snd (sql_touch_work w now s)) = sync_work_phases s"
  by (simp_all add: sql_touch_work_def sql_put_phase_def)

definition save_batch :: "phase_write \<Rightarrow> int \<Rightarrow> d1 \<Rightarrow> string + d1" where
  "save_batch p now s = (case (case pw_unit p of None \<Rightarrow> Inr s
       | Some u \<Rightarrow> sql_put_unit (pw_workKey p) (pw_phase p) u now s) of
     Inl m \<Rightarrow> Inl m
   | Inr t \<Rightarrow> Inr (snd (sql_touch_work (pw_workKey p) now (snd (sql_put_phase p now t)))))"

lemma save_batch_written:
  assumes "save_batch p now s = Inr t"
  shows "phase_written p now t \<and>
    (case pw_unit p of None \<Rightarrow> True | Some u \<Rightarrow> unit_written (pw_workKey p) (pw_phase p) u t)"
proof -
  obtain t1 where t1: "(case pw_unit p of None \<Rightarrow> Inr s
       | Some u \<Rightarrow> sql_put_unit (pw_workKey p) (pw_phase p) u now s) = Inr t1"
    and t: "t = snd (sql_touch_work (pw_workKey p) now (snd (sql_put_phase p now t1)))"
    using assms by (auto simp: save_batch_def split: sum.splits)
  have "phase_written p now t"
    using put_phase_written [of p now t1] t by (simp add: phase_written_def)
  moreover have "unit_written (pw_workKey p) (pw_phase p) u t" if "pw_unit p = Some u" for u
    using t1 that put_unit_written [of "pw_workKey p" "pw_phase p" u now s t1] t
    by (simp add: unit_written_def)
  ultimately show ?thesis by (simp split: option.split)
qed

text \<open>One save, whatever the batch meets.\<close>

lemma save_cases:
  assumes "work_savePhase input clock s = (r, t)"
  obtains (rejected) e where "r = Inl e" "t = s"
    | (unwritten) e where "r = Inl e" "t = spend_fault s"
    | (written) p where "work_requirePhaseWrite input = Inr p" "save_batch p clock (spend_fault s) = Inr t"
      "\<And>x. r = Inr x \<Longrightarrow> x = \<lparr>pp_state = pw_state p, pp_expectedItems = pw_expectedItems p,
          pp_processedItems = pw_processedItems p, pp_pagesProcessed = pw_pagesProcessed p,
          pp_chunksProcessed = pw_chunksProcessed p, pp_complete = pw_complete p,
          pp_createdAt = Some clock, pp_updatedAt = Some clock\<rparr>"
proof (cases "work_requirePhaseWrite input")
  case (Inl e)
  with assms show ?thesis by (intro rejected) (auto simp: work_savePhase_def eff_simps)
next
  case (Inr p)
  show ?thesis
  proof (cases "work_safeTimestamp (jint clock) ''now''")
    case (Inl e)
    with assms Inr show ?thesis by (intro rejected) (auto simp: work_savePhase_def eff_simps)
  next
    case (Inr now)
    then have now: "now = clock"
      by (auto simp: work_safeTimestamp_def safe_number_def dest: safe_int_SomeD
          split: option.splits if_splits)
    have run: "work_savePhase input clock s = catching (andThen (batch (save_batch p clock))
       (\<lambda>_. ret \<lparr>pp_state = pw_state p, pp_expectedItems = pw_expectedItems p,
                    pp_processedItems = pw_processedItems p, pp_pagesProcessed = pw_pagesProcessed p,
                    pp_chunksProcessed = pw_chunksProcessed p, pp_complete = pw_complete p,
                    pp_createdAt = Some clock, pp_updatedAt = Some clock\<rparr>))
       (\<lambda>cause. throw (work_d1Error ''Failed to save resumable sync phase''
                        ''D1_SYNC_WORK_WRITE_FAILED'' cause)) s"
      using \<open>work_requirePhaseWrite input = Inr p\<close> Inr now
      by (simp add: work_savePhase_def save_batch_def [abs_def])
    show ?thesis
    proof (cases "save_batch p clock (spend_fault s)")
      case (Inl m)
      then have "(\<exists>e. r = Inl e) \<and> t = spend_fault s" using assms run
        by (auto simp: eff_simps batch_eq Let_def split: fault.splits)
      then obtain e where e: "r = Inl e" "t = spend_fault s" by blast
      show ?thesis by (rule unwritten [OF e])
    next
      case (Inr u)
      show ?thesis
      proof (cases "next_fault s")
        case (Refused m)
        then have "(\<exists>e. r = Inl e) \<and> t = spend_fault s" using assms run
          by (auto simp: eff_simps batch_eq Let_def)
        then obtain e where e: "r = Inl e" "t = spend_fault s" by blast
        show ?thesis by (rule unwritten [OF e])
      next
        case Fine
        then show ?thesis using assms run Inr
          by (intro written [OF \<open>work_requirePhaseWrite input = Inr p\<close>])
            (auto simp: eff_simps batch_eq Let_def)
      next
        case (LostReply m)
        then show ?thesis using assms run Inr
          by (intro written [OF \<open>work_requirePhaseWrite input = Inr p\<close>])
            (auto simp: eff_simps batch_eq Let_def)
      qed
    qed
  qed
qed

lemma savePhase_all_or_nothing:
  assumes "work_savePhase input clock s = (r, t)"
  shows "staging t = staging s \<and> (\<exists>e. r = Inl e) \<or>
    (\<exists>p. work_requirePhaseWrite input = Inr p \<and> phase_written p clock t \<and>
       (case pw_unit p of None \<Rightarrow> True
        | Some u \<Rightarrow> unit_written (pw_workKey p) (pw_phase p) u t))"
  using assms
proof (cases rule: save_cases)
  case (written p)
  then show ?thesis using save_batch_written by blast
qed (simp_all add: staging_def)

subsection \<open>Reading back\<close>

lemma requirePhaseWrite_facts:
  assumes "work_requirePhaseWrite input = Inr p"
  shows "work_requireText (jget input ''workKey'') ''workKey'' = Inr (pw_workKey p)"
    and "work_requireText (jget input ''phase'') ''phase'' = Inr (pw_phase p)"
    and "is_object (pw_state p)"
    and "pw_processedItems p \<le> pw_expectedItems p"
    and "is_safe (pw_expectedItems p) \<and> 0 \<le> pw_expectedItems p"
    and "is_safe (pw_processedItems p) \<and> 0 \<le> pw_processedItems p"
    and "is_safe (pw_pagesProcessed p) \<and> 0 \<le> pw_pagesProcessed p"
    and "is_safe (pw_chunksProcessed p) \<and> 0 \<le> pw_chunksProcessed p"
  using assms
  by (auto simp: work_requirePhaseWrite_def bind_res_Inr_iff requireJsonObject_def
      work_safeTimestamp_def dest: safe_number_InrD split: if_splits)

definition phase_stamps_ok :: "d1 \<Rightarrow> bool" where
  "phase_stamps_ok s \<longleftrightarrow>
     list_all (\<lambda>r. is_safe (ph_created_at r) \<and> 0 \<le> ph_created_at r) (sync_work_phases s)"

lemma is_object_norm: "is_object v \<Longrightarrow> is_object (json_norm v)"
  by (cases v) (simp_all add: is_object_def)

lemma parse_stringify: "is_object v \<Longrightarrow>
    work_parseJsonObject (json_stringify v) f = Inr (json_norm v)"
  by (simp add: work_parseJsonObject_def json_stringify_def json_parse_def is_object_norm)

lemma load_written:
  assumes "work_requirePhaseWrite input = Inr p" "phase_written p now t" "quiet t"
    and "phase_stamps_ok t" "is_safe now" "0 \<le> now"
  shows "\<exists>c. work_loadPhase input t = (Inr (Some \<lparr>pp_state = json_norm (pw_state p),
      pp_expectedItems = pw_expectedItems p, pp_processedItems = pw_processedItems p,
      pp_pagesProcessed = pw_pagesProcessed p, pp_chunksProcessed = pw_chunksProcessed p,
      pp_complete = pw_complete p, pp_createdAt = Some c, pp_updatedAt = Some now\<rparr>), t)"
proof -
  obtain r where r: "row_at phase_key (pw_workKey p, pw_phase p) (sync_work_phases t) = Some r"
    "ph_state r = json_stringify (pw_state p)" "ph_expected r = pw_expectedItems p"
    "ph_processed r = pw_processedItems p" "ph_pages r = pw_pagesProcessed p"
    "ph_chunks r = pw_chunksProcessed p" "ph_complete r = pw_complete p" "ph_updated_at r = now"
    using assms(2) by (auto simp: phase_written_def split: option.splits)
  have c: "is_safe (ph_created_at r) \<and> 0 \<le> ph_created_at r"
    using assms(4) row_at_SomeD [OF r(1)] by (auto simp: phase_stamps_ok_def list_all_iff)
  show ?thesis
    using requirePhaseWrite_facts [OF assms(1)] assms(3,5,6) r c
    by (simp add: work_loadPhase_def eff_simps freezePhase_def work_safeTimestamp_def
        parse_stringify)
qed

lemma put_phase_stamps:
  assumes "phase_stamps_ok s" "is_safe now" "0 \<le> now"
  shows "phase_stamps_ok (snd (sql_put_phase p now s))"
  using assms
  by (auto simp: phase_stamps_ok_def sql_put_phase_def sql_upsert_def sql_update_def list_all_iff)

lemma save_then_load:
  assumes "quiet s" "phase_stamps_ok s" "work_savePhase input clock s = (Inr reply, t)"
  shows "\<exists>c. work_loadPhase input t =
    (Inr (Some (reply\<lparr>pp_state := json_norm (pp_state reply), pp_createdAt := Some c\<rparr>)), t)"
  using assms(3)
proof (cases rule: save_cases)
  case (written p)
  have sp: "spend_fault s = s" "quiet s" using assms(1) by (simp_all add: quiet_def spend_fault_def)
  have clock: "is_safe clock \<and> 0 \<le> clock"
    using assms(3) by (auto simp: work_savePhase_def eff_simps work_safeTimestamp_def
        dest: safe_number_jintD split: sum.splits)
  have sv: "save_batch p clock s = Inr t" using written(2) sp by simp
  obtain t1 where t1: "(case pw_unit p of None \<Rightarrow> Inr s
       | Some u \<Rightarrow> sql_put_unit (pw_workKey p) (pw_phase p) u clock s) = Inr t1"
    and t: "t = snd (sql_touch_work (pw_workKey p) clock (snd (sql_put_phase p clock t1)))"
    using sv by (auto simp: save_batch_def split: sum.splits)
  have "faults t1 = faults s \<and> sync_work_phases t1 = sync_work_phases s"
    using t1 by (auto simp: sql_put_unit_def split: option.splits if_splits)
  then have q: "quiet t" and st: "phase_stamps_ok t"
    using sp(2) assms(2) clock put_phase_stamps [of t1 clock p] t
    by (simp_all add: quiet_def sql_touch_work_def sql_put_phase_def phase_stamps_ok_def)
  have pw: "phase_written p clock t" using save_batch_written [OF sv] by simp
  show ?thesis
    using load_written [OF written(1) pw q st] clock written(3) [OF refl] by simp
qed simp_all

subsection \<open>Paging\<close>

text \<open>Sorted rows with distinct keys: the next page starts right after the last key of this one.\<close>

lemma sorted_next_page:
  assumes "sorted (map f xs)" "distinct (map f xs)" "0 < n" "n \<le> length xs"
  shows "filter (\<lambda>x. f (last (take n xs)) + (1::int) \<le> f x) xs = drop n xs"
proof -
  let ?l = "last (take n xs)"
  have l: "?l = xs ! (n - 1)" using assms(3,4)
    by (subst last_conv_nth) (auto simp: min_def)
  have low: "f x \<le> f ?l" if x: "x \<in> set (take n xs)" for x
  proof -
    obtain i where i: "i < n" "x = xs ! i" using x assms(4) by (auto simp: in_set_conv_nth)
    have "map f xs ! i \<le> map f xs ! (n - 1)"
      using sorted_nth_mono [OF assms(1), of i "n - 1"] i assms(3,4) by simp
    then show ?thesis using i assms(3,4) l by simp
  qed
  have high: "f ?l + 1 \<le> f x" if x: "x \<in> set (drop n xs)" for x
  proof -
    obtain i where "i < length xs - n" "x = xs ! (n + i)"
      using x assms(4) by (auto simp: in_set_conv_nth)
    then have i: "n + i < length xs" "x = xs ! (n + i)" by simp_all
    have "map f xs ! (n - 1) \<le> map f xs ! (n + i)"
      using sorted_nth_mono [OF assms(1), of "n - 1" "n + i"] i assms(3) by simp
    moreover have "map f xs ! (n - 1) \<noteq> map f xs ! (n + i)"
      using assms(2,3) i by (subst nth_eq_iff_index_eq) simp_all
    ultimately show ?thesis using i assms(3,4) l by simp
  qed
  have "filter (\<lambda>x. f ?l + 1 \<le> f x) (take n xs) = []"
    using low by (force simp: filter_empty_conv)
  moreover have "filter (\<lambda>x. f ?l + 1 \<le> f x) (drop n xs) = drop n xs"
    using high by (simp add: filter_id_conv)
  ultimately show ?thesis
    by (metis append_Nil append_take_drop_id filter_append)
qed

text \<open>
  The loop that reads a phase back (\<open>visitWorkUnits\<close> of \<open>sync-youtube-organic-to-lark.js\<close>), with
  its callback as a function of the unit and the accumulator it fills.
\<close>

definition WORK_UNIT_READ_LIMIT :: int where
  "WORK_UNIT_READ_LIMIT = 100"

definition WORK_UNIT_MAX_PAGES :: nat where
  "WORK_UNIT_MAX_PAGES = 10000"

fun visit_all :: "(work_unit \<Rightarrow> 'acc \<Rightarrow> jserror + 'acc) \<Rightarrow> work_unit list \<Rightarrow> 'acc \<Rightarrow> jserror + 'acc" where
  "visit_all visit [] acc = Inr acc"
| "visit_all visit (u # us) acc = bind_res (visit u acc) (visit_all visit us)"

function visit_pages ::
    "work_config \<Rightarrow> jsval \<Rightarrow> jsval \<Rightarrow> (work_unit \<Rightarrow> 'acc \<Rightarrow> jserror + 'acc) \<Rightarrow> nat \<Rightarrow> int \<Rightarrow> 'acc \<Rightarrow>
     (d1, 'acc) eff" where
  "visit_pages cfg workKey phase visit page afterSequence acc =
     (if WORK_UNIT_MAX_PAGES < page
      then throw (transientError ''Resumable work unit pagination exceeded max pages''
             ''D1_SYNC_WORK_PAGINATION_LIMIT''
             (JObj [(''phase'', phase), (''maxPages'', jint (int WORK_UNIT_MAX_PAGES))]))
      else andThen (work_listPhaseUnits cfg (JObj [(''workKey'', workKey), (''phase'', phase),
             (''afterSequence'', jint afterSequence), (''limit'', jint WORK_UNIT_READ_LIMIT)]))
        (\<lambda>result. check (visit_all visit (up_units result) acc) (\<lambda>acc'.
           case up_nextSequence result of
             None \<Rightarrow> ret acc'
           | Some n \<Rightarrow>
               if n < 0 \<or> \<not> is_safe n
               then throw (type_error ''nextSequence must be non-negative'')
               else if n \<le> afterSequence
               then throw (transientError ''Resumable work unit pagination did not advance''
                      ''D1_SYNC_WORK_PAGINATION_STALLED''
                      (JObj [(''phase'', phase), (''page'', jint (int page))]))
               else visit_pages cfg workKey phase visit (Suc page) n acc')))"
  by pat_completeness auto

termination
  by (relation "measure (\<lambda>(cfg, w, p, v, page, a, acc). Suc WORK_UNIT_MAX_PAGES - page)") auto

declare visit_pages.simps [simp del]

definition visitWorkUnits ::
    "work_config \<Rightarrow> jsval \<Rightarrow> jsval \<Rightarrow> (work_unit \<Rightarrow> 'acc \<Rightarrow> jserror + 'acc) \<Rightarrow> 'acc \<Rightarrow>
     (d1, 'acc) eff" where
  "visitWorkUnits cfg workKey phase visit acc = visit_pages cfg workKey phase visit 1 0 acc"

text \<open>The staged units of a phase in sequence order, and what makes the table well formed.\<close>

definition phase_units :: "string \<Rightarrow> string \<Rightarrow> int \<Rightarrow> d1 \<Rightarrow> unit_row list" where
  "phase_units w ph a s = sort_key un_sequence
     (filter (\<lambda>r. un_work_key r = w \<and> un_phase r = ph \<and> a \<le> un_sequence r) (sync_work_units s))"

definition unit_sound :: "unit_row \<Rightarrow> bool" where
  "unit_sound r \<longleftrightarrow> plain_text (un_key r) \<and> 0 \<le> un_sequence r \<and> un_sequence r < max_safe
     \<and> (case json_parse (un_payload r) of Some v \<Rightarrow> is_object v | None \<Rightarrow> False)"

definition unit_of :: "unit_row \<Rightarrow> work_unit" where
  "unit_of r = \<lparr>wu_unitKey = un_key r, wu_sequence = un_sequence r,
     wu_payload = (case json_parse (un_payload r) of Some v \<Rightarrow> v | None \<Rightarrow> JUndef)\<rparr>"

definition units_sound :: "string \<Rightarrow> string \<Rightarrow> d1 \<Rightarrow> bool" where
  "units_sound w ph s \<longleftrightarrow>
     (let us = filter (\<lambda>r. un_work_key r = w \<and> un_phase r = ph) (sync_work_units s)
      in list_all unit_sound us \<and> distinct (map un_sequence us))"

lemma freezeUnit_sound: "unit_sound r \<Longrightarrow> freezeUnit r = Inr (unit_of r)"
  by (auto simp: unit_sound_def freezeUnit_def work_requireText_def work_safeTimestamp_def
      is_safe_def max_safe_def work_parseJsonObject_def unit_of_def split: option.splits)

lemma phase_units_facts:
  assumes "units_sound w ph s"
  shows "list_all unit_sound (phase_units w ph a s)"
    and "sorted (map un_sequence (phase_units w ph a s))"
    and "distinct (map un_sequence (phase_units w ph a s))"
proof -
  let ?us = "filter (\<lambda>r. un_work_key r = w \<and> un_phase r = ph) (sync_work_units s)"
  have us: "list_all unit_sound ?us" "distinct (map un_sequence ?us)"
    using assms by (simp_all add: units_sound_def Let_def)
  have f: "filter (\<lambda>r. un_work_key r = w \<and> un_phase r = ph \<and> a \<le> un_sequence r) (sync_work_units s)
      = filter (\<lambda>r. a \<le> un_sequence r) ?us"
    by (simp add: conj_commute conj_left_commute)
  show "list_all unit_sound (phase_units w ph a s)"
    using us(1) by (auto simp: phase_units_def list_all_iff)
  show "sorted (map un_sequence (phase_units w ph a s))"
    by (simp add: phase_units_def)
  have "distinct (map un_sequence (filter (\<lambda>r. a \<le> un_sequence r) ?us))"
    using us(2) by (rule distinct_map_filter)
  then show "distinct (map un_sequence (phase_units w ph a s))"
    unfolding phase_units_def f distinct_map distinct_sort set_sort .
qed

lemma phase_units_from:
  "a \<le> b \<Longrightarrow> phase_units w ph b s = filter (\<lambda>r. b \<le> un_sequence r) (phase_units w ph a s)"
  unfolding phase_units_def filter_sort filter_filter
  by (rule arg_cong [of _ _ "sort_key un_sequence"], rule filter_cong) auto

lemma phase_units_next:
  assumes "units_sound w ph s" "0 < n" "n \<le> length (phase_units w ph a s)"
    and "b = un_sequence (last (take n (phase_units w ph a s))) + 1"
  shows "a < b" "phase_units w ph b s = drop n (phase_units w ph a s)"
proof -
  let ?us = "phase_units w ph a s"
  have "last (take n ?us) \<in> set (take n ?us)"
    using assms(2,3) by (intro last_in_set) auto
  then have "last (take n ?us) \<in> set ?us" by (meson in_set_takeD)
  then have "a \<le> un_sequence (last (take n ?us))" by (simp add: phase_units_def)
  then show ab: "a < b" using assms(4) by simp
  show "phase_units w ph b s = drop n ?us"
    using sorted_next_page [OF phase_units_facts(2,3) [OF assms(1)] assms(2,3)]
      phase_units_from [of a b w ph s] ab assms(4) by simp
qed

definition unit_page_input :: "string \<Rightarrow> string \<Rightarrow> int \<Rightarrow> jsval" where
  "unit_page_input w ph a = JObj [(''workKey'', JStr w), (''phase'', JStr ph),
     (''afterSequence'', jint a), (''limit'', jint WORK_UNIT_READ_LIMIT)]"

lemma list_page:
  assumes "quiet s" "plain_text w" "plain_text ph" "units_sound w ph s" "is_safe a" "0 \<le> a"
  defines "us \<equiv> phase_units w ph a s"
  shows "work_listPhaseUnits cfg (unit_page_input w ph a) s =
    (Inr \<lparr>up_units = map unit_of (take 100 us), up_nextSequence =
       (if 100 \<le> length us then Some (un_sequence (last (take 100 us)) + 1) else None)\<rparr>, s)"
proof -
  have sel: "sql_select (\<lambda>r. un_work_key r = w \<and> un_phase r = ph \<and> a \<le> un_sequence r) un_sequence
      100 (sync_work_units s) = take 100 us"
    by (simp add: sql_select_def us_def phase_units_def)
  have "\<And>x. x \<in> set (take 100 us) \<Longrightarrow> freezeUnit x = Inr (unit_of x)"
    using phase_units_facts(1) [OF assms(4), of a] freezeUnit_sound
    by (metis in_set_takeD list_all_iff us_def)
  then have m: "map_res freezeUnit (take 100 us) = Inr (map unit_of (take 100 us))"
    by (rule map_res_Inr)
  have last: "wu_sequence (last (map unit_of (take 100 us))) = un_sequence (last (take 100 us))"
    if "100 \<le> length us" using that by (subst last_map) (auto simp: unit_of_def)
  show ?thesis
    using assms(1-3,5,6) sel m last
    by (simp add: work_listPhaseUnits_def unit_page_input_def work_requireText_def
        work_safeTimestamp_def work_boundedPositiveInteger_def nullish_def WORK_UNIT_READ_LIMIT_def
        is_safe_def max_safe_def safe_number_def safe_int_def eff_simps del: take_map)
qed

lemma visit_all_append:
  "visit_all visit (us @ vs) acc = bind_res (visit_all visit us acc) (visit_all visit vs)"
  by (induction us arbitrary: acc) (simp_all add: bind_res_def split: sum.splits)

lemma visit_pages_all:
  assumes "quiet s" "plain_text w" "plain_text ph" "units_sound w ph s"
  shows "is_safe a \<Longrightarrow> 0 \<le> a \<Longrightarrow> page + length (phase_units w ph a s) div 100 \<le> WORK_UNIT_MAX_PAGES \<Longrightarrow>
    visit_pages cfg (JStr w) (JStr ph) visit page a acc s =
      (visit_all visit (map unit_of (phase_units w ph a s)) acc, s)"
proof (induction "length (phase_units w ph a s)" arbitrary: page a acc rule: less_induct)
  case less
  let ?us = "phase_units w ph a s"
  have run: "work_listPhaseUnits cfg (JObj [(''workKey'', JStr w), (''phase'', JStr ph),
             (''afterSequence'', jint a), (''limit'', jint WORK_UNIT_READ_LIMIT)]) s =
    (Inr \<lparr>up_units = map unit_of (take 100 ?us), up_nextSequence =
       (if 100 \<le> length ?us then Some (un_sequence (last (take 100 ?us)) + 1) else None)\<rparr>, s)"
    using list_page [OF assms less.prems(1,2)] by (simp add: unit_page_input_def)
  have page: "\<not> WORK_UNIT_MAX_PAGES < page" using less.prems(3) by linarith
  show ?case
  proof (cases "100 \<le> length ?us")
    case False
    then show ?thesis using run page
      by (subst visit_pages.simps) (simp add: eff_simps split: sum.split)
  next
    case True
    let ?b = "un_sequence (last (take 100 ?us)) + 1"
    have nxt: "a < ?b" "phase_units w ph ?b s = drop 100 ?us"
      using phase_units_next [OF assms(4) _ True refl] by simp_all
    have "last (take 100 ?us) \<in> set ?us"
      using True by (intro in_set_takeD [OF last_in_set]) auto
    then have "unit_sound (last (take 100 ?us))"
      using phase_units_facts(1) [OF assms(4), of a] by (simp add: list_all_iff)
    then have b: "is_safe ?b" "0 \<le> ?b" by (auto simp: unit_sound_def is_safe_def)
    have rest: "visit_pages cfg (JStr w) (JStr ph) visit (Suc page) ?b acc' s =
        (visit_all visit (map unit_of (drop 100 ?us)) acc', s)" for acc'
    proof -
      have "length (phase_units w ph ?b s) < length ?us" using nxt(2) True by simp
      moreover have "Suc page + length (phase_units w ph ?b s) div 100 \<le> WORK_UNIT_MAX_PAGES"
        using nxt(2) less.prems(3) True by (simp add: le_div_geq)
      ultimately show ?thesis using less.hyps [OF _ b, of "Suc page" acc'] nxt(2) by simp
    qed
    have "visit_all visit (map unit_of ?us) acc =
        bind_res (visit_all visit (map unit_of (take 100 ?us)) acc)
          (visit_all visit (map unit_of (drop 100 ?us)))"
      by (metis append_take_drop_id map_append visit_all_append)
    then show ?thesis using run page True nxt(1) b rest
      by (subst visit_pages.simps) (simp add: eff_simps bind_res_def split: sum.split)
  qed
qed

end
