(* ===== verification/Work_Recovery.thy ===== *)
theory Work_Recovery
  imports Work_Guarantees
begin

text \<open>
  Resuming and recovering a work: a retry of an active work resumes it, a completed work replays its
  completion whatever the fence says, a revived work is resumed by its own generation, a guarded
  warning is recorded only under the held fence and is delivered once, and cleanup spares live work.
\<close>

definition work_begin_input :: "work_input \<Rightarrow> jsval" where
  "work_begin_input i = JObj [(''workKey'', JStr (wi_workKey i)), (''cursorKey'', JStr (wi_cursorKey i)),
     (''workType'', JStr (wi_workType i)), (''operationFingerprint'', JStr (wi_fingerprint i)),
     (''generation'', jint (wi_generation i)), (''requestedAt'', jint (wi_requestedAt i))]"

definition work_input_ok :: "work_input \<Rightarrow> bool" where
  "work_input_ok i \<longleftrightarrow> plain_text (wi_workKey i) \<and> plain_text (wi_cursorKey i)
     \<and> plain_text (wi_workType i) \<and> plain_text (wi_fingerprint i)
     \<and> 0 \<le> wi_generation i \<and> is_safe (wi_generation i)
     \<and> 0 \<le> wi_requestedAt i \<and> is_safe (wi_requestedAt i)"

lemma requireWork_input:
  "work_input_ok i \<Longrightarrow> work_requireWork (work_begin_input i) now = Inr i"
  by (simp add: work_requireWork_def work_begin_input_def work_input_ok_def work_requireText_def
      work_safeTimestamp_def nullish_def)

lemma begin_quiet:
  assumes "quiet s" "work_input_ok i" "0 \<le> now" "is_safe now"
    and "begin_with cfg i now (row_at wk_key (wi_workKey i) (sync_work_runs s)) s = (Inr r, t)"
  shows "work_beginWork cfg (work_begin_input i) now s = (Inr r, t)"
  using assms by (simp add: work_beginWork_def eff_simps requireWork_input work_safeTimestamp_def)

subsection \<open>Completed work replays its completion\<close>

lemma completed_replays:
  assumes "quiet s" "work_input_ok i" "0 \<le> now" "is_safe now"
    and "completed_as (wi_workKey i) c s" "wk_generation c = wi_generation i"
    and "work_parseNullable (wk_completion c) ''completion_json'' = Inr v"
  shows "work_beginWork cfg (work_begin_input i) now s = (Inr (completed_reply (wi_workKey i) v), s)"
  using assms
  by (intro begin_quiet) (simp_all add: begin_with_def completed_as_def eff_simps)

lemma complete_row:
  fixes cfg :: work_config
  assumes "quiet s" "plain_text w" "0 \<le> now" "is_safe now" "is_object c"
    and "row_at wk_key w (sync_work_runs s) = Some r" "wk_lifecycle r = Active"
  defines "done_row \<equiv> r\<lparr>wk_lifecycle := Completed, wk_completed_at := Some now,
      wk_expires_at := Some (now + wc_retentionMs cfg),
      wk_completion := Some (json_stringify (sanitizeOperationalValue c)), wk_updated_at := now\<rparr>"
  shows "\<exists>t. work_completeWork cfg (JObj [(''workKey'', JStr w), (''completion'', c)]) now s
      = (Inr True, t) \<and> quiet t \<and> completed_as w done_row t"
proof -
  have tr: "truthy c" using assms(5) by (cases c) (auto simp: is_object_def)
  have "row_at wk_key w (sync_work_runs (sql_complete cfg w
      (Some (json_stringify (sanitizeOperationalValue c))) now s)) = Some done_row"
    using row_at_SomeD [OF assms(6)] assms(6,7) by (simp add: sql_complete_def row_at_update done_row_def)
  then show ?thesis
    using assms(1-4) tr
    by (simp add: work_completeWork_def work_requireText_def work_safeTimestamp_def eff_simps
        completed_as_def done_row_def quiet_def sql_complete_def)
qed

subsection \<open>A retry resumes the work\<close>

lemma start_work_row:
  assumes "row_at wk_key (wi_workKey i) (sync_work_runs s) = None \<or>
    (\<exists>r. row_at wk_key (wi_workKey i) (sync_work_runs s) = Some r \<and> wk_lifecycle r = Active
      \<and> wk_generation r = wi_generation i)"
  shows "\<exists>r. row_at wk_key (wi_workKey i) (sync_work_runs (snd (sql_start_work i now s))) = Some r
    \<and> wk_lifecycle r = Active \<and> wk_generation r = wi_generation i
    \<and> wk_fingerprint r = wi_fingerprint i"
proof -
  have k: "wk_key (fresh_work_row i now Active) = wi_workKey i" by (simp add: fresh_work_row_def)
  show ?thesis
    using row_at_upsert [of wk_key "fresh_work_row i now Active"
        "\<lambda>r. r\<lparr>wk_cursor_key := wi_cursorKey i, wk_type := wi_workType i,
           wk_fingerprint := wi_fingerprint i, wk_requested_at := wi_requestedAt i,
           wk_updated_at := now\<rparr>" "wi_workKey i"
        "\<lambda>r. wk_generation r = wi_generation i \<and> wk_lifecycle r = Active" "sync_work_runs s"] assms k
    by (auto simp: sql_start_work_def fresh_work_row_def split: option.splits)
qed

lemma quiet_statements [simp]:
  "quiet (snd (sql_claim_fence i now s)) = quiet s"
  "quiet (snd (sql_start_work i now s)) = quiet s"
  "quiet (snd (sql_record_superseded cfg i now s)) = quiet s"
  by (simp_all add: quiet_def sql_claim_fence_def sql_start_work_def sql_record_superseded_def Let_def)

lemma claim_quiet:
  assumes "quiet s" "fences_keyed s"
    and "\<not> beaten (wi_generation i) (wi_workKey i) (d1_fence_of s (wi_cursorKey i))"
  shows "work_claim cfg i now ex s =
    (Inr (active_reply (wi_workKey i) (case ex of None \<Rightarrow> False
       | Some r \<Rightarrow> wk_lifecycle r = Active \<and> wk_fingerprint r = wi_fingerprint i)),
     snd (sql_start_work i now (snd (sql_claim_fence i now s))))"
proof -
  have "0 < fst (sql_claim_fence i now s)" using claim_changes [OF assms(2)] assms(3) by blast
  with assms(1) show ?thesis by (simp add: work_claim_def eff_simps)
qed

lemma active_resumes:
  assumes "quiet s" "fences_keyed s" "work_input_ok i" "0 \<le> now" "is_safe now"
    and "row_at wk_key (wi_workKey i) (sync_work_runs s) = Some r" "wk_lifecycle r = Active"
    and "wk_generation r = wi_generation i" "wk_fingerprint r = wi_fingerprint i"
    and "\<not> beaten (wi_generation i) (wi_workKey i) (d1_fence_of s (wi_cursorKey i))"
  shows "fst (work_beginWork cfg (work_begin_input i) now s) = Inr (active_reply (wi_workKey i) True)"
proof -
  have "begin_with cfg i now (Some r) s = (Inr (active_reply (wi_workKey i) True),
      snd (sql_start_work i now (snd (sql_claim_fence i now s))))"
    using claim_quiet [OF assms(1,2,10), of cfg now "Some r"] assms(7-9) by (simp add: begin_with_def)
  then show ?thesis using begin_quiet [OF assms(1,3-5)] assms(6) by simp
qed

lemma begin_quiet_state:
  assumes "quiet s" "fences_keyed s" "work_input_ok i" "0 \<le> now" "is_safe now"
    and "work_beginWork cfg (work_begin_input i) now s = (Inr r, t)" "\<not> br_superseded r" "\<not> br_completed r"
  shows "quiet t \<and> fences_keyed t \<and>
    d1_fence_of t (wi_cursorKey i) = Some (wi_generation i, wi_workKey i) \<and>
    (\<exists>x. row_at wk_key (wi_workKey i) (sync_work_runs t) = Some x \<and> wk_lifecycle x = Active
      \<and> wk_generation x = wi_generation i \<and> wk_fingerprint x = wi_fingerprint i)"
proof -
  let ?ex = "row_at wk_key (wi_workKey i) (sync_work_runs s)"
  have sp: "spend_fault s = s" using assms(1) by (simp add: quiet_def spend_fault_def)
  have run: "begin_with cfg i now ?ex s = (Inr r, t)"
    using begin_run [OF assms(6)] requireWork_input [OF assms(3)] sp by (metis sum.inject(2))
  have claim: "work_claim cfg i now ?ex s = (Inr r, t)"
    using begin_with_active [OF run assms(7,8)] .
  have ex: "?ex = None \<or> (\<exists>x. ?ex = Some x \<and> wk_lifecycle x = Active \<and> wk_generation x = wi_generation i)"
    using run assms(7,8)
    by (cases ?ex; cases "wk_lifecycle (the ?ex)")
      (auto simp: begin_with_def eff_simps split: if_splits sum.splits)
  have win: "d1_fence_of t (wi_cursorKey i) = Some (wi_generation i, wi_workKey i)"
    "\<not> beaten (wi_generation i) (wi_workKey i) (d1_fence_of s (wi_cursorKey i))"
    using work_claim_wins [OF assms(2) claim assms(7)] by simp_all
  have t: "t = snd (sql_start_work i now (snd (sql_claim_fence i now s)))"
    using claim_quiet [OF assms(1,2) win(2), of cfg now ?ex] claim by simp
  have "fences_keyed t"
    using claim_keyed [of s i now] assms(2) same_keyed [of "snd (sql_claim_fence i now s)" t] t
    by (simp add: keeping_def unchanged_def)
  moreover have "\<exists>x. row_at wk_key (wi_workKey i) (sync_work_runs t) = Some x \<and> wk_lifecycle x = Active
      \<and> wk_generation x = wi_generation i \<and> wk_fingerprint x = wi_fingerprint i"
    unfolding t using ex by (intro start_work_row) simp
  ultimately show ?thesis using win(1) t assms(1) by simp
qed

lemma begin_again_resumes:
  assumes "quiet s" "fences_keyed s" "work_input_ok i" "0 \<le> now" "is_safe now"
    and "work_beginWork cfg (work_begin_input i) now s = (Inr r, t)" "\<not> br_superseded r" "\<not> br_completed r"
    and "0 \<le> later" "is_safe later"
  shows "fst (work_beginWork cfg (work_begin_input i) later t) = Inr (active_reply (wi_workKey i) True)"
proof -
  obtain x where x: "quiet t" "fences_keyed t" "row_at wk_key (wi_workKey i) (sync_work_runs t) = Some x"
    "wk_lifecycle x = Active" "wk_generation x = wi_generation i" "wk_fingerprint x = wi_fingerprint i"
    "d1_fence_of t (wi_cursorKey i) = Some (wi_generation i, wi_workKey i)"
    using begin_quiet_state [OF assms(1-8)] by blast
  then show ?thesis
    by (intro active_resumes [OF x(1,2) assms(3,9,10) x(3-6)]) (simp add: beaten_def)
qed

subsection \<open>Reviving a terminal work\<close>

definition revived_row :: "string \<Rightarrow> int \<Rightarrow> work_row \<Rightarrow> work_row" where
  "revived_row audit now r = r\<lparr>wk_lifecycle := Active, wk_terminal_reason := None,
     wk_abandoned_at := None, wk_expires_at := None, wk_audit := Some audit, wk_updated_at := now\<rparr>"

lemma not_revived [simp]:
  "d \<noteq> Revived \<Longrightarrow> rr_disposition (freezeRecovery c d) \<noteq> Revived"
  by (simp add: freezeRecovery_def)

lemma sql_revive_one:
  assumes "keyed wk_key (sync_work_runs s)" "sql_revive w g p audit now s = Inr (1, t)"
  shows "\<exists>r. row_at wk_key w (sync_work_runs s) = Some r \<and> wk_lifecycle r = Terminal
    \<and> wk_completed_at r = None \<and> wk_generation r = g \<and> source_ready w p s
    \<and> \<not> cursor_locked (wk_cursor_key r) now s
    \<and> row_at wk_key w (sync_work_runs t) = Some (revived_row audit now r)
    \<and> sync_generation_fences t = sync_generation_fences s \<and> faults t = faults s"
proof -
  let ?q = "\<lambda>r. wk_generation r = g \<and> wk_lifecycle r = Terminal \<and> wk_completed_at r = None
     \<and> source_ready (wk_key r) p s \<and> \<not> cursor_locked (wk_cursor_key r) now s"
  let ?u = "sql_update (\<lambda>r. wk_key r = w \<and> ?q r) (revived_row audit now) (sync_work_runs s)"
  have u: "fst ?u = 1" "t = s\<lparr>sync_work_runs := snd ?u\<rparr>"
    using assms(2) by (auto simp: sql_revive_def revived_row_def [abs_def] on_table_def split: if_splits)
  have "0 < fst ?u" using u(1) by simp
  then obtain r where r: "row_at wk_key w (sync_work_runs s) = Some r" "?q r"
    unfolding changes_keyed_update [OF assms(1)] by (auto split: option.splits)
  have k: "wk_key r = w" using row_at_SomeD [OF r(1)] by simp
  have "row_at wk_key w (snd ?u) = Some (revived_row audit now r)"
    using r k by (subst row_at_update) (simp_all add: revived_row_def)
  then show ?thesis using r u(2) k by auto
qed

lemma revive_reply:
  assumes "prepareCompletedSourceRedrive input clock s = (Inr reply, t)" "rr_disposition reply = Revived"
  obtains w g p audit now s0 where "safe_requireText (jget input ''workKey'') ''workKey'' = Inr w"
    "safe_requireTimestamp (jget input ''generation'') ''generation'' = Inr g"
    "safe_requireText (jget input ''sourcePhase'') ''sourcePhase'' = Inr p"
    "safe_requireText (jget input ''auditReference'') ''auditReference'' = Inr audit"
    "s0 = spend_fault s" "sql_revive w g p audit now (spend_fault s0) = Inr (1, t)"
proof -
  obtain w g p audit now where v: "safe_requireText (jget input ''workKey'') ''workKey'' = Inr w"
    "safe_requireTimestamp (jget input ''generation'') ''generation'' = Inr g"
    "safe_requireText (jget input ''sourcePhase'') ''sourcePhase'' = Inr p"
    "safe_requireText (jget input ''auditReference'') ''auditReference'' = Inr audit"
    "safe_requireTimestamp (nullish (jget input ''now'') (jint clock)) ''now'' = Inr now"
    using assms(1) by (auto simp: prepareCompletedSourceRedrive_def eff_simps split: sum.splits)
  let ?read = "stmt (\<lambda>s. case read_recovery w p now s of Inl m \<Rightarrow> Inl m | Inr c \<Rightarrow> Inr (c, s))"
  obtain c0 c s1 where rd: "?read s = (Inr c0, s1)" and c: "assertRecoveryIdentity c0 w g = Inr c"
    and dec: "recovery_decision c w g p audit now s1 = (Inr reply, t)"
    using assms(1) v
    by (auto simp: prepareCompletedSourceRedrive_def eff_simps split: sum.splits prod.splits)
  have s1: "s1 = spend_fault s" using stmt_InrD [OF rd] by (auto split: sum.splits)
  have "revive_terminal w g p audit now s1 = (Inr reply, t)"
    using dec assms(2)
    by (auto simp: recovery_decision_def eff_simps Let_def split: if_splits)
  then have "stmt (sql_revive w g p audit now) s1 = (Inr 1, t)"
    by (auto simp: revive_terminal_def eff_simps split: sum.splits prod.splits if_splits)
  then have "sql_revive w g p audit now (spend_fault s1) = Inr (1, t)" by (rule stmt_InrD)
  then show ?thesis by (rule that [OF v(1-4) s1])
qed

lemma revived_work:
  assumes "keyed wk_key (sync_work_runs s)"
    and "prepareCompletedSourceRedrive input clock s = (Inr reply, t)" "rr_disposition reply = Revived"
  obtains w p r audit now where "jget input ''workKey'' = JStr w"
    "safe_requireText (jget input ''sourcePhase'') ''sourcePhase'' = Inr p" "source_ready (trim w) p s"
    "row_at wk_key (trim w) (sync_work_runs s) = Some r" "wk_lifecycle r = Terminal"
    "wk_completed_at r = None" "js_number (jget input ''generation'') = NInt (wk_generation r)"
    "\<not> cursor_locked (wk_cursor_key r) now s"
    "row_at wk_key (trim w) (sync_work_runs t) = Some (revived_row audit now r)"
    "d1_fence_of t = d1_fence_of s" "quiet s \<longrightarrow> quiet t"
proof -
  obtain w g p audit now s0 where v: "safe_requireText (jget input ''workKey'') ''workKey'' = Inr w"
    "safe_requireTimestamp (jget input ''generation'') ''generation'' = Inr g"
    "safe_requireText (jget input ''sourcePhase'') ''sourcePhase'' = Inr p"
    and s0: "s0 = spend_fault s" and one: "sql_revive w g p audit now (spend_fault s0) = Inr (1, t)"
    using revive_reply [OF assms(2,3)] by metis
  have k: "keyed wk_key (sync_work_runs (spend_fault s0))" using assms(1) s0 by simp
  obtain r where r: "row_at wk_key w (sync_work_runs s) = Some r" "wk_lifecycle r = Terminal"
    "wk_completed_at r = None" "wk_generation r = g" "\<not> cursor_locked (wk_cursor_key r) now s"
    "row_at wk_key w (sync_work_runs t) = Some (revived_row audit now r)"
    "sync_generation_fences t = sync_generation_fences s" "faults t = faults (spend_fault s0)"
    "source_ready w p s"
    using sql_revive_one [OF k one] s0 by (auto simp: cursor_locked_def source_ready_def)
  obtain w0 where w0: "jget input ''workKey'' = JStr w0" "trim w0 = w"
    using v(1) by (auto simp: safe_requireText_def requireText_def split: jsval.splits if_splits)
  have "js_number (jget input ''generation'') = NInt g"
    using v(2) by (auto simp: safe_requireTimestamp_def safe_number_def dest!: safe_int_SomeD
        split: option.splits if_splits)
  moreover have "d1_fence_of t = d1_fence_of s" using r(7) by (simp add: d1_fence_of_def fun_eq_iff)
  moreover have "quiet s \<longrightarrow> quiet t" using r(8) s0 by (simp add: quiet_def spend_fault_def)
  ultimately show ?thesis using that [OF w0(1) v(3)] w0(2) r by blast
qed

subsection \<open>Cleanup spares live work\<close>

definition spared :: "string \<Rightarrow> int \<Rightarrow> d1 \<Rightarrow> bool" where
  "spared w now s \<longleftrightarrow> keyed wk_key (sync_work_runs s) \<and>
     (\<exists>r. row_at wk_key w (sync_work_runs s) = Some r \<and> \<not> expired_work now s r)"

definition work_material :: "string \<Rightarrow> d1 \<Rightarrow> work_row option \<times> unit_row list \<times> phase_row list" where
  "work_material w s = (row_at wk_key w (sync_work_runs s),
     filter (\<lambda>u. un_work_key u = w) (sync_work_units s),
     filter (\<lambda>p. ph_work_key p = w) (sync_work_phases s))"

definition sparing :: "string \<Rightarrow> int \<Rightarrow> d1 \<Rightarrow> d1 \<Rightarrow> bool" where
  "sparing w now s t \<longleftrightarrow> (spared w now s \<longrightarrow> spared w now t \<and> work_material w t = work_material w s)"

lemma sparing_faults [simp]:
  "spared w now (s\<lparr>faults := fs\<rparr>) = spared w now s"
  "work_material w (s\<lparr>faults := fs\<rparr>) = work_material w s"
  by (simp_all add: spared_def work_material_def expired_work_def cursor_locked_def
      warning_pending_def)

lemma sparing_props [simp]:
  "reflp (sparing w now)" "transp (sparing w now)" "fault_blind (sparing w now)"
  by (simp_all add: reflp_def transp_def fault_blind_def sparing_def)

lemma pending_after_delivered_delete:
  "warning_pending w (s\<lparr>sync_warning_outbox := snd (sql_delete
     (\<lambda>r. wn_work_key r = k \<and> wn_status r = Delivered) (sync_warning_outbox s))\<rparr>) = warning_pending w s"
  by (auto simp: warning_pending_def sql_delete_def list_ex_iff)

lemma filter_delete_other:
  "(\<And>r. q r \<Longrightarrow> \<not> p r) \<Longrightarrow> filter q (snd (sql_delete p t)) = filter q t"
  by (induction t) (auto simp: sql_delete_def)

lemma purge_spares: "sparing w now s (sql_purge_work k now s)"
proof -
  define due where "due = list_ex (\<lambda>r. wk_key r = k \<and> expired_work now s r) (sync_work_runs s)"
  define s1 where "s1 = (if due then s
     \<lparr>sync_work_units := snd (sql_delete (\<lambda>r. un_work_key r = k) (sync_work_units s)),
      sync_work_phases := snd (sql_delete (\<lambda>r. ph_work_key r = k) (sync_work_phases s))\<rparr> else s)"
  define s2 where "s2 = s1\<lparr>sync_warning_outbox := snd (sql_delete
     (\<lambda>r. wn_work_key r = k \<and> wn_status r = Delivered) (sync_warning_outbox s1))\<rparr>"
  have purge: "sql_purge_work k now s = s2\<lparr>sync_work_runs := snd (sql_delete
      (\<lambda>r. wk_key r = k \<and> expired_work now s2 r) (sync_work_runs s2))\<rparr>"
    by (simp add: sql_purge_work_def due_def s1_def s2_def Let_def)
  have s1: "sync_locks s1 = sync_locks s" "sync_work_runs s1 = sync_work_runs s"
    "sync_warning_outbox s1 = sync_warning_outbox s"
    by (simp_all add: s1_def)
  have ex: "expired_work now s2 r = expired_work now s r" for r
    using pending_after_delivered_delete [where w = "wk_key r" and s = s1 and k = k] s1
    by (simp add: expired_work_def cursor_locked_def warning_pending_def s2_def)
  have s2: "sync_work_runs s2 = sync_work_runs s" "sync_work_units s2 = sync_work_units s1"
    "sync_work_phases s2 = sync_work_phases s1"
    by (simp_all add: s2_def s1)
  have purge': "sql_purge_work k now s = s2\<lparr>sync_work_runs := snd (sql_delete
      (\<lambda>r. wk_key r = k \<and> expired_work now s r) (sync_work_runs s))\<rparr>"
    by (simp add: purge ex s2)
  show ?thesis unfolding sparing_def
  proof (intro impI)
    assume sp: "spared w now s"
    then obtain r where r: "row_at wk_key w (sync_work_runs s) = Some r" "\<not> expired_work now s r"
      and kd: "keyed wk_key (sync_work_runs s)" by (auto simp: spared_def)
    have notdue: "k = w \<Longrightarrow> \<not> due"
      using key_row_unique [OF kd r(1)] r(2) by (auto simp: due_def list_ex_iff)
    have row: "row_at wk_key w (snd (sql_delete (\<lambda>r. wk_key r = k \<and> expired_work now s r)
        (sync_work_runs s))) = Some r"
      using r by (simp add: row_at_delete [OF kd])
    have un: "filter (\<lambda>u. un_work_key u = w) (sync_work_units s1) =
        filter (\<lambda>u. un_work_key u = w) (sync_work_units s)"
      and ph: "filter (\<lambda>u. ph_work_key u = w) (sync_work_phases s1) =
        filter (\<lambda>u. ph_work_key u = w) (sync_work_phases s)"
      using notdue by (auto simp: s1_def intro!: filter_delete_other)
    let ?t = "sql_purge_work k now s"
    have mat: "work_material w ?t = work_material w s"
      using un ph row r(1) by (simp add: purge' work_material_def s2)
    have ext: "expired_work now ?t r = expired_work now s r"
      using ex [of r] by (simp add: purge' expired_work_def cursor_locked_def warning_pending_def)
    have "keyed wk_key (sync_work_runs ?t)"
      using kd by (simp add: purge' keyed_delete)
    then have "spared w now ?t"
      using mat ext r by (simp add: spared_def work_material_def)
    with mat show "spared w now ?t \<and> work_material w ?t = work_material w s" by simp
  qed
qed

lemma cleanup_spares:
  assumes "work_safeTimestamp (nullish (jget input ''now'') (jint clock)) ''now'' = Inr now"
  shows "evolves (sparing w now) (work_cleanupExpiredWork input clock)"
proof -
  have "evolves (sparing w now) (check (Inr now) (\<lambda>now.
     check (work_boundedPositiveInteger (nullish (jget input ''limit'') (jint 100)) ''limit'' 500)
       (\<lambda>limit.
     catching
       (andThen (query (\<lambda>s. map wk_key (sql_select (expired_work now s)
            (\<lambda>r. case wk_expires_at r of Some e \<Rightarrow> e | None \<Rightarrow> 0) (nat limit) (sync_work_runs s))))
          (\<lambda>keys. check (map_res (\<lambda>k. work_requireText (JStr k) ''work_key'') keys) (\<lambda>candidates.
           andThen (for_each (\<lambda>k. batch (\<lambda>s. Inr (sql_purge_work k now s))) candidates)
             (\<lambda>_. ret (int (length candidates))))))
       (\<lambda>cause. throw (work_d1Error ''Failed to clean expired resumable sync work''
                        ''D1_SYNC_WORK_CLEANUP_FAILED'' cause)))))"
    unfolding check_Inr by (intro evolves_intro) (auto intro: purge_spares)
  then show ?thesis using assms by (simp add: work_cleanupExpiredWork_def)
qed

subsection \<open>Warnings\<close>

lemma guarded_warning_needs_fence:
  assumes "work_saveWarningOutbox input clock s = (Inr reply, t)"
    and "work_requireWarning input = Inr event" "we_guard event = Some g"
  shows "fence_holds g s"
proof (rule ccontr)
  assume no: "\<not> fence_holds g s"
  then have "sql_put_guarded_warning g event p now (spend_fault s) = (0, spend_fault s)" for p now
    by (simp add: sql_put_guarded_warning_def fence_holds_def)
  with assms show False
    by (auto simp: work_saveWarningOutbox_def eff_simps run_sql_eq Let_def
        split: sum.splits fault.splits if_splits)
qed

definition warning_at :: "string \<Rightarrow> d1 \<Rightarrow> warning_row option" where
  "warning_at i s = row_at wn_outbox_id i (sync_warning_outbox s)"

definition delivered_as :: "string \<Rightarrow> json_text \<Rightarrow> int \<Rightarrow> d1 \<Rightarrow> bool" where
  "delivered_as i p n s \<longleftrightarrow> (case warning_at i s of None \<Rightarrow> False
     | Some r \<Rightarrow> wn_status r = Delivered \<and> wn_payload r = p \<and> wn_attempts r = n)"

lemma put_warning_delivered: "keeping (delivered_as i p n) s (snd (sql_put_warning e pl now s))"
  using row_at_upsert [of wn_outbox_id "\<lparr>wn_outbox_id = we_outboxId e, wn_work_key = we_workKey e,
           wn_sync_run_id = we_syncRunId e, wn_type = we_warningType e,
           wn_source_key = we_sourceKey e, wn_payload = json_stringify pl,
           wn_status = Pending, wn_attempts = 0, wn_last_error = None, wn_created_at = now,
           wn_updated_at = now, wn_delivered_at = None\<rparr>"
      "\<lambda>r. r\<lparr>wn_payload := (if wn_status r = Pending then json_stringify pl else wn_payload r),
           wn_updated_at := now\<rparr>" i "\<lambda>r. True" "sync_warning_outbox s"]
  by (auto simp: keeping_def delivered_as_def warning_at_def sql_put_warning_def split: option.splits)

lemma warning_updates_delivered:
  "keeping (delivered_as i p n) s (snd (sql_warning_failed j code now s))"
  "keeping (delivered_as i p n) s (snd (sql_warning_delivered j now s))"
  by (auto simp: keeping_def delivered_as_def warning_at_def sql_warning_failed_def
      sql_warning_delivered_def row_at_update split: option.splits)

lemma fault_blind_delivered [simp]: "fault_blind (keeping (delivered_as i p n))"
  by (simp add: fault_blind_def keeping_def delivered_as_def warning_at_def)

lemma guarded_put_delivered: "keeping (delivered_as i p n) s (snd (sql_put_guarded_warning g e pl now s))"
  using put_warning_delivered by (simp add: sql_put_guarded_warning_def keeping_def)

lemma outbox_ops_keep_delivered:
  "evolves (keeping (delivered_as i p n)) (work_saveWarningOutbox input clock)"
  "evolves (keeping (delivered_as i p n)) (work_markWarningDeliveryFailed input clock)"
  "evolves (keeping (delivered_as i p n)) (work_markWarningDelivered input clock)"
  unfolding work_saveWarningOutbox_def work_markWarningDeliveryFailed_def work_markWarningDelivered_def
  by (intro evolves_intro put_warning_delivered guarded_put_delivered warning_updates_delivered; simp)+

end
