(* ===== verification/Reliability_Store.thy ===== *)
theory Reliability_Store
  imports D1_Database
begin

text \<open>
  The operational store on D1 (\<open>d1-reliability-store.js\<close>): the upserts of sync runs, system alerts
  and dead letters, and the redrive protocol of a dead letter (read a candidate, prepare a redrive
  generation, mark it redriven). The lease lock of the same class is in \<open>Lease_Lock\<close>.
\<close>

subsection \<open>Helpers\<close>

definition MAX_JSON_LENGTH :: nat where
  "MAX_JSON_LENGTH = 50000"

definition rel_requireText :: "jsval \<Rightarrow> string \<Rightarrow> jserror + string" where
  "rel_requireText v f = requireText (''D1ReliabilityStore requires '' @ f) v"

definition nullableText :: "jsval \<Rightarrow> jserror + string option" where
  "nullableText v = (if is_absent v then Inr None
     else bind_res (rel_requireText (JStr (js_text v)) ''text'') (\<lambda>t. Inr (Some t)))"

definition nullableInteger :: "jsval \<Rightarrow> jserror + int option" where
  "nullableInteger v = (if is_absent v then Inr None
     else bind_res (safe_number (\<lambda>_. True) ''D1ReliabilityStore requires a safe integer'' v)
       (\<lambda>n. Inr (Some n)))"

definition rel_nonNegativeInteger :: "jsval \<Rightarrow> string \<Rightarrow> jserror + int" where
  "rel_nonNegativeInteger v f = safe_number (\<lambda>n. 0 \<le> n)
     (''D1ReliabilityStore '' @ f @ '' must be a non-negative integer'') v"

definition requireTextList :: "jsval \<Rightarrow> string \<Rightarrow> jserror + string list" where
  "requireTextList v f = (case v of
     JArr xs \<Rightarrow> map_res (\<lambda>(i, x). rel_requireText x (f @ ''['' @ nat_text i @ '']''))
                  (zip [0..<length xs] xs)
   | _ \<Rightarrow> Inl (type_error (''D1ReliabilityStore requires '' @ f @ '' to be an array'')))"

definition nullableOperationalText :: "jsval \<Rightarrow> jsval \<Rightarrow> jserror + string option" where
  "nullableOperationalText v code = (if is_absent v then Inr None
     else nullableText (JStr (sanitizeOperationalText v code)))"

definition safeJson :: "jsval \<Rightarrow> json_text" where
  "safeJson v =
     (let clean = sanitizeOperationalValue v; text = json_print (json_norm clean) in
      if length text \<le> MAX_JSON_LENGTH then JsonText (json_norm clean)
      else JsonText (JObj [(''truncated'', JBool True),
             (''preview'', JStr (take (MAX_JSON_LENGTH - 100) text))]))"

definition safeReplayJson :: "jsval \<Rightarrow> json_text option" where
  "safeReplayJson v =
     (if \<not> is_object v then None
      else let clean = json_norm (sanitizeQueueReplayValue v) in
        if MAX_JSON_LENGTH < length (json_print clean) then None else Some (JsonText clean))"

definition parseStoredJson :: "json_text \<Rightarrow> string \<Rightarrow> jserror + jsval" where
  "parseStoredJson t f =
     (let bad = Inl (permanentError ''Dead-letter payload is invalid JSON''
                  ''DEAD_LETTER_PAYLOAD_INVALID'' (JObj [(''fieldName'', JStr f)]))
      in case json_parse t of Some v \<Rightarrow> (if is_object v then Inr v else bad) | None \<Rightarrow> bad)"

definition parseReplayPayload :: "json_text option \<Rightarrow> jserror + jsval" where
  "parseReplayPayload t =
     (let missing = Inl (permanentError
            ''Dead-letter replay payload is unavailable for this legacy record''
            ''DEAD_LETTER_REPLAY_PAYLOAD_UNAVAILABLE'' JUndef)
      in case t of None \<Rightarrow> missing
         | Some j \<Rightarrow> if j = RawText [] then missing else parseStoredJson j ''replay_payload_json'')"

fun dlq_text :: "dlq_status \<Rightarrow> string" where
  "dlq_text Open = ''open''"
| "dlq_text Replayed = ''replayed''"
| "dlq_text Resolved = ''resolved''"
| "dlq_text Discarded = ''discarded''"
| "dlq_text RedrivePending = ''redrive_pending''"
| "dlq_text Redriven = ''redriven''"

definition dlq_of_text :: "string \<Rightarrow> dlq_status option" where
  "dlq_of_text t = find (\<lambda>d. dlq_text d = t)
     [Open, Replayed, Resolved, Discarded, RedrivePending, Redriven]"

lemma dlq_of_text [simp]: "dlq_of_text (dlq_text d) = Some d"
  by (cases d) (simp_all add: dlq_of_text_def)

subsection \<open>Sync runs and system alerts\<close>

definition run_status_ok :: "string \<Rightarrow> bool" where
  "run_status_ok t \<longleftrightarrow>
     t \<in> {''pending'', ''running'', ''success'', ''partial_success'', ''failed'', ''skipped''}"

definition bindRun :: "jsval \<Rightarrow> int \<Rightarrow> jserror + run_row" where
  "bindRun e now =
     bind_res (rel_requireText (jget e ''syncId'') ''syncId'') (\<lambda>i.
     bind_res (nullableText (jget e ''customerProfile'')) (\<lambda>profile.
     bind_res (rel_requireText (jget e ''platform'') ''platform'') (\<lambda>platform.
     bind_res (nullableText (jget e ''accountKey'')) (\<lambda>account.
     bind_res (nullableText (jget e ''source'')) (\<lambda>source.
     bind_res (rel_requireText (jget e ''syncType'') ''syncType'') (\<lambda>ty.
     bind_res (rel_requireText (jget e ''status'') ''status'') (\<lambda>status.
     bind_res (nullableInteger (jget e ''startedAt'')) (\<lambda>started.
     bind_res (nullableInteger (jget e ''finishedAt'')) (\<lambda>finished.
     bind_res (rel_nonNegativeInteger (nullish (jget e ''recordsPulled'') (jint 0)) ''recordsPulled'') (\<lambda>pulled.
     bind_res (rel_nonNegativeInteger (nullish (jget e ''recordsCreated'') (jint 0)) ''recordsCreated'') (\<lambda>created.
     bind_res (rel_nonNegativeInteger (nullish (jget e ''recordsUpdated'') (jint 0)) ''recordsUpdated'') (\<lambda>updated.
     bind_res (rel_nonNegativeInteger (nullish (jget e ''recordsSkipped'') (jint 0)) ''recordsSkipped'') (\<lambda>skipped.
     bind_res (rel_nonNegativeInteger (nullish (jget e ''recordsWritten'') (jint 0)) ''recordsWritten'') (\<lambda>written.
     bind_res (rel_nonNegativeInteger (nullish (jget e ''retryCount'') (jint 0)) ''retryCount'') (\<lambda>retries.
     bind_res (nullableText (jget e ''errorCode'')) (\<lambda>code.
     bind_res (nullableOperationalText (jget e ''errorMessage'') (jget e ''errorCode'')) (\<lambda>msg.
     Inr \<lparr>sr_id = i, sr_customer_profile = profile, sr_platform = platform, sr_account_key = account,
          sr_source = source, sr_sync_type = ty, sr_status = status, sr_started_at = started,
          sr_finished_at = finished, sr_pulled = pulled, sr_created = created, sr_updated = updated,
          sr_skipped = skipped, sr_written = written, sr_retry_count = retries,
          sr_error_code = code, sr_error_message = msg,
          sr_details = safeJson (nullish (jget e ''details'') (JObj [])),
          sr_created_at = now, sr_updated_at = now\<rparr>)))))))))))))))))"

definition sql_put_run :: "run_row \<Rightarrow> d1 \<Rightarrow> string + d1" where
  "sql_put_run new s =
     (if \<not> run_status_ok (sr_status new) then Inl ''CHECK constraint failed: status''
      else Inr (snd (on_table sync_runs sync_runs_update
        (sql_upsert (\<lambda>r. sr_id r = sr_id new) (\<lambda>r. True)
           (\<lambda>r. new\<lparr>sr_created_at := sr_created_at r\<rparr>) new) s)))"

definition saveSyncRun :: "jsval \<Rightarrow> int \<Rightarrow> (d1, bool) eff" where
  "saveSyncRun entry now =
     catching (check (bindRun entry now) (\<lambda>row. andThen (batch (sql_put_run row)) (\<lambda>_. ret True)))
       (\<lambda>cause. throw (d1Error ''Failed to persist sync run'' ''D1_SYNC_RUN_WRITE_FAILED'' cause))"

definition bindAlert :: "jsval \<Rightarrow> int \<Rightarrow> jserror + alert_row" where
  "bindAlert a now =
     bind_res (rel_requireText (jget a ''alertId'') ''alertId'') (\<lambda>i.
     bind_res (nullableText (jget a ''syncRunId'')) (\<lambda>run.
     bind_res (rel_requireText (jget a ''alertType'') ''alertType'') (\<lambda>ty.
     bind_res (rel_requireText (jget a ''severity'') ''severity'') (\<lambda>severity.
     bind_res (rel_requireText (jget a ''platform'') ''platform'') (\<lambda>platform.
     bind_res (rel_requireText (jget a ''status'') ''status'') (\<lambda>status.
     bind_res (rel_requireText (JStr (sanitizeOperationalText (jget a ''message'')
       (jget a ''errorCode''))) ''message'') (\<lambda>msg.
     bind_res (nullableText (jget a ''errorCode'')) (\<lambda>code.
     bind_res (nullableInteger (jget a ''createdAt'')) (\<lambda>created.
     Inr \<lparr>al_id = i, al_sync_run_id = run, al_type = ty, al_severity = severity,
          al_platform = platform, al_status = status, al_message = msg, al_error_code = code,
          al_details = safeJson (nullish (jget a ''details'') (JObj [])),
          al_created_at = (case created of Some t \<Rightarrow> t | None \<Rightarrow> now), al_updated_at = now\<rparr>)))))))))"

text \<open>With the trigger that keeps a resolved alert resolved when it is written as open.\<close>

definition sql_put_alert :: "alert_row \<Rightarrow> d1 \<Rightarrow> string + d1" where
  "sql_put_alert new s =
     (if al_severity new \<notin> {''info'', ''warning'', ''critical''}
       \<or> al_status new \<notin> {''open'', ''acknowledged'', ''resolved''}
      then Inl ''CHECK constraint failed''
      else Inr (snd (on_table system_alerts system_alerts_update
        (sql_upsert (\<lambda>r. al_id r = al_id new) (\<lambda>r. True)
           (\<lambda>r. new\<lparr>al_created_at := al_created_at r,
                  al_status := (if al_status r = ''resolved'' \<and> al_status new = ''open''
                                then ''resolved'' else al_status new)\<rparr>) new) s)))"

definition saveSystemAlert :: "jsval \<Rightarrow> int \<Rightarrow> (d1, bool) eff" where
  "saveSystemAlert alert now =
     catching (check (bindAlert alert now) (\<lambda>row. andThen (batch (sql_put_alert row)) (\<lambda>_. ret True)))
       (\<lambda>cause. throw (d1Error ''Failed to persist system alert'' ''D1_SYSTEM_ALERT_WRITE_FAILED'' cause))"

record alert_view =
  av_alertId :: string
  av_syncRunId :: "string option"
  av_alertType :: string
  av_severity :: string
  av_platform :: string
  av_status :: string
  av_message :: string
  av_errorCode :: "string option"
  av_createdAt :: "int option"

definition freezeAlert :: "alert_row \<Rightarrow> jserror + alert_view" where
  "freezeAlert r =
     bind_res (rel_requireText (JStr (al_id r)) ''alert_id'') (\<lambda>i.
     bind_res (nullableText (jopt (al_sync_run_id r))) (\<lambda>run.
     bind_res (rel_requireText (JStr (al_type r)) ''alert_type'') (\<lambda>ty.
     bind_res (rel_requireText (JStr (al_severity r)) ''severity'') (\<lambda>severity.
     bind_res (rel_requireText (JStr (al_platform r)) ''platform'') (\<lambda>platform.
     bind_res (rel_requireText (JStr (al_status r)) ''status'') (\<lambda>status.
     bind_res (rel_requireText (JStr (al_message r)) ''message'') (\<lambda>msg.
     bind_res (nullableText (jopt (al_error_code r))) (\<lambda>code.
     bind_res (nullableInteger (jint (al_created_at r))) (\<lambda>created.
     Inr \<lparr>av_alertId = i, av_syncRunId = run, av_alertType = ty, av_severity = severity,
          av_platform = platform, av_status = status, av_message = msg, av_errorCode = code,
          av_createdAt = created\<rparr>)))))))))"

definition readSystemAlertForMirror :: "jsval \<Rightarrow> (d1, alert_view) eff" where
  "readSystemAlertForMirror alertId =
     check (rel_requireText alertId ''alertId'') (\<lambda>i.
     catching
       (andThen (query (\<lambda>s. row_at al_id i (system_alerts s))) (\<lambda>row. case row of
            None \<Rightarrow> throw (plain_error ''Persisted system alert was not found after write'')
          | Some r \<Rightarrow> check (freezeAlert r) ret))
       (\<lambda>cause. throw (d1Error ''Failed to read persisted system alert for mirror''
                        ''D1_SYSTEM_ALERT_MIRROR_READ_FAILED'' cause)))"

subsection \<open>Dead letters\<close>

record redrive_view =
  rd_dlqId :: string
  rd_originalMessageId :: "string option"
  rd_queueName :: "string option"
  rd_jobType :: "string option"
  rd_schemaVersion :: "int option"
  rd_payload :: jsval
  rd_errorCode :: "string option"
  rd_retryCount :: int
  rd_status :: string
  rd_requestedAt :: "int option"
  rd_reference :: "string option"
  rd_redrivenAt :: "int option"

definition bindDeadLetter :: "jsval \<Rightarrow> int \<Rightarrow> jserror + (dlq_status option \<times> dlq_row)" where
  "bindDeadLetter d now =
     bind_res (rel_requireText (jget d ''dlqId'') ''dlqId'') (\<lambda>i.
     bind_res (nullableText (jget d ''messageId'')) (\<lambda>message.
     bind_res (nullableText (jget d ''queueName'')) (\<lambda>queue.
     bind_res (nullableText (jget d ''jobType'')) (\<lambda>job.
     bind_res (nullableInteger (jget d ''schemaVersion'')) (\<lambda>version.
     bind_res (nullableText (jget d ''errorCode'')) (\<lambda>code.
     bind_res (nullableOperationalText (jget d ''errorMessage'') (jget d ''errorCode'')) (\<lambda>msg.
     bind_res (rel_nonNegativeInteger (nullish (jget d ''retryCount'') (jint 0)) ''retryCount'') (\<lambda>retries.
     bind_res (rel_requireText (nullish (jget d ''status'') (JStr ''open'')) ''status'') (\<lambda>status.
     bind_res (nullableInteger (jget d ''createdAt'')) (\<lambda>created.
     let payload = nullish (jget d ''payload'') (JObj []) in
     Inr (dlq_of_text status,
          \<lparr>dl_id = i, dl_message_id = message, dl_queue_name = queue, dl_job_type = job,
           dl_schema_version = version, dl_payload = safeJson payload,
           dl_replay_payload = safeReplayJson payload, dl_error_code = code,
           dl_error_message = msg, dl_retry_count = retries,
           dl_status = (case dlq_of_text status of Some x \<Rightarrow> x | None \<Rightarrow> Open),
           dl_created_at = (case created of Some t \<Rightarrow> t | None \<Rightarrow> now), dl_updated_at = now,
           dl_redrive_requested_at = None, dl_redrive_reference = None,
           dl_redriven_at = None\<rparr>)))))))))))"

definition in_redrive :: "dlq_row \<Rightarrow> bool" where
  "in_redrive r \<longleftrightarrow> dl_status r \<in> {RedrivePending, Redriven}"

definition sql_put_dead_letter :: "dlq_status option \<Rightarrow> dlq_row \<Rightarrow> d1 \<Rightarrow> string + d1" where
  "sql_put_dead_letter status new s = (case status of
       None \<Rightarrow> Inl ''CHECK constraint failed: status''
     | Some st \<Rightarrow> Inr (snd (on_table dead_letter_jobs dead_letter_jobs_update
        (sql_upsert (\<lambda>r. dl_id r = dl_id new) (\<lambda>r. True)
           (\<lambda>r. r\<lparr>dl_message_id := dl_message_id new, dl_queue_name := dl_queue_name new,
                 dl_job_type := dl_job_type new, dl_schema_version := dl_schema_version new,
                 dl_payload := dl_payload new,
                 dl_replay_payload := (if in_redrive r then dl_replay_payload r
                                       else dl_replay_payload new),
                 dl_error_code := dl_error_code new, dl_error_message := dl_error_message new,
                 dl_retry_count := dl_retry_count new,
                 dl_status := (if in_redrive r then dl_status r else st),
                 dl_updated_at := dl_updated_at new\<rparr>) new) s)))"

definition saveDeadLetter :: "jsval \<Rightarrow> int \<Rightarrow> (d1, bool) eff" where
  "saveDeadLetter deadLetter now =
     catching
       (check (bindDeadLetter deadLetter now) (\<lambda>(status, row).
          andThen (batch (sql_put_dead_letter status row)) (\<lambda>_. ret True)))
       (\<lambda>cause. throw (d1Error ''Failed to persist dead letter'' ''D1_DEAD_LETTER_WRITE_FAILED'' cause))"

definition assertDeadLetterRedriveEligibility :: "dlq_row option \<Rightarrow> string \<Rightarrow> jserror + dlq_row" where
  "assertDeadLetterRedriveEligibility row dlqId = (case row of
       None \<Rightarrow> Inl (permanentError ''Dead-letter job was not found'' ''DEAD_LETTER_NOT_FOUND''
                 (JObj [(''dlqId'', JStr dlqId)]))
     | Some r \<Rightarrow>
         if dl_status r \<notin> {Open, RedrivePending, Redriven}
         then Inl (permanentError ''Dead-letter job is not eligible for redrive''
                ''DEAD_LETTER_NOT_REDRIVABLE''
                (JObj [(''dlqId'', JStr dlqId), (''status'', JStr (dlq_text (dl_status r)))]))
         else Inr r)"

definition freezeDeadLetterRedriveCandidate :: "dlq_row \<Rightarrow> jserror + redrive_view" where
  "freezeDeadLetterRedriveCandidate r =
     bind_res (rel_requireText (JStr (dl_id r)) ''dlq_id'') (\<lambda>i.
     bind_res (nullableText (jopt (dl_message_id r))) (\<lambda>message.
     bind_res (nullableText (jopt (dl_queue_name r))) (\<lambda>queue.
     bind_res (nullableText (jopt (dl_job_type r))) (\<lambda>job.
     bind_res (nullableInteger (jopt_int (dl_schema_version r))) (\<lambda>version.
     bind_res (parseReplayPayload (dl_replay_payload r)) (\<lambda>payload.
     bind_res (nullableText (jopt (dl_error_code r))) (\<lambda>code.
     bind_res (rel_nonNegativeInteger (jint (dl_retry_count r)) ''retryCount'') (\<lambda>retries.
     bind_res (nullableInteger (jopt_int (dl_redrive_requested_at r))) (\<lambda>requested.
     bind_res (nullableText (jopt (dl_redrive_reference r))) (\<lambda>reference.
     bind_res (nullableInteger (jopt_int (dl_redriven_at r))) (\<lambda>redriven.
     Inr \<lparr>rd_dlqId = i, rd_originalMessageId = message, rd_queueName = queue, rd_jobType = job,
          rd_schemaVersion = version, rd_payload = payload, rd_errorCode = code,
          rd_retryCount = retries, rd_status = dlq_text (dl_status r), rd_requestedAt = requested,
          rd_reference = reference, rd_redrivenAt = redriven\<rparr>)))))))))))"

definition freezeDeadLetterRedriveRow :: "dlq_row \<Rightarrow> jserror + redrive_view" where
  "freezeDeadLetterRedriveRow r =
     bind_res (nullableInteger (jopt_int (dl_redrive_requested_at r))) (\<lambda>requested.
     if requested = None
     then Inl (permanentError ''Dead-letter redrive generation is missing''
            ''DEAD_LETTER_REDRIVE_STATE_INVALID'' JUndef)
     else
     bind_res (freezeDeadLetterRedriveCandidate (r\<lparr>dl_redrive_reference := None\<rparr>)) (\<lambda>v.
     bind_res (rel_requireText (jopt (dl_redrive_reference r)) ''redrive_reference'') (\<lambda>reference.
     Inr (v\<lparr>rd_reference := Some reference\<rparr>))))"

definition find_dead_letter :: "string \<Rightarrow> (d1, dlq_row option) eff" where
  "find_dead_letter i = query (\<lambda>s. row_at dl_id i (dead_letter_jobs s))"

definition readDeadLetterRedriveCandidate :: "jsval \<Rightarrow> (d1, redrive_view) eff" where
  "readDeadLetterRedriveCandidate input =
     check (rel_requireText (jget input ''dlqId'') ''dlqId'') (\<lambda>dlqId.
     catching
       (andThen (find_dead_letter dlqId) (\<lambda>existing.
          check (assertDeadLetterRedriveEligibility existing dlqId) (\<lambda>r.
          check (freezeDeadLetterRedriveCandidate r) ret)))
       (\<lambda>cause. if has_code cause [''DEAD_LETTER_NOT_FOUND'', ''DEAD_LETTER_NOT_REDRIVABLE'',
            ''DEAD_LETTER_REPLAY_PAYLOAD_UNAVAILABLE'', ''DEAD_LETTER_PAYLOAD_INVALID'']
          then throw cause
          else throw (d1Error ''Failed to read dead-letter redrive candidate''
                        ''D1_DEAD_LETTER_REDRIVE_READ_FAILED'' cause)))"

definition sql_prepare_redrive :: "string \<Rightarrow> int \<Rightarrow> string \<Rightarrow> int \<Rightarrow> d1 \<Rightarrow> nat \<times> d1" where
  "sql_prepare_redrive dlqId requestedAt reference now =
     on_table dead_letter_jobs dead_letter_jobs_update
       (sql_update (\<lambda>r. dl_id r = dlqId \<and> dl_status r \<in> {Open, RedrivePending})
          (\<lambda>r. r\<lparr>dl_status := RedrivePending,
                dl_redrive_requested_at := coalesce (dl_redrive_requested_at r) (Some requestedAt),
                dl_redrive_reference := coalesce (dl_redrive_reference r) (Some reference),
                dl_updated_at := now\<rparr>))"

definition prepare_from ::
    "string \<Rightarrow> int \<Rightarrow> string \<Rightarrow> string list \<Rightarrow> int \<Rightarrow> dlq_row \<Rightarrow> (d1, redrive_view) eff" where
  "prepare_from dlqId requestedAt reference forbidden now existing =
     check (parseReplayPayload (dl_replay_payload existing)) (\<lambda>payload.
     check (nullableText (jopt (dl_job_type existing))) (\<lambda>persistedJobType.
     check (nullableText (jget payload ''type'')) (\<lambda>replayJobType.
     if (case persistedJobType of Some t \<Rightarrow> t \<in> set forbidden | None \<Rightarrow> False)
       \<or> (case replayJobType of Some t \<Rightarrow> t \<in> set forbidden | None \<Rightarrow> False)
     then throw (permanentError ''A dead-letter redrive command cannot redrive itself''
            ''DEAD_LETTER_REDRIVE_RECURSION_BLOCKED'' (JObj [(''dlqId'', JStr dlqId)]))
     else if dl_status existing = Redriven
     then check (freezeDeadLetterRedriveRow existing) ret
     else
       andThen (run_sql (sql_prepare_redrive dlqId requestedAt reference now)) (\<lambda>_.
       andThen (find_dead_letter dlqId) (\<lambda>prepared.
       if (case prepared of None \<Rightarrow> True | Some r \<Rightarrow> \<not> in_redrive r)
       then throw (permanentError ''Dead-letter job is not eligible for redrive''
              ''DEAD_LETTER_NOT_REDRIVABLE''
              (JObj [(''dlqId'', JStr dlqId), (''status'',
                 case prepared of None \<Rightarrow> JNull | Some r \<Rightarrow> JStr (dlq_text (dl_status r)))]))
       else check (freezeDeadLetterRedriveRow (the prepared)) ret)))))"

definition prepareDeadLetterRedrive :: "jsval \<Rightarrow> int \<Rightarrow> (d1, redrive_view) eff" where
  "prepareDeadLetterRedrive input now =
     check (rel_requireText (jget input ''dlqId'') ''dlqId'') (\<lambda>dlqId.
     check (nullableInteger (jget input ''requestedAt'')) (\<lambda>req.
     let requestedAt = (case req of Some t \<Rightarrow> t | None \<Rightarrow> now) in
     check (rel_requireText (nullish (jget input ''redriveReference'')
       (JStr (''redrive:'' @ dlqId @ '':'' @ int_text requestedAt))) ''redriveReference'') (\<lambda>reference.
     check (requireTextList (nullish (jget input ''forbiddenJobTypes'') (JArr []))
       ''forbiddenJobTypes'') (\<lambda>forbidden.
     catching
       (andThen (find_dead_letter dlqId) (\<lambda>existing.
          check (assertDeadLetterRedriveEligibility existing dlqId)
            (prepare_from dlqId requestedAt reference forbidden now)))
       (\<lambda>cause. if has_code cause [''DEAD_LETTER_NOT_FOUND'', ''DEAD_LETTER_NOT_REDRIVABLE'',
            ''DEAD_LETTER_REPLAY_PAYLOAD_UNAVAILABLE'', ''DEAD_LETTER_PAYLOAD_INVALID'',
            ''DEAD_LETTER_REDRIVE_STATE_INVALID'', ''DEAD_LETTER_REDRIVE_RECURSION_BLOCKED'']
          then throw cause
          else throw (d1Error ''Failed to prepare dead-letter redrive''
                        ''D1_DEAD_LETTER_REDRIVE_PREPARE_FAILED'' cause))))))"

definition sql_mark_redriven :: "string \<Rightarrow> int \<Rightarrow> int \<Rightarrow> d1 \<Rightarrow> nat \<times> d1" where
  "sql_mark_redriven dlqId redrivenAt now =
     on_table dead_letter_jobs dead_letter_jobs_update
       (sql_update (\<lambda>r. dl_id r = dlqId \<and> dl_status r \<in> {RedrivePending, Redriven})
          (\<lambda>r. r\<lparr>dl_status := Redriven,
                dl_redriven_at := coalesce (dl_redriven_at r) (Some redrivenAt),
                dl_updated_at := now\<rparr>))"

definition markDeadLetterRedriven :: "jsval \<Rightarrow> int \<Rightarrow> (d1, bool) eff" where
  "markDeadLetterRedriven input now =
     check (rel_requireText (jget input ''dlqId'') ''dlqId'') (\<lambda>dlqId.
     check (nullableInteger (jget input ''redrivenAt'')) (\<lambda>at.
     catching
       (andThen (run_sql (sql_mark_redriven dlqId (case at of Some t \<Rightarrow> t | None \<Rightarrow> now) now)) (\<lambda>changes.
          if changes = 0
          then throw (permanentError ''Dead-letter redrive state was not prepared''
                 ''DEAD_LETTER_NOT_REDRIVABLE'' (JObj [(''dlqId'', JStr dlqId)]))
          else ret True))
       (\<lambda>cause. if has_code cause [''DEAD_LETTER_NOT_REDRIVABLE''] then throw cause
          else throw (d1Error ''Failed to complete dead-letter redrive''
                        ''D1_DEAD_LETTER_REDRIVE_COMPLETE_FAILED'' cause))))"

end
