(* ===== verification/Dead_Letters.thy ===== *)
theory Dead_Letters
  imports Reliability_Store
begin

text \<open>
  The dead-letter protocol of the operational store. Once a redrive generation is prepared, its
  requested time, its reference and its replay payload are fixed: later deliveries of the same dead
  letter, retried preparations and marks do not change them, whatever faults the statements meet.
  Stored payloads hold no secret, and a resolved alert is not reopened.
\<close>

datatype dlq_op = SaveDeadLetter jsval int | PrepareRedrive jsval int | MarkRedriven jsval int

fun dlq_apply :: "dlq_op \<Rightarrow> d1 \<Rightarrow> d1" where
  "dlq_apply (SaveDeadLetter i t) s = snd (saveDeadLetter i t s)"
| "dlq_apply (PrepareRedrive i t) s = snd (prepareDeadLetterRedrive i t s)"
| "dlq_apply (MarkRedriven i t) s = snd (markDeadLetterRedriven i t s)"

definition redrive_fixed :: "string \<Rightarrow> int \<Rightarrow> string \<Rightarrow> json_text option \<Rightarrow> d1 \<Rightarrow> bool" where
  "redrive_fixed i g ref p s \<longleftrightarrow> (case row_at dl_id i (dead_letter_jobs s) of
     None \<Rightarrow> False
   | Some r \<Rightarrow> in_redrive r \<and> dl_redrive_requested_at r = Some g
       \<and> dl_redrive_reference r = Some ref \<and> dl_replay_payload r = p)"

definition redriven :: "string \<Rightarrow> d1 \<Rightarrow> bool" where
  "redriven i s \<longleftrightarrow> (case row_at dl_id i (dead_letter_jobs s) of
     None \<Rightarrow> False | Some r \<Rightarrow> dl_status r = Redriven)"

lemma redrive_blind [simp]:
  "fault_blind (keeping (redrive_fixed i g ref p))" "fault_blind (keeping (redriven i))"
  by (simp_all add: fault_blind_def keeping_def redrive_fixed_def redriven_def)

lemma put_dead_letter_keeps:
  assumes "sql_put_dead_letter st new s = Inr t"
  shows "keeping (redrive_fixed i g ref p) s t" "keeping (redriven i) s t"
proof -
  let ?f = "\<lambda>st' r. r\<lparr>dl_message_id := dl_message_id new, dl_queue_name := dl_queue_name new,
                 dl_job_type := dl_job_type new, dl_schema_version := dl_schema_version new,
                 dl_payload := dl_payload new,
                 dl_replay_payload := (if in_redrive r then dl_replay_payload r
                                       else dl_replay_payload new),
                 dl_error_code := dl_error_code new, dl_error_message := dl_error_message new,
                 dl_retry_count := dl_retry_count new,
                 dl_status := (if in_redrive r then dl_status r else st'),
                 dl_updated_at := dl_updated_at new\<rparr>"
  obtain st' where t: "dead_letter_jobs t = snd (sql_upsert (\<lambda>r. dl_id r = dl_id new) (\<lambda>r. True)
      (?f st') new (dead_letter_jobs s))"
    using assms by (auto simp: sql_put_dead_letter_def split: option.splits)
  have row: "row_at dl_id i (dead_letter_jobs t) = (if i = dl_id new
      then (case row_at dl_id i (dead_letter_jobs s) of Some r \<Rightarrow> Some (?f st' r) | None \<Rightarrow> Some new)
      else row_at dl_id i (dead_letter_jobs s))"
    unfolding t by (subst row_at_upsert) (auto split: option.split)
  show "keeping (redrive_fixed i g ref p) s t"
    unfolding keeping_def redrive_fixed_def row
    by (auto simp: in_redrive_def split: option.splits if_splits)
  show "keeping (redriven i) s t"
    unfolding keeping_def redriven_def row
    by (auto simp: in_redrive_def split: option.splits if_splits)
qed

lemma prepare_sql_keeps:
  "keeping (redrive_fixed i g ref p) s (snd (sql_prepare_redrive j q rf now s))"
  "keeping (redriven i) s (snd (sql_prepare_redrive j q rf now s))"
  by (auto simp: keeping_def redrive_fixed_def redriven_def sql_prepare_redrive_def row_at_update
      in_redrive_def split: option.splits)

lemma mark_sql_keeps:
  "keeping (redrive_fixed i g ref p) s (snd (sql_mark_redriven j q now s))"
  "keeping (redriven i) s (snd (sql_mark_redriven j q now s))"
  by (auto simp: keeping_def redrive_fixed_def redriven_def sql_mark_redriven_def row_at_update
      in_redrive_def split: option.splits)

lemma save_dead_letter_keeps:
  "evolves (keeping (redrive_fixed i g ref p)) (saveDeadLetter d now)"
  "evolves (keeping (redriven i)) (saveDeadLetter d now)"
  unfolding saveDeadLetter_def
  by (intro evolves_intro put_dead_letter_keeps; simp)+

lemma prepare_keeps:
  "evolves (keeping (redrive_fixed i g ref p)) (prepareDeadLetterRedrive d now)"
  "evolves (keeping (redriven i)) (prepareDeadLetterRedrive d now)"
  unfolding prepareDeadLetterRedrive_def prepare_from_def find_dead_letter_def
  by (intro evolves_intro prepare_sql_keeps; simp)+

lemma mark_keeps:
  "evolves (keeping (redrive_fixed i g ref p)) (markDeadLetterRedriven d now)"
  "evolves (keeping (redriven i)) (markDeadLetterRedriven d now)"
  unfolding markDeadLetterRedriven_def by (intro evolves_intro mark_sql_keeps; simp)+

lemma dlq_op_keeps:
  "keeping (redrive_fixed i g ref p) s (dlq_apply x s)" "keeping (redriven i) s (dlq_apply x s)"
  using save_dead_letter_keeps prepare_keeps mark_keeps by (cases x; simp add: evolves_def)+

lemma keeping_fold: "(\<And>x s. keeping P s (f x s)) \<Longrightarrow> P s \<Longrightarrow> P (fold f xs s)"
  by (induction xs arbitrary: s) (simp_all add: keeping_def)

lemma dlq_run_keeps:
  "redrive_fixed i g ref p s \<Longrightarrow> redrive_fixed i g ref p (fold dlq_apply xs s)"
  "redriven i s \<Longrightarrow> redriven i (fold dlq_apply xs s)"
  by (rule keeping_fold [OF dlq_op_keeps(1)], assumption)
    (rule keeping_fold [OF dlq_op_keeps(2)], assumption)

subsection \<open>What a preparation returns\<close>

lemma nullableInteger_opt: "nullableInteger (jopt_int x) = Inr y \<Longrightarrow> y = x"
  by (cases x) (auto simp: nullableInteger_def jopt_int_def is_absent_def bind_res_Inr_iff
      dest: safe_number_jintD)

lemma freeze_row_facts:
  assumes "freezeDeadLetterRedriveRow r = Inr v"
  shows "rd_requestedAt v = dl_redrive_requested_at r" "dl_redrive_requested_at r \<noteq> None"
    and "\<exists>ref. dl_redrive_reference r = Some ref \<and> rd_reference v = Some (trim ref)"
    and "parseReplayPayload (dl_replay_payload r) = Inr (rd_payload v)"
proof -
  obtain q v0 ref where q: "nullableInteger (jopt_int (dl_redrive_requested_at r)) = Inr q" "q \<noteq> None"
    and v0: "freezeDeadLetterRedriveCandidate (r\<lparr>dl_redrive_reference := None\<rparr>) = Inr v0"
    and ref: "rel_requireText (jopt (dl_redrive_reference r)) ''redrive_reference'' = Inr ref"
    and v: "v = v0\<lparr>rd_reference := Some ref\<rparr>"
    using assms by (auto simp: freezeDeadLetterRedriveRow_def bind_res_Inr_iff split: if_splits)
  have v0': "nullableInteger (jopt_int (dl_redrive_requested_at r)) = Inr (rd_requestedAt v0)"
    "parseReplayPayload (dl_replay_payload r) = Inr (rd_payload v0)"
    using v0 by (auto simp: freezeDeadLetterRedriveCandidate_def bind_res_Inr_iff)
  show "rd_requestedAt v = dl_redrive_requested_at r" "dl_redrive_requested_at r \<noteq> None"
    using nullableInteger_opt [OF v0'(1)] nullableInteger_opt [OF q(1)] q(2) v by simp_all
  show "parseReplayPayload (dl_replay_payload r) = Inr (rd_payload v)" using v0'(2) v by simp
  show "\<exists>ref. dl_redrive_reference r = Some ref \<and> rd_reference v = Some (trim ref)"
    using ref v by (auto simp: rel_requireText_def requireText_def jopt_def
        split: option.splits if_splits)
qed

lemma prepare_reply:
  assumes "prepareDeadLetterRedrive input now s = (Inr v, t)"
  obtains i r where "rel_requireText (jget input ''dlqId'') ''dlqId'' = Inr i"
    "row_at dl_id i (dead_letter_jobs t) = Some r" "in_redrive r" "freezeDeadLetterRedriveRow r = Inr v"
proof -
  obtain i q rf fb where i: "rel_requireText (jget input ''dlqId'') ''dlqId'' = Inr i"
    and run: "andThen (find_dead_letter i) (\<lambda>existing.
          check (assertDeadLetterRedriveEligibility existing i)
            (prepare_from i q rf fb now)) s = (Inr v, t)"
    using assms
    by (auto simp: prepareDeadLetterRedrive_def eff_simps Let_def split: sum.splits prod.splits if_splits)
  let ?s1 = "spend_fault s"
  obtain ex where ex: "row_at dl_id i (dead_letter_jobs ?s1) = Some ex"
    and pf: "prepare_from i q rf fb now ex ?s1 = (Inr v, t)"
    using run by (auto simp: find_dead_letter_def eff_simps query_eq assertDeadLetterRedriveEligibility_def
        split: sum.splits fault.splits option.splits if_splits)
  show ?thesis
  proof (cases "dl_status ex = Redriven")
    case True
    then have "t = ?s1 \<and> freezeDeadLetterRedriveRow ex = Inr v"
      using pf by (auto simp: prepare_from_def eff_simps split: sum.splits if_splits)
    then show ?thesis using that [OF i] ex True by (simp add: in_redrive_def)
  next
    case False
    then obtain n s2 where s2: "run_sql (sql_prepare_redrive i q rf now) ?s1 = (Inr n, s2)"
      and rest: "andThen (find_dead_letter i) (\<lambda>prepared.
         if (case prepared of None \<Rightarrow> True | Some r \<Rightarrow> \<not> in_redrive r)
         then throw (permanentError ''Dead-letter job is not eligible for redrive''
                ''DEAD_LETTER_NOT_REDRIVABLE''
                (JObj [(''dlqId'', JStr i), (''status'',
                   case prepared of None \<Rightarrow> JNull | Some r \<Rightarrow> JStr (dlq_text (dl_status r)))]))
         else check (freezeDeadLetterRedriveRow (the prepared)) ret) s2 = (Inr v, t)"
      using pf by (auto simp: prepare_from_def eff_simps split: sum.splits prod.splits if_splits)
    obtain r where "row_at dl_id i (dead_letter_jobs (spend_fault s2)) = Some r" "in_redrive r"
      "freezeDeadLetterRedriveRow r = Inr v" "t = spend_fault s2"
      using rest by (auto simp: find_dead_letter_def eff_simps query_eq
          split: sum.splits fault.splits option.splits if_splits)
    then show ?thesis using that [OF i] by simp
  qed
qed

lemma one_generation:
  assumes "prepareDeadLetterRedrive input now s = (Inr v, t)"
    and "prepareDeadLetterRedrive input' now' (fold dlq_apply xs t) = (Inr v', t')"
    and same: "jget input' ''dlqId'' = jget input ''dlqId''"
  shows "rd_requestedAt v' = rd_requestedAt v \<and> rd_reference v' = rd_reference v
    \<and> rd_payload v' = rd_payload v"
proof -
  obtain i r where i: "rel_requireText (jget input ''dlqId'') ''dlqId'' = Inr i"
    and r: "row_at dl_id i (dead_letter_jobs t) = Some r" "in_redrive r"
      "freezeDeadLetterRedriveRow r = Inr v"
    using prepare_reply [OF assms(1)] by metis
  obtain i' r' where i': "rel_requireText (jget input' ''dlqId'') ''dlqId'' = Inr i'"
    and r': "row_at dl_id i' (dead_letter_jobs t') = Some r'"
      "freezeDeadLetterRedriveRow r' = Inr v'"
    using prepare_reply [OF assms(2)] by metis
  have eq: "i' = i" using i i' same by simp
  obtain g where g: "dl_redrive_requested_at r = Some g"
    using freeze_row_facts(2) [OF r(3)] by blast
  obtain ref where ref: "dl_redrive_reference r = Some ref" "rd_reference v = Some (trim ref)"
    using freeze_row_facts(3) [OF r(3)] by blast
  have "redrive_fixed i g ref (dl_replay_payload r) t"
    using r(1,2) g ref(1) by (simp add: redrive_fixed_def)
  then have "redrive_fixed i g ref (dl_replay_payload r) (fold dlq_apply xs t)"
    by (rule dlq_run_keeps)
  then have "redrive_fixed i g ref (dl_replay_payload r) t'"
    using evolvesD [OF prepare_keeps(1) assms(2)] by (simp add: keeping_def)
  then have "dl_redrive_requested_at r' = Some g" "dl_redrive_reference r' = Some ref"
    "dl_replay_payload r' = dl_replay_payload r"
    using r'(1) eq by (auto simp: redrive_fixed_def)
  then show ?thesis
    using freeze_row_facts [OF r'(2)] freeze_row_facts [OF r(3)] ref g by auto
qed

subsection \<open>Stored payloads hold no secret\<close>

definition json_free_of :: "(string \<Rightarrow> bool) \<Rightarrow> json_text \<Rightarrow> bool" where
  "json_free_of bad t \<longleftrightarrow> (case t of JsonText v \<Rightarrow> keys_redacted (\<lambda>k v. bad k) v | RawText _ \<Rightarrow> True)"

lemma keys_redacted_norm: "keys_redacted (\<lambda>k v. bad k) v \<Longrightarrow> keys_redacted (\<lambda>k v. bad k) (json_norm v)"
proof (induction v rule: json_norm.induct)
  case (5 kvs)
  have "if bad k then json_norm v = JStr OPERATIONAL_REDACTION \<or> json_norm v = JNull
        else keys_redacted (\<lambda>k v. bad k) (json_norm v)"
    if "(k, v) \<in> set kvs" "v \<noteq> JUndef" for k v
    using 5 that by (cases "bad k") (force simp: list_all_iff)+
  then show ?case by (fastforce simp: list_all_iff split: if_splits)
qed (auto simp: list_all_iff)

lemma safeJson_free: "json_free_of is_secret_key (safeJson v)"
proof -
  have a: "\<not> is_secret_key ''truncated''" "\<not> is_secret_key ''preview''" by code_simp+
  show ?thesis
    using keys_redacted_norm [OF keys_redacted_sanitizeValue [of v]] a
    by (simp add: json_free_of_def safeJson_def Let_def sanitizeOperationalValue_def)
qed

lemma safeReplayJson_free:
  "safeReplayJson v = Some t \<Longrightarrow> json_free_of isQueueReplaySecretKey t"
  using keys_redacted_norm [OF keys_redacted_sanitizeReplay [of v]]
  by (auto simp: json_free_of_def safeReplayJson_def Let_def sanitizeQueueReplayValue_def
      split: if_splits)

definition dead_letters_clean :: "d1 \<Rightarrow> bool" where
  "dead_letters_clean s \<longleftrightarrow> list_all (\<lambda>r. json_free_of is_secret_key (dl_payload r)
     \<and> (case dl_replay_payload r of None \<Rightarrow> True | Some t \<Rightarrow> json_free_of isQueueReplaySecretKey t))
     (dead_letter_jobs s)"

lemma clean_blind [simp]: "fault_blind (keeping dead_letters_clean)"
  by (simp add: fault_blind_def keeping_def dead_letters_clean_def)

lemma bind_dead_letter_clean:
  assumes "bindDeadLetter d now = Inr (st, row)"
  shows "json_free_of is_secret_key (dl_payload row)"
    and "case dl_replay_payload row of None \<Rightarrow> True | Some t \<Rightarrow> json_free_of isQueueReplaySecretKey t"
  using assms safeJson_free safeReplayJson_free
  by (auto simp: bindDeadLetter_def bind_res_Inr_iff Let_def split: option.split)

lemma put_dead_letter_clean:
  assumes "bindDeadLetter d now = Inr (st, row)" "sql_put_dead_letter st row s = Inr t"
  shows "keeping dead_letters_clean s t"
  using assms(2) bind_dead_letter_clean [OF assms(1)]
  by (auto simp: keeping_def dead_letters_clean_def sql_put_dead_letter_def sql_upsert_def
      sql_update_def list_all_iff split: option.splits if_splits)

lemma save_dead_letter_clean: "evolves (keeping dead_letters_clean) (saveDeadLetter d now)"
  unfolding saveDeadLetter_def
  by (intro evolves_intro) (auto intro: put_dead_letter_clean)

lemma dlq_op_clean: "keeping dead_letters_clean s (dlq_apply x s)"
proof (cases x)
  case (SaveDeadLetter i t)
  then show ?thesis using save_dead_letter_clean by (simp add: evolves_def)
next
  case (PrepareRedrive i t)
  have "evolves (keeping dead_letters_clean) (prepareDeadLetterRedrive i t)"
    unfolding prepareDeadLetterRedrive_def prepare_from_def find_dead_letter_def
    by (intro evolves_intro)
      (auto simp: keeping_def dead_letters_clean_def sql_prepare_redrive_def sql_update_def list_all_iff)
  then show ?thesis using PrepareRedrive by (simp add: evolves_def)
next
  case (MarkRedriven i t)
  have "evolves (keeping dead_letters_clean) (markDeadLetterRedriven i t)"
    unfolding markDeadLetterRedriven_def
    by (intro evolves_intro)
      (auto simp: keeping_def dead_letters_clean_def sql_mark_redriven_def sql_update_def list_all_iff)
  then show ?thesis using MarkRedriven by (simp add: evolves_def)
qed

lemma dlq_run_clean: "dead_letters_clean s \<Longrightarrow> dead_letters_clean (fold dlq_apply xs s)"
  by (rule keeping_fold [OF dlq_op_clean])

subsection \<open>Resolved alerts\<close>

definition alert_status :: "string \<Rightarrow> d1 \<Rightarrow> string option" where
  "alert_status i s = map_option al_status (row_at al_id i (system_alerts s))"

lemma put_alert_status:
  assumes "sql_put_alert new s = Inr t"
  shows "alert_status i t = (if i = al_id new
     then Some (case alert_status i s of Some st \<Rightarrow>
            if st = ''resolved'' \<and> al_status new = ''open'' then ''resolved'' else al_status new
          | None \<Rightarrow> al_status new)
     else alert_status i s)"
proof -
  have t: "system_alerts t = snd (sql_upsert (\<lambda>r. al_id r = al_id new) (\<lambda>r. True)
     (\<lambda>r. new\<lparr>al_created_at := al_created_at r,
            al_status := (if al_status r = ''resolved'' \<and> al_status new = ''open''
                          then ''resolved'' else al_status new)\<rparr>) new (system_alerts s))"
    using assms by (auto simp: sql_put_alert_def split: if_splits)
  show ?thesis unfolding alert_status_def t
    by (subst row_at_upsert) (auto split: option.split)
qed

lemma open_alert_keeps_resolved:
  assumes "jget alert ''status'' = JStr ''open''"
  shows "evolves (keeping (\<lambda>s. alert_status i s = Some ''resolved'')) (saveSystemAlert alert now)"
proof -
  have st: "al_status row = ''open''" if "bindAlert alert now = Inr row" for row
    using that assms
    by (auto simp: bindAlert_def bind_res_Inr_iff rel_requireText_def requireText_def trim_def
        is_space_def split: if_splits)
  have bl: "fault_blind (keeping (\<lambda>s. alert_status i s = Some ''resolved''))"
    by (simp add: fault_blind_def keeping_def alert_status_def)
  show ?thesis
    unfolding saveSystemAlert_def
    by (intro evolves_intro bl) (auto simp: keeping_def put_alert_status st)
qed

end
