(* ===== verification/Queue_Operations.thy ===== *)
theory Queue_Operations
  imports Reliability_Store
begin

text \<open>
  Queue-operation metadata and bounded automatic recovery (\<open>d1-queue-operation-store.js\<close>): the
  attempt counter of a stable queue operation, the metadata of a dead letter, and the protocol that
  revives one retry-exhausted work of the same generation (authorize, mark queued, complete). The
  single-incident TikTok bootstrap recovery of the same class is not modelled.
\<close>

subsection \<open>Helpers\<close>

definition qop_requireText :: "jsval \<Rightarrow> string \<Rightarrow> jserror + string" where
  "qop_requireText v f = requireText (''D1QueueOperationStore requires '' @ f) v"

definition qop_timestamp :: "jsval \<Rightarrow> string \<Rightarrow> jserror + int" where
  "qop_timestamp v f = safe_number (\<lambda>n. 0 \<le> n)
     (''D1QueueOperationStore '' @ f @ '' must be a non-negative safe integer'') v"

definition nullableTimestamp :: "jsval \<Rightarrow> jserror + int option" where
  "nullableTimestamp v = (if is_nullish v then Inr None
     else bind_res (qop_timestamp v ''timestamp'') (\<lambda>n. Inr (Some n)))"

definition qop_boundedPositiveInteger :: "jsval \<Rightarrow> string \<Rightarrow> int \<Rightarrow> jserror + int" where
  "qop_boundedPositiveInteger v f maximum = safe_number (\<lambda>n. 0 < n \<and> n \<le> maximum)
     (''D1QueueOperationStore '' @ f @ '' must be between 1 and '' @ int_text maximum) v"

definition nullableNumber :: "int option \<Rightarrow> int option" where
  "nullableNumber x = (case x of Some n \<Rightarrow> if is_safe n then Some n else None | None \<Rightarrow> None)"

definition optional_of :: "string option \<Rightarrow> string option" where
  "optional_of x = optionalText (jopt x)"

text \<open>\<open>reference LIKE 'auto-recovery:%'\<close>; \<open>LIKE\<close> ignores the case of ASCII letters.\<close>

definition like_auto_recovery :: "string option \<Rightarrow> bool" where
  "like_auto_recovery x \<longleftrightarrow>
     (case x of Some t \<Rightarrow> starts_with ''auto-recovery:'' (to_lower t) | None \<Rightarrow> False)"

definition max_of :: "int list \<Rightarrow> int option" where
  "max_of xs = (case xs of [] \<Rightarrow> None | x # ys \<Rightarrow> Some (fold max ys x))"

definition ceil_div :: "int \<Rightarrow> int \<Rightarrow> int" where
  "ceil_div a b = - ((- a) div b)"

subsection \<open>Attempts and metadata\<close>

record attempts_view =
  at_mainQueueAttempts :: int
  at_workKey :: "string option"
  at_tracked :: bool

definition readMainQueueAttempts :: "jsval \<Rightarrow> (d1, attempts_view) eff" where
  "readMainQueueAttempts input = (case optionalText (jget input ''operationId'') of
       None \<Rightarrow> ret \<lparr>at_mainQueueAttempts = 0, at_workKey = None, at_tracked = False\<rparr>
     | Some operationId \<Rightarrow>
         catching
           (andThen (query (\<lambda>s. row_at qa_operation_id operationId (queue_operation_attempts s))) (\<lambda>row.
              check (qop_timestamp (jint (case row of Some r \<Rightarrow> qa_attempts r | None \<Rightarrow> 0))
                ''main_queue_attempts'') (\<lambda>n.
              ret \<lparr>at_mainQueueAttempts = n,
                   at_workKey = (case row of Some r \<Rightarrow> optionalText (JStr (qa_work_key r)) | None \<Rightarrow> None),
                   at_tracked = (row \<noteq> None)\<rparr>)))
           (\<lambda>cause. throw (d1Error ''Failed to read main Queue attempts''
                            ''D1_QUEUE_OPERATION_ATTEMPT_READ_FAILED'' cause)))"

text \<open>The table also has a unique index on \<open>work_key\<close>.\<close>

definition sql_record_attempt :: "attempt_row \<Rightarrow> d1 \<Rightarrow> string + d1" where
  "sql_record_attempt new s =
     (if list_ex (\<lambda>r. qa_work_key r = qa_work_key new \<and> qa_operation_id r \<noteq> qa_operation_id new)
           (queue_operation_attempts s)
      then Inl ''UNIQUE constraint failed: queue_operation_attempts.work_key''
      else Inr (snd (on_table queue_operation_attempts queue_operation_attempts_update
        (sql_upsert (\<lambda>r. qa_operation_id r = qa_operation_id new)
           (\<lambda>r. qa_work_key r = qa_work_key new)
           (\<lambda>r. r\<lparr>qa_work_key := qa_work_key new,
                 qa_generation := coalesce (qa_generation r) (qa_generation new),
                 qa_requested_at := coalesce (qa_requested_at r) (qa_requested_at new),
                 qa_attempts := qa_attempts r + 1,
                 qa_last_message_id := qa_last_message_id new,
                 qa_updated_at := qa_updated_at new\<rparr>) new) s)))"

definition recordMainQueueAttempt :: "jsval \<Rightarrow> int \<Rightarrow> (d1, attempts_view) eff" where
  "recordMainQueueAttempt input clock =
     (case (optionalText (jget input ''operationId''), optionalText (jget input ''workKey'')) of
       (Some operationId, Some workKey) \<Rightarrow>
         check (qop_timestamp (jint clock) ''now'') (\<lambda>now.
         andThen
           (catching
             (check (nullableTimestamp (jget input ''generation'')) (\<lambda>generation.
              check (nullableTimestamp (jget input ''originalRequestedAt'')) (\<lambda>requested.
              batch (sql_record_attempt
                \<lparr>qa_operation_id = operationId, qa_work_key = workKey, qa_generation = generation,
                 qa_requested_at = requested, qa_attempts = 1,
                 qa_last_message_id = optionalText (jget input ''messageId''),
                 qa_created_at = now, qa_updated_at = now\<rparr>))))
             (\<lambda>cause. throw (d1Error ''Failed to persist main Queue attempt''
                              ''D1_QUEUE_OPERATION_ATTEMPT_WRITE_FAILED'' cause)))
           (\<lambda>_. readMainQueueAttempts (JObj [(''operationId'', JStr operationId)])))
     | _ \<Rightarrow> ret \<lparr>at_mainQueueAttempts = 0, at_workKey = None, at_tracked = False\<rparr>)"

text \<open>The row refers to its dead letter by a foreign key.\<close>

definition sql_put_metadata :: "meta_row \<Rightarrow> d1 \<Rightarrow> string + d1" where
  "sql_put_metadata new s =
     (if row_at dl_id (md_dlq_id new) (dead_letter_jobs s) = None
      then Inl ''FOREIGN KEY constraint failed''
      else Inr (snd (on_table dead_letter_operation_metadata dead_letter_operation_metadata_update
        (sql_upsert (\<lambda>r. md_dlq_id r = md_dlq_id new) (\<lambda>r. True)
           (\<lambda>r. r\<lparr>md_operation_id := coalesce (md_operation_id r) (md_operation_id new),
                 md_work_key := coalesce (md_work_key r) (md_work_key new),
                 md_generation := coalesce (md_generation r) (md_generation new),
                 md_requested_at := coalesce (md_requested_at r) (md_requested_at new),
                 md_main_attempts := max (md_main_attempts r) (md_main_attempts new),
                 md_dlq_attempts := max (md_dlq_attempts r) (md_dlq_attempts new),
                 md_updated_at := md_updated_at new\<rparr>) new) s)))"

definition saveDeadLetterMetadata :: "jsval \<Rightarrow> int \<Rightarrow> (d1, bool) eff" where
  "saveDeadLetterMetadata input clock =
     check (qop_requireText (jget input ''dlqId'') ''dlqId'') (\<lambda>dlqId.
     check (qop_timestamp (jint clock) ''now'') (\<lambda>now.
     catching
       (check (nullableTimestamp (jget input ''generation'')) (\<lambda>generation.
        check (nullableTimestamp (jget input ''originalRequestedAt'')) (\<lambda>requested.
        check (qop_timestamp (nullish (jget input ''mainQueueAttempts'') (jint 0)) ''mainQueueAttempts'')
          (\<lambda>main.
        check (qop_timestamp (nullish (jget input ''dlqDeliveryAttempts'') (jint 0))
          ''dlqDeliveryAttempts'') (\<lambda>deliveries.
        andThen (batch (sql_put_metadata
          \<lparr>md_dlq_id = dlqId, md_operation_id = optionalText (jget input ''operationId''),
           md_work_key = optionalText (jget input ''workKey''), md_generation = generation,
           md_requested_at = requested, md_main_attempts = main, md_dlq_attempts = deliveries,
           md_recovery_status = Some NotStarted, md_recovery_reference = None,
           md_recovery_started_at = None, md_recovery_completed_at = None, md_audit = None,
           md_created_at = now, md_updated_at = now\<rparr>)) (\<lambda>_. ret True))))))
       (\<lambda>cause. throw (d1Error ''Failed to persist dead-letter Queue metadata''
                        ''D1_DEAD_LETTER_METADATA_WRITE_FAILED'' cause))))"

subsection \<open>Automatic recovery\<close>

record auto_state =
  as_dlqId :: string
  as_jobType :: "string option"
  as_dlqStatus :: dlq_status
  as_errorCode :: "string option"
  as_operationId :: "string option"
  as_workKey :: "string option"
  as_metadataGeneration :: "int option"
  as_originalRequestedAt :: "int option"
  as_recoveryStatus :: "recovery_status option"
  as_recoveryReference :: "string option"
  as_workGeneration :: "int option"
  as_workRequestedAt :: "int option"
  as_lifecycle :: lifecycle
  as_terminalReason :: "string option"
  as_completedAt :: "int option"
  as_activeLockExpiresAt :: "int option"
  as_priorRecoveryStartedAt :: "int option"

text \<open>The rows that count against the budget of a work, the recovery at hand left out.\<close>

definition prior_recoveries :: "string option \<Rightarrow> string \<Rightarrow> d1 \<Rightarrow> meta_row list" where
  "prior_recoveries work dlqId s = filter (\<lambda>p. work \<noteq> None \<and> md_work_key p = work
     \<and> md_dlq_id p \<noteq> dlqId \<and> like_auto_recovery (md_recovery_reference p))
     (dead_letter_operation_metadata s)"

definition auto_view :: "int \<Rightarrow> d1 \<Rightarrow> dlq_row \<Rightarrow> meta_row \<Rightarrow> work_row \<Rightarrow> auto_state" where
  "auto_view now s d m w = \<lparr>as_dlqId = dl_id d, as_jobType = dl_job_type d, as_dlqStatus = dl_status d,
     as_errorCode = dl_error_code d, as_operationId = md_operation_id m, as_workKey = md_work_key m,
     as_metadataGeneration = nullableNumber (md_generation m),
     as_originalRequestedAt = nullableNumber (md_requested_at m),
     as_recoveryStatus = md_recovery_status m,
     as_recoveryReference = optional_of (md_recovery_reference m),
     as_workGeneration = nullableNumber (Some (wk_generation w)),
     as_workRequestedAt = nullableNumber (Some (wk_requested_at w)),
     as_lifecycle = wk_lifecycle w, as_terminalReason = wk_terminal_reason w,
     as_completedAt = nullableNumber (wk_completed_at w),
     as_activeLockExpiresAt = nullableNumber (max_of (map lk_expires_at
       (filter (\<lambda>l. lk_key l = wk_cursor_key w \<and> now < lk_expires_at l) (sync_locks s)))),
     as_priorRecoveryStartedAt = nullableNumber (max_of (List.map_filter md_recovery_started_at
       (prior_recoveries (md_work_key m) (md_dlq_id m) s)))\<rparr>"

definition read_auto_state :: "string \<Rightarrow> int \<Rightarrow> d1 \<Rightarrow> auto_state option" where
  "read_auto_state dlqId now s =
     (case (row_at dl_id dlqId (dead_letter_jobs s), row_at md_dlq_id dlqId (dead_letter_operation_metadata s)) of
        (Some d, Some m) \<Rightarrow>
          (case md_work_key m of
             None \<Rightarrow> None
           | Some k \<Rightarrow> map_option (auto_view now s d m) (row_at wk_key k (sync_work_runs s)))
      | _ \<Rightarrow> None)"

record auto_request =
  aq_dlqId :: string
  aq_operationId :: string
  aq_workKey :: string
  aq_generation :: int
  aq_requestedAt :: int
  aq_jobType :: string
  aq_reference :: string
  aq_maxRecoveries :: int
  aq_cooldownSeconds :: int

definition auto_error :: "auto_request \<Rightarrow> string \<Rightarrow> string \<Rightarrow> bool \<Rightarrow> jserror" where
  "auto_error q msg code with_work = permanentError msg code
     (JObj ((''dlqId'', JStr (aq_dlqId q)) #
        (if with_work then [(''workKey'', JStr (aq_workKey q))] else [])))"

definition assertSafeAutoRecoveryIdentity :: "auto_state option \<Rightarrow> auto_request \<Rightarrow> jserror + auto_state" where
  "assertSafeAutoRecoveryIdentity current q = (case current of
       None \<Rightarrow> Inl (auto_error q ''Queue auto-recovery state was not found''
                 ''QUEUE_AUTO_RECOVERY_STATE_NOT_FOUND'' False)
     | Some c \<Rightarrow>
         if \<not> (as_dlqId c = aq_dlqId q \<and> as_operationId c = Some (aq_operationId q)
              \<and> as_workKey c = Some (aq_workKey q)
              \<and> as_metadataGeneration c = Some (aq_generation q)
              \<and> as_originalRequestedAt c = Some (aq_requestedAt q)
              \<and> as_workGeneration c = Some (aq_generation q)
              \<and> as_workRequestedAt c = Some (aq_requestedAt q)
              \<and> as_jobType c = Some (aq_jobType q))
         then Inl (auto_error q ''Queue auto-recovery identity is inconsistent''
                ''QUEUE_AUTO_RECOVERY_IDENTITY_MISMATCH'' True)
         else if as_dlqStatus c \<notin> {Open, RedrivePending, Redriven}
           \<or> as_errorCode c \<noteq> Some ''QUEUE_RETRY_EXHAUSTED''
         then Inl (auto_error q ''Dead-letter is not eligible for Queue auto-recovery''
                ''QUEUE_AUTO_RECOVERY_DLQ_STATE_INVALID'' False)
         else if as_recoveryStatus c = None
         then Inl (auto_error q ''Queue auto-recovery metadata state is invalid''
                ''QUEUE_AUTO_RECOVERY_METADATA_STATE_INVALID'' False)
         else if as_recoveryReference c \<noteq> None \<and> as_recoveryReference c \<noteq> Some (aq_reference q)
         then Inl (auto_error q ''Queue auto-recovery reference changed''
                ''QUEUE_AUTO_RECOVERY_REFERENCE_MISMATCH'' False)
         else if as_lifecycle c = Completed then Inr c
         else if as_lifecycle c = Active \<and> as_recoveryStatus c = Some InProgress
           \<and> as_recoveryReference c = Some (aq_reference q) then Inr c
         else if as_lifecycle c \<noteq> Terminal
           \<or> as_terminalReason c \<noteq> Some ''QUEUE_RETRY_EXHAUSTED'' \<or> as_completedAt c \<noteq> None
         then Inl (auto_error q ''Queue Work is not a retry-exhausted terminal''
                ''QUEUE_AUTO_RECOVERY_WORK_STATE_INVALID'' True)
         else Inr c)"

datatype auto_disposition = AutoCompleted | AutoAlreadyCompleted | BudgetExhausted | Authorized

record auto_reply =
  ar_disposition :: auto_disposition
  ar_sendRequired :: bool
  ar_delaySeconds :: int
  ar_dlqId :: string
  ar_operationId :: "string option"
  ar_workKey :: "string option"
  ar_generation :: "int option"
  ar_lifecycle :: lifecycle

definition freezeSafeAutoRecovery ::
    "auto_state \<Rightarrow> auto_disposition \<Rightarrow> bool \<Rightarrow> int \<Rightarrow> auto_reply" where
  "freezeSafeAutoRecovery c d send delay = \<lparr>ar_disposition = d, ar_sendRequired = send,
     ar_delaySeconds = delay, ar_dlqId = as_dlqId c, ar_operationId = as_operationId c,
     ar_workKey = as_workKey c, ar_generation = as_workGeneration c, ar_lifecycle = as_lifecycle c\<rparr>"

definition sql_claim_recovery :: "auto_request \<Rightarrow> int \<Rightarrow> d1 \<Rightarrow> nat \<times> d1" where
  "sql_claim_recovery q now s =
     on_table dead_letter_operation_metadata dead_letter_operation_metadata_update
       (sql_update (\<lambda>r. md_dlq_id r = aq_dlqId q \<and> md_operation_id r = Some (aq_operationId q)
            \<and> md_work_key r = Some (aq_workKey q) \<and> md_generation r = Some (aq_generation q)
            \<and> md_requested_at r = Some (aq_requestedAt q)
            \<and> md_recovery_status r = Some NotStarted
            \<and> int (length (prior_recoveries (md_work_key r) (md_dlq_id r) s)) < aq_maxRecoveries q)
          (\<lambda>r. r\<lparr>md_recovery_status := Some InProgress, md_recovery_reference := Some (aq_reference q),
                md_recovery_started_at := coalesce (md_recovery_started_at r) (Some now),
                md_updated_at := now\<rparr>)) s"

definition sql_revive_exhausted :: "auto_request \<Rightarrow> int \<Rightarrow> d1 \<Rightarrow> nat \<times> d1" where
  "sql_revive_exhausted q now =
     on_table sync_work_runs sync_work_runs_update
       (sql_update (\<lambda>r. wk_key r = aq_workKey q \<and> wk_generation r = aq_generation q
            \<and> wk_requested_at r = aq_requestedAt q \<and> wk_lifecycle r = Terminal
            \<and> wk_terminal_reason r = Some ''QUEUE_RETRY_EXHAUSTED'' \<and> wk_completed_at r = None)
          (\<lambda>r. r\<lparr>wk_lifecycle := Active, wk_terminal_reason := None, wk_abandoned_at := None,
                wk_expires_at := None, wk_audit := Some (aq_reference q), wk_updated_at := now\<rparr>))"

definition auto_delay :: "auto_state \<Rightarrow> auto_request \<Rightarrow> int \<Rightarrow> int" where
  "auto_delay after q now =
     (let lockDelay = (case as_activeLockExpiresAt after of
            Some e \<Rightarrow> if now < e then ceil_div (e - now) 1000 + 5 else 0 | None \<Rightarrow> 0);
          priorCooldown = (case as_priorRecoveryStartedAt after of
            Some t \<Rightarrow> max 0 (ceil_div (t + aq_cooldownSeconds q * 1000 - now) 1000) | None \<Rightarrow> 0)
      in min 43200 (max (aq_cooldownSeconds q) (max lockDelay priorCooldown)))"

definition revive_and_delay :: "auto_request \<Rightarrow> int \<Rightarrow> (d1, auto_reply) eff" where
  "revive_and_delay q now =
     andThen (run_sql (sql_revive_exhausted q now)) (\<lambda>revived.
     andThen (query (read_auto_state (aq_dlqId q) now)) (\<lambda>after.
     if (case after of Some a \<Rightarrow> as_lifecycle a = Completed | None \<Rightarrow> False)
     then ret (freezeSafeAutoRecovery (the after) AutoCompleted False 0)
     else if (case after of Some a \<Rightarrow> as_lifecycle a \<noteq> Active | None \<Rightarrow> True) \<or> 1 < revived
     then throw (permanentError ''Queue Work is not eligible for same-generation auto-recovery''
            ''QUEUE_AUTO_RECOVERY_WORK_STATE_INVALID''
            (JObj [(''dlqId'', JStr (aq_dlqId q)), (''workKey'', JStr (aq_workKey q)),
                   (''generation'', jint (aq_generation q))]))
     else ret (freezeSafeAutoRecovery (the after) Authorized True (auto_delay (the after) q now))))"

definition claim_and_revive :: "auto_request \<Rightarrow> int \<Rightarrow> auto_state \<Rightarrow> (d1, auto_reply) eff" where
  "claim_and_revive q now current =
     (if as_lifecycle current = Completed
      then ret (freezeSafeAutoRecovery current AutoCompleted False 0)
      else if as_recoveryStatus current = Some RecoveryCompleted
      then ret (freezeSafeAutoRecovery current AutoAlreadyCompleted False 0)
      else if as_recoveryStatus current = Some InProgress
        \<and> as_recoveryReference current = Some (aq_reference q)
      then revive_and_delay q now
      else andThen (run_sql (sql_claim_recovery q now)) (\<lambda>claimed.
        if claimed \<noteq> 1
        then andThen (query (read_auto_state (aq_dlqId q) now)) (\<lambda>after.
          if (case after of None \<Rightarrow> True
              | Some a \<Rightarrow> as_recoveryStatus a \<noteq> Some InProgress
                  \<or> as_recoveryReference a \<noteq> Some (aq_reference q))
          then ret (freezeSafeAutoRecovery (case after of Some a \<Rightarrow> a | None \<Rightarrow> current)
                 BudgetExhausted False 0)
          else revive_and_delay q now)
        else revive_and_delay q now))"

definition bindAutoRequest :: "jsval \<Rightarrow> jserror + auto_request" where
  "bindAutoRequest input =
     bind_res (qop_requireText (jget input ''dlqId'') ''dlqId'') (\<lambda>dlqId.
     bind_res (qop_requireText (jget input ''operationId'') ''operationId'') (\<lambda>operationId.
     bind_res (qop_requireText (jget input ''workKey'') ''workKey'') (\<lambda>workKey.
     bind_res (qop_timestamp (jget input ''generation'') ''generation'') (\<lambda>generation.
     bind_res (qop_timestamp (jget input ''originalRequestedAt'') ''originalRequestedAt'') (\<lambda>requested.
     bind_res (qop_requireText (jget input ''jobType'') ''jobType'') (\<lambda>jobType.
     bind_res (qop_requireText (jget input ''recoveryReference'') ''recoveryReference'') (\<lambda>reference.
     bind_res (qop_boundedPositiveInteger (jget input ''maxRecoveries'') ''maxRecoveries'' 10) (\<lambda>maxr.
     bind_res (qop_boundedPositiveInteger (jget input ''cooldownSeconds'') ''cooldownSeconds'' 43200) (\<lambda>cool.
     Inr \<lparr>aq_dlqId = dlqId, aq_operationId = operationId, aq_workKey = workKey,
          aq_generation = generation, aq_requestedAt = requested, aq_jobType = jobType,
          aq_reference = reference, aq_maxRecoveries = maxr, aq_cooldownSeconds = cool\<rparr>)))))))))"

definition authorizeSafeAutoRecovery :: "jsval \<Rightarrow> int \<Rightarrow> (d1, auto_reply) eff" where
  "authorizeSafeAutoRecovery input clock =
     check (bindAutoRequest input) (\<lambda>q.
     check (qop_timestamp (nullish (jget input ''now'') (jint clock)) ''now'') (\<lambda>now.
     catching
       (andThen (query (read_auto_state (aq_dlqId q) now)) (\<lambda>current.
          check (assertSafeAutoRecoveryIdentity current q) (claim_and_revive q now)))
       (\<lambda>cause. if code_starts cause ''QUEUE_AUTO_RECOVERY_'' then throw cause
          else throw (d1Error ''Failed to authorize Queue auto-recovery''
                        ''D1_QUEUE_AUTO_RECOVERY_AUTHORIZE_FAILED'' cause))))"

text \<open>The two updates of a batch and their change counts.\<close>

definition sql_mark_queued ::
    "string \<Rightarrow> string \<Rightarrow> string \<Rightarrow> string \<Rightarrow> int \<Rightarrow> d1 \<Rightarrow> string + ((nat \<times> nat) \<times> d1)" where
  "sql_mark_queued dlqId operationId workKey reference now s =
     (let (a, s1) = on_table dead_letter_jobs dead_letter_jobs_update
            (sql_update (\<lambda>r. dl_id r = dlqId \<and> dl_status r \<in> {Open, RedrivePending})
               (\<lambda>r. r\<lparr>dl_status := RedrivePending,
                     dl_redrive_requested_at := coalesce (dl_redrive_requested_at r) (Some now),
                     dl_redrive_reference := coalesce (dl_redrive_reference r) (Some reference),
                     dl_updated_at := now\<rparr>)) s;
          (b, s2) = on_table dead_letter_operation_metadata dead_letter_operation_metadata_update
            (sql_update (\<lambda>r. md_dlq_id r = dlqId \<and> md_operation_id r = Some operationId
                 \<and> md_work_key r = Some workKey \<and> md_recovery_status r = Some InProgress
                 \<and> md_recovery_reference r = Some reference)
               (\<lambda>r. r\<lparr>md_updated_at := now\<rparr>)) s1
      in Inr ((a, b), s2))"

definition markSafeAutoRecoveryQueued :: "jsval \<Rightarrow> int \<Rightarrow> (d1, bool) eff" where
  "markSafeAutoRecoveryQueued input clock =
     check (qop_requireText (jget input ''dlqId'') ''dlqId'') (\<lambda>dlqId.
     check (qop_requireText (jget input ''operationId'') ''operationId'') (\<lambda>operationId.
     check (qop_requireText (jget input ''workKey'') ''workKey'') (\<lambda>workKey.
     check (qop_requireText (jget input ''recoveryReference'') ''recoveryReference'') (\<lambda>reference.
     check (qop_timestamp (nullish (jget input ''now'') (jint clock)) ''now'') (\<lambda>now.
     catching
       (andThen (stmt (sql_mark_queued dlqId operationId workKey reference now)) (\<lambda>(a, b).
          if a \<noteq> 1 \<or> b \<noteq> 1
          then throw (permanentError ''Queue auto-recovery queued marker was rejected''
                 ''QUEUE_AUTO_RECOVERY_MARK_QUEUED_REJECTED''
                 (JObj [(''dlqId'', JStr dlqId), (''workKey'', JStr workKey)]))
          else ret True))
       (\<lambda>cause. if code_starts cause ''QUEUE_AUTO_RECOVERY_'' then throw cause
          else throw (d1Error ''Failed to persist Queue auto-recovery queued state''
                        ''D1_QUEUE_AUTO_RECOVERY_MARK_QUEUED_FAILED'' cause)))))))"

definition sql_close_incident ::
    "string \<Rightarrow> int \<Rightarrow> int \<Rightarrow> string \<Rightarrow> string \<Rightarrow> d1 \<Rightarrow> d1" where
  "sql_close_incident workKey generation now dlqId reference s = s
     \<lparr>dead_letter_operation_metadata := snd (sql_update
        (\<lambda>r. md_dlq_id r = dlqId \<and> md_work_key r = Some workKey \<and> md_generation r = Some generation
           \<and> md_recovery_status r = Some InProgress \<and> md_recovery_reference r = Some reference)
        (\<lambda>r. r\<lparr>md_recovery_status := Some RecoveryCompleted,
              md_recovery_completed_at := coalesce (md_recovery_completed_at r) (Some now),
              md_audit := coalesce (md_audit r) (Some reference), md_updated_at := now\<rparr>)
        (dead_letter_operation_metadata s)),
      dead_letter_jobs := snd (sql_update
        (\<lambda>r. dl_id r = dlqId \<and> dl_status r \<in> {Open, RedrivePending, Redriven})
        (\<lambda>r. r\<lparr>dl_status := Redriven,
              dl_redrive_requested_at := coalesce (dl_redrive_requested_at r) (Some now),
              dl_redrive_reference := coalesce (dl_redrive_reference r) (Some reference),
              dl_redriven_at := coalesce (dl_redriven_at r) (Some now), dl_updated_at := now\<rparr>)
        (dead_letter_jobs s)),
      system_alerts := snd (sql_update
        (\<lambda>r. al_id r = ''alert:'' @ dlqId \<and> al_status r \<in> {''open'', ''acknowledged'', ''resolved''})
        (\<lambda>r. r\<lparr>al_status := ''resolved'', al_updated_at := now\<rparr>) (system_alerts s))\<rparr>"

definition close_incident :: "string \<Rightarrow> int \<Rightarrow> int \<Rightarrow> meta_row \<Rightarrow> (d1, unit) eff" where
  "close_incident workKey generation now m =
     check (qop_requireText (JStr (md_dlq_id m)) ''dlq_id'') (\<lambda>dlqId.
     check (qop_requireText (jopt (md_recovery_reference m)) ''recovery_reference'') (\<lambda>reference.
     batch (\<lambda>s. Inr (sql_close_incident workKey generation now dlqId reference s))))"

definition completeSafeAutoRecoveriesForWork :: "jsval \<Rightarrow> int \<Rightarrow> (d1, bool \<times> nat) eff" where
  "completeSafeAutoRecoveriesForWork input clock =
     check (qop_requireText (jget input ''workKey'') ''workKey'') (\<lambda>workKey.
     check (qop_timestamp (jget input ''generation'') ''generation'') (\<lambda>generation.
     check (qop_timestamp (nullish (jget input ''now'') (jint clock)) ''now'') (\<lambda>now.
     catching
       (andThen (query (\<lambda>s. sql_first (\<lambda>r. wk_key r = workKey \<and> wk_generation r = generation)
            (sync_work_runs s))) (\<lambda>work.
        if (case work of None \<Rightarrow> True
            | Some w \<Rightarrow> wk_lifecycle w \<noteq> Completed \<or> wk_completed_at w = None)
        then ret (False, 0)
        else
        andThen (query (\<lambda>s. sql_select (\<lambda>m. md_work_key m = Some workKey
               \<and> md_generation m = Some generation \<and> md_recovery_status m = Some InProgress
               \<and> like_auto_recovery (md_recovery_reference m)) md_created_at 25
               (dead_letter_operation_metadata s))) (\<lambda>incidents.
        andThen (for_each (close_incident workKey generation now) incidents)
          (\<lambda>_. ret (True, length incidents)))))
       (\<lambda>cause. throw (d1Error ''Failed to close completed Queue auto-recovery incidents''
                        ''D1_QUEUE_AUTO_RECOVERY_COMPLETE_FAILED'' cause)))))"

end
