(* ===== verification/Queue_Guarantees.thy ===== *)
theory Queue_Guarantees
  imports Queue_Operations
begin

text \<open>
  Guarantees of the queue-operation store: the recovery budget of a work is never exceeded, only a
  retry-exhausted terminal work is revived and only into the same generation, the attempt counter
  and the identity of an operation only grow, and the resend delay stays in its bounds.
\<close>

datatype qop =
    RecordAttempt jsval int
  | SaveMetadata jsval int
  | Authorize jsval int
  | MarkQueued jsval int
  | CompleteRecoveries jsval int

fun qop_apply :: "qop \<Rightarrow> d1 \<Rightarrow> d1" where
  "qop_apply (RecordAttempt i t) s = snd (recordMainQueueAttempt i t s)"
| "qop_apply (SaveMetadata i t) s = snd (saveDeadLetterMetadata i t s)"
| "qop_apply (Authorize i t) s = snd (authorizeSafeAutoRecovery i t s)"
| "qop_apply (MarkQueued i t) s = snd (markSafeAutoRecoveryQueued i t s)"
| "qop_apply (CompleteRecoveries i t) s = snd (completeSafeAutoRecoveriesForWork i t s)"

subsection \<open>Reads\<close>

lemma readAttempts_evolves: "reflp R \<Longrightarrow> transp R \<Longrightarrow> fault_blind R \<Longrightarrow> evolves R (readMainQueueAttempts i)"
  unfolding readMainQueueAttempts_def by (intro evolves_intro)

text \<open>The effect of each operation, as the statements it may run.\<close>

lemma recordAttempt_evolves:
  assumes "reflp R" "transp R" "fault_blind R" "\<And>new s t. sql_record_attempt new s = Inr t \<Longrightarrow> R s t"
  shows "evolves R (recordMainQueueAttempt i t)"
  unfolding recordMainQueueAttempt_def
  by (intro evolves_intro readAttempts_evolves assms)

lemma saveMetadata_evolves:
  assumes "reflp R" "transp R" "fault_blind R"
    and "\<And>new s t. md_recovery_reference new = None \<Longrightarrow> sql_put_metadata new s = Inr t \<Longrightarrow> R s t"
  shows "evolves R (saveDeadLetterMetadata i t)"
  unfolding saveDeadLetterMetadata_def by (intro evolves_intro assms(1-3)) (rule assms(4); simp)

lemma revive_evolves:
  assumes "reflp R" "transp R" "fault_blind R" "\<And>now s. R s (snd (sql_revive_exhausted q now s))"
  shows "evolves R (revive_and_delay q now)"
  unfolding revive_and_delay_def by (intro evolves_intro assms)

lemma authorize_evolves:
  assumes "reflp R" "transp R" "fault_blind R"
    and "\<And>q now s. bindAutoRequest i = Inr q \<Longrightarrow> R s (snd (sql_revive_exhausted q now s))"
    and "\<And>q now s. bindAutoRequest i = Inr q \<Longrightarrow> R s (snd (sql_claim_recovery q now s))"
  shows "evolves R (authorizeSafeAutoRecovery i t)"
  unfolding authorizeSafeAutoRecovery_def claim_and_revive_def
  by (intro evolves_intro revive_evolves assms)

lemma markQueued_evolves:
  assumes "reflp R" "transp R" "fault_blind R"
    and "\<And>d p w f now s n t. sql_mark_queued d p w f now s = Inr (n, t) \<Longrightarrow> R s t"
  shows "evolves R (markSafeAutoRecoveryQueued i t)"
  unfolding markSafeAutoRecoveryQueued_def
  by (intro evolves_intro evolves_stmt assms(1-3)) (erule assms(4))

lemma complete_evolves:
  assumes "reflp R" "transp R" "fault_blind R"
    and "\<And>w g now d f s. R s (sql_close_incident w g now d f s)"
  shows "evolves R (completeSafeAutoRecoveriesForWork i t)"
  unfolding completeSafeAutoRecoveriesForWork_def close_incident_def
  by (intro evolves_intro assms(1-3)) (auto intro: assms(4))

subsection \<open>The recovery budget\<close>

definition recoveries :: "string \<Rightarrow> d1 \<Rightarrow> meta_row list" where
  "recoveries w s = filter (\<lambda>m. md_work_key m = Some w \<and> like_auto_recovery (md_recovery_reference m))
     (dead_letter_operation_metadata s)"

definition budget_kept :: "int \<Rightarrow> string \<Rightarrow> d1 \<Rightarrow> bool" where
  "budget_kept n w s \<longleftrightarrow> keyed md_dlq_id (dead_letter_operation_metadata s)
     \<and> (\<forall>m \<in> set (dead_letter_operation_metadata s).
          like_auto_recovery (md_recovery_reference m) \<longrightarrow> md_work_key m \<noteq> None)
     \<and> int (length (recoveries w s)) \<le> n"

lemma budget_blind [simp]: "fault_blind (keeping (budget_kept n w))"
  by (simp add: fault_blind_def keeping_def budget_kept_def recoveries_def)

lemma budget_cong:
  "dead_letter_operation_metadata t = dead_letter_operation_metadata s \<Longrightarrow>
   keeping (budget_kept n w) s t"
  by (simp add: keeping_def budget_kept_def recoveries_def)

text \<open>An update that leaves the work key and the reference alone.\<close>

lemma budget_update:
  assumes "\<And>m. md_dlq_id (f m) = md_dlq_id m" "\<And>m. md_recovery_reference (f m) = md_recovery_reference m"
    and "\<And>m. md_work_key m \<noteq> None \<Longrightarrow> md_work_key (f m) = md_work_key m"
    and "dead_letter_operation_metadata t = map f (dead_letter_operation_metadata s)"
  shows "keeping (budget_kept n w) s t"
proof -
  have "recoveries w t = map f (recoveries w s)" if "budget_kept n w s"
  proof -
    have "\<forall>m \<in> set (dead_letter_operation_metadata s).
        like_auto_recovery (md_recovery_reference m) \<longrightarrow> md_work_key (f m) = md_work_key m"
      using that assms(3) by (auto simp: budget_kept_def)
    then show ?thesis
      unfolding recoveries_def assms(4) filter_map
      by (intro arg_cong [of _ _ "map f"] filter_cong) (auto simp: assms(2))
  qed
  moreover have "keyed md_dlq_id (map f xs) = keyed md_dlq_id xs" for xs
    by (simp add: keyed_def comp_def assms(1))
  ultimately show ?thesis
    using assms by (auto simp: keeping_def budget_kept_def)
qed

lemma metadata_keeps_budget:
  assumes "md_recovery_reference new = None" "sql_put_metadata new s = Inr t"
  shows "keeping (budget_kept n w) s t"
proof -
  let ?f = "\<lambda>r. r\<lparr>md_operation_id := coalesce (md_operation_id r) (md_operation_id new),
                 md_work_key := coalesce (md_work_key r) (md_work_key new),
                 md_generation := coalesce (md_generation r) (md_generation new),
                 md_requested_at := coalesce (md_requested_at r) (md_requested_at new),
                 md_main_attempts := max (md_main_attempts r) (md_main_attempts new),
                 md_dlq_attempts := max (md_dlq_attempts r) (md_dlq_attempts new),
                 md_updated_at := md_updated_at new\<rparr>"
  have t: "dead_letter_operation_metadata t = snd (sql_upsert (\<lambda>r. md_dlq_id r = md_dlq_id new)
      (\<lambda>r. True) ?f new (dead_letter_operation_metadata s))"
    using assms(2) by (auto simp: sql_put_metadata_def split: if_splits)
  show ?thesis
  proof (cases "list_ex (\<lambda>r. md_dlq_id r = md_dlq_id new) (dead_letter_operation_metadata s)")
    case True
    then have "dead_letter_operation_metadata t =
        map (\<lambda>r. if md_dlq_id r = md_dlq_id new then ?f r else r) (dead_letter_operation_metadata s)"
      by (simp add: t sql_upsert_def sql_update_def)
    then show ?thesis by (rule budget_update [rotated 3]) auto
  next
    case False
    then have "dead_letter_operation_metadata t = dead_letter_operation_metadata s @ [new]"
      "md_dlq_id new \<notin> md_dlq_id ` set (dead_letter_operation_metadata s)"
      by (auto simp: t sql_upsert_def list_ex_iff)
    then show ?thesis using assms(1)
      by (auto simp: keeping_def budget_kept_def recoveries_def keyed_def like_auto_recovery_def)
  qed
qed

lemma length_filter_map_le:
  "(\<And>x. x \<in> set xs \<Longrightarrow> P (f x) \<Longrightarrow> P x) \<Longrightarrow> length (filter P (map f xs)) \<le> length (filter P xs)"
  by (induction xs) auto

lemma count_one:
  "keyed k t \<Longrightarrow> length (filter P (map f t)) \<le> 1 + length (filter (\<lambda>m. k m \<noteq> x \<and> P (f m)) t)"
proof (induction t)
  case (Cons m t)
  show ?case
  proof (cases "k m = x")
    case True
    then have "filter (\<lambda>m. k m \<noteq> x \<and> P (f m)) t = filter (\<lambda>m. P (f m)) t"
      using Cons.prems by (intro filter_cong) (auto simp: keyed_def image_iff)
    then show ?thesis using True by (simp add: filter_map comp_def)
  qed (use Cons in \<open>auto simp: keyed_def\<close>)
qed simp

definition claim_hit :: "auto_request \<Rightarrow> d1 \<Rightarrow> meta_row \<Rightarrow> bool" where
  "claim_hit q s r \<longleftrightarrow> md_dlq_id r = aq_dlqId q \<and> md_operation_id r = Some (aq_operationId q)
            \<and> md_work_key r = Some (aq_workKey q) \<and> md_generation r = Some (aq_generation q)
            \<and> md_requested_at r = Some (aq_requestedAt q)
            \<and> md_recovery_status r = Some NotStarted
            \<and> int (length (prior_recoveries (md_work_key r) (md_dlq_id r) s)) < aq_maxRecoveries q"

definition claim_upd :: "auto_request \<Rightarrow> int \<Rightarrow> meta_row \<Rightarrow> meta_row" where
  "claim_upd q now r = r\<lparr>md_recovery_status := Some InProgress, md_recovery_reference := Some (aq_reference q),
                md_recovery_started_at := coalesce (md_recovery_started_at r) (Some now),
                md_updated_at := now\<rparr>"

lemma metadata_table:
  "dead_letter_operation_metadata
     (snd (on_table dead_letter_operation_metadata dead_letter_operation_metadata_update q s)) =
   snd (q (dead_letter_operation_metadata s))"
  by simp

lemma claim_metadata: "dead_letter_operation_metadata (snd (sql_claim_recovery q now s)) =
    map (\<lambda>r. if claim_hit q s r then claim_upd q now r else r) (dead_letter_operation_metadata s)"
  unfolding sql_claim_recovery_def metadata_table sql_update_def claim_hit_def claim_upd_def by (rule snd_conv)

lemma claim_upd_simps [simp]:
  "md_dlq_id (claim_upd q now r) = md_dlq_id r" "md_work_key (claim_upd q now r) = md_work_key r"
  "md_recovery_reference (claim_upd q now r) = Some (aq_reference q)"
  by (simp_all add: claim_upd_def)

lemma claim_keeps_budget:
  assumes "aq_maxRecoveries q \<le> n"
  shows "keeping (budget_kept n w) s (snd (sql_claim_recovery q now s))"
  unfolding keeping_def
proof
  assume b: "budget_kept n w s"
  let ?ms = "dead_letter_operation_metadata s"
  let ?f = "\<lambda>r. if claim_hit q s r then claim_upd q now r else r"
  let ?t = "snd (sql_claim_recovery q now s)"
  let ?cnt = "\<lambda>m. md_work_key m = Some w \<and> like_auto_recovery (md_recovery_reference m)"
  have keyed: "keyed md_dlq_id ?ms" using b by (simp add: budget_kept_def)
  have ids: "map md_dlq_id (map ?f ?ms) = map md_dlq_id ?ms" by simp
  have k': "keyed md_dlq_id (map ?f ?ms)" unfolding keyed_def ids using keyed by (simp add: keyed_def)
  have count: "int (length (filter ?cnt (map ?f ?ms))) \<le> n"
  proof (cases "\<exists>r \<in> set ?ms. claim_hit q s r \<and> w = aq_workKey q")
    case False
    then have "length (filter ?cnt (map ?f ?ms)) \<le> length (filter ?cnt ?ms)"
      by (intro length_filter_map_le) (auto simp: claim_hit_def split: if_splits)
    then show ?thesis using b by (simp add: recoveries_def budget_kept_def)
  next
    case True
    then obtain r where r: "r \<in> set ?ms" "claim_hit q s r" "w = aq_workKey q" by blast
    have "length (filter ?cnt (map ?f ?ms)) \<le>
        1 + length (filter (\<lambda>m. md_dlq_id m \<noteq> md_dlq_id r \<and> ?cnt (?f m)) ?ms)"
      by (rule count_one [OF keyed])
    also have "filter (\<lambda>m. md_dlq_id m \<noteq> md_dlq_id r \<and> ?cnt (?f m)) ?ms =
        prior_recoveries (Some w) (md_dlq_id r) s"
      unfolding prior_recoveries_def using r(2) by (intro filter_cong) (auto simp: claim_hit_def)
    finally have "length (filter ?cnt (map ?f ?ms)) \<le> 1 + length (prior_recoveries (Some w) (md_dlq_id r) s)" .
    moreover have "int (length (prior_recoveries (Some w) (md_dlq_id r) s)) < aq_maxRecoveries q"
      using r(2,3) unfolding claim_hit_def by metis
    ultimately show ?thesis using assms by linarith
  qed
  have keyless: "md_work_key m \<noteq> None"
    if "m \<in> set (map ?f ?ms)" "like_auto_recovery (md_recovery_reference m)" for m
    using that b by (auto simp: claim_hit_def budget_kept_def split: if_splits)
  show "budget_kept n w ?t"
    unfolding budget_kept_def recoveries_def claim_metadata using k' count keyless by blast
qed

fun budget_bounded :: "int \<Rightarrow> qop \<Rightarrow> bool" where
  "budget_bounded n (Authorize i t) \<longleftrightarrow> (\<forall>q. bindAutoRequest i = Inr q \<longrightarrow> aq_maxRecoveries q \<le> n)"
| "budget_bounded n _ \<longleftrightarrow> True"

text \<open>The request accepted by the binding carries the caller's own bound.\<close>

lemma bind_bound:
  "bindAutoRequest i = Inr q \<Longrightarrow>
   jget i ''maxRecoveries'' = jint k \<Longrightarrow> aq_maxRecoveries q = k"
  by (auto simp: bindAutoRequest_def bind_res_Inr_iff qop_boundedPositiveInteger_def
      dest: safe_number_jintD)

lemma mark_queued_metadata:
  "sql_mark_queued d p w f now s = Inr (n, t) \<Longrightarrow> dead_letter_operation_metadata t =
     map (\<lambda>r. if md_dlq_id r = d \<and> md_operation_id r = Some p \<and> md_work_key r = Some w
                 \<and> md_recovery_status r = Some InProgress \<and> md_recovery_reference r = Some f
              then r\<lparr>md_updated_at := now\<rparr> else r) (dead_letter_operation_metadata s)"
  by (auto simp: sql_mark_queued_def Let_def sql_update_def on_table_def)

lemma qop_keeps_budget:
  "budget_bounded n x \<Longrightarrow> keeping (budget_kept n w) s (qop_apply x s)"
proof (cases x)
  case (RecordAttempt i t)
  have "evolves (keeping (budget_kept n w)) (recordMainQueueAttempt i t)"
    by (rule recordAttempt_evolves) (auto simp: sql_record_attempt_def split: if_splits intro: budget_cong)
  then show ?thesis using RecordAttempt by (simp add: evolves_def)
next
  case (SaveMetadata i t)
  have "evolves (keeping (budget_kept n w)) (saveDeadLetterMetadata i t)"
    by (rule saveMetadata_evolves) (auto intro: metadata_keeps_budget)
  then show ?thesis using SaveMetadata by (simp add: evolves_def)
next
  case (Authorize i t)
  assume b: "budget_bounded n x"
  have "evolves (keeping (budget_kept n w)) (authorizeSafeAutoRecovery i t)"
    by (rule authorize_evolves)
      (use b Authorize in \<open>auto intro: claim_keeps_budget budget_cong simp: sql_revive_exhausted_def\<close>)
  then show ?thesis using Authorize by (simp add: evolves_def)
next
  case (MarkQueued i t)
  have "keeping (budget_kept n w) s t" if "sql_mark_queued d p v f now s = Inr (c, t)" for d p v f now s c t
    by (rule budget_update [OF _ _ _ mark_queued_metadata [OF that]]) auto
  then have "evolves (keeping (budget_kept n w)) (markSafeAutoRecoveryQueued i t)"
    by (intro markQueued_evolves) auto
  then show ?thesis using MarkQueued by (simp add: evolves_def)
next
  case (CompleteRecoveries i t)
  have "keeping (budget_kept n w) s (sql_close_incident v g now d f s)" for v g now d f s
    by (rule budget_update [where f = "\<lambda>r. if md_dlq_id r = d \<and> md_work_key r = Some v
        \<and> md_generation r = Some g \<and> md_recovery_status r = Some InProgress
        \<and> md_recovery_reference r = Some f
      then r\<lparr>md_recovery_status := Some RecoveryCompleted,
              md_recovery_completed_at := coalesce (md_recovery_completed_at r) (Some now),
              md_audit := coalesce (md_audit r) (Some f), md_updated_at := now\<rparr> else r"])
      (auto simp: sql_close_incident_def sql_update_def)
  then have "evolves (keeping (budget_kept n w)) (completeSafeAutoRecoveriesForWork i t)"
    by (intro complete_evolves) auto
  then show ?thesis using CompleteRecoveries by (simp add: evolves_def)
qed

lemma budget_run:
  "budget_kept n w s \<Longrightarrow> list_all (budget_bounded n) xs \<Longrightarrow> budget_kept n w (fold qop_apply xs s)"
  using qop_keeps_budget by (induction xs arbitrary: s) (auto simp: keeping_def)

subsection \<open>What is revived\<close>

definition exhausted :: "work_row \<Rightarrow> bool" where
  "exhausted r \<longleftrightarrow> wk_lifecycle r = Terminal \<and> wk_terminal_reason r = Some ''QUEUE_RETRY_EXHAUSTED''
     \<and> wk_completed_at r = None"

definition revives :: "work_row \<Rightarrow> work_row \<Rightarrow> bool" where
  "revives r r' \<longleftrightarrow> r' = r \<or> exhausted r \<and> (\<exists>ref now. r' = r\<lparr>wk_lifecycle := Active,
     wk_terminal_reason := None, wk_abandoned_at := None, wk_expires_at := None,
     wk_audit := Some ref, wk_updated_at := now\<rparr>)"

definition only_revived :: "d1 \<Rightarrow> d1 \<Rightarrow> bool" where
  "only_revived s t \<longleftrightarrow> list_all2 revives (sync_work_runs s) (sync_work_runs t)"

lemma revives_refl: "revives r r"
  by (simp add: revives_def)

lemma revives_trans: "revives a b \<Longrightarrow> revives b c \<Longrightarrow> revives a c"
  by (auto simp: revives_def exhausted_def)

lemma only_revived_refl [simp]: "reflp only_revived"
  by (simp add: reflp_def only_revived_def list_all2_refl revives_refl)

lemma only_revived_trans [simp]: "transp only_revived"
  unfolding transp_def only_revived_def using list_all2_trans [of revives revives revives]
  by (blast intro: revives_trans)

lemma only_revived_blind [simp]: "fault_blind only_revived"
  by (simp add: fault_blind_def only_revived_def)

lemma only_revived_same: "sync_work_runs t = sync_work_runs s \<Longrightarrow> only_revived s t"
  by (simp add: only_revived_def list_all2_refl revives_refl)

lemma revive_exhausted_revives: "only_revived s (snd (sql_revive_exhausted q now s))"
  by (auto simp: only_revived_def sql_revive_exhausted_def sql_update_def revives_def exhausted_def
      list_all2_conv_all_nth)

lemma mark_queued_work: "sql_mark_queued d p w f now s = Inr (n, t) \<Longrightarrow> sync_work_runs t = sync_work_runs s"
  by (auto simp: sql_mark_queued_def Let_def on_table_def)

lemma qop_only_revives: "only_revived s (qop_apply x s)"
proof (cases x)
  case (RecordAttempt i t)
  have "evolves only_revived (recordMainQueueAttempt i t)"
    by (rule recordAttempt_evolves) (auto simp: sql_record_attempt_def split: if_splits intro: only_revived_same)
  then show ?thesis using RecordAttempt by (simp add: evolves_def)
next
  case (SaveMetadata i t)
  have "evolves only_revived (saveDeadLetterMetadata i t)"
    by (rule saveMetadata_evolves) (auto simp: sql_put_metadata_def split: if_splits intro: only_revived_same)
  then show ?thesis using SaveMetadata by (simp add: evolves_def)
next
  case (Authorize i t)
  have "evolves only_revived (authorizeSafeAutoRecovery i t)"
    by (rule authorize_evolves)
      (auto simp: sql_claim_recovery_def intro: only_revived_same revive_exhausted_revives)
  then show ?thesis using Authorize by (simp add: evolves_def)
next
  case (MarkQueued i t)
  have "evolves only_revived (markSafeAutoRecoveryQueued i t)"
    by (rule markQueued_evolves) (auto intro: only_revived_same mark_queued_work)
  then show ?thesis using MarkQueued by (simp add: evolves_def)
next
  case (CompleteRecoveries i t)
  have "evolves only_revived (completeSafeAutoRecoveriesForWork i t)"
    by (rule complete_evolves) (auto simp: sql_close_incident_def intro: only_revived_same)
  then show ?thesis using CompleteRecoveries by (simp add: evolves_def)
qed

lemma run_only_revives: "only_revived s (fold qop_apply xs s)"
proof (induction xs arbitrary: s)
  case (Cons x xs)
  show ?case using transpD [OF only_revived_trans qop_only_revives Cons] by simp
qed (simp add: only_revived_same)

subsection \<open>Attempts\<close>

text \<open>An operation keeps its work, its generation once known, and never loses an attempt.\<close>

definition attempt_grows :: "string \<Rightarrow> d1 \<Rightarrow> d1 \<Rightarrow> bool" where
  "attempt_grows p s t \<longleftrightarrow> (case row_at qa_operation_id p (queue_operation_attempts s) of
     None \<Rightarrow> True
   | Some r \<Rightarrow> (case row_at qa_operation_id p (queue_operation_attempts t) of
       None \<Rightarrow> False
     | Some r' \<Rightarrow> qa_work_key r' = qa_work_key r \<and> qa_attempts r \<le> qa_attempts r'
         \<and> (qa_generation r \<noteq> None \<longrightarrow> qa_generation r' = qa_generation r)
         \<and> (qa_requested_at r \<noteq> None \<longrightarrow> qa_requested_at r' = qa_requested_at r)))"

lemma attempt_grows_rel [simp]:
  "reflp (attempt_grows p)" "transp (attempt_grows p)" "fault_blind (attempt_grows p)"
  by (auto simp: reflp_def transp_def fault_blind_def attempt_grows_def split: option.splits)

lemma attempt_grows_same:
  "queue_operation_attempts t = queue_operation_attempts s \<Longrightarrow> attempt_grows p s t"
  by (simp add: attempt_grows_def split: option.splits)

lemma record_attempts:
  assumes "sql_record_attempt new s = Inr t"
  shows "queue_operation_attempts t = snd (sql_upsert (\<lambda>r. qa_operation_id r = qa_operation_id new)
           (\<lambda>r. qa_work_key r = qa_work_key new)
           (\<lambda>r. r\<lparr>qa_work_key := qa_work_key new,
                 qa_generation := coalesce (qa_generation r) (qa_generation new),
                 qa_requested_at := coalesce (qa_requested_at r) (qa_requested_at new),
                 qa_attempts := qa_attempts r + 1,
                 qa_last_message_id := qa_last_message_id new,
                 qa_updated_at := qa_updated_at new\<rparr>) new (queue_operation_attempts s))"
  using assms by (auto simp: sql_record_attempt_def split: if_splits)

lemma record_grows:
  assumes "sql_record_attempt new s = Inr t"
  shows "attempt_grows p s t"
  unfolding attempt_grows_def record_attempts [OF assms]
  by (subst row_at_upsert) (auto split: option.split simp: coalesce_def)

lemma qop_attempts_grow: "attempt_grows p s (qop_apply x s)"
proof (cases x)
  case (RecordAttempt i t)
  have "evolves (attempt_grows p) (recordMainQueueAttempt i t)"
    by (rule recordAttempt_evolves) (auto intro: record_grows)
  then show ?thesis using RecordAttempt by (simp add: evolves_def)
next
  case (SaveMetadata i t)
  have "evolves (attempt_grows p) (saveDeadLetterMetadata i t)"
    by (rule saveMetadata_evolves)
      (auto simp: sql_put_metadata_def split: if_splits intro: attempt_grows_same)
  then show ?thesis using SaveMetadata by (simp add: evolves_def)
next
  case (Authorize i t)
  have "evolves (attempt_grows p) (authorizeSafeAutoRecovery i t)"
    by (rule authorize_evolves)
      (auto simp: sql_claim_recovery_def sql_revive_exhausted_def intro: attempt_grows_same)
  then show ?thesis using Authorize by (simp add: evolves_def)
next
  case (MarkQueued i t)
  have "evolves (attempt_grows p) (markSafeAutoRecoveryQueued i t)"
    by (rule markQueued_evolves)
      (auto simp: sql_mark_queued_def Let_def on_table_def intro!: attempt_grows_same)
  then show ?thesis using MarkQueued by (simp add: evolves_def)
next
  case (CompleteRecoveries i t)
  have "evolves (attempt_grows p) (completeSafeAutoRecoveriesForWork i t)"
    by (rule complete_evolves) (auto simp: sql_close_incident_def intro: attempt_grows_same)
  then show ?thesis using CompleteRecoveries by (simp add: evolves_def)
qed

lemma run_attempts_grow: "attempt_grows p s (fold qop_apply xs s)"
proof (induction xs arbitrary: s)
  case (Cons x xs)
  show ?case using transpD [OF attempt_grows_rel(2) qop_attempts_grow Cons] by simp
qed (simp add: attempt_grows_same)

text \<open>A recorded delivery answers with the counter it left.\<close>

lemma record_answers:
  assumes q: "quiet s" and p: "plain_text p" and w: "plain_text w"
    and row: "row_at qa_operation_id p (queue_operation_attempts s) = Some r" "qa_work_key r = w"
    and unique: "\<forall>r' \<in> set (queue_operation_attempts s). qa_work_key r' = w \<longrightarrow> qa_operation_id r' = p"
    and now: "is_safe now" "0 \<le> now" and n: "0 \<le> qa_attempts r" "is_safe (qa_attempts r + 1)"
  shows "fst (recordMainQueueAttempt (JObj [(''operationId'', JStr p), (''workKey'', JStr w)]) now s) =
    Inr \<lparr>at_mainQueueAttempts = qa_attempts r + 1, at_workKey = Some w, at_tracked = True\<rparr>"
proof -
  define new where "new = \<lparr>qa_operation_id = p, qa_work_key = w, qa_generation = None,
     qa_requested_at = None, qa_attempts = 1, qa_last_message_id = None, qa_created_at = now,
     qa_updated_at = now\<rparr>"
  have nf: "\<not> list_ex (\<lambda>r. qa_work_key r = qa_work_key new \<and> qa_operation_id r \<noteq> qa_operation_id new)
           (queue_operation_attempts s)"
    using unique by (auto simp: list_ex_iff new_def)
  then obtain t where t: "sql_record_attempt new s = Inr t" by (simp add: sql_record_attempt_def)
  have qt: "quiet t"
    using t q by (auto simp: sql_record_attempt_def quiet_def split: if_splits)
  have rt: "\<exists>r'. row_at qa_operation_id p (queue_operation_attempts t) = Some r'
      \<and> qa_attempts r' = qa_attempts r + 1 \<and> qa_work_key r' = w"
    unfolding record_attempts [OF t]
    by (subst row_at_upsert) (use row in \<open>simp_all add: new_def\<close>)
  then obtain r' where r': "row_at qa_operation_id p (queue_operation_attempts t) = Some r'"
      "qa_attempts r' = qa_attempts r + 1" "qa_work_key r' = w" by blast
  have opt: "optionalText (JStr p) = Some p" "optionalText (JStr w) = Some w"
    using p w by (simp_all add: optionalText_def plain_text_def)
  have batch: "batch (sql_record_attempt new) s = (Inr (), t)"
    using q t by (simp add: batch_quiet)
  show ?thesis
    using now n opt batch qt r'
    by (simp add: recordMainQueueAttempt_def qop_timestamp_def nullableTimestamp_def new_def
        optionalText_def [of JUndef] eff_simps readMainQueueAttempts_def)
qed

subsection \<open>The delay and the reply\<close>

lemma auto_delay_bounds:
  "aq_cooldownSeconds q \<le> 43200 \<Longrightarrow> aq_cooldownSeconds q \<le> auto_delay a q now \<and> auto_delay a q now \<le> 43200"
  by (simp add: auto_delay_def Let_def)

lemma ceil_div_ge: "0 < b \<Longrightarrow> a \<le> b * ceil_div a b"
proof -
  assume b: "0 < b"
  have "b * ((- a) div b) \<le> - a"
    using b pos_mod_sign [of b "- a"] by (simp add: minus_mod_eq_mult_div [symmetric] del: pos_mod_sign)
  then show ?thesis by (simp add: ceil_div_def)
qed

text \<open>The job comes back five seconds after the lock it waits for, unless the cap cuts the wait.\<close>

lemma auto_delay_after_lock:
  assumes "as_activeLockExpiresAt a = Some e" "auto_delay a q now < 43200"
  shows "e + 5000 \<le> now + 1000 * auto_delay a q now \<or> e \<le> now"
proof (cases "now < e")
  case True
  have "ceil_div (e - now) 1000 + 5 \<le> auto_delay a q now"
    using assms True unfolding auto_delay_def Let_def by (simp add: min_def max_def split: if_splits)
  moreover have "e - now \<le> 1000 * ceil_div (e - now) 1000" by (rule ceil_div_ge) simp
  ultimately show ?thesis by linarith
qed simp

lemma auto_delay_after_cooldown:
  assumes "as_priorRecoveryStartedAt a = Some t" "auto_delay a q now < 43200"
  shows "t + aq_cooldownSeconds q * 1000 \<le> now + 1000 * auto_delay a q now"
proof -
  have "ceil_div (t + aq_cooldownSeconds q * 1000 - now) 1000 \<le> auto_delay a q now"
    using assms unfolding auto_delay_def Let_def by (simp add: min_def max_def split: if_splits)
  moreover have "t + aq_cooldownSeconds q * 1000 - now
      \<le> 1000 * ceil_div (t + aq_cooldownSeconds q * 1000 - now) 1000" by (rule ceil_div_ge) simp
  ultimately show ?thesis by linarith
qed

definition sound_reply :: "auto_request \<Rightarrow> auto_reply \<Rightarrow> bool" where
  "sound_reply q a \<longleftrightarrow>
     (if ar_sendRequired a
      then ar_disposition a = Authorized \<and> ar_lifecycle a = Active
        \<and> aq_cooldownSeconds q \<le> ar_delaySeconds a \<and> ar_delaySeconds a \<le> 43200
      else ar_disposition a \<noteq> Authorized \<and> ar_delaySeconds a = 0)"

definition yields :: "('a \<Rightarrow> bool) \<Rightarrow> (d1, 'a) eff \<Rightarrow> bool" where
  "yields P m \<longleftrightarrow> (\<forall>s x t. m s = (Inr x, t) \<longrightarrow> P x)"

lemma yields_ret: "P x \<Longrightarrow> yields P (ret x)"
  by (simp add: yields_def ret_def)

lemma yields_throw: "yields P (throw e)"
  by (simp add: yields_def throw_def)

lemma yields_andThen: "(\<And>x. yields P (f x)) \<Longrightarrow> yields P (andThen m f)"
  by (auto simp: yields_def andThen_def split: prod.splits sum.splits)

lemma yields_check: "(\<And>x. r = Inr x \<Longrightarrow> yields P (f x)) \<Longrightarrow> yields P (check r f)"
  by (cases r) (simp_all add: yields_throw)

lemma yields_catching: "yields P m \<Longrightarrow> (\<And>e. yields P (h e)) \<Longrightarrow> yields P (catching m h)"
  unfolding yields_def catching_def by (fastforce split: prod.splits sum.splits)

lemma yields_if: "(c \<Longrightarrow> yields P m) \<Longrightarrow> (\<not> c \<Longrightarrow> yields P n) \<Longrightarrow> yields P (if c then m else n)"
  by simp

lemmas yields_intro = yields_ret yields_throw yields_andThen yields_check yields_catching yields_if

lemma bind_cooldown: "bindAutoRequest i = Inr q \<Longrightarrow> 0 < aq_cooldownSeconds q \<and> aq_cooldownSeconds q \<le> 43200"
  by (auto simp: bindAutoRequest_def bind_res_Inr_iff qop_boundedPositiveInteger_def
      dest!: safe_number_InrD)

lemma revive_sound:
  assumes "aq_cooldownSeconds q \<le> 43200"
  shows "yields (sound_reply q) (revive_and_delay q now)"
  unfolding revive_and_delay_def
  by (intro yields_intro; use auto_delay_bounds [OF assms] in
      \<open>auto simp: sound_reply_def freezeSafeAutoRecovery_def split: option.splits\<close>)

lemma authorize_sound:
  assumes "bindAutoRequest i = Inr q"
  shows "yields (sound_reply q) (authorizeSafeAutoRecovery i clock)"
proof -
  have "yields (sound_reply q) (claim_and_revive q now c)" for now c
    unfolding claim_and_revive_def using bind_cooldown [OF assms]
    by (intro yields_intro revive_sound) (auto simp: sound_reply_def freezeSafeAutoRecovery_def)
  then show ?thesis
    unfolding authorizeSafeAutoRecovery_def assms check_Inr by (intro yields_intro)
qed

end
