(* ===== verification/Mirror_Outbox.thy ===== *)
theory Mirror_Outbox
  imports Reliability_Store
begin

text \<open>
  The durable mirror of operational records to Lark: the outbox table
  (\<open>d1-reliability-mirror-outbox.js\<close>), the store that writes the primary record and then schedules
  its mirror (\<open>durable-mirror-reliability-store.js\<close>), and the bounded delivery run
  (\<open>deliver-reliability-mirror.js\<close>).

  The Lark side is a parameter: a function from the number of the call, the method and the payload
  to the error it throws, if any, and the schedules that other invocations commit while the call is
  in flight. Accepted calls are logged beside the database.
\<close>

subsection \<open>Helpers\<close>

definition mir_requireText :: "jsval \<Rightarrow> string \<Rightarrow> jserror + string" where
  "mir_requireText v f = requireText (''D1ReliabilityMirrorOutbox requires '' @ f) v"

definition mir_timestamp :: "jsval \<Rightarrow> string \<Rightarrow> jserror + int" where
  "mir_timestamp v f = safe_number (\<lambda>n. 0 \<le> n)
     (''D1ReliabilityMirrorOutbox '' @ f @ '' must be a non-negative integer'') v"

definition mir_positiveInteger :: "jsval \<Rightarrow> string \<Rightarrow> jserror + int" where
  "mir_positiveInteger v f = safe_number (\<lambda>n. 0 < n)
     (''D1ReliabilityMirrorOutbox '' @ f @ '' must be a positive integer'') v"

definition mir_nullableText :: "jsval \<Rightarrow> string option" where
  "mir_nullableText v = (if is_absent v then None
     else let t = trim (js_text v) in if t = [] then None else Some t)"

definition mir_boundedLimit :: "jsval \<Rightarrow> jserror + int" where
  "mir_boundedLimit v = (case safe_int (js_number v) of
       Some n \<Rightarrow> if 0 < n \<and> n \<le> 100 then Inr n
         else Inl (permanentError ''Reliability mirror limit must be between 1 and 100''
                ''RELIABILITY_MIRROR_LIMIT_INVALID'' (JObj [(''max'', jint 100)]))
     | None \<Rightarrow> Inl (permanentError ''Reliability mirror limit must be between 1 and 100''
                ''RELIABILITY_MIRROR_LIMIT_INVALID'' (JObj [(''max'', jint 100)])))"

definition mirror_method :: "jsval \<Rightarrow> jserror + string" where
  "mirror_method v = bind_res (mir_requireText v ''method'') (\<lambda>m.
     if m \<in> {''saveSyncRun'', ''saveSystemAlert''} then Inr m
     else Inl (permanentError ''Reliability mirror method is not supported''
            ''RELIABILITY_MIRROR_METHOD_UNSUPPORTED'' JUndef))"

definition requirePayload :: "jsval \<Rightarrow> jserror + jsval" where
  "requirePayload v = (if is_object v then Inr v
     else Inl (permanentError ''Reliability mirror payload must be an object''
            ''RELIABILITY_MIRROR_PAYLOAD_INVALID'' JUndef))"

definition buildReliabilityMirrorOutboxId :: "jsval \<Rightarrow> jsval \<Rightarrow> jserror + string" where
  "buildReliabilityMirrorOutboxId method payload = bind_res (mirror_method method) (\<lambda>m.
     if m = ''saveSyncRun''
     then bind_res (mir_requireText (jget payload ''syncId'') ''payload.syncId'')
            (\<lambda>i. Inr (''reliability-mirror:sync-run:'' @ i))
     else bind_res (mir_requireText (jget payload ''alertId'') ''payload.alertId'')
            (\<lambda>i. Inr (''reliability-mirror:system-alert:'' @ i)))"

definition serializePayload :: "jsval \<Rightarrow> jserror + json_text" where
  "serializePayload v = (let n = json_norm v in
     if 50000 < length (json_print n)
     then Inl (permanentError ''Reliability mirror payload is too large''
            ''RELIABILITY_MIRROR_PAYLOAD_INVALID'' JUndef)
     else Inr (JsonText n))"

definition parsePayload :: "json_text \<Rightarrow> jserror + jsval" where
  "parsePayload t = (case json_parse t of
       Some v \<Rightarrow> requirePayload v
     | None \<Rightarrow> Inl (permanentError ''Reliability mirror outbox payload is malformed''
            ''RELIABILITY_MIRROR_OUTBOX_INVALID'' JUndef))"

subsection \<open>The outbox\<close>

definition sql_schedule :: "string \<Rightarrow> string \<Rightarrow> json_text \<Rightarrow> int \<Rightarrow> d1 \<Rightarrow> nat \<times> d1" where
  "sql_schedule i m text now =
     on_table reliability_mirror_outbox reliability_mirror_outbox_update
       (sql_upsert (\<lambda>r. mr_id r = i) (\<lambda>r. True)
          (\<lambda>r. r\<lparr>mr_method := m, mr_payload := text, mr_status := MirrorPending,
                mr_revision := mr_revision r + 1, mr_last_error_code := None,
                mr_last_error_message := None, mr_delivered_at := None, mr_updated_at := now\<rparr>)
          \<lparr>mr_id = i, mr_method = m, mr_payload = text, mr_status = MirrorPending, mr_revision = 1,
           mr_attempts = 0, mr_last_error_code = None, mr_last_error_message = None,
           mr_created_at = now, mr_updated_at = now, mr_delivered_at = None\<rparr>)"

definition schedule :: "jsval \<Rightarrow> int \<Rightarrow> (d1, unit) eff" where
  "schedule input clock =
     check (mirror_method (jget input ''method'')) (\<lambda>m.
     check (requirePayload (jget input ''payload'')) (\<lambda>p.
     check (buildReliabilityMirrorOutboxId (JStr m) p) (\<lambda>i.
     check (mir_timestamp (nullish (jget input ''createdAt'') (jint clock)) ''createdAt'') (\<lambda>now.
     catching
       (check (serializePayload p) (\<lambda>text.
          andThen (run_sql (sql_schedule i m text now)) (\<lambda>_. ret ())))
       (\<lambda>cause. throw (d1Error ''Failed to persist reliability mirror outbox''
                        ''D1_RELIABILITY_MIRROR_OUTBOX_WRITE_FAILED'' cause))))))"

record mirror_item =
  mi_outboxId :: string
  mi_revision :: int
  mi_method :: string
  mi_payload :: jsval
  mi_deliveryAttempts :: int
  mi_createdAt :: int
  mi_updatedAt :: int

datatype pending_item = ValidItem mirror_item | InvalidItem string int string

definition normalizePendingRow :: "mirror_row \<Rightarrow> jserror + mirror_item" where
  "normalizePendingRow r =
     bind_res (mirror_method (JStr (mr_method r))) (\<lambda>m.
     bind_res (parsePayload (mr_payload r)) (\<lambda>p.
     bind_res (buildReliabilityMirrorOutboxId (JStr m) p) (\<lambda>expected.
     bind_res (mir_requireText (JStr (mr_id r)) ''outbox_id'') (\<lambda>i.
     if i \<noteq> expected
     then Inl (permanentError ''Reliability mirror outbox identity does not match its payload''
            ''RELIABILITY_MIRROR_OUTBOX_INVALID'' JUndef)
     else
     bind_res (mir_positiveInteger (jint (mr_revision r)) ''revision'') (\<lambda>revision.
     bind_res (mir_timestamp (jint (mr_attempts r)) ''delivery_attempts'') (\<lambda>attempts.
     bind_res (mir_timestamp (jint (mr_created_at r)) ''created_at'') (\<lambda>created.
     bind_res (mir_timestamp (jint (mr_updated_at r)) ''updated_at'') (\<lambda>updated.
     Inr \<lparr>mi_outboxId = i, mi_revision = revision, mi_method = m, mi_payload = p,
          mi_deliveryAttempts = attempts, mi_createdAt = created, mi_updatedAt = updated\<rparr>))))))))"

definition normalizePendingRowSafely :: "mirror_row \<Rightarrow> jserror + pending_item" where
  "normalizePendingRowSafely r =
     bind_res (mir_requireText (JStr (mr_id r)) ''outbox_id'') (\<lambda>i.
     bind_res (mir_positiveInteger (jint (mr_revision r)) ''revision'') (\<lambda>revision.
     case normalizePendingRow r of
       Inr item \<Rightarrow> Inr (ValidItem item)
     | Inl cause \<Rightarrow>
         if isRetryableError cause then Inl cause
         else Inr (InvalidItem i revision
                (case err_code cause of Some c \<Rightarrow> c | None \<Rightarrow> ''RELIABILITY_MIRROR_OUTBOX_INVALID''))))"

definition pending_rows :: "nat \<Rightarrow> d1 \<Rightarrow> mirror_row list" where
  "pending_rows n s = sql_select (\<lambda>r. mr_status r = MirrorPending) (\<lambda>r. (mr_updated_at r, mr_id r)) n
     (reliability_mirror_outbox s)"

definition listPending :: "jsval \<Rightarrow> (d1, pending_item list) eff" where
  "listPending input =
     check (mir_boundedLimit (nullish (jget input ''limit'') (jint 25))) (\<lambda>limit.
     catching
       (andThen (query (pending_rows (nat limit))) (\<lambda>rows.
          check (map_res normalizePendingRowSafely rows) ret))
       (\<lambda>cause. if err_retryable cause = Some False then throw cause
          else throw (d1Error ''Failed to read reliability mirror outbox''
                        ''D1_RELIABILITY_MIRROR_OUTBOX_READ_FAILED'' cause)))"

definition sql_mark_mirror ::
    "string \<Rightarrow> int \<Rightarrow> (mirror_row \<Rightarrow> mirror_row) \<Rightarrow> d1 \<Rightarrow> nat \<times> d1" where
  "sql_mark_mirror i revision set_clause =
     on_table reliability_mirror_outbox reliability_mirror_outbox_update
       (sql_update (\<lambda>r. mr_id r = i \<and> mr_status r = MirrorPending \<and> mr_revision r = revision)
          (\<lambda>r. set_clause (r\<lparr>mr_attempts := mr_attempts r + 1\<rparr>)))"

definition markDelivered :: "jsval \<Rightarrow> int \<Rightarrow> (d1, bool) eff" where
  "markDelivered input clock =
     check (mir_requireText (jget input ''outboxId'') ''outboxId'') (\<lambda>i.
     check (mir_positiveInteger (jget input ''revision'') ''revision'') (\<lambda>revision.
     check (mir_timestamp (nullish (jget input ''deliveredAt'') (jint clock)) ''deliveredAt'') (\<lambda>at.
     catching
       (andThen (run_sql (sql_mark_mirror i revision (\<lambda>r. r\<lparr>mr_status := MirrorDelivered,
            mr_last_error_code := None, mr_last_error_message := None,
            mr_delivered_at := coalesce (mr_delivered_at r) (Some at), mr_updated_at := at\<rparr>)))
          (\<lambda>changes. ret (0 < changes)))
       (\<lambda>cause. throw (d1Error ''Failed to complete reliability mirror outbox''
                        ''D1_RELIABILITY_MIRROR_OUTBOX_COMPLETE_FAILED'' cause)))))"

definition mark_failure ::
    "string \<Rightarrow> string \<Rightarrow> string \<Rightarrow> string \<Rightarrow> (mirror_row \<Rightarrow> mirror_row) \<Rightarrow> jsval \<Rightarrow> int \<Rightarrow> (d1, bool) eff" where
  "mark_failure code0 message0 err_text err_code0 set_status input clock =
     check (mir_requireText (jget input ''outboxId'') ''outboxId'') (\<lambda>i.
     check (mir_positiveInteger (jget input ''revision'') ''revision'') (\<lambda>revision.
     check (mir_timestamp (nullish (jget input ''updatedAt'') (jint clock)) ''updatedAt'') (\<lambda>at.
     let code = (case mir_nullableText (jget input ''errorCode'') of Some c \<Rightarrow> c | None \<Rightarrow> code0);
         message = sanitizeOperationalText (nullish (jget input ''errorMessage'') (JStr message0)) (JStr code)
     in catching
       (andThen (run_sql (sql_mark_mirror i revision (\<lambda>r. set_status (r\<lparr>mr_last_error_code := Some code,
            mr_last_error_message := Some message, mr_updated_at := at\<rparr>))))
          (\<lambda>changes. ret (0 < changes)))
       (\<lambda>cause. throw (d1Error err_text err_code0 cause)))))"

definition markPermanentFailed :: "jsval \<Rightarrow> int \<Rightarrow> (d1, bool) eff" where
  "markPermanentFailed = mark_failure ''RELIABILITY_MIRROR_OUTBOX_INVALID''
     ''Reliability mirror outbox is invalid''
     ''Failed to quarantine invalid reliability mirror outbox''
     ''D1_RELIABILITY_MIRROR_OUTBOX_QUARANTINE_FAILED'' (\<lambda>r. r\<lparr>mr_status := MirrorFailedPermanent\<rparr>)"

definition markDeliveryFailed :: "jsval \<Rightarrow> int \<Rightarrow> (d1, bool) eff" where
  "markDeliveryFailed = mark_failure ''RELIABILITY_MIRROR_DELIVERY_FAILED''
     ''Reliability mirror delivery failed''
     ''Failed to record reliability mirror delivery error''
     ''D1_RELIABILITY_MIRROR_OUTBOX_FAILURE_WRITE_FAILED'' (\<lambda>r. r)"

subsection \<open>The delivery run\<close>

type_synonym mirror_client = "nat \<Rightarrow> string \<Rightarrow> jsval \<Rightarrow> jserror option \<times> (jsval \<times> int) list"

record mirror_world =
  mw_db :: d1
  mw_turn :: nat
  mw_accepted :: "(string \<times> jsval) list"

definition on_db :: "(d1, 'a) eff \<Rightarrow> (mirror_world, 'a) eff" where
  "on_db m w = (fst (m (mw_db w)), w\<lparr>mw_db := snd (m (mw_db w))\<rparr>)"

definition schedule_all :: "(jsval \<times> int) list \<Rightarrow> d1 \<Rightarrow> d1" where
  "schedule_all = fold (\<lambda>(input, clock) s. snd (schedule input clock s))"

definition call_mirror :: "mirror_client \<Rightarrow> string \<Rightarrow> jsval \<Rightarrow> (mirror_world, unit) eff" where
  "call_mirror mirror m p w =
     (let (failure, others) = mirror (mw_turn w) m p;
          w' = w\<lparr>mw_turn := Suc (mw_turn w), mw_db := schedule_all others (mw_db w)\<rparr>
      in case failure of
           Some e \<Rightarrow> (Inl e, w')
         | None \<Rightarrow> (Inr (), w'\<lparr>mw_accepted := mw_accepted w @ [(m, p)]\<rparr>))"

record delivery_result =
  de_status :: string
  de_pendingRead :: nat
  de_delivered :: nat
  de_failedPermanent :: nat
  de_superseded :: nat
  de_remainingUnknown :: bool
  de_deferred :: bool
  de_errorCode :: "string option"

record delivery_counts =
  dc_delivered :: nat
  dc_failedPermanent :: nat
  dc_superseded :: nat

definition delivery_method :: "string \<Rightarrow> jserror + string" where
  "delivery_method m = (if m \<noteq> ''saveSyncRun'' \<and> m \<noteq> ''saveSystemAlert''
     then Inl (permanentError ''Reliability mirror outbox method is unsupported''
            ''RELIABILITY_MIRROR_METHOD_UNSUPPORTED'' JUndef) else Inr m)"

definition delivery_limit :: "jsval \<Rightarrow> jserror + int" where
  "delivery_limit v = (case safe_int (js_number v) of
       Some n \<Rightarrow> if 0 < n \<and> n \<le> 100 then Inr n
         else Inl (permanentError ''Reliability mirror limit must be between 1 and 100''
                ''RELIABILITY_MIRROR_LIMIT_INVALID'' JUndef)
     | None \<Rightarrow> Inl (permanentError ''Reliability mirror limit must be between 1 and 100''
                ''RELIABILITY_MIRROR_LIMIT_INVALID'' JUndef))"

definition mark_input :: "string \<Rightarrow> int \<Rightarrow> (string \<times> jsval) list \<Rightarrow> jsval" where
  "mark_input i revision extra = JObj ((''outboxId'', JStr i) # (''revision'', jint revision) # extra)"

definition deliver_valid ::
    "mirror_client \<Rightarrow> int \<Rightarrow> mirror_item \<Rightarrow> delivery_counts \<Rightarrow> (mirror_world, delivery_counts) eff" where
  "deliver_valid mirror clock item c =
     check (delivery_method (mi_method item)) (\<lambda>m.
     catching
       (andThen (call_mirror mirror m (mi_payload item)) (\<lambda>_.
        andThen (on_db (markDelivered (mark_input (mi_outboxId item) (mi_revision item) []) clock)) (\<lambda>ok.
          ret (if ok then c\<lparr>dc_delivered := dc_delivered c + 1\<rparr>
               else c\<lparr>dc_superseded := dc_superseded c + 1\<rparr>))))
       (\<lambda>cause. andThen (on_db (markDeliveryFailed (mark_input (mi_outboxId item) (mi_revision item)
            [(''errorCode'', JStr (case err_code cause of Some k \<Rightarrow> k | None \<Rightarrow> ''RELIABILITY_MIRROR_DELIVERY_FAILED'')),
             (''errorMessage'', JStr (err_message cause))]) clock)) (\<lambda>pending.
          if \<not> pending then ret (c\<lparr>dc_superseded := dc_superseded c + 1\<rparr>)
          else if isRetryableError cause then throw cause
          else throw (transientError ''Reliability mirror delivery remains pending after Lark rejection''
                 ''RELIABILITY_MIRROR_DELIVERY_RETRYABLE''
                 (JObj [(''causeCode'', err_code_val cause)])))))"

fun deliver_item ::
    "mirror_client \<Rightarrow> int \<Rightarrow> pending_item \<Rightarrow> delivery_counts \<Rightarrow> (mirror_world, delivery_counts) eff" where
  "deliver_item mirror clock (InvalidItem i revision code) c =
     andThen (on_db (markPermanentFailed (mark_input i revision [(''errorCode'', JStr code),
          (''errorMessage'', JStr ''Reliability mirror outbox failed validation'')]) clock)) (\<lambda>ok.
       ret (if ok then c\<lparr>dc_failedPermanent := dc_failedPermanent c + 1\<rparr>
            else c\<lparr>dc_superseded := dc_superseded c + 1\<rparr>))"
| "deliver_item mirror clock (ValidItem item) c = deliver_valid mirror clock item c"

fun deliver_items ::
    "mirror_client \<Rightarrow> int \<Rightarrow> pending_item list \<Rightarrow> delivery_counts \<Rightarrow> (mirror_world, delivery_counts) eff" where
  "deliver_items mirror clock [] c = ret c"
| "deliver_items mirror clock (x # xs) c =
     andThen (deliver_item mirror clock x c) (deliver_items mirror clock xs)"

definition deliver_pending ::
    "jserror + mirror_client \<Rightarrow> int \<Rightarrow> int \<Rightarrow> pending_item list \<Rightarrow> (mirror_world, delivery_result) eff" where
  "deliver_pending client clock limit pending =
     (let remaining = (int (length pending) = limit) in
     if pending = []
     then ret \<lparr>de_status = ''drained'', de_pendingRead = 0, de_delivered = 0, de_failedPermanent = 0,
            de_superseded = 0, de_remainingUnknown = False, de_deferred = False, de_errorCode = None\<rparr>
     else case client of
       Inl cause \<Rightarrow> ret \<lparr>de_status = ''delivery_deferred'', de_pendingRead = length pending,
            de_delivered = 0, de_failedPermanent = 0, de_superseded = 0,
            de_remainingUnknown = remaining, de_deferred = True,
            de_errorCode = Some (case err_code cause of Some c \<Rightarrow> c
              | None \<Rightarrow> ''RELIABILITY_MIRROR_RUNTIME_UNAVAILABLE'')\<rparr>
     | Inr mirror \<Rightarrow>
         andThen (deliver_items mirror clock pending
              \<lparr>dc_delivered = 0, dc_failedPermanent = 0, dc_superseded = 0\<rparr>) (\<lambda>c.
           ret \<lparr>de_status = (if remaining then ''bounded_batch_complete'' else ''drained''),
                de_pendingRead = length pending, de_delivered = dc_delivered c,
                de_failedPermanent = dc_failedPermanent c, de_superseded = dc_superseded c,
                de_remainingUnknown = remaining, de_deferred = False, de_errorCode = None\<rparr>))"

definition deliverReliabilityMirror ::
    "jsval \<Rightarrow> jserror + mirror_client \<Rightarrow> int \<Rightarrow> (mirror_world, delivery_result) eff" where
  "deliverReliabilityMirror input client clock =
     check (delivery_limit (nullish (jget input ''limit'') (jint 25))) (\<lambda>limit.
     andThen (on_db (listPending (JObj [(''limit'', jint limit)])))
       (deliver_pending client clock limit))"

subsection \<open>The store that schedules the mirror\<close>

definition dur_requireText :: "jsval \<Rightarrow> string \<Rightarrow> jserror + string" where
  "dur_requireText v f = requireText (''DurableMirrorReliabilityStore requires '' @ f) v"

definition dur_optionalText :: "jsval \<Rightarrow> jsval" where
  "dur_optionalText v = jopt (mir_nullableText v)"

definition dur_nonNegativeInteger :: "jsval \<Rightarrow> string \<Rightarrow> jserror + int" where
  "dur_nonNegativeInteger v f = safe_number (\<lambda>n. 0 \<le> n)
     (''DurableMirrorReliabilityStore '' @ f @ '' must be a non-negative integer'') v"

definition dur_optionalNonNegativeInteger :: "jsval \<Rightarrow> string \<Rightarrow> jserror + jsval" where
  "dur_optionalNonNegativeInteger v f = (if is_absent v then Inr JNull
     else bind_res (dur_nonNegativeInteger v f) (\<lambda>n. Inr (jint n)))"

definition toSyncRunMirrorPayload :: "jsval \<Rightarrow> jserror + jsval" where
  "toSyncRunMirrorPayload e =
     bind_res (dur_requireText (jget e ''syncId'') ''syncRun.syncId'') (\<lambda>i.
     bind_res (dur_requireText (jget e ''platform'') ''syncRun.platform'') (\<lambda>platform.
     bind_res (dur_requireText (jget e ''syncType'') ''syncRun.syncType'') (\<lambda>ty.
     bind_res (dur_requireText (jget e ''status'') ''syncRun.status'') (\<lambda>status.
     bind_res (dur_nonNegativeInteger (nullish (jget e ''recordsPulled'') (jint 0)) ''syncRun.recordsPulled'') (\<lambda>pulled.
     bind_res (dur_nonNegativeInteger (nullish (jget e ''recordsWritten'') (jint 0)) ''syncRun.recordsWritten'') (\<lambda>written.
     Inr (JObj [(''syncId'', JStr i), (''platform'', JStr platform), (''syncType'', JStr ty),
       (''status'', JStr status), (''recordsPulled'', jint pulled), (''recordsWritten'', jint written),
       (''errorCode'', dur_optionalText (jget e ''errorCode'')),
       (''errorMessage'', dur_optionalText (jget e ''errorMessage''))])))))))"

definition toSystemAlertMirrorPayload :: "jsval \<Rightarrow> jserror + jsval" where
  "toSystemAlertMirrorPayload a =
     bind_res (dur_requireText (jget a ''alertId'') ''alert.alertId'') (\<lambda>i.
     bind_res (dur_requireText (jget a ''alertType'') ''alert.alertType'') (\<lambda>ty.
     bind_res (dur_requireText (jget a ''severity'') ''alert.severity'') (\<lambda>severity.
     bind_res (dur_requireText (jget a ''platform'') ''alert.platform'') (\<lambda>platform.
     bind_res (dur_requireText (jget a ''status'') ''alert.status'') (\<lambda>status.
     bind_res (dur_requireText (jget a ''message'') ''alert.message'') (\<lambda>msg.
     bind_res (dur_optionalNonNegativeInteger (jget a ''createdAt'') ''alert.createdAt'') (\<lambda>created.
     Inr (JObj [(''alertId'', JStr i), (''syncRunId'', dur_optionalText (jget a ''syncRunId'')),
       (''alertType'', JStr ty), (''severity'', JStr severity), (''platform'', JStr platform),
       (''status'', JStr status), (''message'', JStr msg),
       (''errorCode'', dur_optionalText (jget a ''errorCode'')), (''createdAt'', created)]))))))))"

definition alert_value :: "alert_view \<Rightarrow> jsval" where
  "alert_value v = JObj [(''alertId'', JStr (av_alertId v)), (''syncRunId'', jopt (av_syncRunId v)),
     (''alertType'', JStr (av_alertType v)), (''severity'', JStr (av_severity v)),
     (''platform'', JStr (av_platform v)), (''status'', JStr (av_status v)),
     (''message'', JStr (av_message v)), (''errorCode'', jopt (av_errorCode v)),
     (''createdAt'', jopt_int (av_createdAt v))]"

text \<open>The reply: whether the wake-up signal was sent. \<open>signal\<close> is the outcome of the queue send.\<close>

definition scheduleMirror ::
    "string \<Rightarrow> jsval \<Rightarrow> jserror option \<Rightarrow> int \<Rightarrow> (d1, bool) eff" where
  "scheduleMirror method payload signal clock =
     andThen (schedule (JObj [(''method'', JStr method), (''payload'', payload)]) clock)
       (\<lambda>_. ret (signal = None))"

definition durable_saveSyncRun :: "jsval \<Rightarrow> jserror option \<Rightarrow> int \<Rightarrow> (d1, bool) eff" where
  "durable_saveSyncRun entry signal clock =
     andThen (saveSyncRun entry clock) (\<lambda>_.
     check (toSyncRunMirrorPayload entry) (\<lambda>payload.
     scheduleMirror ''saveSyncRun'' payload signal clock))"

definition durable_saveSystemAlert :: "jsval \<Rightarrow> jserror option \<Rightarrow> int \<Rightarrow> (d1, bool) eff" where
  "durable_saveSystemAlert alert signal clock =
     andThen (saveSystemAlert alert clock) (\<lambda>_.
     check (dur_requireText (jget alert ''alertId'') ''alert.alertId'') (\<lambda>i.
     andThen (readSystemAlertForMirror (JStr i)) (\<lambda>persisted.
     check (toSystemAlertMirrorPayload (alert_value persisted)) (\<lambda>payload.
     scheduleMirror ''saveSystemAlert'' payload signal clock))))"

definition durable_saveDeadLetter :: "jsval \<Rightarrow> int \<Rightarrow> (d1, bool) eff" where
  "durable_saveDeadLetter deadLetter clock = andThen (saveDeadLetter deadLetter clock) (\<lambda>_. ret False)"

section \<open>Guarantees\<close>

subsection \<open>The outbox table\<close>

lemma plain_last: "plain_text s \<Longrightarrow> s \<noteq> [] \<and> \<not> is_space (last s)"
proof -
  assume "plain_text s"
  then have s: "s \<noteq> []" "trim s = s" by (simp_all add: plain_text_def)
  then have "rev s = dropWhile is_space (rev (dropWhile is_space s))"
    unfolding trim_def by (metis rev_rev_ident)
  moreover have "rev s \<noteq> []" using s(1) by simp
  ultimately have "\<not> is_space (hd (rev s))" using hd_dropWhile by metis
  then show ?thesis using s(1) by (simp add: hd_rev)
qed

lemma built_id_plain:
  assumes "buildReliabilityMirrorOutboxId m p = Inr i"
  shows "plain_text i"
proof -
  obtain t where t: "plain_text t"
    and i: "i = ''reliability-mirror:sync-run:'' @ t \<or> i = ''reliability-mirror:system-alert:'' @ t"
    using assms
    by (auto simp: buildReliabilityMirrorOutboxId_def bind_res_Inr_iff mir_requireText_def
        dest: requireText_InrD split: if_splits)
  have "i \<noteq> []" "\<not> is_space (hd i)" "\<not> is_space (last i)"
    using i plain_last [OF t] by (auto simp: is_space_def)
  then show ?thesis using trim_ends by (simp add: plain_text_def)
qed

definition outbox_ok :: "d1 \<Rightarrow> bool" where
  "outbox_ok s \<longleftrightarrow> keyed mr_id (reliability_mirror_outbox s)
     \<and> (\<forall>r \<in> set (reliability_mirror_outbox s). plain_text (mr_id r)
          \<and> mr_method r \<in> {''saveSyncRun'', ''saveSystemAlert''})"

definition mirror_at :: "string \<Rightarrow> d1 \<Rightarrow> mirror_row option" where
  "mirror_at i s = row_at mr_id i (reliability_mirror_outbox s)"

lemma outbox_at: "outbox_ok s \<Longrightarrow> r \<in> set (reliability_mirror_outbox s) \<Longrightarrow> mirror_at (mr_id r) s = Some r"
  by (simp add: outbox_ok_def mirror_at_def row_at_in)

lemma outbox_in: "mirror_at i s = Some r \<Longrightarrow> r \<in> set (reliability_mirror_outbox s) \<and> mr_id r = i"
  using row_at_SomeD unfolding mirror_at_def by fast

lemma sql_schedule_at:
  "mirror_at j (snd (sql_schedule i m text now s)) =
    (if j = i then Some (case mirror_at i s of
         Some r \<Rightarrow> r\<lparr>mr_method := m, mr_payload := text, mr_status := MirrorPending,
                mr_revision := mr_revision r + 1, mr_last_error_code := None,
                mr_last_error_message := None, mr_delivered_at := None, mr_updated_at := now\<rparr>
       | None \<Rightarrow> \<lparr>mr_id = i, mr_method = m, mr_payload = text, mr_status = MirrorPending, mr_revision = 1,
           mr_attempts = 0, mr_last_error_code = None, mr_last_error_message = None,
           mr_created_at = now, mr_updated_at = now, mr_delivered_at = None\<rparr>)
     else mirror_at j s)"
  using row_at_upsert [of mr_id "\<lparr>mr_id = i, mr_method = m, mr_payload = text,
      mr_status = MirrorPending, mr_revision = 1,
      mr_attempts = 0, mr_last_error_code = None, mr_last_error_message = None,
      mr_created_at = now, mr_updated_at = now, mr_delivered_at = None\<rparr>"
      "\<lambda>r. r\<lparr>mr_method := m, mr_payload := text, mr_status := MirrorPending,
                mr_revision := mr_revision r + 1, mr_last_error_code := None,
                mr_last_error_message := None, mr_delivered_at := None, mr_updated_at := now\<rparr>" j
      "\<lambda>r. True" "reliability_mirror_outbox s"]
  by (simp add: mirror_at_def sql_schedule_def split: option.split)

lemma sql_mark_at:
  assumes "\<And>r. mr_id (f r) = mr_id r"
  shows "mirror_at j (snd (sql_mark_mirror i v f s)) = map_option (\<lambda>r.
    if j = i \<and> mr_status r = MirrorPending \<and> mr_revision r = v then f (r\<lparr>mr_attempts := mr_attempts r + 1\<rparr>)
    else r) (mirror_at j s)"
proof (cases "mirror_at j s")
  case None
  then show ?thesis using assms by (simp add: mirror_at_def sql_mark_mirror_def row_at_update)
next
  case (Some r)
  then show ?thesis using assms outbox_in [OF Some]
    by (auto simp: mirror_at_def sql_mark_mirror_def row_at_update)
qed

lemma sql_schedule_ok: "outbox_ok s \<Longrightarrow> plain_text i \<Longrightarrow> m \<in> {''saveSyncRun'', ''saveSystemAlert''} \<Longrightarrow>
    outbox_ok (snd (sql_schedule i m text now s))"
proof -
  assume s: "outbox_ok s" and i: "plain_text i" and m: "m \<in> {''saveSyncRun'', ''saveSystemAlert''}"
  let ?new = "\<lparr>mr_id = i, mr_method = m, mr_payload = text,
      mr_status = MirrorPending, mr_revision = 1,
      mr_attempts = 0, mr_last_error_code = None, mr_last_error_message = None,
      mr_created_at = now, mr_updated_at = now, mr_delivered_at = None\<rparr>"
  have "keyed mr_id (reliability_mirror_outbox (snd (sql_schedule i m text now s)))"
    using s keyed_upsert [of mr_id "reliability_mirror_outbox s" ?new]
    by (simp add: outbox_ok_def sql_schedule_def)
  moreover have "\<forall>r \<in> set (reliability_mirror_outbox (snd (sql_schedule i m text now s))). plain_text (mr_id r)
      \<and> mr_method r \<in> {''saveSyncRun'', ''saveSystemAlert''}"
    using s i m by (auto simp: outbox_ok_def sql_schedule_def sql_upsert_def sql_update_def)
  ultimately show ?thesis by (simp add: outbox_ok_def)
qed

lemma sql_mark_ok:
  "(\<And>r. mr_id (f r) = mr_id r) \<Longrightarrow> (\<And>r. mr_method (f r) = mr_method r) \<Longrightarrow> outbox_ok s \<Longrightarrow> outbox_ok (snd (sql_mark_mirror i v f s))"
  by (auto simp: outbox_ok_def sql_mark_mirror_def sql_update_def keyed_update [unfolded sql_update_def, simplified])

text \<open>The effect of each operation, as the statement it may run.\<close>

lemma schedule_evolves:
  assumes "reflp R" "transp R" "fault_blind R"
    and "\<And>m p i now s. m \<in> {''saveSyncRun'', ''saveSystemAlert''} \<Longrightarrow>
      buildReliabilityMirrorOutboxId (JStr m) p = Inr i \<Longrightarrow> R s (snd (sql_schedule i m (JsonText (json_norm p)) now s))"
  shows "evolves R (schedule input clock)"
  unfolding schedule_def
  by (intro evolves_intro assms(1-3)) (auto simp: serializePayload_def Let_def mirror_method_def bind_res_Inr_iff intro: assms(4)
      split: if_splits)

lemma mark_failure_evolves:
  assumes "reflp R" "transp R" "fault_blind R"
    and "\<And>i v code message at s. R s (snd (sql_mark_mirror i v (\<lambda>r. g (r\<lparr>mr_last_error_code := Some code,
            mr_last_error_message := Some message, mr_updated_at := at\<rparr>)) s))"
  shows "evolves R (mark_failure a b c d g input clock)"
  unfolding mark_failure_def Let_def by (intro evolves_intro assms)

lemma markDelivered_evolves:
  assumes "reflp R" "transp R" "fault_blind R"
    and "\<And>v i at s. jget input ''outboxId'' = JStr i \<Longrightarrow> jget input ''revision'' = jint v \<Longrightarrow>
      R s (snd (sql_mark_mirror (trim i) v (\<lambda>r. r\<lparr>mr_status := MirrorDelivered,
            mr_last_error_code := None, mr_last_error_message := None,
            mr_delivered_at := coalesce (mr_delivered_at r) (Some at), mr_updated_at := at\<rparr>) s))"
    and "jget input ''revision'' = jint v0"
  shows "evolves R (markDelivered input clock)"
  unfolding markDelivered_def
  by (intro evolves_intro assms(1-3))
    (use assms(4,5) in \<open>auto simp: mir_requireText_def requireText_def mir_positiveInteger_def
      dest!: safe_number_jintD split: jsval.splits if_splits\<close>)
subsection \<open>A delivered record was accepted\<close>

definition accepted_in :: "(string \<times> jsval) set \<Rightarrow> d1 \<Rightarrow> bool" where
  "accepted_in acc s \<longleftrightarrow> outbox_ok s \<and> (\<forall>i r. mirror_at i s = Some r \<and> mr_status r = MirrorDelivered \<longrightarrow>
     (\<exists>p. json_parse (mr_payload r) = Some p \<and> (mr_method r, p) \<in> acc))"

text \<open>The row of a listed item is still there, and carries the item's payload at its revision.\<close>

definition fresh_item :: "mirror_item \<Rightarrow> d1 \<Rightarrow> bool" where
  "fresh_item it s \<longleftrightarrow> plain_text (mi_outboxId it) \<and> (\<exists>r. mirror_at (mi_outboxId it) s = Some r
     \<and> mi_revision it \<le> mr_revision r
     \<and> (mr_revision r = mi_revision it \<longrightarrow>
          mr_method r = mi_method it \<and> json_parse (mr_payload r) = Some (mi_payload it)))"

definition faithful :: "(string \<times> jsval) set \<Rightarrow> mirror_item set \<Rightarrow> d1 \<Rightarrow> bool" where
  "faithful acc its s \<longleftrightarrow> accepted_in acc s \<and> (\<forall>it \<in> its. fresh_item it s)"

lemma faithful_mono: "faithful acc its s \<Longrightarrow> acc \<subseteq> acc' \<Longrightarrow> faithful acc' its s"
  by (fastforce simp: faithful_def accepted_in_def)

lemma outbox_faults [simp]:
  "mirror_at i (s\<lparr>faults := fs\<rparr>) = mirror_at i s" "outbox_ok (s\<lparr>faults := fs\<rparr>) = outbox_ok s"
  by (simp_all add: mirror_at_def outbox_ok_def)

lemma accepted_faults [simp]:
  "accepted_in acc (s\<lparr>faults := fs\<rparr>) = accepted_in acc s"
  "fresh_item it (s\<lparr>faults := fs\<rparr>) = fresh_item it s"
  unfolding accepted_in_def fresh_item_def outbox_faults by (rule refl)+

lemma faithful_faults [simp]: "faithful acc its (s\<lparr>faults := fs\<rparr>) = faithful acc its s"
  unfolding faithful_def accepted_faults by (rule refl)

lemma faithful_blind [simp]: "fault_blind (keeping (faithful acc its))"
  by (simp add: fault_blind_def keeping_def)

lemma schedule_fresh: "fresh_item it s \<Longrightarrow> fresh_item it (snd (sql_schedule i m text now s))"
proof -
  assume it: "fresh_item it s"
  then obtain r where r: "mirror_at (mi_outboxId it) s = Some r" "mi_revision it \<le> mr_revision r"
    "mr_revision r = mi_revision it \<longrightarrow> mr_method r = mi_method it \<and> json_parse (mr_payload r) = Some (mi_payload it)"
    by (auto simp: fresh_item_def)
  show ?thesis
  proof (cases "mi_outboxId it = i")
    case True
    then show ?thesis using it r(1,2) by (simp add: fresh_item_def sql_schedule_at)
  next
    case False
    then show ?thesis using it r by (simp add: fresh_item_def sql_schedule_at)
  qed
qed

lemma schedule_accepted:
  assumes "accepted_in acc s" "plain_text i" "m \<in> {''saveSyncRun'', ''saveSystemAlert''}"
  shows "accepted_in acc (snd (sql_schedule i m text now s))"
  unfolding accepted_in_def
proof (intro conjI allI impI)
  show "outbox_ok (snd (sql_schedule i m text now s))"
    using assms by (intro sql_schedule_ok) (simp_all add: accepted_in_def)
  fix j r assume r: "mirror_at j (snd (sql_schedule i m text now s)) = Some r \<and> mr_status r = MirrorDelivered"
  then have "j \<noteq> i" by (auto simp: sql_schedule_at split: option.splits)
  then show "\<exists>p. json_parse (mr_payload r) = Some p \<and> (mr_method r, p) \<in> acc"
    using r assms(1) by (auto simp: sql_schedule_at accepted_in_def)
qed

lemma schedule_faithful: "evolves (keeping (faithful acc its)) (schedule input clock)"
proof (rule schedule_evolves)
  fix m p i now s
  assume m: "m \<in> {''saveSyncRun'', ''saveSystemAlert''}"
    and i: "buildReliabilityMirrorOutboxId (JStr m) p = Inr i"
  show "keeping (faithful acc its) s (snd (sql_schedule i m (JsonText (json_norm p)) now s))"
    using schedule_accepted [OF _ built_id_plain [OF i] m] schedule_fresh
    unfolding keeping_def faithful_def by blast
qed simp_all

definition row_content :: "mirror_row \<Rightarrow> string \<times> int \<times> string \<times> json_text" where
  "row_content r = (mr_id r, mr_revision r, mr_method r, mr_payload r)"

lemma content_attempts [simp]: "row_content (r\<lparr>mr_attempts := n\<rparr>) = row_content r"
  by (simp add: row_content_def)

lemma mark_back:
  assumes "\<And>r. row_content (f r) = row_content r" "mirror_at j (snd (sql_mark_mirror i v f s)) = Some r'"
  obtains (kept) "mirror_at j s = Some r'"
    | (marked) r where "mirror_at j s = Some r" "j = i" "mr_status r = MirrorPending" "mr_revision r = v"
        "r' = f (r\<lparr>mr_attempts := mr_attempts r + 1\<rparr>)" "row_content r' = row_content r"
proof -
  have id: "mr_id (f r) = mr_id r" for r using assms(1) [of r] by (simp add: row_content_def)
  obtain r where r: "mirror_at j s = Some r" and r': "r' = (if j = i \<and> mr_status r = MirrorPending
      \<and> mr_revision r = v then f (r\<lparr>mr_attempts := mr_attempts r + 1\<rparr>) else r)"
    using assms(2) unfolding sql_mark_at [of f, OF id] by (cases "mirror_at j s") auto
  show ?thesis
  proof (cases "j = i \<and> mr_status r = MirrorPending \<and> mr_revision r = v")
    case True
    then show ?thesis using r r' assms(1) by (intro marked [OF r]) auto
  next
    case False
    then have "r' = r" using r' by argo
    then show ?thesis using r by (intro kept) simp
  qed
qed

lemma mark_forth:
  assumes "\<And>r. row_content (f r) = row_content r" "mirror_at j s = Some r"
  obtains r' where "mirror_at j (snd (sql_mark_mirror i v f s)) = Some r'" "row_content r' = row_content r"
proof -
  have id: "mr_id (f r) = mr_id r" for r using assms(1) [of r] by (simp add: row_content_def)
  show ?thesis
    using assms(2) that sql_mark_at [of f j i v s, OF id] assms(1)
    by (cases "j = i \<and> mr_status r = MirrorPending \<and> mr_revision r = v") auto
qed

lemma mark_fresh:
  assumes "\<And>r. row_content (f r) = row_content r" "fresh_item it s"
  shows "fresh_item it (snd (sql_mark_mirror i v f s))"
proof -
  obtain r where r: "mirror_at (mi_outboxId it) s = Some r" "mi_revision it \<le> mr_revision r"
    "mr_revision r = mi_revision it \<longrightarrow> mr_method r = mi_method it \<and> json_parse (mr_payload r) = Some (mi_payload it)"
    using assms(2) by (auto simp: fresh_item_def)
  obtain r' where "mirror_at (mi_outboxId it) (snd (sql_mark_mirror i v f s)) = Some r'"
    "row_content r' = row_content r"
    using mark_forth [of f, OF assms(1) r(1)] .
  then show ?thesis using r assms(2) by (simp add: fresh_item_def row_content_def)
qed

lemma mark_ok:
  assumes "\<And>r. row_content (f r) = row_content r" "outbox_ok s"
  shows "outbox_ok (snd (sql_mark_mirror i v f s))"
  using sql_mark_ok [of f s i v] assms by (simp add: row_content_def)

lemma mark_accepted:
  assumes f: "\<And>r. row_content (f r) = row_content r" and s: "accepted_in acc s"
    and new: "\<And>r. mirror_at i s = Some r \<Longrightarrow> mr_revision r = v \<Longrightarrow> mr_status r = MirrorPending \<Longrightarrow>
      mr_status (f (r\<lparr>mr_attempts := mr_attempts r + 1\<rparr>)) = MirrorDelivered \<Longrightarrow>
      \<exists>p. json_parse (mr_payload r) = Some p \<and> (mr_method r, p) \<in> acc"
  shows "accepted_in acc (snd (sql_mark_mirror i v f s))"
  unfolding accepted_in_def
proof (intro conjI allI impI)
  show "outbox_ok (snd (sql_mark_mirror i v f s))"
    using s by (intro mark_ok f) (simp add: accepted_in_def)
  fix j r'
  assume r': "mirror_at j (snd (sql_mark_mirror i v f s)) = Some r' \<and> mr_status r' = MirrorDelivered"
  then have at: "mirror_at j (snd (sql_mark_mirror i v f s)) = Some r'" by simp
  from f at show "\<exists>p. json_parse (mr_payload r') = Some p \<and> (mr_method r', p) \<in> acc"
  proof (cases rule: mark_back)
    case kept
    then show ?thesis using r' s by (simp add: accepted_in_def)
  next
    case (marked r)
    then show ?thesis using new [of r] r' by (simp add: row_content_def)
  qed
qed

lemma failure_faithful:
  assumes "\<And>r. row_content (g r) = row_content r"
    and "\<And>r. mr_status (g r) = MirrorDelivered \<Longrightarrow> mr_status r = MirrorDelivered"
  shows "evolves (keeping (faithful acc its)) (mark_failure a b c d g input clock)"
proof (rule mark_failure_evolves)
  fix i v code message at s
  let ?f = "\<lambda>r. g (r\<lparr>mr_last_error_code := Some code, mr_last_error_message := Some message,
      mr_updated_at := at\<rparr>)"
  have f: "row_content (?f r) = row_content r" for r
    unfolding assms(1) by (simp add: row_content_def)
  have "accepted_in acc (snd (sql_mark_mirror i v ?f s))" if "accepted_in acc s"
    by (rule mark_accepted [of ?f, OF f that]) (auto dest: assms(2))
  then show "keeping (faithful acc its) s (snd (sql_mark_mirror i v ?f s))"
    using mark_fresh [of ?f, OF f] by (auto simp: keeping_def faithful_def)
qed simp_all

lemma delivered_faithful:
  assumes "it \<in> its" "(mi_method it, mi_payload it) \<in> acc"
  shows "evolves (keeping (faithful acc its)) (markDelivered (mark_input (mi_outboxId it) (mi_revision it) []) clock)"
proof (rule markDelivered_evolves)
  fix v i at s
  assume "jget (mark_input (mi_outboxId it) (mi_revision it) []) ''outboxId'' = JStr i"
    "jget (mark_input (mi_outboxId it) (mi_revision it) []) ''revision'' = jint v"
  then have iv: "i = mi_outboxId it" "v = mi_revision it" by (simp_all add: mark_input_def)
  let ?f = "\<lambda>r. r\<lparr>mr_status := MirrorDelivered, mr_last_error_code := None,
     mr_last_error_message := None, mr_delivered_at := coalesce (mr_delivered_at r) (Some at),
     mr_updated_at := at\<rparr>"
  have f: "row_content (?f r) = row_content r" for r by (simp add: row_content_def)
  have "accepted_in acc (snd (sql_mark_mirror (trim i) v ?f s))" if s: "faithful acc its s"
  proof (rule mark_accepted [of ?f, OF f])
    show "accepted_in acc s" using s by (simp add: faithful_def)
    fix r assume r: "mirror_at (trim i) s = Some r" "mr_revision r = v"
    have fr: "fresh_item it s" using s assms(1) by (simp add: faithful_def)
    then have "trim i = mi_outboxId it" using iv by (simp add: fresh_item_def plain_text_def)
    then show "\<exists>p. json_parse (mr_payload r) = Some p \<and> (mr_method r, p) \<in> acc"
      using fr r iv(2) assms(2) by (auto simp: fresh_item_def)
  qed
  then show "keeping (faithful acc its) s (snd (sql_mark_mirror (trim i) v ?f s))"
    using mark_fresh [of ?f, OF f] by (auto simp: keeping_def faithful_def)
qed (simp_all add: mark_input_def)
text \<open>The same for a whole run, with the calls it makes and what other invocations schedule meanwhile.\<close>

definition world_faithful :: "mirror_item set \<Rightarrow> mirror_world \<Rightarrow> bool" where
  "world_faithful its w \<longleftrightarrow> faithful (set (mw_accepted w)) its (mw_db w)"

lemma schedule_all_keeps:
  "(\<And>input clock. evolves (keeping P) (schedule input clock)) \<Longrightarrow> keeping P s (schedule_all others s)"
proof (induction others arbitrary: s)
  case (Cons x xs)
  obtain input clock where x: "x = (input, clock)" by force
  have "keeping P s (snd (schedule input clock s))"
    using Cons.prems by (simp add: evolves_def)
  moreover have "keeping P (snd (schedule input clock s)) (schedule_all xs (snd (schedule input clock s)))"
    using Cons.IH Cons.prems by blast
  ultimately show ?case by (simp add: keeping_def schedule_all_def x)
qed (simp add: keeping_def schedule_all_def)

lemma on_db_evolves:
  "evolves (keeping P) m \<Longrightarrow> evolves (keeping (\<lambda>w. P (mw_db w))) (on_db m)"
  by (simp add: evolves_def on_db_def keeping_def)

lemma on_db_faithful:
  "(\<And>acc. evolves (keeping (faithful acc its)) m) \<Longrightarrow> evolves (keeping (world_faithful its)) (on_db m)"
  by (simp add: evolves_def on_db_def keeping_def world_faithful_def)

lemma call_mirror_faithful:
  assumes "world_faithful its w" "call_mirror mirror m p w = (r, w')"
  shows "world_faithful its w' \<and> (\<forall>x. r = Inr x \<longrightarrow> (m, p) \<in> set (mw_accepted w'))"
proof -
  obtain failure others where mir: "mirror (mw_turn w) m p = (failure, others)" by force
  have "faithful (set (mw_accepted w)) its (schedule_all others (mw_db w))"
    using schedule_all_keeps [OF schedule_faithful, of "set (mw_accepted w)" its "mw_db w" others] assms(1)
    by (simp add: keeping_def world_faithful_def)
  then have "faithful (set (mw_accepted w) \<union> {(m, p)}) its (schedule_all others (mw_db w))"
    "faithful (set (mw_accepted w)) its (schedule_all others (mw_db w))"
    using faithful_mono by blast+
  then show ?thesis using assms(2) mir
    by (auto simp: call_mirror_def world_faithful_def Let_def split: option.splits)
qed

lemma deliver_valid_faithful:
  assumes "it \<in> its"
  shows "evolves (keeping (world_faithful its)) (deliver_valid mirror clock it c)"
proof -
  let ?mark = "markDelivered (mark_input (mi_outboxId it) (mi_revision it) []) clock"
  have body: "evolves (keeping (world_faithful its)) (andThen (call_mirror mirror (mi_method it) (mi_payload it))
      (\<lambda>_. andThen (on_db ?mark) (\<lambda>ok. ret (if ok then c\<lparr>dc_delivered := dc_delivered c + 1\<rparr>
               else c\<lparr>dc_superseded := dc_superseded c + 1\<rparr>))))" (is "evolves _ ?body")
  proof (rule evolvesI)
    fix w
    obtain r w1 where call: "call_mirror mirror (mi_method it) (mi_payload it) w = (r, w1)" by force
    show "keeping (world_faithful its) w (snd (?body w))"
      unfolding keeping_def
    proof
      assume w: "world_faithful its w"
      note w1 = call_mirror_faithful [OF w call]
      show "world_faithful its (snd (?body w))"
      proof (cases r)
        case (Inr x)
        have "evolves (keeping (faithful (set (mw_accepted w1)) its)) ?mark"
          using delivered_faithful [OF assms] w1 Inr by blast
        then have "world_faithful its (snd (on_db ?mark w1))"
          using w1 by (simp add: evolves_def keeping_def on_db_def world_faithful_def)
        then show ?thesis
          by (cases "on_db ?mark w1") (auto simp: eff_simps call Inr split: sum.split)
      qed (use w1 call in \<open>simp add: eff_simps\<close>)
    qed
  qed
  have fail: "evolves (keeping (world_faithful its)) (on_db (markDeliveryFailed i clock))" for i
    unfolding markDeliveryFailed_def by (rule on_db_faithful, rule failure_faithful) simp_all
  show ?thesis
  proof (cases "delivery_method (mi_method it)")
    case (Inr m)
    then have "m = mi_method it" by (simp add: delivery_method_def split: if_splits)
    then have m: "delivery_method (mi_method it) = Inr (mi_method it)" using Inr by simp
    show ?thesis
      unfolding deliver_valid_def m check_Inr
      by (rule evolves_catching [OF transp_keeping body]) (intro evolves_intro fail; simp)
  qed (simp add: deliver_valid_def evolves_intro)
qed

lemma invalid_faithful:
  "evolves (keeping (world_faithful its)) (deliver_item mirror clock (InvalidItem i v code) c)"
  unfolding deliver_item.simps markPermanentFailed_def
  by (intro evolves_intro on_db_faithful failure_faithful) (simp_all add: row_content_def)

lemma items_faithful:
  "{it. ValidItem it \<in> set xs} \<subseteq> its \<Longrightarrow>
   evolves (keeping (world_faithful its)) (deliver_items mirror clock xs c)"
proof (induction xs arbitrary: c)
  case (Cons x xs)
  have "evolves (keeping (world_faithful its)) (deliver_item mirror clock x c)"
    using Cons.prems deliver_valid_faithful invalid_faithful by (cases x) auto
  then show ?case using Cons by (auto intro!: evolves_andThen)
qed (auto intro: evolves_intro)

lemma mirror_methods:
  "mirror_method (JStr ''saveSyncRun'') = Inr ''saveSyncRun''"
  "mirror_method (JStr ''saveSystemAlert'') = Inr ''saveSystemAlert''"
  by code_simp+

lemma normalize_parts:
  assumes "normalizePendingRow r = Inr it" "mirror_method (JStr (mr_method r)) = Inr m"
  obtains p i v where "parsePayload (mr_payload r) = Inr p"
    "mir_requireText (JStr (mr_id r)) ''outbox_id'' = Inr i"
    "mir_positiveInteger (jint (mr_revision r)) ''revision'' = Inr v"
    "mi_outboxId it = i" "mi_revision it = v" "mi_method it = m" "mi_payload it = p"
proof -
  obtain p where p: "parsePayload (mr_payload r) = Inr p"
    using assms by (cases "parsePayload (mr_payload r)") (simp_all add: normalizePendingRow_def)
  obtain e where e: "buildReliabilityMirrorOutboxId (JStr m) p = Inr e"
    using assms p by (cases "buildReliabilityMirrorOutboxId (JStr m) p") (simp_all add: normalizePendingRow_def)
  obtain i where i: "mir_requireText (JStr (mr_id r)) ''outbox_id'' = Inr i"
    using assms p e by (cases "mir_requireText (JStr (mr_id r)) ''outbox_id''") (simp_all add: normalizePendingRow_def)
  obtain v where v: "mir_positiveInteger (jint (mr_revision r)) ''revision'' = Inr v"
    using assms p e i by (cases "mir_positiveInteger (jint (mr_revision r)) ''revision''")
      (simp_all add: normalizePendingRow_def split: if_splits)
  have "mi_outboxId it = i \<and> mi_revision it = v \<and> mi_method it = m \<and> mi_payload it = p"
    using assms p e i v by (auto simp: normalizePendingRow_def bind_res_def split: if_splits sum.splits)
  then show ?thesis using that p i v by simp
qed

lemma normalize_fresh:
  assumes "outbox_ok s" "r \<in> set (reliability_mirror_outbox s)" "normalizePendingRow r = Inr it"
  shows "fresh_item it s \<and> mi_outboxId it = mr_id r \<and> mi_revision it = mr_revision r
    \<and> mi_method it = mr_method r \<and> json_parse (mr_payload r) = Some (mi_payload it)"
proof -
  have r: "plain_text (mr_id r)" "mr_method r \<in> {''saveSyncRun'', ''saveSystemAlert''}"
    using assms(1,2) by (auto simp: outbox_ok_def)
  have m: "mirror_method (JStr (mr_method r)) = Inr (mr_method r)"
    using r(2) mirror_methods by (elim insertE emptyE) simp_all
  obtain p i v where p: "parsePayload (mr_payload r) = Inr p"
    and i: "mir_requireText (JStr (mr_id r)) ''outbox_id'' = Inr i"
    and v: "mir_positiveInteger (jint (mr_revision r)) ''revision'' = Inr v"
    and it: "mi_outboxId it = i" "mi_revision it = v" "mi_method it = mr_method r" "mi_payload it = p"
    by (rule normalize_parts [OF assms(3) m])
  have "i = mr_id r" using i r(1) by (simp add: mir_requireText_def)
  moreover have "v = mr_revision r" using v by (auto simp: mir_positiveInteger_def dest: safe_number_jintD)
  moreover have "json_parse (mr_payload r) = Some p"
    using p by (auto simp: parsePayload_def requirePayload_def split: option.splits if_splits)
  ultimately have f: "mi_outboxId it = mr_id r" "mi_revision it = mr_revision r" "mi_method it = mr_method r"
    "json_parse (mr_payload r) = Some (mi_payload it)" using it by simp_all
  then show ?thesis using outbox_at [OF assms(1,2)] r(1) by (simp add: fresh_item_def)
qed

lemma map_res_mem: "map_res f xs = Inr ys \<Longrightarrow> y \<in> set ys \<Longrightarrow> \<exists>x \<in> set xs. f x = Inr y"
proof (induction xs arbitrary: ys)
  case (Cons x xs)
  obtain z zs where "f x = Inr z" "map_res f xs = Inr zs" "ys = z # zs"
    using Cons.prems(1) by (auto simp: bind_res_Inr_iff)
  then show ?case using Cons.IH [of zs] Cons.prems(2) by (cases "y = z") simp_all
qed simp

lemma catch_Inr:
  "catching m h s = (Inr x, t) \<Longrightarrow> (\<And>e u. \<exists>e'. h e u = (Inl e', u)) \<Longrightarrow> m s = (Inr x, t)"
  by (auto simp: catching_run split: prod.splits sum.splits) (metis Inl_Inr_False prod.inject)

lemma listPending_reply:
  assumes "listPending input s = (Inr xs, t)"
  obtains n where "t = spend_fault s" "map_res normalizePendingRowSafely (pending_rows n t) = Inr xs"
proof (cases "mir_boundedLimit (nullish (jget input ''limit'') (jint 25))")
  case (Inr limit)
  have "andThen (query (pending_rows (nat limit))) (\<lambda>rows.
          check (map_res normalizePendingRowSafely rows) ret) s = (Inr xs, t)"
  proof (rule catch_Inr)
    show "catching (andThen (query (pending_rows (nat limit))) (\<lambda>rows.
          check (map_res normalizePendingRowSafely rows) ret))
        (\<lambda>cause. if err_retryable cause = Some False then throw cause
          else throw (d1Error ''Failed to read reliability mirror outbox''
                        ''D1_RELIABILITY_MIRROR_OUTBOX_READ_FAILED'' cause)) s = (Inr xs, t)"
      using assms Inr by (simp add: listPending_def)
  qed (simp add: throw_def)
  then obtain rows u where q: "query (pending_rows (nat limit)) s = (Inr rows, u)"
    and m: "map_res normalizePendingRowSafely rows = Inr xs" "t = u"
    by (auto simp: eff_simps split: prod.splits sum.splits)
  note u = query_InrD [OF q]
  show ?thesis by (rule that [of "nat limit"]) (use u m in simp_all)
qed (use assms in \<open>simp add: listPending_def eff_simps\<close>)

lemma pending_in: "r \<in> set (pending_rows n s) \<Longrightarrow> r \<in> set (reliability_mirror_outbox s) \<and> mr_status r = MirrorPending"
  unfolding pending_rows_def sql_select_def by (auto dest: in_set_takeD)

lemma listed_item:
  assumes "listPending input s = (Inr xs, t)" "x \<in> set xs"
  obtains r where "r \<in> set (reliability_mirror_outbox t)" "normalizePendingRowSafely r = Inr x"
proof -
  obtain n where "map_res normalizePendingRowSafely (pending_rows n t) = Inr xs"
    using listPending_reply [OF assms(1)] .
  then obtain r where "r \<in> set (pending_rows n t)" "normalizePendingRowSafely r = Inr x"
    using map_res_mem assms(2) by fast
  then show ?thesis using pending_in that by blast
qed

lemma safely_cases:
  assumes "normalizePendingRowSafely r = Inr x"
  obtains (valid) it where "x = ValidItem it" "normalizePendingRow r = Inr it"
    | (invalid) i v code e where "x = InvalidItem i v code" "normalizePendingRow r = Inl e"
        "mir_requireText (JStr (mr_id r)) ''outbox_id'' = Inr i"
proof (cases "normalizePendingRow r")
  case (Inl e)
  then obtain i v code where "x = InvalidItem i v code" "mir_requireText (JStr (mr_id r)) ''outbox_id'' = Inr i"
    using assms by (auto simp: normalizePendingRowSafely_def bind_res_Inr_iff split: if_splits)
  then show ?thesis using Inl by (intro invalid)
next
  case (Inr it)
  then have "x = ValidItem it" using assms by (auto simp: normalizePendingRowSafely_def bind_res_Inr_iff)
  then show ?thesis using Inr by (intro valid)
qed

lemma listPending_evolves: "reflp R \<Longrightarrow> transp R \<Longrightarrow> fault_blind R \<Longrightarrow> evolves R (listPending input)"
  unfolding listPending_def by (intro evolves_intro)

lemma deliver_pending_steps:
  assumes "\<And>mirror c. keeping P w (snd (deliver_items mirror clock xs c w))"
  shows "keeping P w (snd (deliver_pending client clock limit xs w))"
proof (cases client)
  case (Inr mirror)
  let ?c = "\<lparr>dc_delivered = 0, dc_failedPermanent = 0, dc_superseded = 0\<rparr>"
  show ?thesis using assms [of mirror ?c] Inr
    by (cases "deliver_items mirror clock xs ?c w")
      (auto simp: deliver_pending_def Let_def eff_simps keeping_def split: sum.split)
qed (simp add: deliver_pending_def Let_def eff_simps keeping_def)

lemma delivery_steps:
  assumes "\<And>i xs s. listPending i (mw_db w) = (Inr xs, s) \<Longrightarrow>
      keeping P w (snd (deliver_pending client clock limit xs (w\<lparr>mw_db := s\<rparr>)))"
    and "\<And>i r s. listPending i (mw_db w) = (r, s) \<Longrightarrow> keeping P w (w\<lparr>mw_db := s\<rparr>)"
    and "delivery_limit (nullish (jget input ''limit'') (jint 25)) = Inr limit"
  shows "keeping P w (snd (deliverReliabilityMirror input client clock w))"
proof (cases "listPending (JObj [(''limit'', jint limit)]) (mw_db w)")
  case (Pair r s)
  then show ?thesis using assms(1,3) assms(2) [OF Pair]
    by (cases r) (auto simp: deliverReliabilityMirror_def eff_simps on_db_def)
qed

lemma listed_fresh:
  assumes "outbox_ok t" "listPending i s = (Inr xs, t)" "ValidItem it \<in> set xs"
  shows "fresh_item it t"
proof -
  obtain r where r: "r \<in> set (reliability_mirror_outbox t)" "normalizePendingRowSafely r = Inr (ValidItem it)"
    using listed_item [OF assms(2,3)] .
  then have "normalizePendingRow r = Inr it" by (cases rule: safely_cases [OF r(2)]) auto
  then show ?thesis using normalize_fresh [OF assms(1) r(1)] by blast
qed

lemma items_faithful_listed:
  assumes "listPending i before = (Inr xs, mw_db w)"
  shows "keeping (world_faithful {}) w (snd (deliver_items mirror clock xs c w))"
  unfolding keeping_def
proof
  let ?its = "{it. ValidItem it \<in> set xs}"
  assume f: "world_faithful {} w"
  then have ok: "outbox_ok (mw_db w)" by (simp add: world_faithful_def faithful_def accepted_in_def)
  have "world_faithful ?its w"
    using f listed_fresh [OF ok assms] by (simp add: world_faithful_def faithful_def)
  then have "world_faithful ?its (snd (deliver_items mirror clock xs c w))"
    using items_faithful [of xs ?its mirror clock c] by (simp add: evolves_def keeping_def)
  then show "world_faithful {} (snd (deliver_items mirror clock xs c w))"
    by (simp add: world_faithful_def faithful_def)
qed

lemma listed_world_faithful:
  assumes "listPending i (mw_db w) = (r, s)"
  shows "keeping (world_faithful {}) w (w\<lparr>mw_db := s\<rparr>)"
proof -
  have "keeping (faithful acc {}) (mw_db w) s" for acc
    by (rule evolvesD [OF listPending_evolves assms]) simp_all
  then show ?thesis by (simp add: keeping_def world_faithful_def)
qed

lemma delivery_faithful: "evolves (keeping (world_faithful {})) (deliverReliabilityMirror input client clock)"
proof (rule evolvesI)
  fix w
  show "keeping (world_faithful {}) w (snd (deliverReliabilityMirror input client clock w))"
  proof (cases "delivery_limit (nullish (jget input ''limit'') (jint 25))")
    case (Inr limit)
    show ?thesis
    proof (rule delivery_steps [OF _ listed_world_faithful Inr])
      fix i xs s assume l: "listPending i (mw_db w) = (Inr xs, s)"
      have "keeping (world_faithful {}) (w\<lparr>mw_db := s\<rparr>) (snd (deliver_pending client clock limit xs (w\<lparr>mw_db := s\<rparr>)))"
        by (rule deliver_pending_steps, rule items_faithful_listed [where before = "mw_db w"]) (use l in simp)
      then show "keeping (world_faithful {}) w (snd (deliver_pending client clock limit xs (w\<lparr>mw_db := s\<rparr>)))"
        using listed_world_faithful [OF l] by (simp add: keeping_def)
    qed
  qed (simp add: deliverReliabilityMirror_def eff_simps keeping_def)
qed

subsection \<open>Only invalid rows are quarantined\<close>

definition quarantined_in :: "(string \<Rightarrow> bool) \<Rightarrow> d1 \<Rightarrow> bool" where
  "quarantined_in bad s \<longleftrightarrow> (\<forall>i r. mirror_at i s = Some r \<and> mr_status r = MirrorFailedPermanent \<longrightarrow> bad i)"

lemma quarantined_faults [simp]: "quarantined_in bad (s\<lparr>faults := fs\<rparr>) = quarantined_in bad s"
  unfolding quarantined_in_def outbox_faults by (rule refl)

lemma quarantined_blind [simp]: "fault_blind (keeping (quarantined_in bad))"
  by (simp add: fault_blind_def keeping_def)

lemma schedule_quarantined: "evolves (keeping (quarantined_in bad)) (schedule input clock)"
proof (rule schedule_evolves)
  fix m p i now s
  show "keeping (quarantined_in bad) s (snd (sql_schedule i m (JsonText (json_norm p)) now s))"
    unfolding keeping_def quarantined_in_def
  proof (intro impI allI)
    fix j r
    assume s: "\<forall>i r. mirror_at i s = Some r \<and> mr_status r = MirrorFailedPermanent \<longrightarrow> bad i"
      and r: "mirror_at j (snd (sql_schedule i m (JsonText (json_norm p)) now s)) = Some r
        \<and> mr_status r = MirrorFailedPermanent"
    then have "j \<noteq> i" by (auto simp: sql_schedule_at split: option.splits)
    then show "bad j" using r s by (simp add: sql_schedule_at)
  qed
qed simp_all

lemma mark_quarantined:
  assumes f: "\<And>r. row_content (f r) = row_content r"
    and new: "\<And>r. mr_status r = MirrorPending \<Longrightarrow> mr_status (f r) = MirrorFailedPermanent \<Longrightarrow> bad i"
  shows "keeping (quarantined_in bad) s (snd (sql_mark_mirror i v f s))"
  unfolding keeping_def quarantined_in_def
proof (intro impI allI)
  fix j r'
  assume s: "\<forall>i r. mirror_at i s = Some r \<and> mr_status r = MirrorFailedPermanent \<longrightarrow> bad i"
    and r': "mirror_at j (snd (sql_mark_mirror i v f s)) = Some r' \<and> mr_status r' = MirrorFailedPermanent"
  then have at: "mirror_at j (snd (sql_mark_mirror i v f s)) = Some r'" by simp
  from f at show "bad j"
  proof (cases rule: mark_back)
    case kept
    then show ?thesis using r' s by blast
  next
    case (marked r)
    then show ?thesis using new [of "r\<lparr>mr_attempts := mr_attempts r + 1\<rparr>"] r' by simp
  qed
qed

lemma delivered_quarantined: "evolves (keeping (quarantined_in bad)) (markDelivered i clock)"
  unfolding markDelivered_def
  by (intro evolves_intro mark_quarantined) (simp_all add: row_content_def)

lemma failure_quarantined:
  "evolves (keeping (quarantined_in bad)) (markDeliveryFailed i clock)"
  unfolding markDeliveryFailed_def mark_failure_def Let_def
  by (intro evolves_intro mark_quarantined) (simp_all add: row_content_def)

lemma permanent_quarantined:
  assumes "bad (trim i)"
  shows "evolves (keeping (quarantined_in bad)) (markPermanentFailed (mark_input i v extra) clock)"
proof -
  have i: "j = trim i" if "mir_requireText (jget (mark_input i v extra) ''outboxId'') f = Inr j" for j f
    using that by (simp add: mark_input_def mir_requireText_def requireText_def split: if_splits)
  show ?thesis
    unfolding markPermanentFailed_def mark_failure_def Let_def
    by (intro evolves_intro mark_quarantined) (use assms i in \<open>auto simp: row_content_def\<close>)
qed

lemma call_mirror_quarantined:
  "evolves (keeping (\<lambda>w. quarantined_in bad (mw_db w))) (call_mirror mirror m p)"
proof (rule evolvesI)
  fix w :: mirror_world
  obtain failure others where mir: "mirror (mw_turn w) m p = (failure, others)" by force
  show "keeping (\<lambda>w. quarantined_in bad (mw_db w)) w (snd (call_mirror mirror m p w))"
    using schedule_all_keeps [OF schedule_quarantined, of bad "mw_db w" others] mir
    by (simp add: call_mirror_def keeping_def Let_def split: option.split)
qed

lemma items_quarantined:
  assumes "\<forall>i v code. InvalidItem i v code \<in> set xs \<longrightarrow> bad (trim i)"
  shows "evolves (keeping (\<lambda>w. quarantined_in bad (mw_db w))) (deliver_items mirror clock xs c)"
  using assms
proof (induction xs arbitrary: c)
  case (Cons x xs)
  have "evolves (keeping (\<lambda>w. quarantined_in bad (mw_db w))) (deliver_item mirror clock x c)"
  proof (cases x)
    case (ValidItem it)
    then show ?thesis
      unfolding ValidItem deliver_item.simps deliver_valid_def
      by (intro evolves_intro call_mirror_quarantined on_db_evolves delivered_quarantined
          failure_quarantined; simp)
  next
    case (InvalidItem i v code)
    then have "bad (trim i)" using Cons.prems by simp
    then show ?thesis
      unfolding InvalidItem deliver_item.simps
      by (intro evolves_intro on_db_evolves permanent_quarantined; simp)
  qed
  moreover have "\<forall>i v code. InvalidItem i v code \<in> set xs \<longrightarrow> bad (trim i)" using Cons.prems by auto
  then have "evolves (keeping (\<lambda>w. quarantined_in bad (mw_db w))) (deliver_items mirror clock xs c')" for c'
    using Cons.IH by blast
  ultimately show ?case unfolding deliver_items.simps by (intro evolves_andThen) simp_all
qed (auto intro: evolves_intro)

text \<open>A row the delivery may quarantine: it failed before, or it does not pass validation.\<close>

definition invalid_row :: "d1 \<Rightarrow> string \<Rightarrow> bool" where
  "invalid_row s i \<longleftrightarrow> (case mirror_at i s of None \<Rightarrow> False
     | Some r \<Rightarrow> mr_status r = MirrorFailedPermanent \<or> (\<exists>e. normalizePendingRow r = Inl e))"

lemma listed_invalid:
  assumes "outbox_ok t" "listPending i s = (Inr xs, t)" "InvalidItem j v code \<in> set xs"
  shows "invalid_row t (trim j)"
proof -
  obtain r where r: "r \<in> set (reliability_mirror_outbox t)" "normalizePendingRowSafely r = Inr (InvalidItem j v code)"
    using listed_item [OF assms(2,3)] .
  then obtain e where e: "normalizePendingRow r = Inl e" "mir_requireText (JStr (mr_id r)) ''outbox_id'' = Inr j"
    by (cases rule: safely_cases [OF r(2)]) auto
  have "plain_text (mr_id r)" using assms(1) r(1) by (simp add: outbox_ok_def)
  then have "trim j = mr_id r" using e(2) by (simp add: mir_requireText_def plain_text_def)
  then show ?thesis using outbox_at [OF assms(1) r(1)] e(1) by (auto simp: invalid_row_def)
qed

lemma delivery_quarantines_invalid:
  assumes ok: "outbox_ok (mw_db w)"
  shows "quarantined_in (invalid_row (mw_db w)) (mw_db (snd (deliverReliabilityMirror input client clock w)))"
proof -
  let ?P = "\<lambda>v. quarantined_in (invalid_row (mw_db w)) (mw_db v)"
  have start: "?P w" by (auto simp: quarantined_in_def invalid_row_def)
  have list: "unchanged reliability_mirror_outbox (mw_db w) s" if "listPending i (mw_db w) = (r, s)" for i r s
    by (rule evolvesD [OF listPending_evolves that]) (simp_all add: fault_blind_unchanged)
  then have same: "mirror_at j s = mirror_at j (mw_db w)" "outbox_ok s"
    if "listPending i (mw_db w) = (r, s)" for i r s j
    using that ok by (auto simp: mirror_at_def outbox_ok_def unchanged_def)
  have kept: "keeping ?P w (w\<lparr>mw_db := s\<rparr>)" if "listPending i (mw_db w) = (r, s)" for i r s
    using same(1) [OF that] by (simp add: keeping_def quarantined_in_def)
  have "keeping ?P w (snd (deliverReliabilityMirror input client clock w))"
  proof (cases "delivery_limit (nullish (jget input ''limit'') (jint 25))")
    case (Inr limit)
    show ?thesis
    proof (rule delivery_steps [OF _ kept Inr])
      fix i xs s assume l: "listPending i (mw_db w) = (Inr xs, s)"
      have "invalid_row (mw_db w) (trim j)" if "InvalidItem j v code \<in> set xs" for j v code
        using listed_invalid [OF same(2) [OF l] l that] same(1) [OF l] by (simp add: invalid_row_def)
      then have "keeping ?P (w\<lparr>mw_db := s\<rparr>) (snd (deliver_pending client clock limit xs (w\<lparr>mw_db := s\<rparr>)))"
        using items_quarantined [of xs "invalid_row (mw_db w)"]
        by (intro deliver_pending_steps) (simp add: evolves_def)
      then show "keeping ?P w (snd (deliver_pending client clock limit xs (w\<lparr>mw_db := s\<rparr>)))"
        using kept [OF l] by (simp add: keeping_def)
    qed
  qed (simp add: deliverReliabilityMirror_def eff_simps keeping_def)
  then show ?thesis using start by (simp add: keeping_def)
qed

subsection \<open>Scheduling survives a failed wake-up\<close>

lemma schedule_leaves:
  assumes "schedule (JObj [(''method'', JStr m), (''payload'', p)]) clock s = (Inr x, t)"
  obtains k i r where "mirror_method (JStr m) = Inr k" "buildReliabilityMirrorOutboxId (JStr k) p = Inr i"
    "mirror_at i t = Some r" "mr_status r = MirrorPending" "mr_method r = k"
    "mr_payload r = JsonText (json_norm p)"
proof -
  obtain k i now where k: "mirror_method (JStr m) = Inr k" "buildReliabilityMirrorOutboxId (JStr k) p = Inr i"
    and run: "catching (check (serializePayload p) (\<lambda>text.
          andThen (run_sql (sql_schedule i k text now)) (\<lambda>_. ret ())))
       (\<lambda>cause. throw (d1Error ''Failed to persist reliability mirror outbox''
                        ''D1_RELIABILITY_MIRROR_OUTBOX_WRITE_FAILED'' cause)) s = (Inr x, t)"
    using assms by (auto simp: schedule_def requirePayload_def check_run split: sum.splits if_splits)
  have "check (serializePayload p) (\<lambda>text.
          andThen (run_sql (sql_schedule i k text now)) (\<lambda>_. ret ())) s = (Inr x, t)"
    using run by (rule catch_Inr) (simp add: throw_def)
  then obtain n where "run_sql (sql_schedule i k (JsonText (json_norm p)) now) s = (Inr n, t)"
    by (auto simp: serializePayload_def Let_def eff_simps split: if_splits prod.splits sum.splits)
  then have "t = snd (sql_schedule i k (JsonText (json_norm p)) now (spend_fault s))"
    using run_sql_InrD by (metis snd_conv)
  then have "\<exists>r. mirror_at i t = Some r \<and> mr_status r = MirrorPending \<and> mr_method r = k
      \<and> mr_payload r = JsonText (json_norm p)"
    by (simp add: sql_schedule_at split: option.split)
  then show ?thesis using that k by blast
qed

lemma durable_run_scheduled:
  assumes "durable_saveSyncRun entry signal clock s = (Inr sent, t)"
  shows "\<exists>p i r. toSyncRunMirrorPayload entry = Inr p
    \<and> buildReliabilityMirrorOutboxId (JStr ''saveSyncRun'') p = Inr i
    \<and> mirror_at i t = Some r \<and> mr_status r = MirrorPending \<and> mr_payload r = JsonText (json_norm p)
    \<and> sent = (signal = None)"
proof -
  obtain u p where p: "toSyncRunMirrorPayload entry = Inr p"
    and run: "scheduleMirror ''saveSyncRun'' p signal clock u = (Inr sent, t)"
    using assms by (auto simp: durable_saveSyncRun_def eff_simps split: prod.splits sum.splits)
  then obtain x where x: "schedule (JObj [(''method'', JStr ''saveSyncRun''), (''payload'', p)]) clock u = (Inr x, t)"
    and sent: "sent = (signal = None)"
    by (auto simp: scheduleMirror_def eff_simps split: prod.splits sum.splits)
  show ?thesis using p sent mirror_methods(1) by (rule_tac schedule_leaves [OF x]) auto
qed

end
