(* ===== verification/Checkpoint_Store.thy ===== *)
theory Checkpoint_Store
  imports D1_Work_Fence
begin

text \<open>
  The incremental checkpoint store (\<open>d1-incremental-state-store.js\<close>): the cursor of a sync source
  and the fingerprints of its records. A save writes the fingerprints in bounded batches, commits
  the cursor in the last batch, and under a generation guard checks the fence before every batch
  and repeats it inside every statement.

  The statements of a save are separate transactions. Between two of them other invocations may
  run: \<open>sh_others\<close> lists what happens to the database before each statement.
\<close>

subsection \<open>Helpers\<close>

definition inc_requireText :: "jsval \<Rightarrow> string \<Rightarrow> jserror + string" where
  "inc_requireText v f = requireText (''D1IncrementalStateStore requires '' @ f) v"

definition inc_safeInteger :: "jsval \<Rightarrow> string \<Rightarrow> jserror + int" where
  "inc_safeInteger v f = safe_number (\<lambda>n. True)
     (''D1IncrementalStateStore '' @ f @ '' must be a safe integer'') v"

definition inc_nonNegativeInteger :: "jsval \<Rightarrow> string \<Rightarrow> jserror + int" where
  "inc_nonNegativeInteger v f = bind_res (inc_safeInteger v f) (\<lambda>n.
     if n < 0 then Inl (type_error (''D1IncrementalStateStore '' @ f @ '' must be non-negative''))
     else Inr n)"

definition inc_positiveInteger :: "jsval \<Rightarrow> string \<Rightarrow> jserror + int" where
  "inc_positiveInteger v f = bind_res (inc_safeInteger v f) (\<lambda>n.
     if n \<le> 0 then Inl (type_error (''D1IncrementalStateStore '' @ f @ '' must be positive''))
     else Inr n)"

definition inc_nullableText :: "jsval \<Rightarrow> jserror + string option" where
  "inc_nullableText v = (if is_absent v then Inr None
     else bind_res (inc_requireText (JStr (js_text v)) ''text'') (\<lambda>t. Inr (Some t)))"

definition inc_nullableInteger :: "jsval \<Rightarrow> jserror + int option" where
  "inc_nullableInteger v = (if is_absent v then Inr None
     else bind_res (inc_safeInteger v ''integer'') (\<lambda>n. Inr (Some n)))"

text \<open>Integers read back from a column.\<close>

definition toNullableInteger :: "int option \<Rightarrow> int option" where
  "toNullableInteger x = (case x of Some n \<Rightarrow> if is_safe n then Some n else None | None \<Rightarrow> None)"

definition toNonNegativeInteger :: "int \<Rightarrow> int" where
  "toNonNegativeInteger n = (if is_safe n \<and> 0 \<le> n then n else 0)"

fun chunk :: "nat \<Rightarrow> 'a list \<Rightarrow> 'a list list" where
  "chunk n xs = (if xs = [] \<or> n = 0 then [] else take n xs # chunk n (drop n xs))"

declare chunk.simps [simp del]

definition inc_d1Error :: "string \<Rightarrow> string \<Rightarrow> jserror \<Rightarrow> jserror" where
  "inc_d1Error msg code cause = transientError msg code
     (JObj [(''causeMessage'', JStr (err_message cause))])"

definition new_statement_batch :: "jsval \<Rightarrow> jserror + nat" where
  "new_statement_batch input =
     bind_res (inc_positiveInteger (nullish (jget input ''statementBatchSize'') (jint 50))
       ''statementBatchSize'') (\<lambda>n. Inr (nat n))"

subsection \<open>Validated input\<close>

record checkpoint_cursor =
  cc_cursorKey :: string
  cc_customerProfile :: string
  cc_platform :: string
  cc_accountKey :: string
  cc_source :: string
  cc_syncType :: string
  cc_lastMetricDate :: "string option"
  cc_dictionaryHash :: "string option"
  cc_lastFullSyncAt :: "int option"
  cc_lastSuccessfulSyncAt :: int
  cc_incrementalRunCount :: int
  cc_lastSyncRunId :: string

definition requireCursor :: "jsval \<Rightarrow> jserror + checkpoint_cursor" where
  "requireCursor v = (if \<not> is_object v then Inl (type_error ''D1IncrementalStateStore requires cursor'') else
     bind_res (inc_requireText (jget v ''cursorKey'') ''cursor.cursorKey'') (\<lambda>key.
     bind_res (inc_requireText (jget v ''customerProfile'') ''cursor.customerProfile'') (\<lambda>profile.
     bind_res (inc_requireText (jget v ''platform'') ''cursor.platform'') (\<lambda>platform.
     bind_res (inc_requireText (jget v ''accountKey'') ''cursor.accountKey'') (\<lambda>account.
     bind_res (inc_requireText (jget v ''source'') ''cursor.source'') (\<lambda>source.
     bind_res (inc_requireText (jget v ''syncType'') ''cursor.syncType'') (\<lambda>ty.
     bind_res (inc_nullableText (jget v ''lastMetricDate'')) (\<lambda>metric.
     bind_res (inc_nullableText (jget v ''dictionaryHash'')) (\<lambda>hash.
     bind_res (inc_nullableInteger (jget v ''lastFullSyncAt'')) (\<lambda>full.
     bind_res (inc_safeInteger (jget v ''lastSuccessfulSyncAt'') ''cursor.lastSuccessfulSyncAt'') (\<lambda>success.
     bind_res (inc_nonNegativeInteger (jget v ''incrementalRunCount'') ''cursor.incrementalRunCount'') (\<lambda>count.
     bind_res (inc_requireText (jget v ''lastSyncRunId'') ''cursor.lastSyncRunId'') (\<lambda>run.
     Inr \<lparr>cc_cursorKey = key, cc_customerProfile = profile, cc_platform = platform,
          cc_accountKey = account, cc_source = source, cc_syncType = ty, cc_lastMetricDate = metric,
          cc_dictionaryHash = hash, cc_lastFullSyncAt = full, cc_lastSuccessfulSyncAt = success,
          cc_incrementalRunCount = count, cc_lastSyncRunId = run\<rparr>)))))))))))))"

record checkpoint_record =
  cr_sourceRecordId :: string
  cr_sourceModifiedAt :: "int option"
  cr_sourceHash :: string
  cr_externalContentId :: "string option"

definition requireRecordState :: "string list \<Rightarrow> jsval \<Rightarrow> jserror + checkpoint_record" where
  "requireRecordState seen v =
     (if \<not> is_object v then Inl (type_error ''D1IncrementalStateStore record must be an object'') else
     bind_res (inc_requireText (jget v ''sourceRecordId'') ''record.sourceRecordId'') (\<lambda>i.
     if i \<in> set seen then Inl (plain_error (''Duplicate incremental sourceRecordId: '' @ i)) else
     bind_res (inc_nullableInteger (jget v ''sourceModifiedAt'')) (\<lambda>modified.
     bind_res (inc_requireText (jget v ''sourceHash'') ''record.sourceHash'') (\<lambda>hash.
     bind_res (inc_nullableText (jget v ''externalContentId'')) (\<lambda>external.
     Inr \<lparr>cr_sourceRecordId = i, cr_sourceModifiedAt = modified, cr_sourceHash = hash,
          cr_externalContentId = external\<rparr>)))))"

fun record_states :: "string list \<Rightarrow> jsval list \<Rightarrow> jserror + checkpoint_record list" where
  "record_states seen [] = Inr []"
| "record_states seen (v # vs) =
     bind_res (requireRecordState seen v) (\<lambda>r.
     bind_res (record_states (cr_sourceRecordId r # seen) vs) (\<lambda>rs. Inr (r # rs)))"

definition requireRecordStates :: "jsval \<Rightarrow> jserror + checkpoint_record list" where
  "requireRecordStates v = (case v of JArr vs \<Rightarrow> record_states [] vs
     | _ \<Rightarrow> Inl (type_error ''D1IncrementalStateStore requires records array''))"

record checkpoint_guard =
  cg_cursorKey :: string
  cg_generation :: int
  cg_workKey :: string
  cg_requestedAt :: int

definition requireGenerationGuard :: "jsval \<Rightarrow> string \<Rightarrow> jserror + checkpoint_guard" where
  "requireGenerationGuard v cursorKey =
     (if \<not> is_object v then Inl (type_error ''D1IncrementalStateStore requires generationGuard'') else
     bind_res (inc_requireText (nullish (jget v ''cursorKey'') (JStr cursorKey)) ''generationGuard.cursorKey'') (\<lambda>key.
     if key \<noteq> cursorKey then Inl (type_error ''generationGuard.cursorKey must match cursor.cursorKey'') else
     bind_res (inc_nonNegativeInteger (jget v ''generation'') ''generationGuard.generation'') (\<lambda>generation.
     bind_res (inc_requireText (jget v ''workKey'') ''generationGuard.workKey'') (\<lambda>work.
     bind_res (inc_nonNegativeInteger (nullish (jget v ''requestedAt'') (jget v ''generation''))
       ''generationGuard.requestedAt'') (\<lambda>requested.
     Inr \<lparr>cg_cursorKey = key, cg_generation = generation, cg_workKey = work, cg_requestedAt = requested\<rparr>)))))"

subsection \<open>Statements\<close>

text \<open>\<open>EXISTS (SELECT 1 FROM sync_generation_fences WHERE ..)\<close>; true of a save without a guard.\<close>

definition guard_holds :: "checkpoint_guard option \<Rightarrow> d1 \<Rightarrow> bool" where
  "guard_holds g s = (case g of None \<Rightarrow> True
     | Some g \<Rightarrow> list_ex (\<lambda>r. fn_cursor_key r = cg_cursorKey g
         \<and> fn_generation r = cg_generation g \<and> fn_work_key r = cg_workKey g) (sync_generation_fences s))"

definition record_row :: "checkpoint_cursor \<Rightarrow> int \<Rightarrow> checkpoint_record \<Rightarrow> record_state_row" where
  "record_row c now r = \<lparr>rs_cursor_key = cc_cursorKey c, rs_source_record_id = cr_sourceRecordId r,
     rs_source_modified_at = cr_sourceModifiedAt r, rs_source_hash = cr_sourceHash r,
     rs_external_content_id = cr_externalContentId r, rs_last_seen_sync_run_id = cc_lastSyncRunId c,
     rs_last_seen_at = cc_lastSuccessfulSyncAt c, rs_created_at = now, rs_updated_at = now\<rparr>"

definition sql_put_record ::
    "checkpoint_guard option \<Rightarrow> checkpoint_cursor \<Rightarrow> int \<Rightarrow> checkpoint_record \<Rightarrow> d1 \<Rightarrow> d1" where
  "sql_put_record g c now r s = (if \<not> guard_holds g s then s else
     snd (on_table source_record_states source_record_states_update
       (sql_upsert (\<lambda>x. rs_cursor_key x = cc_cursorKey c \<and> rs_source_record_id x = cr_sourceRecordId r)
          (\<lambda>x. True)
          (\<lambda>x. (record_row c now r)\<lparr>rs_created_at := rs_created_at x\<rparr>) (record_row c now r)) s))"

definition cursor_insert :: "checkpoint_guard option \<Rightarrow> checkpoint_cursor \<Rightarrow> int \<Rightarrow> cursor_row" where
  "cursor_insert g c now = \<lparr>cu_key = cc_cursorKey c, cu_customer_profile = cc_customerProfile c,
     cu_platform = cc_platform c, cu_account_key = cc_accountKey c, cu_source = cc_source c,
     cu_sync_type = cc_syncType c, cu_last_metric_date = cc_lastMetricDate c,
     cu_dictionary_hash = cc_dictionaryHash c, cu_last_full_sync_at = cc_lastFullSyncAt c,
     cu_last_successful_sync_at = cc_lastSuccessfulSyncAt c, cu_run_count = cc_incrementalRunCount c,
     cu_last_sync_run_id = cc_lastSyncRunId c,
     cu_generation = (case g of None \<Rightarrow> 0 | Some g \<Rightarrow> cg_generation g),
     cu_generation_work_key = map_option cg_workKey g,
     cu_requested_at = (case g of None \<Rightarrow> 0 | Some g \<Rightarrow> cg_requestedAt g),
     cu_created_at = now, cu_updated_at = now\<rparr>"

definition cursor_set :: "checkpoint_guard option \<Rightarrow> checkpoint_cursor \<Rightarrow> int \<Rightarrow> cursor_row \<Rightarrow> cursor_row" where
  "cursor_set g c now x = (let new = (cursor_insert g c now)\<lparr>cu_created_at := cu_created_at x\<rparr> in
     case g of Some _ \<Rightarrow> new
     | None \<Rightarrow> new\<lparr>cu_generation := cu_generation x, cu_generation_work_key := cu_generation_work_key x,
                  cu_requested_at := cu_requested_at x\<rparr>)"

definition sql_put_cursor :: "checkpoint_guard option \<Rightarrow> checkpoint_cursor \<Rightarrow> int \<Rightarrow> d1 \<Rightarrow> d1" where
  "sql_put_cursor g c now s = (if \<not> guard_holds g s then s else
     snd (on_table sync_cursors sync_cursors_update
       (sql_upsert (\<lambda>x. cu_key x = cc_cursorKey c)
          (\<lambda>x. case g of None \<Rightarrow> True | Some g \<Rightarrow> cu_generation x \<le> cg_generation g)
          (cursor_set g c now) (cursor_insert g c now)) s))"

definition sql_prune_records :: "checkpoint_guard option \<Rightarrow> checkpoint_cursor \<Rightarrow> d1 \<Rightarrow> d1" where
  "sql_prune_records g c s = (if \<not> guard_holds g s then s else
     snd (on_table source_record_states source_record_states_update
       (sql_delete (\<lambda>x. rs_cursor_key x = cc_cursorKey c
          \<and> rs_last_seen_sync_run_id x \<noteq> cc_lastSyncRunId c)) s))"

subsection \<open>Interleaved statements\<close>

record shared =
  sh_db :: d1
  sh_others :: "(d1 \<Rightarrow> d1) list"

definition before_turn :: "shared \<Rightarrow> d1" where
  "before_turn w = (case sh_others w of [] \<Rightarrow> sh_db w | f # _ \<Rightarrow> f (sh_db w))"

definition turn :: "(d1, 'a) eff \<Rightarrow> (shared, 'a) eff" where
  "turn m w = (fst (m (before_turn w)),
     \<lparr>sh_db = snd (m (before_turn w)), sh_others = tl (sh_others w)\<rparr>)"

subsection \<open>Save and load\<close>

record checkpoint_reply =
  ck_cursorKey :: string
  ck_recordsSaved :: nat
  ck_fullSnapshot :: bool
  ck_batches :: nat
  ck_statements :: nat

definition inc_assertGeneration :: "checkpoint_guard option \<Rightarrow> (d1, unit) eff" where
  "inc_assertGeneration g = (case g of None \<Rightarrow> ret ()
     | Some g \<Rightarrow> andThen (query (\<lambda>s. row_at fn_cursor_key (cg_cursorKey g) (sync_generation_fences s))) (\<lambda>row.
         if (case row of None \<Rightarrow> True
             | Some r \<Rightarrow> fn_generation r \<noteq> cg_generation g \<or> fn_work_key r \<noteq> cg_workKey g)
         then throw (permanentError ''Incremental checkpoint generation was superseded''
                ''SYNC_WORK_SUPERSEDED'' (JObj [(''generation'', jint (cg_generation g))]))
         else ret ()))"

definition assert_turn :: "checkpoint_guard option \<Rightarrow> (shared, unit) eff" where
  "assert_turn g = (case g of None \<Rightarrow> ret () | Some _ \<Rightarrow> turn (inc_assertGeneration g))"

definition run_batch :: "(d1 \<Rightarrow> d1) list \<Rightarrow> (shared, unit) eff" where
  "run_batch statements = turn (batch (\<lambda>s. Inr (fold (\<lambda>q. q) statements s)))"

definition guarded_batch :: "checkpoint_guard option \<Rightarrow> (d1 \<Rightarrow> d1) list \<Rightarrow> (shared, unit) eff" where
  "guarded_batch g statements = andThen (assert_turn g) (\<lambda>_. run_batch statements)"

definition final_statements ::
    "checkpoint_guard option \<Rightarrow> checkpoint_cursor \<Rightarrow> bool \<Rightarrow> int \<Rightarrow> (d1 \<Rightarrow> d1) list" where
  "final_statements g c full now =
     sql_put_cursor g c now # (if full then [sql_prune_records g c] else [])"

definition commit_checkpoint ::
    "nat \<Rightarrow> checkpoint_guard option \<Rightarrow> checkpoint_cursor \<Rightarrow> checkpoint_record list \<Rightarrow> bool \<Rightarrow> int \<Rightarrow>
     (shared, checkpoint_reply) eff" where
  "commit_checkpoint k g c records full now =
     (let batches = chunk k (map (sql_put_record g c now) records);
          final = final_statements g c full now
      in andThen (for_each (guarded_batch g) batches) (\<lambda>_.
         andThen (guarded_batch g final) (\<lambda>_.
         andThen (assert_turn g) (\<lambda>_.
         ret \<lparr>ck_cursorKey = cc_cursorKey c, ck_recordsSaved = length records, ck_fullSnapshot = full,
              ck_batches = length batches + 1, ck_statements = length records + length final\<rparr>))))"

definition saveCheckpoint :: "nat \<Rightarrow> jsval \<Rightarrow> int \<Rightarrow> (shared, checkpoint_reply) eff" where
  "saveCheckpoint k input now =
     check (requireCursor (jget input ''cursor'')) (\<lambda>c.
     check (requireRecordStates (nullish (jget input ''records'') (JArr []))) (\<lambda>records.
     check (if truthy (jget input ''generationGuard'')
            then bind_res (requireGenerationGuard (jget input ''generationGuard'') (cc_cursorKey c)) (\<lambda>g. Inr (Some g))
            else Inr None) (\<lambda>g.
     catching (commit_checkpoint k g c records (jget input ''fullSnapshot'' = JBool True) now)
       (\<lambda>cause. if has_code cause [''SYNC_WORK_SUPERSEDED''] then throw cause
          else throw (inc_d1Error ''Failed to save incremental checkpoint''
                        ''D1_INCREMENTAL_CHECKPOINT_WRITE_FAILED'' cause)))))"

record cursor_view =
  cv_cursorKey :: string
  cv_customerProfile :: string
  cv_platform :: string
  cv_accountKey :: string
  cv_source :: string
  cv_syncType :: string
  cv_lastMetricDate :: "string option"
  cv_dictionaryHash :: "string option"
  cv_lastFullSyncAt :: "int option"
  cv_lastSuccessfulSyncAt :: "int option"
  cv_incrementalRunCount :: int
  cv_lastSyncRunId :: string
  cv_generation :: int
  cv_generationWorkKey :: "string option"
  cv_requestedAt :: int
  cv_createdAt :: "int option"
  cv_updatedAt :: "int option"

definition freezeCursor :: "cursor_row \<Rightarrow> cursor_view" where
  "freezeCursor r = \<lparr>cv_cursorKey = cu_key r, cv_customerProfile = cu_customer_profile r,
     cv_platform = cu_platform r, cv_accountKey = cu_account_key r, cv_source = cu_source r,
     cv_syncType = cu_sync_type r, cv_lastMetricDate = cu_last_metric_date r,
     cv_dictionaryHash = cu_dictionary_hash r,
     cv_lastFullSyncAt = toNullableInteger (cu_last_full_sync_at r),
     cv_lastSuccessfulSyncAt = toNullableInteger (Some (cu_last_successful_sync_at r)),
     cv_incrementalRunCount = toNonNegativeInteger (cu_run_count r),
     cv_lastSyncRunId = cu_last_sync_run_id r,
     cv_generation = toNonNegativeInteger (cu_generation r),
     cv_generationWorkKey = cu_generation_work_key r,
     cv_requestedAt = toNonNegativeInteger (cu_requested_at r),
     cv_createdAt = toNullableInteger (Some (cu_created_at r)),
     cv_updatedAt = toNullableInteger (Some (cu_updated_at r))\<rparr>"

record record_view =
  rv_sourceRecordId :: string
  rv_sourceModifiedAt :: "int option"
  rv_sourceHash :: string
  rv_externalContentId :: "string option"
  rv_lastSeenSyncRunId :: string
  rv_lastSeenAt :: "int option"
  rv_createdAt :: "int option"
  rv_updatedAt :: "int option"

definition freezeRecordState :: "record_state_row \<Rightarrow> record_view" where
  "freezeRecordState r = \<lparr>rv_sourceRecordId = rs_source_record_id r,
     rv_sourceModifiedAt = toNullableInteger (rs_source_modified_at r),
     rv_sourceHash = rs_source_hash r, rv_externalContentId = rs_external_content_id r,
     rv_lastSeenSyncRunId = rs_last_seen_sync_run_id r,
     rv_lastSeenAt = toNullableInteger (Some (rs_last_seen_at r)),
     rv_createdAt = toNullableInteger (Some (rs_created_at r)),
     rv_updatedAt = toNullableInteger (Some (rs_updated_at r))\<rparr>"

text \<open>\<open>Promise.all\<close> of two statements: both run, an error of either rejects.\<close>

definition both :: "('s, 'a) eff \<Rightarrow> ('s, 'b) eff \<Rightarrow> ('s, 'a \<times> 'b) eff" where
  "both m n = (\<lambda>s. let (a, t) = m s; (b, u) = n t in
     (case a of Inl e \<Rightarrow> Inl e | Inr x \<Rightarrow> (case b of Inl e \<Rightarrow> Inl e | Inr y \<Rightarrow> Inr (x, y)), u))"

definition loadCheckpoint :: "jsval \<Rightarrow> (d1, cursor_view option \<times> record_view list) eff" where
  "loadCheckpoint cursorKey =
     check (inc_requireText cursorKey ''cursorKey'') (\<lambda>key.
     catching
       (andThen (both (query (\<lambda>s. row_at cu_key key (sync_cursors s)))
                      (query (\<lambda>s. filter (\<lambda>r. rs_cursor_key r = key) (source_record_states s))))
          (\<lambda>(cursor, rows). ret (map_option freezeCursor cursor, map freezeRecordState rows)))
       (\<lambda>cause. throw (inc_d1Error ''Failed to load incremental checkpoint''
          ''D1_INCREMENTAL_CHECKPOINT_READ_FAILED'' cause)))"

section \<open>Guarantees\<close>

subsection \<open>Turns\<close>

text \<open>
  \<open>concurrent R f\<close>: what other invocations may do between two statements. They move fences forward
  and change the database along \<open>R\<close>.
\<close>

definition concurrent :: "(d1 \<Rightarrow> d1 \<Rightarrow> bool) \<Rightarrow> (d1 \<Rightarrow> d1) \<Rightarrow> bool" where
  "concurrent R f \<longleftrightarrow> (\<forall>s. fences_grow d1_fence_of s (f s) \<and> keeping fences_keyed s (f s) \<and> R s (f s))"

definition within :: "(d1 \<Rightarrow> d1 \<Rightarrow> bool) \<Rightarrow> (d1 \<Rightarrow> bool) \<Rightarrow> shared \<Rightarrow> bool" where
  "within R P w \<longleftrightarrow> P (sh_db w) \<and> (\<forall>f \<in> set (sh_others w). concurrent R f)"

definition stable :: "(d1 \<Rightarrow> d1 \<Rightarrow> bool) \<Rightarrow> (d1 \<Rightarrow> bool) \<Rightarrow> bool" where
  "stable R P \<longleftrightarrow> (\<forall>s t. fences_grow d1_fence_of s t \<and> keeping fences_keyed s t \<and> R s t \<and> P s \<longrightarrow> P t)"

lemma stableI:
  "(\<And>s t. fences_grow d1_fence_of s t \<Longrightarrow> keeping fences_keyed s t \<Longrightarrow> R s t \<Longrightarrow> P s \<Longrightarrow> P t) \<Longrightarrow> stable R P"
  by (auto simp: stable_def)

lemma within_mono: "within R P w \<Longrightarrow> (\<And>s. P s \<Longrightarrow> Q s) \<Longrightarrow> within R Q w"
  by (simp add: within_def)

lemma triple_turn:
  assumes "stable R P" "triple P m Q E"
  shows "triple (within R P) (turn m) (\<lambda>x. within R (Q x)) (within R E)"
proof (rule tripleI)
  have pre: "P (before_turn w) \<and> (\<forall>f \<in> set (tl (sh_others w)). concurrent R f)" if w: "within R P w" for w
  proof (cases "sh_others w")
    case (Cons f fs)
    then have "concurrent R f" "P (sh_db w)" "\<forall>f \<in> set fs. concurrent R f" using w by (simp_all add: within_def)
    moreover have "P (f (sh_db w))"
      using assms(1) calculation(1,2) unfolding stable_def concurrent_def by blast
    ultimately show ?thesis using Cons by (simp add: before_turn_def)
  qed (use w in \<open>simp add: before_turn_def within_def\<close>)
  {
    fix w x u assume w: "within R P w" and run: "turn m w = (Inr x, u)"
    then have "m (before_turn w) = (Inr x, sh_db u)" "sh_others u = tl (sh_others w)"
      by (cases "m (before_turn w)", auto simp: turn_def)+
    then show "within R (Q x) u" using pre [OF w] triple_InrD [OF assms(2)] by (metis within_def)
  next
    fix w e u assume w: "within R P w" and run: "turn m w = (Inl e, u)"
    then have "m (before_turn w) = (Inl e, sh_db u)" "sh_others u = tl (sh_others w)"
      by (cases "m (before_turn w)", auto simp: turn_def)+
    then show "within R E u" using pre [OF w] triple_InlD [OF assms(2)] by (metis within_def)
  }
qed

lemma triple_batch:
  assumes "\<And>s. P s \<Longrightarrow> P (spend_fault s)" "\<And>s. P s \<Longrightarrow> Q (q s)"
  shows "triple P (batch (\<lambda>s. Inr (q s))) (\<lambda>_. Q) (\<lambda>s. P s \<or> Q s)"
  using assms by (intro tripleI) (auto simp: batch_eq Let_def split: fault.splits)

lemma triple_query:
  assumes "\<And>s. P s \<Longrightarrow> P (spend_fault s)"
  shows "triple P (query q) (\<lambda>x s. P s \<and> x = q s) P"
  using assms by (intro tripleI) (auto simp: query_eq split: fault.splits)

subsection \<open>The fence during a save\<close>

definition held :: "checkpoint_guard option \<Rightarrow> d1 \<Rightarrow> bool" where
  "held g s = (case g of None \<Rightarrow> True
     | Some g \<Rightarrow> d1_fence_of s (cg_cursorKey g) = Some (cg_generation g, cg_workKey g))"

definition lost :: "checkpoint_guard option \<Rightarrow> d1 \<Rightarrow> bool" where
  "lost g s = (case g of None \<Rightarrow> False
     | Some g \<Rightarrow> beaten (cg_generation g) (cg_workKey g) (d1_fence_of s (cg_cursorKey g)))"

lemma held_not_lost: "held g s \<Longrightarrow> \<not> lost g s"
  by (auto simp: held_def lost_def beaten_def split: option.splits)

lemma lost_grows: "fences_grow d1_fence_of s t \<Longrightarrow> lost g s \<Longrightarrow> lost g t"
proof (cases g)
  case (Some a)
  assume "fences_grow d1_fence_of s t" "lost g s"
  then have "fence_le (d1_fence_of s (cg_cursorKey a)) (d1_fence_of t (cg_cursorKey a))"
    "beaten (cg_generation a) (cg_workKey a) (d1_fence_of s (cg_cursorKey a))"
    using Some unfolding fences_grow_def lost_def by (blast, simp)
  then show ?thesis using Some by (auto simp: lost_def fence_le_def beaten_def split: option.splits)
qed (simp add: lost_def)

lemma held_grows: "fences_grow d1_fence_of s t \<Longrightarrow> held g s \<Longrightarrow> held g t \<or> lost g t"
proof (cases g)
  case (Some a)
  assume "fences_grow d1_fence_of s t" "held g s"
  then have "fence_le (d1_fence_of s (cg_cursorKey a)) (d1_fence_of t (cg_cursorKey a))"
    "d1_fence_of s (cg_cursorKey a) = Some (cg_generation a, cg_workKey a)"
    using Some unfolding fences_grow_def held_def by (blast, simp)
  then show ?thesis using Some by (auto simp: held_def lost_def fence_le_def beaten_def split: option.splits)
qed (simp add: held_def)

lemma guard_holds_iff:
  assumes "fences_keyed s"
  shows "guard_holds g s = held g s"
proof (cases g)
  case (Some a)
  have k: "keyed fn_cursor_key (sync_generation_fences s)" using assms by (simp add: fences_keyed_def)
  have "list_ex (\<lambda>r. fn_cursor_key r = cg_cursorKey a \<and> fn_generation r = cg_generation a
      \<and> fn_work_key r = cg_workKey a) (sync_generation_fences s) \<longleftrightarrow>
    (\<exists>r. row_at fn_cursor_key (cg_cursorKey a) (sync_generation_fences s) = Some r
      \<and> fn_generation r = cg_generation a \<and> fn_work_key r = cg_workKey a)"
    using row_at_in [OF k] by (fastforce simp: list_ex_iff dest: row_at_SomeD)
  then show ?thesis using Some by (simp add: guard_holds_def held_def d1_fence_of_def)
qed (simp add: guard_holds_def held_def)

lemma held_spend [simp]: "held g (spend_fault s) = held g s" "lost g (spend_fault s) = lost g s"
  by (simp_all add: held_def lost_def d1_fence_of_def split: option.split)

lemma guard_spend [simp]: "guard_holds g (spend_fault s) = guard_holds g s"
  by (simp add: guard_holds_def split: option.split)

text \<open>A check that returns has seen the fence held.\<close>

lemma triple_assert:
  assumes "\<And>s. P s \<Longrightarrow> P (spend_fault s)"
  shows "triple P (inc_assertGeneration g) (\<lambda>_ s. P s \<and> held g s) P"
proof (cases g)
  case (Some a)
  show ?thesis
    unfolding inc_assertGeneration_def Some option.case
    by (rule triple_andThen, rule triple_query, rule assms, assumption)
      (intro triple_intro; auto simp: held_def d1_fence_of_def split: option.splits)
qed (auto simp: inc_assertGeneration_def held_def intro: triple_ret)

lemma triple_assert_turn:
  assumes "stable R P" "\<And>s. P s \<Longrightarrow> P (spend_fault s)"
  shows "triple (within R P) (assert_turn g) (\<lambda>_. within R (\<lambda>s. P s \<and> held g s)) (within R P)"
proof (cases g)
  case (Some a)
  then show ?thesis using triple_turn [OF assms(1) triple_assert] assms(2) by (simp add: assert_turn_def)
qed (auto simp: assert_turn_def held_def within_def intro: triple_ret)

lemma triple_run_batch:
  assumes "stable R P" "\<And>s. P s \<Longrightarrow> P (spend_fault s)" "\<And>s. P s \<Longrightarrow> Q (fold (\<lambda>q. q) statements s)"
  shows "triple (within R P) (run_batch statements) (\<lambda>_. within R Q) (within R (\<lambda>s. P s \<or> Q s))"
  unfolding run_batch_def by (rule triple_turn [OF assms(1) triple_batch]) (use assms in auto)

text \<open>A guarded batch: it runs when the fence is held, or has been lost since the check.\<close>

lemma triple_guarded_batch:
  assumes P: "stable R P" "\<And>s. P s \<Longrightarrow> P (spend_fault s)"
    and Q: "\<And>s. P s \<Longrightarrow> held g s \<or> lost g s \<Longrightarrow> Q (fold (\<lambda>q. q) statements s)"
  shows "triple (within R P) (guarded_batch g statements) (\<lambda>_. within R Q) (within R (\<lambda>s. P s \<or> Q s))"
  unfolding guarded_batch_def
proof (rule triple_andThen)
  show "triple (within R P) (assert_turn g) (\<lambda>_. within R (\<lambda>s. P s \<and> (held g s \<or> lost g s)))
      (within R (\<lambda>s. P s \<or> Q s))"
    by (rule triple_weaken [OF triple_assert_turn [OF P]]) (auto elim: within_mono)
  have st: "stable R (\<lambda>s. P s \<and> (held g s \<or> lost g s))"
  proof (rule stableI, intro conjI)
    fix s t assume st: "fences_grow d1_fence_of s t" "keeping fences_keyed s t" "R s t"
      and s: "P s \<and> (held g s \<or> lost g s)"
    show "P t" using st s P(1) by (auto simp: stable_def)
    show "held g t \<or> lost g t" using s held_grows [OF st(1)] lost_grows [OF st(1)] by blast
  qed
  show "triple (within R (\<lambda>s. P s \<and> (held g s \<or> lost g s))) (run_batch statements) (\<lambda>_. within R Q)
      (within R (\<lambda>s. P s \<or> Q s))"
    by (rule triple_weaken [OF triple_run_batch [OF st, where Q = Q]])
      (use P(2) Q in \<open>auto elim: within_mono\<close>)
qed
subsection \<open>What the statements write\<close>

definition checkpoint_of :: "string \<Rightarrow> d1 \<Rightarrow> cursor_row option \<times> record_state_row list" where
  "checkpoint_of key s = (row_at cu_key key (sync_cursors s),
     filter (\<lambda>r. rs_cursor_key r = key) (source_record_states s))"

definition cursor_at :: "string \<Rightarrow> d1 \<Rightarrow> cursor_row option" where
  "cursor_at key s = row_at cu_key key (sync_cursors s)"

text \<open>A record is stored when a row holds its fingerprint under the run of the cursor.\<close>

definition stored :: "checkpoint_cursor \<Rightarrow> d1 \<Rightarrow> checkpoint_record \<Rightarrow> bool" where
  "stored c s r \<longleftrightarrow> (\<exists>x \<in> set (source_record_states s).
     x\<lparr>rs_created_at := 0, rs_updated_at := 0\<rparr> = record_row c 0 r)"

definition only_run :: "checkpoint_cursor \<Rightarrow> d1 \<Rightarrow> bool" where
  "only_run c s \<longleftrightarrow> (\<forall>x \<in> set (source_record_states s). rs_cursor_key x = cc_cursorKey c \<longrightarrow>
     rs_last_seen_sync_run_id x = cc_lastSyncRunId c)"

text \<open>The cursor row a committed save leaves: a guarded save does not go below a newer generation.\<close>

definition saved_cursor ::
    "checkpoint_guard option \<Rightarrow> checkpoint_cursor \<Rightarrow> int \<Rightarrow> cursor_row option \<Rightarrow> cursor_row" where
  "saved_cursor g c now old = (case old of None \<Rightarrow> cursor_insert g c now
     | Some x \<Rightarrow> if (case g of None \<Rightarrow> True | Some g \<Rightarrow> cu_generation x \<le> cg_generation g)
                then cursor_set g c now x else x)"

lemma checkpoint_spend [simp]:
  "checkpoint_of key (spend_fault s) = checkpoint_of key s" "cursor_at key (spend_fault s) = cursor_at key s"
  "stored c (spend_fault s) = stored c s" "only_run c (spend_fault s) = only_run c s"
  by (simp_all add: checkpoint_of_def cursor_at_def stored_def only_run_def fun_eq_iff)

lemma cursor_set_key [simp]: "cu_key (cursor_set g c now x) = cc_cursorKey c"
  by (simp add: cursor_set_def cursor_insert_def Let_def split: option.split)

lemma put_record_keeps [simp]:
  "sync_cursors (sql_put_record g c now r s) = sync_cursors s"
  "sync_generation_fences (sql_put_record g c now r s) = sync_generation_fences s"
  "cursor_at key (sql_put_record g c now r s) = cursor_at key s"
  by (simp_all add: sql_put_record_def cursor_at_def)

lemma put_cursor_keeps [simp]:
  "source_record_states (sql_put_cursor g c now s) = source_record_states s"
  "sync_generation_fences (sql_put_cursor g c now s) = sync_generation_fences s"
  by (simp_all add: sql_put_cursor_def)

lemma prune_keeps [simp]:
  "sync_cursors (sql_prune_records g c s) = sync_cursors s"
  "sync_generation_fences (sql_prune_records g c s) = sync_generation_fences s"
  "cursor_at key (sql_prune_records g c s) = cursor_at key s"
  by (simp_all add: sql_prune_records_def cursor_at_def)

lemma fence_facts:
  assumes "sync_generation_fences t = sync_generation_fences s"
  shows "held g t = held g s" "lost g t = lost g s" "fences_keyed t = fences_keyed s"
    "guard_holds g t = guard_holds g s"
  using assms by (simp_all add: held_def lost_def fences_keyed_def d1_fence_of_def guard_holds_def split: option.split)

lemma not_held_no_write:
  assumes "\<not> guard_holds g s"
  shows "sql_put_record g c now r s = s" "sql_put_cursor g c now s = s" "sql_prune_records g c s = s"
  using assms by (simp_all add: sql_put_record_def sql_put_cursor_def sql_prune_records_def)

lemma put_cursor_at:
  "guard_holds g s \<Longrightarrow> cursor_at (cc_cursorKey c) (sql_put_cursor g c now s)
     = Some (saved_cursor g c now (cursor_at (cc_cursorKey c) s))"
  using row_at_upsert [of cu_key "cursor_insert g c now" "cursor_set g c now" "cc_cursorKey c"
      "\<lambda>x. case g of None \<Rightarrow> True | Some g \<Rightarrow> cu_generation x \<le> cg_generation g" "sync_cursors s"]
  by (auto simp: sql_put_cursor_def cursor_at_def saved_cursor_def cursor_insert_def split: option.split)

lemma put_record_rows:
  assumes "guard_holds g s"
  shows "\<exists>x. x\<lparr>rs_created_at := 0, rs_updated_at := 0\<rparr> = record_row c 0 r
      \<and> x \<in> set (source_record_states (sql_put_record g c now r s))"
    and "x \<in> set (source_record_states s) \<Longrightarrow>
      \<not> (rs_cursor_key x = cc_cursorKey c \<and> rs_source_record_id x = cr_sourceRecordId r) \<Longrightarrow>
      x \<in> set (source_record_states (sql_put_record g c now r s))"
proof -
  show "\<exists>x. x\<lparr>rs_created_at := 0, rs_updated_at := 0\<rparr> = record_row c 0 r
      \<and> x \<in> set (source_record_states (sql_put_record g c now r s))"
  proof (cases "\<exists>x \<in> set (source_record_states s). rs_cursor_key x = cc_cursorKey c
      \<and> rs_source_record_id x = cr_sourceRecordId r")
    case True
    then obtain x where x: "x \<in> set (source_record_states s)"
      "rs_cursor_key x = cc_cursorKey c" "rs_source_record_id x = cr_sourceRecordId r" by blast
    have "(record_row c now r)\<lparr>rs_created_at := rs_created_at x\<rparr>
        \<in> set (source_record_states (sql_put_record g c now r s))"
      using assms x by (force simp: sql_put_record_def sql_upsert_def sql_update_def list_ex_iff)
    then show ?thesis
      by (intro exI [of _ "(record_row c now r)\<lparr>rs_created_at := rs_created_at x\<rparr>"])
        (simp add: record_row_def)
  next
    case False
    then have "record_row c now r \<in> set (source_record_states (sql_put_record g c now r s))"
      using assms by (auto simp: sql_put_record_def sql_upsert_def list_ex_iff)
    then show ?thesis by (intro exI [of _ "record_row c now r"]) (simp add: record_row_def)
  qed
  show "x \<in> set (source_record_states s) \<Longrightarrow>
      \<not> (rs_cursor_key x = cc_cursorKey c \<and> rs_source_record_id x = cr_sourceRecordId r) \<Longrightarrow>
      x \<in> set (source_record_states (sql_put_record g c now r s))"
    using assms by (auto simp: sql_put_record_def sql_upsert_def sql_update_def)
qed

lemma put_record_stores: "guard_holds g s \<Longrightarrow> stored c (sql_put_record g c now r s) r"
  using put_record_rows(1) [of g s c r now] unfolding stored_def by blast

lemma stored_row:
  "x\<lparr>rs_created_at := 0, rs_updated_at := 0\<rparr> = record_row c 0 r \<Longrightarrow>
   rs_cursor_key x = cc_cursorKey c \<and> rs_source_record_id x = cr_sourceRecordId r
   \<and> rs_last_seen_sync_run_id x = cc_lastSyncRunId c"
  by (cases x) (simp add: record_row_def)

lemma put_record_stored:
  assumes "stored c s r'" "cr_sourceRecordId r' \<noteq> cr_sourceRecordId r"
  shows "stored c (sql_put_record g c now r s) r'"
proof (cases "guard_holds g s")
  case True
  obtain x where x: "x \<in> set (source_record_states s)"
    "x\<lparr>rs_created_at := 0, rs_updated_at := 0\<rparr> = record_row c 0 r'"
    using assms(1) by (auto simp: stored_def)
  have "x \<in> set (source_record_states (sql_put_record g c now r s))"
    by (rule put_record_rows(2) [OF True x(1)]) (use stored_row [OF x(2)] assms(2) in simp)
  then show ?thesis using x(2) unfolding stored_def by blast
qed (simp add: not_held_no_write assms(1))

lemma prune_stored: "stored c s r \<Longrightarrow> stored c (sql_prune_records g c s) r"
proof (cases "guard_holds g s")
  case True
  assume "stored c s r"
  then obtain x where x: "x \<in> set (source_record_states s)"
    "x\<lparr>rs_created_at := 0, rs_updated_at := 0\<rparr> = record_row c 0 r"
    by (auto simp: stored_def)
  then have "x \<in> set (source_record_states (sql_prune_records g c s))"
    using stored_row [OF x(2)] True by (simp add: sql_prune_records_def sql_delete_def)
  then show ?thesis using x(2) unfolding stored_def by blast
qed (simp add: not_held_no_write)

lemma prune_only: "guard_holds g s \<Longrightarrow> only_run c (sql_prune_records g c s)"
  by (auto simp: only_run_def sql_prune_records_def sql_delete_def)

lemma checkpoint_stored:
  assumes "checkpoint_of (cc_cursorKey c) t = checkpoint_of (cc_cursorKey c) s" "stored c s r"
  shows "stored c t r"
proof -
  obtain x where x: "x \<in> set (source_record_states s)"
    "x\<lparr>rs_created_at := 0, rs_updated_at := 0\<rparr> = record_row c 0 r"
    using assms(2) unfolding stored_def by blast
  then have "x \<in> set (filter (\<lambda>r. rs_cursor_key r = cc_cursorKey c) (source_record_states s))"
    using stored_row [OF x(2)] by simp
  then have "x \<in> set (source_record_states t)"
    using assms(1) unfolding checkpoint_of_def prod.inject by (metis filter_is_subset subsetD)
  then show ?thesis using x(2) unfolding stored_def by blast
qed

lemma checkpoint_only:
  assumes "checkpoint_of (cc_cursorKey c) t = checkpoint_of (cc_cursorKey c) s" "only_run c s"
  shows "only_run c t"
proof -
  have "set (filter (\<lambda>r. rs_cursor_key r = cc_cursorKey c) (source_record_states t))
      = set (filter (\<lambda>r. rs_cursor_key r = cc_cursorKey c) (source_record_states s))"
    using assms(1) by (simp add: checkpoint_of_def)
  then show ?thesis using assms(2) unfolding only_run_def set_filter by blast
qed
subsection \<open>The committed checkpoint\<close>

lemma concat_chunk: "0 < k \<Longrightarrow> concat (chunk k xs) = xs"
proof (induction k xs rule: chunk.induct)
  case (1 k xs)
  then show ?case by (cases "xs = []") (simp_all add: chunk.simps [of k])
qed

lemma chunk_map: "chunk k (map f xs) = map (map f) (chunk k xs)"
proof (induction k xs rule: chunk.induct)
  case (1 k xs)
  then show ?case
    by (cases "xs = [] \<or> k = 0") (auto simp: chunk.simps [of k xs] chunk.simps [of k "map f xs"] take_map drop_map)
qed

lemma for_each_map: "for_each f (map h xs) = for_each (\<lambda>x. f (h x)) xs"
  by (induction xs) simp_all

abbreviation quiet_checkpoint :: "checkpoint_cursor \<Rightarrow> d1 \<Rightarrow> d1 \<Rightarrow> bool" where
  "quiet_checkpoint c \<equiv> unchanged (checkpoint_of (cc_cursorKey c))"

definition progress ::
    "checkpoint_guard option \<Rightarrow> checkpoint_cursor \<Rightarrow> cursor_row option \<Rightarrow> checkpoint_record list \<Rightarrow> d1 \<Rightarrow> bool" where
  "progress g c X visited s \<longleftrightarrow> fences_keyed s \<and> cursor_at (cc_cursorKey c) s = X
     \<and> (lost g s \<or> (\<forall>r \<in> set visited. stored c s r))"

lemma progress_spend [simp]: "progress g c X visited (spend_fault s) = progress g c X visited s"
  by (simp add: progress_def)

lemma checkpoint_cursor_at: "checkpoint_of key t = checkpoint_of key s \<Longrightarrow> cursor_at key t = cursor_at key s"
  by (simp add: checkpoint_of_def cursor_at_def)

lemma progress_stable: "stable (quiet_checkpoint c) (progress g c X visited)"
proof (rule stableI)
  fix s t assume grow: "fences_grow d1_fence_of s t" and keyed: "keeping fences_keyed s t"
    and same: "quiet_checkpoint c s t" and s: "progress g c X visited s"
  have eq: "checkpoint_of (cc_cursorKey c) t = checkpoint_of (cc_cursorKey c) s"
    using same by (simp add: unchanged_def)
  show "progress g c X visited t"
    using s keyed checkpoint_cursor_at [OF eq] checkpoint_stored [OF eq] lost_grows [OF grow]
    unfolding progress_def keeping_def by metis
qed

lemma progress_put:
  assumes "progress g c X visited s" "held g s \<or> lost g s"
    and "cr_sourceRecordId r \<notin> cr_sourceRecordId ` set visited"
  shows "progress g c X (visited @ [r]) (sql_put_record g c now r s)"
proof -
  have same: "fences_keyed (sql_put_record g c now r s)" "lost g (sql_put_record g c now r s) = lost g s"
    using assms(1) by (simp_all add: fence_facts [OF put_record_keeps(2)] progress_def)
  have "\<forall>r' \<in> set (visited @ [r]). stored c (sql_put_record g c now r s) r'" if "\<not> lost g s"
  proof
    fix r' assume r': "r' \<in> set (visited @ [r])"
    have "guard_holds g s" using assms(1,2) that guard_holds_iff by (auto simp: progress_def)
    moreover have "stored c s r'" if "r' \<in> set visited" using that assms(1) \<open>\<not> lost g s\<close> by (simp add: progress_def)
    ultimately show "stored c (sql_put_record g c now r s) r'"
      using r' assms(3) put_record_stores put_record_stored [of c s r' r g now]
      by (cases "r' = r") (auto simp: image_iff)
  qed
  then show ?thesis using same assms(1) by (auto simp: progress_def)
qed

lemma progress_batch:
  assumes "progress g c X visited s" "held g s \<or> lost g s"
    and "distinct (map cr_sourceRecordId (visited @ rs))"
  shows "progress g c X (visited @ rs) (fold (\<lambda>q. q) (map (sql_put_record g c now) rs) s)"
  using assms
proof (induction rs arbitrary: s visited)
  case (Cons r rs)
  have id: "cr_sourceRecordId r \<notin> cr_sourceRecordId ` set visited" using Cons.prems(3) by auto
  have "progress g c X ((visited @ [r]) @ rs)
      (fold (\<lambda>q. q) (map (sql_put_record g c now) rs) (sql_put_record g c now r s))"
  proof (rule Cons.IH)
    show "progress g c X (visited @ [r]) (sql_put_record g c now r s)"
      by (rule progress_put [OF Cons.prems(1,2) id])
    show "held g (sql_put_record g c now r s) \<or> lost g (sql_put_record g c now r s)"
      using Cons.prems(2) by (simp add: fence_facts [OF put_record_keeps(2)])
  qed (use Cons.prems(3) in simp)
  then show ?case by simp
qed simp

definition committed ::
    "checkpoint_guard option \<Rightarrow> checkpoint_cursor \<Rightarrow> int \<Rightarrow> cursor_row option \<Rightarrow> checkpoint_record list \<Rightarrow>
     bool \<Rightarrow> d1 \<Rightarrow> bool" where
  "committed g c now X records full s \<longleftrightarrow> (\<forall>r \<in> set records. stored c s r)
     \<and> cursor_at (cc_cursorKey c) s = Some (saved_cursor g c now X) \<and> (full \<longrightarrow> only_run c s)"

definition ended ::
    "checkpoint_guard option \<Rightarrow> checkpoint_cursor \<Rightarrow> int \<Rightarrow> cursor_row option \<Rightarrow> checkpoint_record list \<Rightarrow>
     bool \<Rightarrow> d1 \<Rightarrow> bool" where
  "ended g c now X records full s \<longleftrightarrow>
     lost g s \<and> cursor_at (cc_cursorKey c) s = X \<or> committed g c now X records full s"

lemma ended_spend [simp]: "ended g c now X records full (spend_fault s) = ended g c now X records full s"
  by (simp add: ended_def committed_def)

lemma ended_stable: "stable (quiet_checkpoint c) (ended g c now X records full)"
proof (rule stableI)
  fix s t assume grow: "fences_grow d1_fence_of s t"
    and same: "quiet_checkpoint c s t" and s: "ended g c now X records full s"
  have eq: "checkpoint_of (cc_cursorKey c) t = checkpoint_of (cc_cursorKey c) s"
    using same by (simp add: unchanged_def)
  show "ended g c now X records full t"
    using s checkpoint_cursor_at [OF eq] checkpoint_stored [OF eq] checkpoint_only [OF eq] lost_grows [OF grow]
    unfolding ended_def committed_def by metis
qed

lemma final_ends:
  assumes s: "progress g c X records s" and f: "held g s \<or> lost g s"
  shows "ended g c now X records full (fold (\<lambda>q. q) (final_statements g c full now) s)"
proof (cases "lost g s")
  case True
  then have "\<not> guard_holds g s" using s held_not_lost guard_holds_iff by (auto simp: progress_def)
  then have "fold (\<lambda>q. q) (final_statements g c full now) s = s"
    by (simp add: final_statements_def not_held_no_write)
  then show ?thesis using s True by (simp add: ended_def progress_def)
next
  case False
  then have h: "guard_holds g s" using s f guard_holds_iff by (auto simp: progress_def)
  let ?t = "sql_put_cursor g c now s"
  have t: "guard_holds g ?t" "\<forall>r \<in> set records. stored c ?t r"
    "cursor_at (cc_cursorKey c) ?t = Some (saved_cursor g c now X)"
    using h s False put_cursor_at [OF h]
    by (simp_all add: fence_facts [OF put_cursor_keeps(2)] progress_def stored_def)
  then have "committed g c now X records full (fold (\<lambda>q. q) (final_statements g c full now) s)"
    using prune_only [OF t(1)] prune_stored by (simp add: committed_def final_statements_def)
  then show ?thesis by (simp add: ended_def)
qed

lemma commit_triple:
  assumes "0 < k" and ids: "distinct (map cr_sourceRecordId records)"
  shows "triple (within (quiet_checkpoint c) (\<lambda>s. fences_keyed s \<and> cursor_at (cc_cursorKey c) s = X))
    (commit_checkpoint k g c records full now)
    (\<lambda>_. within (quiet_checkpoint c) (committed g c now X records full))
    (within (quiet_checkpoint c) (\<lambda>s. cursor_at (cc_cursorKey c) s = X \<or> (\<forall>r \<in> set records. stored c s r)))"
    (is "triple ?pre _ _ ?err")
proof -
  let ?R = "quiet_checkpoint c"
  let ?I = "\<lambda>gs. within ?R (progress g c X (concat gs))"
  have "triple (?I visited) (guarded_batch g (map (sql_put_record g c now) rs)) (\<lambda>_. ?I (visited @ [rs])) ?err"
    if split: "visited @ rs # rest = chunk k records" for visited rs rest
  proof -
    have "concat visited @ rs @ concat rest = records"
      using concat_chunk [OF assms(1), of records] split by (metis concat.simps(2) concat_append)
    then have d: "distinct (map cr_sourceRecordId (concat visited @ rs))"
      using ids by (metis append.assoc distinct_append map_append)
    have "triple (?I visited) (guarded_batch g (map (sql_put_record g c now) rs))
        (\<lambda>_. within ?R (progress g c X (concat visited @ rs)))
        (within ?R (\<lambda>s. progress g c X (concat visited) s \<or> progress g c X (concat visited @ rs) s))"
      by (intro triple_guarded_batch progress_stable progress_batch) (use d in simp_all)
    then show ?thesis
      by (rule triple_weaken) (auto simp: progress_def elim!: within_mono)
  qed
  then have loop: "triple (?I []) (for_each (\<lambda>rs. guarded_batch g (map (sql_put_record g c now) rs)) (chunk k records))
      (\<lambda>_. ?I (chunk k records)) ?err"
    by (rule triple_for_each) simp_all
  have final: "triple (?I (chunk k records)) (guarded_batch g (final_statements g c full now))
      (\<lambda>_. within ?R (ended g c now X records full)) ?err"
  proof -
    have "triple (?I (chunk k records)) (guarded_batch g (final_statements g c full now))
      (\<lambda>_. within ?R (ended g c now X records full))
      (within ?R (\<lambda>s. progress g c X records s \<or> ended g c now X records full s))"
      unfolding concat_chunk [OF assms(1)]
      by (intro triple_guarded_batch progress_stable final_ends) simp_all
    then show ?thesis
      by (rule triple_weaken) (auto simp: progress_def ended_def committed_def elim!: within_mono)
  qed
  have check: "triple (within ?R (ended g c now X records full)) (assert_turn g)
      (\<lambda>_. within ?R (committed g c now X records full)) ?err"
    by (rule triple_weaken [OF triple_assert_turn [OF ended_stable]])
      (auto simp: ended_def committed_def dest: held_not_lost elim!: within_mono)
  have start: "?I [] w" if "?pre w" for w
    using that by (simp add: within_def progress_def)
  show ?thesis
    unfolding commit_checkpoint_def Let_def chunk_map for_each_map
    by (rule triple_weaken [OF triple_andThen [OF loop triple_andThen [OF final triple_andThen [OF check triple_ret]]] start])
qed
subsection \<open>A save as a whole\<close>

lemma record_state_fields:
  "requireRecordState seen v = Inr r \<Longrightarrow> cr_sourceRecordId r \<notin> set seen"
  by (auto simp: requireRecordState_def bind_res_Inr_iff split: if_splits)

lemma record_states_distinct:
  "record_states seen vs = Inr rs \<Longrightarrow>
     distinct (map cr_sourceRecordId rs) \<and> set (map cr_sourceRecordId rs) \<inter> set seen = {}"
proof (induction vs arbitrary: seen rs)
  case (Cons v vs)
  obtain r rs' where r: "requireRecordState seen v = Inr r"
    "record_states (cr_sourceRecordId r # seen) vs = Inr rs'" "rs = r # rs'"
    using Cons.prems by (auto simp: bind_res_Inr_iff)
  show ?case using Cons.IH [OF r(2)] record_state_fields [OF r(1)] r(3) by auto
qed simp

lemma states_distinct: "requireRecordStates v = Inr rs \<Longrightarrow> distinct (map cr_sourceRecordId rs)"
  by (cases v) (auto simp: requireRecordStates_def dest: record_states_distinct)

lemma guard_cursor: "requireGenerationGuard v key = Inr g \<Longrightarrow> cg_cursorKey g = key"
  by (auto simp: requireGenerationGuard_def bind_res_Inr_iff split: if_splits)

lemma checkpoint_save_cases:
  assumes "saveCheckpoint k input now w = (r, w')"
  obtains (invalid) e where "r = Inl e" "w' = w"
    | (run) c records g r' where "requireCursor (jget input ''cursor'') = Inr c"
        "requireRecordStates (nullish (jget input ''records'') (JArr [])) = Inr records"
        "distinct (map cr_sourceRecordId records)"
        "case g of None \<Rightarrow> \<not> truthy (jget input ''generationGuard'')
           | Some a \<Rightarrow> requireGenerationGuard (jget input ''generationGuard'') (cc_cursorKey c) = Inr a"
        "commit_checkpoint k g c records (jget input ''fullSnapshot'' = JBool True) now w = (r', w')"
        "\<And>x. r = Inr x \<Longrightarrow> r' = Inr x" "\<And>e. r = Inl e \<Longrightarrow> \<exists>e'. r' = Inl e'"
proof (cases "requireCursor (jget input ''cursor'')")
  case (Inr c)
  note c = this
  show ?thesis
  proof (cases "requireRecordStates (nullish (jget input ''records'') (JArr []))")
    case (Inr records)
    note rs = this
    let ?g = "if truthy (jget input ''generationGuard'')
            then bind_res (requireGenerationGuard (jget input ''generationGuard'') (cc_cursorKey c)) (\<lambda>g. Inr (Some g))
            else Inr None"
    show ?thesis
    proof (cases ?g)
      case (Inr g)
      obtain r' u where m: "commit_checkpoint k g c records (jget input ''fullSnapshot'' = JBool True) now w = (r', u)"
        by force
      then have "u = w'" "\<And>x. r = Inr x \<Longrightarrow> r' = Inr x" "\<And>e. r = Inl e \<Longrightarrow> \<exists>e'. r' = Inl e'"
        using assms c rs Inr
        by (auto simp: saveCheckpoint_def eff_simps split: sum.splits if_splits)
      moreover have "case g of None \<Rightarrow> \<not> truthy (jget input ''generationGuard'')
           | Some a \<Rightarrow> requireGenerationGuard (jget input ''generationGuard'') (cc_cursorKey c) = Inr a"
        using Inr by (auto simp: bind_res_Inr_iff split: if_splits)
      ultimately show ?thesis using m by (intro run [OF c rs states_distinct [OF rs], of g r']) auto
    qed (use assms c rs invalid in \<open>auto simp: saveCheckpoint_def throw_def\<close>)
  qed (use assms c invalid in \<open>auto simp: saveCheckpoint_def throw_def\<close>)
qed (use assms invalid in \<open>auto simp: saveCheckpoint_def throw_def\<close>)

text \<open>A guarded save whose fence has been lost writes nothing and never returns.\<close>

lemma lost_stable:
  "stable (keeping (\<lambda>s. P (checkpoint_of key s))) (\<lambda>s. fences_keyed s \<and> lost g s \<and> P (checkpoint_of key s))"
  by (rule stableI) (auto simp: keeping_def dest: lost_grows)

lemma lost_no_write:
  assumes "fences_keyed s" "lost g s"
  shows "fold (\<lambda>q. q) (map (sql_put_record g c now) rs) s = s"
    "fold (\<lambda>q. q) (final_statements g c full now) s = s"
proof -
  have n: "\<not> guard_holds g s" using assms held_not_lost guard_holds_iff by auto
  show "fold (\<lambda>q. q) (map (sql_put_record g c now) rs) s = s"
    by (induction rs) (simp_all add: not_held_no_write [OF n])
  show "fold (\<lambda>q. q) (final_statements g c full now) s = s"
    by (simp add: final_statements_def not_held_no_write [OF n])
qed

lemma lost_triple:
  fixes key P
  defines "R \<equiv> keeping (\<lambda>s. P (checkpoint_of key s))"
  shows "triple (within R (\<lambda>s. fences_keyed s \<and> lost g s \<and> P (checkpoint_of key s)))
    (commit_checkpoint k g c records full now) (\<lambda>_ _. False)
    (within R (\<lambda>s. P (checkpoint_of key s)))"
    (is "triple (within R ?I) _ _ ?err")
proof -
  have batch: "triple (within R ?I) (guarded_batch g q) (\<lambda>_. within R ?I) ?err"
    if "\<And>s. fences_keyed s \<Longrightarrow> lost g s \<Longrightarrow> fold (\<lambda>q. q) q s = s" for q
    unfolding R_def
    by (rule triple_weaken [OF triple_guarded_batch [OF lost_stable]]) (auto simp: that elim!: within_mono)
  have loop: "triple (within R ?I) (for_each (\<lambda>rs. guarded_batch g (map (sql_put_record g c now) rs)) (chunk k records))
      (\<lambda>_. within R ?I) ?err"
    by (rule triple_for_each) (use batch lost_no_write in auto)
  have final: "triple (within R ?I) (guarded_batch g (final_statements g c full now)) (\<lambda>_. within R ?I) ?err"
    using batch lost_no_write by blast
  have check: "triple (within R ?I) (assert_turn g) (\<lambda>_ _. False) ?err"
    unfolding R_def
    by (rule triple_weaken [OF triple_assert_turn [OF lost_stable]])
      (auto simp: within_def dest: held_not_lost)
  show ?thesis
    unfolding commit_checkpoint_def Let_def chunk_map for_each_map
    by (rule triple_andThen [OF loop triple_andThen [OF final triple_andThen [OF check triple_ret]]]) simp
qed

lemma stale_save:
  assumes w: "within (keeping (\<lambda>s. P (checkpoint_of key s)))
      (\<lambda>s. fences_keyed s \<and> P (checkpoint_of key s)) w"
    and c: "jget (jget input ''cursor'') ''cursorKey'' = JStr c0" "key = trim c0"
    and g: "jget input ''generationGuard'' = JObj kvs" "jget (JObj kvs) ''generation'' = jint n"
      "jget (JObj kvs) ''workKey'' = JStr wk"
    and late: "beaten n (trim wk) (d1_fence_of (sh_db w) key)"
  shows "(\<exists>e. fst (saveCheckpoint k input now w) = Inl e)
    \<and> P (checkpoint_of key (sh_db (snd (saveCheckpoint k input now w))))"
proof -
  obtain r w' where save: "saveCheckpoint k input now w = (r, w')" by force
  then show ?thesis
  proof (cases rule: checkpoint_save_cases)
    case (run c records g' r')
    obtain a where a: "g' = Some a" "requireGenerationGuard (JObj kvs) (cc_cursorKey c) = Inr a"
      using run(4) g(1) by (auto split: option.splits)
    have "cc_cursorKey c = key"
      using run(1) assms(2,3)
      by (auto simp: requireCursor_def bind_res_Inr_iff inc_requireText_def requireText_def split: if_splits)
    then have "lost g' (sh_db w)"
      using a late g(2,3) unfolding lost_def a(1) option.case guard_cursor [OF a(2)]
      by (auto simp: requireGenerationGuard_def bind_res_Inr_iff inc_requireText_def requireText_def
          inc_nonNegativeInteger_def inc_safeInteger_def split: if_splits dest!: safe_number_jintD)
    then have pre: "within (keeping (\<lambda>s. P (checkpoint_of key s)))
        (\<lambda>s. fences_keyed s \<and> lost g' s \<and> P (checkpoint_of key s)) w"
      using w by (simp add: within_def)
    show ?thesis
    proof (cases r')
      case (Inl e)
      then show ?thesis
        using triple_InlD [OF lost_triple pre run(5) [unfolded Inl]] run(6) save
        by (cases r) (auto simp: within_def)
    next
      case (Inr x)
      then show ?thesis using triple_InrD [OF lost_triple pre run(5) [unfolded Inr]] by simp
    qed
  qed (use w save in \<open>simp_all add: within_def\<close>)
qed
subsection \<open>What a save achieves\<close>

lemma save_committed:
  assumes w: "within (quiet_checkpoint c) fences_keyed w" and k: "0 < k"
    and c: "requireCursor (jget input ''cursor'') = Inr c"
    and rs: "requireRecordStates (nullish (jget input ''records'') (JArr [])) = Inr records"
    and run: "saveCheckpoint k input now w = (Inr x, w')"
  obtains g where "case g of None \<Rightarrow> \<not> truthy (jget input ''generationGuard'')
      | Some a \<Rightarrow> requireGenerationGuard (jget input ''generationGuard'') (cc_cursorKey c) = Inr a"
    "committed g c now (cursor_at (cc_cursorKey c) (sh_db w)) records
       (jget input ''fullSnapshot'' = JBool True) (sh_db w')"
proof -
  from run show ?thesis
  proof (cases rule: checkpoint_save_cases)
    case (run c' records' g r')
    have same: "c' = c" "records' = records" using run(1,2) c rs by simp_all
    let ?full = "jget input ''fullSnapshot'' = JBool True"
    have "commit_checkpoint k g c records ?full now w = (Inr x, w')" using run(5,6) same by simp
    moreover have "within (quiet_checkpoint c)
        (\<lambda>s. fences_keyed s \<and> cursor_at (cc_cursorKey c) s = cursor_at (cc_cursorKey c) (sh_db w)) w"
      using w by (simp add: within_def)
    moreover have "distinct (map cr_sourceRecordId records)" using run(3) same by simp
    ultimately have "within (quiet_checkpoint c)
        (committed g c now (cursor_at (cc_cursorKey c) (sh_db w)) records ?full) w'"
      using triple_InrD [OF commit_triple [OF k]] by blast
    then show ?thesis using run(4) unfolding same by (intro that [of g]) (simp_all add: within_def)
  qed simp
qed

text \<open>Whatever happens, the cursor changes only after every record of the save is stored.\<close>

lemma cursor_last:
  assumes w: "within (quiet_checkpoint c) fences_keyed w" and k: "0 < k"
    and c: "requireCursor (jget input ''cursor'') = Inr c"
    and rs: "requireRecordStates (nullish (jget input ''records'') (JArr [])) = Inr records"
    and run: "saveCheckpoint k input now w = (r, w')"
  shows "cursor_at (cc_cursorKey c) (sh_db w') = cursor_at (cc_cursorKey c) (sh_db w)
    \<or> (\<forall>x \<in> set records. stored c (sh_db w') x)"
  using run
proof (cases rule: checkpoint_save_cases)
  case (run c' records' g r')
  have same: "c' = c" "records' = records" using run(1,2) c rs by simp_all
  let ?pre = "\<lambda>s. fences_keyed s \<and> cursor_at (cc_cursorKey c) s = cursor_at (cc_cursorKey c) (sh_db w)"
  have pre: "within (quiet_checkpoint c) ?pre w" using w by (simp add: within_def)
  have d: "distinct (map cr_sourceRecordId records)" using run(3) same by simp
  show ?thesis
  proof (cases r')
    case (Inl e)
    show ?thesis
      using triple_InlD [OF commit_triple [OF k d] pre run(5) [unfolded same Inl]] by (simp add: within_def)
  next
    case (Inr x)
    show ?thesis
      using triple_InrD [OF commit_triple [OF k d] pre run(5) [unfolded same Inr]]
      by (simp add: within_def committed_def)
  qed
qed simp

definition cursor_matches :: "checkpoint_cursor \<Rightarrow> cursor_view \<Rightarrow> bool" where
  "cursor_matches c v \<longleftrightarrow> cv_cursorKey v = cc_cursorKey c \<and> cv_customerProfile v = cc_customerProfile c
     \<and> cv_platform v = cc_platform c \<and> cv_accountKey v = cc_accountKey c \<and> cv_source v = cc_source c
     \<and> cv_syncType v = cc_syncType c \<and> cv_lastMetricDate v = cc_lastMetricDate c
     \<and> cv_dictionaryHash v = cc_dictionaryHash c \<and> cv_lastFullSyncAt v = cc_lastFullSyncAt c
     \<and> cv_lastSuccessfulSyncAt v = Some (cc_lastSuccessfulSyncAt c)
     \<and> cv_incrementalRunCount v = cc_incrementalRunCount c \<and> cv_lastSyncRunId v = cc_lastSyncRunId c"

definition record_matches :: "checkpoint_cursor \<Rightarrow> checkpoint_record \<Rightarrow> record_view \<Rightarrow> bool" where
  "record_matches c r v \<longleftrightarrow> rv_sourceRecordId v = cr_sourceRecordId r
     \<and> rv_sourceModifiedAt v = cr_sourceModifiedAt r \<and> rv_sourceHash v = cr_sourceHash r
     \<and> rv_externalContentId v = cr_externalContentId r \<and> rv_lastSeenSyncRunId v = cc_lastSyncRunId c"

lemma nullableInteger_safe:
  "inc_nullableInteger v = Inr x \<Longrightarrow> toNullableInteger x = x"
  by (auto simp: inc_nullableInteger_def inc_safeInteger_def bind_res_Inr_iff toNullableInteger_def
      split: if_splits option.splits dest!: safe_number_InrD)

lemma cursor_numbers:
  assumes "requireCursor v = Inr c"
  shows "toNullableInteger (cc_lastFullSyncAt c) = cc_lastFullSyncAt c"
    "toNullableInteger (Some (cc_lastSuccessfulSyncAt c)) = Some (cc_lastSuccessfulSyncAt c)"
    "toNonNegativeInteger (cc_incrementalRunCount c) = cc_incrementalRunCount c"
  using assms
  by (auto simp: requireCursor_def bind_res_Inr_iff inc_nonNegativeInteger_def inc_safeInteger_def
      toNonNegativeInteger_def split: if_splits dest!: nullableInteger_safe safe_number_InrD)
    (simp_all add: toNullableInteger_def)

lemma record_numbers:
  "record_states seen vs = Inr rs \<Longrightarrow> r \<in> set rs \<Longrightarrow> toNullableInteger (cr_sourceModifiedAt r) = cr_sourceModifiedAt r"
proof (induction vs arbitrary: seen rs)
  case (Cons v vs)
  obtain x rs' where x: "requireRecordState seen v = Inr x"
    "record_states (cr_sourceRecordId x # seen) vs = Inr rs'" "rs = x # rs'"
    using Cons.prems(1) by (auto simp: bind_res_Inr_iff)
  have "toNullableInteger (cr_sourceModifiedAt x) = cr_sourceModifiedAt x"
    using x(1) by (auto simp: requireRecordState_def bind_res_Inr_iff split: if_splits dest: nullableInteger_safe)
  then show ?case using Cons.IH [OF x(2)] Cons.prems(2) x(3) by auto
qed simp

lemma states_numbers:
  "requireRecordStates v = Inr rs \<Longrightarrow> r \<in> set rs \<Longrightarrow> toNullableInteger (cr_sourceModifiedAt r) = cr_sourceModifiedAt r"
  by (cases v) (auto simp: requireRecordStates_def dest: record_numbers)

lemma stored_fields:
  "x\<lparr>rs_created_at := 0, rs_updated_at := 0\<rparr> = record_row c 0 r \<Longrightarrow>
   rs_source_record_id x = cr_sourceRecordId r \<and> rs_source_modified_at x = cr_sourceModifiedAt r
   \<and> rs_source_hash x = cr_sourceHash r \<and> rs_external_content_id x = cr_externalContentId r
   \<and> rs_last_seen_sync_run_id x = cc_lastSyncRunId c"
  by (cases x) (simp add: record_row_def)

lemma stored_view:
  assumes "stored c s r" "toNullableInteger (cr_sourceModifiedAt r) = cr_sourceModifiedAt r"
  shows "\<exists>v \<in> set (map freezeRecordState (filter (\<lambda>x. rs_cursor_key x = cc_cursorKey c) (source_record_states s))).
     record_matches c r v"
proof -
  obtain x where x: "x \<in> set (source_record_states s)"
    "x\<lparr>rs_created_at := 0, rs_updated_at := 0\<rparr> = record_row c 0 r"
    using assms(1) unfolding stored_def by blast
  then have "record_matches c r (freezeRecordState x)"
    using assms(2) stored_fields [OF x(2)] by (simp add: record_matches_def freezeRecordState_def)
  then show ?thesis using x(1) stored_row [OF x(2)] by auto
qed

lemma load_quiet:
  assumes "quiet s" "plain_text key"
  shows "loadCheckpoint (JStr key) s = (Inr (map_option freezeCursor (cursor_at key s),
     map freezeRecordState (filter (\<lambda>r. rs_cursor_key r = key) (source_record_states s))), s)"
  using assms by (simp add: loadCheckpoint_def inc_requireText_def both_def eff_simps cursor_at_def)

lemma saved_cursor_view:
  assumes "requireCursor v = Inr c"
    and "case g of None \<Rightarrow> True | Some a \<Rightarrow> \<forall>x. old = Some x \<longrightarrow> cu_generation x \<le> cg_generation a"
  shows "cursor_matches c (freezeCursor (saved_cursor g c now old))"
proof -
  have "\<exists>x. saved_cursor g c now old = cursor_insert g c now \<or> saved_cursor g c now old = cursor_set g c now x"
    using assms(2) by (auto simp: saved_cursor_def split: option.splits)
  then show ?thesis
    using cursor_numbers [OF assms(1)]
    by (auto simp: cursor_matches_def freezeCursor_def cursor_set_def cursor_insert_def Let_def split: option.split)
qed

lemma saved_loads_back:
  assumes w: "within (quiet_checkpoint c) fences_keyed w" and k: "0 < k"
    and c: "requireCursor (jget input ''cursor'') = Inr c"
    and rs: "requireRecordStates (nullish (jget input ''records'') (JArr [])) = Inr records"
    and run: "saveCheckpoint k input now w = (Inr x, w')"
    and fresh: "\<forall>y n. cursor_at (cc_cursorKey c) (sh_db w) = Some y
        \<and> js_number (jget (jget input ''generationGuard'') ''generation'') = NInt n \<longrightarrow> cu_generation y \<le> n"
    and q: "quiet (sh_db w')"
  shows "\<exists>v vs. loadCheckpoint (JStr (cc_cursorKey c)) (sh_db w') = (Inr (Some v, vs), sh_db w')
    \<and> cursor_matches c v \<and> (\<forall>r \<in> set records. \<exists>u \<in> set vs. record_matches c r u)
    \<and> (jget input ''fullSnapshot'' = JBool True \<longrightarrow> (\<forall>u \<in> set vs. rv_lastSeenSyncRunId u = cc_lastSyncRunId c))"
proof -
  let ?full = "jget input ''fullSnapshot'' = JBool True"
  obtain g where g: "case g of None \<Rightarrow> \<not> truthy (jget input ''generationGuard'')
      | Some a \<Rightarrow> requireGenerationGuard (jget input ''generationGuard'') (cc_cursorKey c) = Inr a"
    and com: "committed g c now (cursor_at (cc_cursorKey c) (sh_db w)) records ?full (sh_db w')"
    using save_committed [OF w k c rs run] .
  have key: "plain_text (cc_cursorKey c)"
    using c by (auto simp: requireCursor_def bind_res_Inr_iff inc_requireText_def split: if_splits
        dest!: requireText_InrD)
  let ?rows = "filter (\<lambda>x. rs_cursor_key x = cc_cursorKey c) (source_record_states (sh_db w'))"
  let ?v = "freezeCursor (saved_cursor g c now (cursor_at (cc_cursorKey c) (sh_db w)))"
  have load: "loadCheckpoint (JStr (cc_cursorKey c)) (sh_db w') = (Inr (Some ?v, map freezeRecordState ?rows), sh_db w')"
    using load_quiet [OF q key] com by (simp add: committed_def)
  have "case g of None \<Rightarrow> True | Some a \<Rightarrow>
      \<forall>y. cursor_at (cc_cursorKey c) (sh_db w) = Some y \<longrightarrow> cu_generation y \<le> cg_generation a"
    using g fresh
    by (auto simp: requireGenerationGuard_def bind_res_Inr_iff inc_nonNegativeInteger_def inc_safeInteger_def
        safe_number_def split: option.splits if_splits dest!: safe_int_SomeD)
  then have v: "cursor_matches c ?v" by (rule saved_cursor_view [OF c])
  have records: "\<forall>r \<in> set records. \<exists>u \<in> set (map freezeRecordState ?rows). record_matches c r u"
    using com stored_view states_numbers [OF rs] unfolding committed_def by blast
  have only: "?full \<longrightarrow> (\<forall>u \<in> set (map freezeRecordState ?rows). rv_lastSeenSyncRunId u = cc_lastSyncRunId c)"
    using com by (auto simp: committed_def only_run_def freezeRecordState_def)
  show ?thesis using load v records only by blast
qed

subsection \<open>The generation of a cursor\<close>

definition generation_from :: "string \<Rightarrow> int \<Rightarrow> d1 \<Rightarrow> bool" where
  "generation_from key n s \<longleftrightarrow> (case cursor_at key s of None \<Rightarrow> False | Some x \<Rightarrow> n \<le> cu_generation x)"

lemma generation_spend [simp]: "generation_from key n (spend_fault s) = generation_from key n s"
  by (simp add: generation_from_def)

lemma generation_statements:
  "generation_from key n s \<Longrightarrow> generation_from key n (sql_put_record g c now r s)"
  "generation_from key n s \<Longrightarrow> generation_from key n (sql_prune_records g c s)"
  "generation_from key n s \<Longrightarrow> generation_from key n (sql_put_cursor g c now s)"
proof -
  show "generation_from key n s \<Longrightarrow> generation_from key n (sql_put_cursor g c now s)"
  proof (cases "guard_holds g s")
    case True
    assume s: "generation_from key n s"
    show ?thesis
    proof (cases "key = cc_cursorKey c")
      case False
      have "cursor_at key (sql_put_cursor g c now s) = cursor_at key s"
        using row_at_upsert [of cu_key "cursor_insert g c now" "cursor_set g c now" key
            "\<lambda>x. case g of None \<Rightarrow> True | Some g \<Rightarrow> cu_generation x \<le> cg_generation g" "sync_cursors s"] True False
        by (simp add: sql_put_cursor_def cursor_at_def cursor_insert_def)
      then show ?thesis using s by (simp add: generation_from_def)
    next
      case True
      then show ?thesis
        using s put_cursor_at [OF \<open>guard_holds g s\<close>, of c now]
        by (auto simp: generation_from_def saved_cursor_def cursor_set_def cursor_insert_def Let_def
            split: option.splits)
    qed
  qed (simp add: not_held_no_write)
qed (simp_all add: generation_from_def)

lemma triple_keeping_batch:
  assumes "\<And>s. P (spend_fault s) = P s" "\<And>s q. q \<in> set statements \<Longrightarrow> P s \<Longrightarrow> P (q s)"
  shows "triple (within (keeping P) P) (guarded_batch g statements) (\<lambda>_. within (keeping P) P) (within (keeping P) P)"
proof -
  have "P (fold (\<lambda>q. q) statements s)" if "P s" for s
    using assms(2) that by (induction statements arbitrary: s) auto
  then show ?thesis
    by (intro triple_weaken [OF triple_guarded_batch [of "keeping P" P g P statements]])
      (auto simp: assms(1) keeping_def intro: stableI)
qed

lemma save_keeps_generation:
  assumes w: "within (keeping (generation_from key n)) (generation_from key n) w"
  shows "generation_from key n (sh_db (snd (saveCheckpoint k input now w)))"
proof -
  let ?W = "within (keeping (generation_from key n)) (generation_from key n)"
  obtain r w' where save: "saveCheckpoint k input now w = (r, w')" by force
  then have "?W w'"
  proof (cases rule: checkpoint_save_cases)
    case (run c records g r')
    let ?full = "jget input ''fullSnapshot'' = JBool True"
    have loop: "triple ?W (for_each (\<lambda>rs. guarded_batch g (map (sql_put_record g c now) rs)) (chunk k records)) (\<lambda>_. ?W) ?W"
      by (rule triple_for_each) (auto intro!: triple_keeping_batch generation_statements)
    have final: "triple ?W (guarded_batch g (final_statements g c ?full now)) (\<lambda>_. ?W) ?W"
      by (rule triple_keeping_batch) (auto simp: final_statements_def generation_statements split: if_splits)
    have check: "triple ?W (assert_turn g) (\<lambda>_. ?W) ?W"
      by (rule triple_weaken [OF triple_assert_turn]) (auto simp: keeping_def intro: stableI elim!: within_mono)
    have "triple ?W (commit_checkpoint k g c records ?full now) (\<lambda>_. ?W) ?W"
      unfolding commit_checkpoint_def Let_def chunk_map for_each_map
      by (rule triple_andThen [OF loop triple_andThen [OF final triple_andThen [OF check triple_ret]]])
    then show ?thesis using run(5) w by (cases r') (auto dest: triple_InrD triple_InlD)
  qed (use w in simp)
  then show ?thesis using save by (simp add: within_def)
qed

end
