(* ===== verification/Table_Sync.thy ===== *)
theory Table_Sync
  imports Effects "HOL-Library.Multiset"
begin

text \<open>
  The table synchronisation engine (\<open>table-sync-engine.js\<close>): deduplication of the input by its
  stable key, the plan of creations, updates and skips against the destination, and the execution
  of a plan with its accounting of partial writes.

  The repository (the adapter of the destination) is a parameter: a record of functions over a state
  \<open>'r\<close> of its own. Progress callbacks only report and are left out. \<open>localeCompare\<close> is a
  parameter \<open>le\<close>: whether the left key sorts before or with the right one. A plan carries a number
  that stands for the identity of the plan object.
\<close>

subsection \<open>Validation\<close>

definition eng_requireText :: "jsval \<Rightarrow> string \<Rightarrow> jserror + string" where
  "eng_requireText v f = (case v of
     JStr s \<Rightarrow> if trim s = [] then Inl (plain_error (''TableSyncEngine requires '' @ f)) else Inr (trim s)
   | _ \<Rightarrow> Inl (plain_error (''TableSyncEngine requires '' @ f)))"

definition eng_optionalText :: "jsval \<Rightarrow> string option" where
  "eng_optionalText v = (case v of JStr s \<Rightarrow> if trim s = [] then None else Some (trim s) | _ \<Rightarrow> None)"

definition eng_requireArray :: "jsval \<Rightarrow> string \<Rightarrow> jserror + jsval list" where
  "eng_requireArray v f = (case v of JArr xs \<Rightarrow> Inr xs
     | _ \<Rightarrow> Inl (type_error (''TableSyncEngine requires array '' @ f)))"

definition requirePlainObject :: "jsval \<Rightarrow> string \<Rightarrow> jserror + (string \<times> jsval) list" where
  "requirePlainObject v f = (case v of JObj kvs \<Rightarrow> Inr kvs
     | _ \<Rightarrow> Inl (type_error (''TableSyncEngine requires object '' @ f)))"

definition readResultCount :: "jsval \<Rightarrow> string \<Rightarrow> jserror + int" where
  "readResultCount v f = (case js_number (nullish v (jint 0)) of
     NInt n \<Rightarrow> if n < 0 then Inl (type_error (''Repository '' @ f @ '' result must be a non-negative integer''))
               else Inr n
   | _ \<Rightarrow> Inl (type_error (''Repository '' @ f @ '' result must be a non-negative integer'')))"

definition assertExpectedWriteCount :: "int \<Rightarrow> nat \<Rightarrow> string \<Rightarrow> string \<Rightarrow> jserror + unit" where
  "assertExpectedWriteCount actual expected operation tableId =
     (if actual \<noteq> int expected
      then Inl (plain_error (''Repository '' @ operation @ '' count mismatch for table '' @ tableId
             @ '': expected '' @ int_text (int expected) @ '', received '' @ int_text actual))
      else Inr ())"

datatype duplicate_policy = RejectDuplicates | KeepFirst

definition readDuplicatePolicy :: "jsval \<Rightarrow> jserror + duplicate_policy" where
  "readDuplicatePolicy v = (if v = JStr ''error'' then Inr RejectDuplicates
     else if v = JStr ''first'' then Inr KeepFirst
     else Inl (type_error ''existingDuplicatePolicy must be error or first''))"

subsection \<open>Deduplication\<close>

definition row_key :: "string \<Rightarrow> jsval \<Rightarrow> jserror + string" where
  "row_key keyField row = bind_res (requirePlainObject row ''row'')
     (\<lambda>_. eng_requireText (jget row keyField) keyField)"

fun dedupe_from :: "string \<Rightarrow> jsval list \<Rightarrow> (string \<times> jsval) list \<Rightarrow> nat \<Rightarrow>
    jserror + (string \<times> jsval) list \<times> nat" where
  "dedupe_from keyField [] m n = Inr (m, n)"
| "dedupe_from keyField (row # rows) m n = bind_res (row_key keyField row) (\<lambda>k.
     dedupe_from keyField rows (map_set k row m) (if k \<in> fst ` set m then n + 1 else n))"

definition deduplicateRowsByKey :: "jsval \<Rightarrow> jsval \<Rightarrow> jserror + jsval list \<times> nat" where
  "deduplicateRowsByKey rows keyField =
     bind_res (eng_requireText keyField ''keyField'') (\<lambda>key.
     bind_res (eng_requireArray rows ''rows'') (\<lambda>xs.
     bind_res (dedupe_from key xs [] 0) (\<lambda>(m, n). Inr (map snd m, n))))"

subsection \<open>Comparison\<close>

fun insert_entry :: "(string \<Rightarrow> string \<Rightarrow> bool) \<Rightarrow> string \<times> jsval \<Rightarrow> (string \<times> jsval) list \<Rightarrow> (string \<times> jsval) list" where
  "insert_entry le e [] = [e]"
| "insert_entry le e (x # xs) = (if le (fst e) (fst x) then e # x # xs else x # insert_entry le e xs)"

definition sort_entries :: "(string \<Rightarrow> string \<Rightarrow> bool) \<Rightarrow> (string \<times> jsval) list \<Rightarrow> (string \<times> jsval) list" where
  "sort_entries le kvs = foldr (insert_entry le) kvs []"

fun normalizeComparable :: "(string \<Rightarrow> string \<Rightarrow> bool) \<Rightarrow> jsval \<Rightarrow> jsval" where
  "normalizeComparable le (JArr xs) = JArr (map (normalizeComparable le) xs)"
| "normalizeComparable le (JObj kvs) =
     JObj (sort_entries le (map (\<lambda>(k, v). (k, normalizeComparable le v)) kvs))"
| "normalizeComparable le v = v"

fun deepEqual :: "jsval \<Rightarrow> jsval \<Rightarrow> bool" where
  "deepEqual (JArr xs) (JArr ys) \<longleftrightarrow> length xs = length ys \<and> list_all2 deepEqual xs ys"
| "deepEqual (JObj l) (JObj r) \<longleftrightarrow> length l = length r
     \<and> list_all (\<lambda>(k, v). case map_of r k of None \<Rightarrow> False | Some u \<Rightarrow> deepEqual v u) l"
| "deepEqual a b \<longleftrightarrow> a = b"

definition listChangedFieldNames :: "(string \<Rightarrow> string \<Rightarrow> bool) \<Rightarrow> jsval \<Rightarrow> jsval \<Rightarrow> jserror + string list" where
  "listChangedFieldNames le existing incoming =
     bind_res (requirePlainObject existing ''existingFields'') (\<lambda>_.
     bind_res (requirePlainObject incoming ''incomingFields'') (\<lambda>kvs.
     Inr (map fst (filter (\<lambda>(k, v). \<not> deepEqual (normalizeComparable le (jget existing k))
            (normalizeComparable le v)) kvs))))"

definition hasChangedFields :: "(string \<Rightarrow> string \<Rightarrow> bool) \<Rightarrow> jsval \<Rightarrow> jsval \<Rightarrow> jserror + bool" where
  "hasChangedFields le existing incoming =
     bind_res (listChangedFieldNames le existing incoming) (\<lambda>fs. Inr (0 < length fs))"

subsection \<open>The destination\<close>

record 'r repository =
  prepareRows :: "string \<Rightarrow> jsval list \<Rightarrow> string \<Rightarrow> ('r, jsval list) eff"
  listByFieldValues :: "(string \<Rightarrow> string \<Rightarrow> string list \<Rightarrow> ('r, jsval) eff) option"
  listAll :: "(string \<Rightarrow> ('r, jsval) eff) option"
  prepareExistingRecords :: "(string \<Rightarrow> jsval list \<Rightarrow> string list \<Rightarrow> ('r, jsval) eff) option"
  createMany :: "string \<Rightarrow> jsval list \<Rightarrow> ('r, jsval) eff"
  updateMany :: "string \<Rightarrow> jsval list \<Rightarrow> ('r, jsval) eff"

definition requireRepository :: "'r repository \<Rightarrow> jserror + 'r repository" where
  "requireRepository repo = (if listByFieldValues repo = None \<and> listAll repo = None
     then Inl (type_error ''TableSyncEngine requires repository.listByFieldValues or repository.listAll'')
     else Inr repo)"

definition readExistingRecords ::
    "'r repository \<Rightarrow> string \<Rightarrow> string \<Rightarrow> string list \<Rightarrow> ('r, jsval list \<times> string) eff" where
  "readExistingRecords repo tableId keyField keys = (case listByFieldValues repo of
       Some read \<Rightarrow> andThen (read tableId keyField keys) (\<lambda>records.
         check (eng_requireArray records ''existingRecords'') (\<lambda>rs. ret (rs, ''filtered_keys'')))
     | None \<Rightarrow> (case listAll repo of
         Some read \<Rightarrow> andThen (read tableId) (\<lambda>records.
           check (eng_requireArray records ''existingRecords'') (\<lambda>rs. ret (rs, ''full_table_scan'')))
       | None \<Rightarrow> throw (type_error ''input.repository.listAll is not a function'')))"

fun add_names :: "string list \<Rightarrow> string list \<Rightarrow> string list" where
  "add_names names [] = names"
| "add_names names (f # fs) = add_names (if f \<in> set names then names else names @ [f]) fs"

fun field_names :: "jsval \<Rightarrow> string list" where
  "field_names (JObj kvs) = map fst kvs"
| "field_names _ = []"

definition collectIncomingFieldNames :: "jsval list \<Rightarrow> string list" where
  "collectIncomingFieldNames rows = add_names [] (concat (map field_names rows))"

definition normalizeExistingRecords ::
    "'r repository \<Rightarrow> string \<Rightarrow> jsval list \<Rightarrow> string list \<Rightarrow> ('r, jsval) eff" where
  "normalizeExistingRecords repo tableId records names = (case prepareExistingRecords repo of
       None \<Rightarrow> ret (JArr records) | Some prepare \<Rightarrow> prepare tableId records names)"

fun index_records ::
    "duplicate_policy \<Rightarrow> string \<Rightarrow> jsval list \<Rightarrow> (string \<times> jsval) list \<Rightarrow> string list \<Rightarrow>
     (string \<times> jsval) list \<times> string list" where
  "index_records policy keyField [] index dups = (index, dups)"
| "index_records policy keyField (r # rs) index dups =
     (case eng_optionalText (jget (jget r ''fields'') keyField) of
        None \<Rightarrow> index_records policy keyField rs index dups
      | Some k \<Rightarrow>
          if k \<in> fst ` set index
          then (if policy = KeepFirst then index_records policy keyField rs index (dups @ [k])
                else index_records policy keyField rs (map_set k r index) (dups @ [k]))
          else index_records policy keyField rs (map_set k r index) dups)"

definition buildExistingIndex ::
    "jsval \<Rightarrow> string \<Rightarrow> duplicate_policy \<Rightarrow> jserror + (string \<times> jsval) list" where
  "buildExistingIndex records keyField policy =
     bind_res (eng_requireArray records ''existingRecords'') (\<lambda>rs.
     case index_records policy keyField rs [] [] of (index, dups) \<Rightarrow>
       if dups \<noteq> [] \<and> policy = RejectDuplicates
       then Inl (plain_error (''Destination table contains duplicate '' @ keyField @ '' values: ''
              @ join '', '' (take 10 (add_names [] dups))))
       else Inr index)"

subsection \<open>The plan\<close>

record sync_plan =
  pl_id :: nat
  pl_tableId :: string
  pl_keyField :: string
  pl_createRows :: "jsval list"
  pl_updateRows :: "jsval list"
  pl_skipped :: nat
  pl_duplicateInputRows :: nat
  pl_inputRows :: nat
  pl_existingRecordsRead :: nat
  pl_existingReadStrategy :: string
  pl_changedFieldCounts :: "(string \<times> nat) list"

record plan_progress =
  pp_create :: "jsval list"
  pp_update :: "jsval list"
  pp_skipped :: nat
  pp_counts :: "(string \<times> nat) list"

definition update_row :: "jsval \<Rightarrow> jsval \<Rightarrow> jsval" where
  "update_row recordId row = JObj [(''recordId'', recordId), (''fields'', row)]"

fun count_fields :: "string list \<Rightarrow> (string \<times> nat) list \<Rightarrow> (string \<times> nat) list" where
  "count_fields [] m = m"
| "count_fields (f # fs) m =
     count_fields fs (map_set f ((case map_of m f of Some n \<Rightarrow> n | None \<Rightarrow> 0) + 1) m)"

definition plan_row ::
    "(string \<Rightarrow> string \<Rightarrow> bool) \<Rightarrow> string \<Rightarrow> (string \<times> jsval) list \<Rightarrow> jsval \<Rightarrow> plan_progress \<Rightarrow>
     jserror + plan_progress" where
  "plan_row le keyField index row p =
     bind_res (eng_requireText (jget row keyField) keyField) (\<lambda>k.
     case map_of index k of
       None \<Rightarrow> Inr (p\<lparr>pp_create := pp_create p @ [row]\<rparr>)
     | Some existing \<Rightarrow>
         if \<not> truthy (jget existing ''recordId'')
         then Inl (plain_error (''Destination record for '' @ keyField @ ''='' @ k @ '' has no recordId''))
         else bind_res (listChangedFieldNames le (jget existing ''fields'') row) (\<lambda>changed.
           if 0 < length changed
           then Inr (p\<lparr>pp_update := pp_update p @ [update_row (jget existing ''recordId'') row],
                       pp_counts := count_fields changed (pp_counts p)\<rparr>)
           else Inr (p\<lparr>pp_skipped := pp_skipped p + 1\<rparr>)))"

fun plan_rows ::
    "(string \<Rightarrow> string \<Rightarrow> bool) \<Rightarrow> string \<Rightarrow> (string \<times> jsval) list \<Rightarrow> jsval list \<Rightarrow> plan_progress \<Rightarrow>
     jserror + plan_progress" where
  "plan_rows le keyField index [] p = Inr p"
| "plan_rows le keyField index (row # rows) p =
     bind_res (plan_row le keyField index row p) (plan_rows le keyField index rows)"

record 'r sync_world =
  sy_repo :: 'r
  sy_next :: nat
  sy_executed :: "nat list"

definition on_repo :: "('r, 'a) eff \<Rightarrow> ('r sync_world, 'a) eff" where
  "on_repo m w = (fst (m (sy_repo w)), w\<lparr>sy_repo := snd (m (sy_repo w))\<rparr>)"

definition createPlan :: "sync_plan \<Rightarrow> ('r sync_world, sync_plan) eff" where
  "createPlan p w = (Inr (p\<lparr>pl_id := sy_next w\<rparr>), w\<lparr>sy_next := Suc (sy_next w)\<rparr>)"

definition empty_plan :: "string \<Rightarrow> string \<Rightarrow> nat \<Rightarrow> sync_plan" where
  "empty_plan tableId keyField duplicates = \<lparr>pl_id = 0, pl_tableId = tableId, pl_keyField = keyField,
     pl_createRows = [], pl_updateRows = [], pl_skipped = 0, pl_duplicateInputRows = duplicates,
     pl_inputRows = 0, pl_existingRecordsRead = 0, pl_existingReadStrategy = ''none'',
     pl_changedFieldCounts = []\<rparr>"

definition planByKey ::
    "(string \<Rightarrow> string \<Rightarrow> bool) \<Rightarrow> duplicate_policy \<Rightarrow> 'r repository \<Rightarrow> jsval \<Rightarrow>
     ('r sync_world, sync_plan) eff" where
  "planByKey le policy repository input =
     check (requireRepository repository) (\<lambda>repo.
     check (eng_requireText (jget input ''tableId'') ''tableId'') (\<lambda>tableId.
     check (eng_requireText (jget input ''keyField'') ''keyField'') (\<lambda>keyField.
     check (eng_requireArray (jget input ''rows'') ''rows'') (\<lambda>rows.
     check (deduplicateRowsByKey (JArr rows) (JStr keyField)) (\<lambda>(unique, duplicates).
     if unique = [] then createPlan (empty_plan tableId keyField duplicates)
     else
     andThen (on_repo (prepareRows repo tableId unique keyField)) (\<lambda>prepared.
     check (map_res (\<lambda>row. eng_requireText (jget row keyField) keyField) prepared) (\<lambda>keys.
     andThen (on_repo (readExistingRecords repo tableId keyField keys)) (\<lambda>(records, strategy).
     andThen (on_repo (normalizeExistingRecords repo tableId records
                (collectIncomingFieldNames prepared))) (\<lambda>comparable.
     check (buildExistingIndex comparable keyField policy) (\<lambda>index.
     check (plan_rows le keyField index prepared
              \<lparr>pp_create = [], pp_update = [], pp_skipped = 0, pp_counts = []\<rparr>) (\<lambda>p.
     createPlan \<lparr>pl_id = 0, pl_tableId = tableId, pl_keyField = keyField,
       pl_createRows = pp_create p, pl_updateRows = pp_update p, pl_skipped = pp_skipped p,
       pl_duplicateInputRows = duplicates, pl_inputRows = length prepared,
       pl_existingRecordsRead = (case comparable of JArr rs \<Rightarrow> length rs | _ \<Rightarrow> 0),
       pl_existingReadStrategy = strategy, pl_changedFieldCounts = pp_counts p\<rparr>)))))))))))"

subsection \<open>Execution\<close>

record sync_result =
  res_created :: int
  res_updated :: int
  res_skipped :: nat
  res_duplicateInputRows :: nat

definition progress_value :: "write_progress option \<Rightarrow> jsval" where
  "progress_value x = (case x of None \<Rightarrow> JNull
     | Some p \<Rightarrow> JObj [(''operation'', JStr (wp_operation p)), (''tableId'', JStr (wp_tableId p)),
         (''writeOutcome'', JStr (wp_writeOutcome p)), (''confirmedRows'', jint (wp_confirmedRows p)),
         (''completedChunks'', jint (wp_completedChunks p)), (''failedChunk'', jint (wp_failedChunk p)),
         (''totalChunks'', jint (wp_totalChunks p)), (''totalRows'', jint (wp_totalRows p)),
         (''remainingRows'', jint (wp_remainingRows p))])"

definition buildTablePartialError ::
    "jserror \<Rightarrow> sync_plan \<Rightarrow> string \<Rightarrow> int \<Rightarrow> int \<Rightarrow> jserror" where
  "buildTablePartialError cause plan phase done_create done_update =
     (let progress = (if isWriteProgressError cause then err_progress cause else None);
          confirmed = (case progress of Some p \<Rightarrow> wp_confirmedRows p | None \<Rightarrow> 0);
          created = (if phase = ''create'' then confirmed else done_create);
          updated = (if phase = ''update'' then confirmed else done_update);
          outcome = (case progress of Some p \<Rightarrow> wp_writeOutcome p
            | None \<Rightarrow> if 0 < created + updated then ''partial'' else ''unknown'')
      in partialSyncError (''Table sync partially completed for '' @ pl_tableId plan)
           ''TABLE_SYNC_PARTIAL_WRITE'' (err_retryable cause \<noteq> Some False)
           (JObj [(''tableId'', JStr (pl_tableId plan)), (''failedPhase'', JStr phase),
              (''created'', jint created), (''updated'', jint updated), (''writeOutcome'', JStr outcome),
              (''causeCode'', err_code_val cause), (''causeMessage'', JStr (err_message cause))])
           (JObj [(''created'', jint created), (''updated'', jint updated),
              (''skipped'', jint (int (pl_skipped plan))),
              (''duplicateInputRows'', jint (int (pl_duplicateInputRows plan))),
              (''writeOutcome'', JStr outcome), (''failedPhase'', JStr phase),
              (''plannedCreate'', jint (int (length (pl_createRows plan)))),
              (''plannedUpdate'', jint (int (length (pl_updateRows plan)))),
              (''writeProgress'', progress_value progress)]))"

text \<open>
  One write phase. The error branch also knows the count assigned before the error: it is set once
  the reply has been read, so that a count mismatch is already a partial write.
\<close>

definition write_phase ::
    "(jsval list \<Rightarrow> ('r, jsval) eff) \<Rightarrow> jsval list \<Rightarrow> string \<Rightarrow> string \<Rightarrow>
     ('r sync_world, (int \<times> jserror) + int) eff" where
  "write_phase write rows field tableId w =
     (if rows = [] then (Inr (Inr 0), w)
      else case on_repo (write rows) w of
        (Inl e, w') \<Rightarrow> (Inr (Inl (0, e)), w')
      | (Inr reply, w') \<Rightarrow>
          (case readResultCount (jget reply field) field of
             Inl e \<Rightarrow> (Inr (Inl (0, e)), w')
           | Inr n \<Rightarrow> (case assertExpectedWriteCount n (length rows) field tableId of
               Inl e \<Rightarrow> (Inr (Inl (n, e)), w') | Inr _ \<Rightarrow> (Inr (Inr n), w'))))"

definition executePlan :: "'r repository \<Rightarrow> sync_plan \<Rightarrow> ('r sync_world, sync_result) eff" where
  "executePlan repo plan w =
     (if pl_id plan \<in> set (sy_executed w)
      then (Inl (plain_error (''Sync plan for table '' @ pl_tableId plan @ '' has already been executed'')), w)
      else
        andThen (write_phase (createMany repo (pl_tableId plan)) (pl_createRows plan) ''created'' (pl_tableId plan))
          (\<lambda>outcome. case outcome of
             Inl (n, cause) \<Rightarrow>
               if \<not> isWriteProgressError cause \<and> n = 0 then throw cause
               else throw (buildTablePartialError cause plan ''create'' n 0)
           | Inr created \<Rightarrow>
               andThen (write_phase (updateMany repo (pl_tableId plan)) (pl_updateRows plan) ''updated'' (pl_tableId plan))
                 (\<lambda>outcome. case outcome of
                    Inl (n, cause) \<Rightarrow>
                      if 0 < created \<or> isWriteProgressError cause
                      then throw (buildTablePartialError cause plan ''update'' created n)
                      else throw cause
                  | Inr updated \<Rightarrow> ret \<lparr>res_created = created, res_updated = updated,
                      res_skipped = pl_skipped plan, res_duplicateInputRows = pl_duplicateInputRows plan\<rparr>))
          (w\<lparr>sy_executed := pl_id plan # sy_executed w\<rparr>))"

definition syncByKey ::
    "(string \<Rightarrow> string \<Rightarrow> bool) \<Rightarrow> duplicate_policy \<Rightarrow> 'r repository \<Rightarrow> jsval \<Rightarrow>
     ('r sync_world, sync_result) eff" where
  "syncByKey le policy repo input = andThen (planByKey le policy repo input) (executePlan repo)"

section \<open>Guarantees\<close>

subsection \<open>Deduplication\<close>

text \<open>The last row of a key, as a specification.\<close>

definition last_row :: "string \<Rightarrow> string \<Rightarrow> jsval list \<Rightarrow> jsval option" where
  "last_row keyField k rows = find (\<lambda>r. row_key keyField r = Inr k) (rev rows)"

lemma last_row_Cons:
  "last_row f k (r # rows) = (case last_row f k rows of Some x \<Rightarrow> Some x
     | None \<Rightarrow> if row_key f r = Inr k then Some r else None)"
proof -
  have "find P (xs @ [x]) = (case find P xs of Some y \<Rightarrow> Some y | None \<Rightarrow> if P x then Some x else None)"
    for P xs and x :: jsval
    by (induction xs) auto
  then show ?thesis by (simp add: last_row_def)
qed

lemma last_row_key: "last_row f k rows = Some r \<Longrightarrow> r \<in> set rows \<and> row_key f r = Inr k"
  unfolding last_row_def by (metis (mono_tags, lifting) find_Some_iff nth_mem set_rev)

lemma dedupe_from_spec:
  assumes "dedupe_from f rows m n = Inr (m', n')" "distinct (map fst m)"
  shows "distinct (map fst m')"
    and "map_of m' k = (case last_row f k rows of Some r \<Rightarrow> Some r | None \<Rightarrow> map_of m k)"
    and "n' + length m' = n + length m + length rows"
proof -
  have "distinct (map fst m') \<and> (\<forall>k. map_of m' k = (case last_row f k rows of Some r \<Rightarrow> Some r | None \<Rightarrow> map_of m k))
      \<and> n' + length m' = n + length m + length rows"
    using assms
  proof (induction f rows m n rule: dedupe_from.induct)
    case (1 f m n)
    then show ?case by (simp add: last_row_def)
  next
    case (2 f row rows m n)
    obtain k where k: "row_key f row = Inr k"
      and rest: "dedupe_from f rows (map_set k row m) (if k \<in> fst ` set m then n + 1 else n) = Inr (m', n')"
      using 2(2) by (auto simp: bind_res_Inr_iff)
    show ?case
      using 2(1) [OF rest map_set_distinct [OF 2(3)]] k
      by (auto simp: map_set_of map_set_length last_row_Cons split: option.splits if_splits)
  qed
  then show "distinct (map fst m')"
    "map_of m' k = (case last_row f k rows of Some r \<Rightarrow> Some r | None \<Rightarrow> map_of m k)"
    "n' + length m' = n + length m + length rows" by blast+
qed

lemma deduplicate_spec:
  assumes "deduplicateRowsByKey (JArr rows) (JStr f) = Inr (unique, dups)"
  shows "dups + length unique = length rows"
    and "\<exists>ks. distinct ks \<and> list_all2 (\<lambda>k r. last_row (trim f) k rows = Some r) ks unique
      \<and> (\<forall>k. k \<in> set ks \<longleftrightarrow> (\<exists>r \<in> set rows. row_key (trim f) r = Inr k))"
proof -
  obtain m where m: "dedupe_from (trim f) rows [] 0 = Inr (m, dups)" "unique = map snd m"
    using assms
    by (auto simp: deduplicateRowsByKey_def bind_res_Inr_iff eng_requireText_def eng_requireArray_def split: if_splits)
  note spec = dedupe_from_spec [OF m(1)]
  show "dups + length unique = length rows" using spec(3) m(2) by simp
  have at: "map_of m k = last_row (trim f) k rows" for k
    using spec(2) [of k] by (simp split: option.splits)
  have "distinct (map fst m)" using spec(1) by simp
  moreover from this have "list_all2 (\<lambda>k r. last_row (trim f) k rows = Some r) (map fst m) (map snd m)"
    by (auto simp: list_all2_conv_all_nth simp flip: at intro!: map_of_is_SomeI)
  moreover have "k \<in> set (map fst m) \<longleftrightarrow> (\<exists>r \<in> set rows. row_key (trim f) r = Inr k)" for k
  proof -
    have "k \<in> set (map fst m) \<longleftrightarrow> (\<exists>r. last_row (trim f) k rows = Some r)"
      unfolding at [symmetric] by (metis domIff dom_map_of_conv_image_fst not_None_eq set_map)
    also have "\<dots> \<longleftrightarrow> (\<exists>r \<in> set rows. row_key (trim f) r = Inr k)"
      by (auto simp: last_row_def find_None_iff dest: last_row_key [unfolded last_row_def])
        (metis (mono_tags, lifting) find_None_iff not_None_eq set_rev)
    finally show ?thesis .
  qed
  ultimately show "\<exists>ks. distinct ks \<and> list_all2 (\<lambda>k r. last_row (trim f) k rows = Some r) ks unique
      \<and> (\<forall>k. k \<in> set ks \<longleftrightarrow> (\<exists>r \<in> set rows. row_key (trim f) r = Inr k))"
    using m(2) by blast
qed

subsection \<open>Comparison\<close>

text \<open>A value as JavaScript builds it: the keys of an object are distinct, at every depth.\<close>

fun tidy :: "jsval \<Rightarrow> bool" where
  "tidy (JArr xs) = list_all tidy xs"
| "tidy (JObj kvs) = (distinct (map fst kvs) \<and> list_all (\<lambda>(k, v). tidy v) kvs)"
| "tidy v = True"

lemma mset_insert_entry: "mset (insert_entry le e xs) = add_mset e (mset xs)"
  by (induction le e xs rule: insert_entry.induct) auto

lemma mset_sort_entries: "mset (sort_entries le kvs) = mset kvs"
  by (induction kvs) (simp_all add: sort_entries_def mset_insert_entry)

lemma set_sort_entries [simp]: "set (sort_entries le kvs) = set kvs"
  using mset_sort_entries by (metis set_mset_mset)

lemma length_sort_entries [simp]: "length (sort_entries le kvs) = length kvs"
  using mset_sort_entries by (metis size_mset)

lemma distinct_sort_entries [simp]: "distinct (map fst (sort_entries le kvs)) = distinct (map fst kvs)"
  using mset_sort_entries [of le kvs] by (metis mset_eq_imp_distinct_iff mset_map)

lemma map_of_sort_entries: "distinct (map fst kvs) \<Longrightarrow> map_of (sort_entries le kvs) = map_of kvs"
  by (rule map_of_inject_set [THEN iffD2]) simp_all

lemma normalize_tidy: "tidy v \<Longrightarrow> tidy (normalizeComparable le v)"
proof (induction le v rule: normalizeComparable.induct)
  case (2 le kvs)
  have "fst \<circ> (\<lambda>(k :: string, v). (k, normalizeComparable le v)) = fst" by auto
  then show ?case using 2 by (auto simp: list_all_iff)
qed (auto simp: list_all_iff)

lemma deepEqual_refl: "tidy v \<Longrightarrow> deepEqual v v"
proof (induction v rule: tidy.induct)
  case (1 xs)
  then show ?case by (auto simp: list_all_iff list_all2_same)
next
  case (2 kvs)
  then show ?case by (auto simp: list_all_iff)
qed simp_all
lemma map_of_normalized:
  "map_of (map (\<lambda>(k, v). (k, normalizeComparable le v)) kvs) k = map_option (normalizeComparable le) (map_of kvs k)"
  by (induction kvs) auto

lemma normalize_scalar:
  "normalizeComparable le a = JUndef \<longleftrightarrow> a = JUndef" "normalizeComparable le a = JNull \<longleftrightarrow> a = JNull"
  "normalizeComparable le a = JBool b \<longleftrightarrow> a = JBool b" "normalizeComparable le a = JNum n \<longleftrightarrow> a = JNum n"
  "normalizeComparable le a = JStr t \<longleftrightarrow> a = JStr t"
  "JUndef = normalizeComparable le a \<longleftrightarrow> a = JUndef" "JNull = normalizeComparable le a \<longleftrightarrow> a = JNull"
  "JBool b = normalizeComparable le a \<longleftrightarrow> a = JBool b" "JNum n = normalizeComparable le a \<longleftrightarrow> a = JNum n"
  "JStr t = normalizeComparable le a \<longleftrightarrow> a = JStr t"
  by (cases a; auto)+

text \<open>The comparison does not depend on the order of the keys, nor on the locale that sorts them.\<close>

lemma deepEqual_normalized:
  "tidy a \<Longrightarrow> tidy b \<Longrightarrow> deepEqual (normalizeComparable le a) (normalizeComparable le b) \<longleftrightarrow> deepEqual a b"
proof (induction a b rule: deepEqual.induct)
  case (1 xs ys)
  have "list_all2 deepEqual (map (normalizeComparable le) xs) (map (normalizeComparable le) ys)
      \<longleftrightarrow> list_all2 deepEqual xs ys" if "length xs = length ys"
    unfolding list_all2_conv_all_nth using 1 that by (simp add: list_all_iff)
  then show ?case by auto
next
  case (2 l r)
  have n: "fst \<circ> (\<lambda>(k :: string, v). (k, normalizeComparable le v)) = fst" by auto
  have d: "distinct (map fst (map (\<lambda>(k, v). (k, normalizeComparable le v)) r))" using 2(3) by (simp add: n)
  have ih: "deepEqual (normalizeComparable le v) (normalizeComparable le u) \<longleftrightarrow> deepEqual v u"
    if "(k, v) \<in> set l" "map_of r k = Some u" for k v u
    using 2(1) [of "(k, v)" k v u] 2(2,3) that map_of_SomeD [OF that(2)] by (auto simp: list_all_iff)
  show ?case
    by (auto simp: list_all_iff map_of_sort_entries [OF d] map_of_normalized ih split: option.splits)
qed (auto simp: normalize_scalar)

lemma comparable_refl: "tidy v \<Longrightarrow> deepEqual (normalizeComparable le v) (normalizeComparable le v)"
  using normalize_tidy by (rule deepEqual_refl)
subsection \<open>Planning\<close>

lemma requireText_key: "eng_requireText v f = Inr k \<longleftrightarrow> eng_optionalText v = Some k"
  by (cases v) (auto simp: eng_requireText_def eng_optionalText_def)

lemma row_key_text: "row_key f r = Inr k \<Longrightarrow> eng_optionalText (jget r f) = Some k"
  by (auto simp: row_key_def bind_res_Inr_iff requireText_key)

definition existing_row :: "string \<Rightarrow> (string \<times> jsval) list \<Rightarrow> jsval \<Rightarrow> jsval option" where
  "existing_row f index row = (case eng_optionalText (jget row f) of None \<Rightarrow> None | Some k \<Rightarrow> map_of index k)"

definition differs :: "(string \<Rightarrow> string \<Rightarrow> bool) \<Rightarrow> jsval option \<Rightarrow> jsval \<Rightarrow> bool" where
  "differs le existing row = (case existing of None \<Rightarrow> False
     | Some x \<Rightarrow> hasChangedFields le (jget x ''fields'') row = Inr True)"

text \<open>What a plan holds, row by row.\<close>

lemma plan_rows_spec:
  assumes "plan_rows le f index rows p = Inr q"
  shows "pp_create q = pp_create p @ filter (\<lambda>r. existing_row f index r = None) rows
    \<and> pp_update q = pp_update p @ map (\<lambda>r. update_row (jget (the (existing_row f index r)) ''recordId'') r)
        (filter (\<lambda>r. differs le (existing_row f index r) r) rows)
    \<and> pp_skipped q = pp_skipped p + length (filter (\<lambda>r. existing_row f index r \<noteq> None
        \<and> \<not> differs le (existing_row f index r) r) rows)
    \<and> (\<forall>r \<in> set rows. \<forall>x. existing_row f index r = Some x \<longrightarrow> truthy (jget x ''recordId'')
        \<and> (\<exists>fs. listChangedFieldNames le (jget x ''fields'') r = Inr fs))"
  using assms
proof (induction rows arbitrary: p)
  case (Cons r rows)
  obtain p' where step: "plan_row le f index r p = Inr p'" and rest: "plan_rows le f index rows p' = Inr q"
    using Cons.prems by (auto simp: bind_res_Inr_iff)
  have ih: "pp_create q = pp_create p' @ filter (\<lambda>r. existing_row f index r = None) rows"
    "pp_update q = pp_update p' @ map (\<lambda>r. update_row (jget (the (existing_row f index r)) ''recordId'') r)
        (filter (\<lambda>r. differs le (existing_row f index r) r) rows)"
    "pp_skipped q = pp_skipped p' + length (filter (\<lambda>r. existing_row f index r \<noteq> None
        \<and> \<not> differs le (existing_row f index r) r) rows)"
    "\<forall>r \<in> set rows. \<forall>x. existing_row f index r = Some x \<longrightarrow> truthy (jget x ''recordId'')
        \<and> (\<exists>fs. listChangedFieldNames le (jget x ''fields'') r = Inr fs)"
    using Cons.IH [OF rest] by blast+
  obtain k where k: "eng_optionalText (jget r f) = Some k"
    and next_p: "(case map_of index k of
       None \<Rightarrow> Inr (p\<lparr>pp_create := pp_create p @ [r]\<rparr>)
     | Some existing \<Rightarrow>
         if \<not> truthy (jget existing ''recordId'')
         then Inl (plain_error (''Destination record for '' @ f @ ''='' @ k @ '' has no recordId''))
         else bind_res (listChangedFieldNames le (jget existing ''fields'') r) (\<lambda>changed.
           if 0 < length changed
           then Inr (p\<lparr>pp_update := pp_update p @ [update_row (jget existing ''recordId'') r],
                       pp_counts := count_fields changed (pp_counts p)\<rparr>)
           else Inr (p\<lparr>pp_skipped := pp_skipped p + 1\<rparr>))) = Inr p'"
    using step by (auto simp: plan_row_def bind_res_Inr_iff requireText_key)
  show ?case
  proof (cases "map_of index k")
    case None
    then have "existing_row f index r = None" "p' = p\<lparr>pp_create := pp_create p @ [r]\<rparr>"
      using k next_p by (simp_all add: existing_row_def)
    then show ?thesis using ih by (simp add: differs_def)
  next
    case (Some x)
    then have x: "existing_row f index r = Some x" using k by (simp add: existing_row_def)
    have id: "truthy (jget x ''recordId'')" using next_p Some by (auto split: if_splits)
    obtain fs where fs: "listChangedFieldNames le (jget x ''fields'') r = Inr fs"
      using next_p Some id by (auto simp: bind_res_Inr_iff)
    then have "differs le (Some x) r = (0 < length fs)"
      by (simp add: differs_def hasChangedFields_def)
    then show ?thesis
      using ih next_p Some id fs x by (cases "fs = []") auto
  qed
qed simp

lemma plan_rows_count:
  assumes "plan_rows le f index rows p = Inr q"
  shows "length (pp_create q) + length (pp_update q) + pp_skipped q
    = length (pp_create p) + length (pp_update p) + pp_skipped p + length rows"
proof -
  have split: "length (filter P rows) + length (filter Q rows) + length (filter (\<lambda>r. \<not> P r \<and> \<not> Q r) rows) = length rows"
    if "\<And>r. Q r \<Longrightarrow> \<not> P r" for P Q
    using that by (induction rows) auto
  have "\<not> existing_row f index r = None" if "differs le (existing_row f index r) r" for r
    using that by (auto simp: differs_def split: option.splits)
  from split [of "\<lambda>r. differs le (existing_row f index r) r" "\<lambda>r. existing_row f index r = None", OF this]
  show ?thesis using plan_rows_spec [OF assms] by simp
qed

subsection \<open>Execution\<close>

lemma write_phase_count:
  assumes "write_phase write rows field tableId w = (Inr (Inr n), w')"
  shows "n = int (length rows)"
  using assms
  by (auto simp: write_phase_def assertExpectedWriteCount_def split: if_splits prod.splits sum.splits)

lemma trim_Nil_iff: "trim s = [] \<longleftrightarrow> (\<forall>c \<in> set s. is_space c)"
proof -
  have "trim s = [] \<longleftrightarrow> (\<forall>c \<in> set (dropWhile is_space s). is_space c)"
    by (simp add: trim_def dropWhile_eq_Nil_conv)
  also have "\<dots> \<longleftrightarrow> dropWhile is_space s = []" by (metis hd_dropWhile list.set_sel(1) list.set(1) empty_iff)
  finally show ?thesis by (simp add: dropWhile_eq_Nil_conv)
qed

lemma partial_error: "isPartialSyncError (buildTablePartialError cause plan phase a b)"
proof -
  have "CHR ''T'' \<in> set (''Table sync partially completed for '' @ t)" "\<not> is_space (CHR ''T'')" for t
    by (simp_all add: is_space_def)
  then have "trim (''Table sync partially completed for '' @ t) \<noteq> []" for t
    using trim_Nil_iff by blast
  then show ?thesis
    unfolding buildTablePartialError_def Let_def partialSyncError_def runtime_error_def
    by (simp add: freezeDetails_def is_object_def isPartialSyncError_def)
qed

text \<open>What a call of \<open>executePlan\<close> may answer.\<close>

definition accounts :: "'r repository \<Rightarrow> sync_plan \<Rightarrow> 'r sync_world \<Rightarrow> jserror + sync_result \<Rightarrow> bool" where
  "accounts repo p w r \<longleftrightarrow> (case r of
       Inr res \<Rightarrow> res_created res = int (length (pl_createRows p))
         \<and> res_updated res = int (length (pl_updateRows p)) \<and> res_skipped res = pl_skipped p
     | Inl e \<Rightarrow> pl_id p \<in> set (sy_executed w) \<or> isPartialSyncError e
         \<or> (\<forall>n w1. write_phase (createMany repo (pl_tableId p)) (pl_createRows p) ''created'' (pl_tableId p)
              (w\<lparr>sy_executed := pl_id p # sy_executed w\<rparr>) = (Inr (Inr n), w1) \<longrightarrow> n = 0))"

lemma execute_accounts:
  assumes "executePlan repo p w = (r, w')"
  shows "accounts repo p w r"
proof (cases "pl_id p \<in> set (sy_executed w)")
  case True
  then have "r = Inl (plain_error (''Sync plan for table '' @ pl_tableId p @ '' has already been executed''))"
    using assms by (simp add: executePlan_def)
  then show ?thesis using True by (simp add: accounts_def)
next
  case False
  let ?w = "w\<lparr>sy_executed := pl_id p # sy_executed w\<rparr>"
  let ?create = "write_phase (createMany repo (pl_tableId p)) (pl_createRows p) ''created'' (pl_tableId p)"
  obtain a w1 where create: "?create ?w = (a, w1)" by force
  show ?thesis
  proof (cases a)
    case (Inl e)
    then show ?thesis using False assms create by (auto simp: executePlan_def eff_simps accounts_def)
  next
    case (Inr b)
    show ?thesis
    proof (cases b)
      case (Inl c)
      then show ?thesis using False assms create \<open>a = Inr b\<close>
        by (cases c) (auto simp: executePlan_def eff_simps accounts_def split: if_splits)
    next
      case n: (Inr n)
      let ?update = "write_phase (updateMany repo (pl_tableId p)) (pl_updateRows p) ''updated'' (pl_tableId p)"
      have count: "n = int (length (pl_createRows p))"
        using write_phase_count create \<open>a = Inr b\<close> n by blast
      obtain c w2 where update: "?update w1 = (c, w2)" by force
      have run: "executePlan repo p w = (case c of Inl e \<Rightarrow> (Inl e, w2)
          | Inr (Inl (m, cause)) \<Rightarrow> (Inl (if 0 < n \<or> isWriteProgressError cause
               then buildTablePartialError cause p ''update'' n m else cause), w2)
          | Inr (Inr m) \<Rightarrow> (Inr \<lparr>res_created = n, res_updated = m, res_skipped = pl_skipped p,
               res_duplicateInputRows = pl_duplicateInputRows p\<rparr>, w2))"
        using False create \<open>a = Inr b\<close> n update
        by (auto simp: executePlan_def eff_simps split: sum.splits prod.splits)
      have never: "c \<noteq> Inl e" for e
        using update by (auto simp: write_phase_def split: if_splits prod.splits sum.splits)
      show ?thesis
      proof (cases "\<exists>m. c = Inr (Inr m)")
        case True
        then obtain m where m: "c = Inr (Inr m)" by blast
        then show ?thesis
          using run assms count write_phase_count update by (auto simp: accounts_def)
      next
        case no: False
        then obtain m cause where "c = Inr (Inl (m, cause))"
          using never by (metis old.sum.exhaust surj_pair)
        then have "r = Inl (if 0 < n \<or> isWriteProgressError cause
             then buildTablePartialError cause p ''update'' n m else cause)"
          using run assms by simp
        then show ?thesis using partial_error create \<open>a = Inr b\<close> n count by (auto simp: accounts_def)
      qed
    qed
  qed
qed

lemma write_phase_executed:
  "write_phase write rows field tableId w = (r, w') \<Longrightarrow> sy_executed w' = sy_executed w"
  by (auto simp: write_phase_def on_repo_def split: prod.splits sum.splits if_splits)

lemma execute_once:
  assumes "executePlan repo p w = (r, w')"
  shows "pl_id p \<in> set (sy_executed w')"
proof (cases "pl_id p \<in> set (sy_executed w)")
  case False
  let ?w = "w\<lparr>sy_executed := pl_id p # sy_executed w\<rparr>"
  obtain a w1 where create:
    "write_phase (createMany repo (pl_tableId p)) (pl_createRows p) ''created'' (pl_tableId p) ?w = (a, w1)"
    by force
  obtain b w2 where update:
    "write_phase (updateMany repo (pl_tableId p)) (pl_updateRows p) ''updated'' (pl_tableId p) w1 = (b, w2)"
    by force
  have "w' = w1 \<or> w' = w2"
    using False assms create update
    by (auto simp: executePlan_def eff_simps split: sum.splits prod.splits if_splits)
  then show ?thesis using write_phase_executed [OF create] write_phase_executed [OF update] by auto
qed (use assms in \<open>auto simp: executePlan_def\<close>)
subsection \<open>The index of the destination\<close>

definition rec_key :: "string \<Rightarrow> jsval \<Rightarrow> string option" where
  "rec_key f x = eng_optionalText (jget (jget x ''fields'') f)"

definition rec_keys :: "string \<Rightarrow> jsval list \<Rightarrow> string list" where
  "rec_keys f rs = List.map_filter (rec_key f) rs"

definition find_key :: "string \<Rightarrow> string \<Rightarrow> jsval list \<Rightarrow> jsval option" where
  "find_key f k rs = find (\<lambda>x. rec_key f x = Some k) rs"

lemma rec_keys_simps [simp]:
  "rec_keys f [] = []"
  "rec_keys f (r # rs) = (case rec_key f r of None \<Rightarrow> rec_keys f rs | Some k \<Rightarrow> k # rec_keys f rs)"
  by (simp_all add: rec_keys_def map_filter_simps split: option.split)

lemma rec_keys_append [simp]: "rec_keys f (xs @ ys) = rec_keys f xs @ rec_keys f ys"
  by (induction xs) (simp_all split: option.split)

lemma find_key_simps [simp]:
  "find_key f k [] = None"
  "find_key f k (r # rs) = (if rec_key f r = Some k then Some r else find_key f k rs)"
  by (simp_all add: find_key_def)

lemma find_key_append: "find_key f k (xs @ ys) = (case find_key f k xs of Some x \<Rightarrow> Some x | None \<Rightarrow> find_key f k ys)"
  by (induction xs) auto

lemma find_key_SomeD: "find_key f k rs = Some x \<Longrightarrow> x \<in> set rs \<and> rec_key f x = Some k"
  by (induction rs) (auto split: if_splits)

lemma find_key_None: "find_key f k rs = None \<longleftrightarrow> k \<notin> set (rec_keys f rs)"
  by (induction rs) (auto split: option.split)

lemma find_key_filter:
  "k \<in> set ks \<Longrightarrow> find_key f k (filter (\<lambda>x. \<exists>k \<in> set ks. rec_key f x = Some k) rs) = find_key f k rs"
  by (induction rs) auto

lemma find_key_map:
  assumes "\<And>x. x \<in> set rs \<Longrightarrow> rec_key f (h x) = rec_key f x"
  shows "find_key f k (map h rs) = map_option h (find_key f k rs)"
  using assms by (induction rs) auto

lemma rec_keys_map:
  assumes "\<And>x. x \<in> set rs \<Longrightarrow> rec_key f (h x) = rec_key f x"
  shows "rec_keys f (map h rs) = rec_keys f rs"
  using assms by (induction rs) (auto split: option.split)

lemma index_dups_grow: "index_records pol f rs index dups = (i, d) \<Longrightarrow> \<exists>ds. d = dups @ ds"
  by (induction pol f rs index dups rule: index_records.induct) (fastforce split: option.splits if_splits)+

lemma index_none: "index_records pol f rs index dups = (i, []) \<Longrightarrow> dups = []"
  using index_dups_grow by fastforce

lemma index_spec:
  "index_records pol f rs index dups = (i, d) \<Longrightarrow> pol = KeepFirst \<or> d = [] \<Longrightarrow>
     map_of i k = (case map_of index k of Some x \<Rightarrow> Some x | None \<Rightarrow> find_key f k rs)"
proof (induction pol f rs index dups rule: index_records.induct)
  case (2 pol f r rs index dups)
  show ?case
  proof (cases "rec_key f r")
    case None
    then show ?thesis using 2(1,5,6) by (auto simp: rec_key_def split: option.splits)
  next
    case (Some k')
    then have r: "eng_optionalText (jget (jget r ''fields'') f) = Some k'" by (simp add: rec_key_def)
    show ?thesis
    proof (cases "k' \<in> fst ` set index")
      case True
      have "pol = KeepFirst"
      proof (rule ccontr)
        assume "pol \<noteq> KeepFirst"
        then have "index_records pol f rs (map_set k' r index) (dups @ [k']) = (i, [])"
          using 2(5,6) True r by simp
        then show False using index_none by blast
      qed
      then have "map_of i k = (case map_of index k of Some x \<Rightarrow> Some x | None \<Rightarrow> find_key f k rs)"
        using 2(2) [OF r True] 2(5,6) True r by simp
      moreover obtain b where "map_of index k' = Some b" using True by (metis map_of_eq_None_iff not_None_eq)
      ultimately show ?thesis using Some by (cases "map_of index k") auto
    next
      case False
      then have "map_of i k = (case map_of (map_set k' r index) k of Some x \<Rightarrow> Some x | None \<Rightarrow> find_key f k rs)"
        using 2(4) [OF r False] 2(5,6) r by simp
      moreover have "map_of index k' = None" using False by (metis map_of_eq_None_iff)
      ultimately show ?thesis using Some by (cases "map_of index k") (auto simp: map_set_of)
    qed
  qed
qed (simp split: option.split)

lemma index_clean:
  "index_records pol f rs index dups = (i, d) \<Longrightarrow>
     d = [] \<longleftrightarrow> dups = [] \<and> distinct (rec_keys f rs) \<and> set (rec_keys f rs) \<inter> fst ` set index = {}"
proof (induction pol f rs index dups rule: index_records.induct)
  case (2 pol f r rs index dups)
  show ?case
  proof (cases "rec_key f r")
    case None
    then show ?thesis using 2(1,5) by (auto simp: rec_key_def)
  next
    case (Some k)
    then have r: "eng_optionalText (jget (jget r ''fields'') f) = Some k" by (simp add: rec_key_def)
    show ?thesis
    proof (cases "k \<in> fst ` set index")
      case True
      have "d \<noteq> []"
      proof
        assume "d = []"
        then obtain m where "index_records pol f rs m (dups @ [k]) = (i, [])"
          using 2(5) r True by (cases "pol = KeepFirst") auto
        then show False using index_none by blast
      qed
      then show ?thesis using True Some by auto
    next
      case False
      then have "index_records pol f rs (map_set k r index) dups = (i, d)" using 2(5) r by simp
      moreover have "fst ` set (map_set k r index) = insert k (fst ` set index)"
        using arg_cong [OF map_set_keys, of set k r index] by auto
      ultimately show ?thesis using 2(4) [OF r False] False Some by auto
    qed
  qed
qed auto

lemma build_index:
  assumes "buildExistingIndex (JArr rs) f pol = Inr index"
  shows "map_of index k = find_key f k rs" "pol = KeepFirst \<or> distinct (rec_keys f rs)"
proof -
  obtain d where d: "index_records pol f rs [] [] = (index, d)" "d = [] \<or> pol = KeepFirst"
    using assms by (cases pol) (auto simp: buildExistingIndex_def eng_requireArray_def split: prod.splits if_splits)
  show "map_of index k = find_key f k rs" using index_spec [OF d(1)] d(2) by auto
  show "pol = KeepFirst \<or> distinct (rec_keys f rs)" using index_clean [OF d(1)] d(2) by auto
qed

lemma build_index_ok:
  assumes "pol = KeepFirst \<or> distinct (rec_keys f rs)"
  shows "\<exists>index. buildExistingIndex (JArr rs) f pol = Inr index"
proof -
  obtain index d where d: "index_records pol f rs [] [] = (index, d)" by force
  have "d = [] \<or> pol = KeepFirst" using index_clean [OF d] assms by auto
  then show ?thesis using d by (auto simp: buildExistingIndex_def eng_requireArray_def)
qed

end
