(* ===== verification/Table_Sync_Guarantees.thy ===== *)
theory Table_Sync_Guarantees
  imports Table_Sync
begin

text \<open>
  Synchronisation is idempotent: over a destination that stores what it is given, a second
  synchronisation of the same input finds nothing to create and nothing to update.
\<close>

subsection \<open>A faithful destination\<close>

definition new_record :: "jsval \<Rightarrow> jsval \<Rightarrow> jsval" where
  "new_record i row = JObj [(''recordId'', i), (''fields'', row)]"

text \<open>An update overwrites the fields it names and keeps the others.\<close>

definition overlay :: "jsval \<Rightarrow> jsval \<Rightarrow> jsval" where
  "overlay row old = (case row of
       JObj new \<Rightarrow> JObj (new @ (case old of JObj kvs \<Rightarrow> filter (\<lambda>(k, v). k \<notin> fst ` set new) kvs | _ \<Rightarrow> []))
     | _ \<Rightarrow> row)"

definition patch :: "jsval list \<Rightarrow> jsval \<Rightarrow> jsval" where
  "patch ups x = (case find (\<lambda>u. jget u ''recordId'' = jget x ''recordId'') ups of
       None \<Rightarrow> x
     | Some u \<Rightarrow> new_record (jget x ''recordId'') (overlay (jget u ''fields'') (jget x ''fields'')))"

text \<open>
  What the engine relies on: rows are stored as prepared, a read returns the records of the asked
  keys, a creation appends records with new ids, an update patches the records it names, and both
  report how many rows they wrote. \<open>view\<close> is the content of the table.
\<close>

definition stores_rows :: "'r repository \<Rightarrow> ('r \<Rightarrow> jsval list) \<Rightarrow> string \<Rightarrow> string \<Rightarrow> bool" where
  "stores_rows repo view t f \<longleftrightarrow>
     (\<forall>rows r. prepareRows repo t rows f r = (Inr rows, r))
   \<and> (\<exists>read. listByFieldValues repo = Some read
        \<and> (\<forall>ks r. read t f ks r = (Inr (JArr (filter (\<lambda>x. \<exists>k \<in> set ks. rec_key f x = Some k) (view r))), r)))
   \<and> prepareExistingRecords repo = None
   \<and> (\<forall>rows r. \<exists>ids r'. length ids = length rows \<and> distinct ids \<and> (\<forall>i \<in> set ids. truthy i)
        \<and> set ids \<inter> (\<lambda>x. jget x ''recordId'') ` set (view r) = {}
        \<and> createMany repo t rows r = (Inr (JObj [(''created'', jint (int (length rows)))]), r')
        \<and> view r' = view r @ map2 new_record ids rows)
   \<and> (\<forall>ups r. \<exists>r'. updateMany repo t ups r = (Inr (JObj [(''updated'', jint (int (length ups)))]), r')
        \<and> view r' = map (patch ups) (view r))"

lemma overlay_fields:
  assumes "row = JObj kvs" "k \<in> fst ` set kvs"
  shows "jget (overlay row old) k = jget row k"
proof -
  obtain v where "map_of kvs k = Some v" using assms(2) by (metis map_of_eq_None_iff not_None_eq)
  then show ?thesis using assms(1) by (simp add: overlay_def map_add_Some_iff)
qed

lemma row_covers:
  assumes "row = JObj kvs" "tidy row" "\<And>k. k \<in> fst ` set kvs \<Longrightarrow> jget x k = jget row k" "is_object x"
  shows "listChangedFieldNames le x row = Inr []"
proof -
  have "deepEqual (normalizeComparable le (jget x k)) (normalizeComparable le v)" if "(k, v) \<in> set kvs" for k v
  proof -
    have "map_of kvs k = Some v" using assms(1,2) that by simp
    moreover have "tidy v" using assms(1,2) that by (auto simp: list_all_iff)
    moreover have "jget x k = jget row k" using assms(3) that by force
    ultimately show ?thesis using assms(1) comparable_refl by simp
  qed
  then have "filter (\<lambda>(k, v). \<not> deepEqual (normalizeComparable le (jget x k)) (normalizeComparable le v)) kvs = []"
    by (auto simp: filter_empty_conv)
  then show ?thesis
    using assms(1,4)
    by (simp add: listChangedFieldNames_def requirePlainObject_def is_object_def split: jsval.splits)
qed

lemma patch_id [simp]: "jget (patch ups x) ''recordId'' = jget x ''recordId''"
  by (simp add: patch_def new_record_def split: option.split)

subsection \<open>The plan over a faithful destination\<close>

definition plan_start :: plan_progress where
  "plan_start = \<lparr>pp_create = [], pp_update = [], pp_skipped = 0, pp_counts = []\<rparr>"

definition asked :: "string \<Rightarrow> jsval list \<Rightarrow> jsval list \<Rightarrow> jsval list" where
  "asked f rows V = filter (\<lambda>x. \<exists>k \<in> set (List.map_filter (\<lambda>r. eng_optionalText (jget r f)) rows). rec_key f x = Some k) V"

lemma repo_same [simp]: "w\<lparr>sy_repo := sy_repo w\<rparr> = w"
  by (cases w) simp

lemma map_res_keys:
  "\<forall>r \<in> set rows. \<exists>k. eng_optionalText (jget r f) = Some k \<Longrightarrow>
   map_res (\<lambda>r. eng_requireText (jget r f) f) rows = Inr (List.map_filter (\<lambda>r. eng_optionalText (jget r f)) rows)"
proof (induction rows)
  case (Cons r rows)
  then obtain k where "eng_optionalText (jget r f) = Some k" by auto
  then have "eng_requireText (jget r f) f = Inr k" by (simp add: requireText_key)
  then show ?case using Cons \<open>eng_optionalText (jget r f) = Some k\<close> by (simp add: map_filter_simps)
qed (simp add: map_filter_simps)

lemma plan_stores:
  assumes repo: "stores_rows repo view t f"
    and inp: "eng_requireText (jget input ''tableId'') ''tableId'' = Inr t"
      "eng_requireText (jget input ''keyField'') ''keyField'' = Inr f" "jget input ''rows'' = JArr rows"
    and ded: "deduplicateRowsByKey (JArr rows) (JStr f) = Inr (unique, dups)" "unique \<noteq> []"
    and keys: "\<forall>r \<in> set unique. \<exists>k. eng_optionalText (jget r f) = Some k"
  shows "planByKey le pol repo input w =
    check (buildExistingIndex (JArr (asked f unique (view (sy_repo w)))) f pol) (\<lambda>index.
    check (plan_rows le f index unique plan_start) (\<lambda>p.
    createPlan \<lparr>pl_id = 0, pl_tableId = t, pl_keyField = f, pl_createRows = pp_create p,
      pl_updateRows = pp_update p, pl_skipped = pp_skipped p, pl_duplicateInputRows = dups,
      pl_inputRows = length unique, pl_existingRecordsRead = length (asked f unique (view (sy_repo w))),
      pl_existingReadStrategy = ''filtered_keys'', pl_changedFieldCounts = pp_counts p\<rparr>)) w"
proof -
  obtain read where read: "listByFieldValues repo = Some read"
    "read t f ks r = (Inr (JArr (filter (\<lambda>x. \<exists>k \<in> set ks. rec_key f x = Some k) (view r))), r)" for ks r
    using repo by (auto simp: stores_rows_def)
  have prep: "prepareRows repo t rows f r = (Inr rows, r)" "prepareExistingRecords repo = None" for rows r
    using repo by (simp_all add: stores_rows_def)
  show ?thesis
    using inp ded(1) map_res_keys [OF keys]
    by (simp add: planByKey_def requireRepository_def read prep eng_requireArray_def ded(2) eff_simps
        on_repo_def readExistingRecords_def normalizeExistingRecords_def plan_start_def asked_def)
qed

lemma plan_all_skipped:
  "\<forall>r \<in> set rows. (\<exists>k. eng_optionalText (jget r f) = Some k) \<and> (\<exists>x. existing_row f index r = Some x
      \<and> truthy (jget x ''recordId'') \<and> listChangedFieldNames le (jget x ''fields'') r = Inr []) \<Longrightarrow>
   plan_rows le f index rows p = Inr (p\<lparr>pp_skipped := pp_skipped p + length rows\<rparr>)"
proof (induction rows arbitrary: p)
  case (Cons r rows)
  obtain k x where "eng_optionalText (jget r f) = Some k" "existing_row f index r = Some x"
    "truthy (jget x ''recordId'')" "listChangedFieldNames le (jget x ''fields'') r = Inr []"
    using Cons.prems by auto
  then have "plan_row le f index r p = Inr (p\<lparr>pp_skipped := pp_skipped p + 1\<rparr>)"
    by (simp add: plan_row_def requireText_key [THEN iffD2] existing_row_def)
  then show ?case using Cons by simp
qed simp

lemma execute_nothing:
  assumes "pl_id p \<notin> set (sy_executed w)" "pl_createRows p = []" "pl_updateRows p = []"
  shows "executePlan repo p w = (Inr \<lparr>res_created = 0, res_updated = 0, res_skipped = pl_skipped p,
      res_duplicateInputRows = pl_duplicateInputRows p\<rparr>, w\<lparr>sy_executed := pl_id p # sy_executed w\<rparr>)"
  using assms by (simp add: executePlan_def write_phase_def eff_simps)

lemma execute_stores:
  assumes repo: "stores_rows repo view (pl_tableId p) f"
    and run: "executePlan repo p w = (Inr res, w')"
  obtains ids where "length ids = length (pl_createRows p)" "distinct ids" "\<forall>i \<in> set ids. truthy i"
    "set ids \<inter> (\<lambda>x. jget x ''recordId'') ` set (view (sy_repo w)) = {}"
    "view (sy_repo w') = map (patch (pl_updateRows p)) (view (sy_repo w) @ map2 new_record ids (pl_createRows p))"
    "sy_executed w' = pl_id p # sy_executed w" "sy_next w' = sy_next w"
proof -
  let ?w = "w\<lparr>sy_executed := pl_id p # sy_executed w\<rparr>"
  obtain ids r1 where ids: "length ids = length (pl_createRows p)" "distinct ids" "\<forall>i \<in> set ids. truthy i"
      "set ids \<inter> (\<lambda>x. jget x ''recordId'') ` set (view (sy_repo w)) = {}"
      "view r1 = view (sy_repo w) @ map2 new_record ids (pl_createRows p)"
    and create: "write_phase (createMany repo (pl_tableId p)) (pl_createRows p) ''created'' (pl_tableId p) ?w
      = (Inr (Inr (int (length (pl_createRows p)))), ?w\<lparr>sy_repo := r1\<rparr>)"
  proof (cases "pl_createRows p = []")
    case True
    then show ?thesis using that [of "[]" "sy_repo w"] by (simp add: write_phase_def)
  next
    case False
    have "\<exists>ids r'. length ids = length (pl_createRows p) \<and> distinct ids \<and> (\<forall>i \<in> set ids. truthy i)
        \<and> set ids \<inter> (\<lambda>x. jget x ''recordId'') ` set (view (sy_repo w)) = {}
        \<and> createMany repo (pl_tableId p) (pl_createRows p) (sy_repo w)
            = (Inr (JObj [(''created'', jint (int (length (pl_createRows p))))]), r')
        \<and> view r' = view (sy_repo w) @ map2 new_record ids (pl_createRows p)"
      using repo unfolding stores_rows_def by blast
    then show ?thesis
      using that False
      by (auto simp: write_phase_def on_repo_def readResultCount_def nullish_def assertExpectedWriteCount_def)
  qed
  obtain r2 where r2: "view r2 = map (patch (pl_updateRows p)) (view r1)"
    and update: "write_phase (updateMany repo (pl_tableId p)) (pl_updateRows p) ''updated'' (pl_tableId p) (?w\<lparr>sy_repo := r1\<rparr>)
      = (Inr (Inr (int (length (pl_updateRows p)))), ?w\<lparr>sy_repo := r2\<rparr>)"
  proof (cases "pl_updateRows p = []")
    case True
    moreover have "map (patch []) V = V" for V by (simp add: patch_def map_idI)
    ultimately show ?thesis using that [of r1] by (simp add: write_phase_def)
  next
    case False
    have "\<exists>r'. updateMany repo (pl_tableId p) (pl_updateRows p) r1
        = (Inr (JObj [(''updated'', jint (int (length (pl_updateRows p))))]), r')
        \<and> view r' = map (patch (pl_updateRows p)) (view r1)"
      using repo unfolding stores_rows_def by blast
    then show ?thesis
      using that False
      by (auto simp: write_phase_def on_repo_def readResultCount_def nullish_def assertExpectedWriteCount_def)
  qed
  have "pl_id p \<notin> set (sy_executed w)" using run by (auto simp: executePlan_def)
  then have "w' = ?w\<lparr>sy_repo := r2\<rparr>"
    using run create update by (simp add: executePlan_def eff_simps)
  then show ?thesis using that [OF ids(1-4)] ids(5) r2 by simp
qed

subsection \<open>The destination after a synchronisation\<close>

definition key_of :: "string \<Rightarrow> jsval \<Rightarrow> string option" where
  "key_of f r = eng_optionalText (jget r f)"

text \<open>Input rows as deduplication leaves them: objects with distinct stable keys.\<close>

definition keyed_rows :: "string \<Rightarrow> jsval list \<Rightarrow> bool" where
  "keyed_rows f rows \<longleftrightarrow> distinct (map (key_of f) rows)
     \<and> (\<forall>r \<in> set rows. tidy r \<and> is_object r \<and> key_of f r \<noteq> None)"

lemma keyed_object: "keyed_rows f rows \<Longrightarrow> r \<in> set rows \<Longrightarrow> \<exists>kvs. r = JObj kvs"
  by (cases r) (auto simp: keyed_rows_def is_object_def)

lemma find_only: "x \<in> set xs \<Longrightarrow> P x \<Longrightarrow> (\<And>y. y \<in> set xs \<Longrightarrow> P y \<Longrightarrow> y = x) \<Longrightarrow> find P xs = Some x"
proof (induction xs)
  case (Cons z zs)
  show ?case
  proof (cases "P z")
    case True
    then have "z = x" by (intro Cons.prems(3)) simp_all
    then show ?thesis using True by simp
  next
    case False
    have "find P zs = Some x"
    proof (rule Cons.IH)
      show "x \<in> set zs" "P x" using Cons.prems(1,2) False by auto
      show "y = x" if "y \<in> set zs" "P y" for y by (rule Cons.prems(3)) (simp_all add: that)
    qed
    then show ?thesis using False by simp
  qed
next
  case Nil
  from Nil(1) show ?case by simp
qed

lemma new_record_key [simp]: "rec_key f (new_record i r) = key_of f r"
  by (simp add: rec_key_def new_record_def key_of_def)

lemma new_record_id [simp]: "jget (new_record i r) ''recordId'' = i" "jget (new_record i r) ''fields'' = r"
  by (simp_all add: new_record_def)

lemma new_keys: "length ids = length rows \<Longrightarrow> rec_keys f (map2 new_record ids rows) = List.map_filter (key_of f) rows"
  by (induction ids rows rule: list_induct2) (simp_all add: map_filter_simps split: option.split)

lemma new_ids: "length ids = length rows \<Longrightarrow> map (\<lambda>x. jget x ''recordId'') (map2 new_record ids rows) = ids"
  by (induction ids rows rule: list_induct2) simp_all

lemma map_filter_set: "k \<in> set (List.map_filter g rows) \<longleftrightarrow> (\<exists>r \<in> set rows. g r = Some k)"
  by (induction rows) (auto simp: map_filter_simps split: option.split)

lemma distinct_map_filter_keys:
  "distinct (map g rows) \<Longrightarrow> distinct (List.map_filter g rows)"
proof (induction rows)
  case (Cons r rows)
  then show ?case
    by (cases "g r") (auto simp: map_filter_simps map_filter_set image_iff)
qed (simp add: map_filter_simps)

lemma keyed_same:
  "keyed_rows f rows \<Longrightarrow> r \<in> set rows \<Longrightarrow> r' \<in> set rows \<Longrightarrow> key_of f r = key_of f r' \<Longrightarrow> r = r'"
  by (auto simp: keyed_rows_def distinct_map inj_on_def)

lemma key_field:
  assumes "key_of f (JObj kvs) = Some k"
  shows "f \<in> fst ` set kvs"
proof (rule ccontr)
  assume "f \<notin> fst ` set kvs"
  then have "map_of kvs f = None" by (simp add: map_of_eq_None_iff)
  then show False using assms by (simp add: key_of_def eng_optionalText_def)
qed

text \<open>The plan over the index of the destination, in terms of its table \<open>V\<close>.\<close>

definition target :: "string \<Rightarrow> jsval list \<Rightarrow> jsval \<Rightarrow> jsval option" where
  "target f V r = (case key_of f r of None \<Rightarrow> None | Some k \<Rightarrow> find_key f k V)"

definition updates :: "(string \<Rightarrow> string \<Rightarrow> bool) \<Rightarrow> string \<Rightarrow> jsval list \<Rightarrow> jsval list \<Rightarrow> jsval list" where
  "updates le f rows V = map (\<lambda>r. update_row (jget (the (target f V r)) ''recordId'') r)
     (filter (\<lambda>r. differs le (target f V r) r) rows)"

definition creates :: "string \<Rightarrow> jsval list \<Rightarrow> jsval list \<Rightarrow> jsval list" where
  "creates f rows V = filter (\<lambda>r. target f V r = None) rows"

lemma targetD: "target f V r = Some x \<Longrightarrow> x \<in> set V \<and> rec_key f x = key_of f r \<and> key_of f r \<noteq> None"
  by (auto simp: target_def dest: find_key_SomeD split: option.splits)

lemma patch_target:
  assumes rows: "keyed_rows f rows" and V: "distinct (map (\<lambda>x. jget x ''recordId'') V)"
    and r: "r \<in> set rows" "target f V r = Some x" "differs le (Some x) r"
  shows "patch (updates le f rows V) x = new_record (jget x ''recordId'') (overlay r (jget x ''fields''))"
proof -
  have x: "x \<in> set V" "rec_key f x = key_of f r" using targetD [OF r(2)] by simp_all
  have "find (\<lambda>u. jget u ''recordId'' = jget x ''recordId'') (updates le f rows V)
      = Some (update_row (jget x ''recordId'') r)"
  proof (rule find_only)
    show "update_row (jget x ''recordId'') r \<in> set (updates le f rows V)"
      using r by (force simp: updates_def)
    fix u assume u: "u \<in> set (updates le f rows V)" "jget u ''recordId'' = jget x ''recordId''"
    then obtain r' where r': "r' \<in> set rows" "differs le (target f V r') r'"
      "u = update_row (jget (the (target f V r')) ''recordId'') r'"
      by (auto simp: updates_def)
    then obtain y where y: "target f V r' = Some y" by (auto simp: differs_def split: option.splits)
    then have "jget y ''recordId'' = jget x ''recordId''" using r'(3) u(2) by (simp add: update_row_def)
    then have "y = x" using V x(1) targetD [OF y] by (auto simp: distinct_map inj_on_def)
    then have "r' = r" using keyed_same [OF rows r'(1) r(1)] targetD [OF y] x(2) by simp
    then show "u = update_row (jget x ''recordId'') r" using r'(3) y \<open>y = x\<close> by simp
  qed (simp add: update_row_def)
  then show ?thesis by (simp add: patch_def update_row_def)
qed

lemma patch_other:
  assumes "\<And>r y. r \<in> set rows \<Longrightarrow> target f V r = Some y \<Longrightarrow> differs le (Some y) r \<Longrightarrow> jget y ''recordId'' \<noteq> jget x ''recordId''"
  shows "patch (updates le f rows V) x = x"
proof -
  have "find (\<lambda>u. jget u ''recordId'' = jget x ''recordId'') (updates le f rows V) = None"
    using assms by (fastforce simp: find_None_iff updates_def update_row_def differs_def split: option.splits)
  then show ?thesis by (simp add: patch_def)
qed

lemma patch_key:
  assumes rows: "keyed_rows f rows" and V: "distinct (map (\<lambda>x. jget x ''recordId'') V)"
    and x: "x \<in> set V \<or> jget x ''recordId'' \<notin> (\<lambda>x. jget x ''recordId'') ` set V"
  shows "rec_key f (patch (updates le f rows V) x) = rec_key f x"
proof (cases "\<exists>r \<in> set rows. \<exists>y. target f V r = Some y \<and> differs le (Some y) r \<and> jget y ''recordId'' = jget x ''recordId''")
  case True
  then obtain r y where r: "r \<in> set rows" "target f V r = Some y" "differs le (Some y) r"
    "jget y ''recordId'' = jget x ''recordId''" by blast
  have y: "y \<in> set V" "rec_key f y = key_of f r" "key_of f r \<noteq> None" using targetD [OF r(2)] by simp_all
  have "x = y" using x V y(1) r(4) by (auto simp: distinct_map inj_on_def image_iff)
  obtain kvs where kvs: "r = JObj kvs" using keyed_object [OF rows r(1)] by blast
  have "jget (overlay r (jget x ''fields'')) f = jget r f"
    using overlay_fields [OF kvs] key_field y(3) kvs by auto
  then show ?thesis
    using patch_target [OF rows V r(1-3)] y(2) \<open>x = y\<close> by (simp add: key_of_def)
next
  case False
  then have "patch (updates le f rows V) x = x" by (intro patch_other) blast
  then show ?thesis by simp
qed

lemma after_sync:
  assumes rows: "keyed_rows f rows" and V: "distinct (map (\<lambda>x. jget x ''recordId'') V)"
    and ok: "\<And>r x. r \<in> set rows \<Longrightarrow> target f V r = Some x \<Longrightarrow> truthy (jget x ''recordId'')
        \<and> (\<exists>fs. listChangedFieldNames le (jget x ''fields'') r = Inr fs)"
    and ids: "length ids = length (creates f rows V)" "distinct ids" "\<forall>i \<in> set ids. truthy i"
      "set ids \<inter> (\<lambda>x. jget x ''recordId'') ` set V = {}"
    and W: "W = map (patch (updates le f rows V)) (V @ map2 new_record ids (creates f rows V))"
    and r: "r \<in> set rows"
  shows "\<exists>x. target f W r = Some x \<and> truthy (jget x ''recordId'') \<and> listChangedFieldNames le (jget x ''fields'') r = Inr []"
proof -
  let ?U = "updates le f rows V" and ?new = "map2 new_record ids (creates f rows V)"
  obtain k where k: "key_of f r = Some k" using rows r by (auto simp: keyed_rows_def)
  obtain kvs where kvs: "r = JObj kvs" using keyed_object [OF rows r] by blast
  have t: "tidy r" using rows r by (simp add: keyed_rows_def)
  have fresh: "jget x ''recordId'' \<in> set ids" if "x \<in> set ?new" for x
    using that ids(1) by (auto dest: set_zip_leftD)
  have keep: "rec_key f (patch ?U x) = rec_key f x" if "x \<in> set (V @ ?new)" for x
    by (rule patch_key [OF rows V]) (use that fresh ids(4) in auto)
  have at: "target f W r = map_option (patch ?U) (find_key f k (V @ ?new))"
    unfolding W target_def k option.case by (rule find_key_map) (rule keep)
  show ?thesis
  proof (cases "target f V r")
    case None
    then have "find_key f k V = None" "r \<in> set (creates f rows V)" using k r by (simp_all add: target_def creates_def)
    then have "k \<in> set (rec_keys f ?new)" using ids(1) k by (auto simp: new_keys map_filter_set)
    then obtain x where x: "find_key f k ?new = Some x" using find_key_None by (metis not_None_eq)
    then obtain i r' where z: "(i, r') \<in> set (zip ids (creates f rows V))" "x = new_record i r'"
      using find_key_SomeD [OF x] by auto
    then have i: "x = new_record i r'" "r' \<in> set rows" "i \<in> set ids" "key_of f r' = Some k"
      using find_key_SomeD [OF x] set_zip_leftD [OF z(1)] set_zip_rightD [OF z(1)]
      by (simp_all add: creates_def)
    then have "r' = r" using keyed_same [OF rows i(2) r] k by simp
    have "patch ?U x = x"
      using ids(4) i(1,3) targetD by (intro patch_other) (fastforce simp: image_iff)
    then have "target f W r = Some (new_record i r)"
      using at x \<open>find_key f k V = None\<close> i(1) \<open>r' = r\<close> by (simp add: find_key_append)
    moreover have "listChangedFieldNames le r r = Inr []"
      by (rule row_covers [OF kvs t]) (simp_all add: kvs is_object_def)
    ultimately show ?thesis using ids(3) i(3) by simp
  next
    case (Some x)
    then have V_at: "find_key f k V = Some x" using k by (simp add: target_def)
    have x: "x \<in> set V" using targetD [OF Some] by simp
    have W_at: "target f W r = Some (patch ?U x)" using at V_at by (simp add: find_key_append)
    show ?thesis
    proof (cases "differs le (Some x) r")
      case True
      have "is_object (overlay r (jget x ''fields''))" by (simp add: kvs overlay_def is_object_def)
      then have "listChangedFieldNames le (overlay r (jget x ''fields'')) r = Inr []"
        by (intro row_covers [OF kvs t overlay_fields [OF kvs]])
      then show ?thesis using W_at patch_target [OF rows V r Some True] ok [OF r Some] by simp
    next
      case False
      have "patch ?U x = x"
      proof (rule patch_other, rule notI)
        fix r' y assume r': "r' \<in> set rows" "target f V r' = Some y" "differs le (Some y) r'"
          and "jget y ''recordId'' = jget x ''recordId''"
        then have "y = x" using V x targetD by (fastforce simp: distinct_map inj_on_def)
        then have "r' = r" using keyed_same [OF rows r'(1) r] targetD [OF r'(2)] targetD [OF Some] by simp
        then show False using r'(3) \<open>y = x\<close> False by simp
      qed
      moreover have "listChangedFieldNames le (jget x ''fields'') r = Inr []"
        using ok [OF r Some] False by (auto simp: differs_def hasChangedFields_def)
      ultimately show ?thesis using W_at ok [OF r Some] by simp
    qed
  qed
qed
subsection \<open>The second synchronisation\<close>

lemma dedupe_keyed:
  assumes ded: "deduplicateRowsByKey (JArr rows) (JStr f) = Inr (unique, dups)" and f: "trim f = f"
    and t: "\<forall>r \<in> set rows. tidy r"
  shows "keyed_rows f unique"
proof -
  obtain ks where ks: "distinct ks" "list_all2 (\<lambda>k r. last_row f k rows = Some r) ks unique"
    using deduplicate_spec(2) [OF ded] f by auto
  have row: "r \<in> set rows \<and> row_key f r = Inr k" if "last_row f k rows = Some r" for k r
    using last_row_key [OF that] .
  have keys: "map (key_of f) unique = map Some ks"
  proof (rule nth_equalityI)
    show "length (map (key_of f) unique) = length (map Some ks)" using list_all2_lengthD [OF ks(2)] by simp
    fix n assume n: "n < length (map (key_of f) unique)"
    then have "last_row f (ks ! n) rows = Some (unique ! n)"
      using ks(2) by (simp add: list_all2_conv_all_nth)
    then have "row_key f (unique ! n) = Inr (ks ! n)" using row by blast
    then show "map (key_of f) unique ! n = map Some ks ! n"
      using n list_all2_lengthD [OF ks(2)] row_key_text by (simp add: key_of_def)
  qed
  have "tidy r \<and> is_object r \<and> key_of f r \<noteq> None" if r: "r \<in> set unique" for r
  proof -
    obtain k where at: "last_row f k rows = Some r"
    proof -
      obtain n where "n < length unique" "unique ! n = r" using r by (auto simp: in_set_conv_nth)
      then show thesis using ks(2) that by (auto simp: list_all2_conv_all_nth)
    qed
    have "r \<in> set rows" "row_key f r = Inr k" using row [OF at] by blast+
    then show ?thesis using t row_key_text [of f r k]
      by (auto simp: key_of_def row_key_def requirePlainObject_def is_object_def bind_res_Inr_iff split: jsval.splits)
  qed
  moreover have "distinct (map (key_of f) unique)" using ks(1) by (simp add: keys distinct_map)
  ultimately show ?thesis by (simp add: keyed_rows_def)
qed

lemma asked_target:
  assumes "\<And>k. map_of index k = find_key f k (asked f rows V)" "r \<in> set rows"
  shows "existing_row f index r = target f V r"
proof (cases "key_of f r")
  case (Some k)
  then have "k \<in> set (List.map_filter (\<lambda>r. eng_optionalText (jget r f)) rows)"
    using assms(2) by (auto simp: map_filter_set key_of_def)
  then show ?thesis
    using Some assms(1) find_key_filter by (simp add: existing_row_def target_def asked_def key_of_def)
qed (simp add: existing_row_def target_def key_of_def)

lemma asked_append: "asked f rows (V @ V') = asked f rows V @ asked f rows V'"
  by (simp add: asked_def)

lemma asked_in: "x \<in> set (asked f rows V) \<Longrightarrow> x \<in> set V"
  by (simp add: asked_def)

lemma asked_map:
  "(\<And>x. x \<in> set V \<Longrightarrow> rec_key f (h x) = rec_key f x) \<Longrightarrow> asked f rows (map h V) = map h (asked f rows V)"
  by (induction V) (auto simp: asked_def)

lemma after_sync_keys:
  assumes rows: "keyed_rows f rows" and V: "distinct (map (\<lambda>x. jget x ''recordId'') V)"
    and ids: "length ids = length (creates f rows V)" "set ids \<inter> (\<lambda>x. jget x ''recordId'') ` set V = {}"
    and W: "W = map (patch (updates le f rows V)) (V @ map2 new_record ids (creates f rows V))"
    and d: "distinct (rec_keys f (asked f rows V))"
  shows "distinct (rec_keys f (asked f rows W))"
proof -
  let ?new = "map2 new_record ids (creates f rows V)"
  have keep: "rec_key f (patch (updates le f rows V) x) = rec_key f x" if "x \<in> set (V @ ?new)" for x
  proof (rule patch_key [OF rows V])
    show "x \<in> set V \<or> jget x ''recordId'' \<notin> (\<lambda>x. jget x ''recordId'') ` set V"
      using that ids(2) by (auto dest!: set_zip_leftD)
  qed
  have "rec_keys f (asked f rows W) = rec_keys f (asked f rows (V @ ?new))"
  proof -
    have "asked f rows W = map (patch (updates le f rows V)) (asked f rows (V @ ?new))"
      unfolding W by (rule asked_map) (rule keep)
    moreover have "rec_keys f (map (patch (updates le f rows V)) (asked f rows (V @ ?new))) = rec_keys f (asked f rows (V @ ?new))"
      by (rule rec_keys_map, rule keep, erule asked_in)
    ultimately show ?thesis by simp
  qed
  also have "\<dots> = rec_keys f (asked f rows V) @ rec_keys f (asked f rows ?new)" by (simp add: asked_append)
  finally have eq: "rec_keys f (asked f rows W) = rec_keys f (asked f rows V) @ rec_keys f (asked f rows ?new)" .
  have new: "asked f rows ?new = ?new"
    unfolding asked_def
  proof (rule filter_True, rule ballI)
    fix x assume "x \<in> set ?new"
    then obtain i r where z: "(i, r) \<in> set (zip ids (creates f rows V))" "x = new_record i r" by auto
    then have "r \<in> set rows" using set_zip_rightD by (fastforce simp: creates_def)
    then obtain k where "key_of f r = Some k" using rows by (auto simp: keyed_rows_def)
    then show "\<exists>k \<in> set (List.map_filter (\<lambda>r. eng_optionalText (jget r f)) rows). rec_key f x = Some k"
      using z(2) \<open>r \<in> set rows\<close> by (auto simp: map_filter_set key_of_def)
  qed
  have "distinct (map (key_of f) (creates f rows V))"
    using rows unfolding keyed_rows_def creates_def by (simp add: distinct_map_filter)
  then have "distinct (rec_keys f ?new)"
    using distinct_map_filter_keys by (simp add: new_keys [OF ids(1)])
  moreover have "set (rec_keys f (asked f rows V)) \<inter> set (rec_keys f ?new) = {}"
  proof -
    have "k \<notin> set (rec_keys f (asked f rows V))" if k: "k \<in> set (rec_keys f ?new)" for k
    proof -
      obtain r where "r \<in> set (creates f rows V)" "key_of f r = Some k"
        using k by (auto simp: new_keys [OF ids(1)] map_filter_set)
      then have "find_key f k V = None" by (simp add: creates_def target_def)
      moreover have "r \<in> set rows" using \<open>r \<in> set (creates f rows V)\<close> by (simp add: creates_def)
      then have "k \<in> set (List.map_filter (\<lambda>r. eng_optionalText (jget r f)) rows)"
        using \<open>key_of f r = Some k\<close> by (auto simp: map_filter_set key_of_def)
      ultimately have "find_key f k (asked f rows V) = None" by (simp add: asked_def find_key_filter)
      then show ?thesis by (simp add: find_key_None)
    qed
    then show ?thesis by blast
  qed
  ultimately show ?thesis using d by (simp add: eq new)
qed

lemma second_sync:
  assumes repo: "stores_rows repo view t f"
    and inp: "eng_requireText (jget input ''tableId'') ''tableId'' = Inr t"
      "eng_requireText (jget input ''keyField'') ''keyField'' = Inr f" "jget input ''rows'' = JArr rows"
    and tidy: "\<forall>r \<in> set rows. tidy r"
    and world: "\<forall>i \<in> set (sy_executed w). i < sy_next w"
    and V: "distinct (map (\<lambda>x. jget x ''recordId'') (view (sy_repo w)))"
    and run: "syncByKey le pol repo input w = (Inr res, w')"
  shows "\<exists>res' w''. syncByKey le pol repo input w' = (Inr res', w'') \<and> res_created res' = 0
    \<and> res_updated res' = 0 \<and> view (sy_repo w'') = view (sy_repo w')"
proof -
  obtain p w1 where plan: "planByKey le pol repo input w = (Inr p, w1)" and ex: "executePlan repo p w1 = (Inr res, w')"
    using run by (auto simp: syncByKey_def eff_simps split: prod.splits sum.splits)
  have f: "trim f = f" using inp(2) by (auto simp: requireText_key eng_optionalText_def split: jsval.splits if_splits)
  obtain unique dups where ded: "deduplicateRowsByKey (JArr rows) (JStr f) = Inr (unique, dups)"
    using plan inp by (auto simp: planByKey_def eff_simps eng_requireArray_def split: sum.splits)
  have rows: "keyed_rows f unique" using dedupe_keyed [OF ded f tidy] .
  then have keys: "\<forall>r \<in> set unique. \<exists>k. eng_optionalText (jget r f) = Some k"
    by (auto simp: keyed_rows_def key_of_def)
  note stores = plan_stores [OF repo inp ded _ keys, of le pol]
  show ?thesis
  proof (cases "unique = []")
    case True
    have "requireRepository repo = Inr repo" using repo by (auto simp: requireRepository_def stores_rows_def)
    then have empty: "planByKey le pol repo input v
        = (Inr ((empty_plan t f dups)\<lparr>pl_id := sy_next v\<rparr>), v\<lparr>sy_next := Suc (sy_next v)\<rparr>)" for v
      using True inp ded by (simp add: planByKey_def eng_requireArray_def createPlan_def)
    have "w' = w\<lparr>sy_next := Suc (sy_next w), sy_executed := sy_next w # sy_executed w\<rparr>"
      using plan ex empty execute_nothing [of p w1 repo] world by (auto simp: empty_plan_def)
    then have "sy_next w' \<notin> set (sy_executed w')" using world by auto
    then show ?thesis
      using empty [of w'] execute_nothing [of "(empty_plan t f dups)\<lparr>pl_id := sy_next w'\<rparr>" "w'\<lparr>sy_next := Suc (sy_next w')\<rparr>" repo]
      by (simp add: syncByKey_def eff_simps empty_plan_def)
  next
    case False
    let ?V = "view (sy_repo w)"
    obtain index q where index: "buildExistingIndex (JArr (asked f unique ?V)) f pol = Inr index"
      and q: "plan_rows le f index unique plan_start = Inr q"
      and p: "pl_createRows p = pp_create q" "pl_updateRows p = pp_update q" "pl_id p = sy_next w"
        "pl_tableId p = t" "w1 = w\<lparr>sy_next := Suc (sy_next w)\<rparr>"
      using plan stores [OF False, of w] by (auto simp: eff_simps createPlan_def split: sum.splits)
    have at: "existing_row f index r = target f ?V r" if "r \<in> set unique" for r
      by (rule asked_target [OF build_index(1) [OF index] that])
    note spec = plan_rows_spec [OF q]
    have create: "pp_create q = creates f unique ?V"
      using spec at by (auto simp: plan_start_def creates_def cong: filter_cong)
    have upd: "pp_update q = updates le f unique ?V"
    proof -
      have "filter (\<lambda>r. differs le (existing_row f index r) r) unique = filter (\<lambda>r. differs le (target f ?V r) r) unique"
        by (rule filter_cong) (simp_all add: at)
      then show ?thesis using spec at by (auto simp: plan_start_def updates_def)
    qed
    have ok: "truthy (jget x ''recordId'') \<and> (\<exists>fs. listChangedFieldNames le (jget x ''fields'') r = Inr fs)"
      if "r \<in> set unique" "target f ?V r = Some x" for r x
      using spec that at by auto
    have repo': "stores_rows repo view (pl_tableId p) f" using repo p(4) by simp
    obtain ids where raw: "length ids = length (pl_createRows p)" "distinct ids" "\<forall>i \<in> set ids. truthy i"
        "set ids \<inter> (\<lambda>x. jget x ''recordId'') ` set (view (sy_repo w1)) = {}"
        "view (sy_repo w') = map (patch (pl_updateRows p)) (view (sy_repo w1) @ map2 new_record ids (pl_createRows p))"
        "sy_executed w' = pl_id p # sy_executed w1" "sy_next w' = sy_next w1"
      using execute_stores [OF repo' ex] .
    have same: "sy_repo w1 = sy_repo w" "sy_executed w1 = sy_executed w" "sy_next w1 = Suc (sy_next w)"
      by (simp_all add: p(5))
    let ?W = "view (sy_repo w')"
    have ids: "length ids = length (creates f unique ?V)"
        "set ids \<inter> (\<lambda>x. jget x ''recordId'') ` set ?V = {}"
      and W: "?W = map (patch (updates le f unique ?V)) (?V @ map2 new_record ids (creates f unique ?V))"
      using raw(1,4,5) unfolding p(1,2) create upd same by blast+
    have unused: "sy_next w' \<notin> set (sy_executed w')"
      using raw(6,7) world unfolding same p(3) by auto
    have "pol = KeepFirst \<or> distinct (rec_keys f (asked f unique ?W))"
      using build_index(2) [OF index] after_sync_keys [OF rows V ids W] by blast
    then obtain index' where index': "buildExistingIndex (JArr (asked f unique ?W)) f pol = Inr index'"
      using build_index_ok by blast
    have "\<exists>x. existing_row f index' r = Some x \<and> truthy (jget x ''recordId'')
        \<and> listChangedFieldNames le (jget x ''fields'') r = Inr []" if r: "r \<in> set unique" for r
      using after_sync [OF rows V ok ids(1) raw(2,3) ids(2) W r]
      by (simp add: asked_target [OF build_index(1) [OF index'] r])
    then have skip: "plan_rows le f index' unique plan_start = Inr (plan_start\<lparr>pp_skipped := length unique\<rparr>)"
      using plan_all_skipped [of unique f index' le plan_start] keys by (simp add: plan_start_def)
    show ?thesis
      using stores [OF False, of w'] index' skip unused
      by (simp add: syncByKey_def eff_simps createPlan_def plan_start_def execute_nothing)
  qed
qed

end
