(* ===== verification/Dates.thy ===== *)
theory Dates
  imports D1_Database
begin

text \<open>
  Calendar dates and instants (\<open>packages/shared/src/date/date-only.js\<close> and \<open>date-time.js\<close>), on top
  of the parts of the language's \<open>Date\<close> they use: the proleptic Gregorian calendar, \<open>Date.UTC\<close>,
  \<open>toISOString\<close> and \<open>Date.parse\<close>.

  A text outside the format the standard defines for \<open>Date.parse\<close> is read by the runtime in a way
  of its own, products and quotients of doubles are rounded, and the time zones come from the
  database of the runtime: these are the fields of \<open>js_host\<close>. A date-time text without an offset
  is local time, which is UTC on the platform.
\<close>

record js_host =
  legacy_date :: "string \<Rightarrow> int option"
  double_mul :: "jsnum \<Rightarrow> jsnum \<Rightarrow> jsnum"
  double_div :: "jsnum \<Rightarrow> jsnum \<Rightarrow> jsnum"
  zone_offset :: "string \<Rightarrow> (int \<Rightarrow> int) option"

subsection \<open>The calendar\<close>

text \<open>Day numbers count from 1970-01-01; a month outside 1 to 12 carries into the year.\<close>

definition days_from_civil :: "int \<Rightarrow> int \<Rightarrow> int \<Rightarrow> int" where
  "days_from_civil year month day =
     (let y = (if month \<le> 2 then year - 1 else year);
          yoe = y mod 400; mp = (if 2 < month then month - 3 else month + 9);
          doy = (153 * mp + 2) div 5 + day - 1
      in (y div 400) * 146097 + (yoe * 365 + yoe div 4 - yoe div 100 + doy) - 719468)"

definition year_and_day :: "int \<Rightarrow> int \<times> int" where
  "year_and_day doe =
     (let c = min 3 (doe div 36524); r = doe - 36524 * c;
          q = r div 1461; r = r mod 1461; y = min 3 (r div 365)
      in (100 * c + 4 * q + y, r - 365 * y))"

definition civil_from_days :: "int \<Rightarrow> int \<times> int \<times> int" where
  "civil_from_days z =
     (let era = (z + 719468) div 146097; (yoe, doy) = year_and_day ((z + 719468) mod 146097);
          mp = (5 * doy + 2) div 153;
          month = (if mp < 10 then mp + 3 else mp - 9)
      in (yoe + era * 400 + (if month \<le> 2 then 1 else 0), month, doy - (153 * mp + 2) div 5 + 1))"

definition real_date :: "int \<Rightarrow> int \<Rightarrow> int \<Rightarrow> bool" where
  "real_date y m d \<longleftrightarrow> 1 \<le> m \<and> m \<le> 12 \<and> civil_from_days (days_from_civil y m d) = (y, m, d)"

lemma year_and_day_spec:
  assumes "0 \<le> doe" "doe < 146097" "year_and_day doe = (yoe, doy)"
  shows "0 \<le> yoe \<and> yoe < 400 \<and> 0 \<le> doy \<and> doy \<le> 365
    \<and> yoe * 365 + yoe div 4 - yoe div 100 + doy = doe"
proof -
  define c where "c = min 3 (doe div 36524)"
  define r where "r = doe - 36524 * c"
  define q where "q = r div 1461"
  define s where "s = r mod 1461"
  define y where "y = min 3 (s div 365)"
  have yoe: "yoe = 100 * c + 4 * q + y" and doy: "doy = s - 365 * y"
    using assms(3) by (simp_all add: year_and_day_def Let_def c_def r_def q_def s_def y_def)
  have c: "0 \<le> c" "c \<le> 3" and r: "0 \<le> r" "r \<le> 36524"
    using assms(1,2) unfolding c_def r_def by (simp_all add: min_def) linarith+
  have s: "0 \<le> s" "s < 1461" and q: "0 \<le> q" "q \<le> 24" and rs: "r = 1461 * q + s"
    using r unfolding s_def q_def by simp_all
  have y: "0 \<le> y" "y \<le> 3" and d: "0 \<le> doy" "doy \<le> 365"
    using s unfolding y_def doy by (simp_all add: min_def) linarith+
  have "yoe div 4 = 25 * c + q" "yoe div 100 = c" using c q y unfolding yoe by linarith+
  then show ?thesis using c q y d rs r_def doy yoe by simp
qed

lemma civil_parts:
  assumes "civil_from_days z = (y, m, d)"
  obtains era yoe doy mp where
    "year_and_day ((z + 719468) mod 146097) = (yoe, doy)" "era = (z + 719468) div 146097"
    "0 \<le> yoe" "yoe < 400" "0 \<le> doy" "doy \<le> 365"
    "yoe * 365 + yoe div 4 - yoe div 100 + doy = (z + 719468) mod 146097"
    "mp = (5 * doy + 2) div 153" "0 \<le> mp" "mp \<le> 11"
    "m = (if mp < 10 then mp + 3 else mp - 9)" "y = yoe + era * 400 + (if m \<le> 2 then 1 else 0)"
    "d = doy - (153 * mp + 2) div 5 + 1"
proof -
  obtain yoe doy where yd: "year_and_day ((z + 719468) mod 146097) = (yoe, doy)" by force
  have "0 \<le> (z + 719468) mod 146097" "(z + 719468) mod 146097 < 146097" by simp_all
  note spec = year_and_day_spec [OF this yd]
  define mp where "mp = (5 * doy + 2) div 153"
  have "0 \<le> mp" "mp \<le> 11" using spec unfolding mp_def by linarith+
  with that [OF yd refl] spec show thesis
    using assms yd by (auto simp: civil_from_days_def Let_def mp_def)
qed

lemma days_of_civil: "civil_from_days z = (y, m, d) \<Longrightarrow> days_from_civil y m d = z \<and> 1 \<le> m \<and> m \<le> 12"
proof (elim civil_parts)
  fix era yoe doy mp
  assume e: "era = (z + 719468) div 146097" and yoe: "0 \<le> yoe" "yoe < 400"
    and doe: "yoe * 365 + yoe div 4 - yoe div 100 + doy = (z + 719468) mod 146097"
    and mp: "0 \<le> mp" "mp \<le> 11" and m: "m = (if mp < 10 then mp + 3 else mp - 9)"
    and y: "y = yoe + era * 400 + (if m \<le> 2 then 1 else 0)" and d: "d = doy - (153 * mp + 2) div 5 + 1"
  have y0: "(if m \<le> 2 then y - 1 else y) = yoe + era * 400" using y by simp
  have mp': "(if 2 < m then m - 3 else m + 9) = mp" using m mp by auto
  have "(yoe + era * 400) mod 400 = yoe" "(yoe + era * 400) div 400 = era" using yoe by simp_all
  then have "days_from_civil y m d = era * 146097 + (z + 719468) mod 146097 - 719468"
    unfolding days_from_civil_def Let_def y0 mp' using doe d by simp
  also have "\<dots> = z" unfolding e by simp
  finally show ?thesis using m mp by auto
qed

lemma days_from_civil_add: "days_from_civil y m (d + k) = days_from_civil y m d + k"
  by (simp add: days_from_civil_def Let_def)

lemma real_date_of_days: "civil_from_days z = (y, m, d) \<Longrightarrow> real_date y m d"
  using days_of_civil [of z y m d] by (simp add: real_date_def)

lemma civil_day_bound: "civil_from_days z = (y, m, d) \<Longrightarrow> 1 \<le> d \<and> d \<le> 31"
proof (elim civil_parts)
  fix doy mp :: int
  assume "0 \<le> doy" "mp = (5 * doy + 2) div 153" "d = doy - (153 * mp + 2) div 5 + 1"
  then show ?thesis by linarith
qed

lemma civil_year_bound: "\<bar>z\<bar> \<le> 100000000 \<Longrightarrow> civil_from_days z = (y, m, d) \<Longrightarrow> \<bar>y\<bar> \<le> 999999"
proof (elim civil_parts)
  fix era yoe :: int
  assume "\<bar>z\<bar> \<le> 100000000" "era = (z + 719468) div 146097" "0 \<le> yoe" "yoe < 400"
    and y: "y = yoe + era * 400 + (if m \<le> 2 then 1 else 0)"
  then have "era \<le> 690" "- 690 \<le> era" by linarith+
  with \<open>0 \<le> yoe\<close> \<open>yoe < 400\<close> y show ?thesis by (simp split: if_splits)
qed

subsection \<open>Texts of instants\<close>

abbreviation ms_per_day :: int where "ms_per_day \<equiv> 86400000"

definition pad_int :: "nat \<Rightarrow> int \<Rightarrow> string" where
  "pad_int k n = pad_left k (nat_text (nat n))"

definition year_text :: "int \<Rightarrow> string" where
  "year_text y = (if 0 \<le> y \<and> y \<le> 9999 then pad_int 4 y
     else (if y < 0 then ''-'' else ''+'') @ pad_int 6 \<bar>y\<bar>)"

text \<open>\<open>new Date(n).toISOString()\<close>\<close>

definition iso_text :: "int \<Rightarrow> string" where
  "iso_text n = (let (y, m, d) = civil_from_days (n div ms_per_day); t = n mod ms_per_day in
     year_text y @ ''-'' @ pad_int 2 m @ ''-'' @ pad_int 2 d @ ''T'' @ pad_int 2 (t div 3600000) @ '':''
       @ pad_int 2 (t div 60000 mod 60) @ '':'' @ pad_int 2 (t div 1000 mod 60) @ ''.''
       @ pad_int 3 (t mod 1000) @ ''Z'')"

definition take_digits :: "nat \<Rightarrow> string \<Rightarrow> (int \<times> string) option" where
  "take_digits k s = (if k \<le> length s \<and> list_all is_digit (take k s)
     then Some (int (digits_val (take k s)), drop k s) else None)"

definition expect :: "string \<Rightarrow> string \<Rightarrow> string option" where
  "expect p s = (if starts_with p s then Some (drop (length p) s) else None)"

definition parse_year :: "string \<Rightarrow> (int \<times> string) option" where
  "parse_year s = (if starts_with ''+'' s then take_digits 6 (tl s)
     else if starts_with ''-'' s then Option.bind (take_digits 6 (tl s)) (\<lambda>(y, r).
       if y = 0 then None else Some (- y, r))
     else take_digits 4 s)"

text \<open>\<open>-MM-DD\<close>, both parts optional from the right.\<close>

definition parse_month_day :: "string \<Rightarrow> (int \<times> int \<times> string) option" where
  "parse_month_day s = (case expect ''-'' s of
       None \<Rightarrow> Some (1, 1, s)
     | Some r \<Rightarrow> Option.bind (take_digits 2 r) (\<lambda>(m, r). case expect ''-'' r of
           None \<Rightarrow> Some (m, 1, r)
         | Some r \<Rightarrow> Option.bind (take_digits 2 r) (\<lambda>(d, r). Some (m, d, r))))"

text \<open>\<open>:ss.sss\<close>, optional, in milliseconds.\<close>

definition parse_seconds :: "string \<Rightarrow> (int \<times> string) option" where
  "parse_seconds s = (case expect '':'' s of
       None \<Rightarrow> Some (0, s)
     | Some r \<Rightarrow> Option.bind (take_digits 2 r) (\<lambda>(sec, r). if 59 < sec then None else
         case expect ''.'' r of
           None \<Rightarrow> Some (sec * 1000, r)
         | Some r \<Rightarrow> Option.bind (take_digits 3 r) (\<lambda>(ms, r). Some (sec * 1000 + ms, r))))"

definition parse_offset :: "string \<Rightarrow> (int \<times> string) option" where
  "parse_offset s = (if s = [] then Some (0, s) else case expect ''Z'' s of
       Some r \<Rightarrow> Some (0, r)
     | None \<Rightarrow> if \<not> starts_with ''+'' s \<and> \<not> starts_with ''-'' s then None
         else Option.bind (take_digits 2 (tl s)) (\<lambda>(h, r).
              Option.bind (expect '':'' r) (\<lambda>r.
              Option.bind (take_digits 2 r) (\<lambda>(m, r). if 23 < h \<or> 59 < m then None
                else Some ((if starts_with ''-'' s then - 1 else 1) * (h * 60 + m) * 60000, r)))))"

definition parse_clock :: "string \<Rightarrow> (int \<times> string) option" where
  "parse_clock s = Option.bind (take_digits 2 s) (\<lambda>(h, r).
     Option.bind (expect '':'' r) (\<lambda>r.
     Option.bind (take_digits 2 r) (\<lambda>(m, r).
     Option.bind (parse_seconds r) (\<lambda>(ms, r).
     let t = h * 3600000 + m * 60000 + ms in
     if 59 < m \<or> ms_per_day < t then None
     else Option.bind (parse_offset r) (\<lambda>(off, r). Some (t - off, r))))))"

text \<open>The date time string format of \<open>Date.parse\<close>.\<close>

definition max_time :: int where
  "max_time = 8640000000000000"

definition iso_parse :: "string \<Rightarrow> int option" where
  "iso_parse s = Option.bind (parse_year s) (\<lambda>(y, r).
     Option.bind (parse_month_day r) (\<lambda>(m, d, r).
     if \<not> real_date y m d then None else
     Option.bind (case expect ''T'' r of None \<Rightarrow> Some (0, r) | Some r \<Rightarrow> parse_clock r) (\<lambda>(t, r).
     let n = days_from_civil y m d * ms_per_day + t in
     if r = [] \<and> \<bar>n\<bar> \<le> max_time then Some n else None)))"

definition date_parse :: "js_host \<Rightarrow> string \<Rightarrow> int option" where
  "date_parse h s = (case iso_parse s of Some n \<Rightarrow> Some n | None \<Rightarrow> legacy_date h s)"

text \<open>Reading what \<open>toISOString\<close> prints.\<close>

lemma digit_code: "d < 10 \<Longrightarrow> of_char (digit_char d) = 48 + d"
  by (simp add: digit_char_def)

lemma digit_char_ok: "d < 10 \<Longrightarrow> is_digit (digit_char d) \<and> digit_val (digit_char d) = d"
proof -
  assume d: "d < 10"
  have "CHR ''0'' \<le> digit_char d" "digit_char d \<le> CHR ''9''"
    unfolding less_eq_char_def using digit_code [OF d] d by simp_all
  then show ?thesis using digit_code [OF d] by (simp add: is_digit_def digit_val_def)
qed

lemma digits_val_append: "digits_val (s @ [c]) = 10 * digits_val s + digit_val c"
  by (simp add: digits_val_def)

lemma nat_text_ok: "list_all is_digit (nat_text n) \<and> digits_val (nat_text n) = n"
proof (induction n rule: nat_text.induct)
  case (1 n)
  show ?case
  proof (cases "n < 10")
    case True
    then show ?thesis using digit_char_ok [OF True] by (simp add: nat_text.simps [of n] digits_val_def)
  next
    case False
    have "n mod 10 < 10" by simp
    with False 1 show ?thesis
      by (simp add: nat_text.simps [of n] digits_val_append digit_char_ok)
  qed
qed

lemma nat_text_length: "n < 10 ^ Suc k \<Longrightarrow> length (nat_text n) \<le> Suc k"
proof (induction k arbitrary: n)
  case (Suc k)
  then show ?case by (cases "n < 10") (simp_all add: nat_text.simps [of n])
qed (simp add: nat_text.simps)

lemma digits_val_zeros: "digits_val (replicate k (CHR ''0'') @ s) = digits_val s"
proof -
  have z: "digit_val (CHR ''0'') = 0" by (simp add: digit_val_def)
  have "foldl (\<lambda>a c. 10 * a + digit_val c) 0 (replicate k (CHR ''0'')) = 0"
    by (induction k) (simp_all add: z)
  then show ?thesis by (simp add: digits_val_def)
qed

lemma pad_int_ok:
  assumes "0 \<le> n" "n < 10 ^ k" "0 < k"
  shows "length (pad_int k n) = k" "list_all is_digit (pad_int k n)" "digits_val (pad_int k n) = nat n"
proof -
  obtain j where k: "k = Suc j" using assms(3) by (cases k) auto
  have "nat n < 10 ^ Suc j" using assms(1,2) k by (metis nat_less_numeral_power_cancel_iff)
  from nat_text_length [OF this] show "length (pad_int k n) = k"
    by (simp add: pad_int_def pad_left_def k)
  show "list_all is_digit (pad_int k n)"
    using nat_text_ok [of "nat n"] by (auto simp: pad_int_def pad_left_def list_all_iff is_digit_def)
  show "digits_val (pad_int k n) = nat n"
    using nat_text_ok [of "nat n"] by (simp add: pad_int_def pad_left_def digits_val_zeros)
qed

lemma take_digits_pad:
  "0 \<le> n \<Longrightarrow> n < 10 ^ k \<Longrightarrow> 0 < k \<Longrightarrow> take_digits k (pad_int k n @ r) = Some (n, r)"
  using pad_int_ok [of n k] by (simp add: take_digits_def)

lemma expect_append [simp]: "expect p (p @ r) = Some r"
  by (simp add: expect_def starts_with_def)

lemma starts_with_digit: "starts_with p s \<Longrightarrow> length p = 1 \<Longrightarrow> s \<noteq> [] \<and> hd s = hd p"
  by (cases s; cases p) (auto simp: starts_with_def)

lemma parse_year_text: "\<bar>y\<bar> \<le> 999999 \<Longrightarrow> parse_year (year_text y @ r) = Some (y, r)"
proof -
  assume y: "\<bar>y\<bar> \<le> 999999"
  show ?thesis
  proof (cases "0 \<le> y \<and> y \<le> 9999")
    case True
    then have p: "length (pad_int 4 y) = 4" "list_all is_digit (pad_int 4 y)" using pad_int_ok [of y 4] by simp_all
    then obtain c cs where c: "pad_int 4 y = c # cs" "is_digit c" by (cases "pad_int 4 y") auto
    have "c \<noteq> CHR ''+''" "c \<noteq> CHR ''-''" using c(2) by (auto simp: is_digit_def)
    then have "\<not> starts_with ''+'' (pad_int 4 y @ r)" "\<not> starts_with ''-'' (pad_int 4 y @ r)"
      by (simp_all add: c(1) starts_with_def)
    with True show ?thesis using take_digits_pad [of y 4 r] by (simp add: parse_year_def year_text_def)
  next
    case False
    then show ?thesis using y take_digits_pad [of "\<bar>y\<bar>" 6 r]
      by (auto simp: parse_year_def year_text_def starts_with_def)
  qed
qed

theorem iso_round_trip:
  assumes "\<bar>n\<bar> \<le> max_time"
  shows "iso_parse (iso_text n) = Some n"
proof -
  define z t where "z = n div ms_per_day" and "t = n mod ms_per_day"
  obtain y m d where civil: "civil_from_days z = (y, m, d)" using prod_cases3 by blast
  have n: "n = z * ms_per_day + t" and t: "0 \<le> t" "t < ms_per_day" unfolding z_def t_def by simp_all
  have "\<bar>z\<bar> \<le> 100000000" using assms t n unfolding max_time_def by linarith
  note y = civil_year_bound [OF this civil]
  note d = civil_day_bound [OF civil] and m = days_of_civil [OF civil]
  define hh mi ss ms where "hh = t div 3600000" and "mi = t div 60000 mod 60"
    and "ss = t div 1000 mod 60" and "ms = t mod 1000"
  have b: "0 \<le> hh" "hh < 24" "0 \<le> mi" "mi < 60" "0 \<le> ss" "ss < 60" "0 \<le> ms" "ms < 1000"
    using t unfolding hh_def mi_def ss_def ms_def by simp_all
  have t_eq: "hh * 3600000 + mi * 60000 + (ss * 1000 + ms) = t"
  proof -
    have "t div 3600000 = t div 60000 div 60" "t div 60000 = t div 1000 div 60"
      using zdiv_zmult2_eq [of 60 t 60000] zdiv_zmult2_eq [of 60 t 1000] by simp_all
    moreover have "t = 1000 * (t div 1000) + t mod 1000"
      "t div 1000 = 60 * (t div 1000 div 60) + t div 1000 mod 60"
      "t div 60000 = 60 * (t div 60000 div 60) + t div 60000 mod 60" by (simp_all only: mult_div_mod_eq)
    ultimately show ?thesis unfolding hh_def mi_def ss_def ms_def by linarith
  qed
  have printed: "iso_text n = year_text y @ ''-'' @ pad_int 2 m @ ''-'' @ pad_int 2 d @ ''T''
      @ pad_int 2 hh @ '':'' @ pad_int 2 mi @ '':'' @ pad_int 2 ss @ ''.'' @ pad_int 3 ms @ ''Z''"
    using civil by (simp add: iso_text_def Let_def z_def t_def hh_def mi_def ss_def ms_def)
  have sec: "parse_seconds ('':'' @ pad_int 2 ss @ ''.'' @ pad_int 3 ms @ ''Z'') = Some (ss * 1000 + ms, ''Z'')"
    using b by (simp add: parse_seconds_def take_digits_pad del: append_Cons)
  have off: "parse_offset ''Z'' = Some (0, [])" by (simp add: parse_offset_def expect_def starts_with_def)
  have clock: "parse_clock (pad_int 2 hh @ '':'' @ pad_int 2 mi @ '':'' @ pad_int 2 ss @ ''.'' @ pad_int 3 ms @ ''Z'')
      = Some (t, [])"
    using b t sec off t_eq by (simp add: parse_clock_def take_digits_pad Let_def del: append_Cons)
  have md: "parse_month_day (''-'' @ pad_int 2 m @ ''-'' @ pad_int 2 d @ r) = Some (m, d, r)" for r
    using d m by (simp add: parse_month_day_def take_digits_pad del: append_Cons)
  have "days_from_civil y m d * ms_per_day + t = n" using m n by simp
  then show ?thesis
    unfolding printed using assms y md clock real_date_of_days [OF civil]
    by (simp add: iso_parse_def parse_year_text Let_def del: append_Cons)
qed

subsection \<open>Calendar dates\<close>

definition label_of :: "jsval \<Rightarrow> string \<Rightarrow> string" where
  "label_of v d = (case nullish v (JStr d) of JStr s \<Rightarrow> if trim s = [] then d else trim s | _ \<Rightarrow> d)"

definition digit_run :: "nat \<Rightarrow> string \<Rightarrow> (string \<times> string) option" where
  "digit_run k s = (if k \<le> length s \<and> list_all is_digit (take k s) then Some (take k s, drop k s) else None)"

definition date_only_parts :: "string \<Rightarrow> ((string \<times> string \<times> string) \<times> string) option" where
  "date_only_parts s = Option.bind (digit_run 4 s) (\<lambda>(y, r).
     Option.bind (expect ''-'' r) (\<lambda>r.
     Option.bind (digit_run 2 r) (\<lambda>(m, r).
     Option.bind (expect ''-'' r) (\<lambda>r.
     Option.bind (digit_run 2 r) (\<lambda>(d, r). Some ((y, m, d), r))))))"

definition text_int :: "string \<Rightarrow> int" where
  "text_int s = int (digits_val s)"

text \<open>The day number of \<open>Date.UTC(year, month - 1, day)\<close>, which reads the years 0 to 99 as 1900 to 1999.\<close>

definition utc_day :: "int \<Rightarrow> int \<Rightarrow> int \<Rightarrow> int" where
  "utc_day year month day =
     (let y = (if 0 \<le> year \<and> year \<le> 99 then 1900 + year else year)
      in days_from_civil (y + (month - 1) div 12) ((month - 1) mod 12 + 1) day)"

definition readBoundary :: "jsval \<Rightarrow> int \<Rightarrow> string \<Rightarrow> jserror + int" where
  "readBoundary v d f = (if v = JUndef then Inr d else case js_number v of
       NInt n \<Rightarrow> Inr n | _ \<Rightarrow> Inl (type_error (f @ '' must be an integer'')))"

definition requireDateOnly :: "jsval \<Rightarrow> jsval \<Rightarrow> jserror + string" where
  "requireDateOnly v options =
     (let label = label_of (jget options ''label'') ''date'';
          malformed = Inl (type_error (label @ '' must be YYYY-MM-DD''))
      in case v of
        JStr raw \<Rightarrow> (case date_only_parts (trim raw) of
            Some ((y, m, d), []) \<Rightarrow>
              bind_res (readBoundary (jget options ''minYear'') 2000 ''minYear'') (\<lambda>lo.
              bind_res (readBoundary (jget options ''maxYear'') 2100 ''maxYear'') (\<lambda>hi.
              if hi < lo then Inl (type_error ''date-only minYear cannot be greater than maxYear'')
              else if civil_from_days (utc_day (text_int y) (text_int m) (text_int d))
                     \<noteq> (text_int y, text_int m, text_int d)
                   \<or> text_int y < lo \<or> hi < text_int y
              then Inl (range_error (label @ '' is not a valid calendar date between ''
                     @ int_text lo @ ''-'' @ int_text hi))
              else Inr (trim raw)))
          | _ \<Rightarrow> malformed)
      | _ \<Rightarrow> malformed)"

text \<open>\<open>\<plusminus>HH:mm\<close>, with the colon optional where \<open>colon\<close> is false.\<close>

definition offset_parts :: "bool \<Rightarrow> string \<Rightarrow> (string \<times> string \<times> string) option" where
  "offset_parts colon s = (if \<not> starts_with ''+'' s \<and> \<not> starts_with ''-'' s then None else
     Option.bind (digit_run 2 (tl s)) (\<lambda>(h, r).
     Option.bind (case expect '':'' r of Some r' \<Rightarrow> Some r' | None \<Rightarrow> if colon then None else Some r) (\<lambda>r.
     Option.bind (digit_run 2 r) (\<lambda>(m, r). if r = [] then Some (take 1 s, h, m) else None))))"

definition offset_in_range :: "string \<Rightarrow> string \<Rightarrow> bool" where
  "offset_in_range h m \<longleftrightarrow> \<not> (14 < text_int h \<or> 59 < text_int m \<or> text_int h = 14 \<and> text_int m \<noteq> 0)"

definition date_requireText :: "jsval \<Rightarrow> string \<Rightarrow> jserror + string" where
  "date_requireText v f = requireText (f @ '' is required'') v"

definition normalizeUtcOffset :: "jsval \<Rightarrow> jserror + string" where
  "normalizeUtcOffset v = bind_res (date_requireText v ''utcOffset'') (\<lambda>text.
     case offset_parts True text of
       None \<Rightarrow> Inl (type_error (''utcOffset must be '' @ [CHR 0xB1] @ ''HH:mm''))
     | Some (_, h, m) \<Rightarrow> if offset_in_range h m then Inr text
         else Inl (range_error ''utcOffset is outside the supported range''))"

definition dateOnlyToEpochMilliseconds :: "js_host \<Rightarrow> jsval \<Rightarrow> jsval \<Rightarrow> jserror + int" where
  "dateOnlyToEpochMilliseconds host v options =
     (let label = label_of (jget options ''label'') ''date'' in
      bind_res (requireDateOnly v (JObj [(''label'', JStr label)])) (\<lambda>date.
      bind_res (normalizeUtcOffset (nullish (jget options ''utcOffset'') (JStr ''+07:00''))) (\<lambda>offset.
      case date_parse host (date @ ''T00:00:00'' @ offset) of
        Some n \<Rightarrow> Inr n
      | None \<Rightarrow> Inl (type_error (label @ '' could not be converted to epoch milliseconds'')))))"

subsection \<open>Instants\<close>

abbreviation min_supported_ms :: int where "min_supported_ms \<equiv> 946684800000"
abbreviation max_supported_ms :: int where "max_supported_ms \<equiv> 4133980799999"

definition normalizeEpochNumber :: "js_host \<Rightarrow> jsnum \<Rightarrow> string \<Rightarrow> jserror + jsnum" where
  "normalizeEpochNumber host n label = (case n of
       NInt i \<Rightarrow> Inr (NInt (if \<bar>i\<bar> < 100000000000 then i * 1000 else i))
     | NFrac m k \<Rightarrow> Inr (if \<bar>m\<bar> < 100000000000 * 10 ^ k then double_mul host (NFrac m k) (NInt 1000) else NFrac m k)
     | _ \<Rightarrow> Inl (type_error (label @ '' must be finite'')))"

fun js_trunc :: "jsnum \<Rightarrow> int option" where
  "js_trunc (NInt i) = Some i"
| "js_trunc (NFrac m k) = Some (sgn m * (\<bar>m\<bar> div 10 ^ k))"
| "js_trunc _ = None"

definition validateEpochRange :: "jsval \<Rightarrow> string \<Rightarrow> jserror + int" where
  "validateEpochRange v label =
     (case (case v of JNum n \<Rightarrow> js_trunc n | _ \<Rightarrow> None) of
        None \<Rightarrow> Inl (type_error (label @ '' is not a valid date-time''))
      | Some i \<Rightarrow> if i < min_supported_ms \<or> max_supported_ms < i
          then Inl (range_error (label @ '' is outside the supported range 2000-2100'')) else Inr i)"

definition numeric_text :: "string \<Rightarrow> bool" where
  "numeric_text s =
     (let u = (if starts_with ''+'' s \<or> starts_with ''-'' s then tl s else s);
          whole = takeWhile is_digit u; r = dropWhile is_digit u
      in whole \<noteq> [] \<and> (r = [] \<or> starts_with ''.'' r \<and> tl r \<noteq> [] \<and> list_all is_digit (tl r)))"

record date_time_match =
  dm_date :: "string \<times> string \<times> string"
  dm_hour :: string
  dm_minute :: string
  dm_second :: string
  dm_fraction :: string
  dm_zone :: string

definition date_time_match_of :: "string \<Rightarrow> date_time_match option" where
  "date_time_match_of s = Option.bind (date_only_parts s) (\<lambda>(date, r).
     Option.bind (if starts_with ''T'' r \<or> starts_with ''t'' r then Some (tl r) else None) (\<lambda>r.
     Option.bind (digit_run 2 r) (\<lambda>(h, r).
     Option.bind (expect '':'' r) (\<lambda>r.
     Option.bind (digit_run 2 r) (\<lambda>(m, r).
     Option.bind (expect '':'' r) (\<lambda>r.
     Option.bind (digit_run 2 r) (\<lambda>(sec, r).
     let (frac, zone) = (case expect ''.'' r of None \<Rightarrow> ([], r)
           | Some f \<Rightarrow> (takeWhile is_digit f, dropWhile is_digit f));
         frac_ok = (expect ''.'' r = None \<or> 1 \<le> length frac \<and> length frac \<le> 9)
     in if frac_ok \<and> (zone = ''Z'' \<or> offset_parts False zone \<noteq> None)
        then Some \<lparr>dm_date = date, dm_hour = h, dm_minute = m, dm_second = sec,
                   dm_fraction = frac, dm_zone = zone\<rparr>
        else None)))))))"

definition normalizeTimezone :: "string \<Rightarrow> string \<Rightarrow> jserror + string" where
  "normalizeTimezone v label = (if v = ''Z'' then Inr ''Z'' else case offset_parts False v of
       None \<Rightarrow> Inl (type_error (label @ '' contains an invalid timezone offset''))
     | Some (sign, h, m) \<Rightarrow> if offset_in_range h m then Inr (sign @ h @ '':'' @ m)
         else Inl (range_error (label @ '' contains an unsupported timezone offset'')))"

definition normalizeFraction :: "string \<Rightarrow> string" where
  "normalizeFraction s = (if s = [] then []
     else CHR ''.'' # take 3 (s @ replicate (3 - length s) (CHR ''0'')))"

text \<open>\<open>None\<close> is the \<open>null\<close> of a blank text where null is allowed.\<close>

definition parseDateTimeText :: "js_host \<Rightarrow> string \<Rightarrow> string \<Rightarrow> bool \<Rightarrow> jserror + jsnum option" where
  "parseDateTimeText host v label allowNull =
     (let txt = trim v in
      if txt = [] then (if allowNull then Inr None else Inl (type_error (label @ '' is required'')))
      else if numeric_text txt
      then bind_res (normalizeEpochNumber host (string_number txt) label) (\<lambda>n. Inr (Some n))
      else case date_time_match_of txt of
        None \<Rightarrow> Inl (type_error (label @ '' must be a valid ISO-8601 date-time with an explicit timezone''))
      | Some x \<Rightarrow>
          let (y, m, d) = dm_date x; dateOnly = y @ ''-'' @ m @ ''-'' @ d in
          bind_res (requireDateOnly (JStr dateOnly) (JObj [(''label'', JStr label)])) (\<lambda>_.
          if 23 < text_int (dm_hour x) \<or> 59 < text_int (dm_minute x) \<or> 59 < text_int (dm_second x)
          then Inl (range_error (label @ '' contains an invalid clock time''))
          else bind_res (normalizeTimezone (dm_zone x) label) (\<lambda>zone.
            case date_parse host (dateOnly @ ''T'' @ dm_hour x @ '':'' @ dm_minute x @ '':'' @ dm_second x
                   @ normalizeFraction (dm_fraction x) @ zone) of
              None \<Rightarrow> Inl (type_error (label @ '' is not a valid date-time''))
            | Some n \<Rightarrow> Inr (Some (NInt n)))))"

definition toEpochMilliseconds :: "js_host \<Rightarrow> jsval \<Rightarrow> jsval \<Rightarrow> jserror + int option" where
  "toEpochMilliseconds host v options =
     (let label = label_of (jget options ''label'') ''date-time'';
          allowNull = (jget options ''allowNull'' = JBool True);
          ranged = (\<lambda>x. bind_res (validateEpochRange x label) (\<lambda>n. Inr (Some n)))
      in if is_absent v
         then (if allowNull then Inr None else Inl (type_error (label @ '' is required'')))
         else case v of
           JNum n \<Rightarrow> bind_res (normalizeEpochNumber host n label) (\<lambda>x. ranged (JNum x))
         | JStr s \<Rightarrow> bind_res (parseDateTimeText host s label allowNull)
             (\<lambda>x. ranged (case x of Some n \<Rightarrow> JNum n | None \<Rightarrow> JNull))
         | _ \<Rightarrow> Inl (type_error (label
             @ '' must be a Date, epoch number, numeric epoch string, or ISO-8601 string'')))"

subsection \<open>Local dates\<close>

text \<open>
  The wall clock of a zone, to the second: the time zone database of the runtime is the field
  \<open>zone_offset\<close>, the offset of a zone in milliseconds at an instant, or \<open>None\<close> for an unknown zone.
\<close>

definition local_seconds :: "(int \<Rightarrow> int) \<Rightarrow> int \<Rightarrow> int" where
  "local_seconds offset n = (n + offset n) div 1000"

definition requireTimeZone :: "js_host \<Rightarrow> jsval \<Rightarrow> string \<Rightarrow> jserror + (int \<Rightarrow> int)" where
  "requireTimeZone host v label = bind_res (requireText (label @ '' is required'') v) (\<lambda>zone.
     case zone_offset host zone of
       Some offset \<Rightarrow> Inr offset
     | None \<Rightarrow> Inl (type_error (label @ '' must be a valid IANA timezone'')))"

fun converge :: "(int \<Rightarrow> int) \<Rightarrow> int \<Rightarrow> nat \<Rightarrow> int \<Rightarrow> int" where
  "converge offset target 0 candidate = candidate"
| "converge offset target (Suc k) candidate =
     (let correction = target - local_seconds offset candidate * 1000
      in if correction = 0 then candidate else converge offset target k (candidate + correction))"

definition dateOnlyInTimeZoneToEpochMilliseconds ::
    "js_host \<Rightarrow> jsval \<Rightarrow> jsval \<Rightarrow> jsval \<Rightarrow> jserror + int" where
  "dateOnlyInTimeZoneToEpochMilliseconds host v timeZone options =
     (let label = label_of (jget options ''label'') ''date'' in
      bind_res (requireDateOnly v (JObj [(''label'', JStr label)])) (\<lambda>date.
      bind_res (requireTimeZone host timeZone (label @ '' timeZone'')) (\<lambda>offset.
      let y = text_int (take 4 date); m = text_int (take 2 (drop 5 date)); d = text_int (take 2 (drop 8 date));
          candidate = converge offset (utc_day y m d * ms_per_day) 6 (utc_day y m d * ms_per_day);
          seen = local_seconds offset candidate
      in if civil_from_days (seen div 86400) \<noteq> (y, m, d) \<or> seen mod 86400 \<noteq> 0
         then Inl (range_error (label @ '' has no resolvable local midnight in '' @ trim (js_text timeZone)))
         else validateEpochRange (jint candidate) label)))"

definition bangkokDateToEpochMilliseconds :: "js_host \<Rightarrow> jsval \<Rightarrow> jsval \<Rightarrow> jserror + int" where
  "bangkokDateToEpochMilliseconds host v options =
     dateOnlyInTimeZoneToEpochMilliseconds host v (JStr ''Asia/Bangkok'')
       (JObj [(''label'', nullish (jget options ''label'') (JStr ''Bangkok date''))])"

subsection \<open>Guarantees\<close>

lemma digits_inj:
  "length s = length t \<Longrightarrow> list_all is_digit s \<Longrightarrow> list_all is_digit t \<Longrightarrow> digits_val s = digits_val t \<Longrightarrow> s = t"
proof (induction s arbitrary: t rule: rev_induct)
  case (snoc c s)
  from snoc.prems(1) obtain t' c' where t: "t = t' @ [c']" by (cases t rule: rev_cases) auto
  have code: "48 \<le> (of_char x :: nat) \<and> (of_char x :: nat) \<le> 57" if "is_digit x" for x
    using that by (simp add: is_digit_def less_eq_char_def)
  have c: "is_digit c" "is_digit c'" using snoc.prems t by simp_all
  have lt: "digit_val c < 10" "digit_val c' < 10" using code [OF c(1)] code [OF c(2)] by (auto simp: digit_val_def)
  have "10 * digits_val s + digit_val c = 10 * digits_val t' + digit_val c'"
    using snoc.prems(4) t by (simp add: digits_val_append)
  with lt have v: "digits_val s = digits_val t'" "digit_val c = digit_val c'" by presburger+
  have "s = t'" using snoc.IH [of t'] snoc.prems t v by simp
  moreover have "(of_char c :: nat) = of_char c'"
    using v(2) code [OF c(1)] code [OF c(2)] unfolding digit_val_def by linarith
  then have "c = c'" by (simp only: of_char_eq_iff)
  ultimately show ?case using t by simp
qed simp

lemma digits_bound: "list_all is_digit s \<Longrightarrow> digits_val s < 10 ^ length s"
proof (induction s rule: rev_induct)
  case (snoc c s)
  then have "(of_char c :: nat) \<le> 57" by (simp add: is_digit_def less_eq_char_def)
  then have "digit_val c < 10" by (simp add: digit_val_def)
  with snoc show ?case by (simp add: digits_val_append)
qed (simp add: digits_val_def)

lemma pad_of_digits: "list_all is_digit s \<Longrightarrow> length s = k \<Longrightarrow> 0 < k \<Longrightarrow> pad_int k (text_int s) = s"
proof (rule digits_inj)
  assume s: "list_all is_digit s" "length s = k" "0 < k"
  have b: "0 \<le> text_int s" "text_int s < 10 ^ k" "0 < k" using digits_bound [OF s(1)] s by (auto simp: text_int_def)
  show "length (pad_int k (text_int s)) = length s" "list_all is_digit (pad_int k (text_int s))"
    "digits_val (pad_int k (text_int s)) = digits_val s"
    using pad_int_ok [OF b] s(2) by (simp_all add: text_int_def)
qed

lemma digit_run_SomeD: "digit_run k s = Some (a, r) \<Longrightarrow> s = a @ r \<and> length a = k \<and> list_all is_digit a"
  by (auto simp: digit_run_def split: if_splits)

lemma expect_SomeD: "expect p s = Some r \<Longrightarrow> s = p @ r"
  by (auto simp: expect_def starts_with_def split: if_splits) (metis append_take_drop_id)

lemma digit_run_pad: "0 \<le> n \<Longrightarrow> n < 10 ^ k \<Longrightarrow> 0 < k \<Longrightarrow> digit_run k (pad_int k n @ r) = Some (pad_int k n, r)"
  using pad_int_ok [of n k] by (simp add: digit_run_def)

lemma text_int_pad: "0 \<le> n \<Longrightarrow> n < 10 ^ k \<Longrightarrow> 0 < k \<Longrightarrow> text_int (pad_int k n) = n"
  using pad_int_ok [of n k] by (simp add: text_int_def)

definition date_text :: "int \<Rightarrow> int \<Rightarrow> int \<Rightarrow> string" where
  "date_text y m d = pad_int 4 y @ ''-'' @ pad_int 2 m @ ''-'' @ pad_int 2 d"

lemma date_only_parts_text:
  assumes "0 \<le> y" "y \<le> 9999" "0 \<le> m" "m \<le> 99" "0 \<le> d" "d \<le> 99"
  shows "date_only_parts (date_text y m d @ r) = Some ((pad_int 4 y, pad_int 2 m, pad_int 2 d), r)"
  using assms by (simp add: date_only_parts_def date_text_def digit_run_pad del: append_Cons)

lemma date_only_partsD:
  assumes "date_only_parts s = Some ((y, m, d), r)"
  shows "s = date_text (text_int y) (text_int m) (text_int d) @ r \<and> text_int y \<le> 9999
    \<and> text_int m \<le> 99 \<and> text_int d \<le> 99"
proof -
  from assms obtain r1 r2 r3 r4 where runs: "digit_run 4 s = Some (y, r1)"
      "digit_run 2 r2 = Some (m, r3)" "digit_run 2 r4 = Some (d, r)"
    and dashes: "expect ''-'' r1 = Some r2" "expect ''-'' r3 = Some r4"
    by (auto simp: date_only_parts_def Option.bind_eq_Some_conv)
  note parts = runs [THEN digit_run_SomeD] dashes [THEN expect_SomeD]
  then have y: "length y = 4" "list_all is_digit y" and m: "length m = 2" "list_all is_digit m"
    and d: "length d = 2" "list_all is_digit d" and s: "s = y @ ''-'' @ m @ ''-'' @ d @ r"
    by auto
  have "pad_int 4 (text_int y) = y" "pad_int 2 (text_int m) = m" "pad_int 2 (text_int d) = d"
    using pad_of_digits [OF y(2)] pad_of_digits [OF m(2)] pad_of_digits [OF d(2)] y m d by auto
  moreover have "text_int y \<le> 9999" "text_int m \<le> 99" "text_int d \<le> 99"
    using digits_bound [OF y(2)] digits_bound [OF m(2)] digits_bound [OF d(2)] y m d by (simp_all add: text_int_def)
  ultimately show ?thesis using s by (simp add: date_text_def)
qed

lemma utc_day_real: "100 \<le> y \<Longrightarrow> 1 \<le> m \<Longrightarrow> m \<le> 12 \<Longrightarrow> utc_day y m d = days_from_civil y m d"
  by (simp add: utc_day_def Let_def)

text \<open>\<open>None\<close> where no bounds are passed: the years 2000 to 2100.\<close>

lemma requireDateOnly_iff:
  assumes "jget options ''minYear'' = JUndef" "jget options ''maxYear'' = JUndef"
  shows "requireDateOnly (JStr raw) options = Inr t \<longleftrightarrow> t = trim raw
    \<and> (\<exists>y m d. t = date_text y m d \<and> 2000 \<le> y \<and> y \<le> 2100 \<and> real_date y m d)" (is "?lhs \<longleftrightarrow> ?rhs")
proof
  assume ok: ?lhs
  then obtain ys ms ds where parts: "date_only_parts (trim raw) = Some ((ys, ms, ds), [])"
    by (auto simp: requireDateOnly_def Let_def split: option.splits list.splits prod.splits)
  define y m d where "y = text_int ys" and "m = text_int ms" and "d = text_int ds"
  have t: "t = trim raw" and civil: "civil_from_days (utc_day y m d) = (y, m, d)"
    and y: "2000 \<le> y" "y \<le> 2100"
    using ok parts assms by (auto simp: requireDateOnly_def Let_def readBoundary_def y_def m_def d_def split: if_splits)
  have m: "1 \<le> m" "m \<le> 12" using days_of_civil [OF civil] by auto
  then have "real_date y m d" using civil y utc_day_real [of y m d] by (simp add: real_date_def)
  moreover have "t = date_text y m d" using date_only_partsD [OF parts] t by (simp add: y_def m_def d_def)
  ultimately show ?rhs using t y by blast
next
  assume ?rhs
  then obtain y m d where t: "t = trim raw" "trim raw = date_text y m d" and y: "2000 \<le> y" "y \<le> 2100"
    and real: "real_date y m d" by auto
  then have civil: "civil_from_days (utc_day y m d) = (y, m, d)" and m: "1 \<le> m" "m \<le> 12"
    using utc_day_real [of y m d] by (auto simp: real_date_def)
  note d = civil_day_bound [OF civil]
  have "date_only_parts (date_text y m d) = Some ((pad_int 4 y, pad_int 2 m, pad_int 2 d), [])"
    using date_only_parts_text [of y m d "[]"] y m d by simp
  then show ?lhs using t civil y m d assms
    by (simp add: requireDateOnly_def Let_def readBoundary_def text_int_pad)
qed

lemma iso_text_parts:
  assumes "min_supported_ms \<le> n" "n \<le> max_supported_ms"
  obtains y m d hh mi ss ms where
    "iso_text n = date_text y m d @ ''T'' @ pad_int 2 hh @ '':'' @ pad_int 2 mi @ '':'' @ pad_int 2 ss
       @ ''.'' @ pad_int 3 ms @ ''Z''"
    "2000 \<le> y" "y \<le> 2100" "real_date y m d" "1 \<le> m" "m \<le> 12" "1 \<le> d" "d \<le> 31"
    "0 \<le> hh" "hh < 24" "0 \<le> mi" "mi < 60" "0 \<le> ss" "ss < 60" "0 \<le> ms" "ms < 1000"
proof -
  define z t where "z = n div ms_per_day" and "t = n mod ms_per_day"
  obtain y m d where civil: "civil_from_days z = (y, m, d)" using prod_cases3 by blast
  have z: "10957 \<le> z" "z \<le> 47846" using assms unfolding z_def by linarith+
  have y: "2000 \<le> y" "y \<le> 2100"
  proof -
    obtain era yoe doy mp where e: "era = (z + 719468) div 146097" "0 \<le> yoe" "yoe < 400" "0 \<le> doy" "doy \<le> 365"
      "yoe * 365 + yoe div 4 - yoe div 100 + doy = (z + 719468) mod 146097" "mp = (5 * doy + 2) div 153"
      "m = (if mp < 10 then mp + 3 else mp - 9)" "y = yoe + era * 400 + (if m \<le> 2 then 1 else 0)"
      by (rule civil_parts [OF civil])
    have doe: "yoe * 365 + yoe div 4 - yoe div 100 + doy + 146097 * era = z + 719468"
      unfolding e(1,6) by simp
    have q: "4 * (yoe div 4) \<le> yoe" "yoe < 4 * (yoe div 4) + 4" "0 \<le> yoe div 100" "yoe div 100 \<le> 3"
      "100 * (yoe div 100) \<le> yoe" using e(2,3) by linarith+
    have "era = 4 \<or> era = 5" using z unfolding e(1) by linarith
    then show "2000 \<le> y" "y \<le> 2100"
    proof (atomize (full), elim disjE)
      assume era: "era = 4"
      then have "399 \<le> yoe" using doe z q e(5) by linarith
      then have yoe: "yoe = 399" using e(3) by simp
      then have "306 \<le> doy" using doe era z by simp
      then have "10 \<le> mp" unfolding e(7) by linarith
      moreover have "mp \<le> 11" using e(5) unfolding e(7) by linarith
      ultimately show "2000 \<le> y \<and> y \<le> 2100" using e(8,9) yoe era by simp
    next
      assume era: "era = 5"
      then have "yoe \<le> 100" using doe z q e(4) by linarith
      moreover have "m > 2" if "yoe = 100"
      proof -
        have "doy \<le> 305" using doe z era that by simp
        then have "mp < 10" "0 \<le> mp" using e(4) unfolding e(7) by linarith+
        then show ?thesis using e(8) by simp
      qed
      ultimately show "2000 \<le> y \<and> y \<le> 2100" using e(2,9) era by (cases "yoe = 100") auto
    qed
  qed
  have t: "0 \<le> t" "t < ms_per_day" unfolding t_def by simp_all
  then have b: "0 \<le> t div 3600000" "t div 3600000 < 24" by simp_all
  show thesis
    by (rule that [of y m d "t div 3600000" "t div 60000 mod 60" "t div 1000 mod 60" "t mod 1000"])
      (use y b civil_day_bound [OF civil] days_of_civil [OF civil] real_date_of_days [OF civil] civil in
        \<open>auto simp: iso_text_def Let_def z_def t_def date_text_def year_text_def\<close>)
qed

lemma toEpoch_of_iso:
  assumes n: "min_supported_ms \<le> n" "n \<le> max_supported_ms"
  shows "toEpochMilliseconds host (JStr (iso_text n)) options = Inr (Some n)"
proof -
  obtain y m d hh mi ss ms where printed:
    "iso_text n = date_text y m d @ ''T'' @ pad_int 2 hh @ '':'' @ pad_int 2 mi @ '':'' @ pad_int 2 ss
       @ ''.'' @ pad_int 3 ms @ ''Z''"
    and y: "2000 \<le> y" "y \<le> 2100" and real: "real_date y m d" and md: "1 \<le> m" "m \<le> 12" "1 \<le> d" "d \<le> 31"
    and b: "0 \<le> hh" "hh < 24" "0 \<le> mi" "mi < 60" "0 \<le> ss" "ss < 60" "0 \<le> ms" "ms < 1000"
    by (rule iso_text_parts [OF n])
  let ?clock = "pad_int 2 hh @ '':'' @ pad_int 2 mi @ '':'' @ pad_int 2 ss @ ''.'' @ pad_int 3 ms @ ''Z''"
  have ymd: "length (pad_int 4 y) = 4" "list_all is_digit (pad_int 4 y)" using pad_int_ok [of y 4] y by simp_all
  then obtain c cs where c: "pad_int 4 y = c # cs" "is_digit c" by (cases "pad_int 4 y") auto
  have c': "\<not> is_space c" "c \<noteq> CHR ''+''" "c \<noteq> CHR ''-''" using c(2) by (auto simp: is_digit_def is_space_def)
  have trimmed: "trim (iso_text n) = iso_text n"
    unfolding printed by (rule trim_ends) (use c c' in \<open>auto simp: date_text_def is_space_def\<close>)
  have dot: "\<exists>cs. dropWhile is_digit (iso_text n) = CHR ''-'' # cs"
    unfolding printed date_text_def
    using ymd(2) by (simp add: dropWhile_append list_all_iff is_digit_def)
  have not_num: "\<not> numeric_text (iso_text n)"
  proof -
    have "\<not> starts_with ''+'' (iso_text n)" "\<not> starts_with ''-'' (iso_text n)"
      using c(1) c' by (simp_all add: printed date_text_def starts_with_def)
    with dot show ?thesis
      by (auto simp: numeric_text_def Let_def starts_with_def simp del: dropWhile_eq_Nil_conv)
  qed
  have frac: "takeWhile is_digit (pad_int 3 ms @ ''Z'') = pad_int 3 ms"
    "dropWhile is_digit (pad_int 3 ms @ ''Z'') = ''Z''" "length (pad_int 3 ms) = 3"
    using pad_int_ok [of ms 3] b by (simp_all add: takeWhile_append dropWhile_append list_all_iff is_digit_def)
  have parts: "date_only_parts (iso_text n) = Some ((pad_int 4 y, pad_int 2 m, pad_int 2 d), ''T'' @ ?clock)"
    unfolding printed using date_only_parts_text [of y m d] y md by simp
  have match: "date_time_match_of (iso_text n) = Some \<lparr>dm_date = (pad_int 4 y, pad_int 2 m, pad_int 2 d),
      dm_hour = pad_int 2 hh, dm_minute = pad_int 2 mi, dm_second = pad_int 2 ss,
      dm_fraction = pad_int 3 ms, dm_zone = ''Z''\<rparr>"
    using b frac by (simp add: date_time_match_of_def parts starts_with_def digit_run_pad Let_def del: append_Cons)
  have date: "requireDateOnly (JStr (date_text y m d)) (JObj [(''label'', JStr l)]) = Inr (date_text y m d)" for l
  proof (subst requireDateOnly_iff)
    have "trim (date_text y m d) = date_text y m d"
    proof (rule trim_ends)
      have "length (pad_int 2 d) = 2" "list_all is_digit (pad_int 2 d)" using pad_int_ok [of d 2] md by simp_all
      moreover from this(1) have "pad_int 2 d \<noteq> []" by auto
      ultimately have "is_digit (last (pad_int 2 d))" "pad_int 2 d \<noteq> []" by (auto simp: list_all_iff)
      then show "\<not> is_space (last (date_text y m d))" by (auto simp: date_text_def is_digit_def is_space_def)
    qed (use c c' in \<open>auto simp: date_text_def\<close>)
    then show "date_text y m d = trim (date_text y m d) \<and> (\<exists>y' m' d'. date_text y m d = date_text y' m' d'
        \<and> 2000 \<le> y' \<and> y' \<le> 2100 \<and> real_date y' m' d')" using y real by metis
  qed (simp_all add: jget.simps)
  have "\<bar>n\<bar> \<le> max_time" using n by (simp add: max_time_def)
  note parsed = iso_round_trip [OF this]
  have norm: "normalizeFraction (pad_int 3 ms) = ''.'' @ pad_int 3 ms" using frac(3) by (auto simp: normalizeFraction_def)
  have whole: "pad_int 4 y @ ''-'' @ pad_int 2 m @ ''-'' @ pad_int 2 d = date_text y m d" by (simp add: date_text_def)
  have ints: "text_int (pad_int 2 hh) = hh" "text_int (pad_int 2 mi) = mi" "text_int (pad_int 2 ss) = ss"
    using b by (simp_all add: text_int_pad)
  have again: "date_text y m d @ ''T'' @ pad_int 2 hh @ '':'' @ pad_int 2 mi @ '':'' @ pad_int 2 ss
      @ (''.'' @ pad_int 3 ms) @ ''Z'' = iso_text n" by (simp add: printed)
  have ne: "iso_text n \<noteq> []" using parts by (auto simp: date_only_parts_def digit_run_def)
  have read: "parseDateTimeText host (iso_text n) l a = Inr (Some (NInt n))" for l a
    unfolding parseDateTimeText_def Let_def trimmed match
    using not_num ne date b parsed [unfolded printed]
    by (simp only: option.case date_time_match.simps prod.case whole norm ints again if_False
        bind_res_simps normalizeTimezone_def date_parse_def) simp
  have "\<not> is_absent (JStr (iso_text n))" using ne by (simp add: is_absent_def)
  then show ?thesis using n
    by (simp add: toEpochMilliseconds_def Let_def read validateEpochRange_def)
qed

lemma local_midnight_read:
  assumes "dateOnlyInTimeZoneToEpochMilliseconds host v zone options = Inr n"
  shows "\<exists>y m d offset. trim (js_text v) = date_text y m d \<and> real_date y m d \<and> 2000 \<le> y \<and> y \<le> 2100
    \<and> zone_offset host (trim (js_text zone)) = Some offset
    \<and> local_seconds offset n = days_from_civil y m d * 86400
    \<and> min_supported_ms \<le> n \<and> n \<le> max_supported_ms"
proof -
  define label where "label = label_of (jget options ''label'') ''date''"
  obtain date offset where date: "requireDateOnly v (JObj [(''label'', JStr label)]) = Inr date"
    and zone: "requireTimeZone host zone (label @ '' timeZone'') = Inr offset"
    using assms by (auto simp: dateOnlyInTimeZoneToEpochMilliseconds_def label_def Let_def bind_res_Inr_iff)
  obtain raw where v: "v = JStr raw" using date by (cases v) (simp_all add: requireDateOnly_def Let_def)
  obtain y m d where t: "date = trim raw" "date = date_text y m d" and y: "2000 \<le> y" "y \<le> 2100"
    and real: "real_date y m d" using date v by (auto simp: requireDateOnly_iff)
  then have m: "1 \<le> m" "m \<le> 12" and civil: "civil_from_days (days_from_civil y m d) = (y, m, d)"
    by (auto simp: real_date_def)
  note d = civil_day_bound [OF civil]
  have p: "length (pad_int 4 y) = 4" "length (pad_int 2 m) = 2" "length (pad_int 2 d) = 2"
    using pad_int_ok [of y 4] pad_int_ok [of m 2] pad_int_ok [of d 2] y m d by simp_all
  then have ints: "text_int (take 4 date) = y" "text_int (take 2 (drop 5 date)) = m" "text_int (take 2 (drop 8 date)) = d"
    using y m d by (simp_all add: t(2) date_text_def text_int_pad numeral_eq_Suc)
  have off: "zone_offset host (trim (js_text zone)) = Some offset"
    using zone by (auto simp: requireTimeZone_def bind_res_Inr_iff requireText_def split: jsval.splits option.splits if_splits)
  define seen where "seen = local_seconds offset n"
  have at: "civil_from_days (seen div 86400) = (y, m, d)" "seen mod 86400 = 0"
    and range: "min_supported_ms \<le> n \<and> n \<le> max_supported_ms"
    using assms date zone ints unfolding seen_def
    by (auto simp: dateOnlyInTimeZoneToEpochMilliseconds_def label_def [symmetric] Let_def validateEpochRange_def
        split: if_splits option.splits)
  have "seen div 86400 = days_from_civil y m d" using days_of_civil [OF at(1)] by simp
  then have "seen = days_from_civil y m d * 86400" using at(2) by (metis add.right_neutral div_mult_mod_eq)
  then show ?thesis using v t y real off range seen_def
    by (intro exI [of _ y] exI [of _ m] exI [of _ d] exI [of _ offset]) auto
qed

text \<open>In a zone of fixed offset the loop settles after one correction.\<close>

lemma converge_fixed:
  assumes "c mod 1000 = 0" "target mod 1000 = 0"
  shows "converge (\<lambda>_. c) target (Suc (Suc k)) target = target - c"
proof -
  have "local_seconds (\<lambda>_. c) x * 1000 = x + c" if "x mod 1000 = 0" for x
  proof -
    have "1000 dvd x + c" using that assms(1) by (simp add: dvd_eq_mod_eq_0 [symmetric])
    then show ?thesis by (simp add: local_seconds_def)
  qed
  moreover have "(target - c) mod 1000 = 0"
    using assms by (simp add: dvd_eq_mod_eq_0 [symmetric])
  ultimately show ?thesis using assms(2) by (simp add: Let_def)
qed

lemma local_midnight_fixed:
  assumes zone: "plain_text z" "zone_offset host z = Some (\<lambda>_. c)" "c mod 1000 = 0"
    and date: "real_date y m d" "2000 \<le> y" "y \<le> 2100"
    and n: "n = days_from_civil y m d * ms_per_day - c" "min_supported_ms \<le> n" "n \<le> max_supported_ms"
    and v: "trim raw = date_text y m d"
  shows "dateOnlyInTimeZoneToEpochMilliseconds host (JStr raw) (JStr z) options = Inr n"
proof -
  define label where "label = label_of (jget options ''label'') ''date''"
  have civil: "civil_from_days (days_from_civil y m d) = (y, m, d)" and m: "1 \<le> m" "m \<le> 12"
    using date by (auto simp: real_date_def)
  note d = civil_day_bound [OF civil]
  have p: "length (pad_int 4 y) = 4" "length (pad_int 2 m) = 2" "length (pad_int 2 d) = 2"
    using pad_int_ok [of y 4] pad_int_ok [of m 2] pad_int_ok [of d 2] date m d by simp_all
  then have ints: "text_int (take 4 (trim raw)) = y" "text_int (take 2 (drop 5 (trim raw))) = m"
      "text_int (take 2 (drop 8 (trim raw))) = d"
    using date m d by (simp_all add: v date_text_def text_int_pad numeral_eq_Suc)
  have "requireDateOnly (JStr raw) (JObj [(''label'', JStr label)]) = Inr (trim raw)"
    using v date by (subst requireDateOnly_iff) auto
  moreover have "requireTimeZone host (JStr z) (label @ '' timeZone'') = Inr (\<lambda>_. c)"
    using zone by (simp add: requireTimeZone_def)
  moreover have "utc_day y m d = days_from_civil y m d" using utc_day_real date m by simp
  moreover have "converge (\<lambda>_. c) (days_from_civil y m d * ms_per_day) 6 (days_from_civil y m d * ms_per_day) = n"
    using converge_fixed [of c "days_from_civil y m d * ms_per_day" 4] zone(3) n(1) by (simp add: numeral_eq_Suc)
  moreover have "local_seconds (\<lambda>_. c) n = days_from_civil y m d * 86400"
    using n(1) by (simp add: local_seconds_def)
  ultimately show ?thesis using civil n
    by (simp add: dateOnlyInTimeZoneToEpochMilliseconds_def label_def [symmetric] Let_def ints validateEpochRange_def)
qed

text \<open>
  A blank text where null is allowed: the parser answers null, and the range check that follows
  rejects it.
\<close>

lemma blank_text_rejected:
  assumes "trim s = []" "s \<noteq> []" "jget options ''allowNull'' = JBool True"
  shows "\<exists>e. toEpochMilliseconds host (JStr s) options = Inl e"
  using assms by (simp add: toEpochMilliseconds_def Let_def is_absent_def parseDateTimeText_def validateEpochRange_def)

end
