(* ===== verification/Gregorian.thy ===== *)
theory Gregorian
  imports Dates
begin

text \<open>
  The calendar of the date helpers is the Gregorian one: the days that survive the round trip
  through \<open>Date.UTC\<close>, which is how the code recognises them, are exactly the days from 1 to the
  length of their month.
\<close>

definition leap :: "int \<Rightarrow> bool" where
  "leap y \<longleftrightarrow> y mod 4 = 0 \<and> (y mod 100 \<noteq> 0 \<or> y mod 400 = 0)"

definition month_length :: "int \<Rightarrow> int \<Rightarrow> int" where
  "month_length y m = (if m = 2 then if leap y then 29 else 28
     else if m = 4 \<or> m = 6 \<or> m = 9 \<or> m = 11 then 30 else 31)"

lemma leap_mod: "leap (y mod 400 + 1) = leap (y + 1)"
proof -
  have "(y mod 400 + 1) mod 400 = (y + 1) mod 400" by (simp add: mod_simps)
  moreover have "(x::int) mod 400 mod 4 = x mod 4" "x mod 400 mod 100 = x mod 100" for x
    by (simp_all add: mod_mod_cancel)
  ultimately show ?thesis unfolding leap_def by metis
qed

lemma leap_after:
  assumes "0 \<le> c" "c \<le> 3" "0 \<le> q" "q \<le> 24" "0 \<le> y" "y \<le> (3::int)"
  shows "leap (100 * c + 4 * q + y + 1) \<longleftrightarrow> y = 3 \<and> (q < 24 \<or> c = 3)"
proof -
  have four: "(100 * c + 4 * q + y + 1) mod 4 = (y + 1) mod 4"
  proof -
    have "100 * c + 4 * q + y + 1 = (y + 1) + 4 * (25 * c + q)" by simp
    then show ?thesis by (metis mod_mult_self2)
  qed
  have hundred: "(100 * c + 4 * q + y + 1) mod 100 = (4 * q + y + 1) mod 100"
  proof -
    have "100 * c + 4 * q + y + 1 = (4 * q + y + 1) + 100 * c" by simp
    then show ?thesis by (metis mod_mult_self2)
  qed
  have y4: "(y + 1) mod 4 = 0 \<longleftrightarrow> y = 3" using assms(5,6) by presburger
  have q100: "y = 3 \<Longrightarrow> (4 * q + y + 1) mod 100 = 0 \<longleftrightarrow> q = 24" using assms(3,4) by presburger
  have c400: "y = 3 \<Longrightarrow> q = 24 \<Longrightarrow> (100 * c + 4 * q + y + 1) mod 400 = 0 \<longleftrightarrow> c = 3" using assms(1,2) by presburger
  show ?thesis unfolding leap_def four hundred using y4 q100 c400 assms(4) by force
qed

lemma year_and_day_forward:
  assumes yoe: "0 \<le> yoe" "yoe < 400" and doy: "0 \<le> doy" "doy \<le> 364 \<or> doy = 365 \<and> leap (yoe + 1)"
  shows "year_and_day (yoe * 365 + yoe div 4 - yoe div 100 + doy) = (yoe, doy)"
proof -
  define c where "c = yoe div 100"
  define q where "q = (yoe - 100 * c) div 4"
  define y where "y = yoe - 100 * c - 4 * q"
  have c: "0 \<le> c" "c \<le> 3" "0 \<le> yoe - 100 * c" "yoe - 100 * c < 100" using yoe unfolding c_def by linarith+
  then have q: "0 \<le> q" "q \<le> 24" "0 \<le> y" "y \<le> 3" unfolding y_def q_def by linarith+
  have e: "yoe = 100 * c + 4 * q + y" by (simp add: y_def)
  note b = c(1,2) q
  have quarter: "yoe div 4 = 25 * c + q" "yoe div 100 = c" using b unfolding e by linarith+
  have last: "doy \<le> 364 \<or> doy = 365 \<and> y = 3 \<and> (q < 24 \<or> c = 3)"
    using doy(2) leap_after [OF b] e by auto
  define s r doe where "s = 365 * y + doy" and "r = 1461 * q + s" and "doe = 36524 * c + r"
  have doe: "yoe * 365 + yoe div 4 - yoe div 100 + doy = doe"
    unfolding doe_def r_def s_def quarter using e by simp
  have s: "0 \<le> s" "s < 1461" using b last doy(1) unfolding s_def by auto
  have "r < 36524 \<or> r = 36524 \<and> c = 3"
  proof (cases "doy \<le> 364 \<or> q < 24")
    case True
    then show ?thesis using b s unfolding r_def s_def by (elim disjE) linarith+
  next
    case False
    then have "doy = 365" "y = 3" "q = 24" "c = 3" using last b(4) by auto
    then show ?thesis by (simp add: r_def s_def)
  qed
  then have r: "0 \<le> r" "r < 36524 \<or> r = 36524 \<and> c = 3" using b s unfolding r_def by simp_all
  have "min 3 (doe div 36524) = c"
  proof (cases "r < 36524")
    case True
    with r(1) have "doe div 36524 = c" by (intro int_div_pos_eq [where r = r]) (simp_all add: doe_def)
    then show ?thesis using b by simp
  next
    case False
    then have "doe div 36524 = 4" "c = 3" using r unfolding doe_def by auto
    then show ?thesis by simp
  qed
  moreover have "r div 1461 = q" "r mod 1461 = s"
    using s by (auto intro: int_div_pos_eq [where r = s] int_mod_pos_eq [where q = q] simp: r_def)
  moreover have "min 3 (s div 365) = y"
  proof (cases "doy \<le> 364")
    case True
    with doy(1) have "s div 365 = y" by (intro int_div_pos_eq [where r = doy]) (simp_all add: s_def)
    then show ?thesis using b by simp
  next
    case False
    then have "s div 365 = 4" "y = 3" using last unfolding s_def by auto
    then show ?thesis by simp
  qed
  moreover have "doe - 36524 * c = r" by (simp add: doe_def)
  ultimately show ?thesis unfolding doe year_and_day_def Let_def by (simp add: e s_def)
qed

lemma last_day_leap:
  assumes "0 \<le> doe" "doe < 146097" "year_and_day doe = (yoe, 365)"
  shows "leap (yoe + 1)"
proof -
  define c where "c = min 3 (doe div 36524)"
  define r where "r = doe - 36524 * c"
  define q where "q = r div 1461"
  define s where "s = r mod 1461"
  define y where "y = min 3 (s div 365)"
  have yoe: "yoe = 100 * c + 4 * q + y" and doy: "365 = s - 365 * y"
    using assms(3) by (simp_all add: year_and_day_def Let_def c_def r_def q_def s_def y_def)
  have c: "0 \<le> c" "c \<le> 3" and r: "0 \<le> r" "r \<le> 36524" "c < 3 \<Longrightarrow> r < 36524"
    using assms(1,2) unfolding c_def r_def by (simp_all add: min_def split: if_splits) linarith+
  have s: "0 \<le> s" "s < 1461" and q: "0 \<le> q" "q \<le> 24" and rs: "r = 1461 * q + s"
    using r unfolding s_def q_def by simp_all
  have y: "0 \<le> y" "y \<le> 3" using s unfolding y_def by (simp_all add: min_def) linarith
  have "y = 3" using doy s y unfolding y_def by (simp add: min_def split: if_splits)
  moreover have "q < 24 \<or> c = 3"
    using doy \<open>y = 3\<close> rs r(3) c q by (cases "q < 24"; cases "c = 3") auto
  ultimately show ?thesis unfolding yoe using leap_after [OF c q y] by simp
qed

lemma month_of_day:
  assumes "0 \<le> mp" "mp \<le> (11::int)" "m = (if mp < 10 then mp + 3 else mp - 9)"
    and "1 \<le> d" "d \<le> month_length y m"
  shows "(5 * ((153 * mp + 2) div 5 + d - 1) + 2) div 153 = mp"
    and "(153 * mp + 2) div 5 + d - 1 \<le> 364 \<or> (153 * mp + 2) div 5 + d - 1 = 365 \<and> m = 2 \<and> leap y"
proof -
  have "mp = 0 \<or> mp = 1 \<or> mp = 2 \<or> mp = 3 \<or> mp = 4 \<or> mp = 5 \<or> mp = 6 \<or> mp = 7 \<or> mp = 8 \<or> mp = 9
    \<or> mp = 10 \<or> mp = 11" using assms(1,2) by arith
  then show "(5 * ((153 * mp + 2) div 5 + d - 1) + 2) div 153 = mp"
    and "(153 * mp + 2) div 5 + d - 1 \<le> 364 \<or> (153 * mp + 2) div 5 + d - 1 = 365 \<and> m = 2 \<and> leap y"
    using assms(3-5) by (auto simp: month_length_def split: if_splits)
qed

theorem real_date_gregorian: "real_date y m d \<longleftrightarrow> 1 \<le> m \<and> m \<le> 12 \<and> 1 \<le> d \<and> d \<le> month_length y m"
proof
  assume r: "real_date y m d"
  then have civil: "civil_from_days (days_from_civil y m d) = (y, m, d)" and m: "1 \<le> m" "m \<le> 12"
    by (auto simp: real_date_def)
  note d = civil_day_bound [OF civil]
  have "d \<le> month_length y m"
    using civil
  proof (elim civil_parts)
    fix era yoe doy mp :: int
    assume yd: "year_and_day ((days_from_civil y m d + 719468) mod 146097) = (yoe, doy)"
      and doy: "0 \<le> doy" "doy \<le> 365" and mp: "mp = (5 * doy + 2) div 153" "0 \<le> mp" "mp \<le> 11"
      and m': "m = (if mp < 10 then mp + 3 else mp - 9)" and y: "y = yoe + era * 400 + (if m \<le> 2 then 1 else 0)"
      and d': "d = doy - (153 * mp + 2) div 5 + 1" and yoe: "0 \<le> yoe" "yoe < 400"
    have "leap y" if "doy = 365" "m = 2"
    proof -
      have "leap (yoe + 1)" using last_day_leap [of "(days_from_civil y m d + 719468) mod 146097" yoe] yd that(1) by simp
      moreover have "leap (y mod 400)" if "leap y" using that by (auto simp: leap_def mod_mod_cancel)
      moreover have "leap (yoe + era * 400 + 1) = leap (yoe + 1)"
        using leap_mod [of "yoe + era * 400"] yoe by simp
      ultimately show ?thesis using y that(2) by simp
    qed
    moreover have "mp = 0 \<or> mp = 1 \<or> mp = 2 \<or> mp = 3 \<or> mp = 4 \<or> mp = 5 \<or> mp = 6 \<or> mp = 7 \<or> mp = 8
      \<or> mp = 9 \<or> mp = 10 \<or> mp = 11" using mp(2,3) by arith
    moreover have "5 * doy + 2 < 153 * (mp + 1)"
      using pos_mod_bound [of 153 "5 * doy + 2"] mult_div_mod_eq [of 153 "5 * doy + 2"] unfolding mp(1) by simp
    ultimately show ?thesis using d' m' doy by (elim disjE) (simp_all add: month_length_def, linarith+)
  qed
  then show "1 \<le> m \<and> m \<le> 12 \<and> 1 \<le> d \<and> d \<le> month_length y m" using m d by simp
next
  assume r: "1 \<le> m \<and> m \<le> 12 \<and> 1 \<le> d \<and> d \<le> month_length y m"
  define y' mp where "y' = (if m \<le> 2 then y - 1 else y)" and "mp = (if 2 < m then m - 3 else m + 9)"
  define yoe doy where "yoe = y' mod 400" and "doy = (153 * mp + 2) div 5 + d - 1"
  have mp: "0 \<le> mp" "mp \<le> 11" and m: "m = (if mp < 10 then mp + 3 else mp - 9)" using r by (auto simp: mp_def)
  note month = month_of_day [OF mp m, of d y, folded doy_def]
  have yoe: "0 \<le> yoe" "yoe < 400" by (simp_all add: yoe_def)
  have "leap (yoe + 1)" if "m = 2" "leap y"
    using leap_mod [of y'] that by (simp add: yoe_def y'_def)
  then have "doy \<le> 364 \<or> doy = 365 \<and> leap (yoe + 1)" using month(2) r by blast
  moreover have "0 \<le> doy" using r mp by (auto simp: doy_def)
  ultimately have yd: "year_and_day (yoe * 365 + yoe div 4 - yoe div 100 + doy) = (yoe, doy)"
    and doy: "0 \<le> doy" "doy \<le> 365" using year_and_day_forward [OF yoe] by auto
  let ?doe = "yoe * 365 + yoe div 4 - yoe div 100 + doy"
  have doe: "0 \<le> ?doe" "?doe < 146097" using yoe doy by linarith+
  have days: "days_from_civil y m d + 719468 = (y' div 400) * 146097 + ?doe"
    unfolding days_from_civil_def Let_def y'_def [symmetric] mp_def [symmetric] yoe_def [symmetric] doy_def by simp
  have "(days_from_civil y m d + 719468) div 146097 = y' div 400" "(days_from_civil y m d + 719468) mod 146097 = ?doe"
    unfolding days using doe by simp_all
  note split = this
  have mp_eq: "(5 * doy + 2) div 153 = mp" using month(1) r by simp
  have "civil_from_days (days_from_civil y m d) =
      (yoe + y' div 400 * 400 + (if m \<le> 2 then 1 else 0), m, doy - (153 * mp + 2) div 5 + 1)"
    by (simp only: civil_from_days_def Let_def split yd prod.case mp_eq m [symmetric])
  moreover have "yoe + y' div 400 * 400 + (if m \<le> 2 then 1 else 0) = y" by (simp add: yoe_def y'_def)
  moreover have "doy - (153 * mp + 2) div 5 + 1 = d" by (simp add: doy_def)
  ultimately have "civil_from_days (days_from_civil y m d) = (y, m, d)" by simp
  then show "real_date y m d" using r by (simp add: real_date_def)
qed

end
