(* ===== verification/Runtime_Config.thy ===== *)
theory Runtime_Config
  imports Dates
begin

text \<open>
  The runtime configuration of a deployment (\<open>packages/config/src\<close>): the readiness contract of a
  connector (\<open>large-account-readiness.js\<close>), the catalog of connectors (\<open>connector-catalog.js\<close>),
  their runtime state under the environment's flags (\<open>connector-runtime-config.js\<close>), the customer
  profiles (\<open>customer-profiles.js\<close>) and the metric date (\<open>metric-date-config.js\<close>). The environment
  is a value; a text with a character outside ASCII is its UTF-8 encoding.

  The guarantees: a configuration that loads is one of the two reviewed ownership pairs, whatever
  the environment holds, and every account key in it is the profile's.
\<close>

subsection \<open>Readiness for large accounts\<close>

definition invalidLargeAccountContract :: "string \<Rightarrow> jsval \<Rightarrow> jserror" where
  "invalidLargeAccountContract msg details =
     permanentError (''Invalid large-account connector contract: '' @ msg)
       ''MKT_LARGE_ACCOUNT_CONTRACT_INVALID'' details"

abbreviation field_details :: "string \<Rightarrow> (string \<times> jsval) list \<Rightarrow> jsval" where
  "field_details f rest \<equiv> JObj ((''fieldName'', JStr f) # rest)"

definition large_requireText :: "jsval \<Rightarrow> string \<Rightarrow> jserror + string" where
  "large_requireText v f = (case optionalText v of Some t \<Rightarrow> Inr t
     | None \<Rightarrow> Inl (invalidLargeAccountContract (f @ '' is required'') (field_details f [])))"

definition large_requireChoice :: "jsval \<Rightarrow> string \<Rightarrow> string list \<Rightarrow> jserror + string" where
  "large_requireChoice v f choices = bind_res (large_requireText v f) (\<lambda>t.
     if t \<in> set choices then Inr t
     else Inl (invalidLargeAccountContract (f @ '' must be one of: '' @ join '', '' choices)
            (field_details f [(''value'', JStr t)])))"

definition large_positiveInteger :: "jsval \<Rightarrow> string \<Rightarrow> jserror + int" where
  "large_positiveInteger v f = (case safe_int (js_number v) of
       Some n \<Rightarrow> if 0 < n then Inr n
         else Inl (invalidLargeAccountContract (f @ '' must be a positive integer'') (field_details f []))
     | None \<Rightarrow> Inl (invalidLargeAccountContract (f @ '' must be a positive integer'') (field_details f [])))"

definition LARGE_ACCOUNT_REQUIRED_GATES :: "string list" where
  "LARGE_ACCOUNT_REQUIRED_GATES = [''fullBackfill'', ''incrementalSync'', ''periodicFullReconciliation'',
     ''boundedPagination'', ''durableResume'', ''boundedChunking'', ''stableKeyIdempotency'',
     ''completenessAccounting'', ''rateLimitAwareRetry'', ''largeAccountFixture'', ''liveAccountUat'']"

record large_account =
  la_status :: string
  la_primaryEntity :: string
  la_minimumFixtureItems :: int
  la_gates :: "(string \<times> bool) list"
  la_missingGates :: "string list"
  la_productionReady :: bool

definition createLargeAccountReadiness :: "jsval \<Rightarrow> jserror + large_account" where
  "createLargeAccountReadiness i =
     bind_res (large_requireChoice (jget i ''status'') ''largeAccount.status''
       [''verified'', ''dev_ready'', ''foundation_ready'', ''planned'']) (\<lambda>status.
     bind_res (large_requireText (jget i ''primaryEntity'') ''largeAccount.primaryEntity'') (\<lambda>entity.
     bind_res (large_positiveInteger (jget i ''minimumFixtureItems'') ''largeAccount.minimumFixtureItems'') (\<lambda>items.
     let gates = map (\<lambda>g. (g, jget (jget i ''gates'') g = JBool True)) LARGE_ACCOUNT_REQUIRED_GATES;
         missing = map fst (filter (\<lambda>(g, ok). \<not> ok) gates);
         details = JObj [(''status'', JStr status), (''missingGates'', JArr (map JStr missing))]
     in if status = ''verified'' \<and> missing \<noteq> []
        then Inl (invalidLargeAccountContract ''verified status requires every gate'' details)
        else if status = ''dev_ready''
          \<and> (filter (\<lambda>g. g \<noteq> ''liveAccountUat'') missing \<noteq> [] \<or> ''liveAccountUat'' \<notin> set missing)
        then Inl (invalidLargeAccountContract
               ''dev_ready requires every technical/fixture gate and pending liveAccountUat'' details)
        else Inr \<lparr>la_status = status, la_primaryEntity = entity, la_minimumFixtureItems = items,
               la_gates = gates, la_missingGates = missing, la_productionReady = (status = ''verified'')\<rparr>)))"

subsection \<open>The catalog of connectors\<close>

datatype connector_status = ConnectorActive | ConnectorUatPending | ConnectorPlanned

fun connector_status_text :: "connector_status \<Rightarrow> string" where
  "connector_status_text ConnectorActive = ''active''"
| "connector_status_text ConnectorUatPending = ''uat_pending''"
| "connector_status_text ConnectorPlanned = ''planned''"

record connector_definition =
  cd_key :: string
  cd_displayName :: string
  cd_capability :: string
  cd_status :: connector_status
  cd_featureFlagEnv :: string
  cd_sourceHandleEnv :: "string option"
  cd_requiredRuntimeFields :: "string list"
  cd_largeAccount :: "jserror + large_account"

definition verifiedLargeAccount :: "string \<Rightarrow> int \<Rightarrow> jserror + large_account" where
  "verifiedLargeAccount entity items = createLargeAccountReadiness
     (JObj [(''status'', JStr ''verified''), (''primaryEntity'', JStr entity),
            (''minimumFixtureItems'', jint items),
            (''gates'', JObj (map (\<lambda>g. (g, JBool True)) LARGE_ACCOUNT_REQUIRED_GATES))])"

definition connector ::
    "string \<Rightarrow> string \<Rightarrow> string \<Rightarrow> string \<Rightarrow> string option \<Rightarrow> string \<Rightarrow> int \<Rightarrow> connector_definition" where
  "connector key name capability flag handle entity items =
     \<lparr>cd_key = key, cd_displayName = name, cd_capability = capability, cd_status = ConnectorActive,
      cd_featureFlagEnv = flag, cd_sourceHandleEnv = handle,
      cd_requiredRuntimeFields = ''accountKey'' # (if handle = None then [] else [''sourceHandle'']),
      cd_largeAccount = verifiedLargeAccount entity items\<rparr>"

definition CONNECTOR_CATALOG :: "connector_definition list" where
  "CONNECTOR_CATALOG =
     [connector ''tiktok'' ''TikTok'' ''organic_content'' ''MKT_CONNECTOR_TIKTOK_ENABLED''
        (Some ''TIKTOK_SOURCE_HANDLE'') ''videos'' 1000,
      connector ''facebook'' ''Facebook Page'' ''organic_content'' ''MKT_CONNECTOR_FACEBOOK_ENABLED'' None ''posts'' 5000,
      connector ''instagram'' ''Instagram Business'' ''organic_content'' ''MKT_CONNECTOR_INSTAGRAM_ENABLED'' None ''posts'' 2000,
      connector ''tiktok_ads'' ''TikTok Ads'' ''paid_ads'' ''MKT_CONNECTOR_TIKTOK_ADS_ENABLED'' None ''ads'' 1000,
      connector ''meta_ads'' ''Meta Ads'' ''paid_ads'' ''MKT_CONNECTOR_META_ADS_ENABLED'' None ''ads'' 5000,
      connector ''google_ads'' ''Google Ads'' ''paid_ads'' ''MKT_CONNECTOR_GOOGLE_ADS_ENABLED'' None ''ads'' 5000,
      connector ''youtube'' ''YouTube'' ''organic_content'' ''MKT_CONNECTOR_YOUTUBE_ENABLED'' None ''videos'' 1000,
      connector ''woocommerce'' ''WooCommerce'' ''commerce'' ''MKT_CONNECTOR_WOOCOMMERCE_ENABLED'' None ''orders'' 5000,
      connector ''chatwoot'' ''Chatwoot'' ''conversations'' ''MKT_CONNECTOR_CHATWOOT_ENABLED'' None ''conversations'' 5000]"

definition normalizeConnectorKey :: "jsval \<Rightarrow> jserror + string" where
  "normalizeConnectorKey v = (case optionalText v of Some t \<Rightarrow> Inr (to_lower t)
     | None \<Rightarrow> Inl (permanentError ''Connector key is required'' ''UNKNOWN_CONNECTOR'' JUndef))"

definition getConnectorCatalogEntry :: "jsval \<Rightarrow> jserror + connector_definition" where
  "getConnectorCatalogEntry v = bind_res (normalizeConnectorKey v) (\<lambda>key.
     case find (\<lambda>d. cd_key d = key) CONNECTOR_CATALOG of
       Some d \<Rightarrow> Inr d
     | None \<Rightarrow> Inl (permanentError (''Unknown connector key: '' @ key) ''UNKNOWN_CONNECTOR''
                (JObj [(''connectorKey'', JStr key)])))"

definition listConnectorKeys :: "string list" where
  "listConnectorKeys = map cd_key CONNECTOR_CATALOG"

subsection \<open>The runtime state of a connector\<close>

fun js_typeof :: "jsval \<Rightarrow> string" where
  "js_typeof JUndef = ''undefined''"
| "js_typeof (JBool _) = ''boolean''"
| "js_typeof (JNum _) = ''number''"
| "js_typeof (JStr _) = ''string''"
| "js_typeof _ = ''object''"

definition config_error :: "string \<Rightarrow> jsval \<Rightarrow> jserror" where
  "config_error msg details = permanentError msg ''MKT_RUNTIME_CONFIG_INVALID'' details"

definition invalidBoolean :: "string \<Rightarrow> jsval \<Rightarrow> jserror" where
  "invalidBoolean f v = config_error (f @ '' must be true or false'')
     (field_details f [(''valueType'', JStr (js_typeof v))])"

definition readOptionalBoolean :: "jsval \<Rightarrow> string \<Rightarrow> jserror + bool option" where
  "readOptionalBoolean v f =
     (if is_absent v then Inr None
      else case v of
        JBool b \<Rightarrow> Inr (Some b)
      | JStr s \<Rightarrow> if to_lower (trim s) = ''true'' then Inr (Some True)
          else if to_lower (trim s) = ''false'' then Inr (Some False) else Inl (invalidBoolean f v)
      | _ \<Rightarrow> Inl (invalidBoolean f v))"

definition readOptionalTextEnv :: "jsval \<Rightarrow> string \<Rightarrow> jserror + string option" where
  "readOptionalTextEnv v f =
     (let bad = config_error (f @ '' must be a non-empty string'')
            (field_details f [(''valueType'', JStr (js_typeof v))])
      in if is_absent v then Inr None
         else case v of JStr s \<Rightarrow> if trim s = [] then Inl bad else Inr (Some (trim s)) | _ \<Rightarrow> Inl bad)"

text \<open>
  The conjunctions of gates: each flag is read in turn, and the first that fails ends the
  evaluation. A gate is a flag that must be true, or one that must not be.
\<close>

fun all_gates :: "jsval \<Rightarrow> (string \<times> bool) list \<Rightarrow> jserror + bool" where
  "all_gates env [] = Inr True"
| "all_gates env ((f, want) # gates) = bind_res (readOptionalBoolean (jget env f) f) (\<lambda>b.
     if (b = Some True) = want then all_gates env gates else Inr False)"

definition protected_runtime ::
    "string list \<Rightarrow> (string \<Rightarrow> (string \<times> bool) list) \<Rightarrow> connector_definition \<Rightarrow> jsval \<Rightarrow> jserror + bool" where
  "protected_runtime keys gates d env =
     (if cd_key d \<notin> set keys \<or> cd_status d \<noteq> ConnectorUatPending then Inr False
      else if jget env ''MKT_ENV'' \<noteq> JStr ''development''
        \<or> jget env ''MKT_CUSTOMER_PROFILE'' \<noteq> JStr ''integration_workspace'' then Inr False
      else all_gates env (gates (cd_featureFlagEnv d)))"

definition isProtectedChatwootUatRuntime :: "connector_definition \<Rightarrow> jsval \<Rightarrow> jserror + bool" where
  "isProtectedChatwootUatRuntime = protected_runtime [''chatwoot'']
     (\<lambda>_. [(''MKT_CONNECTOR_CHATWOOT_ENABLED'', True), (''MKT_CHATWOOT_D1_WRITE_ENABLED'', True),
           (''MKT_SCHEDULE_CHATWOOT_ENABLED'', False), (''MKT_CHATWOOT_WEBHOOK_ENABLED'', False)])"

definition isProtectedWooCommerceUatRuntime :: "connector_definition \<Rightarrow> jsval \<Rightarrow> jserror + bool" where
  "isProtectedWooCommerceUatRuntime = protected_runtime [''woocommerce'']
     (\<lambda>_. [(''MKT_CONNECTOR_WOOCOMMERCE_ENABLED'', True), (''MKT_WOOCOMMERCE_D1_WRITE_ENABLED'', True),
           (''MKT_WOOCOMMERCE_LARK_WRITE_ENABLED'', True), (''MKT_SCHEDULE_WOOCOMMERCE_ENABLED'', False)])"

definition isProtectedMetaUatRuntime :: "connector_definition \<Rightarrow> jsval \<Rightarrow> jserror + bool" where
  "isProtectedMetaUatRuntime = protected_runtime [''facebook'', ''instagram'', ''meta_ads'']
     (\<lambda>flag. [(flag, True), (''MKT_META_SOURCE_READ_ENABLED'', True)])"

definition isProtectedGoogleAdsUatRuntime :: "connector_definition \<Rightarrow> jsval \<Rightarrow> jserror + bool" where
  "isProtectedGoogleAdsUatRuntime = protected_runtime [''google_ads'']
     (\<lambda>_. [(''MKT_GOOGLE_ADS_QUEUE_ADMISSION_ENABLED'', True), (''MKT_GOOGLE_ADS_BUSINESS_WRITE_ENABLED'', True),
           (''MKT_GOOGLE_ADS_LARK_WRITE_ENABLED'', True), (''MKT_SCHEDULE_GOOGLE_ADS_ENABLED'', False)])"

text \<open>\<open>a || b\<close> over checks that may throw.\<close>

fun any_res :: "(jserror + bool) list \<Rightarrow> jserror + bool" where
  "any_res [] = Inr False"
| "any_res (r # rs) = bind_res r (\<lambda>b. if b then Inr True else any_res rs)"

record connector_profile =
  cp_enabledByDefault :: bool
  cp_accountKey :: "string option"
  cp_sourceHandle :: "string option"
  cp_displayLabel :: "string option"

record connector_runtime =
  cr_key :: string
  cr_displayName :: string
  cr_capability :: string
  cr_status :: connector_status
  cr_featureFlagEnv :: string
  cr_sourceHandleEnv :: "string option"
  cr_enabled :: bool
  cr_enabledByEnvironment :: bool
  cr_protectedUatRuntime :: bool
  cr_accountKey :: "string option"
  cr_sourceHandle :: "string option"
  cr_sourceHandleSource :: "string option"
  cr_displayLabel :: "string option"

definition config_optionalText :: "string option \<Rightarrow> string option" where
  "config_optionalText x = (case x of Some t \<Rightarrow> if trim t = [] then None else Some (trim t) | None \<Rightarrow> None)"

fun validateRequiredRuntimeFields ::
    "connector_definition \<Rightarrow> (string \<Rightarrow> string option) \<Rightarrow> bool \<Rightarrow> string list \<Rightarrow> jserror + unit" where
  "validateRequiredRuntimeFields d present enabled [] = Inr ()"
| "validateRequiredRuntimeFields d present enabled (f # fs) =
     (if (enabled \<or> f = ''accountKey'') \<and> config_optionalText (present f) = None
      then Inl (config_error (''Missing connector runtime field '' @ cd_key d @ ''.'' @ f)
             (JObj [(''connectorKey'', JStr (cd_key d)), (''fieldName'', JStr f)]))
      else validateRequiredRuntimeFields d present enabled fs)"

definition not_ready_error :: "connector_definition \<Rightarrow> jserror" where
  "not_ready_error d =
     (let pending = (cd_status d = ConnectorUatPending)
      in permanentError (cd_displayName d @ '' connector is enabled but ''
           @ (if pending then ''Live DEV UAT is pending'' else ''its implementation is not ready''))
         (if pending then ''MKT_CONNECTOR_UAT_PENDING'' else ''MKT_CONNECTOR_NOT_IMPLEMENTED'')
         (JObj [(''connectorKey'', JStr (cd_key d)),
                (''implementationStatus'', JStr (connector_status_text (cd_status d))),
                (''featureFlagEnv'', JStr (cd_featureFlagEnv d))]))"

definition resolve_connector ::
    "(string \<times> connector_profile) list \<Rightarrow> jsval \<Rightarrow> connector_definition \<Rightarrow> jserror + connector_runtime" where
  "resolve_connector profiles env d = (case map_of profiles (cd_key d) of
       None \<Rightarrow> Inl (config_error (''profile.connectors.'' @ cd_key d @ '' must be an object'')
                 (field_details (''profile.connectors.'' @ cd_key d) []))
     | Some profile \<Rightarrow>
         bind_res (readOptionalBoolean (jget env (cd_featureFlagEnv d)) (cd_featureFlagEnv d)) (\<lambda>override.
         let enabled = (case override of Some b \<Rightarrow> b | None \<Rightarrow> cp_enabledByDefault profile) in
         bind_res (any_res [isProtectedGoogleAdsUatRuntime d env, isProtectedMetaUatRuntime d env,
             isProtectedWooCommerceUatRuntime d env, isProtectedChatwootUatRuntime d env]) (\<lambda>protect.
         if enabled \<and> cd_status d \<noteq> ConnectorActive \<and> \<not> protect then Inl (not_ready_error d)
         else
         bind_res (case cd_sourceHandleEnv d of Some e \<Rightarrow> readOptionalTextEnv (jget env e) e | None \<Rightarrow> Inr None)
           (\<lambda>handle_env.
         let account = config_optionalText (cp_accountKey profile);
             handle = (case handle_env of Some h \<Rightarrow> Some h | None \<Rightarrow> config_optionalText (cp_sourceHandle profile))
         in bind_res (validateRequiredRuntimeFields d
              (\<lambda>f. if f = ''accountKey'' then account else if f = ''sourceHandle'' then handle else None)
              enabled (cd_requiredRuntimeFields d)) (\<lambda>_.
            Inr \<lparr>cr_key = cd_key d, cr_displayName = cd_displayName d, cr_capability = cd_capability d,
                 cr_status = cd_status d, cr_featureFlagEnv = cd_featureFlagEnv d,
                 cr_sourceHandleEnv = cd_sourceHandleEnv d, cr_enabled = enabled,
                 cr_enabledByEnvironment = (override \<noteq> None), cr_protectedUatRuntime = protect,
                 cr_accountKey = account, cr_sourceHandle = handle,
                 cr_sourceHandleSource = (if handle_env \<noteq> None then Some ''environment''
                    else if handle \<noteq> None then Some ''profile'' else None),
                 cr_displayLabel = config_optionalText (cp_displayLabel profile)\<rparr>)))))"

definition resolveConnectorRuntimeConfig ::
    "(string \<times> connector_profile) list \<Rightarrow> jsval \<Rightarrow> jserror + (string \<times> connector_runtime) list" where
  "resolveConnectorRuntimeConfig profiles env =
     map_res (\<lambda>d. bind_res (resolve_connector profiles env d) (\<lambda>r. Inr (cd_key d, r))) CONNECTOR_CATALOG"

subsection \<open>Customer profiles\<close>

record customer_profile =
  pf_environment :: string
  pf_customerKey :: string
  pf_customerName :: string
  pf_resourceOwner :: string
  pf_infrastructureOwner :: "string option"
  pf_sourceAssetOwner :: "string option"
  pf_dataOwner :: "string option"
  pf_dataMode :: "string option"
  pf_businessType :: "string option"
  pf_connectors :: "(string \<times> connector_profile) list"

definition em_dash :: string where
  "em_dash = '' '' @ [CHR 0xE2, CHR 0x80, CHR 0x94] @ '' ''"

definition chemistry_connector :: "string \<Rightarrow> string option \<Rightarrow> string \<Rightarrow> string \<times> connector_profile" where
  "chemistry_connector key handle label = (key, \<lparr>cp_enabledByDefault = False,
     cp_accountKey = Some ''chemistry_k'', cp_sourceHandle = handle, cp_displayLabel = Some label\<rparr>)"

definition CUSTOMER_PROFILES :: "(string \<times> customer_profile) list" where
  "CUSTOMER_PROFILES =
     [(''integration_workspace'', \<lparr>pf_environment = ''development'', pf_customerKey = ''chemistry_k'',
        pf_customerName = ''Social MKT Data Hub'' @ em_dash @ ''Integration Workspace'',
        pf_resourceOwner = ''developer'', pf_infrastructureOwner = Some ''developer'',
        pf_sourceAssetOwner = Some ''mixed'', pf_dataOwner = Some ''mixed'',
        pf_dataMode = Some ''integration_workspace_mixed_sources'',
        pf_businessType = Some ''multi_source_marketing_integration'',
        pf_connectors =
          [chemistry_connector ''tiktok'' (Some ''chemistry_k'') (''TikTok Organic'' @ em_dash @ ''Chemistry K''),
           chemistry_connector ''facebook'' None (''Facebook Organic'' @ em_dash @ ''Chemistry K preflight pending''),
           chemistry_connector ''instagram'' None (''Instagram Organic'' @ em_dash @ ''Chemistry K preflight pending''),
           chemistry_connector ''tiktok_ads'' None (''TikTok Ads'' @ em_dash @ ''Chemistry K''),
           chemistry_connector ''meta_ads'' None (''Meta Ads'' @ em_dash @ ''Chemistry K reviewed runtime''),
           chemistry_connector ''google_ads'' None (''Google Ads'' @ em_dash @ ''Chemistry K signed delivery''),
           chemistry_connector ''youtube'' None (''YouTube Organic'' @ em_dash @ ''Chemistry K''),
           chemistry_connector ''woocommerce'' None (''WooCommerce'' @ em_dash @ ''Chemistry K pending''),
           chemistry_connector ''chatwoot'' None (''Chatwoot'' @ em_dash @ ''Chemistry K reviewed runtime'')]\<rparr>),
      (''chemistry_k'', \<lparr>pf_environment = ''production'', pf_customerKey = ''chemistry_k'',
        pf_customerName = ''Chemistry K'', pf_resourceOwner = ''customer'',
        pf_infrastructureOwner = Some ''customer'', pf_sourceAssetOwner = Some ''customer'',
        pf_dataOwner = Some ''customer'', pf_dataMode = Some ''customer_production'',
        pf_businessType = Some ''online_chemistry_course'',
        pf_connectors =
          [chemistry_connector ''tiktok'' (Some ''chemistry_k'') (''TikTok'' @ em_dash @ ''Chemistry K''),
           chemistry_connector ''facebook'' None (''Facebook'' @ em_dash @ ''Chemistry K''),
           chemistry_connector ''instagram'' None (''Instagram'' @ em_dash @ ''Chemistry K''),
           chemistry_connector ''tiktok_ads'' None (''TikTok Ads'' @ em_dash @ ''Chemistry K''),
           chemistry_connector ''meta_ads'' None (''Meta Ads'' @ em_dash @ ''Chemistry K''),
           chemistry_connector ''google_ads'' None (''Google Ads'' @ em_dash @ ''Chemistry K''),
           chemistry_connector ''youtube'' None (''YouTube'' @ em_dash @ ''Chemistry K''),
           chemistry_connector ''woocommerce'' None (''WooCommerce'' @ em_dash @ ''Chemistry K''),
           chemistry_connector ''chatwoot'' None (''Chatwoot'' @ em_dash @ ''Chemistry K'')]\<rparr>)]"

definition PROFILE_ALIASES :: "(string \<times> string) list" where
  "PROFILE_ALIASES = [(''dev_ft_pumkin'', ''integration_workspace''), (''uat_chemistry_k'', ''integration_workspace'')]"

record runtime_config =
  rc_environment :: string
  rc_profileKey :: string
  rc_requestedProfileKey :: string
  rc_compatibilityAlias :: "string option"
  rc_customerKey :: string
  rc_customerName :: string
  rc_resourceOwner :: string
  rc_infrastructureOwner :: string
  rc_sourceAssetOwner :: string
  rc_dataOwner :: string
  rc_dataMode :: "string option"
  rc_businessType :: "string option"
  rc_connectors :: "(string \<times> connector_runtime) list"

definition profile_requireText :: "jsval \<Rightarrow> string \<Rightarrow> jserror + string" where
  "profile_requireText v f = (case optionalText v of Some t \<Rightarrow> Inr t
     | None \<Rightarrow> Inl (config_error (''Missing '' @ f) (field_details f [])))"

definition profile_requireChoice :: "jsval \<Rightarrow> string \<Rightarrow> string list \<Rightarrow> jserror + string" where
  "profile_requireChoice v f choices = bind_res (profile_requireText v f) (\<lambda>t.
     if t \<in> set choices then Inr t
     else Inl (config_error (f @ '' must be one of: '' @ join '', '' choices) (field_details f [])))"

definition normalizeHandle :: "string option \<Rightarrow> string" where
  "normalizeHandle x = (case x of Some s \<Rightarrow>
       let t = trim s in to_lower (if starts_with ''@'' t then tl t else t)
     | None \<Rightarrow> [])"

definition assertLockedConnectorIdentities :: "string \<Rightarrow> (string \<times> connector_runtime) list \<Rightarrow> jserror + unit" where
  "assertLockedConnectorIdentities profileKey connectors =
     (if profileKey \<noteq> ''integration_workspace'' then Inr ()
      else let tiktok = map_of connectors ''tiktok''
           in if (case tiktok of None \<Rightarrow> True
                | Some t \<Rightarrow> cr_accountKey t \<noteq> Some ''chemistry_k''
                    \<or> normalizeHandle (cr_sourceHandle t) \<noteq> ''chemistry_k'')
              then Inl (permanentError ''Integration Workspace TikTok identity cannot be overridden''
                     ''MKT_RUNTIME_IDENTITY_OVERRIDE_BLOCKED''
                     (JObj [(''connectorKey'', JStr ''tiktok''), (''expectedAccountKey'', JStr ''chemistry_k''),
                            (''expectedSourceHandle'', JStr ''chemistry_k'')]))
              else Inr ())"

definition or_else :: "string option \<Rightarrow> string \<Rightarrow> string" where
  "or_else x d = (case x of Some s \<Rightarrow> s | None \<Rightarrow> d)"

definition loadCustomerRuntimeConfig :: "jsval \<Rightarrow> jserror + runtime_config" where
  "loadCustomerRuntimeConfig env =
     bind_res (profile_requireChoice (jget env ''MKT_ENV'') ''MKT_ENV'' [''development'', ''production'']) (\<lambda>environment.
     bind_res (profile_requireText (jget env ''MKT_CUSTOMER_PROFILE'') ''MKT_CUSTOMER_PROFILE'') (\<lambda>requested.
     let profileKey = or_else (map_of PROFILE_ALIASES requested) requested
     in case map_of CUSTOMER_PROFILES profileKey of
          None \<Rightarrow> Inl (config_error (''Unknown MKT_CUSTOMER_PROFILE='' @ requested
               @ ''. Supported profiles/aliases: ''
               @ join '', '' (map fst CUSTOMER_PROFILES @ map fst PROFILE_ALIASES))
               (field_details ''MKT_CUSTOMER_PROFILE'' [(''profileKey'', JStr requested)]))
        | Some profile \<Rightarrow>
            if pf_environment profile \<noteq> environment
            then Inl (config_error (''Invalid runtime pairing: MKT_ENV='' @ environment
                   @ '' cannot use MKT_CUSTOMER_PROFILE='' @ requested @ ''; expected MKT_ENV='' @ pf_environment profile)
                   (JObj [(''environment'', JStr environment), (''requestedProfileKey'', JStr requested),
                          (''profileKey'', JStr profileKey), (''expectedEnvironment'', JStr (pf_environment profile))]))
            else bind_res (resolveConnectorRuntimeConfig (pf_connectors profile) env) (\<lambda>connectors.
                 bind_res (assertLockedConnectorIdentities profileKey connectors) (\<lambda>_.
                 Inr \<lparr>rc_environment = environment, rc_profileKey = profileKey, rc_requestedProfileKey = requested,
                      rc_compatibilityAlias = (if requested = profileKey then None else Some requested),
                      rc_customerKey = pf_customerKey profile, rc_customerName = pf_customerName profile,
                      rc_resourceOwner = pf_resourceOwner profile,
                      rc_infrastructureOwner = or_else (pf_infrastructureOwner profile) (pf_resourceOwner profile),
                      rc_sourceAssetOwner = or_else (pf_sourceAssetOwner profile) (pf_resourceOwner profile),
                      rc_dataOwner = or_else (pf_dataOwner profile) (pf_resourceOwner profile),
                      rc_dataMode = pf_dataMode profile, rc_businessType = pf_businessType profile,
                      rc_connectors = connectors\<rparr>))))"

definition listCustomerProfiles :: "string list" where
  "listCustomerProfiles = map fst CUSTOMER_PROFILES"

definition isReviewedConnectorRuntime :: "runtime_config \<Rightarrow> bool" where
  "isReviewedConnectorRuntime c \<longleftrightarrow>
     rc_environment c = ''development'' \<and> rc_profileKey c = ''integration_workspace''
       \<and> rc_infrastructureOwner c = ''developer'' \<and> rc_customerKey c = ''chemistry_k''
   \<or> rc_environment c = ''production'' \<and> rc_profileKey c = ''chemistry_k''
       \<and> rc_infrastructureOwner c = ''customer'' \<and> rc_customerKey c = ''chemistry_k''"

subsection \<open>The metric date\<close>

text \<open>
  \<open>todayInTimeZone\<close> (\<open>packages/shared/src/date/date-only.js\<close>): the parts of the local date, the
  year counted within its era.
\<close>

definition todayInTimeZone :: "js_host \<Rightarrow> jsval \<Rightarrow> int \<Rightarrow> jserror + string" where
  "todayInTimeZone host zone now =
     bind_res (date_requireText zone ''timeZone'') (\<lambda>z.
     case zone_offset host z of
       None \<Rightarrow> Inl (range_error (''Invalid time zone specified: '' @ z))
     | Some offset \<Rightarrow>
         (let (y, m, d) = civil_from_days (local_seconds offset now div 86400)
          in Inr (int_text (if y < 1 then 1 - y else y) @ ''-'' @ pad_int 2 m @ ''-'' @ pad_int 2 d)))"

definition resolveMetricDate :: "js_host \<Rightarrow> int \<Rightarrow> jsval \<Rightarrow> jserror + string" where
  "resolveMetricDate host now i =
     (let env = jget i ''env''; override = jget i ''override''; has_override = (\<not> is_absent override);
          timezone = or_else (optionalText (jget env ''DEFAULT_TIMEZONE'')) ''Asia/Bangkok'';
          from_env = optionalText (jget env ''METRIC_DATE'');
          given = (if has_override then Some override else map_option JStr from_env);
          source = (if has_override then ''queue metricDate''
                    else if from_env \<noteq> None then ''METRIC_DATE'' else ''DEFAULT_TIMEZONE'')
      in case bind_res (case given of Some v \<Rightarrow> Inr v
                | None \<Rightarrow> bind_res (todayInTimeZone host (JStr timezone) now) (\<lambda>t. Inr (JStr t)))
              (\<lambda>v. requireDateOnly v (JObj [(''label'', JStr (if has_override then ''metricDate'' else ''METRIC_DATE''))]))
         of Inr d \<Rightarrow> Inr d
          | Inl cause \<Rightarrow> Inl (permanentError (''Invalid '' @ source @ '': '' @ err_message cause)
              (if has_override then ''INVALID_SYNC_JOB'' else ''MKT_RUNTIME_CONFIG_INVALID'')
              (field_details source [(''timezone'',
                 if from_env \<noteq> None \<or> has_override then JNull else JStr timezone)])))"

subsection \<open>Guarantees\<close>

lemma map_res_InrD: "map_res f xs = Inr ys \<Longrightarrow> list_all2 (\<lambda>x y. f x = Inr y) xs ys"
  by (induction xs arbitrary: ys) (auto simp: bind_res_Inr_iff)

lemma verified_readiness:
  "trim entity \<noteq> [] \<Longrightarrow> 0 < items \<Longrightarrow> is_safe items \<Longrightarrow>
   \<exists>l. verifiedLargeAccount entity items = Inr l \<and> la_productionReady l \<and> la_missingGates l = []"
  by (simp add: verifiedLargeAccount_def createLargeAccountReadiness_def large_requireChoice_def
      large_requireText_def large_positiveInteger_def optionalText_def LARGE_ACCOUNT_REQUIRED_GATES_def
      bind_res_def Let_def trim_def is_space_def)

lemma profile_choices: "profile_requireChoice v f cs = Inr t \<Longrightarrow> t \<in> set cs"
  by (auto simp: profile_requireChoice_def bind_res_Inr_iff split: if_splits)

lemma bind_res_elim: "bind_res r f = Inr y \<Longrightarrow> (\<And>x. f x = Inr y \<Longrightarrow> P) \<Longrightarrow> P"
  by (auto simp: bind_res_Inr_iff)

lemma checked_elim: "(if c then Inl e else m) = Inr y \<Longrightarrow> (\<not> c \<Longrightarrow> m = Inr y \<Longrightarrow> P) \<Longrightarrow> P"
  by (auto split: if_splits)

text \<open>A resolved connector: enabled only with the environment's flag, its account key the profile's.\<close>

lemma resolve_connector_InrD:
  assumes "resolve_connector profiles env d = Inr r"
  shows "\<exists>p. map_of profiles (cd_key d) = Some p \<and> cr_accountKey r = config_optionalText (cp_accountKey p)
    \<and> cr_key r = cd_key d \<and> (cr_enabled r \<longrightarrow> cp_enabledByDefault p \<or> cr_enabledByEnvironment r)
    \<and> (cr_enabled r \<longrightarrow> cd_status d = ConnectorActive \<or> cr_protectedUatRuntime r)"
proof -
  obtain p where p: "map_of profiles (cd_key d) = Some p"
    using assms by (cases "map_of profiles (cd_key d)") (simp_all add: resolve_connector_def)
  show ?thesis
    using assms unfolding resolve_connector_def p option.case Let_def
    by (elim bind_res_elim checked_elim) (auto simp: p split: option.split_asm)
qed

theorem loaded_runtime_reviewed:
  assumes "loadCustomerRuntimeConfig env = Inr c"
  shows "isReviewedConnectorRuntime c" and "map fst (rc_connectors c) = listConnectorKeys"
    and "\<forall>(k, r) \<in> set (rc_connectors c). cr_accountKey r = Some ''chemistry_k'' \<and> cr_key r = k
          \<and> (cr_enabled r \<longrightarrow> cr_enabledByEnvironment r)"
proof -
  obtain p where p: "map_of CUSTOMER_PROFILES (rc_profileKey c) = Some p"
    and env: "rc_environment c = pf_environment p"
    and con: "resolveConnectorRuntimeConfig (pf_connectors p) env = Inr (rc_connectors c)"
    and own: "rc_infrastructureOwner c = or_else (pf_infrastructureOwner p) (pf_resourceOwner p)"
      "rc_customerKey c = pf_customerKey p"
    using assms unfolding loadCustomerRuntimeConfig_def
    by (auto simp: bind_res_Inr_iff Let_def split: option.splits if_splits)
  have "rc_profileKey c \<in> {''integration_workspace'', ''chemistry_k''}"
    using map_of_SomeD [OF p] by (auto simp: CUSTOMER_PROFILES_def)
  then show "isReviewedConnectorRuntime c"
    using p env own by (auto simp: isReviewedConnectorRuntime_def CUSTOMER_PROFILES_def or_else_def)
  have each: "list_all2 (\<lambda>d kr. fst kr = cd_key d \<and> resolve_connector (pf_connectors p) env d = Inr (snd kr))
      CONNECTOR_CATALOG (rc_connectors c)"
    using map_res_InrD [OF con [unfolded resolveConnectorRuntimeConfig_def]]
    by (rule list_all2_mono) (auto simp: bind_res_Inr_iff)
  then have "list_all2 (\<lambda>d kr. fst kr = cd_key d) CONNECTOR_CATALOG (rc_connectors c)"
    by (rule list_all2_mono) simp
  then show "map fst (rc_connectors c) = listConnectorKeys"
    unfolding listConnectorKeys_def by (induction rule: list_all2_induct) simp_all
  have profiles: "cp_accountKey q = Some ''chemistry_k'' \<and> \<not> cp_enabledByDefault q"
    if "map_of (pf_connectors p) k = Some q" for k q
  proof -
    have "(k, q) \<in> set (pf_connectors p)" using that by (rule map_of_SomeD)
    moreover have "p \<in> snd ` set CUSTOMER_PROFILES" using map_of_SomeD [OF p] by force
    ultimately show ?thesis by (auto simp: CUSTOMER_PROFILES_def chemistry_connector_def)
  qed
  show "\<forall>(k, r) \<in> set (rc_connectors c). cr_accountKey r = Some ''chemistry_k'' \<and> cr_key r = k
      \<and> (cr_enabled r \<longrightarrow> cr_enabledByEnvironment r)"
  proof (clarify)
    fix k r assume "(k, r) \<in> set (rc_connectors c)"
    then obtain d where "k = cd_key d" "resolve_connector (pf_connectors p) env d = Inr r"
      using each by (auto simp: list_all2_conv_all_nth in_set_conv_nth)
    moreover have "config_optionalText (Some ''chemistry_k'') = Some ''chemistry_k''"
      by (simp add: config_optionalText_def trim_def is_space_def)
    ultimately show "cr_accountKey r = Some ''chemistry_k'' \<and> cr_key r = k
        \<and> (cr_enabled r \<longrightarrow> cr_enabledByEnvironment r)"
      using profiles by (auto dest!: resolve_connector_InrD)
  qed
qed

end
