(* ===== verification/Queue_Jobs.thy ===== *)
theory Queue_Jobs
  imports Dates
begin

text \<open>
  The messages of the job queue (\<open>packages/application/src/jobs/\<close>): the catalog of job types
  (\<open>job-catalog.js\<close>), the normalisation of a delivered message (\<open>queue-job.js\<close>) and the durable
  identity of an operation, which does not depend on the delivery (\<open>queue-operation.js\<close>).

  A message body is an object or the JSON text of one; \<open>JSON.parse\<close> is modelled for texts whose
  escapes stay within 8-bit code units. An object is its list of properties in insertion order.
\<close>

subsection \<open>JSON texts\<close>

definition skip_ws :: "string \<Rightarrow> string" where
  "skip_ws = dropWhile (\<lambda>c. c \<in> {CHR 0x20, CHR 0x09, CHR 0x0A, CHR 0x0D})"

definition hex_val :: "string \<Rightarrow> nat option" where
  "hex_val s = (case radix_val 16 0 s of NInt n \<Rightarrow> Some (nat n) | _ \<Rightarrow> None)"

definition json_escape :: "char \<Rightarrow> char option" where
  "json_escape c = map_of [(CHR 0x22, CHR 0x22), (CHR 0x5C, CHR 0x5C), (CHR ''/'', CHR ''/''),
     (CHR ''b'', CHR 0x08), (CHR ''f'', CHR 0x0C), (CHR ''n'', CHR 0x0A), (CHR ''r'', CHR 0x0D),
     (CHR ''t'', CHR 0x09)] c"

fun json_chars :: "string \<Rightarrow> (string \<times> string) option" where
  "json_chars [] = None"
| "json_chars (c # cs) =
     (if c = CHR 0x22 then Some ([], cs)
      else if c = CHR 0x5C then (case cs of
          CHR ''u'' # a # b # d # e # r \<Rightarrow> (case hex_val [a, b, d, e] of
              None \<Rightarrow> None
            | Some n \<Rightarrow> if 255 < n then None
                else map_option (\<lambda>(s, rest). (char_of n # s, rest)) (json_chars r))
        | x # r \<Rightarrow> (case json_escape x of None \<Rightarrow> None
            | Some y \<Rightarrow> map_option (\<lambda>(s, rest). (y # s, rest)) (json_chars r))
        | [] \<Rightarrow> None)
      else if c < CHR 0x20 then None
      else map_option (\<lambda>(s, rest). (c # s, rest)) (json_chars cs))"

definition json_number :: "string \<Rightarrow> (jsval \<times> string) option" where
  "json_number s =
     (let neg = starts_with ''-'' s; u = (if neg then tl s else s);
          whole = takeWhile is_digit u; r1 = dropWhile is_digit u;
          dot = starts_with ''.'' r1; frac = (if dot then takeWhile is_digit (tl r1) else []);
          r2 = (if dot then dropWhile is_digit (tl r1) else r1);
          ex = starts_with ''e'' r2 \<or> starts_with ''E'' r2;
          sg = ex \<and> (starts_with ''+'' (tl r2) \<or> starts_with ''-'' (tl r2));
          r3 = (if sg then drop 2 r2 else tl r2);
          ds = (if ex then takeWhile is_digit r3 else []);
          r4 = (if ex then dropWhile is_digit r3 else r2)
      in if whole = [] \<or> 1 < length whole \<and> hd whole = CHR ''0'' \<or> dot \<and> frac = [] \<or> ex \<and> ds = []
         then None else Some (JNum (string_number (take (length s - length r4) s)), r4))"

fun json_value :: "nat \<Rightarrow> string \<Rightarrow> (jsval \<times> string) option"
  and json_items :: "nat \<Rightarrow> string \<Rightarrow> (jsval list \<times> string) option"
  and json_members :: "nat \<Rightarrow> (string \<times> jsval) list \<Rightarrow> string \<Rightarrow> ((string \<times> jsval) list \<times> string) option"
where
  "json_value 0 s = None"
| "json_value (Suc k) s0 = (case skip_ws s0 of
       [] \<Rightarrow> None
     | c # r \<Rightarrow>
         if c = CHR ''{'' then
           (if starts_with ''}'' (skip_ws r) then Some (JObj [], tl (skip_ws r))
            else map_option (\<lambda>(m, rest). (JObj m, rest)) (json_members k [] r))
         else if c = CHR ''['' then
           (if starts_with '']'' (skip_ws r) then Some (JArr [], tl (skip_ws r))
            else map_option (\<lambda>(xs, rest). (JArr xs, rest)) (json_items k r))
         else if c = CHR 0x22 then map_option (\<lambda>(s, rest). (JStr s, rest)) (json_chars r)
         else if starts_with ''true'' (c # r) then Some (JBool True, drop 3 r)
         else if starts_with ''false'' (c # r) then Some (JBool False, drop 4 r)
         else if starts_with ''null'' (c # r) then Some (JNull, drop 3 r)
         else json_number (c # r))"
| "json_items 0 s = None"
| "json_items (Suc k) s = (case json_value k s of
       None \<Rightarrow> None
     | Some (v, r) \<Rightarrow> (case skip_ws r of
         CHR '','' # r' \<Rightarrow> map_option (\<lambda>(xs, rest). (v # xs, rest)) (json_items k r')
       | CHR '']'' # r' \<Rightarrow> Some ([v], r')
       | _ \<Rightarrow> None))"
| "json_members 0 m s = None"
| "json_members (Suc k) m s = (case skip_ws s of
       CHR 0x22 # r \<Rightarrow> (case json_chars r of
           None \<Rightarrow> None
         | Some (key, r) \<Rightarrow> (case skip_ws r of
             CHR '':'' # r \<Rightarrow> (case json_value k r of
                 None \<Rightarrow> None
               | Some (v, r) \<Rightarrow> (case skip_ws r of
                   CHR '','' # r' \<Rightarrow> json_members k (map_set key v m) r'
                 | CHR ''}'' # r' \<Rightarrow> Some (map_set key v m, r')
                 | _ \<Rightarrow> None))
           | _ \<Rightarrow> None))
     | _ \<Rightarrow> None)"

text \<open>\<open>JSON.parse\<close>: every call consumes a character or ends, so twice the length is fuel enough.\<close>

definition JSON_parse :: "string \<Rightarrow> jsval option" where
  "JSON_parse s = (case json_value (2 * length s + 2) s of
     Some (v, r) \<Rightarrow> if skip_ws r = [] then Some v else None | None \<Rightarrow> None)"

lemma json_example:
  "JSON_parse ([CHR ''{'', CHR 0x22] @ ''type'' @ [CHR 0x22] @ '': ['' @ [CHR 0x22, CHR ''a'', CHR 0x22] @ '', -12.50, true, null]}'')
   = Some (JObj [(''type'', JArr [JStr ''a'', JNum (NFrac (-125) 1), JBool True, JNull])])"
  by code_simp

subsection \<open>The job catalog\<close>

abbreviation TIKTOK_CREATOR_NATIVE_SYNC :: string where "TIKTOK_CREATOR_NATIVE_SYNC \<equiv> ''tiktok.creator.native.sync''"
abbreviation FACEBOOK_ORGANIC_SYNC :: string where "FACEBOOK_ORGANIC_SYNC \<equiv> ''facebook.page.organic.sync''"
abbreviation INSTAGRAM_ORGANIC_SYNC :: string where "INSTAGRAM_ORGANIC_SYNC \<equiv> ''instagram.business.organic.sync''"
abbreviation META_ADS_SYNC :: string where "META_ADS_SYNC \<equiv> ''meta.ads.sync''"
abbreviation TIKTOK_ADS_DAILY_SYNC :: string where "TIKTOK_ADS_DAILY_SYNC \<equiv> ''tiktok.ads.daily.sync''"
abbreviation GOOGLE_ADS_MANAGER_SIGNED_DELIVERY_PROCESS :: string where
  "GOOGLE_ADS_MANAGER_SIGNED_DELIVERY_PROCESS \<equiv> ''google.ads.manager.signed-delivery.process''"
abbreviation YOUTUBE_ORGANIC_SYNC :: string where "YOUTUBE_ORGANIC_SYNC \<equiv> ''youtube.channel.organic.sync''"
abbreviation WOOCOMMERCE_COMMERCE_SYNC :: string where "WOOCOMMERCE_COMMERCE_SYNC \<equiv> ''woocommerce.commerce.sync''"
abbreviation CHATWOOT_CONVERSATIONS_SYNC :: string where "CHATWOOT_CONVERSATIONS_SYNC \<equiv> ''chatwoot.conversations.sync''"
abbreviation REPORT_MATERIALIZATION_GENERATE :: string where
  "REPORT_MATERIALIZATION_GENERATE \<equiv> ''report.materialization.generate''"
abbreviation RELIABILITY_MIRROR_DELIVER :: string where
  "RELIABILITY_MIRROR_DELIVER \<equiv> ''system.reliability-mirror.deliver''"

datatype job_status = JobActive | JobUatPending | JobPlanned

record job_definition =
  jd_type :: string
  jd_status :: job_status
  jd_connectorKey :: "string option"
  jd_manualOnly :: bool
  jd_recoveryOnly :: bool
  jd_schemaVersion :: "int option"
  jd_allowedTriggers :: "string list option"

definition active_job :: "string \<Rightarrow> string option \<Rightarrow> string list option \<Rightarrow> job_definition" where
  "active_job ty key triggers = \<lparr>jd_type = ty, jd_status = JobActive, jd_connectorKey = key,
     jd_manualOnly = False, jd_recoveryOnly = False, jd_schemaVersion = None,
     jd_allowedTriggers = triggers\<rparr>"

definition JOB_CATALOG :: "job_definition list" where
  "JOB_CATALOG =
     [active_job ''tiktok.creator.native.probe'' (Some ''tiktok'') None,
      active_job TIKTOK_CREATOR_NATIVE_SYNC (Some ''tiktok'') None,
      active_job ''tiktok.creator.native.validate'' (Some ''tiktok'') None,
      (active_job ''tiktok.creator.native.history.bootstrap'' (Some ''tiktok'') None)\<lparr>jd_manualOnly := True\<rparr>,
      (active_job ''tiktok.creator.native.history.recover'' (Some ''tiktok'') None)
        \<lparr>jd_manualOnly := True, jd_recoveryOnly := True\<rparr>,
      active_job ''metric.definitions.seed'' None None,
      active_job ''report.settings.seed'' None None,
      active_job FACEBOOK_ORGANIC_SYNC (Some ''facebook'') (Some [''manual_uat'', ''scheduled'']),
      active_job INSTAGRAM_ORGANIC_SYNC (Some ''instagram'') (Some [''manual_uat'', ''scheduled'']),
      active_job TIKTOK_ADS_DAILY_SYNC (Some ''tiktok_ads'') (Some [''production_connector_uat'', ''scheduled'']),
      active_job META_ADS_SYNC (Some ''meta_ads'') (Some [''manual_uat'', ''scheduled'']),
      active_job GOOGLE_ADS_MANAGER_SIGNED_DELIVERY_PROCESS (Some ''google_ads'') None,
      active_job YOUTUBE_ORGANIC_SYNC (Some ''youtube'') None,
      active_job WOOCOMMERCE_COMMERCE_SYNC (Some ''woocommerce'')
        (Some [''manual_uat'', ''scheduled'', ''production_connector_uat'']),
      (active_job CHATWOOT_CONVERSATIONS_SYNC (Some ''chatwoot'')
        (Some [''chatwoot_initial_30_day_uat'', ''chatwoot_daily_incremental'',
          ''chatwoot_scheduled_daily'', ''chatwoot_reporting_daily_reprojection'']))\<lparr>jd_schemaVersion := Some 1\<rparr>,
      (active_job ''sync.reconcile'' None None)\<lparr>jd_status := JobPlanned\<rparr>,
      active_job ''report.daily.generate'' (Some ''tiktok'') None,
      active_job ''report.weekly.generate'' (Some ''tiktok'') None,
      active_job REPORT_MATERIALIZATION_GENERATE None
        (Some [''dashboard_preset'', ''dashboard_custom_range'', ''dashboard_scheduled'']),
      active_job ''lark.mkt-content-daily.retention'' None (Some [''mkt_content_daily_retention_scheduled'']),
      active_job ''lark.bounded-daily.retention'' None (Some [''lark_bounded_daily_retention_scheduled'']),
      (active_job ''lark.base.view.hygiene'' None (Some [''customer_lark_empty_fields'']))\<lparr>jd_manualOnly := True\<rparr>,
      (active_job ''lark.meta-k2.snapshot.import'' None (Some [''customer_meta_k2_snapshot_import'']))
        \<lparr>jd_manualOnly := True\<rparr>,
      (active_job ''lark.customer-d1.snapshot.import'' None (Some [''customer_d1_snapshot_import'']))
        \<lparr>jd_manualOnly := True\<rparr>,
      (active_job ''lark.customer-tiktok.snapshot.import'' None (Some [''customer_tiktok_snapshot_import'']))
        \<lparr>jd_manualOnly := True\<rparr>,
      (active_job ''lark.notification.send'' None
        (Some [''lark_notification_controlled_uat'', ''lark_notification_runtime'']))
        \<lparr>jd_manualOnly := True, jd_schemaVersion := Some 1\<rparr>,
      active_job ''system.dead-letter.redrive'' None None,
      active_job RELIABILITY_MIRROR_DELIVER None None]"

definition requireJobType :: "jsval \<Rightarrow> jserror + string" where
  "requireJobType v = (case optionalText v of
       Some t \<Rightarrow> Inr t
     | None \<Rightarrow> Inl (permanentError ''Sync worker requires job.type'' ''INVALID_SYNC_JOB''
         (JObj [(''fieldName'', JStr ''job.type'')])))"

definition getJobDefinition :: "jsval \<Rightarrow> jserror + job_definition" where
  "getJobDefinition v = bind_res (requireJobType v) (\<lambda>ty.
     case find (\<lambda>d. jd_type d = ty) JOB_CATALOG of
       Some d \<Rightarrow> Inr d
     | None \<Rightarrow> Inl (permanentError (''Unsupported sync job type: '' @ ty) ''UNSUPPORTED_SYNC_JOB''
         (JObj [(''type'', JStr ty)])))"

definition assertJobImplemented :: "job_definition option \<Rightarrow> jserror + job_definition" where
  "assertJobImplemented d = (case d of
       Some x \<Rightarrow> if jd_status x = JobActive then Inr x
         else Inl (permanentError
           (''Sync job is registered but '' @ (if jd_status x = JobUatPending then ''Live DEV UAT is pending''
              else ''not implemented'') @ '': '' @ jd_type x)
           (if jd_status x = JobUatPending then ''SYNC_JOB_UAT_PENDING'' else ''SYNC_JOB_NOT_IMPLEMENTED'')
           (JObj [(''type'', JStr (jd_type x)), (''connectorKey'', jopt (jd_connectorKey x))]))
     | None \<Rightarrow> Inl (permanentError ''Sync job is registered but not implemented: unknown''
         ''SYNC_JOB_NOT_IMPLEMENTED'' (JObj [(''type'', JNull), (''connectorKey'', JNull)])))"

definition listJobDefinitions :: "job_definition list" where
  "listJobDefinitions = JOB_CATALOG"

subsection \<open>Delivered messages\<close>

record queue_message =
  qm_id :: jsval
  qm_body :: jsval
  qm_attempts :: jsval

record queue_job =
  jb_id :: "string option"
  jb_schemaVersion :: int
  jb_body :: jsval
  jb_receivedAt :: string
  jb_requestedAt :: "string option"

definition invalid_job :: "string \<Rightarrow> jsval \<Rightarrow> jserror" where
  "invalid_job msg details = permanentError msg ''INVALID_SYNC_JOB'' details"

definition parseQueueBody :: "jsval \<Rightarrow> jserror + jsval" where
  "parseQueueBody v =
     bind_res (case nullish v (JObj []) of
         JStr s \<Rightarrow> (case JSON_parse s of Some x \<Rightarrow> Inr x
           | None \<Rightarrow> Inl (invalid_job ''Sync queue message body is not valid JSON'' JUndef))
       | x \<Rightarrow> Inr x)
     (\<lambda>body. if is_object body then Inr body
        else Inl (invalid_job ''Sync queue message body must be an object'' JUndef))"

definition invalidSchemaVersion :: "jsval \<Rightarrow> jserror" where
  "invalidSchemaVersion v = permanentError (''Unsupported sync job schemaVersion: '' @ js_text v)
     ''INVALID_SYNC_JOB_SCHEMA_VERSION'' (JObj [(''schemaVersion'', nullish v JNull)])"

definition readSchemaVersion :: "jsval \<Rightarrow> jserror + int" where
  "readSchemaVersion v =
     (let version = (if is_absent v then Some (NInt 1) else case v of
            JNum n \<Rightarrow> Some n
          | JStr s \<Rightarrow> if trim s \<noteq> [] \<and> list_all is_digit (trim s) then Some (string_number (trim s)) else None
          | _ \<Rightarrow> None)
      in if version = Some (NInt 1) then Inr 1 else Inl (invalidSchemaVersion v))"

text \<open>\<open>new Date(value)\<close>: \<open>None\<close> is an invalid date.\<close>

definition to_date :: "js_host \<Rightarrow> jsval \<Rightarrow> int option" where
  "to_date host v =
     (let clip = (\<lambda>x. case x of Some n \<Rightarrow> if \<bar>n\<bar> \<le> max_time then Some n else None | None \<Rightarrow> None)
      in case v of
        JStr s \<Rightarrow> clip (date_parse host s)
      | JArr _ \<Rightarrow> clip (date_parse host (js_text v))
      | JObj _ \<Rightarrow> clip (date_parse host (js_text v))
      | _ \<Rightarrow> clip (js_trunc (js_number v)))"

definition job_normalizeDate :: "js_host \<Rightarrow> jsval \<Rightarrow> string \<Rightarrow> jserror + string" where
  "job_normalizeDate host v f = (case to_date host v of
       Some n \<Rightarrow> Inr (iso_text n)
     | None \<Rightarrow> Inl (invalid_job (''Invalid sync job '' @ f) (JObj [(''fieldName'', JStr f)])))"

definition job_normalizeOptionalText :: "jsval \<Rightarrow> string option" where
  "job_normalizeOptionalText v = (if is_nullish v then None
     else if trim (js_text v) = [] then None else Some (trim (js_text v)))"

definition normalizeQueueJobMessage :: "js_host \<Rightarrow> queue_message \<Rightarrow> int \<Rightarrow> jserror + queue_job" where
  "normalizeQueueJobMessage host msg now =
     bind_res (parseQueueBody (qm_body msg)) (\<lambda>body.
     bind_res (readSchemaVersion (jget body ''schemaVersion'')) (\<lambda>version.
     bind_res (job_normalizeDate host (jint now) ''receivedAt'') (\<lambda>received.
     bind_res (if is_nullish (jget body ''requestedAt'') then Inr None
               else bind_res (job_normalizeDate host (jget body ''requestedAt'') ''requestedAt'') (\<lambda>d. Inr (Some d)))
     (\<lambda>requested.
     let b1 = jput ''schemaVersion'' (jint version) body;
         b2 = (case requested of Some d \<Rightarrow> jput ''requestedAt'' (JStr d) b1 | None \<Rightarrow> b1)
     in Inr \<lparr>jb_id = job_normalizeOptionalText (qm_id msg), jb_schemaVersion = version, jb_body = b2,
             jb_receivedAt = received, jb_requestedAt = requested\<rparr>))))"

subsection \<open>The durable identity of an operation\<close>

record operation_contract =
  oc_prefix :: string
  oc_scopeField :: "string option"
  oc_safeId :: bool

definition contract :: "string \<Rightarrow> operation_contract" where
  "contract p = \<lparr>oc_prefix = p, oc_scopeField = None, oc_safeId = False\<rparr>"

definition STABLE_OPERATION_CONTRACTS :: "(string \<times> operation_contract) list" where
  "STABLE_OPERATION_CONTRACTS =
     [(TIKTOK_ADS_DAILY_SYNC, (contract ''tiktok_ads'')\<lparr>oc_safeId := True\<rparr>),
      (''tiktok.creator.native.history.bootstrap'', contract ''tiktok''),
      (''tiktok.creator.native.history.recover'', contract ''tiktok''),
      (GOOGLE_ADS_MANAGER_SIGNED_DELIVERY_PROCESS, contract ''google_ads''),
      (FACEBOOK_ORGANIC_SYNC, contract ''facebook''),
      (INSTAGRAM_ORGANIC_SYNC, contract ''instagram''),
      (META_ADS_SYNC, (contract ''meta_ads'')\<lparr>oc_scopeField := Some ''sourceAccountKey''\<rparr>),
      (WOOCOMMERCE_COMMERCE_SYNC, contract ''woocommerce''),
      (CHATWOOT_CONVERSATIONS_SYNC, (contract ''chatwoot'')\<lparr>oc_scopeField := Some ''accountKey''\<rparr>),
      (''lark.notification.send'', (contract ''lark_notification'')\<lparr>oc_safeId := True\<rparr>),
      (''lark.meta-k2.snapshot.import'', (contract ''lark_meta_k2'')\<lparr>oc_safeId := True\<rparr>),
      (''lark.customer-d1.snapshot.import'', (contract ''lark_customer_d1'')\<lparr>oc_safeId := True\<rparr>),
      (''lark.customer-tiktok.snapshot.import'', (contract ''lark_customer_tiktok'')\<lparr>oc_safeId := True\<rparr>),
      (''lark.mkt-content-daily.retention'', contract ''mkt_content_daily''),
      (''lark.bounded-daily.retention'', contract ''lark_bounded_daily'')]"

definition resolveStableOperationContract :: "string option \<Rightarrow> jsval \<Rightarrow> operation_contract option" where
  "resolveStableOperationContract ty body =
     (let trigger = jget body ''trigger''; safe = (\<lambda>p. Some ((contract p)\<lparr>oc_safeId := True\<rparr>)) in
      if ty = Some TIKTOK_CREATOR_NATIVE_SYNC \<and> trigger = JStr ''production_connector_uat''
      then Some (contract ''tiktok'')
      else if ty = Some REPORT_MATERIALIZATION_GENERATE \<and> trigger = JStr ''dashboard_scheduled''
      then Some (contract ''report'')
      else if ty = Some TIKTOK_CREATOR_NATIVE_SYNC \<and> trigger = JStr ''post_lark_watermark''
      then Some (contract ''tiktok'')
      else if ty = Some YOUTUBE_ORGANIC_SYNC \<and> trigger = JStr ''youtube_worker_dry_run''
        \<and> jget body ''dryRun'' = JBool True
      then safe ''youtube''
      else if ty = Some YOUTUBE_ORGANIC_SYNC \<and> trigger = JStr ''youtube_lark_full_sync_uat''
        \<and> jget body ''dryRun'' = JBool False \<and> jget body ''syncMode'' = JStr ''full''
        \<and> jget body ''analyticsEnabled'' = JBool False
      then safe ''youtube''
      else if ty = Some YOUTUBE_ORGANIC_SYNC \<and> trigger = JStr ''production_connector_uat''
        \<and> jget body ''dryRun'' = JBool False
      then safe ''youtube''
      else if ty = Some YOUTUBE_ORGANIC_SYNC \<and> trigger = JStr ''scheduled''
      then safe ''youtube''
      else case ty of Some t \<Rightarrow> map_of STABLE_OPERATION_CONTRACTS t | None \<Rightarrow> None)"

definition identity_error :: "string \<Rightarrow> string \<Rightarrow> jserror" where
  "identity_error msg f = permanentError msg ''QUEUE_OPERATION_IDENTITY_INVALID''
     (JObj [(''fieldName'', JStr f)])"

definition op_requireText :: "jsval \<Rightarrow> string \<Rightarrow> jserror + string" where
  "op_requireText v f = (case optionalText v of Some t \<Rightarrow> Inr t
     | None \<Rightarrow> Inl (identity_error (''Queue operation requires '' @ f) f))"

definition slug_char :: "char \<Rightarrow> bool" where
  "slug_char c \<longleftrightarrow> is_lower_char c \<or> is_digit c"

text \<open>The pattern \<open>^[a-z0-9][a-z0-9_-]{0,n}$\<close>.\<close>

definition safe_slug :: "nat \<Rightarrow> string \<Rightarrow> bool" where
  "safe_slug n s \<longleftrightarrow> s \<noteq> [] \<and> slug_char (hd s)
     \<and> list_all (\<lambda>c. slug_char c \<or> c = CHR ''_'' \<or> c = CHR ''-'') (tl s) \<and> length s \<le> Suc n"

definition normalizeOperationId :: "jsval \<Rightarrow> operation_contract \<Rightarrow> jserror + string" where
  "normalizeOperationId v c = bind_res (op_requireText v ''operationId'') (\<lambda>source.
     if \<not> oc_safeId c then Inr source
     else if safe_slug 95 (to_lower source) then Inr (to_lower source)
     else Inl (identity_error ''Queue operationId has an unsafe format'' ''operationId''))"

definition normalizeOperationScope :: "jsval \<Rightarrow> string \<Rightarrow> jserror + string" where
  "normalizeOperationScope v f = bind_res (op_requireText v f) (\<lambda>t.
     if safe_slug 63 (to_lower t) then Inr (to_lower t)
     else Inl (permanentError (''Queue operation requires valid '' @ f) ''QUEUE_OPERATION_SCOPE_INVALID''
       (JObj [(''fieldName'', JStr f)])))"

definition buildStableWorkKey :: "operation_contract \<Rightarrow> jsval \<Rightarrow> string \<Rightarrow> jserror + string" where
  "buildStableWorkKey c body operationId = (case oc_scopeField c of
       None \<Rightarrow> Inr (join '':'' [oc_prefix c, operationId])
     | Some f \<Rightarrow> bind_res (normalizeOperationScope (jget body f) f) (\<lambda>scope.
         Inr (join '':'' [oc_prefix c, scope, operationId])))"

definition invalidTimestamp :: "string \<Rightarrow> jsval \<Rightarrow> jserror" where
  "invalidTimestamp f v = permanentError (''Queue operation requires valid '' @ f)
     ''QUEUE_OPERATION_IDENTITY_INVALID'' (JObj [(''fieldName'', JStr f), (''value'', nullish v JNull)])"

definition op_normalizeTimestamp :: "js_host \<Rightarrow> jsval \<Rightarrow> string \<Rightarrow> bool \<Rightarrow> jserror + int option" where
  "op_normalizeTimestamp host v f required =
     (if is_absent v then (if required then Inl (invalidTimestamp f v) else Inr None)
      else case (case v of JNum n \<Rightarrow> safe_int n
             | _ \<Rightarrow> (case date_parse host (js_text v) of Some n \<Rightarrow> safe_int (NInt n) | None \<Rightarrow> None)) of
        Some n \<Rightarrow> if n < min_supported_ms then Inl (invalidTimestamp f v) else Inr (Some n)
      | None \<Rightarrow> Inl (invalidTimestamp f v))"

record queue_operation =
  qo_operationId :: "string option"
  qo_workKey :: "string option"
  qo_generation :: "int option"
  qo_originalRequestedAt :: "int option"
  qo_stable :: bool

definition split_dot :: "string \<Rightarrow> string" where
  "split_dot s = takeWhile (\<lambda>c. c \<noteq> CHR ''.'') s"

definition op_platformFromJobType :: "string \<Rightarrow> string" where
  "op_platformFromJobType ty =
     (if starts_with ''tiktok.ads.'' ty then ''tiktok_ads''
      else if starts_with ''report.'' ty then ''tiktok''
      else if starts_with ''google.ads.'' ty then ''google_ads''
      else if starts_with ''meta.ads.'' ty then ''meta_ads''
      else if split_dot ty \<in> {''facebook'', ''instagram'', ''tiktok'', ''youtube'', ''woocommerce'', ''chatwoot''}
      then split_dot ty else ''system'')"

definition resolveQueueOperation :: "js_host \<Rightarrow> queue_job \<Rightarrow> queue_message \<Rightarrow> jserror + queue_operation" where
  "resolveQueueOperation host job msg =
     (let body = jb_body job; ty = optionalText (jget body ''type'');
          contr = resolveStableOperationContract ty body; stable = (contr \<noteq> None)
      in bind_res (op_normalizeTimestamp host
           (nullish (nullish (jget body ''originalRequestedAt'') (jget body ''requestedAt'')) (jopt (jb_requestedAt job)))
           ''originalRequestedAt'' stable) (\<lambda>requestedAt.
         bind_res (op_normalizeTimestamp host (nullish (jget body ''generation'') (jopt_int requestedAt))
           ''generation'' stable) (\<lambda>generation.
         let operationId = optionalText (jget body ''operationId'');
             explicitWorkKey = optionalText (jget body ''workKey'')
         in case contr of
           Some c \<Rightarrow>
             bind_res (normalizeOperationId (jopt operationId) c) (\<lambda>stableId.
             bind_res (buildStableWorkKey c body stableId) (\<lambda>derived.
             if explicitWorkKey \<noteq> None \<and> explicitWorkKey \<noteq> Some derived
             then Inl (permanentError ''Queue workKey does not match stable operationId''
               ''QUEUE_OPERATION_IDENTITY_MISMATCH'' (JObj [(''type'', jopt ty), (''workKey'', jopt explicitWorkKey)]))
             else if generation \<noteq> requestedAt
             then Inl (permanentError ''Stable Queue generation must equal original requestedAt''
               ''QUEUE_OPERATION_GENERATION_MISMATCH'' (JObj [(''type'', jopt ty),
                 (''generation'', jopt_int generation), (''originalRequestedAt'', jopt_int requestedAt)]))
             else Inr \<lparr>qo_operationId = Some stableId, qo_workKey = Some derived, qo_generation = generation,
                       qo_originalRequestedAt = requestedAt, qo_stable = True\<rparr>))
         | None \<Rightarrow>
             let fallback = optionalText (qm_id msg) in
             Inr \<lparr>qo_operationId = operationId,
                  qo_workKey = (case explicitWorkKey of Some k \<Rightarrow> Some k | None \<Rightarrow>
                     (case (fallback, ty) of
                        (Some i, Some t) \<Rightarrow> Some (op_platformFromJobType t @ '':'' @ i) | _ \<Rightarrow> None)),
                  qo_generation = generation, qo_originalRequestedAt = requestedAt,
                  qo_stable = (operationId \<noteq> None \<and> explicitWorkKey \<noteq> None)\<rparr>)))"

definition withQueueOperation :: "js_host \<Rightarrow> jsval \<Rightarrow> jsval \<Rightarrow> jserror + jsval" where
  "withQueueOperation host body operation =
     bind_res (op_requireText (jget body ''type'') ''body.type'') (\<lambda>ty.
     case resolveStableOperationContract (Some ty) body of
       None \<Rightarrow> Inl (permanentError ''Cannot serialize an unsupported stable Queue operation''
         ''QUEUE_OPERATION_IDENTITY_INVALID'' (JObj [(''type'', JStr ty)]))
     | Some c \<Rightarrow>
         bind_res (normalizeOperationId (jget operation ''operationId'') c) (\<lambda>operationId.
         bind_res (op_requireText (jget operation ''workKey'') ''operation.workKey'') (\<lambda>workKey.
         bind_res (op_normalizeTimestamp host (jget operation ''generation'') ''operation.generation'' True)
           (\<lambda>generation.
         bind_res (op_normalizeTimestamp host (jget operation ''originalRequestedAt'')
           ''operation.originalRequestedAt'' True) (\<lambda>requested.
         bind_res (buildStableWorkKey c body operationId) (\<lambda>derived.
         if workKey \<noteq> derived \<or> generation \<noteq> requested
         then Inl (permanentError ''Cannot serialize an inconsistent durable Queue operation''
           ''QUEUE_OPERATION_IDENTITY_MISMATCH'' JUndef)
         else if max_time < the requested then Inl (range_error ''Invalid time value'')
         else Inr (jput ''requestedAt'' (JStr (iso_text (the requested)))
               (jput ''originalRequestedAt'' (jopt_int requested)
               (jput ''generation'' (jopt_int generation)
               (jput ''workKey'' (JStr workKey)
               (jput ''operationId'' (JStr operationId) body)))))))))))"

definition createStableQueueOperationBody :: "js_host \<Rightarrow> jsval \<Rightarrow> jsval \<Rightarrow> jserror + jsval" where
  "createStableQueueOperationBody host body input =
     bind_res (op_requireText (jget body ''type'') ''body.type'') (\<lambda>ty.
     case resolveStableOperationContract (Some ty) body of
       None \<Rightarrow> Inl (permanentError ''Cannot create an unsupported stable Queue operation''
         ''QUEUE_OPERATION_IDENTITY_INVALID'' (JObj [(''type'', JStr ty)]))
     | Some c \<Rightarrow>
         bind_res (normalizeOperationId (jget input ''operationId'') c) (\<lambda>operationId.
         bind_res (op_normalizeTimestamp host
           (nullish (jget input ''originalRequestedAt'') (jget input ''requestedAt''))
           ''originalRequestedAt'' True) (\<lambda>requested.
         bind_res (buildStableWorkKey c body operationId) (\<lambda>workKey.
         withQueueOperation host body (JObj [(''operationId'', JStr operationId),
           (''workKey'', JStr workKey), (''generation'', jopt_int requested),
           (''originalRequestedAt'', jopt_int requested)])))))"

definition isStableOperationJobType :: "string option \<Rightarrow> jsval \<Rightarrow> bool" where
  "isStableOperationJobType ty body \<longleftrightarrow> resolveStableOperationContract ty body \<noteq> None"

subsection \<open>Guarantees\<close>

lemma optionalText_SomeD: "optionalText v = Some t \<Longrightarrow> plain_text t \<and> (\<exists>s. v = JStr s)"
  by (auto simp: optionalText_def plain_text_def split: jsval.splits if_splits)

lemma optionalText_plain [simp]: "plain_text t \<Longrightarrow> optionalText (JStr t) = Some t"
  by (simp add: optionalText_def plain_text_def)

lemma op_requireText_InrD: "op_requireText v f = Inr t \<Longrightarrow> optionalText v = Some t"
  by (auto simp: op_requireText_def split: option.splits)

lemma lower_slug_char: "slug_char c \<or> c = CHR ''_'' \<or> c = CHR ''-'' \<Longrightarrow> lower_char c = c \<and> \<not> is_space c"
proof -
  assume "slug_char c \<or> c = CHR ''_'' \<or> c = CHR ''-''"
  then have "\<not> is_upper_char c"
    by (auto simp: slug_char_def is_lower_char_def is_digit_def is_upper_char_def less_eq_char_def)
  moreover have "\<not> is_space c"
    using \<open>slug_char c \<or> _\<close> by (auto simp: slug_char_def is_lower_char_def is_digit_def is_space_def less_eq_char_def)
  ultimately show ?thesis by (simp add: lower_char_def)
qed

lemma safe_slug_chars: "safe_slug n s \<Longrightarrow> c \<in> set s \<Longrightarrow> slug_char c \<or> c = CHR ''_'' \<or> c = CHR ''-''"
  by (cases s) (auto simp: safe_slug_def list_all_iff)

lemma safe_slug_fixed:
  assumes "safe_slug n s"
  shows "to_lower s = s" "plain_text s"
proof -
  have c: "lower_char c = c \<and> \<not> is_space c" if "c \<in> set s" for c
    using lower_slug_char safe_slug_chars [OF assms that] by blast
  then show "to_lower s = s" by (simp add: to_lower_def map_idI)
  have "s \<noteq> []" using assms by (simp add: safe_slug_def)
  then show "plain_text s" using c trim_ends [of s] by (simp add: plain_text_def)
qed

lemma normalizeOperationId_idem:
  "normalizeOperationId v c = Inr i \<Longrightarrow> normalizeOperationId (JStr i) c = Inr i \<and> plain_text i"
proof -
  assume "normalizeOperationId v c = Inr i"
  then obtain source where "op_requireText v ''operationId'' = Inr source"
    and i: "if oc_safeId c then safe_slug 95 (to_lower source) \<and> i = to_lower source else i = source"
    by (auto simp: normalizeOperationId_def bind_res_Inr_iff split: if_splits)
  then have "plain_text source" using op_requireText_InrD optionalText_SomeD by blast
  then have p: "plain_text i" using i safe_slug_fixed(2) by (cases "oc_safeId c") auto
  then show ?thesis using i safe_slug_fixed(1) [of 95 "to_lower source"]
    by (cases "oc_safeId c") (simp_all add: normalizeOperationId_def op_requireText_def)
qed

lemma contract_scope:
  "resolveStableOperationContract ty body = Some c \<Longrightarrow>
   oc_scopeField c \<in> {None, Some ''sourceAccountKey'', Some ''accountKey''}"
  by (auto simp: resolveStableOperationContract_def STABLE_OPERATION_CONTRACTS_def contract_def Let_def
      dest!: map_of_SomeD split: if_splits option.splits)

lemma resolve_cong:
  assumes "\<And>f. f \<in> {''trigger'', ''dryRun'', ''syncMode'', ''analyticsEnabled''} \<Longrightarrow> jget b f = jget b' f"
  shows "resolveStableOperationContract ty b = resolveStableOperationContract ty b'"
  using assms by (simp add: resolveStableOperationContract_def Let_def)

text \<open>What a serialised operation says about itself.\<close>

definition carries :: "jsval \<Rightarrow> operation_contract \<Rightarrow> string \<Rightarrow> string \<Rightarrow> int \<Rightarrow> bool" where
  "carries b c i k g \<longleftrightarrow> is_object b
     \<and> (\<exists>ty. optionalText (jget b ''type'') = Some ty \<and> resolveStableOperationContract (Some ty) b = Some c)
     \<and> jget b ''operationId'' = JStr i \<and> normalizeOperationId (JStr i) c = Inr i
     \<and> jget b ''workKey'' = JStr k \<and> plain_text k \<and> buildStableWorkKey c b i = Inr k
     \<and> jget b ''generation'' = jint g \<and> jget b ''originalRequestedAt'' = jint g
     \<and> jget b ''requestedAt'' = JStr (iso_text g) \<and> min_supported_ms \<le> g \<and> g \<le> max_time"

lemma op_normalizeTimestamp_InrD:
  "op_normalizeTimestamp host v f True = Inr x \<Longrightarrow> \<exists>g. x = Some g \<and> min_supported_ms \<le> g \<and> is_safe g"
proof -
  assume ok: "op_normalizeTimestamp host v f True = Inr x"
  define y where "y = (case v of JNum n \<Rightarrow> safe_int n
    | _ \<Rightarrow> (case date_parse host (js_text v) of Some n \<Rightarrow> safe_int (NInt n) | None \<Rightarrow> None))"
  have "is_safe g" if "y = Some g" for g
    using that unfolding y_def by (cases v) (auto dest!: safe_int_SomeD split: option.splits)
  with ok show ?thesis
    unfolding op_normalizeTimestamp_def y_def [symmetric] by (auto split: if_splits option.splits)
qed

lemma op_normalizeTimestamp_jint:
  "is_safe g \<Longrightarrow> min_supported_ms \<le> g \<Longrightarrow> op_normalizeTimestamp host (jint g) f r = Inr (Some g)"
  by (simp add: op_normalizeTimestamp_def is_absent_def)

lemma withQueueOperation_carries:
  assumes "withQueueOperation host body operation = Inr b"
  shows "\<exists>c i k g. carries b c i k g \<and> optionalText (jget operation ''workKey'') = Some k
    \<and> (\<forall>f. f \<notin> {''operationId'', ''workKey'', ''generation'', ''originalRequestedAt'', ''requestedAt''}
         \<longrightarrow> jget b f = jget body f)"
proof -
  obtain ty c i k g where ty: "optionalText (jget body ''type'') = Some ty"
    and c: "resolveStableOperationContract (Some ty) body = Some c"
    and i: "normalizeOperationId (jget operation ''operationId'') c = Inr i"
    and k: "op_requireText (jget operation ''workKey'') ''operation.workKey'' = Inr k"
      "buildStableWorkKey c body i = Inr k"
    and g: "op_normalizeTimestamp host (jget operation ''generation'') ''operation.generation'' True = Inr (Some g)"
      "g \<le> max_time"
    and b: "b = jput ''requestedAt'' (JStr (iso_text g)) (jput ''originalRequestedAt'' (jint g)
        (jput ''generation'' (jint g) (jput ''workKey'' (JStr k) (jput ''operationId'' (JStr i) body))))"
    using assms unfolding withQueueOperation_def
    by (auto simp: bind_res_Inr_iff jopt_int_def split: option.splits if_splits
        dest!: op_requireText_InrD [of "jget body ''type''"] dest: op_normalizeTimestamp_InrD)
  have obj: "is_object body" using ty by (cases body) (auto simp: is_object_def optionalText_def)
  have keep: "jget b f = jget body f"
    if "f \<notin> {''operationId'', ''workKey'', ''generation'', ''originalRequestedAt'', ''requestedAt''}" for f
    using that obj by (simp add: b jget_jput)
  have "buildStableWorkKey c b i = Inr k"
    using k(2) contract_scope [OF c] by (auto simp: buildStableWorkKey_def keep)
  moreover have "resolveStableOperationContract (Some ty) b = Some c"
    unfolding c [symmetric] by (rule resolve_cong) (auto simp: keep)
  moreover have "plain_text k" using k(1) op_requireText_InrD optionalText_SomeD by blast
  ultimately have "carries b c i k g"
    using ty i k g obj normalizeOperationId_idem [OF i] op_normalizeTimestamp_InrD [OF g(1)]
    by (auto simp: carries_def b jget_jput keep)
  moreover have "optionalText (jget operation ''workKey'') = Some k" using k(1) by (rule op_requireText_InrD)
  ultimately show ?thesis using keep by blast
qed

lemma carries_through:
  assumes "carries b c i k g" and "\<exists>v. readSchemaVersion (jget b ''schemaVersion'') = Inr v"
    and "qm_body msg = b" "\<bar>now\<bar> \<le> max_time"
  shows "\<exists>job. normalizeQueueJobMessage host msg now = Inr job \<and> carries (jb_body job) c i k g
    \<and> readSchemaVersion (jget (jb_body job) ''schemaVersion'') = Inr 1
    \<and> resolveQueueOperation host job msg = Inr \<lparr>qo_operationId = Some i, qo_workKey = Some k,
        qo_generation = Some g, qo_originalRequestedAt = Some g, qo_stable = True\<rparr>"
proof -
  from assms(1) obtain ty where obj: "is_object b" and ty: "optionalText (jget b ''type'') = Some ty"
    "resolveStableOperationContract (Some ty) b = Some c"
    and f: "jget b ''operationId'' = JStr i" "normalizeOperationId (JStr i) c = Inr i"
    "jget b ''workKey'' = JStr k" "plain_text k" "buildStableWorkKey c b i = Inr k"
    "jget b ''generation'' = jint g" "jget b ''originalRequestedAt'' = jint g"
    "jget b ''requestedAt'' = JStr (iso_text g)" "min_supported_ms \<le> g" "g \<le> max_time"
    by (auto simp: carries_def)
  have body: "parseQueueBody (qm_body msg) = Inr b"
    using obj assms(3) by (cases b) (simp_all add: parseQueueBody_def is_object_def nullish_def)
  have "\<bar>g\<bar> \<le> max_time" using f(9,10) by simp
  then have date: "to_date host (JStr (iso_text g)) = Some g"
    by (simp add: to_date_def date_parse_def iso_round_trip)
  from assms(2) obtain v where v: "readSchemaVersion (jget b ''schemaVersion'') = Inr v" by blast
  define b2 where "b2 = jput ''requestedAt'' (JStr (iso_text g)) (jput ''schemaVersion'' (jint v) b)"
  define job where "job = \<lparr>jb_id = job_normalizeOptionalText (qm_id msg), jb_schemaVersion = v, jb_body = b2,
    jb_receivedAt = iso_text now, jb_requestedAt = Some (iso_text g)\<rparr>"
  have received: "job_normalizeDate host (jint now) ''receivedAt'' = Inr (iso_text now)"
    using assms(4) by (simp add: job_normalizeDate_def to_date_def)
  have requested: "job_normalizeDate host (JStr (iso_text g)) ''requestedAt'' = Inr (iso_text g)"
    by (simp add: job_normalizeDate_def date)
  have norm: "normalizeQueueJobMessage host msg now = Inr job"
    by (simp add: normalizeQueueJobMessage_def body v f(8) received requested job_def b2_def Let_def)
  have keep: "jget b2 x = jget b x" if "x \<notin> {''schemaVersion'', ''requestedAt''}" for x
    using that obj by (simp add: b2_def jget_jput)
  have "buildStableWorkKey c b2 i = Inr k"
    using f(5) contract_scope [OF ty(2)] by (auto simp: buildStableWorkKey_def keep)
  moreover have "resolveStableOperationContract (Some ty) b2 = Some c"
    unfolding ty(2) [symmetric] by (rule resolve_cong) (auto simp: keep)
  ultimately have c2: "carries b2 c i k g"
    using assms(1) ty obj by (auto simp: carries_def keep b2_def jget_jput)
  have "is_safe g" using f(9,10) by (simp add: is_safe_def max_safe_def max_time_def)
  then have stamps: "op_normalizeTimestamp host (jint g) x r = Inr (Some g)" for x r
    by (rule op_normalizeTimestamp_jint) (rule f(9))
  have "plain_text i" using normalizeOperationId_idem [OF f(2)] by simp
  then have "resolveQueueOperation host job msg = Inr \<lparr>qo_operationId = Some i, qo_workKey = Some k,
      qo_generation = Some g, qo_originalRequestedAt = Some g, qo_stable = True\<rparr>"
    using c2 ty f stamps by (auto simp: resolveQueueOperation_def Let_def job_def keep carries_def nullish_def jopt_def)
  moreover have "v = 1" using v by (auto simp: readSchemaVersion_def Let_def split: if_splits)
  then have "readSchemaVersion (jget b2 ''schemaVersion'') = Inr 1"
    using obj by (simp add: b2_def jget_jput readSchemaVersion_def is_absent_def)
  ultimately show ?thesis using norm c2 by (auto simp: job_def)
qed

end
