(* ===== verification/Domain_Entities.thy ===== *)
theory Domain_Entities
  imports Dates
begin

text \<open>
  The records of the domain (\<open>packages/domain/src/\<close>) and the strict reading of numbers they rest on
  (\<open>packages/shared/src/number/strict-number.js\<close>): the entry of a sync run and the system alert,
  the stable keys of content and advertising entities, money in integer micros, and the rows of
  organic content and advertising metrics. An entity is the object the constructor returns.

  Identifiers that the constructors generate when none is passed are the parameter \<open>uuid\<close>.
\<close>

subsection \<open>Strict numbers\<close>

text \<open>Texts beyond the largest double read as an infinity.\<close>

definition double_finite :: "jsnum \<Rightarrow> bool" where
  "double_finite n \<longleftrightarrow> (case n of NInt i \<Rightarrow> \<bar>i\<bar> < 2 ^ 1024 - 2 ^ 970 | NFrac m k \<Rightarrow> \<bar>m\<bar> < (2 ^ 1024 - 2 ^ 970) * 10 ^ k
     | _ \<Rightarrow> False)"

definition skip_sign :: "string \<Rightarrow> string" where
  "skip_sign s = (if starts_with ''+'' s \<or> starts_with ''-'' s then tl s else s)"

definition plain_number :: "string \<Rightarrow> bool" where
  "plain_number s =
     (let u = skip_sign s; whole = takeWhile is_digit u; r = dropWhile is_digit u;
          dot = starts_with ''.'' r; frac = (if dot then takeWhile is_digit (tl r) else []);
          rest = (if dot then dropWhile is_digit (tl r) else r)
      in (whole \<noteq> [] \<or> frac \<noteq> []) \<and> exponent_of rest \<noteq> None)"

fun digit_groups :: "string \<Rightarrow> nat \<Rightarrow> nat \<times> string" where
  "digit_groups (CHR '','' # a # b # c # r) n = (if is_digit a \<and> is_digit b \<and> is_digit c
     then digit_groups r (Suc n) else (n, CHR '','' # a # b # c # r))"
| "digit_groups s n = (n, s)"

definition grouped_number :: "string \<Rightarrow> bool" where
  "grouped_number s =
     (let u = skip_sign s; whole = takeWhile is_digit u; (n, r) = digit_groups (dropWhile is_digit u) 0;
          dot = starts_with ''.'' r; frac = (if dot then takeWhile is_digit (tl r) else []);
          rest = (if dot then dropWhile is_digit (tl r) else r)
      in 1 \<le> length whole \<and> length whole \<le> 3 \<and> 0 < n \<and> (dot \<longrightarrow> frac \<noteq> []) \<and> exponent_of rest \<noteq> None)"

definition toFiniteNumber :: "jsval \<Rightarrow> string \<Rightarrow> bool \<Rightarrow> jserror + jsnum option" where
  "toFiniteNumber v label allowNull =
     (let absent = (if allowNull then Inr None else Inl (type_error (label @ '' is required''))) in
      if is_nullish v then absent
      else case v of
        JNum n \<Rightarrow> if double_finite n then Inr (Some n) else Inl (type_error (label @ '' must be finite''))
      | JStr raw \<Rightarrow>
          if trim raw = [] then absent
          else if \<not> plain_number (trim raw) \<and> \<not> grouped_number (trim raw)
          then Inl (type_error (label @ '' must be a valid numeric value''))
          else let n = string_number (filter (\<lambda>c. c \<noteq> CHR '','') (trim raw)) in
               if double_finite n then Inr (Some n) else Inl (type_error (label @ '' must be finite''))
      | _ \<Rightarrow> Inl (type_error (label @ '' must be a number or numeric string'')))"

definition is_integral :: "jsnum \<Rightarrow> int option" where
  "is_integral n = (case n of NInt i \<Rightarrow> Some i | _ \<Rightarrow> None)"

subsection \<open>Sync log entries\<close>

definition log_requireText :: "jsval \<Rightarrow> string \<Rightarrow> jserror + string" where
  "log_requireText v f = requireText (''Sync log requires '' @ f) v"

definition log_optionalText :: "jsval \<Rightarrow> jserror + jsval" where
  "log_optionalText v = (if is_absent v then Inr JNull
     else bind_res (log_requireText v ''optionalText'') (\<lambda>t. Inr (JStr t)))"

definition log_optionalUpperText :: "jsval \<Rightarrow> jserror + jsval" where
  "log_optionalUpperText v = bind_res (log_optionalText v) (\<lambda>t.
     Inr (case t of JStr s \<Rightarrow> JStr (to_upper s) | _ \<Rightarrow> JNull))"

definition log_status :: "jsval \<Rightarrow> jserror + string" where
  "log_status v =
     (let status = (if v = JStr ''queued'' then JStr ''pending'' else v);
          bad = Inl (plain_error (''Invalid sync status: '' @ js_text status))
      in case status of
        JStr s \<Rightarrow> if s \<in> {''pending'', ''running'', ''success'', ''partial_success'', ''failed'', ''skipped''}
          then Inr s else bad
      | _ \<Rightarrow> bad)"

definition log_syncId :: "string \<Rightarrow> jsval \<Rightarrow> jserror + string" where
  "log_syncId uuid v = (if is_absent v then Inr uuid else log_requireText v ''syncId'')"

definition log_optionalEpoch :: "js_host \<Rightarrow> jsval \<Rightarrow> string \<Rightarrow> jserror + int option" where
  "log_optionalEpoch host v f = (if is_absent v then Inr None
     else toEpochMilliseconds host v (JObj [(''label'', JStr (''Sync log '' @ f))]))"

definition log_nonNegativeInteger :: "jsval \<Rightarrow> string \<Rightarrow> jserror + int" where
  "log_nonNegativeInteger v f = bind_res (toFiniteNumber v (''Sync log '' @ f) False) (\<lambda>n.
     case Option.bind n is_integral of
       Some i \<Rightarrow> if 0 \<le> i then Inr i
         else Inl (type_error (''Sync log '' @ f @ '' must be a non-negative integer''))
     | None \<Rightarrow> Inl (type_error (''Sync log '' @ f @ '' must be a non-negative integer'')))"

definition entity_details :: "string \<Rightarrow> jsval \<Rightarrow> jserror + jsval" where
  "entity_details entity v = (if is_nullish v then Inr (JObj [])
     else if is_object v then Inr v else Inl (type_error (entity @ '' details must be an object'')))"

definition createSyncLogEntry :: "js_host \<Rightarrow> string \<Rightarrow> jsval \<Rightarrow> jserror + jsval" where
  "createSyncLogEntry host uuid i =
     bind_res (log_status (nullish (jget i ''status'') (JStr ''pending''))) (\<lambda>status.
     bind_res (log_optionalEpoch host (jget i ''startedAt'') ''startedAt'') (\<lambda>started.
     bind_res (log_optionalEpoch host (jget i ''finishedAt'') ''finishedAt'') (\<lambda>finished.
     if (case (started, finished) of (Some a, Some b) \<Rightarrow> b < a | _ \<Rightarrow> False)
     then Inl (range_error ''Sync log finishedAt must not be before startedAt'') else
     bind_res (log_nonNegativeInteger (nullish (jget i ''recordsCreated'') (jint 0)) ''recordsCreated'') (\<lambda>created.
     bind_res (log_nonNegativeInteger (nullish (jget i ''recordsUpdated'') (jint 0)) ''recordsUpdated'') (\<lambda>updated.
     bind_res (log_nonNegativeInteger (nullish (jget i ''recordsSkipped'') (jint 0)) ''recordsSkipped'') (\<lambda>skipped.
     bind_res (if is_nullish (jget i ''recordsWritten'') then Inr (created + updated)
               else log_nonNegativeInteger (jget i ''recordsWritten'') ''recordsWritten'') (\<lambda>written.
     bind_res (log_syncId uuid (jget i ''syncId'')) (\<lambda>syncId.
     bind_res (log_optionalText (jget i ''customerProfile'')) (\<lambda>customer.
     bind_res (log_optionalText (jget i ''accountKey'')) (\<lambda>account.
     bind_res (log_requireText (jget i ''platform'') ''platform'') (\<lambda>platform.
     bind_res (log_optionalText (jget i ''source'')) (\<lambda>source.
     bind_res (log_requireText (jget i ''syncType'') ''syncType'') (\<lambda>syncType.
     bind_res (log_nonNegativeInteger (nullish (jget i ''recordsPulled'') (jint 0)) ''recordsPulled'') (\<lambda>pulled.
     bind_res (log_nonNegativeInteger (nullish (jget i ''retryCount'') (jint 0)) ''retryCount'') (\<lambda>retries.
     bind_res (log_optionalUpperText (jget i ''errorCode'')) (\<lambda>code.
     bind_res (log_optionalText (jget i ''errorMessage'')) (\<lambda>msg.
     bind_res (entity_details ''Sync log'' (jget i ''details'')) (\<lambda>details.
     Inr (JObj [(''syncId'', JStr syncId), (''customerProfile'', customer), (''accountKey'', account),
       (''platform'', JStr (to_lower platform)), (''source'', source), (''syncType'', JStr syncType),
       (''status'', JStr status), (''startedAt'', jopt_int started), (''finishedAt'', jopt_int finished),
       (''recordsPulled'', jint pulled), (''recordsCreated'', jint created), (''recordsUpdated'', jint updated),
       (''recordsSkipped'', jint skipped), (''recordsWritten'', jint written), (''retryCount'', jint retries),
       (''errorCode'', code), (''errorMessage'', msg), (''details'', details)])))))))))))))))))))"

subsection \<open>System alerts\<close>

definition alert_requireText :: "jsval \<Rightarrow> string \<Rightarrow> jserror + string" where
  "alert_requireText v f = requireText (''System alert requires '' @ f) v"

definition alert_optionalText :: "jsval \<Rightarrow> jserror + jsval" where
  "alert_optionalText v = (if is_absent v then Inr JNull
     else bind_res (alert_requireText v ''optionalText'') (\<lambda>t. Inr (JStr t)))"

definition alert_optionalUpperText :: "jsval \<Rightarrow> jserror + jsval" where
  "alert_optionalUpperText v = bind_res (alert_optionalText v) (\<lambda>t.
     Inr (case t of JStr s \<Rightarrow> JStr (to_upper s) | _ \<Rightarrow> JNull))"

definition alert_requireChoice :: "jsval \<Rightarrow> string \<Rightarrow> string list \<Rightarrow> jserror + string" where
  "alert_requireChoice v f allowed = bind_res (alert_requireText v f) (\<lambda>t.
     if t \<in> set allowed then Inr t else Inl (type_error (''System alert '' @ f @ '' is invalid: '' @ t)))"

definition alert_id :: "string \<Rightarrow> jsval \<Rightarrow> jserror + string" where
  "alert_id uuid v = (if is_absent v then Inr uuid else alert_requireText v ''alertId'')"

definition alert_timestamp :: "js_host \<Rightarrow> int \<Rightarrow> jsval \<Rightarrow> jserror + int" where
  "alert_timestamp host now v = (if is_absent v then Inr now
     else bind_res (toEpochMilliseconds host v (JObj [(''label'', JStr ''System alert createdAt'')]))
       (\<lambda>n. Inr (the n)))"

definition createSystemAlert :: "js_host \<Rightarrow> string \<Rightarrow> int \<Rightarrow> jsval \<Rightarrow> jserror + jsval" where
  "createSystemAlert host uuid now i =
     bind_res (alert_requireChoice (nullish (jget i ''severity'') (JStr ''warning'')) ''severity''
       [''info'', ''warning'', ''critical'']) (\<lambda>severity.
     bind_res (alert_requireChoice (nullish (jget i ''status'') (JStr ''open'')) ''status''
       [''open'', ''acknowledged'', ''resolved'']) (\<lambda>status.
     bind_res (alert_id uuid (jget i ''alertId'')) (\<lambda>alertId.
     bind_res (alert_optionalText (jget i ''syncRunId'')) (\<lambda>run.
     bind_res (alert_requireText (nullish (jget i ''alertType'') (JStr ''sync_failure'')) ''alertType'') (\<lambda>ty.
     bind_res (alert_requireText (nullish (jget i ''platform'') (JStr ''system'')) ''platform'') (\<lambda>platform.
     bind_res (alert_requireText (jget i ''message'') ''message'') (\<lambda>msg.
     bind_res (alert_optionalUpperText (jget i ''errorCode'')) (\<lambda>code.
     bind_res (alert_timestamp host now (jget i ''createdAt'')) (\<lambda>created.
     bind_res (entity_details ''System alert'' (jget i ''details'')) (\<lambda>details.
     Inr (JObj [(''alertId'', JStr alertId), (''syncRunId'', run), (''alertType'', JStr ty),
       (''severity'', JStr severity), (''platform'', JStr (to_lower platform)), (''status'', JStr status),
       (''message'', JStr msg), (''errorCode'', code), (''createdAt'', jint created),
       (''details'', details)])))))))))))"

subsection \<open>Stable keys\<close>

definition quoted_colon :: string where
  "quoted_colon = [CHR 0x22] @ '':'' @ [CHR 0x22]"

definition normalizeIdentityPart :: "string \<Rightarrow> jsval \<Rightarrow> jserror + string" where
  "normalizeIdentityPart label v = (case optionalText v of
       None \<Rightarrow> Inl (plain_error (label @ '' requires all identity fields''))
     | Some t \<Rightarrow> if CHR '':'' \<in> set t
         then Inl (plain_error (label @ '' identity fields must not contain '' @ quoted_colon)) else Inr t)"

definition joinRequiredIdentityParts :: "string \<Rightarrow> jsval list \<Rightarrow> jserror + string" where
  "joinRequiredIdentityParts label parts =
     bind_res (map_res (normalizeIdentityPart label) parts) (\<lambda>ts. Inr (join '':'' ts))"

definition createContentKey :: "jsval \<Rightarrow> jserror + string" where
  "createContentKey i = joinRequiredIdentityParts ''Content key''
     [jget i ''platform'', jget i ''accountId'', jget i ''externalContentId'']"

definition createDailySnapshotKey :: "jsval \<Rightarrow> jserror + string" where
  "createDailySnapshotKey i =
     bind_res (requireDateOnly (jget i ''metricDate'') (JObj [(''label'', JStr ''Snapshot metricDate'')])) (\<lambda>date.
     joinRequiredIdentityParts ''Snapshot key''
       [jget i ''platform'', jget i ''accountId'', jget i ''entityId'', JStr date])"

definition ads_requireText :: "jsval \<Rightarrow> string \<Rightarrow> jserror + string" where
  "ads_requireText v f = requireText (''Ads model requires '' @ f) v"

definition ads_requireChoice :: "jsval \<Rightarrow> string \<Rightarrow> string list \<Rightarrow> jserror + string" where
  "ads_requireChoice v f choices = bind_res (ads_requireText v f) (\<lambda>t.
     if t \<in> set choices then Inr t else Inl (type_error (f @ '' is unsupported: '' @ t)))"

definition ads_requireIdentity :: "jsval \<Rightarrow> string \<Rightarrow> jserror + string" where
  "ads_requireIdentity v f = bind_res (ads_requireText v f) (\<lambda>t.
     if CHR '':'' \<in> set t then Inl (type_error (f @ '' must not contain '' @ quoted_colon)) else Inr t)"

definition ads_optionalIdentity :: "jsval \<Rightarrow> string \<Rightarrow> jserror + jsval" where
  "ads_optionalIdentity v f = (if is_absent v then Inr JNull
     else bind_res (ads_requireIdentity v f) (\<lambda>t. Inr (JStr t)))"

abbreviation ADS_PLATFORMS :: "string list" where
  "ADS_PLATFORMS \<equiv> [''meta_ads'', ''tiktok_ads'', ''google_ads'']"

abbreviation ENTITY_TYPES :: "string list" where
  "ENTITY_TYPES \<equiv> [''account'', ''campaign'', ''ad_group'', ''ad'', ''creative'']"

definition createAdsEntityKey :: "jsval \<Rightarrow> jserror + string" where
  "createAdsEntityKey i =
     bind_res (ads_requireChoice (jget i ''platform'') ''platform'' ADS_PLATFORMS) (\<lambda>platform.
     bind_res (ads_requireIdentity (jget i ''accountId'') ''accountId'') (\<lambda>account.
     bind_res (ads_requireChoice (jget i ''entityType'') ''entityType'' ENTITY_TYPES) (\<lambda>ty.
     bind_res (ads_requireIdentity (jget i ''externalEntityId'') ''externalEntityId'') (\<lambda>entity.
     Inr (join '':'' [platform, account, ty, entity])))))"

definition createAdsDailyKey :: "jsval \<Rightarrow> jserror + string" where
  "createAdsDailyKey i =
     bind_res (requireDateOnly (jget i ''metricDate'') (JObj [(''label'', JStr ''Ads metricDate'')])) (\<lambda>date.
     bind_res (createAdsEntityKey i) (\<lambda>key. Inr (join '':'' [key, date])))"

subsection \<open>Money and metrics\<close>

abbreviation ADS_MONEY_SCALE :: int where "ADS_MONEY_SCALE \<equiv> 1000000"

definition currencyAmountToMicros :: "jsval \<Rightarrow> string \<Rightarrow> jserror + int" where
  "currencyAmountToMicros v f = (case v of
       JStr raw \<Rightarrow>
         let t = trim raw; whole = takeWhile is_digit t; r = dropWhile is_digit t;
             frac = (if starts_with ''.'' r then tl r else []);
             ok = (whole \<noteq> [] \<and> (hd whole = CHR ''0'' \<longrightarrow> length whole = 1)
               \<and> (r = [] \<or> starts_with ''.'' r \<and> frac \<noteq> [] \<and> length frac \<le> 6 \<and> list_all is_digit frac));
             micros = text_int whole * ADS_MONEY_SCALE + text_int (frac @ replicate (6 - length frac) (CHR ''0''))
         in if \<not> ok then Inl (type_error (f @ '' must be a non-negative decimal with at most 6 places''))
            else if max_safe < micros then Inl (type_error (f @ '' exceeds safe integer micros''))
            else Inr micros
     | _ \<Rightarrow> Inl (type_error (f @ '' must be a decimal string'')))"

definition ads_nullableCount :: "jsval \<Rightarrow> string \<Rightarrow> jserror + int option" where
  "ads_nullableCount v f = (if is_absent v then Inr None
     else bind_res (safe_number (\<lambda>n. 0 \<le> n) (f @ '' must be a non-negative safe integer'') v) (\<lambda>n. Inr (Some n)))"

fun num_negative :: "jsnum \<Rightarrow> bool" where
  "num_negative (NInt i) = (i < 0)"
| "num_negative (NFrac m k) = (m < 0)"
| "num_negative NNaN = False"
| "num_negative (NInf b) = b"

definition ads_nullableNonNegativeNumber :: "jsval \<Rightarrow> string \<Rightarrow> jserror + jsnum option" where
  "ads_nullableNonNegativeNumber v f = (if is_absent v then Inr None
     else let n = js_number v in if double_finite n \<and> \<not> num_negative n then Inr (Some n)
          else Inl (type_error (f @ '' must be a non-negative finite number'')))"

definition ads_nullableMoneyMicros :: "jsval \<Rightarrow> string \<Rightarrow> jserror + int option" where
  "ads_nullableMoneyMicros v f = (if is_absent v then Inr None
     else let n = (case v of JNum n \<Rightarrow> n
            | JStr s \<Rightarrow> if trim s \<noteq> [] \<and> list_all is_digit (trim s) then string_number (trim s) else NNaN
            | _ \<Rightarrow> NNaN)
          in case safe_int n of
            Some i \<Rightarrow> if 0 \<le> i then Inr (Some i)
              else Inl (type_error (f @ '' must be a non-negative safe integer in micros''))
          | None \<Rightarrow> Inl (type_error (f @ '' must be a non-negative safe integer in micros'')))"

definition ads_requireCurrency :: "jsval \<Rightarrow> jserror + string" where
  "ads_requireCurrency v = bind_res (ads_requireText v ''currency'') (\<lambda>t.
     if length t = 3 \<and> list_all is_upper_char (to_upper t) then Inr (to_upper t)
     else Inl (type_error ''currency must be a 3-letter code''))"

definition safeDivide :: "js_host \<Rightarrow> jsnum option \<Rightarrow> jsnum option \<Rightarrow> jsnum option" where
  "safeDivide host a b = (case (a, b) of
     (Some x, Some y) \<Rightarrow> if y = NInt 0 then None else Some (double_div host x y) | _ \<Rightarrow> None)"

definition microsToCurrencyUnits :: "js_host \<Rightarrow> jsnum option \<Rightarrow> jsnum option" where
  "microsToCurrencyUnits host m = map_option (\<lambda>x. double_div host x (NInt ADS_MONEY_SCALE)) m"

definition microsRateToCurrencyUnits :: "js_host \<Rightarrow> jsnum option \<Rightarrow> jsnum option \<Rightarrow> jsnum option" where
  "microsRateToCurrencyUnits host m d = microsToCurrencyUnits host (safeDivide host m d)"

definition jopt_num :: "jsnum option \<Rightarrow> jsval" where
  "jopt_num n = (case n of Some x \<Rightarrow> JNum x | None \<Rightarrow> JNull)"

definition calculateAdsDerivedMetrics :: "js_host \<Rightarrow> jsval \<Rightarrow> jserror + (string \<times> jsval) list" where
  "calculateAdsDerivedMetrics host m =
     bind_res (ads_nullableMoneyMicros (jget m ''spend_micros'') ''spend_micros'') (\<lambda>spend.
     bind_res (ads_nullableCount (jget m ''impressions'') ''impressions'') (\<lambda>impressions.
     bind_res (ads_nullableCount (jget m ''clicks'') ''clicks'') (\<lambda>clicks.
     bind_res (ads_nullableNonNegativeNumber (jget m ''conversions'') ''conversions'') (\<lambda>conversions.
     bind_res (ads_nullableMoneyMicros (jget m ''conversion_value_micros'') ''conversion_value_micros'') (\<lambda>gain.
     let num = map_option NInt in
     Inr [(''ctr'', jopt_num (safeDivide host (num clicks) (num impressions))),
       (''cpc'', jopt_num (microsRateToCurrencyUnits host (num spend) (num clicks))),
       (''cpm'', jopt_num (case (impressions, spend) of
          (Some i, Some s) \<Rightarrow> if i = 0 then None else Some (double_div host
              (double_mul host (double_div host (NInt s) (NInt i)) (NInt 1000)) (NInt ADS_MONEY_SCALE))
        | _ \<Rightarrow> None)),
       (''cpa'', jopt_num (microsRateToCurrencyUnits host (num spend) conversions)),
       (''actual_roas'', jopt_num (safeDivide host (num gain) (num spend)))])))))"

definition createAdsDailyRow :: "js_host \<Rightarrow> jsval \<Rightarrow> jserror + jsval" where
  "createAdsDailyRow host i =
     bind_res (ads_requireChoice (jget i ''platform'') ''platform'' ADS_PLATFORMS) (\<lambda>platform.
     bind_res (ads_requireIdentity (jget i ''accountId'') ''accountId'') (\<lambda>account.
     bind_res (ads_requireChoice (jget i ''entityType'') ''entityType'' ENTITY_TYPES) (\<lambda>ty.
     bind_res (ads_requireIdentity (jget i ''externalEntityId'') ''externalEntityId'') (\<lambda>entity.
     bind_res (requireDateOnly (jget i ''metricDate'') (JObj [(''label'', JStr ''Ads metricDate'')])) (\<lambda>date.
     bind_res (ads_requireText (jget i ''sourceTimezone'') ''sourceTimezone'') (\<lambda>zone.
     bind_res (ads_nullableMoneyMicros (jget i ''spendMicros'') ''spendMicros'') (\<lambda>spend.
     bind_res (ads_nullableCount (jget i ''impressions'') ''impressions'') (\<lambda>impressions.
     bind_res (ads_nullableCount (jget i ''reach'') ''reach'') (\<lambda>reach.
     bind_res (ads_nullableCount (jget i ''clicks'') ''clicks'') (\<lambda>clicks.
     bind_res (ads_nullableNonNegativeNumber (jget i ''conversions'') ''conversions'') (\<lambda>conversions.
     bind_res (ads_nullableMoneyMicros (jget i ''conversionValueMicros'') ''conversionValueMicros'') (\<lambda>gain.
     let base = [(''spend_micros'', jopt_int spend), (''impressions'', jopt_int impressions),
           (''reach'', jopt_int reach), (''clicks'', jopt_int clicks), (''conversions'', jopt_num conversions),
           (''conversion_value_micros'', jopt_int gain)] in
     bind_res (calculateAdsDerivedMetrics host (JObj base)) (\<lambda>derived.
     bind_res (createAdsDailyKey (JObj [(''platform'', JStr platform), (''accountId'', JStr account),
       (''entityType'', JStr ty), (''externalEntityId'', JStr entity), (''metricDate'', JStr date)])) (\<lambda>key.
     bind_res (dateOnlyInTimeZoneToEpochMilliseconds host (JStr date) (JStr zone)
       (JObj [(''label'', JStr ''Ads metricDate'')])) (\<lambda>metric_date.
     bind_res (ads_requireText (jget i ''adChannel'') ''adChannel'') (\<lambda>channel.
     bind_res (ads_optionalIdentity (jget i ''externalCampaignId'') ''externalCampaignId'') (\<lambda>campaign.
     bind_res (ads_optionalIdentity (jget i ''externalAdGroupId'') ''externalAdGroupId'') (\<lambda>group.
     bind_res (ads_optionalIdentity (jget i ''externalAdId'') ''externalAdId'') (\<lambda>ad.
     bind_res (ads_optionalIdentity (jget i ''externalCreativeId'') ''externalCreativeId'') (\<lambda>creative.
     bind_res (ads_requireCurrency (jget i ''currency'')) (\<lambda>currency.
     Inr (JObj ([(''ads_daily_key'', JStr key), (''metric_date'', jint metric_date),
       (''platform'', JStr platform), (''ad_channel'', JStr channel), (''account_id'', JStr account),
       (''entity_type'', JStr ty), (''external_entity_id'', JStr entity), (''external_campaign_id'', campaign),
       (''external_ad_group_id'', group), (''external_ad_id'', ad), (''external_creative_id'', creative),
       (''currency'', JStr currency)] @ base @
      [(''spend'', jopt_num (microsToCurrencyUnits host (map_option NInt spend))),
       (''conversion_value'', jopt_num (microsToCurrencyUnits host (map_option NInt gain)))] @ derived)))))))))))))))))))))))"

definition metric_nullableNumber :: "jsval \<Rightarrow> jserror + jsnum option" where
  "metric_nullableNumber v = (if is_absent v then Inr None else toFiniteNumber v ''numeric metric'' False)"

fun num_positive :: "jsnum \<Rightarrow> bool" where
  "num_positive (NInt i) = (0 < i)"
| "num_positive (NFrac m k) = (0 < m)"
| "num_positive NNaN = False"
| "num_positive (NInf b) = (\<not> b)"

definition calculateRate :: "js_host \<Rightarrow> jsval \<Rightarrow> jsval \<Rightarrow> jserror + jsnum option" where
  "calculateRate host a b = bind_res (metric_nullableNumber a) (\<lambda>x. bind_res (metric_nullableNumber b) (\<lambda>y.
     Inr (case (x, y) of (Some n, Some d) \<Rightarrow> if num_positive d then Some (double_div host n d) else None
        | _ \<Rightarrow> None)))"

definition calculateRoas :: "js_host \<Rightarrow> jsval \<Rightarrow> jserror + jsnum option" where
  "calculateRoas host i = bind_res (metric_nullableNumber (jget i ''spend'')) (\<lambda>s.
     bind_res (metric_nullableNumber (jget i ''conversionValue'')) (\<lambda>v.
     Inr (case (s, v) of (Some s, Some v) \<Rightarrow> if num_positive s then Some (double_div host v s) else None
        | _ \<Rightarrow> None)))"

definition calculateCpa :: "js_host \<Rightarrow> jsval \<Rightarrow> jserror + jsnum option" where
  "calculateCpa host i = calculateRate host (jget i ''spend'') (jget i ''conversions'')"

subsection \<open>Organic content\<close>

definition org_requireObject :: "jsval \<Rightarrow> string \<Rightarrow> jserror + jsval" where
  "org_requireObject v f = (if is_object v then Inr v
     else Inl (type_error (''Organic content '' @ f @ '' must be an object'')))"

definition org_requireText :: "jsval \<Rightarrow> string \<Rightarrow> jserror + string" where
  "org_requireText v f = requireText (''Organic content requires '' @ f) v"

definition org_optionalText :: "jsval \<Rightarrow> jserror + jsval" where
  "org_optionalText v = (if is_absent v then Inr JNull else case v of
       JStr s \<Rightarrow> Inr (if trim s = [] then JNull else JStr (trim s))
     | _ \<Rightarrow> Inl (type_error ''Organic content text value must be a string''))"

definition org_nullableFiniteNumber :: "jsval \<Rightarrow> string \<Rightarrow> jserror + jsnum option" where
  "org_nullableFiniteNumber v f = (if is_absent v then Inr None
     else if double_finite (js_number v) then Inr (Some (js_number v))
     else Inl (type_error (f @ '' must be finite'')))"

definition org_checked :: "(jsnum \<Rightarrow> bool) \<Rightarrow> string \<Rightarrow> jsval \<Rightarrow> string \<Rightarrow> jserror + jsval" where
  "org_checked ok msg v f = bind_res (org_nullableFiniteNumber v f) (\<lambda>n. case n of
       None \<Rightarrow> Inr JNull
     | Some x \<Rightarrow> if ok x then Inr (JNum x) else Inl (range_error (f @ msg)))"

definition org_nonNegative :: "jsval \<Rightarrow> string \<Rightarrow> jserror + jsval" where
  "org_nonNegative = org_checked (\<lambda>n. \<not> num_negative n) '' must be non-negative''"

definition org_count :: "jsval \<Rightarrow> string \<Rightarrow> jserror + jsval" where
  "org_count = org_checked (\<lambda>n. safe_int n \<noteq> None \<and> \<not> num_negative n) '' must be a non-negative safe integer''"

fun num_above_one :: "jsnum \<Rightarrow> bool" where
  "num_above_one (NInt i) = (1 < i)"
| "num_above_one (NFrac m k) = (10 ^ k < m)"
| "num_above_one NNaN = False"
| "num_above_one (NInf b) = (\<not> b)"

definition org_ratio :: "jsval \<Rightarrow> string \<Rightarrow> jserror + jsval" where
  "org_ratio = org_checked (\<lambda>n. \<not> num_negative n \<and> \<not> num_above_one n) '' must be between 0 and 1''"

definition nullableValue :: "jsval \<Rightarrow> jsval \<Rightarrow> jsval" where
  "nullableValue v d = (if v = JUndef then d else v)"

definition organic_content_row ::
    "string \<Rightarrow> string \<Rightarrow> string \<Rightarrow> jsval \<Rightarrow> jsval \<Rightarrow> jsval \<Rightarrow> jserror + jsval" where
  "organic_content_row platform account content i m c =
     (let value = (\<lambda>f. nullableValue (jget c f) JNull) in
     bind_res (createContentKey (JObj [(''platform'', JStr platform), (''accountId'', JStr account),
       (''externalContentId'', JStr content)])) (\<lambda>key.
     bind_res (org_optionalText (jget i ''contentType'')) (\<lambda>ty.
     bind_res (org_nullableFiniteNumber (jget i ''publishedAt'') ''publishedAt'') (\<lambda>published.
     bind_res (org_optionalText (jget i ''caption'')) (\<lambda>caption.
     bind_res (org_optionalText (jget i ''contentUrl'')) (\<lambda>url.
     bind_res (org_optionalText (jget i ''thumbnailUrl'')) (\<lambda>thumbnail.
     bind_res (org_nonNegative (jget i ''durationSeconds'') ''durationSeconds'') (\<lambda>duration.
     bind_res (org_count (jget m ''views'') ''metrics.views'') (\<lambda>views.
     bind_res (org_count (jget m ''likes'') ''metrics.likes'') (\<lambda>likes.
     bind_res (org_count (jget m ''comments'') ''metrics.comments'') (\<lambda>comments.
     bind_res (org_count (jget m ''shares'') ''metrics.shares'') (\<lambda>shares.
     bind_res (org_count (jget m ''uniqueViewers'') ''metrics.uniqueViewers'') (\<lambda>viewers.
     bind_res (org_nonNegative (jget m ''averageWatchTimeSeconds'') ''metrics.averageWatchTimeSeconds'') (\<lambda>watch.
     bind_res (org_ratio (jget m ''completionRate'') ''metrics.completionRate'') (\<lambda>completion.
     bind_res (org_nullableFiniteNumber (jget c ''classification_confidence'')
       ''classification.classification_confidence'') (\<lambda>confidence.
     Inr (JObj [(''content_key'', JStr key), (''platform'', JStr platform), (''account_id'', JStr account),
       (''external_content_id'', JStr content), (''content_type'', nullish ty (JStr ''video'')),
       (''published_at'', jopt_num published), (''caption'', caption), (''content_url'', url),
       (''thumbnail_url'', thumbnail), (''duration_seconds'', duration), (''latest_views'', views),
       (''latest_likes'', likes), (''latest_comments'', comments), (''latest_shares'', shares),
       (''latest_unique_viewers'', viewers), (''avg_watch_time_seconds'', watch),
       (''completion_rate'', completion), (''course_name'', value ''course_name''),
       (''course_level'', nullableValue (jget c ''course_level'') (JArr [])),
       (''course_type'', value ''course_type''), (''content_theme'', value ''content_theme''),
       (''funnel_stage'', value ''funnel_stage''), (''cta_type'', value ''cta_type''),
       (''cta_destination'', value ''cta_destination''), (''promotion_type'', value ''promotion_type''),
       (''urgency_level'', value ''urgency_level''), (''classification_source'', value ''classification_source''),
       (''classification_confidence'', jopt_num confidence),
       (''manual_tag_note'', value ''manual_tag_note'')])))))))))))))))))"

definition organic_daily_row ::
    "js_host \<Rightarrow> string \<Rightarrow> string \<Rightarrow> string \<Rightarrow> string \<Rightarrow> string \<Rightarrow> jsval \<Rightarrow> jserror + jsval" where
  "organic_daily_row host platform account content date zone m =
     bind_res (createDailySnapshotKey (JObj [(''platform'', JStr platform), (''accountId'', JStr account),
       (''entityId'', JStr content), (''metricDate'', JStr date)])) (\<lambda>key.
     bind_res (dateOnlyInTimeZoneToEpochMilliseconds host (JStr date) (JStr zone)
       (JObj [(''label'', JStr ''metricDate'')])) (\<lambda>metric_date.
     bind_res (org_count (jget m ''views'') ''metrics.views'') (\<lambda>views.
     bind_res (org_count (jget m ''likes'') ''metrics.likes'') (\<lambda>likes.
     bind_res (org_count (jget m ''comments'') ''metrics.comments'') (\<lambda>comments.
     bind_res (org_count (jget m ''shares'') ''metrics.shares'') (\<lambda>shares.
     bind_res (org_count (jget m ''uniqueViewers'') ''metrics.uniqueViewers'') (\<lambda>viewers.
     bind_res (org_nonNegative (jget m ''averageWatchTimeSeconds'') ''metrics.averageWatchTimeSeconds'') (\<lambda>watch.
     bind_res (org_nonNegative (jget m ''totalWatchTimeSeconds'') ''metrics.totalWatchTimeSeconds'') (\<lambda>total.
     bind_res (org_ratio (jget m ''completionRate'') ''metrics.completionRate'') (\<lambda>completion.
     Inr (JObj [(''content_daily_key'', JStr key), (''metric_date'', jint metric_date),
       (''platform'', JStr platform), (''account_id'', JStr account), (''external_content_id'', JStr content),
       (''views'', views), (''likes'', likes), (''comments'', comments), (''shares'', shares),
       (''unique_viewers'', viewers), (''avg_watch_time_seconds'', watch),
       (''total_watch_time_seconds'', total), (''completion_rate'', completion),
       (''traffic_sources'', nullableValue (jget m ''trafficSources'') JNull),
       (''country_region_breakdown'', nullableValue (jget m ''countryRegionBreakdown'') JNull)])))))))))))"

definition createOrganicContentRows :: "js_host \<Rightarrow> jsval \<Rightarrow> jserror + (jsval \<times> jsval)" where
  "createOrganicContentRows host i =
     bind_res (org_requireText (jget i ''platform'') ''platform'') (\<lambda>platform.
     bind_res (org_requireText (jget i ''accountId'') ''accountId'') (\<lambda>account.
     bind_res (org_requireText (jget i ''externalContentId'') ''externalContentId'') (\<lambda>content.
     bind_res (requireDateOnly (jget i ''metricDate'') (JObj [(''label'', JStr ''metricDate'')])) (\<lambda>date.
     bind_res (org_requireText (jget i ''sourceTimezone'') ''sourceTimezone'') (\<lambda>zone.
     bind_res (org_requireObject (nullish (jget i ''metrics'') (JObj [])) ''metrics'') (\<lambda>m.
     bind_res (org_requireObject (nullish (jget i ''classification'') (JObj [])) ''classification'') (\<lambda>c.
     bind_res (organic_content_row platform account content i m c) (\<lambda>row.
     bind_res (organic_daily_row host platform account content date zone m) (\<lambda>daily.
     Inr (row, daily))))))))))"

subsection \<open>Guarantees\<close>

text \<open>Parts without a colon are recovered from the joined key.\<close>

lemma join_colon_inj:
  assumes "length xs = length ys" "\<And>x. x \<in> set xs \<union> set ys \<Longrightarrow> CHR '':'' \<notin> set x" "join '':'' xs = join '':'' ys"
  shows "xs = ys"
  using assms
proof (induction "'':'' :: string" xs arbitrary: ys rule: join.induct)
  case (3 x y zs)
  then obtain x' y' zs' where ys: "ys = x' # y' # zs'" by (cases ys; cases "tl ys") auto
  have head: "takeWhile (\<lambda>c. c \<noteq> CHR '':'') (a @ CHR '':'' # r) = a"
    "dropWhile (\<lambda>c. c \<noteq> CHR '':'') (a @ CHR '':'' # r) = CHR '':'' # r" if "CHR '':'' \<notin> set a" for a r
    using that by (auto simp: takeWhile_append dropWhile_append)
  have eq: "x @ CHR '':'' # join '':'' (y # zs) = x' @ CHR '':'' # join '':'' (y' # zs')"
    using "3.prems"(3) ys by simp
  have c: "CHR '':'' \<notin> set x" "CHR '':'' \<notin> set x'" using "3.prems"(2) ys by auto
  have "x = x'" using head(1) [OF c(1)] head(1) [OF c(2)] eq by metis
  moreover have "join '':'' (y # zs) = join '':'' (y' # zs')"
    using head(2) [OF c(1)] head(2) [OF c(2)] eq by (metis list.inject)
  then have "y # zs = y' # zs'" using "3.hyps" [of "y' # zs'"] "3.prems"(1,2) ys by auto
  ultimately show ?case using ys by simp
qed (auto simp: Suc_length_conv)

lemma identity_part_InrD: "normalizeIdentityPart l v = Inr t \<Longrightarrow> optionalText v = Some t \<and> CHR '':'' \<notin> set t"
  by (auto simp: normalizeIdentityPart_def split: option.splits if_splits)

lemma identity_parts_InrD:
  "map_res (normalizeIdentityPart l) vs = Inr ts \<Longrightarrow>
   map optionalText vs = map Some ts \<and> (\<forall>t \<in> set ts. CHR '':'' \<notin> set t)"
  by (induction vs arbitrary: ts) (auto simp: bind_res_Inr_iff dest: identity_part_InrD)

lemma joined_identity:
  assumes "joinRequiredIdentityParts l vs = Inr k" "joinRequiredIdentityParts l' ws = Inr k"
    and "length vs = length ws"
  shows "map optionalText vs = map optionalText ws"
proof -
  obtain ts us where t: "map_res (normalizeIdentityPart l) vs = Inr ts" "k = join '':'' ts"
    and u: "map_res (normalizeIdentityPart l') ws = Inr us" "k = join '':'' us"
    using assms(1,2) by (auto simp: joinRequiredIdentityParts_def bind_res_Inr_iff)
  note t' = identity_parts_InrD [OF t(1)] and u' = identity_parts_InrD [OF u(1)]
  have "length ts = length us" using t' u' assms(3) by (metis length_map)
  then have "ts = us" using join_colon_inj [of ts us] t(2) u(2) t' u' by auto
  then show ?thesis using t' u' by simp
qed

lemma requireDateOnly_text: "requireDateOnly v options = Inr d \<Longrightarrow> optionalText v = Some d"
  by (auto simp: requireDateOnly_def Let_def optionalText_def date_only_parts_def digit_run_def bind_res_Inr_iff
      split: jsval.splits option.splits if_splits list.splits prod.splits)

lemma snapshot_key_identity:
  assumes "createDailySnapshotKey i = Inr k" "createDailySnapshotKey j = Inr k"
  shows "\<forall>f \<in> {''platform'', ''accountId'', ''entityId'', ''metricDate''}.
    optionalText (jget i f) = optionalText (jget j f)"
proof -
  obtain d e where d: "requireDateOnly (jget i ''metricDate'') (JObj [(''label'', JStr ''Snapshot metricDate'')]) = Inr d"
    and e: "requireDateOnly (jget j ''metricDate'') (JObj [(''label'', JStr ''Snapshot metricDate'')]) = Inr e"
    and "joinRequiredIdentityParts ''Snapshot key''
        [jget i ''platform'', jget i ''accountId'', jget i ''entityId'', JStr d] = Inr k"
      "joinRequiredIdentityParts ''Snapshot key''
        [jget j ''platform'', jget j ''accountId'', jget j ''entityId'', JStr e] = Inr k"
    using assms by (auto simp: createDailySnapshotKey_def bind_res_Inr_iff)
  from joined_identity [OF this(3,4)] have
    "optionalText (jget i ''platform'') = optionalText (jget j ''platform'')"
    "optionalText (jget i ''accountId'') = optionalText (jget j ''accountId'')"
    "optionalText (jget i ''entityId'') = optionalText (jget j ''entityId'')"
    "optionalText (JStr d) = optionalText (JStr e)" by simp_all
  moreover from this(4) have "d = e"
    using requireDateOnly_text [OF d] requireDateOnly_text [OF e]
    by (auto simp: optionalText_def split: if_splits jsval.splits)
  ultimately show ?thesis using requireDateOnly_text [OF d] requireDateOnly_text [OF e] by simp
qed

lemma ads_identity_InrD: "ads_requireIdentity v f = Inr t \<Longrightarrow> optionalText v = Some t \<and> CHR '':'' \<notin> set t"
  by (auto simp: ads_requireIdentity_def ads_requireText_def requireText_def optionalText_def bind_res_Inr_iff
      split: jsval.splits if_splits)

lemma ads_choice_InrD: "ads_requireChoice v f cs = Inr t \<Longrightarrow> optionalText v = Some t \<and> t \<in> set cs"
  by (auto simp: ads_requireChoice_def ads_requireText_def requireText_def optionalText_def bind_res_Inr_iff
      split: jsval.splits if_splits)

lemma date_text_colon: "requireDateOnly v (JObj [(''label'', JStr l)]) = Inr d \<Longrightarrow> CHR '':'' \<notin> set d"
proof -
  assume "requireDateOnly v (JObj [(''label'', JStr l)]) = Inr d"
  moreover from this obtain raw where "v = JStr raw" by (cases v) (simp_all add: requireDateOnly_def Let_def)
  ultimately obtain y m n where d: "d = date_text y m n" and y: "2000 \<le> y" "y \<le> 2100" and r: "real_date y m n"
    by (auto simp: requireDateOnly_iff)
  then have m: "1 \<le> m" "m \<le> 12" and "civil_from_days (days_from_civil y m n) = (y, m, n)"
    by (auto simp: real_date_def)
  note n = civil_day_bound [OF this(3)]
  have "list_all is_digit (pad_int 4 y)" "list_all is_digit (pad_int 2 m)" "list_all is_digit (pad_int 2 n)"
    using pad_int_ok [of y 4] pad_int_ok [of m 2] pad_int_ok [of n 2] y m n by simp_all
  then show ?thesis by (auto simp: d date_text_def list_all_iff is_digit_def)
qed

lemma ads_daily_key_identity:
  assumes "createAdsDailyKey i = Inr k" "createAdsDailyKey j = Inr k"
  shows "\<forall>f \<in> {''platform'', ''accountId'', ''entityType'', ''externalEntityId'', ''metricDate''}.
    optionalText (jget i f) = optionalText (jget j f)"
proof -
  have parts: "\<exists>p a t x d. optionalText (jget i ''platform'') = Some p \<and> optionalText (jget i ''accountId'') = Some a
      \<and> optionalText (jget i ''entityType'') = Some t \<and> optionalText (jget i ''externalEntityId'') = Some x
      \<and> optionalText (jget i ''metricDate'') = Some d \<and> k = join '':'' [p, a, t, x, d]
      \<and> (\<forall>y \<in> {p, a, t, x, d}. CHR '':'' \<notin> set y)" if made: "createAdsDailyKey i = Inr k" for i
  proof -
    obtain d key where d: "requireDateOnly (jget i ''metricDate'') (JObj [(''label'', JStr ''Ads metricDate'')]) = Inr d"
      and key: "createAdsEntityKey i = Inr key" and k: "k = key @ '':'' @ d"
      using made by (auto simp: createAdsDailyKey_def bind_res_Inr_iff)
    obtain p a t x where "ads_requireChoice (jget i ''platform'') ''platform'' ADS_PLATFORMS = Inr p"
      "ads_requireIdentity (jget i ''accountId'') ''accountId'' = Inr a"
      "ads_requireChoice (jget i ''entityType'') ''entityType'' ENTITY_TYPES = Inr t"
      "ads_requireIdentity (jget i ''externalEntityId'') ''externalEntityId'' = Inr x"
      and key': "key = join '':'' [p, a, t, x]"
      using key by (auto simp: createAdsEntityKey_def bind_res_Inr_iff)
    note this(1,3) [THEN ads_choice_InrD] this(2,4) [THEN ads_identity_InrD]
    moreover from calculation have "CHR '':'' \<notin> set p" "CHR '':'' \<notin> set t" by auto
    ultimately show ?thesis using k key' date_text_colon [OF d] requireDateOnly_text [OF d] by simp
  qed
  obtain p a t x d where i: "optionalText (jget i ''platform'') = Some p" "optionalText (jget i ''accountId'') = Some a"
      "optionalText (jget i ''entityType'') = Some t" "optionalText (jget i ''externalEntityId'') = Some x"
      "optionalText (jget i ''metricDate'') = Some d" "k = join '':'' [p, a, t, x, d]"
      "\<forall>y \<in> {p, a, t, x, d}. CHR '':'' \<notin> set y" using parts [OF assms(1)] by blast
  obtain p' a' t' x' d' where j: "optionalText (jget j ''platform'') = Some p'"
      "optionalText (jget j ''accountId'') = Some a'" "optionalText (jget j ''entityType'') = Some t'"
      "optionalText (jget j ''externalEntityId'') = Some x'" "optionalText (jget j ''metricDate'') = Some d'"
      "k = join '':'' [p', a', t', x', d']" "\<forall>y \<in> {p', a', t', x', d'}. CHR '':'' \<notin> set y"
    using parts [OF assms(2)] by blast
  have "[p, a, t, x, d] = [p', a', t', x', d']"
    by (rule join_colon_inj) (use i(6,7) j(6,7) in auto)
  then show ?thesis using i(1-5) j(1-5) by simp
qed

text \<open>The micros of an amount are the exact value of its text, shifted by six decimal places.\<close>

lemma norm_frac_shift: "norm_frac (k + n) (m * 10 ^ n) = norm_frac k m"
  by (induction n) (simp_all add: mult.assoc)

lemma digits_val_app: "digits_val (s @ t) = digits_val s * 10 ^ length t + digits_val t"
proof (induction t rule: rev_induct)
  case (snoc c t)
  then show ?case using digits_val_append [of "s @ t" c] digits_val_append [of t c] by (simp add: algebra_simps)
qed (simp add: digits_val_def)

lemma digits_val_replicate [simp]: "digits_val (replicate n (CHR ''0'')) = 0"
  using digits_val_zeros [of n "[]"] by (simp add: digits_val_def)

lemma digits_val_pad: "digits_val (s @ replicate n (CHR ''0'')) = digits_val s * 10 ^ n"
  by (simp add: digits_val_app)

lemma micros_exact:
  assumes "currencyAmountToMicros v f = Inr n"
  shows "js_number v = norm_frac 6 n \<and> 0 \<le> n \<and> is_safe n"
proof -
  obtain raw where v: "v = JStr raw" using assms by (cases v) (simp_all add: currencyAmountToMicros_def)
  define t whole r frac where "t = trim raw" and "whole = takeWhile is_digit t" and "r = dropWhile is_digit t"
    and "frac = (if starts_with ''.'' r then tl r else [])"
  have ok: "whole \<noteq> []" "hd whole = CHR ''0'' \<longrightarrow> length whole = 1"
    "r = [] \<or> starts_with ''.'' r \<and> frac \<noteq> [] \<and> length frac \<le> 6 \<and> list_all is_digit frac"
    and n: "n = text_int whole * ADS_MONEY_SCALE + text_int (frac @ replicate (6 - length frac) (CHR ''0''))"
    and safe: "n \<le> max_safe"
    using assms unfolding v currencyAmountToMicros_def jsval.case Let_def
    by (auto simp: t_def whole_def r_def frac_def split: if_splits)
  have len: "length frac \<le> 6" "list_all is_digit frac" using ok(3) by (auto simp: frac_def starts_with_def)
  have amount: "n = int (digits_val (whole @ frac)) * 10 ^ (6 - length frac)"
  proof -
    have "(10 :: int) ^ length frac * 10 ^ (6 - length frac) = 10 ^ 6"
      using len(1) by (simp flip: power_add)
    then show ?thesis
      by (simp add: n text_int_def digits_val_pad digits_val_app algebra_simps)
  qed
  obtain c cs where t: "t = c # cs" "is_digit c" using ok(1) by (cases t) (auto simp: whole_def split: if_splits)
  have digit: "c \<noteq> CHR ''-''" "c \<noteq> CHR ''+''" "c \<noteq> CHR ''I''" using t(2) by (auto simp: is_digit_def)
  have not_radix: "take 2 t \<notin> {''0x'', ''0X'', ''0o'', ''0O'', ''0b'', ''0B''}"
  proof
    assume "take 2 t \<in> {''0x'', ''0X'', ''0o'', ''0O'', ''0b'', ''0B''}"
    then obtain d ds where "t = CHR ''0'' # d # ds" "d \<in> {CHR ''x'', CHR ''X'', CHR ''o'', CHR ''O'', CHR ''b'', CHR ''B''}"
      by (cases t; cases "tl t") auto
    moreover from this have "\<not> is_digit d" by (auto simp: is_digit_def)
    moreover have "is_digit (CHR ''0'')" by (simp add: is_digit_def)
    ultimately have "r = d # ds" "d \<noteq> CHR ''.''" by (auto simp: r_def)
    then show False using ok(3) by (simp add: starts_with_def)
  qed
  have "decimal_val t = scaled (int (digits_val (whole @ frac))) (0 - int (length frac))"
  proof (cases "r = []")
    case True
    then show ?thesis using ok(1) by (simp add: decimal_val_def Let_def whole_def [symmetric] r_def [symmetric]
          frac_def exponent_of_def starts_with_def)
  next
    case False
    then have r: "starts_with ''.'' r" "frac = tl r" using ok(3) by (auto simp: frac_def)
    have "takeWhile is_digit (tl r) = tl r" "dropWhile is_digit (tl r) = []"
      using len(2) r(2) by (simp_all add: takeWhile_eq_all_conv list_all_iff)
    then show ?thesis using ok(1) r
      by (simp only: decimal_val_def Let_def whole_def [symmetric] r_def [symmetric] if_True)
        (simp add: exponent_of_def)
  qed
  moreover have "scaled m (0 - int l) = norm_frac l m" for m l
    by (cases "l = 0") (simp_all add: scaled_def)
  ultimately have "decimal_val t = norm_frac (length frac) (int (digits_val (whole @ frac)))" by simp
  also have "\<dots> = norm_frac 6 n"
    using norm_frac_shift [of "length frac" "6 - length frac"] len(1) amount by simp
  finally have "decimal_val t = norm_frac 6 n" .
  moreover have "string_number raw = decimal_val t"
  proof -
    have "t \<noteq> []" "take 2 t \<noteq> ''0x''" "take 2 t \<noteq> ''0X''" "take 2 t \<noteq> ''0o''" "take 2 t \<noteq> ''0O''"
      "take 2 t \<noteq> ''0b''" "take 2 t \<noteq> ''0B''" "\<not> starts_with ''-'' t" "\<not> starts_with ''+'' t" "t \<noteq> ''Infinity''"
      using not_radix digit t(1) by (auto simp: starts_with_def)
    then show ?thesis
      by (simp only: string_number_def Let_def t_def [symmetric] insert_iff empty_iff simp_thms if_False)
  qed
  moreover have "0 \<le> n" using amount by simp
  ultimately show ?thesis using v safe by (simp add: is_safe_def)
qed

end
