(* ===== verification/Data_Properties.thy ===== *)
theory Data_Properties
  imports Gregorian Runtime_Config Queue_Jobs Domain_Entities
begin

text \<open>
  Properties of the data that the worker reads and writes: dates and instants, the keys and amounts
  of the domain entities, the loaded runtime configuration, and the identity of a queue job.
\<close>

text \<open>A host whose only zone is Bangkok, seven hours ahead of UTC.\<close>

definition ex_host :: js_host where
  "ex_host = \<lparr>legacy_date = (\<lambda>_. None), double_mul = (\<lambda>x y. NNaN), double_div = (\<lambda>x y. NNaN),
     zone_offset = (\<lambda>z. if z = ''Asia/Bangkok'' then Some (\<lambda>_. 25200000) else None)\<rparr>"

subsection \<open>Dates\<close>

text \<open>
  \<open>requireDateOnly\<close> accepts exactly the texts that, trimmed, are \<open>YYYY-MM-DD\<close> of a day of the
  Gregorian calendar between 2000 and 2100 (leap days included), and returns the trimmed text.
\<close>

theorem date_only_accepts:
  "requireDateOnly (JStr raw) (JObj [(''label'', JStr l)]) = Inr t \<longleftrightarrow> t = trim raw
    \<and> (\<exists>y m d. t = date_text y m d \<and> 2000 \<le> y \<and> y \<le> 2100 \<and> 1 \<le> m \<and> m \<le> 12 \<and> 1 \<le> d \<and> d \<le> month_length y m)"
  by (subst requireDateOnly_iff) (simp_all add: real_date_gregorian)

text \<open>
  An instant survives its ISO text. Every supported instant that is printed by
  \<open>toISOString\<close> is read back by \<open>toEpochMilliseconds\<close>, on every host.
\<close>

theorem epoch_text_roundtrip:
  assumes "min_supported_ms \<le> n" "n \<le> max_supported_ms"
  shows "toEpochMilliseconds host (JStr (iso_text n)) options = Inr (Some n)"
  by (rule toEpoch_of_iso [OF assms])

theorem epoch_text_roundtrip_witness:
  "toEpochMilliseconds ex_host (JStr (iso_text 1709164800123)) JUndef = Inr (Some 1709164800123)"
  by (rule epoch_text_roundtrip) simp_all

text \<open>
  C40: the instant that \<open>dateOnlyInTimeZoneToEpochMilliseconds\<close> returns is the local midnight of the
  given day: a clock of that zone shows exactly the first second of the day, whatever offsets the
  zone has had, and the instant is in the supported range.
\<close>

theorem local_midnight:
  assumes "dateOnlyInTimeZoneToEpochMilliseconds host v zone options = Inr n"
  shows "\<exists>y m d offset. trim (js_text v) = date_text y m d \<and> real_date y m d \<and> 2000 \<le> y \<and> y \<le> 2100
    \<and> zone_offset host (trim (js_text zone)) = Some offset
    \<and> local_seconds offset n = days_from_civil y m d * 86400
    \<and> min_supported_ms \<le> n \<and> n \<le> max_supported_ms"
  by (rule local_midnight_read [OF assms])

lemma ex_midnight:
  "dateOnlyInTimeZoneToEpochMilliseconds ex_host (JStr ''2024-02-29'') (JStr ''Asia/Bangkok'') JUndef = Inr 1709139600000"
proof (rule local_midnight_fixed [where y = 2024 and m = 2 and d = 29])
  show "real_date 2024 2 29" by code_simp
  show "1709139600000 = days_from_civil 2024 2 29 * ms_per_day - 25200000" by code_simp
  show "trim ''2024-02-29'' = date_text 2024 2 29" by code_simp
qed (simp_all add: ex_host_def trim_def is_space_def plain_text_def)

theorem local_midnight_witness:
  "\<exists>y m d offset. ''2024-02-29'' = date_text y m d \<and> real_date y m d
    \<and> zone_offset ex_host ''Asia/Bangkok'' = Some offset
    \<and> local_seconds offset 1709139600000 = days_from_civil y m d * 86400"
  using local_midnight [OF ex_midnight] by (auto simp: trim_def is_space_def)

subsection \<open>Entities\<close>

text \<open>
  The key of a daily advertising row identifies its platform, account, entity and day: two rows
  with the same key agree on all five, so that upserting by key never merges two of them.
\<close>

theorem ads_daily_key_injective:
  assumes "createAdsDailyKey i = Inr k" "createAdsDailyKey j = Inr k"
  shows "\<forall>f \<in> {''platform'', ''accountId'', ''entityType'', ''externalEntityId'', ''metricDate''}.
    optionalText (jget i f) = optionalText (jget j f)"
  by (rule ads_daily_key_identity [OF assms])

definition ex_ads_row :: "string \<Rightarrow> jsval" where
  "ex_ads_row x = JObj [(''platform'', JStr ''meta_ads''), (''accountId'', JStr x), (''entityType'', JStr ''campaign''),
     (''externalEntityId'', JStr ''c1''), (''metricDate'', JStr ''2024-02-29'')]"

theorem ads_daily_key_injective_witness:
  "optionalText (jget (ex_ads_row '' a1 '') ''accountId'') = optionalText (jget (ex_ads_row ''a1'') ''accountId'')"
proof -
  have "createAdsDailyKey (ex_ads_row '' a1 '') = Inr ''meta_ads:a1:campaign:c1:2024-02-29''"
    "createAdsDailyKey (ex_ads_row ''a1'') = Inr ''meta_ads:a1:campaign:c1:2024-02-29''"
    by code_simp+
  from ads_daily_key_injective [OF this] show ?thesis by blast
qed

text \<open>
  Money is exact. An amount that \<open>currencyAmountToMicros\<close> accepts is the decimal number of its
  text times one million, without rounding, as a safe integer that is not negative.
\<close>

theorem money_is_exact:
  assumes "currencyAmountToMicros v f = Inr n"
  shows "js_number v = norm_frac 6 n \<and> 0 \<le> n \<and> is_safe n"
  by (rule micros_exact [OF assms])

theorem money_is_exact_witness:
  "js_number (JStr ''12.5'') = norm_frac 6 12500000"
proof -
  have "digits_val ''12'' = 12" "digits_val ''500000'' = 500000" by (simp_all add: digits_val_def digit_val_def)
  moreover have "replicate 5 (CHR ''0'') = ''00000''" by (simp add: numeral_eq_Suc)
  ultimately have "currencyAmountToMicros (JStr ''12.5'') ''spend'' = Inr 12500000"
    by (simp add: currencyAmountToMicros_def trim_def is_space_def is_digit_def text_int_def starts_with_def max_safe_def)
  from money_is_exact [OF this] show ?thesis by simp
qed

subsection \<open>Runtime configuration\<close>




subsection \<open>The identity of a job\<close>






end
