(* ===== verification/Worker_Support.thy ===== *)
theory Worker_Support
  imports Runtime_Config Queue_Jobs Domain_Entities Mirror_Outbox Queue_Guarantees D1_Work_Fence
begin

text \<open>
  The environment of the queue worker (\<open>apps/sync-worker/src\<close>) and its helpers
  (\<open>worker-runtime-support.js\<close>): what one invocation reads and changes (the database, the clock,
  the queue it sends to, the log, the settlement of the delivered messages), retry delays, the log
  line, and the summaries it prints.

  The clock is the sequence of values \<open>Date.now()\<close> returns; the queue binding is the sequence of
  outcomes of \<open>send\<close>. A bound database has \<open>prepare\<close> and \<open>batch\<close>.
\<close>

subsection \<open>State\<close>

datatype settlement = Ack | Retry int

record worker_env =
  we_vars :: jsval
  we_state_db :: bool
  we_queue :: bool

record worker_world =
  ww_db :: d1
  ww_clock :: "nat \<Rightarrow> int"
  ww_ticks :: nat
  ww_sendFaults :: "nat \<Rightarrow> jserror option"
  ww_sends :: nat
  ww_sent :: "(jsval \<times> int option) list"
  ww_log :: "jsval list"
  ww_settled :: "(jsval \<times> settlement) list"
  ww_job :: "queue_job option"
  ww_operation :: "queue_operation option"
  ww_attempts :: int

abbreviation env_var :: "worker_env \<Rightarrow> string \<Rightarrow> jsval" where
  "env_var env \<equiv> jget (we_vars env)"

definition read_clock :: "(worker_world, int) eff" where
  "read_clock = (\<lambda>w. (Inr (ww_clock w (ww_ticks w)), w\<lparr>ww_ticks := Suc (ww_ticks w)\<rparr>))"

definition with_db :: "(d1, 'a) eff \<Rightarrow> (worker_world, 'a) eff" where
  "with_db m = (\<lambda>w. case m (ww_db w) of (r, t) \<Rightarrow> (r, w\<lparr>ww_db := t\<rparr>))"

text \<open>A store operation, which reads the clock and runs on the database.\<close>

definition clocked :: "(int \<Rightarrow> (d1, 'a) eff) \<Rightarrow> (worker_world, 'a) eff" where
  "clocked f = andThen read_clock (\<lambda>now. with_db (f now))"

definition queue_send :: "jsval \<Rightarrow> int option \<Rightarrow> (worker_world, unit) eff" where
  "queue_send body delay = (\<lambda>w. case ww_sendFaults w (ww_sends w) of
       Some e \<Rightarrow> (Inl e, w\<lparr>ww_sends := Suc (ww_sends w)\<rparr>)
     | None \<Rightarrow> (Inr (), w\<lparr>ww_sends := Suc (ww_sends w), ww_sent := ww_sent w @ [(body, delay)]\<rparr>))"

definition settle :: "queue_message \<Rightarrow> settlement \<Rightarrow> (worker_world, unit) eff" where
  "settle msg how = modify (\<lambda>w. w\<lparr>ww_settled := ww_settled w @ [(qm_id msg, how)]\<rparr>)"

subsection \<open>Values of the environment\<close>

definition requireJobText :: "jsval \<Rightarrow> string \<Rightarrow> jserror + string" where
  "requireJobText v f = (case optionalText v of Some t \<Rightarrow> Inr t
     | None \<Rightarrow> Inl (config_error (''Missing required job/config value '' @ f) (field_details f [])))"

definition readMetricDate :: "js_host \<Rightarrow> int \<Rightarrow> jsval \<Rightarrow> worker_env \<Rightarrow> jserror + string" where
  "readMetricDate host now jobValue env =
     resolveMetricDate host now (JObj [(''env'', we_vars env), (''override'', jobValue)])"

definition readAttempts :: "queue_message \<Rightarrow> int" where
  "readAttempts msg = (case safe_int (js_number (nullish (qm_attempts msg) (jint 1))) of
     Some n \<Rightarrow> if 0 < n then n else 1 | None \<Rightarrow> 1)"

definition readRetryDelaySeconds :: "worker_env \<Rightarrow> queue_message \<Rightarrow> jserror option \<Rightarrow> int \<Rightarrow> int" where
  "readRetryDelaySeconds env msg error now =
     (let base = (case safe_int (js_number (env_var env ''MKT_QUEUE_RETRY_DELAY_SECONDS'')) of
            Some n \<Rightarrow> if 0 < n then n else 30 | None \<Rightarrow> 30);
          backoff = base * min (readAttempts msg) 10;
          expiresAt = (case error of
            Some e \<Rightarrow> if err_code e = Some ''SYNC_LOCK_BUSY''
              then safe_int (js_number (jget (err_details e) ''expiresAt'')) else None
          | None \<Rightarrow> None);
          remaining = (case expiresAt of
            Some t \<Rightarrow> if now < t then ceil_div (t - now) 1000 + 5 else 0 | None \<Rightarrow> 0)
      in min 43200 (max backoff remaining))"

definition readSyncJobGeneration :: "js_host \<Rightarrow> jsval \<Rightarrow> string \<Rightarrow> jsval \<Rightarrow> jserror + int" where
  "readSyncJobGeneration host job connectorName fallback =
     (let v = nullish (jget job ''requestedAt'') fallback;
          instant = (case v of JNum n \<Rightarrow> safe_int n
            | _ \<Rightarrow> (case date_parse host (js_text (nullish v (JStr []))) of Some n \<Rightarrow> safe_int (NInt n) | None \<Rightarrow> None));
          bad = permanentError (connectorName @ '' sync job requires a valid requestedAt generation'')
            ''INVALID_SYNC_JOB_GENERATION''
            (field_details ''requestedAt'' [(''connectorName'', JStr connectorName)])
      in case instant of Some n \<Rightarrow> if 0 \<le> n then Inr n else Inl bad | None \<Rightarrow> Inl bad)"

definition readPositiveInteger :: "jsval \<Rightarrow> int \<Rightarrow> jserror + int" where
  "readPositiveInteger v fallback =
     (let bad = permanentError ''Reliability numeric environment value must be a positive integer''
            ''MKT_RELIABILITY_CONFIG_INVALID'' JUndef
      in if is_absent v then Inr fallback
         else case safe_int (js_number v) of Some n \<Rightarrow> if 0 < n then Inr n else Inl bad | None \<Rightarrow> Inl bad)"

definition readBoolean :: "jsval \<Rightarrow> bool \<Rightarrow> jserror + bool" where
  "readBoolean v fallback =
     (if is_absent v then Inr fallback
      else if v = JBool True \<or> v = JStr ''true'' then Inr True
      else if v = JBool False \<or> v = JStr ''false'' then Inr False
      else Inl (config_error ''Boolean environment value must be true or false'' JUndef))"

definition requireQueueName :: "jsval \<Rightarrow> string \<Rightarrow> jserror + string" where
  "requireQueueName v f = (case optionalText v of Some t \<Rightarrow> Inr t
     | None \<Rightarrow> Inl (permanentError (''Missing queue routing value '' @ f)
         ''MKT_QUEUE_ROUTING_CONFIG_INVALID'' (field_details f [])))"

subsection \<open>Log lines and summaries\<close>

definition logQueueResult :: "jsval \<Rightarrow> (worker_world, unit) eff" where
  "logQueueResult payload =
     andThen read_clock (\<lambda>now.
     let n0 = JObj [(''timestamp'', JStr (iso_text now)),
                    (''scope'', nullish (jget payload ''scope'') (JStr ''sync_worker_queue''))];
         n1 = (case payload of JObj kvs \<Rightarrow> fold (\<lambda>(k, v). jput k v) kvs n0 | _ \<Rightarrow> n0);
         n2 = (if (case n1 of JObj kvs \<Rightarrow> ''error'' \<in> fst ` set kvs | _ \<Rightarrow> False)
               then jput ''error'' (JStr (sanitizeOperationalText (jget n1 ''error'') (jget n1 ''code''))) n1 else n1)
     in modify (\<lambda>w. w\<lparr>ww_log := ww_log w @ [sanitizeOperationalValue n2]\<rparr>))"

definition is_objectlike :: "jsval \<Rightarrow> bool" where
  "is_objectlike v \<longleftrightarrow> (case v of JObj _ \<Rightarrow> True | JArr _ \<Rightarrow> True | _ \<Rightarrow> False)"

abbreviation or_null :: "jsval \<Rightarrow> jsval" where
  "or_null v \<equiv> nullish v JNull"

definition pick :: "jsval \<Rightarrow> string list \<Rightarrow> (string \<times> jsval) list" where
  "pick v = map (\<lambda>f. (f, or_null (jget v f)))"

definition array_length :: "jsval \<Rightarrow> jsval" where
  "array_length v = (case v of JArr xs \<Rightarrow> jint (int (length xs)) | _ \<Rightarrow> jint 0)"

definition summarizeWriteResult :: "jsval \<Rightarrow> jsval" where
  "summarizeWriteResult v = (if \<not> is_objectlike v then JNull else JObj
     ([(''created'', or_null (nullish (jget v ''created'') (jget v ''createRows''))),
       (''updated'', or_null (nullish (jget v ''updated'') (jget v ''updateRows'')))]
      @ pick v [''skipped'', ''duplicateInputRows'', ''writeOutcome'']))"

definition summarizeSourceRead :: "jsval \<Rightarrow> jsval" where
  "summarizeSourceRead v = (if \<not> is_objectlike v then JNull else JObj
     (pick v [''strategy''] @ [(''bounded'', JBool (jget v ''bounded'' = JBool True))]
      @ pick v [''contentRecords'', ''dailySnapshotRecords'', ''externalContentIds'', ''contentQueries'',
          ''dailyQueries'', ''rowsFetched'', ''fallbackRowsScanned'']))"

definition summarizeReliabilityMirror :: "jsval \<Rightarrow> jsval" where
  "summarizeReliabilityMirror v = (if \<not> is_objectlike v \<or> jget v ''pendingRead'' = JUndef then JNull else JObj
     (pick v [''status'', ''pendingRead'', ''delivered'', ''failedPermanent'', ''superseded'']
      @ [(''remainingUnknown'', JBool (jget v ''remainingUnknown'' = JBool True)),
         (''deferred'', JBool (jget v ''deferred'' = JBool True))] @ pick v [''errorCode'']))"

definition summarizeJobResult :: "jsval \<Rightarrow> jsval" where
  "summarizeJobResult r = (if \<not> is_objectlike r then r else JObj
     (pick r [''syncRunId'', ''platform'', ''source'', ''mode'']
      @ [(''readyToWrite'', or_null (nullish (jget r ''readyToWrite'') (jget r ''ok'')))]
      @ pick r [''rawRecords'', ''processedRawRecords'', ''incremental'', ''classificationRules'']
      @ [(''invalidClassificationRuleCount'', array_length (jget (jget r ''classificationDictionary'') ''invalidRows'')),
         (''rawChannels'', summarizeWriteResult (jget r ''rawChannels'')),
         (''rawVideos'', summarizeWriteResult (jget r ''rawVideos'')),
         (''rawAnalytics'', summarizeWriteResult (jget r ''rawAnalytics'')),
         (''content'', summarizeWriteResult (nullish (jget r ''content'') (jget (jget r ''syncPlan'') ''content''))),
         (''dailySnapshots'', summarizeWriteResult
            (nullish (jget r ''dailySnapshots'') (jget (jget r ''syncPlan'') ''dailySnapshots''))),
         (''accounts'', summarizeWriteResult (jget r ''accounts''))]
      @ pick r [''sourceSummary'', ''sourcePagination'', ''resumableWork'', ''continuationRequired'',
          ''operationId'', ''workKey'', ''checkpointSaved'', ''reportType'', ''reportSettingKey'', ''reportId'',
          ''period'', ''dataStatus'', ''baselineCoverageRate'', ''sourceSnapshotCount'', ''trackedContentCount'']
      @ [(''sourceRead'', summarizeSourceRead (jget r ''sourceRead'')),
         (''reliabilityMirror'', summarizeReliabilityMirror r)]
      @ pick r [''metricCount'', ''topContentLimit'', ''topContentSlotCount'', ''topContentCount'']
      @ [(''reportSnapshot'', summarizeWriteResult (jget r ''reportSnapshot'')),
         (''reportMetricValues'', summarizeWriteResult (jget r ''reportMetricValues'')),
         (''reportTopContent'', summarizeWriteResult (jget r ''reportTopContent''))]
      @ pick r [''reconciliation'']
      @ [(''issueCount'', array_length (jget r ''issues'')), (''warningCount'', array_length (jget r ''warnings'')),
         (''skippedRowCount'', array_length (jget r ''skippedRows'')),
         (''accountConflictCount'', array_length (jget r ''accountConflicts''))]))"

text \<open>Text outside ASCII stands as its UTF-8 bytes.\<close>

definition utf8 :: "nat list \<Rightarrow> string" where
  "utf8 = map char_of"

definition newline :: string where
  "newline = [CHR 0x0A]"

subsection \<open>The operational store of an invocation\<close>

text \<open>
  \<open>createOperationalStore\<close> (\<open>runtime-infrastructure.js\<close>): the durable store over the database and
  the queue. A run or alert it saves is followed by a wake-up message; a send that fails is logged
  (\<open>logMirrorSignalError\<close>) and changes nothing else.
\<close>

definition createOperationalStore :: "worker_env \<Rightarrow> jserror + unit" where
  "createOperationalStore env =
     (if \<not> we_state_db env then Inl (type_error ''D1ReliabilityStore requires a D1 database binding'')
      else if \<not> we_queue env then Inl (type_error ''DurableMirrorReliabilityStore requires queue.send'')
      else Inr ())"

definition mirror_wakeup :: "int \<Rightarrow> jsval" where
  "mirror_wakeup now = JObj [(''schemaVersion'', jint 1), (''type'', JStr RELIABILITY_MIRROR_DELIVER),
     (''requestedAt'', JStr (iso_text now))]"

definition logMirrorSignalError :: "jserror \<Rightarrow> (worker_world, unit) eff" where
  "logMirrorSignalError e = logQueueResult (JObj [(''ok'', JBool False),
     (''scope'', JStr ''reliability_mirror_signal''), (''stage'', JStr ''reliability_mirror_signal_failed''),
     (''code'', JStr ''RELIABILITY_MIRROR_QUEUE_SEND_FAILED''), (''error'', JStr (err_message e))])"

definition store_saveSyncRun :: "jsval \<Rightarrow> (worker_world, unit) eff" where
  "store_saveSyncRun entry =
     andThen (gets (\<lambda>w. ww_sendFaults w (ww_sends w))) (\<lambda>signal.
     andThen (clocked (durable_saveSyncRun entry signal)) (\<lambda>_.
     andThen read_clock (\<lambda>now.
     catching (queue_send (mirror_wakeup now) None) logMirrorSignalError)))"

definition store_saveSystemAlert :: "jsval \<Rightarrow> (worker_world, unit) eff" where
  "store_saveSystemAlert alert =
     andThen (gets (\<lambda>w. ww_sendFaults w (ww_sends w))) (\<lambda>signal.
     andThen (clocked (durable_saveSystemAlert alert signal)) (\<lambda>_.
     andThen read_clock (\<lambda>now.
     catching (queue_send (mirror_wakeup now) None) logMirrorSignalError)))"

definition store_saveDeadLetter :: "jsval \<Rightarrow> (worker_world, unit) eff" where
  "store_saveDeadLetter deadLetter = andThen (clocked (durable_saveDeadLetter deadLetter)) (\<lambda>_. ret ())"

end
