(* ===== verification/Queue_Recovery.thy ===== *)
theory Queue_Recovery
  imports Worker_Support
begin

text \<open>
  Recovery decisions of the queue worker (\<open>apps/sync-worker/src/queue-auto-recovery.js\<close>): the deferred
  retry of a scheduled Meta Ads job, which waits for the daily cutoff and for the other work of the
  day, and the automatic recovery of a retry-exhausted dead letter, which re-sends the job once the
  store has authorised it.
\<close>

subsection \<open>Policy\<close>

text \<open>\<open>isMetaAdsDeferredServiceFailure\<close> (\<open>packages/connectors/src/meta/meta-graph.client.js\<close>).\<close>

definition isMetaAdsDeferredServiceFailure :: "jserror \<Rightarrow> jsval \<Rightarrow> jsval \<Rightarrow> bool" where
  "isMetaAdsDeferredServiceFailure e operation status \<longleftrightarrow>
     (let details = err_details e in
      js_number (nullish status (jget details ''status'')) = NInt 400
      \<and> (case operation of JStr s \<Rightarrow> starts_with ''meta_ads.'' s | _ \<Rightarrow> False)
      \<and> js_number (nullish (jget details ''graphCode'') (jget details ''code'')) = NInt 2
      \<and> js_number (nullish (jget details ''graphSubcode'') (jget details ''error_subcode'')) = NInt 1504044)"

definition isExactCustomerProduction :: "worker_env \<Rightarrow> jserror + bool" where
  "isExactCustomerProduction env = bind_res (loadCustomerRuntimeConfig (we_vars env)) (\<lambda>c.
     Inr (rc_environment c = ''production'' \<and> rc_profileKey c = ''chemistry_k''
        \<and> rc_customerKey c = ''chemistry_k'' \<and> rc_infrastructureOwner c = ''customer''))"

definition job_type :: "queue_job option \<Rightarrow> jsval" where
  "job_type job = (case job of Some j \<Rightarrow> jget (jb_body j) ''type'' | None \<Rightarrow> JUndef)"

datatype meta_policy =
    MetaIneligible string
  | MetaEligible (localDayStart: int) (localDayEnd: int) (notBefore: int)

definition resolveDeferredMetaRetryPolicy ::
    "worker_env \<Rightarrow> queue_job option \<Rightarrow> queue_operation option \<Rightarrow> jserror option \<Rightarrow> jserror + meta_policy" where
  "resolveDeferredMetaRetryPolicy env job operation error =
     bind_res (readBoolean (env_var env ''MKT_META_DEFERRED_RETRY_ENABLED'') False) (\<lambda>on.
     if \<not> on then Inr (MetaIneligible ''disabled'')
     else case (job, operation) of
       (Some j, Some q) \<Rightarrow>
         (case qo_originalRequestedAt q of
            Some t \<Rightarrow>
              if jget (jb_body j) ''type'' \<noteq> JStr META_ADS_SYNC
                \<or> jget (jb_body j) ''trigger'' \<noteq> JStr ''scheduled''
                \<or> \<not> qo_stable q \<or> \<not> is_safe t \<or> qo_generation q \<noteq> Some t
              then Inr (MetaIneligible ''job_not_allowed'')
              else bind_res (isExactCustomerProduction env) (\<lambda>production.
                if \<not> production then Inr (MetaIneligible ''runtime_not_allowed'')
                else if (case error of
                    Some e \<Rightarrow> err_code e \<noteq> Some ''META_TRANSIENT_API_ERROR''
                      \<or> \<not> isMetaAdsDeferredServiceFailure e (jget (err_details e) ''operation'') JNull
                  | None \<Rightarrow> False)
                then Inr (MetaIneligible ''error_not_allowed'')
                else let day = (t + 25200000) div ms_per_day * ms_per_day - 25200000
                     in Inr (MetaEligible day (day + ms_per_day) (day + 10 * 3600000)))
          | None \<Rightarrow> Inr (MetaIneligible ''job_not_allowed''))
     | _ \<Rightarrow> Inr (MetaIneligible ''job_not_allowed''))"

record meta_check =
  mc_reason :: string
  mc_delaySeconds :: int

definition other_active :: "int \<Rightarrow> int \<Rightarrow> d1 \<Rightarrow> int" where
  "other_active day_start day_end s = int (length (filter (\<lambda>r. day_start \<le> wk_requested_at r
     \<and> wk_requested_at r < day_end \<and> wk_lifecycle r = Active \<and> wk_type r \<noteq> META_ADS_SYNC) (sync_work_runs s)))"

definition checkDeferredMetaRetry ::
    "worker_env \<Rightarrow> queue_job \<Rightarrow> queue_operation \<Rightarrow> queue_message \<Rightarrow> (worker_world, meta_check) eff" where
  "checkDeferredMetaRetry env job operation msg =
     check (resolveDeferredMetaRetryPolicy env (Some job) (Some operation) None) (\<lambda>policy.
     case policy of
       MetaIneligible why \<Rightarrow> ret \<lparr>mc_reason = why, mc_delaySeconds = 0\<rparr>
     | MetaEligible day_start day_end not_before \<Rightarrow>
         if readAttempts msg < 2 then ret \<lparr>mc_reason = [], mc_delaySeconds = 0\<rparr>
         else
         andThen read_clock (\<lambda>now.
         if now < not_before
         then ret \<lparr>mc_reason = ''schedule_pending'', mc_delaySeconds = min 43200 (ceil_div (not_before - now) 1000)\<rparr>
         else if \<not> we_state_db env
         then ret \<lparr>mc_reason = ''state_unavailable'', mc_delaySeconds = 1800\<rparr>
         else catching
           (andThen (with_db (query (other_active day_start day_end))) (\<lambda>n.
              if \<not> is_safe n then ret \<lparr>mc_reason = ''state_unavailable'', mc_delaySeconds = 1800\<rparr>
              else if 0 < n then ret \<lparr>mc_reason = ''other_channel_active'', mc_delaySeconds = 1800\<rparr>
              else ret \<lparr>mc_reason = ''ready'', mc_delaySeconds = 0\<rparr>))
           (\<lambda>_. ret \<lparr>mc_reason = ''state_unavailable'', mc_delaySeconds = 1800\<rparr>)))"

definition readDeferredMetaFailureDelaySeconds ::
    "worker_env \<Rightarrow> queue_job option \<Rightarrow> queue_operation option \<Rightarrow> jserror \<Rightarrow> (worker_world, int option) eff" where
  "readDeferredMetaFailureDelaySeconds env job operation error =
     check (resolveDeferredMetaRetryPolicy env job operation (Some error)) (\<lambda>policy.
     case policy of
       MetaIneligible _ \<Rightarrow> ret None
     | MetaEligible day_start day_end not_before \<Rightarrow>
         andThen read_clock (\<lambda>now.
           ret (Some (min 43200 (max 3600 (ceil_div (not_before - now) 1000))))))"

subsection \<open>Automatic recovery\<close>

definition readBoundedPositiveInteger :: "jsval \<Rightarrow> int \<Rightarrow> int \<Rightarrow> string \<Rightarrow> jserror + int" where
  "readBoundedPositiveInteger v fallback maximum f =
     (let bad = permanentError (f @ '' must be an integer between 1 and '' @ int_text maximum)
            ''MKT_QUEUE_AUTO_RECOVERY_CONFIG_INVALID'' (field_details f [])
      in if is_absent v then Inr fallback
         else case safe_int (js_number v) of
           Some n \<Rightarrow> if 0 < n \<and> n \<le> maximum then Inr n else Inl bad | None \<Rightarrow> Inl bad)"

definition PROTECTED_DLQ_IDS :: "string list" where
  "PROTECTED_DLQ_IDS = [''terminal:eafd8e43f1ae5113d12905301496fd4e'']"

definition AUTO_RECOVERY_JOB_TYPES :: "string list" where
  "AUTO_RECOVERY_JOB_TYPES = [TIKTOK_CREATOR_NATIVE_SYNC, FACEBOOK_ORGANIC_SYNC, INSTAGRAM_ORGANIC_SYNC,
     META_ADS_SYNC, GOOGLE_ADS_MANAGER_SIGNED_DELIVERY_PROCESS, YOUTUBE_ORGANIC_SYNC,
     WOOCOMMERCE_COMMERCE_SYNC, CHATWOOT_CONVERSATIONS_SYNC]"

record auto_policy =
  ap_maxRecoveries :: int
  ap_cooldownSeconds :: int
  ap_recoveryReference :: string

definition stable_identity :: "queue_operation \<Rightarrow> bool" where
  "stable_identity q \<longleftrightarrow> qo_stable q \<and> qo_operationId q \<notin> {None, Some []} \<and> qo_workKey q \<notin> {None, Some []}
     \<and> (case qo_generation q of Some g \<Rightarrow> is_safe g | None \<Rightarrow> False) \<and> qo_generation q = qo_originalRequestedAt q"

text \<open>The result: the reason of a refusal, or the policy.\<close>

definition resolveQueueAutoRecoveryPolicy ::
    "worker_env \<Rightarrow> queue_job option \<Rightarrow> queue_operation option \<Rightarrow> string \<Rightarrow> jserror + (string + auto_policy)" where
  "resolveQueueAutoRecoveryPolicy env job operation dlqId =
     bind_res (readBoolean (env_var env ''MKT_QUEUE_AUTO_RECOVERY_ENABLED'') False) (\<lambda>on.
     if \<not> on then Inr (Inl ''disabled'')
     else bind_res (isExactCustomerProduction env) (\<lambda>production.
     if \<not> production then Inr (Inl ''runtime_not_allowed'')
     else if dlqId \<in> set PROTECTED_DLQ_IDS then Inr (Inl ''protected_incident'')
     else if job_type job \<notin> JStr ` set AUTO_RECOVERY_JOB_TYPES then Inr (Inl ''job_type_not_allowed'')
     else if (case operation of Some q \<Rightarrow> \<not> stable_identity q | None \<Rightarrow> True) then Inr (Inl ''unstable_identity'')
     else bind_res (readBoundedPositiveInteger (env_var env ''MKT_QUEUE_AUTO_RECOVERY_MAX_ATTEMPTS'') 5 10
            ''MKT_QUEUE_AUTO_RECOVERY_MAX_ATTEMPTS'') (\<lambda>maxr.
          bind_res (readBoundedPositiveInteger (env_var env ''MKT_QUEUE_AUTO_RECOVERY_COOLDOWN_SECONDS'') 120 43200
            ''MKT_QUEUE_AUTO_RECOVERY_COOLDOWN_SECONDS'') (\<lambda>cool.
          Inr (Inr \<lparr>ap_maxRecoveries = maxr, ap_cooldownSeconds = cool,
                    ap_recoveryReference = ''auto-recovery:'' @ dlqId\<rparr>)))))"

definition policy_value :: "auto_policy \<Rightarrow> (string \<times> jsval) list" where
  "policy_value p = [(''eligible'', JBool True), (''maxRecoveries'', jint (ap_maxRecoveries p)),
     (''cooldownSeconds'', jint (ap_cooldownSeconds p)), (''recoveryReference'', JStr (ap_recoveryReference p))]"

fun disposition_text :: "auto_disposition \<Rightarrow> string" where
  "disposition_text AutoCompleted = ''completed''"
| "disposition_text AutoAlreadyCompleted = ''already_completed''"
| "disposition_text BudgetExhausted = ''recovery_budget_exhausted''"
| "disposition_text Authorized = ''authorized''"

definition authorization_value :: "auto_reply \<Rightarrow> (string \<times> jsval) list" where
  "authorization_value a = [(''disposition'', JStr (disposition_text (ar_disposition a))),
     (''sendRequired'', JBool (ar_sendRequired a)), (''delaySeconds'', jint (ar_delaySeconds a)),
     (''dlqId'', JStr (ar_dlqId a)), (''operationId'', jopt (ar_operationId a)), (''workKey'', jopt (ar_workKey a)),
     (''generation'', jopt_int (ar_generation a)), (''lifecycleStatus'', JStr (lifecycle_text (ar_lifecycle a)))]"

definition auto_recovery_input :: "queue_job \<Rightarrow> queue_operation \<Rightarrow> string \<Rightarrow> auto_policy \<Rightarrow> jsval" where
  "auto_recovery_input j q dlqId p = JObj [(''dlqId'', JStr dlqId), (''operationId'', jopt (qo_operationId q)),
     (''workKey'', jopt (qo_workKey q)), (''generation'', jopt_int (qo_generation q)),
     (''originalRequestedAt'', jopt_int (qo_originalRequestedAt q)), (''jobType'', jget (jb_body j) ''type''),
     (''recoveryReference'', JStr (ap_recoveryReference p)), (''maxRecoveries'', jint (ap_maxRecoveries p)),
     (''cooldownSeconds'', jint (ap_cooldownSeconds p))]"

definition mark_queued_input :: "queue_operation \<Rightarrow> string \<Rightarrow> auto_policy \<Rightarrow> jsval" where
  "mark_queued_input q dlqId p = JObj [(''dlqId'', JStr dlqId), (''operationId'', jopt (qo_operationId q)),
     (''workKey'', jopt (qo_workKey q)), (''recoveryReference'', JStr (ap_recoveryReference p))]"

text \<open>The reply is the object that the caller logs.\<close>

definition attemptQueueAutoRecovery ::
    "worker_env \<Rightarrow> queue_job option \<Rightarrow> queue_operation option \<Rightarrow> string \<Rightarrow> (worker_world, jsval) eff" where
  "attemptQueueAutoRecovery env job operation dlqId =
     check (resolveQueueAutoRecoveryPolicy env job operation dlqId) (\<lambda>decision.
     case (decision, job, operation) of
       (Inr p, Some j, Some q) \<Rightarrow>
         if \<not> we_state_db env
         then throw (type_error ''Queue auto-recovery requires a durable Queue operation store'')
         else if \<not> we_queue env
         then throw (permanentError ''Queue auto-recovery binding is unavailable''
                ''MKT_QUEUE_AUTO_RECOVERY_BINDING_MISSING'' JUndef)
         else
         andThen (clocked (authorizeSafeAutoRecovery (auto_recovery_input j q dlqId p))) (\<lambda>a.
         if \<not> ar_sendRequired a then ret (JObj (policy_value p @ authorization_value a))
         else
         andThen (queue_send (jb_body j) (Some (ar_delaySeconds a))) (\<lambda>_.
         andThen (clocked (markSafeAutoRecoveryQueued (mark_queued_input q dlqId p))) (\<lambda>_.
         ret (JObj (policy_value p @ authorization_value a @ [(''queued'', JBool True)])))))
     | (Inl why, _) \<Rightarrow> ret (JObj [(''eligible'', JBool False), (''reason'', JStr why)])
     | _ \<Rightarrow> ret JNull)"

end
