(* ===== verification/Queue_Router.thy ===== *)
theory Queue_Router
  imports Queue_Recovery
begin

text \<open>
  The queue router (\<open>apps/sync-worker/src/queue-batch-router.js\<close>): a delivered batch is the main
  queue's, the dead-letter queue's, or of an unknown queue. A message of the main queue runs its
  job and is acknowledged, or is retried, or is stored as a dead letter; one of the dead-letter
  queue is stored and may be recovered; one of an unknown queue is quarantined and never run.

  The job to run is a parameter, as it is in the code (\<open>dependencies.processJob\<close>). The local
  variables of a message (\<open>job\<close>, \<open>operation\<close>, \<open>mainQueueAttempts\<close>), which its \<open>catch\<close> block reads,
  are part of the state.
\<close>

subsection \<open>Classification\<close>

datatype queue_role = MainQueue | DeadLetterQueue | UnknownQueue

record queue_batch =
  qb_queue :: jsval
  qb_messages :: "queue_message list"

definition classifyQueueBatch :: "queue_batch \<Rightarrow> worker_env \<Rightarrow> jserror + queue_role" where
  "classifyQueueBatch bt env =
     bind_res (requireQueueName (env_var env ''MKT_MAIN_QUEUE_NAME'') ''MKT_MAIN_QUEUE_NAME'') (\<lambda>mainQueue.
     bind_res (requireQueueName (env_var env ''MKT_DLQ_QUEUE_NAME'') ''MKT_DLQ_QUEUE_NAME'') (\<lambda>dlqQueue.
     if mainQueue = dlqQueue
     then Inl (permanentError ''Main queue and DLQ must use different names'' ''MKT_QUEUE_ROUTING_CONFIG_INVALID'' JUndef)
     else bind_res (requireQueueName (qb_queue bt) ''batch.queue'') (\<lambda>actual.
       Inr (if actual = mainQueue then MainQueue else if actual = dlqQueue then DeadLetterQueue else UnknownQueue))))"

definition router_platform :: "jsval \<Rightarrow> string" where
  "router_platform ty = (case ty of
       JStr t \<Rightarrow>
         if starts_with ''tiktok.ads.'' t then ''tiktok_ads''
         else if starts_with ''report.'' t then ''tiktok''
         else if split_dot t \<in> {''facebook'', ''instagram'', ''tiktok'', ''youtube'', ''chatwoot''} then split_dot t
         else ''system''
     | _ \<Rightarrow> ''system'')"

definition shouldCreateQueueFailureAlert :: "jsval \<Rightarrow> bool" where
  "shouldCreateQueueFailureAlert ty \<longleftrightarrow> ty \<noteq> JStr RELIABILITY_MIRROR_DELIVER"

definition requireMessageId :: "jsval \<Rightarrow> jserror + string" where
  "requireMessageId v = (case optionalText v of Some t \<Rightarrow> Inr t
     | None \<Rightarrow> Inl (config_error ''Queue message.id is required'' JUndef))"

subsection \<open>Work of a message\<close>

definition default_work_config :: work_config where
  "default_work_config = \<lparr>wc_unitPageSize = 100, wc_retentionMs = 7 * 86400000\<rparr>"

fun split_comma :: "string \<Rightarrow> string list" where
  "split_comma [] = [[]]"
| "split_comma (c # s) = (if c = CHR '','' then [] # split_comma s
     else case split_comma s of w # ws \<Rightarrow> (c # w) # ws | [] \<Rightarrow> [[c]])"

definition readProtectedCleanupWorkKeys :: "jsval \<Rightarrow> jserror + string list" where
  "readProtectedCleanupWorkKeys v =
     (if is_absent v then Inr []
      else let items = filter (\<lambda>t. t \<noteq> []) (map trim (split_comma (js_text v)))
           in if 25 < length items \<or> \<not> distinct items
              then Inl (config_error ''Protected resumable Work cleanup keys are invalid'' JUndef)
              else Inr items)"

definition cleanupQueueCapacityBeforeAttempts :: "worker_env \<Rightarrow> (worker_world, unit) eff" where
  "cleanupQueueCapacityBeforeAttempts env =
     (if \<not> we_state_db env then ret ()
      else check (readProtectedCleanupWorkKeys (env_var env ''MKT_RESUMABLE_WORK_CLEANUP_PROTECTED_KEYS'')) (\<lambda>keys.
        andThen (clocked (work_cleanupSupersededWorkUnits
          (JObj [(''limit'', jint 25), (''protectedWorkKeys'', JArr (map JStr keys))]))) (\<lambda>_. ret ())))"

definition STABLE_RESUMABLE_WORK_JOB_TYPES :: "string list" where
  "STABLE_RESUMABLE_WORK_JOB_TYPES = [TIKTOK_ADS_DAILY_SYNC, TIKTOK_CREATOR_NATIVE_SYNC, FACEBOOK_ORGANIC_SYNC,
     INSTAGRAM_ORGANIC_SYNC, META_ADS_SYNC, GOOGLE_ADS_MANAGER_SIGNED_DELIVERY_PROCESS, WOOCOMMERCE_COMMERCE_SYNC]"

definition text_of :: "jsval \<Rightarrow> string option" where
  "text_of v = (case v of JStr s \<Rightarrow> Some s | _ \<Rightarrow> None)"

text \<open>The work a failed message terminates: \<open>None\<close> when there is none to terminate.\<close>

definition terminal_work_key ::
    "worker_env \<Rightarrow> queue_message \<Rightarrow> jsval \<Rightarrow> queue_operation option \<Rightarrow> jserror + string option" where
  "terminal_work_key env msg ty operation =
     (let platform = router_platform ty;
          known = (case operation of Some q \<Rightarrow> qo_workKey q | None \<Rightarrow> None);
          stable = (case operation of Some q \<Rightarrow> qo_stable q | None \<Rightarrow> False)
      in if platform \<notin> {''youtube'', ''tiktok'', ''chatwoot''} \<and> ty \<notin> JStr ` set STABLE_RESUMABLE_WORK_JOB_TYPES
         then Inr None
         else if \<not> we_state_db env then Inr None
         else if known = None \<and> \<not> stable \<and> \<not> isStableOperationJobType (text_of ty) (JObj [])
         then bind_res (requireMessageId (qm_id msg)) (\<lambda>i. Inr (Some (platform @ '':'' @ i)))
         else Inr known)"

definition markQueueWorkTerminal ::
    "worker_env \<Rightarrow> queue_message \<Rightarrow> jsval \<Rightarrow> queue_operation option \<Rightarrow> string \<Rightarrow> string \<Rightarrow> (worker_world, unit) eff" where
  "markQueueWorkTerminal env msg ty operation reason audit =
     check (terminal_work_key env msg ty operation) (\<lambda>key.
     case key of
       None \<Rightarrow> ret ()
     | Some k \<Rightarrow>
         andThen (clocked (safe_abandonWork default_work_config
           (JObj [(''workKey'', JStr k), (''reason'', JStr reason), (''auditReference'', JStr audit)]))) (\<lambda>_.
         andThen (clocked (work_cleanupExpiredWork (JObj [(''limit'', jint 25)]))) (\<lambda>_. ret ())))"

subsection \<open>Failure records\<close>

definition operation_fields :: "queue_operation option \<Rightarrow> (string \<times> jsval) list" where
  "operation_fields operation =
     [(''operationId'', case operation of Some q \<Rightarrow> jopt (qo_operationId q) | None \<Rightarrow> JNull),
      (''workKey'', case operation of Some q \<Rightarrow> jopt (qo_workKey q) | None \<Rightarrow> JNull)]"

definition metadata_value :: "string \<Rightarrow> queue_operation option \<Rightarrow> int \<Rightarrow> int \<Rightarrow> jsval" where
  "metadata_value dlqId operation mainAttempts dlqAttempts = JObj ([(''dlqId'', JStr dlqId)]
     @ operation_fields operation
     @ [(''generation'', case operation of Some q \<Rightarrow> jopt_int (qo_generation q) | None \<Rightarrow> JNull),
        (''originalRequestedAt'', case operation of Some q \<Rightarrow> jopt_int (qo_originalRequestedAt q) | None \<Rightarrow> JNull),
        (''mainQueueAttempts'', jint mainAttempts), (''dlqDeliveryAttempts'', jint dlqAttempts)])"

definition dead_letter_value ::
    "string \<Rightarrow> queue_message \<Rightarrow> jsval \<Rightarrow> queue_job option \<Rightarrow> jsval \<Rightarrow> string \<Rightarrow> int \<Rightarrow> jsval" where
  "dead_letter_value dlqId msg queue job code errorMessage retries =
     JObj [(''dlqId'', JStr dlqId), (''messageId'', qm_id msg), (''queueName'', queue),
       (''jobType'', or_null (job_type job)),
       (''schemaVersion'', case job of Some j \<Rightarrow> jint (jb_schemaVersion j) | None \<Rightarrow> JNull),
       (''payload'', case job of Some j \<Rightarrow> jb_body j | None \<Rightarrow> qm_body msg),
       (''errorCode'', code), (''errorMessage'', JStr errorMessage), (''retryCount'', jint retries),
       (''status'', JStr ''open'')]"

definition save_alert :: "js_host \<Rightarrow> jsval \<Rightarrow> (worker_world, unit) eff" where
  "save_alert host input =
     andThen read_clock (\<lambda>now. check (createSystemAlert host [] now input) store_saveSystemAlert)"

definition error_code_or :: "jserror \<Rightarrow> string \<Rightarrow> jsval" where
  "error_code_or e d = (case err_code e of Some c \<Rightarrow> JStr c | None \<Rightarrow> JStr d)"

definition type_text :: "queue_job option \<Rightarrow> string" where
  "type_text job = js_text (nullish (job_type job) (JStr ''unknown''))"

definition permanent_alert ::
    "string \<Rightarrow> queue_message \<Rightarrow> queue_job option \<Rightarrow> queue_operation option \<Rightarrow> int \<Rightarrow> jserror \<Rightarrow> jsval" where
  "permanent_alert dlqId msg job operation attempts e =
     JObj [(''alertId'', JStr (''alert:'' @ dlqId)), (''alertType'', JStr ''queue_permanent_failure''),
       (''severity'', JStr ''critical''), (''platform'', JStr (router_platform (job_type job))),
       (''errorCode'', error_code_or e ''PERMANENT_QUEUE_FAILURE''),
       (''message'', JStr (''Queue job '' @ utf8 [0xE0, 0xB8, 0xAB, 0xE0, 0xB8, 0xA2, 0xE0, 0xB8, 0xB8, 0xE0, 0xB8, 0x94,
            0xE0, 0xB9, 0x81, 0xE0, 0xB8, 0x9A, 0xE0, 0xB8, 0x9A] @ '' Permanent'' @ newline
          @ ''message_id='' @ js_text (qm_id msg) @ newline @ ''job_type='' @ type_text job @ newline
          @ ''error='' @ err_message e)),
       (''details'', JObj ((''mainQueueAttempts'', jint attempts) # operation_fields operation))]"

definition recordPermanentQueueFailure ::
    "js_host \<Rightarrow> worker_env \<Rightarrow> queue_batch \<Rightarrow> queue_message \<Rightarrow> queue_job option \<Rightarrow> queue_operation option
     \<Rightarrow> int \<Rightarrow> jserror \<Rightarrow> (worker_world, unit) eff" where
  "recordPermanentQueueFailure host env bt msg job operation attempts e =
     check (createOperationalStore env) (\<lambda>_.
     let dlqId = ''terminal:'' @ js_text (qm_id msg) in
     andThen (markQueueWorkTerminal env msg (job_type job) operation ''QUEUE_PERMANENT_FAILURE'' dlqId) (\<lambda>_.
     andThen (store_saveDeadLetter (dead_letter_value dlqId msg (or_null (qb_queue bt)) job
       (error_code_or e ''PERMANENT_QUEUE_FAILURE'') (err_message e) attempts)) (\<lambda>_.
     andThen (clocked (saveDeadLetterMetadata (metadata_value dlqId operation attempts 0))) (\<lambda>_.
     if shouldCreateQueueFailureAlert (job_type job)
     then save_alert host (permanent_alert dlqId msg job operation attempts e)
     else ret ()))))"

subsection \<open>The main queue\<close>

record job_call =
  jc_job :: queue_job
  jc_message :: queue_message
  jc_operation :: queue_operation
  jc_attempts :: int

type_synonym job_processor = "job_call \<Rightarrow> (worker_world, jsval) eff"

definition set_job :: "queue_job \<Rightarrow> (worker_world, unit) eff" where
  "set_job j = modify (\<lambda>w. w\<lparr>ww_job := Some j\<rparr>)"

definition set_operation :: "queue_operation \<Rightarrow> (worker_world, unit) eff" where
  "set_operation q = modify (\<lambda>w. w\<lparr>ww_operation := Some q\<rparr>)"

definition set_attempts :: "int \<Rightarrow> (worker_world, unit) eff" where
  "set_attempts n = modify (\<lambda>w. w\<lparr>ww_attempts := n\<rparr>)"

definition fresh_variables :: "queue_message \<Rightarrow> (worker_world, unit) eff" where
  "fresh_variables msg = modify (\<lambda>w. w\<lparr>ww_job := None, ww_operation := None, ww_attempts := readAttempts msg\<rparr>)"

definition attempt_value :: "queue_operation \<Rightarrow> queue_message \<Rightarrow> jsval" where
  "attempt_value q msg = JObj [(''operationId'', jopt (qo_operationId q)), (''workKey'', jopt (qo_workKey q)),
     (''generation'', jopt_int (qo_generation q)), (''originalRequestedAt'', jopt_int (qo_originalRequestedAt q)),
     (''messageId'', qm_id msg)]"

definition completion_value :: "queue_operation \<Rightarrow> jsval" where
  "completion_value q = JObj [(''workKey'', jopt (qo_workKey q)), (''generation'', jopt_int (qo_generation q))]"

definition success_line :: "queue_message \<Rightarrow> int \<Rightarrow> queue_operation \<Rightarrow> queue_job \<Rightarrow> jsval \<Rightarrow> jsval" where
  "success_line msg attempts q j result = JObj ([(''ok'', JBool True), (''messageId'', qm_id msg),
     (''mainQueueAttempts'', jint attempts)] @ operation_fields (Some q)
     @ [(''schemaVersion'', jint (jb_schemaVersion j)), (''type'', jget (jb_body j) ''type''),
        (''result'', summarizeJobResult result)])"

definition run_stable_job ::
    "worker_env \<Rightarrow> job_processor \<Rightarrow> queue_message \<Rightarrow> queue_job \<Rightarrow> queue_operation \<Rightarrow> (worker_world, unit) eff" where
  "run_stable_job env processJob msg j q =
     andThen (if qo_stable q \<and> we_state_db env
              then andThen (clocked (recordMainQueueAttempt (attempt_value q msg)))
                     (\<lambda>v. set_attempts (at_mainQueueAttempts v))
              else ret ()) (\<lambda>_.
     andThen (gets ww_attempts) (\<lambda>attempts.
     andThen (processJob \<lparr>jc_job = j, jc_message = msg, jc_operation = q, jc_attempts = attempts\<rparr>) (\<lambda>result.
     andThen (if qo_stable q \<and> we_state_db env
              then andThen (clocked (completeSafeAutoRecoveriesForWork (completion_value q))) (\<lambda>_. ret ())
              else ret ()) (\<lambda>_.
     andThen (logQueueResult (success_line msg attempts q j result)) (\<lambda>_.
     settle msg Ack)))))"

definition deferred_line :: "meta_check \<Rightarrow> jsval" where
  "deferred_line m = JObj [(''ok'', JBool True), (''scope'', JStr ''deferred_meta_retry''),
     (''status'', JStr (mc_reason m)), (''delaySeconds'', jint (mc_delaySeconds m))]"

definition try_main_message ::
    "js_host \<Rightarrow> worker_env \<Rightarrow> job_processor \<Rightarrow> queue_message \<Rightarrow> (worker_world, unit) eff" where
  "try_main_message host env processJob msg =
     andThen (cleanupQueueCapacityBeforeAttempts env) (\<lambda>_.
     andThen read_clock (\<lambda>now.
     check (normalizeQueueJobMessage host msg now) (\<lambda>j.
     andThen (set_job j) (\<lambda>_.
     check (resolveQueueOperation host j msg) (\<lambda>q.
     andThen (set_operation q) (\<lambda>_.
     andThen (checkDeferredMetaRetry env j q msg) (\<lambda>m.
     if 0 < mc_delaySeconds m
     then andThen (logQueueResult (deferred_line m)) (\<lambda>_. settle msg (Retry (mc_delaySeconds m)))
     else run_stable_job env processJob msg j q)))))))"

definition failure_line :: "queue_message \<Rightarrow> worker_world \<Rightarrow> jserror \<Rightarrow> jsval" where
  "failure_line msg w e = JObj ([(''ok'', JBool False), (''messageId'', qm_id msg),
     (''mainQueueAttempts'', jint (ww_attempts w))] @ operation_fields (ww_operation w)
     @ [(''schemaVersion'', case ww_job w of Some j \<Rightarrow> jint (jb_schemaVersion j) | None \<Rightarrow> JNull),
        (''type'', or_null (job_type (ww_job w))), (''syncRunId'', jopt (err_syncRunId e)),
        (''reliabilityHandled'', JBool (err_reliabilityHandled e)),
        (''retryable'', JBool (isRetryableError e)), (''error'', JStr (err_message e)), (''code'', err_code_val e)])"

definition error_line :: "string \<Rightarrow> queue_message \<Rightarrow> (string \<times> jsval) list \<Rightarrow> jserror \<Rightarrow> jsval" where
  "error_line sc msg extra e = JObj ([(''ok'', JBool False), (''scope'', JStr sc), (''messageId'', qm_id msg)]
     @ extra @ [(''error'', JStr (err_message e)), (''code'', err_code_val e)])"

definition retry_after_error :: "worker_env \<Rightarrow> queue_message \<Rightarrow> jserror \<Rightarrow> (worker_world, unit) eff" where
  "retry_after_error env msg e =
     andThen read_clock (\<lambda>now. settle msg (Retry (readRetryDelaySeconds env msg (Some e) now)))"

definition handle_main_error ::
    "js_host \<Rightarrow> worker_env \<Rightarrow> queue_batch \<Rightarrow> queue_message \<Rightarrow> jserror \<Rightarrow> (worker_world, unit) eff" where
  "handle_main_error host env bt msg e =
     andThen (gets id) (\<lambda>w.
     andThen (logQueueResult (failure_line msg w e)) (\<lambda>_.
     if isRetryableError e
     then andThen (readDeferredMetaFailureDelaySeconds env (ww_job w) (ww_operation w) e) (\<lambda>delay.
          case delay of
            Some d \<Rightarrow> settle msg (Retry d)
          | None \<Rightarrow> retry_after_error env msg e)
     else andThen
       (catching
         (andThen (recordPermanentQueueFailure host env bt msg (ww_job w) (ww_operation w) (ww_attempts w) e)
            (\<lambda>_. ret True))
         (\<lambda>pe. andThen (logQueueResult (error_line ''terminal_failure_persistence'' msg [] pe)) (\<lambda>_.
               andThen (retry_after_error env msg pe) (\<lambda>_. ret False))))
       (\<lambda>stored. if stored then settle msg Ack else ret ())))"

definition process_main_message ::
    "js_host \<Rightarrow> worker_env \<Rightarrow> job_processor \<Rightarrow> queue_batch \<Rightarrow> queue_message \<Rightarrow> (worker_world, unit) eff" where
  "process_main_message host env processJob bt msg =
     andThen (fresh_variables msg) (\<lambda>_.
     catching (try_main_message host env processJob msg) (handle_main_error host env bt msg))"

subsection \<open>The dead-letter queue\<close>

definition dead_letter_alert :: "string \<Rightarrow> queue_batch \<Rightarrow> queue_message \<Rightarrow> queue_job option \<Rightarrow> queue_operation option
    \<Rightarrow> int \<Rightarrow> int \<Rightarrow> jsval" where
  "dead_letter_alert dlqId bt msg job operation attempts deliveries =
     JObj [(''alertId'', JStr (''alert:'' @ dlqId)), (''alertType'', JStr ''queue_dead_letter''),
       (''severity'', JStr ''critical''), (''platform'', JStr (router_platform (job_type job))),
       (''status'', JStr ''open''), (''errorCode'', JStr ''QUEUE_RETRY_EXHAUSTED''),
       (''message'', JStr (''Queue job '' @ utf8 [0xE0, 0xB9, 0x84, 0xE0, 0xB8, 0x9B, 0xE0, 0xB8, 0x96, 0xE0, 0xB8, 0xB6,
            0xE0, 0xB8, 0x87] @ '' DLQ '' @ utf8 [0xE0, 0xB8, 0xAB, 0xE0, 0xB8, 0xA5, 0xE0, 0xB8, 0xB1, 0xE0, 0xB8, 0x87]
          @ '' Retry '' @ utf8 [0xE0, 0xB8, 0x84, 0xE0, 0xB8, 0xA3, 0xE0, 0xB8, 0x9A] @ newline
          @ ''message_id='' @ js_text (qm_id msg) @ newline @ ''job_type='' @ type_text job)),
       (''details'', JObj ([(''queueName'', qb_queue bt), (''mainQueueAttempts'', jint attempts),
          (''dlqDeliveryAttempts'', jint deliveries)] @ operation_fields operation))]"

text \<open>
  The identity of a dead letter: a body that does not parse, or has no valid identity, leaves what
  was assigned before the throw.
\<close>

definition dead_letter_identity ::
    "js_host \<Rightarrow> queue_message \<Rightarrow> (worker_world, queue_job option \<times> queue_operation option) eff" where
  "dead_letter_identity host msg =
     andThen read_clock (\<lambda>now.
     ret (case normalizeQueueJobMessage host msg now of
            Inl _ \<Rightarrow> (None, None)
          | Inr j \<Rightarrow> (Some j, case resolveQueueOperation host j msg of Inl _ \<Rightarrow> None | Inr q \<Rightarrow> Some q)))"

definition read_dead_letter_attempts :: "worker_env \<Rightarrow> queue_operation option \<Rightarrow> (worker_world, int) eff" where
  "read_dead_letter_attempts env operation =
     (case operation of
        Some q \<Rightarrow>
          if qo_operationId q \<notin> {None, Some []} \<and> we_state_db env
          then andThen (with_db (readMainQueueAttempts (JObj [(''operationId'', jopt (qo_operationId q))])))
                 (\<lambda>v. ret (if at_tracked v then at_mainQueueAttempts v else 0))
          else ret 0
      | None \<Rightarrow> ret 0)"

definition dead_letter_line :: "string \<Rightarrow> queue_message \<Rightarrow> queue_operation option \<Rightarrow> int \<Rightarrow> int \<Rightarrow> jsval \<Rightarrow> jsval" where
  "dead_letter_line dlqId msg operation attempts deliveries recovery =
     JObj ([(''ok'', JBool False), (''scope'', JStr ''dead_letter''), (''messageId'', qm_id msg),
       (''dlqId'', JStr dlqId), (''mainQueueAttempts'', jint attempts), (''dlqDeliveryAttempts'', jint deliveries)]
       @ operation_fields operation @ [(''persisted'', JBool True), (''autoRecovery'', recovery)])"

definition store_dead_letter ::
    "js_host \<Rightarrow> worker_env \<Rightarrow> queue_batch \<Rightarrow> queue_message \<Rightarrow> queue_job option \<Rightarrow> queue_operation option
     \<Rightarrow> string \<Rightarrow> int \<Rightarrow> int \<Rightarrow> (worker_world, unit) eff" where
  "store_dead_letter host env bt msg job operation dlqId attempts deliveries =
     andThen (markQueueWorkTerminal env msg (job_type job) operation ''QUEUE_RETRY_EXHAUSTED'' dlqId) (\<lambda>_.
     andThen (store_saveDeadLetter (dead_letter_value dlqId msg (qb_queue bt) job (JStr ''QUEUE_RETRY_EXHAUSTED'')
       ''Cloudflare Queue moved this message to the dead-letter queue after retry exhaustion'' attempts)) (\<lambda>_.
     andThen (clocked (saveDeadLetterMetadata (metadata_value dlqId operation attempts deliveries))) (\<lambda>_.
     if shouldCreateQueueFailureAlert (job_type job)
     then save_alert host (dead_letter_alert dlqId bt msg job operation attempts deliveries)
     else ret ())))"

definition process_dead_letter ::
    "js_host \<Rightarrow> worker_env \<Rightarrow> queue_batch \<Rightarrow> queue_message \<Rightarrow> (worker_world, unit) eff" where
  "process_dead_letter host env bt msg =
     andThen (dead_letter_identity host msg) (\<lambda>(job, operation).
     let dlqId = ''dlq:'' @ js_text (qm_id msg); deliveries = readAttempts msg in
     andThen (read_dead_letter_attempts env operation) (\<lambda>attempts.
     catching
       (andThen (store_dead_letter host env bt msg job operation dlqId attempts deliveries) (\<lambda>_.
        andThen (attemptQueueAutoRecovery env job operation dlqId) (\<lambda>recovery.
        andThen (logQueueResult (dead_letter_line dlqId msg operation attempts deliveries recovery)) (\<lambda>_.
        settle msg Ack))))
       (\<lambda>e. andThen (logQueueResult (error_line ''dead_letter'' msg
              [(''dlqId'', JStr dlqId), (''persisted'', JBool False)] e)) (\<lambda>_.
            retry_after_error env msg e))))"

subsection \<open>An unknown queue\<close>

definition unknown_queue_alert :: "string \<Rightarrow> queue_batch \<Rightarrow> queue_message \<Rightarrow> jsval" where
  "unknown_queue_alert dlqId bt msg =
     JObj [(''alertId'', JStr (''alert:'' @ dlqId)), (''alertType'', JStr ''unknown_queue_routing''),
       (''severity'', JStr ''critical''), (''platform'', JStr ''system''), (''status'', JStr ''open''),
       (''errorCode'', JStr ''UNKNOWN_QUEUE_ROUTING''),
       (''message'', JStr (utf8 [0xE0, 0xB8, 0x9B, 0xE0, 0xB8, 0x8F, 0xE0, 0xB8, 0xB4, 0xE0, 0xB9, 0x80, 0xE0, 0xB8, 0xAA,
            0xE0, 0xB8, 0x98] @ '' Queue '' @ utf8 [0xE0, 0xB8, 0x97, 0xE0, 0xB8, 0xB5, 0xE0, 0xB9, 0x88, 0xE0, 0xB9,
            0x84, 0xE0, 0xB8, 0xA1, 0xE0, 0xB9, 0x88, 0xE0, 0xB8, 0xA3, 0xE0, 0xB8, 0xB9, 0xE0, 0xB9, 0x89, 0xE0, 0xB8,
            0x88, 0xE0, 0xB8, 0xB1, 0xE0, 0xB8, 0x81, 0xE0, 0xB9, 0x82, 0xE0, 0xB8, 0x94, 0xE0, 0xB8, 0xA2, 0xE0, 0xB9,
            0x84, 0xE0, 0xB8, 0xA1, 0xE0, 0xB9, 0x88] @ '' Execute ''
          @ utf8 [0xE0, 0xB8, 0x87, 0xE0, 0xB8, 0xB2, 0xE0, 0xB8, 0x99] @ newline
          @ ''queue='' @ js_text (qb_queue bt) @ newline @ ''message_id='' @ js_text (qm_id msg))),
       (''details'', JObj [(''queueName'', qb_queue bt)])]"

definition process_unknown_message ::
    "js_host \<Rightarrow> worker_env \<Rightarrow> queue_batch \<Rightarrow> queue_message \<Rightarrow> (worker_world, unit) eff" where
  "process_unknown_message host env bt msg =
     (let dlqId = ''unknown-queue:'' @ js_text (qb_queue bt) @ '':'' @ js_text (qm_id msg) in
      catching
        (andThen (store_saveDeadLetter (dead_letter_value dlqId msg (qb_queue bt) None
           (JStr ''UNKNOWN_QUEUE_ROUTING'')
           (''Queue '' @ js_text (qb_queue bt) @ '' is not configured as main or DLQ'') (readAttempts msg))) (\<lambda>_.
         andThen (save_alert host (unknown_queue_alert dlqId bt msg)) (\<lambda>_.
         settle msg Ack)))
        (\<lambda>e. andThen (logQueueResult (error_line ''unknown_queue_quarantine'' msg [] e)) (\<lambda>_.
             retry_after_error env msg e)))"

subsection \<open>The router\<close>

definition routeQueueBatch ::
    "js_host \<Rightarrow> worker_env \<Rightarrow> job_processor \<Rightarrow> queue_batch \<Rightarrow> (worker_world, unit) eff" where
  "routeQueueBatch host env processJob bt =
     check (classifyQueueBatch bt env) (\<lambda>role.
     case role of
       MainQueue \<Rightarrow> for_each (process_main_message host env processJob bt) (qb_messages bt)
     | DeadLetterQueue \<Rightarrow> check (createOperationalStore env)
         (\<lambda>_. for_each (process_dead_letter host env bt) (qb_messages bt))
     | UnknownQueue \<Rightarrow> check (createOperationalStore env)
         (\<lambda>_. for_each (process_unknown_message host env bt) (qb_messages bt)))"

end
