(* ===== verification/Queue_Router_Guarantees.thy ===== *)
theory Queue_Router_Guarantees
  imports Queue_Router
begin

text \<open>
  Guarantees of the queue router. A delivered batch settles its messages in order, each exactly
  once; an acknowledged message had its job run to the end or is stored as a dead letter; every
  retry delay is between one second and twelve hours; the recovery budget of a work survives every
  batch; and a recovery message is sent only under the policy and after the store's authorisation.

  The locale \<open>db_frame\<close> names what the router asks of the stores: a relation on databases that
  every operation it calls respects. \<open>worker_frame\<close> lifts it to the worker's state, and
  \<open>settling_frame\<close> adds the settlement of messages.
\<close>

subsection \<open>Frames\<close>

abbreviation auto_recovery_limit :: "worker_env \<Rightarrow> jserror + int" where
  "auto_recovery_limit env \<equiv> readBoundedPositiveInteger (env_var env ''MKT_QUEUE_AUTO_RECOVERY_MAX_ATTEMPTS'')
     5 10 ''MKT_QUEUE_AUTO_RECOVERY_MAX_ATTEMPTS''"

locale db_frame =
  fixes D :: "d1 \<Rightarrow> d1 \<Rightarrow> bool" and cap :: int and env :: worker_env
  assumes D_refl: "reflp D" and D_trans: "transp D" and D_blind: "fault_blind D"
    and limit: "auto_recovery_limit env = Inr m \<Longrightarrow> m \<le> cap"
    and cleanup_superseded: "evolves D (work_cleanupSupersededWorkUnits i t)"
    and cleanup_expired: "evolves D (work_cleanupExpiredWork i t)"
    and abandon: "evolves D (safe_abandonWork default_work_config i t)"
    and save_dead_letter: "evolves D (saveDeadLetter i t)"
    and save_alert: "evolves D (durable_saveSystemAlert i signal t)"
    and save_metadata: "evolves D (saveDeadLetterMetadata i t)"
    and record_attempt: "evolves D (recordMainQueueAttempt i t)"
    and complete: "evolves D (completeSafeAutoRecoveriesForWork i t)"
    and authorize: "(\<And>q. bindAutoRequest i = Inr q \<Longrightarrow> aq_maxRecoveries q \<le> cap) \<Longrightarrow>
        evolves D (authorizeSafeAutoRecovery i t)"
    and mark_queued: "evolves D (markSafeAutoRecoveryQueued i t)"

locale worker_frame = db_frame D cap env for D cap env +
  fixes R :: "worker_world \<Rightarrow> worker_world \<Rightarrow> bool"
  assumes R_refl: "reflp R" and R_trans: "transp R"
    and R_db: "D (ww_db w) s \<Longrightarrow> R w (w\<lparr>ww_db := s\<rparr>)"
    and R_other: "ww_db w' = ww_db w \<Longrightarrow> ww_settled w' = ww_settled w \<Longrightarrow> R w w'"

locale settling_frame = worker_frame D cap env R for D cap env R +
  assumes R_settle: "R w (w\<lparr>ww_settled := ww_settled w @ [x]\<rparr>)"

lemma evolves_case_meta:
  "(\<And>why. p = MetaIneligible why \<Longrightarrow> evolves R (f why)) \<Longrightarrow>
   (\<And>a b c. p = MetaEligible a b c \<Longrightarrow> evolves R (g a b c)) \<Longrightarrow>
   evolves R (case p of MetaIneligible why \<Rightarrow> f why | MetaEligible a b c \<Rightarrow> g a b c)"
  by (cases p) auto

context worker_frame begin

lemma clock_frame: "evolves R read_clock"
  by (rule evolvesI) (simp add: read_clock_def R_other)

lemma db_step: "evolves D m \<Longrightarrow> evolves R (with_db m)"
  by (rule evolvesI) (auto simp: with_db_def split: prod.split intro: R_db dest: evolvesD)

lemma clocked_frame: "(\<And>t. evolves D (f t)) \<Longrightarrow> evolves R (clocked f)"
  unfolding clocked_def by (intro evolves_andThen R_trans clock_frame db_step)

lemma send_frame: "evolves R (queue_send b d)"
  by (rule evolvesI) (simp add: queue_send_def R_other split: option.split)

lemma log_frame: "evolves R (logQueueResult v)"
  unfolding logQueueResult_def Let_def
  by (intro evolves_intro R_trans R_refl clock_frame) (simp add: R_other)

lemmas base = R_refl R_trans D_refl D_trans D_blind clock_frame db_step clocked_frame send_frame log_frame

lemma variables_frame:
  "evolves R (fresh_variables msg)" "evolves R (set_job j)" "evolves R (set_operation q)" "evolves R (set_attempts n)"
  unfolding fresh_variables_def set_job_def set_operation_def set_attempts_def
  by (intro evolves_intro; simp add: R_other)+

lemma capacity_frame: "evolves R (cleanupQueueCapacityBeforeAttempts env)"
  unfolding cleanupQueueCapacityBeforeAttempts_def by (intro evolves_intro base cleanup_superseded)

lemma meta_frame: "evolves R (checkDeferredMetaRetry env j q msg)"
  unfolding checkDeferredMetaRetry_def by (intro evolves_intro evolves_case_meta base)

lemma meta_failure_frame: "evolves R (readDeferredMetaFailureDelaySeconds env j q e)"
  unfolding readDeferredMetaFailureDelaySeconds_def by (intro evolves_intro evolves_case_meta base)

lemma terminal_frame: "evolves R (markQueueWorkTerminal env msg ty q reason audit)"
  unfolding markQueueWorkTerminal_def by (intro evolves_intro base abandon cleanup_expired)

lemma dead_letter_frame: "evolves R (store_saveDeadLetter v)"
  unfolding store_saveDeadLetter_def durable_saveDeadLetter_def by (intro evolves_intro base save_dead_letter)

lemma alert_frame: "evolves R (Queue_Router.save_alert host v)"
  unfolding Queue_Router.save_alert_def store_saveSystemAlert_def logMirrorSignalError_def
  by (intro evolves_intro base save_alert)

lemma permanent_frame: "evolves R (recordPermanentQueueFailure host env bt msg j q n e)"
  unfolding recordPermanentQueueFailure_def
  by (intro evolves_intro base terminal_frame dead_letter_frame alert_frame save_metadata)

lemma store_frame: "evolves R (store_dead_letter host env bt msg j q i n d)"
  unfolding store_dead_letter_def
  by (intro evolves_intro base terminal_frame dead_letter_frame alert_frame save_metadata)

lemma policy_limit:
  "resolveQueueAutoRecoveryPolicy env j q i = Inr (Inr p) \<Longrightarrow> ap_maxRecoveries p \<le> cap"
  by (auto simp: resolveQueueAutoRecoveryPolicy_def bind_res_Inr_iff intro: limit split: if_splits)

lemma recovery_frame: "evolves R (attemptQueueAutoRecovery env j q i)"
proof -
  have "evolves D (authorizeSafeAutoRecovery (auto_recovery_input a b i p) t)"
    if "resolveQueueAutoRecoveryPolicy env j q i = Inr (Inr p)" for a b p t
    by (rule authorize)
      (use policy_limit [OF that] in \<open>auto simp: auto_recovery_input_def dest!: bind_bound [where k = "ap_maxRecoveries p"]\<close>)
  then show ?thesis
    unfolding attemptQueueAutoRecovery_def
    by (cases "resolveQueueAutoRecoveryPolicy env j q i"; cases j; cases q)
      (auto split: sum.split intro!: evolves_intro base mark_queued)
qed

lemma identity_frame: "evolves R (dead_letter_identity host msg)"
  unfolding dead_letter_identity_def by (intro evolves_intro base)

lemma attempts_frame: "evolves R (read_dead_letter_attempts env q)"
  unfolding read_dead_letter_attempts_def by (intro evolves_intro base readAttempts_evolves)

end

context settling_frame begin

lemma settle_frame: "evolves R (settle msg how)"
  unfolding settle_def by (intro evolves_intro) (rule R_settle)

lemma retry_frame: "evolves R (retry_after_error env msg e)"
  unfolding retry_after_error_def by (intro evolves_intro base settle_frame)

lemma main_frame:
  assumes "\<And>c. evolves R (p c)"
  shows "evolves R (process_main_message host env p bt msg)"
  unfolding process_main_message_def try_main_message_def run_stable_job_def handle_main_error_def
  by (intro evolves_intro base assms variables_frame capacity_frame meta_frame settle_frame record_attempt complete
      meta_failure_frame retry_frame permanent_frame)

lemma dlq_frame: "evolves R (process_dead_letter host env bt msg)"
  unfolding process_dead_letter_def Let_def
  by (intro evolves_intro base identity_frame attempts_frame store_frame recovery_frame settle_frame retry_frame)

lemma unknown_frame: "evolves R (process_unknown_message host env bt msg)"
  unfolding process_unknown_message_def Let_def
  by (intro evolves_intro base dead_letter_frame alert_frame settle_frame retry_frame)

theorem route_frame:
  assumes "\<And>c. evolves R (p c)"
  shows "evolves R (routeQueueBatch host env p bt)"
proof -
  have "evolves R (case role of
       MainQueue \<Rightarrow> for_each (process_main_message host env p bt) (qb_messages bt)
     | DeadLetterQueue \<Rightarrow> check (createOperationalStore env)
         (\<lambda>_. for_each (process_dead_letter host env bt) (qb_messages bt))
     | UnknownQueue \<Rightarrow> check (createOperationalStore env)
         (\<lambda>_. for_each (process_unknown_message host env bt) (qb_messages bt)))" for role
    by (cases role) (simp_all, (intro evolves_intro base main_frame dlq_frame unknown_frame assms)+)
  then show ?thesis unfolding routeQueueBatch_def by (intro evolves_intro base)
qed

end

text \<open>A relation on databases that the stores respect is respected by the worker.\<close>

sublocale db_frame \<subseteq> lifted: settling_frame D cap env "\<lambda>w t. D (ww_db w) (ww_db t)"
  by unfold_locales (use D_refl D_trans in \<open>auto simp: reflp_def transp_def\<close>)

context db_frame begin

lemma routing_respects:
  "(\<And>c. evolves (\<lambda>w t. D (ww_db w) (ww_db t)) (p c)) \<Longrightarrow>
   D (ww_db w) (ww_db (snd (routeQueueBatch host env p bt w)))"
  using lifted.route_frame [of p host bt] by (simp add: evolves_def)

end

subsection \<open>What the work store and the alerts leave alone\<close>

abbreviation letters_same :: "d1 \<Rightarrow> d1 \<Rightarrow> bool" where
  "letters_same \<equiv> unchanged (\<lambda>s. (dead_letter_jobs s, dead_letter_operation_metadata s))"

lemma letters_same_blind [simp]: "fault_blind letters_same"
  by (rule fault_blind_unchanged) simp

lemma sql_work_letters [simp]:
  "dead_letter_jobs (sql_purge_work k now s) = dead_letter_jobs s"
  "dead_letter_operation_metadata (sql_purge_work k now s) = dead_letter_operation_metadata s"
  "dead_letter_jobs (snd (sql_abandon cfg k r st a now s)) = dead_letter_jobs s"
  "dead_letter_operation_metadata (snd (sql_abandon cfg k r st a now s)) = dead_letter_operation_metadata s"
  by (simp_all add: sql_purge_work_def sql_abandon_def Let_def)

lemma superseded_units_same: "evolves letters_same (sum_deleted keep now ks n)"
  by (induction ks arbitrary: n) (auto intro!: evolves_intro simp: sql_drop_stale_units_def)

lemma work_same:
  "evolves letters_same (work_cleanupSupersededWorkUnits i t)"
  "evolves letters_same (work_cleanupExpiredWork i t)"
  "evolves letters_same (safe_abandonWork cfg i t)"
  unfolding work_cleanupSupersededWorkUnits_def work_cleanupExpiredWork_def safe_abandonWork_def
    work_abandonWork_def Let_def
  by (intro evolves_intro superseded_units_same; auto)+

lemma alert_same: "evolves letters_same (durable_saveSystemAlert i signal t)"
  unfolding durable_saveSystemAlert_def saveSystemAlert_def readSystemAlertForMirror_def scheduleMirror_def
  by (intro evolves_intro schedule_evolves; auto simp: sql_put_alert_def sql_schedule_def unchanged_def Let_def split: if_splits)

lemma attempt_same: "evolves letters_same (recordMainQueueAttempt i t)"
  by (rule recordAttempt_evolves) (auto simp: sql_record_attempt_def unchanged_def split: if_splits)

subsection \<open>Dead letters are kept\<close>

definition letter_stored :: "string \<Rightarrow> d1 \<Rightarrow> bool" where
  "letter_stored i s \<longleftrightarrow> row_at dl_id i (dead_letter_jobs s) \<noteq> None"

definition letters_grow :: "d1 \<Rightarrow> d1 \<Rightarrow> bool" where
  "letters_grow s t \<longleftrightarrow> (\<forall>i. letter_stored i s \<longrightarrow> letter_stored i t)"

lemma letters_rel [simp]: "reflp letters_grow" "transp letters_grow" "fault_blind letters_grow"
  by (auto simp: reflp_def transp_def fault_blind_def letters_grow_def letter_stored_def)

lemma letters_same_grow: "letters_same s t \<Longrightarrow> letters_grow s t"
  by (simp add: letters_grow_def letter_stored_def unchanged_def)

lemma letters_update:
  "dead_letter_jobs t = snd (sql_update q f (dead_letter_jobs s)) \<Longrightarrow> (\<And>r. dl_id (f r) = dl_id r) \<Longrightarrow> letters_grow s t"
  by (simp add: letters_grow_def letter_stored_def row_at_update)

lemma letters_put:
  assumes "sql_put_dead_letter st new s = Inr t"
  shows "letters_grow s t" "letter_stored (dl_id new) t"
  using assms by (auto simp: sql_put_dead_letter_def letters_grow_def letter_stored_def row_at_upsert
      split: option.splits if_splits)

lemma letters_save: "evolves letters_grow (saveDeadLetter i t)"
  unfolding saveDeadLetter_def by (intro evolves_intro letters_rel) (auto dest: letters_put)

lemma letters_metadata: "evolves letters_grow (saveDeadLetterMetadata i t)"
  by (rule saveMetadata_evolves)
    (auto simp: sql_put_metadata_def letters_grow_def letter_stored_def split: if_splits)

lemma letters_complete: "evolves letters_grow (completeSafeAutoRecoveriesForWork i t)"
  by (rule complete_evolves) (auto simp: sql_close_incident_def intro!: letters_update)

lemma letters_authorize: "evolves letters_grow (authorizeSafeAutoRecovery i t)"
  by (rule authorize_evolves)
    (auto simp: sql_revive_exhausted_def sql_claim_recovery_def letters_grow_def letter_stored_def)

lemma letters_mark: "evolves letters_grow (markSafeAutoRecoveryQueued i t)"
  by (rule markQueued_evolves)
    (auto simp: sql_mark_queued_def Let_def on_table_def letters_grow_def letter_stored_def row_at_update)

lemma auto_limit_bound: "auto_recovery_limit env = Inr m \<Longrightarrow> m \<le> 10"
  by (auto simp: readBoundedPositiveInteger_def Let_def split: if_splits option.splits)

interpretation letters: db_frame letters_grow 10 env for env
  by unfold_locales
    (auto intro: auto_limit_bound letters_save letters_metadata letters_complete letters_authorize letters_mark
      evolves_mono [OF work_same(1) letters_same_grow] evolves_mono [OF work_same(2) letters_same_grow]
      evolves_mono [OF work_same(3) letters_same_grow] evolves_mono [OF alert_same letters_same_grow]
      evolves_mono [OF attempt_same letters_same_grow])

text \<open>A job that settles no message and deletes no dead letter.\<close>

definition calm :: "worker_world \<Rightarrow> worker_world \<Rightarrow> bool" where
  "calm w t \<longleftrightarrow> ww_settled t = ww_settled w \<and> letters_grow (ww_db w) (ww_db t)"

interpretation calm: worker_frame letters_grow 10 env calm for env
  by unfold_locales
    (auto simp: calm_def reflp_def transp_def letters_grow_def)

subsection \<open>The budget\<close>

lemma same_budget: "letters_same s t \<Longrightarrow> keeping (budget_kept n k) s t"
  by (rule budget_cong) (simp add: unchanged_def)

lemma letter_budget: "evolves (keeping (budget_kept n k)) (saveDeadLetter i t)"
  unfolding saveDeadLetter_def
  by (intro evolves_intro) (auto simp: sql_put_dead_letter_def intro!: budget_cong split: option.splits)

lemma qop_budget: "budget_bounded n x \<Longrightarrow> (\<And>s. snd (m s) = qop_apply x s) \<Longrightarrow> evolves (keeping (budget_kept n k)) m"
  by (rule evolvesI) (metis qop_keeps_budget)

lemma authorize_budget:
  "(\<And>q. bindAutoRequest i = Inr q \<Longrightarrow> aq_maxRecoveries q \<le> n) \<Longrightarrow>
   evolves (keeping (budget_kept n k)) (authorizeSafeAutoRecovery i t)"
  by (rule qop_budget [where x = "Authorize i t"]) simp_all

lemma budget_frame:
  assumes "auto_recovery_limit env = Inr n"
  shows "db_frame (keeping (budget_kept n k)) n env"
  by unfold_locales
    (use assms in \<open>auto intro: letter_budget authorize_budget
      qop_budget [where x = "SaveMetadata i t" for i t] qop_budget [where x = "RecordAttempt i t" for i t]
      qop_budget [where x = "MarkQueued i t" for i t]
      qop_budget [where x = "CompleteRecoveries i t" for i t]
      evolves_mono [OF work_same(1) same_budget] evolves_mono [OF work_same(2) same_budget]
      evolves_mono [OF work_same(3) same_budget] evolves_mono [OF alert_same same_budget]\<close>)

theorem routing_keeps_budget:
  assumes "auto_recovery_limit env = Inr n"
    and "\<And>c. evolves (\<lambda>w t. budget_kept n k (ww_db w) \<longrightarrow> budget_kept n k (ww_db t)) (p c)"
    and "budget_kept n k (ww_db w)"
  shows "budget_kept n k (ww_db (snd (routeQueueBatch host env p bt w)))"
  using db_frame.routing_respects [OF budget_frame [OF assms(1)], of k p] assms(2,3)
  by (simp add: keeping_def)

subsection \<open>Delays\<close>

lemma readAttempts_pos: "1 \<le> readAttempts msg"
  by (simp add: readAttempts_def split: option.split)

lemma retry_delay_bounds: "1 \<le> readRetryDelaySeconds env msg e now" "readRetryDelaySeconds env msg e now \<le> 43200"
proof -
  define base where "base = (case safe_int (js_number (env_var env ''MKT_QUEUE_RETRY_DELAY_SECONDS'')) of
            Some n \<Rightarrow> if 0 < n then n else 30 | None \<Rightarrow> (30::int))"
  have "1 \<le> base" by (simp add: base_def split: option.split)
  then have "1 \<le> base * min (readAttempts msg) 10"
    using mult_mono [of 1 base 1 "min (readAttempts msg) 10"] readAttempts_pos [of msg] by simp
  then show "1 \<le> readRetryDelaySeconds env msg e now" "readRetryDelaySeconds env msg e now \<le> 43200"
    by (simp_all add: readRetryDelaySeconds_def Let_def base_def [symmetric])
qed

text \<open>A retry of a busy lock comes five seconds after the lease has expired, unless the cap cuts the wait.\<close>

lemma busy_retry_after_lease:
  assumes "err_code e = Some ''SYNC_LOCK_BUSY''" "safe_int (js_number (jget (err_details e) ''expiresAt'')) = Some t"
    and "readRetryDelaySeconds env msg (Some e) now < 43200"
  shows "t < now + 1000 * readRetryDelaySeconds env msg (Some e) now"
proof (cases "now < t")
  case True
  have "ceil_div (t - now) 1000 + 5 \<le> readRetryDelaySeconds env msg (Some e) now"
    using assms True unfolding readRetryDelaySeconds_def Let_def by (simp add: min_def max_def split: if_splits)
  moreover have "t - now \<le> 1000 * ceil_div (t - now) 1000" by (rule ceil_div_ge) simp
  ultimately show ?thesis by linarith
qed (use retry_delay_bounds(1) [of env msg "Some e" now] in linarith)

lemma ceil_div_pos: "0 < a \<Longrightarrow> 0 < b \<Longrightarrow> 1 \<le> ceil_div a b"
proof -
  assume "0 < a" "0 < b"
  then have "0 < b * ceil_div a b" using ceil_div_ge [of b a] by linarith
  then show ?thesis using \<open>0 < b\<close> by (simp add: zero_less_mult_iff)
qed

subsection \<open>Settlement\<close>

definition ran :: "job_processor \<Rightarrow> queue_message \<Rightarrow> bool" where
  "ran p msg \<longleftrightarrow> (\<exists>c w x t. jc_message c = msg \<and> p c w = (Inr x, t))"

fun letter_id :: "queue_role \<Rightarrow> queue_batch \<Rightarrow> queue_message \<Rightarrow> string" where
  "letter_id MainQueue bt msg = ''terminal:'' @ js_text (qm_id msg)"
| "letter_id DeadLetterQueue bt msg = ''dlq:'' @ js_text (qm_id msg)"
| "letter_id UnknownQueue bt msg = ''unknown-queue:'' @ js_text (qb_queue bt) @ '':'' @ js_text (qm_id msg)"

text \<open>
  What a settlement promises: a retry comes back within twelve hours, an acknowledged message of the
  main queue has run, and any other is stored.
\<close>

definition accounted :: "job_processor \<Rightarrow> queue_role \<Rightarrow> queue_batch \<Rightarrow> queue_message \<Rightarrow> settlement \<Rightarrow> d1 \<Rightarrow> bool" where
  "accounted p role bt msg how s \<longleftrightarrow> (case how of
       Retry d \<Rightarrow> 1 \<le> d \<and> d \<le> 43200
     | Ack \<Rightarrow> role = MainQueue \<and> ran p msg \<or> letter_stored (trim (letter_id role bt msg)) s)"

abbreviation pending :: "(jsval \<times> settlement) list \<Rightarrow> bool \<Rightarrow> worker_world \<Rightarrow> bool" where
  "pending S b w \<equiv> ww_settled w = S \<and> b"

abbreviation settled_as ::
    "(jsval \<times> settlement) list \<Rightarrow> queue_message \<Rightarrow> (settlement \<Rightarrow> d1 \<Rightarrow> bool) \<Rightarrow> worker_world \<Rightarrow> bool" where
  "settled_as S msg P w \<equiv> \<exists>how. ww_settled w = S @ [(qm_id msg, how)] \<and> P how (ww_db w)"

lemma triple_settle [triple_intro]:
  "(\<And>w. Q w \<Longrightarrow> ww_settled w = S \<and> P how (ww_db w)) \<Longrightarrow> triple Q (settle msg how) (\<lambda>_. settled_as S msg P) E"
  by (auto simp: triple_def settle_def modify_def)

lemma triple_calm:
  "evolves calm m \<Longrightarrow> triple (pending S b) m (\<lambda>_. pending S b) (pending S True)"
  by (rule tripleI) (auto simp: calm_def dest!: evolvesD)

lemma triple_calm_stored:
  "evolves calm m \<Longrightarrow> triple (\<lambda>w. pending S b w \<and> letter_stored i (ww_db w)) m
     (\<lambda>_ w. pending S b w \<and> letter_stored i (ww_db w)) (pending S True)"
  by (rule tripleI) (auto simp: calm_def letters_grow_def dest!: evolvesD)

lemma triple_after:
  "triple P m (\<lambda>_. P) E \<Longrightarrow> (\<And>x. triple P (f x) Q E) \<Longrightarrow> triple P (andThen m f) Q E"
  by (rule triple_andThen)

lemma retry_settles:
  "triple (\<lambda>w. ww_settled w = S) (retry_after_error env msg e) (\<lambda>_. settled_as S msg (accounted p role bt msg)) E"
  unfolding retry_after_error_def
  by (rule tripleI)
    (auto simp: eff_simps read_clock_def settle_def accounted_def retry_delay_bounds)

lemma saveDeadLetter_stores:
  assumes "saveDeadLetter d now s = (Inr v, t)" "jget d ''dlqId'' = JStr i"
  shows "letter_stored (trim i) t"
proof -
  obtain st row where row: "bindDeadLetter d now = Inr (st, row)"
    and run: "batch (sql_put_dead_letter st row) s = (Inr (), t)"
    using assms(1)
    by (auto simp: saveDeadLetter_def eff_simps split: sum.splits prod.splits)
  have "dl_id row = trim i"
    using row assms(2) by (auto simp: bindDeadLetter_def bind_res_Inr_iff Let_def rel_requireText_def requireText_def
        split: if_splits)
  then show ?thesis using run
    by (auto simp: batch_eq Let_def dest!: letters_put(2) split: fault.splits sum.splits)
qed

lemma store_stores:
  assumes "jget d ''dlqId'' = JStr i"
  shows "triple (pending S b) (store_saveDeadLetter d) (\<lambda>_ w. pending S b w \<and> letter_stored (trim i) (ww_db w)) (pending S True)"
  unfolding store_saveDeadLetter_def clocked_def durable_saveDeadLetter_def
  using assms
  by (intro tripleI) (auto simp: eff_simps read_clock_def with_db_def split: prod.splits sum.splits
      dest: saveDeadLetter_stores)

lemma triple_log:
  "triple (pending S b) (logQueueResult v) (\<lambda>_. pending S b) E"
  "triple (\<lambda>w. pending S b w \<and> letter_stored i (ww_db w)) (logQueueResult v) (\<lambda>_ w. pending S b w \<and> letter_stored i (ww_db w)) E"
  by (rule tripleI; auto simp: logQueueResult_def eff_simps read_clock_def Let_def)+

definition well_behaved :: "job_processor \<Rightarrow> bool" where
  "well_behaved p \<longleftrightarrow> (\<forall>c. evolves calm (p c))"

lemma job_runs:
  "well_behaved p \<Longrightarrow> jc_message c = msg \<Longrightarrow>
   triple (pending S b) (p c) (\<lambda>_. pending S (ran p msg)) (pending S True)"
  by (rule tripleI) (fastforce simp: well_behaved_def ran_def calm_def dest!: evolvesD spec [of _ c])+

lemma deferred_bound:
  "checkDeferredMetaRetry env j q msg w = (Inr m, t) \<Longrightarrow> mc_delaySeconds m \<le> 43200"
proof (cases "resolveDeferredMetaRetryPolicy env (Some j) (Some q) None")
  case (Inr policy)
  moreover assume "checkDeferredMetaRetry env j q msg w = (Inr m, t)"
  ultimately show ?thesis
    by (cases policy)
      (auto simp: checkDeferredMetaRetry_def eff_simps split: prod.splits sum.splits if_splits)
qed (simp add: checkDeferredMetaRetry_def eff_simps)

lemma triple_bound:
  "triple P m Q E \<Longrightarrow> (\<And>s x t. m s = (Inr x, t) \<Longrightarrow> B x) \<Longrightarrow> triple P m (\<lambda>x w. Q x w \<and> B x) E"
  by (rule tripleI) (blast dest: triple_InrD triple_InlD)+

lemma deferred_triple:
  "triple (pending S b) (checkDeferredMetaRetry env j q msg)
     (\<lambda>m w. pending S b w \<and> mc_delaySeconds m \<le> 43200) (pending S True)"
  by (rule triple_bound [OF triple_calm [OF calm.meta_frame]]) (rule deferred_bound)

definition meta_retry_on :: "worker_env \<Rightarrow> bool" where
  "meta_retry_on env \<longleftrightarrow> readBoolean (env_var env ''MKT_META_DEFERRED_RETRY_ENABLED'') False \<noteq> Inr False"

lemma policy_off: "\<not> meta_retry_on env \<Longrightarrow> resolveDeferredMetaRetryPolicy env j q e = Inr (MetaIneligible ''disabled'')"
  by (simp add: meta_retry_on_def resolveDeferredMetaRetryPolicy_def)

lemma meta_failure_triple:
  "triple (pending S b) (readDeferredMetaFailureDelaySeconds env j q e)
     (\<lambda>d w. pending S b w \<and> (case d of Some k \<Rightarrow> 1 \<le> k \<and> k \<le> 43200 | None \<Rightarrow> True))
     (\<lambda>w. pending S b w \<and> meta_retry_on env)"
proof (cases "resolveDeferredMetaRetryPolicy env j q (Some e)")
  case (Inl x)
  then have "meta_retry_on env" using policy_off [of env j q "Some e"] by auto
  then show ?thesis by (auto simp: readDeferredMetaFailureDelaySeconds_def Inl intro!: triple_throw)
next
  case (Inr policy)
  then show ?thesis
    by (cases policy)
      (auto simp: readDeferredMetaFailureDelaySeconds_def eff_simps read_clock_def intro!: tripleI)
qed

lemma permanent_triple:
  "triple (pending S b) (recordPermanentQueueFailure host env bt msg j q n e)
     (\<lambda>_ w. pending S b w \<and> letter_stored (trim (letter_id MainQueue bt msg)) (ww_db w)) (pending S True)"
proof -
  have store: "triple (pending S b) (store_saveDeadLetter (dead_letter_value i msg queue j code why n))
      (\<lambda>_ w. pending S b w \<and> letter_stored (trim i) (ww_db w)) (pending S True)" for i queue code why
    by (rule store_stores) (simp add: dead_letter_value_def)
  have metadata: "evolves calm (clocked (saveDeadLetterMetadata v))" for v
    by (intro calm.clocked_frame letters_metadata)
  show ?thesis
    unfolding recordPermanentQueueFailure_def Let_def letter_id.simps
    by (rule triple_check, simp, rule triple_andThen, rule triple_calm [OF calm.terminal_frame],
        rule triple_andThen, rule store, rule triple_andThen, rule triple_calm_stored [OF metadata],
        rule triple_if, rule triple_calm_stored [OF calm.alert_frame], rule triple_ret, simp)
qed

lemma main_error_triple:
  "triple (pending S True) (handle_main_error host env bt msg e)
     (\<lambda>_. settled_as S msg (accounted p MainQueue bt msg)) (\<lambda>w. pending S (meta_retry_on env) w)"
  (is "triple _ _ (\<lambda>_. ?Q) ?E")
proof -
  have retry: "triple (pending S True) (retry_after_error env msg x) (\<lambda>_. ?Q) E" for x E
    by (rule triple_weaken [OF retry_settles]) auto
  have handled: "triple (pending S True)
      (andThen (logQueueResult v) (\<lambda>_. andThen (retry_after_error env msg x) (\<lambda>_. ret False)))
      (\<lambda>stored_now w. if stored_now then pending S True w \<and> letter_stored (trim (letter_id MainQueue bt msg)) (ww_db w) else ?Q w) ?E"
    for v x
    by (intro triple_andThen [OF triple_log(1)] triple_andThen [OF retry] triple_ret) simp
  have persist: "triple (pending S True)
      (andThen (recordPermanentQueueFailure host env bt msg j q n e) (\<lambda>_. ret True))
      (\<lambda>stored_now w. if stored_now then pending S True w \<and> letter_stored (trim (letter_id MainQueue bt msg)) (ww_db w) else ?Q w)
      (pending S True)" for j q n
    by (intro triple_andThen [OF permanent_triple] triple_ret) simp
  have kept: "triple (\<lambda>w. if stored_now then pending S True w \<and> letter_stored (trim (letter_id MainQueue bt msg)) (ww_db w) else ?Q w)
      (if stored_now then settle msg Ack else ret ()) (\<lambda>_. ?Q) ?E" for stored_now
    by (cases stored_now) (auto intro!: triple_settle triple_ret simp: accounted_def)
  have permanent: "triple (pending S True) (andThen
      (catching (andThen (recordPermanentQueueFailure host env bt msg j q n e) (\<lambda>_. ret True))
         (\<lambda>pe. andThen (logQueueResult (error_line ''terminal_failure_persistence'' msg [] pe)) (\<lambda>_.
               andThen (retry_after_error env msg pe) (\<lambda>_. ret False))))
      (\<lambda>stored. if stored then settle msg Ack else ret ())) (\<lambda>_. ?Q) ?E" for j q n
    by (rule triple_andThen [OF triple_catching [OF persist handled] kept])
  have delayed: "triple (\<lambda>w. pending S True w \<and> (case d of Some k \<Rightarrow> 1 \<le> k \<and> k \<le> 43200 | None \<Rightarrow> True))
      (case d of Some k \<Rightarrow> settle msg (Retry k) | None \<Rightarrow> retry_after_error env msg e) (\<lambda>_. ?Q) ?E" for d
    by (cases d) (auto intro!: triple_settle triple_weaken [OF retry [where E = ?E]] simp: accounted_def)
  have retryable: "triple (pending S True) (andThen (readDeferredMetaFailureDelaySeconds env j q e)
      (\<lambda>d. case d of Some k \<Rightarrow> settle msg (Retry k) | None \<Rightarrow> retry_after_error env msg e)) (\<lambda>_. ?Q) ?E" for j q
    by (rule triple_andThen [OF triple_weaken [OF meta_failure_triple] delayed]) auto
  have looked: "triple (pending S True) (gets id) (\<lambda>_. pending S True) ?E"
    by (rule tripleI) (simp_all add: gets_def)
  show ?thesis
    unfolding handle_main_error_def
    by (rule triple_andThen [OF looked], rule triple_andThen [OF triple_log(1)], rule triple_if,
        rule retryable, rule permanent)
qed

lemma main_try_triple:
  assumes p: "well_behaved p"
  shows "triple (pending S True) (try_main_message host env p msg)
     (\<lambda>_. settled_as S msg (accounted p MainQueue bt msg)) (pending S True)"
proof -
  note quiet = triple_andThen [OF triple_calm]
  have cond: "evolves calm (if c then m else ret ())" if "evolves calm m" for c m
    using that by (simp add: evolves_ret calm.R_refl)
  have recorded: "evolves calm (andThen (clocked (recordMainQueueAttempt v)) (\<lambda>x. set_attempts (at_mainQueueAttempts x)))" for v
    by (intro evolves_andThen calm.R_trans calm.clocked_frame letters.record_attempt calm.variables_frame)
  have completed: "evolves calm (andThen (clocked (completeSafeAutoRecoveriesForWork v)) (\<lambda>_. ret ()))" for v
    by (intro evolves_andThen calm.R_trans calm.clocked_frame letters_complete evolves_ret calm.R_refl)
  have run: "triple (pending S True) (run_stable_job env p msg j q)
      (\<lambda>_. settled_as S msg (accounted p MainQueue bt msg)) (pending S True)" for j q
    unfolding run_stable_job_def
    by (rule quiet [OF cond [OF recorded]], rule quiet, rule evolves_gets [OF calm.R_refl],
        rule triple_andThen, rule job_runs [OF p], simp, rule quiet [OF cond [OF completed]],
        rule triple_andThen [OF triple_log(1)], rule triple_settle) (simp add: accounted_def)
  have deferred: "triple (\<lambda>w. pending S True w \<and> mc_delaySeconds m \<le> 43200)
      (if 0 < mc_delaySeconds m
       then andThen (logQueueResult (deferred_line m)) (\<lambda>_. settle msg (Retry (mc_delaySeconds m)))
       else run_stable_job env p msg j q)
      (\<lambda>_. settled_as S msg (accounted p MainQueue bt msg)) (pending S True)" for m j q
    by (cases "mc_delaySeconds m \<le> 43200")
      (auto simp: accounted_def triple_def [of "\<lambda>_. False"] intro!: triple_if triple_weaken [OF run]
        triple_andThen [OF triple_log(1) [where b = True, simplified]] triple_settle)
  show ?thesis
    unfolding try_main_message_def
    by (rule quiet [OF calm.capacity_frame], rule quiet [OF calm.clock_frame], rule triple_check, simp,
        rule quiet [OF calm.variables_frame(2)], rule triple_check, simp,
        rule quiet [OF calm.variables_frame(3)], rule triple_andThen [OF deferred_triple], rule deferred)
qed

text \<open>One message, from an arbitrary state: it is settled once, or the batch is aborted before.\<close>

lemma main_triple:
  assumes "well_behaved p"
  shows "triple (\<lambda>w. ww_settled w = S) (process_main_message host env p bt msg)
     (\<lambda>_. settled_as S msg (accounted p MainQueue bt msg)) (\<lambda>w. ww_settled w = S \<and> meta_retry_on env)"
proof -
  have "triple (pending S True) (fresh_variables msg) (\<lambda>_. pending S True) (\<lambda>w. pending S (meta_retry_on env) w)"
    by (rule tripleI) (auto simp: fresh_variables_def modify_def)
  then have "triple (pending S True) (process_main_message host env p bt msg)
      (\<lambda>_. settled_as S msg (accounted p MainQueue bt msg)) (\<lambda>w. pending S (meta_retry_on env) w)"
    unfolding process_main_message_def
    by (rule triple_andThen) (rule triple_catching [OF main_try_triple [OF assms] main_error_triple])
  then show ?thesis by simp
qed

lemma store_letter_triple:
  "triple (pending S True) (store_saveDeadLetter (dead_letter_value i msg queue j code why n))
     (\<lambda>_ w. pending S True w \<and> letter_stored (trim i) (ww_db w)) (pending S True)"
  by (rule store_stores) (simp add: dead_letter_value_def)

lemma failed_triple:
  "triple (pending S True) (andThen (logQueueResult v) (\<lambda>_. retry_after_error env msg e))
     (\<lambda>_. settled_as S msg (accounted p role bt msg)) E"
  by (rule triple_andThen [OF triple_log(1)]) (rule triple_weaken [OF retry_settles]; simp)

lemma acknowledged:
  "triple (\<lambda>w. pending S True w \<and> letter_stored (trim (letter_id role bt msg)) (ww_db w)) (settle msg Ack)
     (\<lambda>_. settled_as S msg (accounted p role bt msg)) E"
  by (rule triple_settle) (simp add: accounted_def)

lemma unknown_triple:
  "triple (\<lambda>w. ww_settled w = S) (process_unknown_message host env bt msg)
     (\<lambda>_. settled_as S msg (accounted p UnknownQueue bt msg)) (\<lambda>_. False)"
proof -
  have "triple (pending S True) (process_unknown_message host env bt msg)
     (\<lambda>_. settled_as S msg (accounted p UnknownQueue bt msg)) (\<lambda>_. False)"
    unfolding process_unknown_message_def Let_def
    by (rule triple_catching [OF _ failed_triple], rule triple_andThen [OF store_letter_triple],
        rule triple_andThen [OF triple_calm_stored [OF calm.alert_frame]],
        rule acknowledged [where role = UnknownQueue, unfolded letter_id.simps])
  then show ?thesis by simp
qed

lemma dead_letter_triple:
  "triple (\<lambda>w. ww_settled w = S) (process_dead_letter host env bt msg)
     (\<lambda>_. settled_as S msg (accounted p DeadLetterQueue bt msg)) (\<lambda>w. ww_settled w = S)"
proof -
  let ?kept = "\<lambda>w. pending S True w \<and> letter_stored (trim (''dlq:'' @ js_text (qm_id msg))) (ww_db w)"
  have metadata: "evolves calm (clocked (saveDeadLetterMetadata v))" for v
    by (intro calm.clocked_frame letters_metadata)
  have store: "triple (pending S True)
      (store_dead_letter host env bt msg j q (''dlq:'' @ js_text (qm_id msg)) n d) (\<lambda>_. ?kept) (pending S True)" for j q n d
    unfolding store_dead_letter_def
    by (rule triple_andThen [OF triple_calm [OF calm.terminal_frame]], rule triple_andThen [OF store_letter_triple],
        rule triple_andThen [OF triple_calm_stored [OF metadata]], rule triple_if,
        rule triple_calm_stored [OF calm.alert_frame], rule triple_ret, simp)
  have recovered: "triple ?kept (andThen (attemptQueueAutoRecovery env j q i) (\<lambda>r. andThen (logQueueResult (line r)) (\<lambda>_. settle msg Ack)))
      (\<lambda>_. settled_as S msg (accounted p DeadLetterQueue bt msg)) (pending S True)" for j q i line
    by (rule triple_andThen [OF triple_calm_stored [OF calm.recovery_frame]], rule triple_andThen [OF triple_log(2)],
        rule acknowledged [where role = DeadLetterQueue, unfolded letter_id.simps])
  have "triple (pending S True) (process_dead_letter host env bt msg)
     (\<lambda>_. settled_as S msg (accounted p DeadLetterQueue bt msg)) (pending S True)"
    unfolding process_dead_letter_def Let_def
    by (rule triple_andThen [OF triple_calm [OF calm.identity_frame]], unfold split_beta,
        rule triple_andThen [OF triple_calm [OF calm.attempts_frame]], rule triple_catching [OF _ failed_triple],
        rule triple_andThen [OF store recovered])
  then show ?thesis by simp
qed

lemma accounted_grows:
  "accounted p role bt msg how s \<Longrightarrow> letters_grow s t \<Longrightarrow> accounted p role bt msg how t"
  by (auto simp: accounted_def letters_grow_def split: settlement.splits)

definition settled_so_far ::
    "job_processor \<Rightarrow> queue_role \<Rightarrow> queue_batch \<Rightarrow> (jsval \<times> settlement) list \<Rightarrow> queue_message list \<Rightarrow> worker_world \<Rightarrow> bool" where
  "settled_so_far p role bt S visited w \<longleftrightarrow> (\<exists>hs. ww_settled w = S @ hs
     \<and> list_all2 (\<lambda>msg (i, how). i = qm_id msg \<and> accounted p role bt msg how (ww_db w)) visited hs)"

lemma settled_so_far_letters:
  "settled_so_far p role bt S visited w \<Longrightarrow> letters_grow (ww_db w) (ww_db t) \<Longrightarrow> ww_settled t = ww_settled w \<Longrightarrow>
   settled_so_far p role bt S visited t"
  unfolding settled_so_far_def by (auto elim!: list_all2_mono intro: accounted_grows)

lemma settled_step:
  assumes one: "\<And>S. triple (\<lambda>w. ww_settled w = S) m (\<lambda>_. settled_as S msg (accounted p role bt msg))
      (\<lambda>w. ww_settled w = S \<and> b)"
    and grow: "evolves (\<lambda>w t. letters_grow (ww_db w) (ww_db t)) m"
  shows "triple (settled_so_far p role bt S visited) m (\<lambda>_. settled_so_far p role bt S (visited @ [msg]))
      (\<lambda>w. settled_so_far p role bt S visited w \<and> b)"
proof (rule tripleI)
  fix w x t assume v: "settled_so_far p role bt S visited w" and run: "m w = (Inr x, t)"
  from v obtain hs where hs: "ww_settled w = S @ hs"
    "list_all2 (\<lambda>msg (i, how). i = qm_id msg \<and> accounted p role bt msg how (ww_db w)) visited hs"
    by (auto simp: settled_so_far_def)
  have g: "letters_grow (ww_db w) (ww_db t)" using evolvesD [OF grow run] .
  obtain how where "ww_settled t = (S @ hs) @ [(qm_id msg, how)]" "accounted p role bt msg how (ww_db t)"
    using triple_InrD [OF one hs(1) run] by blast
  moreover have "list_all2 (\<lambda>msg (i, how). i = qm_id msg \<and> accounted p role bt msg how (ww_db t)) visited hs"
    using hs(2) by (rule list_all2_mono) (auto intro: accounted_grows [OF _ g])
  ultimately show "settled_so_far p role bt S (visited @ [msg]) t"
    unfolding settled_so_far_def by (intro exI [of _ "hs @ [(qm_id msg, how)]"]) (auto intro: list_all2_appendI)
next
  fix w e t assume v: "settled_so_far p role bt S visited w" and run: "m w = (Inl e, t)"
  show "settled_so_far p role bt S visited t \<and> b"
    using triple_InlD [OF one refl run] settled_so_far_letters [OF v evolvesD [OF grow run]] by simp
qed

fun may_abort :: "queue_role \<Rightarrow> worker_env \<Rightarrow> bool" where
  "may_abort MainQueue env = meta_retry_on env"
| "may_abort DeadLetterQueue env = True"
| "may_abort UnknownQueue env = (\<not> (we_state_db env \<and> we_queue env))"

definition handled :: "job_processor \<Rightarrow> queue_role \<Rightarrow> worker_env \<Rightarrow> queue_batch \<Rightarrow> (jsval \<times> settlement) list
    \<Rightarrow> jserror + unit \<Rightarrow> worker_world \<Rightarrow> bool" where
  "handled p role env bt S r t \<longleftrightarrow> (\<exists>visited rest. qb_messages bt = visited @ rest
     \<and> settled_so_far p role bt S visited t \<and> (r = Inr () \<longrightarrow> rest = []) \<and> (r \<noteq> Inr () \<longrightarrow> may_abort role env))"

lemma settled_loop:
  assumes one: "\<And>msg S. triple (\<lambda>w. ww_settled w = S) (f msg) (\<lambda>_. settled_as S msg (accounted p role bt msg))
      (\<lambda>w. ww_settled w = S \<and> b)"
    and grow: "\<And>msg. evolves (\<lambda>w t. letters_grow (ww_db w) (ww_db t)) (f msg)"
    and run: "for_each f (qb_messages bt) w = (r, t)" and b: "b \<Longrightarrow> may_abort role env"
  shows "handled p role env bt (ww_settled w) r t"
proof -
  let ?I = "settled_so_far p role bt (ww_settled w)"
  let ?E = "\<lambda>w. \<exists>visited rest. qb_messages bt = visited @ rest \<and> ?I visited w \<and> b"
  have loop: "triple (?I []) (for_each f (qb_messages bt)) (\<lambda>_. ?I (qb_messages bt)) ?E"
  proof (rule triple_for_each)
    fix visited msg rest assume "visited @ msg # rest = qb_messages bt"
    then show "triple (?I visited) (f msg) (\<lambda>_. ?I (visited @ [msg])) ?E"
      by (intro triple_weaken [OF settled_step [OF one grow]]) (auto intro: sym)
  qed simp
  have start: "?I [] w" by (simp add: settled_so_far_def)
  show ?thesis
  proof (cases r)
    case (Inl e)
    then obtain visited rest where "qb_messages bt = visited @ rest" "?I visited t" b
      using triple_InlD [OF loop start] run by blast
    then show ?thesis using Inl b unfolding handled_def by blast
  next
    case (Inr x)
    then have "?I (qb_messages bt) t" using triple_InrD [OF loop start] run by blast
    then show ?thesis using Inr unfolding handled_def by (intro exI [of _ "qb_messages bt"] exI [of _ "[]"]) simp
  qed
qed

theorem batch_handled:
  assumes p: "well_behaved p" and role: "classifyQueueBatch bt env = Inr role"
    and run: "routeQueueBatch host env p bt w = (r, t)"
  shows "handled p role env bt (ww_settled w) r t"
proof -
  have grow: "evolves (\<lambda>w t. letters_grow (ww_db w) (ww_db t)) (p c)" for c
    using p by (auto simp: well_behaved_def evolves_def calm_def)
  have store: "createOperationalStore env = Inr () \<or> (\<exists>e. createOperationalStore env = Inl e) \<and> may_abort UnknownQueue env"
    by (simp add: createOperationalStore_def)
  have none: "handled p role env bt (ww_settled w) (Inl e) w" if "may_abort role env" for e
    unfolding handled_def using that
    by (intro exI [of _ "[]"] exI [of _ "qb_messages bt"]) (simp add: settled_so_far_def)
  show ?thesis
  proof (cases role)
    case MainQueue
    then have loop: "for_each (process_main_message host env p bt) (qb_messages bt) w = (r, t)"
      using run role by (simp add: routeQueueBatch_def)
    show ?thesis unfolding MainQueue
      by (rule settled_loop [OF main_triple [OF p] letters.lifted.main_frame [OF grow] loop]) simp
  next
    case DeadLetterQueue
    consider "for_each (process_dead_letter host env bt) (qb_messages bt) w = (r, t)" | e where "r = Inl e" "t = w"
    proof (cases "createOperationalStore env")
      case (Inl e)
      then have "r = Inl e \<and> t = w" using run role by (auto simp: routeQueueBatch_def DeadLetterQueue eff_simps)
      then show ?thesis by (intro that(2)) simp_all
    next
      case (Inr u)
      then show ?thesis using run role that(1) by (simp add: routeQueueBatch_def DeadLetterQueue)
    qed
    then show ?thesis
    proof cases
      case 1
      show ?thesis unfolding DeadLetterQueue
        by (rule settled_loop [where b = True, OF triple_weaken [OF dead_letter_triple] letters.lifted.dlq_frame 1]) auto
    qed (use none DeadLetterQueue in simp)
  next
    case UnknownQueue
    consider "for_each (process_unknown_message host env bt) (qb_messages bt) w = (r, t)"
      | e where "r = Inl e" "t = w" "may_abort UnknownQueue env"
    proof (cases "createOperationalStore env")
      case (Inl e)
      then have "r = Inl e \<and> t = w" using run role by (auto simp: routeQueueBatch_def UnknownQueue eff_simps)
      then show ?thesis using store Inl by (intro that(2)) simp_all
    next
      case (Inr u)
      then show ?thesis using run role that(1) by (simp add: routeQueueBatch_def UnknownQueue)
    qed
    then show ?thesis
    proof cases
      case 1
      show ?thesis unfolding UnknownQueue
        by (rule settled_loop [where b = False, OF triple_weaken [OF unknown_triple] letters.lifted.unknown_frame 1]) auto
    qed (use none UnknownQueue in simp)
  qed
qed

subsection \<open>Recovery messages\<close>

lemma db_sent: "with_db m w = (r, t) \<Longrightarrow> ww_sent t = ww_sent w \<and> ww_settled t = ww_settled w"
  by (auto simp: with_db_def split: prod.splits)

lemma clocked_sent: "clocked f w = (r, t) \<Longrightarrow> ww_sent t = ww_sent w"
  by (auto simp: clocked_def eff_simps read_clock_def dest: db_sent)

lemma recovery_sends:
  assumes run: "attemptQueueAutoRecovery env job operation i w = (r, t)" and sent: "ww_sent t \<noteq> ww_sent w"
  shows "\<exists>j q p a s. job = Some j \<and> operation = Some q
    \<and> resolveQueueAutoRecoveryPolicy env job operation i = Inr (Inr p)
    \<and> authorizeSafeAutoRecovery (auto_recovery_input j q i p) (ww_clock w (ww_ticks w)) (ww_db w) = (Inr a, s)
    \<and> ar_sendRequired a \<and> ar_lifecycle a = Active
    \<and> ww_sent t = ww_sent w @ [(jb_body j, Some (ar_delaySeconds a))]
    \<and> 1 \<le> ar_delaySeconds a \<and> ar_delaySeconds a \<le> 43200"
proof -
  obtain p where p: "resolveQueueAutoRecoveryPolicy env job operation i = Inr (Inr p)"
    using run sent by (auto simp: attemptQueueAutoRecovery_def eff_simps split: sum.splits)
  then have "job_type job \<in> JStr ` set AUTO_RECOVERY_JOB_TYPES" "operation \<noteq> None"
    by (auto simp: resolveQueueAutoRecoveryPolicy_def bind_res_Inr_iff split: if_splits option.splits)
  then obtain j q where jq: "job = Some j" "operation = Some q" by (auto simp: job_type_def split: option.splits)
  let ?in = "auto_recovery_input j q i p"
  note p' = p [unfolded jq]
  obtain ra s1 where auth: "clocked (authorizeSafeAutoRecovery ?in) w = (ra, s1)" by force
  have s1: "ww_sent s1 = ww_sent w" using clocked_sent [OF auth] .
  obtain a where a: "ra = Inr a" "ar_sendRequired a"
    using run sent auth s1 unfolding jq
    by (cases ra) (auto simp: attemptQueueAutoRecovery_def p' eff_simps split: if_splits)
  have reply: "authorizeSafeAutoRecovery ?in (ww_clock w (ww_ticks w)) (ww_db w) = (Inr a, ww_db s1)"
    using auth a(1) by (auto simp: clocked_def eff_simps read_clock_def with_db_def split: prod.splits)
  then obtain rq where bound: "bindAutoRequest ?in = Inr rq"
    by (cases "bindAutoRequest ?in") (auto simp: authorizeSafeAutoRecovery_def eff_simps)
  have "sound_reply rq a" using authorize_sound [OF bound] reply unfolding yields_def by blast
  then have "ar_lifecycle a = Active" "1 \<le> ar_delaySeconds a" "ar_delaySeconds a \<le> 43200"
    using a(2) bind_cooldown [OF bound] by (auto simp: sound_reply_def)
  moreover have "ww_sent t = ww_sent w @ [(jb_body j, Some (ar_delaySeconds a))]"
    using run sent s1 a unfolding jq
    by (auto simp: attemptQueueAutoRecovery_def p' eff_simps auth queue_send_def dest!: clocked_sent split: if_splits option.splits sum.splits prod.splits)
  ultimately show ?thesis using jq p reply a(2) by blast
qed

text \<open>What the policy admits.\<close>

lemma policy_admits:
  assumes "resolveQueueAutoRecoveryPolicy env job operation i = Inr (Inr p)"
  shows "isExactCustomerProduction env = Inr True \<and> i \<notin> set PROTECTED_DLQ_IDS
    \<and> job_type job \<in> JStr ` set AUTO_RECOVERY_JOB_TYPES \<and> (\<exists>q. operation = Some q \<and> stable_identity q)
    \<and> 1 \<le> ap_maxRecoveries p \<and> ap_maxRecoveries p \<le> 10
    \<and> 1 \<le> ap_cooldownSeconds p \<and> ap_cooldownSeconds p \<le> 43200"
proof -
  have bound: "1 \<le> n \<and> n \<le> m" if "readBoundedPositiveInteger v d m f = Inr n" "1 \<le> d" "d \<le> m" for v d m f n
    using that by (auto simp: readBoundedPositiveInteger_def Let_def split: if_splits option.splits)
  show ?thesis
    using assms by (auto simp: resolveQueueAutoRecoveryPolicy_def bind_res_Inr_iff dest!: bound
        split: if_splits option.splits)
qed

end
