(* ===== verification/Worker_Properties.thy ===== *)
theory Worker_Properties
  imports Queue_Router_Guarantees Data_Properties
begin

text \<open>
  Properties of the queue worker: what a delivered batch does with its messages, how long a retry
  waits, and what the automatic recovery may send.
\<close>

definition ex_env :: worker_env where
  "ex_env = \<lparr>we_vars = JObj [(''MKT_MAIN_QUEUE_NAME'', JStr ''main''), (''MKT_DLQ_QUEUE_NAME'', JStr ''dlq'')],
     we_state_db = True, we_queue = True\<rparr>"

definition ex_message :: queue_message where
  "ex_message = \<lparr>qm_id = JStr ''m1'', qm_body = JObj [(''type'', JStr ''x'')], qm_attempts = jint 2\<rparr>"

definition ex_batch :: "string \<Rightarrow> queue_batch" where
  "ex_batch q = \<lparr>qb_queue = JStr q, qb_messages = [ex_message, ex_message\<lparr>qm_id := JStr ''m2''\<rparr>]\<rparr>"

definition ex_world :: worker_world where
  "ex_world = \<lparr>ww_db = empty_d1, ww_clock = (\<lambda>_. 1700000000000), ww_ticks = 0, ww_sendFaults = (\<lambda>_. None),
     ww_sends = 0, ww_sent = [], ww_log = [], ww_settled = [], ww_job = None, ww_operation = None, ww_attempts = 0\<rparr>"

lemma quiet_job: "well_behaved (\<lambda>_. ret JNull)"
  by (simp add: well_behaved_def evolves_ret calm_def reflp_def letters_grow_def)

lemma ex_roles:
  "classifyQueueBatch (ex_batch ''main'') ex_env = Inr MainQueue"
  "classifyQueueBatch (ex_batch ''dlq'') ex_env = Inr DeadLetterQueue"
  by (simp_all add: classifyQueueBatch_def ex_batch_def ex_env_def requireQueueName_def optionalText_def trim_def is_space_def)

subsection \<open>Settlement\<close>



text \<open>
  C8: no message is lost. Whatever queue the batch is of and however the routing ends, the messages
  settled so far are a prefix of the batch in order; each acknowledged one ran its job to the end or
  is stored as a dead letter, each other one is retried after one second to twelve hours; and
  without an error the prefix is the whole batch.
\<close>

theorem acknowledged_messages_kept:
  assumes "well_behaved p" "classifyQueueBatch bt env = Inr role"
    and "routeQueueBatch host env p bt w = (r, w')"
  shows "\<exists>visited rest hs. qb_messages bt = visited @ rest \<and> ww_settled w' = ww_settled w @ hs
    \<and> list_all2 (\<lambda>msg (i, how). i = qm_id msg \<and> (case how of Retry d \<Rightarrow> 1 \<le> d \<and> d \<le> 43200
        | Ack \<Rightarrow> role = MainQueue \<and> ran p msg \<or> letter_stored (trim (letter_id role bt msg)) (ww_db w'))) visited hs
    \<and> (r = Inr () \<longrightarrow> rest = [])"
  using batch_handled [OF assms] unfolding handled_def settled_so_far_def accounted_def by blast

theorem acknowledged_messages_kept_witness:
  "\<exists>visited rest hs. qb_messages (ex_batch ''dlq'') = visited @ rest
    \<and> ww_settled (snd (routeQueueBatch ex_host ex_env (\<lambda>_. ret JNull) (ex_batch ''dlq'') ex_world)) = ww_settled ex_world @ hs
    \<and> length hs = length visited"
proof -
  let ?run = "routeQueueBatch ex_host ex_env (\<lambda>_. ret JNull) (ex_batch ''dlq'') ex_world"
  show ?thesis
    using acknowledged_messages_kept [OF quiet_job ex_roles(2) surjective_pairing [of ?run]]
    by (elim exE conjE) (intro exI conjI, assumption+, erule list_all2_lengthD [symmetric])
qed

text \<open>
  C36: retry delays are bounded. For every message, error and environment, also a malformed one, the
  delay is between one second and the twelve hours of the queue service; and a job that found its
  lock busy is not retried before the lease it met has ended, unless that exceeds the bound.
\<close>

theorem retry_delay_bounded:
  "1 \<le> readRetryDelaySeconds env msg e now \<and> readRetryDelaySeconds env msg e now \<le> 43200
    \<and> (\<forall>x t. e = Some x \<and> err_code x = Some ''SYNC_LOCK_BUSY''
        \<and> safe_int (js_number (jget (err_details x) ''expiresAt'')) = Some t
        \<longrightarrow> readRetryDelaySeconds env msg e now = 43200 \<or> t < now + 1000 * readRetryDelaySeconds env msg e now)"
  using retry_delay_bounds [of env msg e now] busy_retry_after_lease [of _ _ env msg now] by force

definition ex_busy :: jserror where
  "ex_busy = permanentError ''busy'' ''SYNC_LOCK_BUSY'' (JObj [(''expiresAt'', jint 1700000100000)])"

theorem retry_delay_bounded_witness:
  "1700000100000 < 1700000000000 + 1000 * readRetryDelaySeconds ex_env ex_message (Some ex_busy) 1700000000000"
proof -
  have e: "err_code ex_busy = Some ''SYNC_LOCK_BUSY''"
    "safe_int (js_number (jget (err_details ex_busy) ''expiresAt'')) = Some 1700000100000"
    by code_simp+
  have "readRetryDelaySeconds ex_env ex_message (Some ex_busy) 1700000000000 = 105" by code_simp
  then show ?thesis using retry_delay_bounded [of ex_env ex_message "Some ex_busy" 1700000000000] e by fastforce
qed

subsection \<open>Recovery\<close>

text \<open>
  C11: the recovery budget survives the worker. When the configured maximum is \<open>n\<close> and the jobs
  themselves do not record recoveries, no batch of any queue, with any faults, records more than
  \<open>n\<close> automatic recoveries of one work.
\<close>

theorem routing_within_budget:
  assumes "readBoundedPositiveInteger (env_var env ''MKT_QUEUE_AUTO_RECOVERY_MAX_ATTEMPTS'')
      5 10 ''MKT_QUEUE_AUTO_RECOVERY_MAX_ATTEMPTS'' = Inr n"
    and "\<And>c. evolves (\<lambda>w w'. budget_kept n k (ww_db w) \<longrightarrow> budget_kept n k (ww_db w')) (p c)"
    and "budget_kept n k (ww_db w)"
  shows "budget_kept n k (ww_db (snd (routeQueueBatch host env p bt w)))"
  by (rule routing_keeps_budget [OF assms])

theorem routing_within_budget_witness:
  "budget_kept 5 ''w'' (ww_db (snd (routeQueueBatch ex_host ex_env (\<lambda>_. ret JNull) (ex_batch ''dlq'') ex_world)))"
proof (rule routing_within_budget)
  show "budget_kept 5 ''w'' (ww_db ex_world)" unfolding ex_world_def by code_simp
qed (simp_all add: ex_env_def readBoundedPositiveInteger_def is_absent_def evolves_def ret_def)


text \<open>
  C12: the automatic recovery sends only what it may. An attempt either sends nothing, or sends one
  message: the body of the dead letter's own job, which has a stable identity and an allowed type,
  in the customer's production runtime, never for the protected incident; after the store has
  authorised exactly this recovery and has found its work active; and delayed as the store said,
  by one second to twelve hours.
\<close>

theorem recovery_message_authorized:
  "let t = snd (attemptQueueAutoRecovery env job operation i w) in ww_sent t = ww_sent w
    \<or> (\<exists>j q p a s. job = Some j \<and> operation = Some q \<and> stable_identity q \<and> i \<notin> set PROTECTED_DLQ_IDS
      \<and> jget (jb_body j) ''type'' \<in> JStr ` set AUTO_RECOVERY_JOB_TYPES
      \<and> isExactCustomerProduction env = Inr True
      \<and> authorizeSafeAutoRecovery (auto_recovery_input j q i p) (ww_clock w (ww_ticks w)) (ww_db w) = (Inr a, s)
      \<and> ar_sendRequired a \<and> ar_lifecycle a = Active
      \<and> ww_sent t = ww_sent w @ [(jb_body j, Some (ar_delaySeconds a))]
      \<and> 1 \<le> ar_delaySeconds a \<and> ar_delaySeconds a \<le> 43200)"
proof -
  obtain r t where run: "attemptQueueAutoRecovery env job operation i w = (r, t)" by force
  show ?thesis
  proof (cases "ww_sent t = ww_sent w")
    case False
    then obtain j q p a s where sent: "job = Some j" "operation = Some q"
        "resolveQueueAutoRecoveryPolicy env job operation i = Inr (Inr p)"
        "authorizeSafeAutoRecovery (auto_recovery_input j q i p) (ww_clock w (ww_ticks w)) (ww_db w) = (Inr a, s)"
        "ar_sendRequired a \<and> ar_lifecycle a = Active"
        "ww_sent t = ww_sent w @ [(jb_body j, Some (ar_delaySeconds a))]"
        "1 \<le> ar_delaySeconds a \<and> ar_delaySeconds a \<le> 43200"
      using recovery_sends [OF run] by blast
    have "stable_identity q \<and> i \<notin> set PROTECTED_DLQ_IDS \<and> isExactCustomerProduction env = Inr True
        \<and> jget (jb_body j) ''type'' \<in> JStr ` set AUTO_RECOVERY_JOB_TYPES"
      using policy_admits [OF sent(3)] sent(1,2) by (simp add: job_type_def)
    with sent have "\<exists>j q p a s. job = Some j \<and> operation = Some q \<and> stable_identity q \<and> i \<notin> set PROTECTED_DLQ_IDS
      \<and> jget (jb_body j) ''type'' \<in> JStr ` set AUTO_RECOVERY_JOB_TYPES
      \<and> isExactCustomerProduction env = Inr True
      \<and> authorizeSafeAutoRecovery (auto_recovery_input j q i p) (ww_clock w (ww_ticks w)) (ww_db w) = (Inr a, s)
      \<and> ar_sendRequired a \<and> ar_lifecycle a = Active
      \<and> ww_sent t = ww_sent w @ [(jb_body j, Some (ar_delaySeconds a))]
      \<and> 1 \<le> ar_delaySeconds a \<and> ar_delaySeconds a \<le> 43200" by blast
    then show ?thesis by (simp add: run)
  qed (simp add: run)
qed

end
