(* ===== verification/Reliable_Runner.thy ===== *)
theory Reliable_Runner
  imports Worker_Support Lease_Lock
begin

text \<open>
  The reliable runner (\<open>packages/reliability/src/reliable-sync-runner.js\<close>): a sync job runs under the
  lease of its scope, a heartbeat renews the lease while it runs, the outcome is recorded as a sync
  run and, where it matters, as an alert, and the lease is released. The store and the lock manager
  are those of \<open>createCloudflareReliabilityRuntime\<close> (\<open>runtime-factory.js\<close>): the durable mirror store and
  the stale-aware lock on one database. The job is a parameter, as it is in the code.

  The runtime is single-threaded: other invocations, and this one's own heartbeat timer, act where
  the code awaits. \<open>rn_others i\<close> is what happens at the \<open>i\<close>-th await: the timer fires, or another
  invocation changes the database at the time the common clock shows. A timer tick is one renewal;
  it runs as a unit between two steps of the job, and during the awaits of a renewal only other
  invocations act (a timer that fires while the job itself renews is left out). The report callback (\<open>onReliabilityError\<close>) is a list of stages and errors.
\<close>

subsection \<open>State\<close>

datatype other_event = TimerTick | Elsewhere "int \<Rightarrow> d1 \<Rightarrow> d1"

record heartbeat =
  hb_lockKey :: string
  hb_ownerId :: string
  hb_leaseMs :: int
  hb_attempts :: nat
  hb_expiresAt :: int
  hb_stopped :: bool
  hb_terminal :: "jserror option"

record runner_world =
  rn_worker :: worker_world
  rn_heartbeat :: heartbeat
  rn_reports :: "(string \<times> jserror) list"
  rn_others :: "nat \<Rightarrow> other_event list"
  rn_awaits :: nat

abbreviation rn_db :: "runner_world \<Rightarrow> d1" where
  "rn_db w \<equiv> ww_db (rn_worker w)"

definition in_worker :: "(worker_world, 'a) eff \<Rightarrow> (runner_world, 'a) eff" where
  "in_worker m = (\<lambda>w. case m (rn_worker w) of (r, t) \<Rightarrow> (r, w\<lparr>rn_worker := t\<rparr>))"

definition runner_now :: "(runner_world, int) eff" where
  "runner_now = in_worker read_clock"

definition set_heartbeat :: "(heartbeat \<Rightarrow> heartbeat) \<Rightarrow> (runner_world, unit) eff" where
  "set_heartbeat f = modify (\<lambda>w. w\<lparr>rn_heartbeat := f (rn_heartbeat w)\<rparr>)"

definition report :: "string \<Rightarrow> jserror \<Rightarrow> (runner_world, unit) eff" where
  "report stage e = modify (\<lambda>w. w\<lparr>rn_reports := rn_reports w @ [(stage, e)]\<rparr>)"

text \<open>An await: the events of this point. The awaits of a renewal are \<open>breathe\<close>, all others \<open>pause\<close>.\<close>

definition next_events :: "(runner_world, other_event list) eff" where
  "next_events = (\<lambda>w. (Inr (rn_others w (rn_awaits w)), w\<lparr>rn_awaits := Suc (rn_awaits w)\<rparr>))"

definition elsewhere :: "(int \<Rightarrow> d1 \<Rightarrow> d1) \<Rightarrow> (runner_world, unit) eff" where
  "elsewhere f = in_worker (andThen read_clock (\<lambda>t. with_db (modify (f t))))"

fun while_renewing :: "other_event \<Rightarrow> (runner_world, unit) eff" where
  "while_renewing TimerTick = ret ()"
| "while_renewing (Elsewhere f) = elsewhere f"

definition breathe :: "(runner_world, unit) eff" where
  "breathe = andThen next_events (for_each while_renewing)"

subsection \<open>Inputs\<close>

definition run_requireText :: "jsval \<Rightarrow> string \<Rightarrow> jserror + string" where
  "run_requireText v f = requireText (''runReliableSync requires '' @ f) v"

definition run_positiveInteger :: "jsval \<Rightarrow> string \<Rightarrow> jserror + int" where
  "run_positiveInteger v f =
     safe_number (\<lambda>n. 0 < n) (''runReliableSync '' @ f @ '' must be a positive integer'') v"

definition run_normalizeId :: "string \<Rightarrow> jsval \<Rightarrow> jserror + string" where
  "run_normalizeId uuid v = (if is_absent v then Inr uuid else run_requireText v ''syncRunId'')"

definition resolveRenewInterval :: "jsval \<Rightarrow> int \<Rightarrow> jserror + int" where
  "resolveRenewInterval v leaseMs =
     bind_res (if is_absent v then Inr (max 1000 (leaseMs div 3)) else run_positiveInteger v ''renewIntervalMs'')
       (\<lambda>interval. if leaseMs \<le> interval
          then Inl (type_error ''runReliableSync renewIntervalMs must be lower than leaseMs'')
          else Inr interval)"

text \<open>\<open>encodeURIComponent\<close>, then \<open>%\<close> replaced by \<open>_\<close>.\<close>

definition uri_unreserved :: "char \<Rightarrow> bool" where
  "uri_unreserved c \<longleftrightarrow> is_digit c \<or> is_upper_char c \<or> is_lower_char c \<or> c \<in> set ''-_.!~*()'' \<or> c = CHR 0x27"

definition upper_hex :: "nat \<Rightarrow> char" where
  "upper_hex d = (if d < 10 then char_of (48 + d) else char_of (55 + d))"

definition encodeURIComponent :: "string \<Rightarrow> string" where
  "encodeURIComponent s = concat (map (\<lambda>c. if uri_unreserved c then [c]
     else [CHR ''%'', upper_hex (of_char c div 16), upper_hex (of_char c mod 16)]) s)"

definition escapePart :: "string \<Rightarrow> string" where
  "escapePart s = map (\<lambda>c. if c = CHR ''%'' then CHR ''_'' else c) (encodeURIComponent s)"

definition createSyncLockKey :: "jsval \<Rightarrow> jserror + string" where
  "createSyncLockKey i =
     bind_res (run_requireText (jget i ''customerProfile'') ''customerProfile'') (\<lambda>customer.
     bind_res (run_requireText (jget i ''platform'') ''platform'') (\<lambda>platform.
     bind_res (run_requireText (jget i ''accountKey'') ''accountKey'') (\<lambda>account.
     bind_res (run_requireText (jget i ''syncType'') ''syncType'') (\<lambda>syncType.
     Inr (join '':'' (map escapePart [customer, to_lower platform, account, syncType]))))))"

subsection \<open>The heartbeat\<close>

definition normalizeLeaseExpiry :: "jsval \<Rightarrow> int \<Rightarrow> int" where
  "normalizeLeaseExpiry v fallback = (let n = js_number v in
     case js_trunc n of Some t \<Rightarrow> if num_positive n then t else fallback | None \<Rightarrow> fallback)"

definition setTerminalError :: "jserror \<Rightarrow> (runner_world, unit) eff" where
  "setTerminalError e =
     andThen (set_heartbeat (\<lambda>h. case hb_terminal h of None \<Rightarrow> h\<lparr>hb_terminal := Some e\<rparr> | Some _ \<Rightarrow> h)) (\<lambda>_.
     andThen (gets (hb_terminal \<circ> rn_heartbeat)) (\<lambda>t.
     report ''lock_heartbeat_failed'' (case t of Some x \<Rightarrow> x | None \<Rightarrow> e)))"

definition fail_heartbeat :: "jserror \<Rightarrow> (runner_world, 'a) eff" where
  "fail_heartbeat e = andThen (setTerminalError e) (\<lambda>_. throw e)"

definition lock_lost :: "heartbeat \<Rightarrow> int \<Rightarrow> jserror" where
  "lock_lost h attempt = transientError (''Sync lock ownership was lost: '' @ hb_lockKey h) ''SYNC_LOCK_LOST''
     (JObj [(''lockKey'', JStr (hb_lockKey h)), (''ownerId'', JStr (hb_ownerId h)), (''attempt'', jint attempt)])"

definition renewed_expired :: "heartbeat \<Rightarrow> int \<Rightarrow> jserror" where
  "renewed_expired h expiresAt = transientError (''Renewed sync lock is already expired: '' @ hb_lockKey h)
     ''SYNC_LOCK_LEASE_EXPIRED''
     (JObj [(''lockKey'', JStr (hb_lockKey h)), (''ownerId'', JStr (hb_ownerId h)), (''expiresAt'', jint expiresAt)])"

definition renew_failed :: "heartbeat \<Rightarrow> jserror \<Rightarrow> jserror" where
  "renew_failed h last_error = transientError (''Sync lock renewal failed: '' @ hb_lockKey h) ''SYNC_LOCK_RENEW_FAILED''
     (JObj [(''lockKey'', JStr (hb_lockKey h)), (''ownerId'', JStr (hb_ownerId h)),
        (''attempts'', jint (int (hb_attempts h))), (''causeCode'', err_code_val last_error),
        (''causeMessage'', JStr (err_message last_error))])"

text \<open>One attempt: the body of the \<open>try\<close> block of \<open>renewNow\<close>.\<close>

definition try_renew :: "heartbeat \<Rightarrow> int \<Rightarrow> (runner_world, bool) eff" where
  "try_renew h attempt =
     andThen breathe (\<lambda>_.
     andThen (in_worker (clocked (d1_renew (lock_input (hb_lockKey h) (hb_ownerId h) (hb_leaseMs h))))) (\<lambda>result.
     if \<not> lr_ok result then fail_heartbeat (lock_lost h attempt)
     else
     andThen runner_now (\<lambda>now.
     let expiresAt = normalizeLeaseExpiry (jopt_int (lr_expiresAt result)) (now + hb_leaseMs h) in
     andThen (set_heartbeat (\<lambda>h. h\<lparr>hb_expiresAt := expiresAt\<rparr>)) (\<lambda>_.
     andThen runner_now (\<lambda>checked.
     if expiresAt \<le> checked then fail_heartbeat (renewed_expired h expiresAt) else ret True)))))"

fun renew_from :: "heartbeat \<Rightarrow> nat \<Rightarrow> int \<Rightarrow> jserror \<Rightarrow> (runner_world, bool) eff" where
  "renew_from h 0 attempt last_error = fail_heartbeat (renew_failed h last_error)"
| "renew_from h (Suc k) attempt last_error = catching (try_renew h attempt) (\<lambda>e.
     if has_code e [''SYNC_LOCK_LOST'', ''SYNC_LOCK_LEASE_EXPIRED''] then throw e
     else andThen (if k = 0 then ret () else breathe) (\<lambda>_. renew_from h k (attempt + 1) e))"

definition renewNow :: "(runner_world, bool) eff" where
  "renewNow = andThen (gets rn_heartbeat) (\<lambda>h.
     if hb_stopped h then ret False
     else case hb_terminal h of
       Some e \<Rightarrow> throw e
     | None \<Rightarrow> renew_from h (hb_attempts h) 1 (plain_error []))"

definition assertActive :: "(runner_world, bool) eff" where
  "assertActive = andThen (gets rn_heartbeat) (\<lambda>h.
     case hb_terminal h of
       Some e \<Rightarrow> throw e
     | None \<Rightarrow>
         andThen runner_now (\<lambda>checkedAt.
         if hb_expiresAt h \<le> checkedAt
         then fail_heartbeat (transientError (''Sync lock lease expired: '' @ hb_lockKey h) ''SYNC_LOCK_LEASE_EXPIRED''
           (JObj [(''lockKey'', JStr (hb_lockKey h)), (''ownerId'', JStr (hb_ownerId h)),
              (''expiresAt'', jint (hb_expiresAt h)), (''checkedAt'', jint checkedAt)]))
         else ret True))"

text \<open>The timer: armed while the heartbeat runs and has not failed; an error of its renewal is kept, not thrown.\<close>

definition timer_tick :: "(runner_world, unit) eff" where
  "timer_tick = andThen (gets rn_heartbeat) (\<lambda>h.
     if hb_stopped h \<or> hb_terminal h \<noteq> None then ret ()
     else catching (andThen renewNow (\<lambda>_. ret ())) (\<lambda>_. ret ()))"

fun at_await :: "other_event \<Rightarrow> (runner_world, unit) eff" where
  "at_await TimerTick = timer_tick"
| "at_await (Elsewhere f) = elsewhere f"

definition pause :: "(runner_world, unit) eff" where
  "pause = andThen next_events (for_each at_await)"

definition createLeaseHeartbeat :: "string \<Rightarrow> string \<Rightarrow> int \<Rightarrow> jsval \<Rightarrow> jsval \<Rightarrow> jsval \<Rightarrow> (runner_world, unit) eff" where
  "createLeaseHeartbeat lockKey ownerId leaseMs interval initialExpiresAt attempts =
     check (run_requireText (JStr lockKey) ''lockKey'') (\<lambda>key.
     check (run_requireText (JStr ownerId) ''ownerId'') (\<lambda>owner.
     check (resolveRenewInterval interval leaseMs) (\<lambda>_.
     check (run_positiveInteger (nullish attempts (jint 3)) ''renewAttempts'') (\<lambda>n.
     andThen runner_now (\<lambda>now.
     set_heartbeat (\<lambda>_. \<lparr>hb_lockKey = key, hb_ownerId = owner, hb_leaseMs = leaseMs, hb_attempts = nat n,
       hb_expiresAt = normalizeLeaseExpiry initialExpiresAt (now + leaseMs), hb_stopped = False,
       hb_terminal = None\<rparr>))))))"

definition stop_heartbeat :: "(runner_world, unit) eff" where
  "stop_heartbeat = set_heartbeat (\<lambda>h. h\<lparr>hb_stopped := True\<rparr>)"

subsection \<open>Summaries\<close>

definition run_count :: "jsval \<Rightarrow> int" where
  "run_count v = (case js_number (nullish v (jint 0)) of NInt n \<Rightarrow> if 0 \<le> n then n else 0 | _ \<Rightarrow> 0)"

definition summarizeSyncResult :: "jsval \<Rightarrow> (string \<times> jsval) list" where
  "summarizeSyncResult result =
     (let outputs = filter is_objectlike (map (jget result) [''rawChannels'', ''rawVideos'', ''rawAnalytics'', ''content'',
            ''dailySnapshots'', ''accounts'', ''reportSnapshot'', ''reportMetricValues'', ''reportTopContent'']);
          total = (\<lambda>f. sum_list (map (\<lambda>out. run_count (jget out f)) outputs))
      in [(''recordsPulled'', jint (run_count (jget result ''rawRecords''))),
          (''recordsCreated'', jint (total ''created'')), (''recordsUpdated'', jint (total ''updated'')),
          (''recordsSkipped'', jint (total ''skipped'')),
          (''recordsWritten'', jint (total ''created'' + total ''updated''))])"

definition readWriteOutcomes :: "jsval \<Rightarrow> jsval" where
  "readWriteOutcomes result = (if \<not> is_objectlike result then JNull
     else JObj (map (\<lambda>f. (f, or_null (jget (jget result f) ''writeOutcome'')))
       [''rawChannels'', ''rawVideos'', ''rawAnalytics'', ''content'', ''dailySnapshots'', ''reportSnapshot'',
        ''reportMetricValues'', ''reportTopContent'', ''accounts'']))"

definition readProviderBoundaryCounts :: "jsval \<Rightarrow> (string \<times> jsval) list" where
  "readProviderBoundaryCounts result =
     filter (\<lambda>(f, v). case v of JNum (NInt n) \<Rightarrow> is_safe n \<and> 0 \<le> n | _ \<Rightarrow> False)
       (map (\<lambda>f. (f, jget result f))
         [''providerRequestCount'', ''analyticsRequestCount'', ''oauthRefreshCount'', ''larkWriteCount''])"

definition runner_alert_message :: "jserror \<Rightarrow> string \<Rightarrow> bool \<Rightarrow> string" where
  "runner_alert_message e syncRunId partial =
     (if partial
      then utf8 [0xE0, 0xB9, 0x80, 0xE0, 0xB8, 0x81, 0xE0, 0xB8, 0xB4, 0xE0, 0xB8, 0x94] @ '' Partial/Unknown write ''
        @ utf8 [0xE0, 0xB9, 0x81, 0xE0, 0xB8, 0xA5, 0xE0, 0xB8, 0xB0, 0xE0, 0xB8, 0xA3, 0xE0, 0xB8, 0xB0, 0xE0, 0xB8, 0x9A,
            0xE0, 0xB8, 0x9A, 0xE0, 0xB8, 0x88, 0xE0, 0xB8, 0xB0] @ '' Reconcile ''
        @ utf8 [0xE0, 0xB9, 0x83, 0xE0, 0xB8, 0x99, 0xE0, 0xB8, 0xA3, 0xE0, 0xB8, 0xAD, 0xE0, 0xB8, 0x9A, 0xE0, 0xB8, 0x96,
            0xE0, 0xB8, 0xB1, 0xE0, 0xB8, 0x94, 0xE0, 0xB9, 0x84, 0xE0, 0xB8, 0x9B]
      else utf8 [0xE0, 0xB8, 0xA3, 0xE0, 0xB8, 0xAD, 0xE0, 0xB8, 0x9A] @ '' Sync ''
        @ utf8 [0xE0, 0xB8, 0xA5, 0xE0, 0xB9, 0x89, 0xE0, 0xB8, 0xA1, 0xE0, 0xB9, 0x80, 0xE0, 0xB8, 0xAB, 0xE0, 0xB8, 0xA5,
            0xE0, 0xB8, 0xA7])
     @ newline @ ''sync_run_id='' @ syncRunId @ newline @ ''error='' @ oe_message (sanitizeOperationalError e)"

definition warning_alert_message :: "string \<Rightarrow> nat \<Rightarrow> string" where
  "warning_alert_message run n =
     utf8 [0xE0, 0xB8, 0xA3, 0xE0, 0xB8, 0xAD, 0xE0, 0xB8, 0x9A] @ '' Sync ''
     @ utf8 [0xE0, 0xB8, 0xAA, 0xE0, 0xB8, 0xB3, 0xE0, 0xB9, 0x80, 0xE0, 0xB8, 0xA3, 0xE0, 0xB9, 0x87, 0xE0, 0xB8, 0x88,
         0xE0, 0xB9, 0x81, 0xE0, 0xB8, 0x95, 0xE0, 0xB9, 0x88, 0xE0, 0xB8, 0x95, 0xE0, 0xB9, 0x89, 0xE0, 0xB8, 0xAD,
         0xE0, 0xB8, 0x87, 0xE0, 0xB8, 0x95, 0xE0, 0xB8, 0xA3, 0xE0, 0xB8, 0xA7, 0xE0, 0xB8, 0x88] @ '' Reconciliation warning''
     @ newline @ ''sync_run_id='' @ run @ newline @ ''warning_count='' @ nat_text n"

definition array_items :: "jsval \<Rightarrow> jsval list" where
  "array_items v = (case v of JArr xs \<Rightarrow> xs | _ \<Rightarrow> [])"

text \<open>The spread \<open>{...value, key: x}\<close>.\<close>

definition spread :: "jsval \<Rightarrow> (string \<times> jsval) list" where
  "spread v = (case v of
       JObj kvs \<Rightarrow> kvs
     | JArr xs \<Rightarrow> map (\<lambda>i. (nat_text i, xs ! i)) [0..<length xs]
     | JStr s \<Rightarrow> map (\<lambda>i. (nat_text i, JStr [s ! i])) [0..<length s]
     | _ \<Rightarrow> [])"

subsection \<open>The run\<close>

record sync_context =
  sc_syncRunId :: string
  sc_lockKey :: string

text \<open>
  The input: its data, the values of \<open>crypto.randomUUID()\<close> in order, the job, and whether there is
  a warning outbox (the resumable work store on the same database).
\<close>

record run_input =
  ri_fields :: jsval
  ri_uuids :: "nat \<Rightarrow> string"
  ri_execute :: "sync_context \<Rightarrow> (runner_world, jsval) eff"
  ri_outbox :: bool

definition runner_saveSyncRun :: "js_host \<Rightarrow> run_input \<Rightarrow> jsval \<Rightarrow> (runner_world, unit) eff" where
  "runner_saveSyncRun host inp entry =
     check (createSyncLogEntry host (ri_uuids inp 0) entry) (\<lambda>e.
     andThen pause (\<lambda>_. in_worker (store_saveSyncRun e)))"

definition runner_saveAlert :: "js_host \<Rightarrow> string \<Rightarrow> int \<Rightarrow> jsval \<Rightarrow> (runner_world, unit) eff" where
  "runner_saveAlert host uuid now alert =
     check (createSystemAlert host uuid now alert) (\<lambda>a.
     andThen pause (\<lambda>_. in_worker (store_saveSystemAlert a)))"

definition run_identity :: "run_input \<Rightarrow> string \<Rightarrow> (string \<times> jsval) list" where
  "run_identity inp syncRunId = (let i = ri_fields inp in
     [(''syncId'', JStr syncRunId), (''customerProfile'', jget i ''customerProfile''),
      (''accountKey'', jget i ''accountKey''), (''platform'', jget i ''platform''), (''syncType'', jget i ''syncType''),
      (''retryCount'', nullish (jget i ''retryCount'') (jint 0))])"

definition busy_error :: "string \<Rightarrow> int option \<Rightarrow> jserror" where
  "busy_error lockKey expiresAt = transientError (''Sync lock is busy: '' @ lockKey) ''SYNC_LOCK_BUSY''
     (JObj [(''lockKey'', JStr lockKey), (''expiresAt'', jopt_int expiresAt)])"

text \<open>A busy lock: there is no heartbeat yet, so no timer fires at this await.\<close>

definition record_busy ::
    "js_host \<Rightarrow> run_input \<Rightarrow> string \<Rightarrow> string \<Rightarrow> int \<Rightarrow> int option \<Rightarrow> (runner_world, jsval) eff" where
  "record_busy host inp syncRunId lockKey startedAt expiresAt =
     (let e = busy_error lockKey expiresAt; oe = sanitizeOperationalError e in
      andThen runner_now (\<lambda>finishedAt.
      check (createSyncLogEntry host (ri_uuids inp 0) (JObj (run_identity inp syncRunId
        @ [(''source'', jget (ri_fields inp) ''source''), (''status'', JStr ''skipped''), (''startedAt'', jint startedAt),
           (''finishedAt'', jint finishedAt), (''errorCode'', jopt (oe_code oe)),
           (''errorMessage'', JStr (oe_message oe)), (''details'', oe_details oe)]))) (\<lambda>entry.
      andThen breathe (\<lambda>_.
      andThen (in_worker (store_saveSyncRun entry)) (\<lambda>_.
      throw (markReliabilityHandled e (Some syncRunId)))))))"

definition warning_error :: "jserror \<Rightarrow> jserror" where
  "warning_error e = (if err_retryable e = Some True then e
     else runtime_error ''Failed to persist sync reconciliation warning alert''
       (nullish (err_code_val e) (JStr ''SYNC_WARNING_ALERT_WRITE_FAILED'')) True
       (JObj [(''causeCode'', err_code_val e)]))"

text \<open>A warning that could not be delivered: the outbox learns of it, the failure is reported, and the run fails.\<close>

definition warning_not_delivered ::
    "run_input \<Rightarrow> string option \<Rightarrow> int \<Rightarrow> jserror \<Rightarrow> (runner_world, unit) eff" where
  "warning_not_delivered inp outboxId finishedAt e =
     andThen (case outboxId of
         Some i \<Rightarrow> if ri_outbox inp
           then catching
             (andThen pause (\<lambda>_. andThen (in_worker (clocked (work_markWarningDeliveryFailed (JObj [(''outboxId'', JStr i),
                (''errorCode'', nullish (err_code_val e) (JStr ''SYNC_WARNING_ALERT_WRITE_FAILED'')),
                (''updatedAt'', jint finishedAt)])))) (\<lambda>_. ret ())))
             (\<lambda>x. report ''result_warning_outbox_failure_record_failed'' x)
           else ret ()
       | None \<Rightarrow> ret ()) (\<lambda>_.
     andThen (report ''result_warning_alert_failed'' e) (\<lambda>_. throw (warning_error e)))"

definition deliver_result_warnings ::
    "js_host \<Rightarrow> run_input \<Rightarrow> string \<Rightarrow> int \<Rightarrow> jsval \<Rightarrow> (runner_world, unit) eff" where
  "deliver_result_warnings host inp syncRunId finishedAt result =
     (let warnings = array_items (jget result ''warnings''); i = ri_fields inp;
          outboxId = optionalText (jget (jget result ''warningOutbox'') ''outboxId'')
      in if jget i ''alertOnResultWarnings'' \<noteq> JBool True \<or> jget result ''dryRun'' = JBool True \<or> warnings = []
         then ret ()
         else catching
           (andThen (runner_saveAlert host (ri_uuids inp 1) finishedAt (JObj
              ((case outboxId of Some a \<Rightarrow> [(''alertId'', JStr a)] | None \<Rightarrow> [])
               @ [(''syncRunId'', JStr syncRunId), (''alertType'', JStr ''sync_completed_with_warnings''),
                  (''severity'', JStr ''warning''), (''platform'', jget i ''platform''), (''status'', JStr ''open''),
                  (''errorCode'', nullish (jget (hd warnings) ''code'') (JStr ''SYNC_RESULT_WARNING'')),
                  (''message'', JStr (warning_alert_message syncRunId (length warnings))),
                  (''createdAt'', jint finishedAt),
                  (''details'', JObj [(''customerProfile'', or_null (jget i ''customerProfile'')),
                     (''accountKey'', or_null (jget i ''accountKey'')),
                     (''warnings'', sanitizeOperationalValue (JArr warnings)),
                     (''reconciliation'', sanitizeOperationalValue (or_null (jget result ''reconciliation'')))])]))) (\<lambda>_.
            case outboxId of
              None \<Rightarrow> ret ()
            | Some a \<Rightarrow>
                if \<not> ri_outbox inp
                then throw (type_error ''runReliableSync requires warningOutboxStore.markWarningDelivered'')
                else andThen pause (\<lambda>_. andThen (in_worker (clocked (work_markWarningDelivered
                       (JObj [(''outboxId'', JStr a), (''deliveredAt'', jint finishedAt)])))) (\<lambda>_. ret ()))))
           (warning_not_delivered inp outboxId finishedAt))"

definition completion_entry :: "run_input \<Rightarrow> string \<Rightarrow> int \<Rightarrow> int \<Rightarrow> jsval \<Rightarrow> jsval" where
  "completion_entry inp syncRunId startedAt finishedAt result =
     (let superseded = (jget result ''mode'' = JStr ''superseded'') in JObj (run_identity inp syncRunId
       @ [(''source'', nullish (jget (ri_fields inp) ''source'') (jget result ''source'')),
          (''status'', JStr (if superseded then ''skipped'' else ''success''))]
       @ (if superseded then [(''errorCode'', JStr ''SYNC_WORK_SUPERSEDED''),
             (''errorMessage'', JStr ''Superseded by a newer sync generation'')] else [])
       @ [(''startedAt'', jint startedAt), (''finishedAt'', jint finishedAt)] @ summarizeSyncResult result
       @ [(''details'', JObj ([(''reconciliation'', sanitizeOperationalValue (or_null (jget result ''reconciliation''))),
            (''incremental'', or_null (jget result ''incremental'')),
            (''sourceSummary'', sanitizeOperationalValue (or_null (jget result ''sourceSummary''))),
            (''warningCount'', array_length (jget result ''warnings'')),
            (''completionMode'', or_null (jget result ''mode'')), (''writeOutcomes'', readWriteOutcomes result)]
            @ readProviderBoundaryCounts result))]))"

text \<open>The body of the \<open>try\<close> block.\<close>

definition run_under_lease ::
    "js_host \<Rightarrow> run_input \<Rightarrow> string \<Rightarrow> string \<Rightarrow> int \<Rightarrow> int \<Rightarrow> int \<Rightarrow> (runner_world, jsval) eff" where
  "run_under_lease host inp syncRunId lockKey leaseMs interval startedAt =
     andThen (runner_saveSyncRun host inp (JObj (run_identity inp syncRunId
       @ [(''source'', jget (ri_fields inp) ''source''), (''status'', JStr ''running''), (''startedAt'', jint startedAt),
          (''details'', JObj [(''lockKey'', JStr lockKey), (''leaseMs'', jint leaseMs),
             (''renewIntervalMs'', jint interval)])]))) (\<lambda>_.
     andThen assertActive (\<lambda>_.
     andThen (ri_execute inp \<lparr>sc_syncRunId = syncRunId, sc_lockKey = lockKey\<rparr>) (\<lambda>result.
     andThen assertActive (\<lambda>_.
     andThen runner_now (\<lambda>finishedAt.
     andThen (runner_saveSyncRun host inp (completion_entry inp syncRunId startedAt finishedAt result)) (\<lambda>_.
     andThen (deliver_result_warnings host inp syncRunId finishedAt result) (\<lambda>_.
     ret (jput ''syncRunId'' (JStr syncRunId) (JObj (spread result))))))))))"

definition failure_entry :: "run_input \<Rightarrow> string \<Rightarrow> int \<Rightarrow> int \<Rightarrow> jserror \<Rightarrow> jsval" where
  "failure_entry inp syncRunId startedAt finishedAt e =
     (let oe = sanitizeOperationalError e; partial = isPartialSyncError e;
          source = (if partial then (case err_partial e of Some v \<Rightarrow> v | None \<Rightarrow> JUndef) else JNull)
      in JObj (run_identity inp syncRunId
       @ [(''source'', nullish (jget (ri_fields inp) ''source'') (jget source ''source'')),
          (''status'', JStr (if partial then ''partial_success'' else ''failed'')),
          (''startedAt'', jint startedAt), (''finishedAt'', jint finishedAt)] @ summarizeSyncResult source
       @ [(''errorCode'', nullish (jopt (oe_code oe)) (JStr ''UNHANDLED_SYNC_ERROR'')),
          (''errorMessage'', JStr (oe_message oe)),
          (''details'', JObj [(''retryable'', JBool (err_retryable e = Some True)),
             (''reconciliation'', sanitizeOperationalValue (or_null (jget source ''reconciliation''))),
             (''incremental'', or_null (jget source ''incremental'')),
             (''sourceSummary'', sanitizeOperationalValue (or_null (jget source ''sourceSummary''))),
             (''writeOutcomes'', readWriteOutcomes source), (''errorDetails'', oe_details oe)])]))"

definition failure_alert :: "run_input \<Rightarrow> string \<Rightarrow> int \<Rightarrow> jserror \<Rightarrow> jsval" where
  "failure_alert inp syncRunId finishedAt e =
     (let oe = sanitizeOperationalError e; partial = isPartialSyncError e; i = ri_fields inp;
          retryable = (err_retryable e = Some True);
          source = (if partial then (case err_partial e of Some v \<Rightarrow> v | None \<Rightarrow> JUndef) else JNull)
      in JObj [(''syncRunId'', JStr syncRunId),
         (''alertType'', JStr (if partial then ''sync_partial_write'' else ''sync_failed'')),
         (''severity'', JStr (if partial then ''critical'' else if retryable then ''warning'' else ''critical'')),
         (''platform'', jget i ''platform''), (''status'', JStr ''open''),
         (''errorCode'', nullish (jopt (oe_code oe)) (JStr ''UNHANDLED_SYNC_ERROR'')),
         (''message'', JStr (runner_alert_message e syncRunId partial)), (''createdAt'', jint finishedAt),
         (''details'', JObj [(''customerProfile'', or_null (jget i ''customerProfile'')),
            (''accountKey'', or_null (jget i ''accountKey'')), (''retryable'', JBool retryable),
            (''partial'', JBool partial), (''writeOutcomes'', readWriteOutcomes source)])])"

text \<open>The \<open>catch\<close> block: the failure is recorded before it is thrown on.\<close>

definition record_failure ::
    "js_host \<Rightarrow> run_input \<Rightarrow> string \<Rightarrow> int \<Rightarrow> jserror \<Rightarrow> (runner_world, jsval) eff" where
  "record_failure host inp syncRunId startedAt e =
     andThen runner_now (\<lambda>finishedAt.
     andThen (runner_saveSyncRun host inp (failure_entry inp syncRunId startedAt finishedAt e)) (\<lambda>_.
     andThen (if isPartialSyncError e \<or> err_retryable e \<noteq> Some True
                \<or> jget (ri_fields inp) ''alertOnRetryableFailure'' = JBool True
              then runner_saveAlert host (ri_uuids inp 1) finishedAt (failure_alert inp syncRunId finishedAt e)
              else ret ()) (\<lambda>_.
     throw (markReliabilityHandled e (Some syncRunId)))))"

definition release_alert :: "run_input \<Rightarrow> string \<Rightarrow> string \<Rightarrow> jserror option \<Rightarrow> jserror \<Rightarrow> jsval" where
  "release_alert inp syncRunId lockKey primary e =
     JObj [(''syncRunId'', JStr syncRunId), (''alertType'', JStr ''sync_lock_release_failed''),
       (''severity'', JStr ''critical''), (''platform'', jget (ri_fields inp) ''platform''),
       (''errorCode'', nullish (err_code_val e) (JStr ''SYNC_LOCK_RELEASE_FAILED'')),
       (''message'', JStr (utf8 [0xE0, 0xB8, 0x9B, 0xE0, 0xB8, 0xA5, 0xE0, 0xB9, 0x88, 0xE0, 0xB8, 0xAD, 0xE0, 0xB8, 0xA2]
          @ '' Lock '' @ utf8 [0xE0, 0xB9, 0x84, 0xE0, 0xB8, 0xA1, 0xE0, 0xB9, 0x88, 0xE0, 0xB8, 0xAA, 0xE0, 0xB8, 0xB3,
              0xE0, 0xB9, 0x80, 0xE0, 0xB8, 0xA3, 0xE0, 0xB9, 0x87, 0xE0, 0xB8, 0x88] @ '': ''
          @ oe_message (sanitizeOperationalError e))),
       (''details'', sanitizeOperationalValue (JObj [(''lockKey'', JStr lockKey),
          (''operationCompleted'', JBool (primary = None)),
          (''primaryError'', case primary of Some x \<Rightarrow> JStr (oe_message (sanitizeOperationalError x)) | None \<Rightarrow> JNull)]))]"

text \<open>The \<open>finally\<close> block.\<close>

definition release_lease ::
    "js_host \<Rightarrow> run_input \<Rightarrow> string \<Rightarrow> string \<Rightarrow> jserror option \<Rightarrow> (runner_world, unit) eff" where
  "release_lease host inp syncRunId lockKey primary =
     andThen stop_heartbeat (\<lambda>_.
     catching
       (andThen breathe (\<lambda>_.
        andThen (in_worker (with_db (d1_release (release_input lockKey syncRunId)))) (\<lambda>released.
        if released then ret ()
        else throw (transientError (''Sync lock was not owned during release: '' @ lockKey) ''SYNC_LOCK_RELEASE_NOT_OWNED''
          (JObj [(''lockKey'', JStr lockKey)])))))
       (\<lambda>e.
        andThen runner_now (\<lambda>now.
        check (createSystemAlert host (ri_uuids inp 2) now (release_alert inp syncRunId lockKey primary e)) (\<lambda>alert.
        andThen (catching (andThen breathe (\<lambda>_. in_worker (store_saveSystemAlert alert)))
                   (\<lambda>x. report ''lock_release_alert_failed'' x)) (\<lambda>_.
        report ''lock_release_failed'' e)))))"

text \<open>
  \<open>try m catch (h) finally (f)\<close>, where \<open>f\<close> knows the error of \<open>m\<close>: an error of \<open>f\<close> replaces the outcome.
\<close>

definition try_catch_finally ::
    "('s, 'a) eff \<Rightarrow> (jserror \<Rightarrow> ('s, 'a) eff) \<Rightarrow> (jserror option \<Rightarrow> ('s, unit) eff) \<Rightarrow> ('s, 'a) eff" where
  "try_catch_finally m h f = (\<lambda>s.
     let (r, t) = (case m s of (Inr x, t) \<Rightarrow> (Inr x, t) | (Inl e, t) \<Rightarrow> h e t);
         primary = (case m s of (Inl e, _) \<Rightarrow> Some e | (Inr _, _) \<Rightarrow> None)
     in case f primary t of (Inl e, u) \<Rightarrow> (Inl e, u) | (Inr _, u) \<Rightarrow> (r, u))"

definition runReliableSync :: "js_host \<Rightarrow> run_input \<Rightarrow> (runner_world, jsval) eff" where
  "runReliableSync host inp =
     (let i = ri_fields inp in
      check (run_normalizeId (ri_uuids inp 0) (jget i ''syncRunId'')) (\<lambda>syncRunId.
      check (createSyncLockKey i) (\<lambda>lockKey.
      check (run_positiveInteger (nullish (jget i ''leaseMs'') (jint 600000)) ''leaseMs'') (\<lambda>leaseMs.
      check (resolveRenewInterval (jget i ''renewIntervalMs'') leaseMs) (\<lambda>interval.
      andThen runner_now (\<lambda>startedAt.
      andThen breathe (\<lambda>_.
      andThen (in_worker (clocked (stale_aware_acquire (lock_input lockKey syncRunId leaseMs)))) (\<lambda>lock.
      if \<not> lr_ok lock then record_busy host inp syncRunId lockKey startedAt (lr_expiresAt lock)
      else
      andThen (createLeaseHeartbeat lockKey syncRunId leaseMs (jint interval) (jopt_int (lr_expiresAt lock))
        (jget i ''renewAttempts'')) (\<lambda>_.
      try_catch_finally (run_under_lease host inp syncRunId lockKey leaseMs interval startedAt)
        (record_failure host inp syncRunId startedAt)
        (release_lease host inp syncRunId lockKey))))))))))"

subsection \<open>Pending warnings\<close>

definition pending_alert :: "jsval \<Rightarrow> pending_warning \<Rightarrow> int \<Rightarrow> jsval" where
  "pending_alert input event deliveredAt =
     (let warnings = array_items (jget (pe_payload event) ''warnings''); context = jget (pe_payload event) ''context''
      in JObj [(''alertId'', JStr (pe_outboxId event)), (''syncRunId'', jopt (optionalText (JStr (pe_syncRunId event)))),
         (''alertType'', JStr (pe_warningType event)), (''severity'', JStr ''warning''),
         (''platform'', nullish (nullish (jget context ''platform'') (jget input ''platform'')) (JStr ''system'')),
         (''status'', JStr ''open''),
         (''errorCode'', if warnings = [] then JStr ''SYNC_RESULT_WARNING''
            else nullish (jget (hd warnings) ''code'') (JStr ''SYNC_RESULT_WARNING'')),
         (''message'', JStr (warning_alert_message (pe_syncRunId event) (length warnings))),
         (''createdAt'', jint deliveredAt),
         (''details'', JObj [(''customerProfile'', or_null (jget context ''customerProfile'')),
            (''accountKey'', or_null (jget context ''accountKey'')),
            (''warnings'', sanitizeOperationalValue (JArr warnings)),
            (''reconciliation'', sanitizeOperationalValue (or_null (jget (pe_payload event) ''reconciliation'')))])])"

definition pending_not_delivered :: "pending_warning \<Rightarrow> int \<Rightarrow> jserror \<Rightarrow> (runner_world, unit) eff" where
  "pending_not_delivered event deliveredAt e =
     andThen (catching
       (andThen breathe (\<lambda>_. andThen (in_worker (clocked (work_markWarningDeliveryFailed (JObj
          [(''outboxId'', JStr (pe_outboxId event)),
           (''errorCode'', nullish (err_code_val e) (JStr ''SYNC_WARNING_ALERT_WRITE_FAILED'')),
           (''updatedAt'', jint deliveredAt)])))) (\<lambda>_. ret ())))
       (\<lambda>x. report ''warning_outbox_failure_record_failed'' x)) (\<lambda>_.
     andThen (report ''warning_outbox_delivery_failed'' e) (\<lambda>_.
     throw (if err_retryable e = Some True then e
       else runtime_error ''Failed to deliver pending sync warning''
         (nullish (err_code_val e) (JStr ''SYNC_WARNING_ALERT_WRITE_FAILED'')) True
         (JObj [(''outboxId'', JStr (pe_outboxId event))]))))"

definition deliver_pending_warning :: "js_host \<Rightarrow> jsval \<Rightarrow> pending_warning \<Rightarrow> (runner_world, unit) eff" where
  "deliver_pending_warning host input event =
     andThen runner_now (\<lambda>deliveredAt. catching
       (check (createSystemAlert host [] deliveredAt (pending_alert input event deliveredAt)) (\<lambda>alert.
        andThen breathe (\<lambda>_.
        andThen (in_worker (store_saveSystemAlert alert)) (\<lambda>_.
        andThen breathe (\<lambda>_.
        andThen (in_worker (clocked (work_markWarningDelivered (JObj [(''outboxId'', JStr (pe_outboxId event)),
          (''deliveredAt'', jint deliveredAt)])))) (\<lambda>_. ret ()))))))
       (pending_not_delivered event deliveredAt))"

definition drainPendingSyncWarnings :: "js_host \<Rightarrow> jsval \<Rightarrow> (runner_world, jsval) eff" where
  "drainPendingSyncWarnings host input =
     check (run_positiveInteger (nullish (jget input ''limit'') (jint 25)) ''warningOutboxLimit'') (\<lambda>limit.
     andThen breathe (\<lambda>_.
     andThen (in_worker (with_db (work_listPendingWarnings (JObj [(''limit'', jint limit)])))) (\<lambda>pending.
     andThen (for_each (deliver_pending_warning host input) pending) (\<lambda>_.
     ret (JObj [(''scanned'', jint (int (length pending))), (''delivered'', jint (int (length pending)))])))))"

end
