(* ===== verification/Runner_Guarantees.thy ===== *)
theory Runner_Guarantees
  imports Reliable_Runner
begin

text \<open>
  What the reliable runner guarantees. The lease laws of the stale-aware lock (\<open>stale_lock\<close>) and of the
  lock on D1 (\<open>d1_lock\<close>) are the facts it rests on; the other invocations are assumed to respect a lease
  that has not expired, which is what \<open>lease_exclusion\<close> shows of every operation of the lock manager.
\<close>

subsection \<open>Operations that leave the locks alone\<close>

abbreviation locks_same :: "d1 \<Rightarrow> d1 \<Rightarrow> bool" where
  "locks_same \<equiv> unchanged sync_locks"

lemma sql_put_locks:
  "sql_put_run row s = Inr t \<Longrightarrow> sync_locks t = sync_locks s \<and> faults t = faults s"
  "sql_put_alert al s = Inr t \<Longrightarrow> sync_locks t = sync_locks s \<and> faults t = faults s"
  by (auto simp: sql_put_run_def sql_put_alert_def split: if_splits)

lemma sql_store_locks [simp]:
  "sync_locks (snd (sql_warning_failed i code now s)) = sync_locks s"
  "sync_locks (snd (sql_warning_delivered i now s)) = sync_locks s"
  "sync_locks (snd (sql_schedule i m x now s)) = sync_locks s"
  by (simp_all add: sql_warning_failed_def sql_warning_delivered_def sql_schedule_def)

lemma saveSyncRun_locks: "evolves locks_same (saveSyncRun e t)"
  unfolding saveSyncRun_def by (intro evolves_intro) (auto dest: sql_put_locks)

lemma saveSystemAlert_locks: "evolves locks_same (saveSystemAlert e t)"
  unfolding saveSystemAlert_def by (intro evolves_intro) (auto dest: sql_put_locks)

lemma schedule_locks: "evolves locks_same (schedule i t)"
  unfolding schedule_def by (intro evolves_intro) (auto simp: unchanged_def intro: fault_blind_unchanged)

lemma durable_locks:
  "evolves locks_same (durable_saveSyncRun e signal t)" "evolves locks_same (durable_saveSystemAlert e signal t)"
  unfolding durable_saveSyncRun_def durable_saveSystemAlert_def scheduleMirror_def readSystemAlertForMirror_def
  by (intro evolves_intro saveSyncRun_locks saveSystemAlert_locks schedule_locks; simp)+

lemma warning_locks:
  "evolves locks_same (work_markWarningDeliveryFailed i t)" "evolves locks_same (work_markWarningDelivered i t)"
  unfolding work_markWarningDeliveryFailed_def work_markWarningDelivered_def Let_def
  by (intro evolves_intro; simp)+

text \<open>A statement on a database without faults leaves it without faults.\<close>

abbreviation quiet_kept :: "d1 \<Rightarrow> d1 \<Rightarrow> bool" where
  "quiet_kept \<equiv> keeping quiet"

lemma quiet_stmts:
  "evolves quiet_kept (query p)"
  "(\<And>s. faults (snd (q s)) = faults s) \<Longrightarrow> evolves quiet_kept (run_sql q)"
  "(\<And>s t. b s = Inr t \<Longrightarrow> faults t = faults s) \<Longrightarrow> evolves quiet_kept (batch b)"
  by (auto simp: evolves_def keeping_def eff_simps quiet_def split: sum.splits)

lemmas quiet_rules = quiet_stmts evolves_andThen evolves_check evolves_catching evolves_ret evolves_throw evolves_if
  evolves_case_option evolves_let

lemma sql_store_faults [simp]:
  "faults (snd (sql_warning_failed i code now s)) = faults s"
  "faults (snd (sql_warning_delivered i now s)) = faults s"
  "faults (snd (sql_schedule i m text now s)) = faults s"
  "faults (snd (sql_acquire k w now e s)) = faults s"
  "faults (snd (sql_renew k w now e s)) = faults s"
  "faults (snd (sql_release k w s)) = faults s"
  by (simp_all add: sql_warning_failed_def sql_warning_delivered_def sql_schedule_def
      sql_acquire_def sql_renew_def sql_release_def)

lemma durable_quiet:
  "evolves quiet_kept (durable_saveSyncRun e signal t)" "evolves quiet_kept (durable_saveSystemAlert e signal t)"
  unfolding durable_saveSyncRun_def durable_saveSystemAlert_def scheduleMirror_def readSystemAlertForMirror_def
    saveSyncRun_def saveSystemAlert_def schedule_def
  by (intro quiet_rules; simp add: sql_put_locks)+

lemma warning_quiet:
  "evolves quiet_kept (work_markWarningDeliveryFailed i t)" "evolves quiet_kept (work_markWarningDelivered i t)"
  unfolding work_markWarningDeliveryFailed_def work_markWarningDelivered_def Let_def
  by (intro quiet_rules; simp)+

lemma lock_quiet:
  "evolves quiet_kept (stale_aware_acquire i t)" "evolves quiet_kept (d1_renew i t)" "evolves quiet_kept (d1_release i)"
  unfolding stale_aware_acquire_def d1_acquire_def d1_renew_def d1_release_def
  by (intro quiet_rules; simp)+

text \<open>Steps of an invocation that read the clock, send and log, and leave the locks alone.\<close>

definition lock_free :: "worker_world \<Rightarrow> worker_world \<Rightarrow> bool" where
  "lock_free w w' \<longleftrightarrow> ww_clock w' = ww_clock w \<and> ww_ticks w \<le> ww_ticks w' \<and>
     ww_sendFaults w' = ww_sendFaults w \<and> locks_same (ww_db w) (ww_db w') \<and> quiet_kept (ww_db w) (ww_db w')"

lemma lock_free_preorder [simp]: "reflp lock_free" "transp lock_free"
  by (auto simp: reflp_def transp_def lock_free_def unchanged_def keeping_def)

lemma read_clock_free [evolves_intro]: "evolves lock_free read_clock"
  by (simp add: evolves_def read_clock_def lock_free_def unchanged_def keeping_def)

lemma with_db_free [evolves_intro]:
  "evolves locks_same m \<Longrightarrow> evolves quiet_kept m \<Longrightarrow> evolves lock_free (with_db m)"
  by (auto simp: evolves_def with_db_def lock_free_def split: prod.splits; metis snd_conv)

lemma clocked_free [evolves_intro]:
  "(\<And>t. evolves locks_same (f t)) \<Longrightarrow> (\<And>t. evolves quiet_kept (f t)) \<Longrightarrow> evolves lock_free (clocked f)"
  unfolding clocked_def by (intro evolves_intro) auto

lemma queue_send_free: "evolves lock_free (queue_send b d)"
  by (auto simp: evolves_def queue_send_def lock_free_def unchanged_def keeping_def split: option.splits)

lemma log_free: "evolves lock_free (logQueueResult p)"
  unfolding logQueueResult_def Let_def by (intro evolves_intro) (auto simp: lock_free_def unchanged_def keeping_def)

lemma mirror_signal_free: "evolves lock_free (logMirrorSignalError e)"
  unfolding logMirrorSignalError_def by (rule log_free)

lemma store_free:
  "evolves lock_free (store_saveSyncRun e)" "evolves lock_free (store_saveSystemAlert e)"
  unfolding store_saveSyncRun_def store_saveSystemAlert_def
  by (intro evolves_intro durable_locks durable_quiet queue_send_free mirror_signal_free; simp)+

subsection \<open>The lease of a run\<close>

text \<open>
  The value the clock returned last, and the one it returns next; a scope is held when the lock table
  names the owner with an expiry the clock had not reached when it was last read.
\<close>

definition next_clock :: "runner_world \<Rightarrow> int" where
  "next_clock w = ww_clock (rn_worker w) (ww_ticks (rn_worker w))"

definition last_clock :: "runner_world \<Rightarrow> int" where
  "last_clock w = ww_clock (rn_worker w) (ww_ticks (rn_worker w) - 1)"

definition holds_lease :: "string \<Rightarrow> string \<Rightarrow> runner_world \<Rightarrow> bool" where
  "holds_lease k owner w \<longleftrightarrow> live_own owner (last_clock w) (d1_holder (rn_db w) k)"

text \<open>Another invocation at time \<open>t\<close> leaves a lease that has not expired alone.\<close>

definition defers_to :: "string \<Rightarrow> string \<Rightarrow> (int \<Rightarrow> d1 \<Rightarrow> d1) \<Rightarrow> bool" where
  "defers_to k owner f \<longleftrightarrow> (\<forall>t s. locks_keyed s \<longrightarrow> locks_keyed (f t s) \<and>
     (\<forall>e. t < e \<and> d1_holder s k = Some (owner, e) \<longrightarrow> d1_holder (f t s) k = Some (owner, e)))"

definition orderly :: "string \<Rightarrow> string \<Rightarrow> runner_world \<Rightarrow> bool" where
  "orderly k owner w \<longleftrightarrow> mono (ww_clock (rn_worker w)) \<and> (\<forall>n. 0 \<le> ww_clock (rn_worker w) n) \<and>
     (\<forall>n f. Elsewhere f \<in> set (rn_others w n) \<longrightarrow> defers_to k owner f)"

text \<open>The expiry the heartbeat believes in is covered: it has passed, or the table has at least that.\<close>

definition covered :: "string \<Rightarrow> string \<Rightarrow> int \<Rightarrow> runner_world \<Rightarrow> bool" where
  "covered k owner x w \<longleftrightarrow> x \<le> next_clock w \<or> (\<exists>e \<ge> x. d1_holder (rn_db w) k = Some (owner, e))"

definition leased :: "string \<Rightarrow> string \<Rightarrow> int \<Rightarrow> runner_world \<Rightarrow> bool" where
  "leased k owner l w \<longleftrightarrow> orderly k owner w \<and> op_valid (Renew k owner l 0) \<and> locks_keyed (rn_db w) \<and>
     hb_lockKey (rn_heartbeat w) = k \<and> hb_ownerId (rn_heartbeat w) = owner \<and> hb_leaseMs (rn_heartbeat w) = l \<and>
     hb_expiresAt (rn_heartbeat w) \<le> next_clock w + l \<and> covered k owner (hb_expiresAt (rn_heartbeat w)) w"

text \<open>Steps that leave the locks, the others and the expiry of the heartbeat alone keep it.\<close>

definition calm_step :: "runner_world \<Rightarrow> runner_world \<Rightarrow> bool" where
  "calm_step w w' \<longleftrightarrow> lock_free (rn_worker w) (rn_worker w') \<and> rn_others w' = rn_others w \<and>
     (let h = rn_heartbeat w; h' = rn_heartbeat w' in hb_lockKey h' = hb_lockKey h \<and> hb_ownerId h' = hb_ownerId h \<and>
        hb_leaseMs h' = hb_leaseMs h \<and> hb_attempts h' = hb_attempts h \<and> hb_expiresAt h' = hb_expiresAt h)"

lemma calm_step_preorder [simp]: "reflp calm_step" "transp calm_step"
  by (auto simp: reflp_def transp_def calm_step_def lock_free_def Let_def unchanged_def keeping_def)

lemma calm_next: "calm_step w w' \<Longrightarrow> mono (ww_clock (rn_worker w)) \<Longrightarrow> next_clock w \<le> next_clock w'"
  by (auto simp: calm_step_def lock_free_def next_clock_def dest: monoD)

lemma calm_orderly: "calm_step w w' \<Longrightarrow> orderly k owner w \<Longrightarrow> orderly k owner w'"
  by (simp add: calm_step_def lock_free_def orderly_def)

lemma calm_holder: "calm_step w w' \<Longrightarrow> d1_holder (rn_db w') k = d1_holder (rn_db w) k \<and> locks_keyed (rn_db w') = locks_keyed (rn_db w)"
  by (simp add: calm_step_def lock_free_def d1_holder_def locks_keyed_def unchanged_def)

lemma calm_leased: "calm_step w w' \<Longrightarrow> keeping (leased k owner l) w w'"
  unfolding keeping_def
proof
  assume c: "calm_step w w'" and l: "leased k owner l w"
  then have "next_clock w \<le> next_clock w'" by (intro calm_next) (simp_all add: leased_def orderly_def)
  with c l calm_orderly [OF c] calm_holder [OF c] show "leased k owner l w'"
    unfolding leased_def covered_def by (auto simp: calm_step_def Let_def intro: order_trans)
qed

lemma in_worker_calm [evolves_intro]: "evolves lock_free m \<Longrightarrow> evolves calm_step (in_worker m)"
  by (auto simp: evolves_def in_worker_def calm_step_def split: prod.splits; metis snd_conv)

lemma runner_now_calm [evolves_intro]: "evolves calm_step runner_now"
  unfolding runner_now_def by (intro evolves_intro)

lemma report_calm [evolves_intro]: "evolves calm_step (report stage e)"
  unfolding report_def by (intro evolves_intro) (simp add: calm_step_def lock_free_def unchanged_def keeping_def)

lemma next_events_calm [evolves_intro]: "evolves calm_step next_events"
  by (simp add: evolves_def next_events_def calm_step_def lock_free_def unchanged_def keeping_def)

lemma setTerminalError_calm [evolves_intro]: "evolves calm_step (setTerminalError e)"
  unfolding setTerminalError_def set_heartbeat_def
  by (intro evolves_intro) (auto simp: calm_step_def lock_free_def unchanged_def keeping_def split: option.splits)

lemma fail_heartbeat_calm [evolves_intro]: "evolves calm_step (fail_heartbeat e)"
  unfolding fail_heartbeat_def by (intro evolves_intro) auto

lemma assertActive_calm [evolves_intro]: "evolves calm_step assertActive"
  unfolding assertActive_def by (intro evolves_intro) auto

subsection \<open>Renewal and the awaits\<close>

lemma keeps_triple: "evolves (keeping I) m \<longleftrightarrow> triple I m (\<lambda>_. I) I"
  by (auto simp: evolves_def keeping_def triple_def split: sum.splits; metis prod.collapse)

lemma triple_each:
  "(\<And>x. x \<in> set xs \<Longrightarrow> evolves (keeping I) (f x)) \<Longrightarrow> evolves (keeping I) (for_each f xs)"
  by (induction xs) (auto intro: evolves_intro)

lemma triple_given: "(p \<Longrightarrow> triple I m Q E) \<Longrightarrow> triple (\<lambda>s. I s \<and> p) m Q E"
  by (auto simp: triple_def)

lemma leased_tick:
  "leased k owner l w \<Longrightarrow> ww_clock (rn_worker w) n \<le> ww_clock (rn_worker w) (Suc n)"
  by (simp add: leased_def orderly_def monoD)

lemma elsewhere_run: "elsewhere f w =
  (Inr (), w\<lparr>rn_worker := (rn_worker w)\<lparr>ww_ticks := Suc (ww_ticks (rn_worker w)), ww_db := f (next_clock w) (rn_db w)\<rparr>\<rparr>)"
  by (simp add: elsewhere_def in_worker_def read_clock_def with_db_def next_clock_def eff_simps)

lemma elsewhere_keeps:
  assumes "defers_to k owner f"
  shows "evolves (keeping (leased k owner l)) (elsewhere f)"
proof (rule evolvesI, unfold keeping_def, rule impI)
  fix w assume l: "leased k owner l w"
  let ?w = "snd (elsewhere f w)"
  have now: "next_clock w \<le> next_clock ?w"
    using leased_tick [OF l] by (simp add: elsewhere_run next_clock_def)
  have db: "rn_db ?w = f (next_clock w) (rn_db w)" by (simp add: elsewhere_run)
  have kept: "locks_keyed (rn_db ?w)"
    "d1_holder (rn_db w) k = Some (owner, e) \<Longrightarrow> next_clock w < e \<Longrightarrow> d1_holder (rn_db ?w) k = Some (owner, e)" for e
    using assms l by (auto simp: db defers_to_def leased_def)
  have cov: "covered k owner x ?w" if "covered k owner x w" for x
    using that now kept(2) unfolding covered_def by (metis leI order_trans)
  from l now kept(1) cov show "leased k owner l ?w"
    by (auto simp: leased_def orderly_def elsewhere_run)
qed

text \<open>What a renewal may set the expiry to.\<close>

definition grantable :: "string \<Rightarrow> string \<Rightarrow> int \<Rightarrow> int \<Rightarrow> runner_world \<Rightarrow> bool" where
  "grantable k owner l x w \<longleftrightarrow> 0 < x \<and> x \<le> next_clock w + l \<and> covered k owner x w"

lemma calm_grantable: "calm_step w w' \<Longrightarrow> mono (ww_clock (rn_worker w)) \<Longrightarrow> grantable k owner l x w \<Longrightarrow> grantable k owner l x w'"
  using calm_next calm_holder unfolding grantable_def covered_def by fastforce

lemma renew_step:
  assumes l: "leased k owner l w" and run: "in_worker (clocked (d1_renew (lock_input k owner l))) w = (r, w')"
  shows "leased k owner l w' \<and>
    (\<forall>q. r = Inr q \<and> lr_ok q \<longrightarrow> (\<exists>x. lr_expiresAt q = Some x \<and> grantable k owner l x w'))"
proof -
  let ?t = "next_clock w" and ?s = "rn_db w" and ?x = "Renew k owner l (next_clock w)"
  have v: "op_valid ?x" and keyed: "locks_keyed ?s" and t: "0 \<le> ?t"
    using l by (auto simp: leased_def op_valid_def orderly_def next_clock_def)
  obtain s' where s': "d1_renew (lock_input k owner l) ?t ?s = (r, s')"
    and w': "w' = w\<lparr>rn_worker := (rn_worker w)\<lparr>ww_ticks := Suc (ww_ticks (rn_worker w)), ww_db := s'\<rparr>\<rparr>"
    using run by (auto simp: in_worker_def clocked_def read_clock_def with_db_def next_clock_def eff_simps split: prod.splits)
  have now: "?t \<le> next_clock w'"
    using leased_tick [OF l] by (simp add: w' next_clock_def)
  have out: "step_outcome ?x ?s (fst (d1_lock_step ?x ?s)) s'"
    using d1_lock_step_outcome [OF v, of ?s] s' by (auto split: sum.splits)
  have hold: "d1_holder s' k = d1_holder ?s k \<or> live_own owner ?t (d1_holder ?s k) \<and> d1_holder s' k = Some (owner, ?t + l)"
    using out by (auto simp: step_outcome_def Let_def holder_sql_renew split: if_splits)
  have cov: "covered k owner y w'" if "covered k owner y w" "y \<le> ?t + l" for y
    using that now hold by (auto simp: covered_def w' intro: order_trans)
  have leased: "leased k owner l w'"
    using l now cov outcome_keyed [OF keyed out] by (auto simp: leased_def orderly_def w')
  have "\<exists>x. lr_expiresAt q = Some x \<and> grantable k owner l x w'" if "r = Inr q" "lr_ok q" for q
    using d1_lock.renewed [OF keyed v, of q s'] s' that t v now
    by (auto simp: grantable_def covered_def w' op_valid_def)
  with leased show ?thesis by blast
qed

lemma normalizeLeaseExpiry_positive [simp]: "0 < x \<Longrightarrow> normalizeLeaseExpiry (jopt_int (Some x)) y = x"
  by (simp add: normalizeLeaseExpiry_def jopt_int_def)


lemma awaiting:
  assumes "\<And>w n x. I w \<Longrightarrow> x \<in> set (rn_others w n) \<Longrightarrow> ok x"
    and "\<And>x. ok x \<Longrightarrow> evolves (keeping I) (act x)" and "evolves (keeping I) next_events"
  shows "evolves (keeping I) (andThen next_events (for_each act))"
  unfolding keeps_triple
proof (rule triple_andThen)
  show "triple I next_events (\<lambda>es w. I w \<and> (\<forall>x \<in> set es. ok x)) I"
    using assms(1) evolvesD [OF assms(3)]
    by (intro tripleI) (auto simp: keeping_def next_events_def)
next
  fix es
  have "evolves (keeping I) (for_each act es)" if "\<forall>x \<in> set es. ok x"
    using that assms(2) by (intro triple_each) blast
  then show "triple (\<lambda>w. I w \<and> (\<forall>x \<in> set es. ok x)) (for_each act es) (\<lambda>_. I) I"
    by (intro triple_given) (simp add: keeps_triple)
qed

text \<open>
  What a property of the world needs so that the runner keeps it: the first locale is enough for the
  awaits of a renewal, the second one for all others.
\<close>

locale runner_steps =
  fixes I :: "runner_world \<Rightarrow> bool" and ok :: "(int \<Rightarrow> d1 \<Rightarrow> d1) \<Rightarrow> bool"
  assumes calm: "calm_step w w' \<Longrightarrow> I w \<Longrightarrow> I w'"
    and events: "I w \<Longrightarrow> Elsewhere f \<in> set (rn_others w n) \<Longrightarrow> ok f"
    and others: "ok f \<Longrightarrow> evolves (keeping I) (elsewhere f)"
begin

lemma keeps_calm: "evolves calm_step m \<Longrightarrow> evolves (keeping I) m"
  by (erule evolves_mono) (auto simp: keeping_def intro: calm)

lemma at_events:
  assumes "evolves (keeping I) (act TimerTick)" "\<And>f. act (Elsewhere f) = elsewhere f"
  shows "evolves (keeping I) (andThen next_events (for_each act))"
proof (rule awaiting [where ok = "\<lambda>x. \<forall>f. x = Elsewhere f \<longrightarrow> ok f"])
  fix x assume x: "\<forall>f. x = Elsewhere f \<longrightarrow> ok f"
  show "evolves (keeping I) (act x)" by (cases x) (use assms x others in auto)
qed (auto intro: events keeps_calm next_events_calm)

lemma keeps_breathe: "evolves (keeping I) breathe"
  unfolding breathe_def by (rule at_events) (auto intro: evolves_intro)

lemma after: "evolves (keeping I) m \<Longrightarrow> I w \<Longrightarrow> m w = (r, w') \<Longrightarrow> I w'"
  by (drule (1) evolvesD) (simp add: keeping_def)

end

locale runner_renewing = runner_steps +
  assumes renewal: "evolves (keeping I) renewNow"
begin

lemma keeps_tick: "evolves (keeping I) timer_tick"
  unfolding timer_tick_def by (intro evolves_intro renewal) auto

lemma keeps_pause: "evolves (keeping I) pause"
  unfolding pause_def by (rule at_events) (auto intro: keeps_tick)

lemma keeps_save:
  "evolves (keeping I) (runner_saveSyncRun host inp entry)"
  "evolves (keeping I) (runner_saveAlert host uuid now alert)"
  unfolding runner_saveSyncRun_def runner_saveAlert_def
  by (intro evolves_intro keeps_pause; auto intro: keeps_calm evolves_intro store_free)+

end

interpretation leased: runner_steps "leased k owner l" "defers_to k owner" for k owner l
proof
  show "leased k owner l w'" if "calm_step w w'" "leased k owner l w" for w w'
    using calm_leased [OF that(1)] that(2) by (simp add: keeping_def)
  show "defers_to k owner f" if "leased k owner l w" "Elsewhere f \<in> set (rn_others w n)" for w f n
    using that by (simp add: leased_def orderly_def)
qed (rule elsewhere_keeps)

text \<open>The renewal of a heartbeat with the key, owner and lease of the run.\<close>

lemma triple_at_ease:
  assumes "evolves calm_step m"
  shows "triple (\<lambda>w. leased k owner l w \<and> grantable k owner l x w) m
     (\<lambda>_ w. leased k owner l w \<and> grantable k owner l x w) (leased k owner l)"
proof -
  have both: "leased k owner l t \<and> grantable k owner l x t"
    if "leased k owner l s" "grantable k owner l x s" "calm_step s t" for s t
  proof -
    have "mono (ww_clock (rn_worker s))" using that(1) by (simp add: leased_def orderly_def)
    with that show ?thesis using calm_leased calm_grantable unfolding keeping_def by blast
  qed
  show ?thesis
    by (rule tripleI; drule evolvesD [OF assms]) (use both in blast)+
qed

lemma try_renew_keeps:
  assumes "hb_lockKey h = k" "hb_ownerId h = owner" "hb_leaseMs h = l"
  shows "evolves (keeping (leased k owner l)) (try_renew h attempt)"
proof -
  let ?L = "leased k owner l"
  have renewal: "triple ?L (in_worker (clocked (d1_renew (lock_input k owner l))))
     (\<lambda>q w. ?L w \<and> (lr_ok q \<longrightarrow> (\<exists>x. lr_expiresAt q = Some x \<and> grantable k owner l x w))) ?L"
    by (rule tripleI; drule (1) renew_step) auto
  have set: "triple (\<lambda>w. ?L w \<and> grantable k owner l x w) (set_heartbeat (\<lambda>h. h\<lparr>hb_expiresAt := x\<rparr>)) (\<lambda>_. ?L) ?L" for x
    unfolding set_heartbeat_def
    by (rule tripleI) (auto simp: modify_def leased_def grantable_def orderly_def covered_def next_clock_def)
  have rest: "triple (\<lambda>w. ?L w \<and> grantable k owner l x w)
     (andThen runner_now (\<lambda>now.
      let expiresAt = normalizeLeaseExpiry (jopt_int (Some x)) (now + l) in
      andThen (set_heartbeat (\<lambda>h. h\<lparr>hb_expiresAt := expiresAt\<rparr>)) (\<lambda>_.
      andThen runner_now (\<lambda>checked.
      if expiresAt \<le> checked then fail_heartbeat (renewed_expired h expiresAt) else ret True)))) (\<lambda>_. ?L) ?L" for x
  proof (cases "0 < x")
    case True
    have now: "triple ?L runner_now (\<lambda>_. ?L) ?L" and fail: "\<And>e. triple ?L (fail_heartbeat e) (\<lambda>_. ?L) ?L"
      unfolding keeps_triple [symmetric] by (intro leased.keeps_calm evolves_intro)+
    show ?thesis unfolding normalizeLeaseExpiry_positive [OF True] Let_def
      by (rule triple_andThen [OF triple_at_ease [OF runner_now_calm]], rule triple_andThen [OF set],
          rule triple_andThen [OF now], rule triple_if [OF fail triple_ret])
  qed (simp add: grantable_def triple_def)
  have fail: "\<And>e. triple ?L (fail_heartbeat e) (\<lambda>_. ?L) ?L"
    unfolding keeps_triple [symmetric] by (intro leased.keeps_calm evolves_intro)
  have branch: "triple (\<lambda>w. ?L w \<and> (lr_ok q \<longrightarrow> (\<exists>x. lr_expiresAt q = Some x \<and> grantable k owner l x w)))
     (if \<not> lr_ok q then fail_heartbeat (lock_lost h attempt)
      else andThen runner_now (\<lambda>now.
      let expiresAt = normalizeLeaseExpiry (jopt_int (lr_expiresAt q)) (now + l) in
      andThen (set_heartbeat (\<lambda>h. h\<lparr>hb_expiresAt := expiresAt\<rparr>)) (\<lambda>_.
      andThen runner_now (\<lambda>checked.
      if expiresAt \<le> checked then fail_heartbeat (renewed_expired h expiresAt) else ret True)))) (\<lambda>_. ?L) ?L" for q
  proof (rule triple_if)
    assume "\<not> \<not> lr_ok q"
    then show "triple (\<lambda>w. ?L w \<and> (lr_ok q \<longrightarrow> (\<exists>x. lr_expiresAt q = Some x \<and> grantable k owner l x w)))
       (andThen runner_now (\<lambda>now.
        let expiresAt = normalizeLeaseExpiry (jopt_int (lr_expiresAt q)) (now + l) in
        andThen (set_heartbeat (\<lambda>h. h\<lparr>hb_expiresAt := expiresAt\<rparr>)) (\<lambda>_.
        andThen runner_now (\<lambda>checked.
        if expiresAt \<le> checked then fail_heartbeat (renewed_expired h expiresAt) else ret True)))) (\<lambda>_. ?L) ?L"
      by (cases "lr_expiresAt q") (simp_all add: rest, simp add: triple_def)
  qed (rule triple_weaken [OF fail]; simp)
  show ?thesis
    unfolding keeps_triple try_renew_def assms
    by (rule triple_andThen [OF leased.keeps_breathe [unfolded keeps_triple]], rule triple_andThen [OF renewal], rule branch)
qed

lemma renew_from_keeps:
  assumes "hb_lockKey h = k" "hb_ownerId h = owner" "hb_leaseMs h = l"
  shows "evolves (keeping (leased k owner l)) (renew_from h n attempt e)"
proof (induction n arbitrary: attempt e)
  case 0
  show ?case by (simp, intro leased.keeps_calm evolves_intro)
next
  case (Suc n)
  show ?case unfolding renew_from.simps
    by (intro evolves_intro try_renew_keeps assms Suc.IH leased.keeps_breathe) auto
qed

lemma renewNow_keeps: "evolves (keeping (leased k owner l)) renewNow"
proof (rule evolvesI, unfold keeping_def, rule impI)
  fix w assume l: "leased k owner l w"
  then have "evolves (keeping (leased k owner l)) (renew_from (rn_heartbeat w) n 1 (plain_error []))" for n
    by (intro renew_from_keeps) (simp_all add: leased_def)
  with l show "leased k owner l (snd (renewNow w))"
    by (auto simp: renewNow_def eff_simps evolves_def keeping_def split: option.splits)
qed

interpretation lease: runner_renewing "leased k owner l" "defers_to k owner" for k owner l
  by unfold_locales (rule renewNow_keeps)

lemma assertActive_keeps: "evolves (keeping (leased k owner l)) assertActive"
  by (intro leased.keeps_calm evolves_intro)

text \<open>A check that passes shows that the lease is held.\<close>

lemma assertActive_held:
  assumes "leased k owner l w" "assertActive w = (Inr b, w')"
  shows "leased k owner l w' \<and> holds_lease k owner w'"
proof -
  have run: "b \<and> w' = w\<lparr>rn_worker := (rn_worker w)\<lparr>ww_ticks := Suc (ww_ticks (rn_worker w))\<rparr>\<rparr>
      \<and> next_clock w < hb_expiresAt (rn_heartbeat w)"
    using assms(2)
    by (auto simp: assertActive_def eff_simps runner_now_def in_worker_def read_clock_def next_clock_def
        fail_heartbeat_def setTerminalError_def set_heartbeat_def report_def split: option.splits if_splits)
  have "leased k owner l w'"
    using evolvesD [OF assertActive_keeps assms(2)] assms(1) by (simp add: keeping_def)
  moreover have "holds_lease k owner w'"
    using assms(1) run by (auto simp: leased_def covered_def holds_lease_def live_own_def last_clock_def next_clock_def)
  ultimately show ?thesis ..
qed

subsection \<open>The lock key\<close>

lemma upper_hex_not_space: "d < 16 \<Longrightarrow> \<not> is_space (upper_hex d)"
proof -
  have "\<forall>d \<in> set [0..<16]. \<not> is_space (upper_hex d)" by code_simp
  then show "d < 16 \<Longrightarrow> ?thesis" by simp
qed

lemma space_reserved: "uri_unreserved c \<Longrightarrow> \<not> is_space c"
  by (auto simp: is_space_def uri_unreserved_def is_digit_def is_upper_char_def is_lower_char_def)

lemma marks_not_space [simp]: "\<not> is_space (CHR ''%'')" "\<not> is_space (CHR ''_'')" "\<not> is_space (CHR '':'')"
  by (simp_all add: is_space_def)

lemma escapePart_not_space: "c \<in> set (escapePart s) \<Longrightarrow> \<not> is_space c"
proof -
  have hex: "\<not> is_space (upper_hex (of_char a div 16))" "\<not> is_space (upper_hex (of_char a mod 16))" for a :: char
    by (intro upper_hex_not_space less_mult_imp_div_less; simp)+
  have "\<not> is_space x" if "x \<in> set (encodeURIComponent s)" for x
    using that hex space_reserved by (auto simp: encodeURIComponent_def split: if_splits)
  then show "c \<in> set (escapePart s) \<Longrightarrow> ?thesis" by (auto simp: escapePart_def)
qed

lemma createSyncLockKey_plain:
  assumes "createSyncLockKey i = Inr k"
  shows "plain_text k"
proof -
  obtain a b c d where k: "k = join '':'' (map escapePart [a, b, c, d])"
    using assms by (auto simp only: createSyncLockKey_def bind_res_Inr_iff sum.inject)
  have sp: "\<not> is_space x" if "x \<in> set k" for x
    using that escapePart_not_space by (auto simp: k)
  have "k \<noteq> []" by (simp add: k)
  with sp show ?thesis by (simp add: plain_text_def trim_ends)
qed

subsection \<open>The run\<close>

text \<open>The state before the lease: the clock and the others are orderly and the lock table is keyed.\<close>

definition prepared :: "string \<Rightarrow> string \<Rightarrow> runner_world \<Rightarrow> bool" where
  "prepared k owner w \<longleftrightarrow> orderly k owner w \<and> locks_keyed (rn_db w)"

lemma prepared_elsewhere: "defers_to k owner f \<Longrightarrow> evolves (keeping (prepared k owner)) (elsewhere f)"
  by (auto simp: defers_to_def keeping_def evolves_def prepared_def elsewhere_run orderly_def)

interpretation prepared: runner_steps "prepared k owner" "defers_to k owner" for k owner
proof
  show "prepared k owner w'" if "calm_step w w'" "prepared k owner w" for w w'
    using that calm_orderly [OF that(1)] calm_holder [OF that(1)] by (simp add: prepared_def)
  show "defers_to k owner f" if "prepared k owner w" "Elsewhere f \<in> set (rn_others w n)" for w f n
    using that by (simp add: prepared_def orderly_def)
qed (rule prepared_elsewhere)

lemma acquired:
  assumes p: "prepared k owner w" and v: "op_valid (Renew k owner l 0)"
    and run: "in_worker (clocked (stale_aware_acquire (lock_input k owner l))) w = (Inr q, w')" "lr_ok q"
  shows "prepared k owner w' \<and> (\<exists>x. lr_expiresAt q = Some x \<and> grantable k owner l x w')"
proof -
  let ?t = "next_clock w" and ?s = "rn_db w" and ?x = "Acquire k owner l (next_clock w)"
  have va: "op_valid ?x" and keyed: "locks_keyed ?s" and t: "0 \<le> ?t" and l: "0 < l"
    using p v by (auto simp: prepared_def op_valid_def orderly_def next_clock_def)
  obtain s' where s': "stale_aware_acquire (lock_input k owner l) ?t ?s = (Inr q, s')"
    and w': "w' = w\<lparr>rn_worker := (rn_worker w)\<lparr>ww_ticks := Suc (ww_ticks (rn_worker w)), ww_db := s'\<rparr>\<rparr>"
    using run(1) by (auto simp: in_worker_def clocked_def read_clock_def with_db_def next_clock_def eff_simps split: prod.splits)
  have now: "?t \<le> next_clock w'"
    using p by (simp add: w' next_clock_def prepared_def orderly_def monoD)
  have "d1_holder s' k = Some (owner, ?t + l) \<and> lr_expiresAt q = Some (?t + l)"
    by (rule stale_lock.granted [OF keyed va s' run(2)])
  moreover have "locks_keyed s'"
    using stale_lock.inv_step [OF keyed va] s' by simp
  ultimately show ?thesis using p now t l
    by (auto simp: prepared_def orderly_def w' grantable_def covered_def)
qed

lemma heartbeat_leased:
  assumes p: "prepared k owner w" "grantable k owner l x w" and v: "op_valid (Renew k owner l 0)"
    and run: "createLeaseHeartbeat k owner l interval (jopt_int (Some x)) attempts w = (Inr u, w')"
  shows "leased k owner l w'"
proof -
  have key: "run_requireText (JStr k) f = Inr k" "run_requireText (JStr owner) f = Inr owner" for f
    using v by (simp_all add: op_valid_def run_requireText_def)
  obtain w1 n where w1: "calm_step w w1" and h: "rn_heartbeat w' = \<lparr>hb_lockKey = k, hb_ownerId = owner, hb_leaseMs = l,
      hb_attempts = n, hb_expiresAt = x, hb_stopped = False, hb_terminal = None\<rparr>"
    and same: "rn_worker w' = rn_worker w1" "rn_others w' = rn_others w1"
  proof -
    obtain t w1 where "runner_now w = (Inr t, w1)"
      by (auto simp: runner_now_def in_worker_def read_clock_def)
    moreover from this have "calm_step w w1" using evolvesD [OF runner_now_calm] by blast
    ultimately show thesis using that run p(2)
      by (fastforce simp: createLeaseHeartbeat_def key eff_simps set_heartbeat_def grantable_def split: sum.splits)
  qed
  have mono: "mono (ww_clock (rn_worker w))" using p(1) by (simp add: prepared_def orderly_def)
  have "orderly k owner w1" "locks_keyed (rn_db w1)" "grantable k owner l x w1"
    using p calm_orderly [OF w1] calm_holder [OF w1] calm_grantable [OF w1 mono] by (auto simp: prepared_def)
  then show ?thesis
    using v same by (auto simp: h leased_def orderly_def grantable_def covered_def next_clock_def)
qed

lemma andThen_agree:
  "(\<And>x t. m s = (Inr x, t) \<Longrightarrow> f x t = g x t) \<Longrightarrow> andThen m f s = andThen m g s"
  by (cases "m s") (auto simp: andThen_run split: sum.split)

lemma check_agree: "(\<And>x. r = Inr x \<Longrightarrow> f x s = g x s) \<Longrightarrow> check r f s = check r g s"
  by (cases r) (simp_all add: check_run)

text \<open>No other part of a run looks at the job.\<close>

lemma fields_same:
  "ri_fields (inp\<lparr>ri_execute := job\<rparr>) = ri_fields inp" "ri_uuids (inp\<lparr>ri_execute := job\<rparr>) = ri_uuids inp"
  "ri_outbox (inp\<lparr>ri_execute := job\<rparr>) = ri_outbox inp"
  by simp_all

lemmas run_part_defs = run_identity_def runner_saveSyncRun_def completion_entry_def failure_entry_def
  failure_alert_def release_alert_def warning_not_delivered_def deliver_result_warnings_def
  record_failure_def release_lease_def record_busy_def

lemma parts_same [simp]:
  "run_identity (inp\<lparr>ri_execute := job\<rparr>) = run_identity inp"
  "runner_saveSyncRun host (inp\<lparr>ri_execute := job\<rparr>) = runner_saveSyncRun host inp"
  "completion_entry (inp\<lparr>ri_execute := job\<rparr>) = completion_entry inp"
  "deliver_result_warnings host (inp\<lparr>ri_execute := job\<rparr>) = deliver_result_warnings host inp"
  "record_failure host (inp\<lparr>ri_execute := job\<rparr>) = record_failure host inp"
  "release_lease host (inp\<lparr>ri_execute := job\<rparr>) = release_lease host inp"
  "record_busy host (inp\<lparr>ri_execute := job\<rparr>) = record_busy host inp"
  by (intro ext; unfold run_part_defs fields_same; rule refl)+

text \<open>Two jobs that agree wherever the lease is held give the same run.\<close>

lemma under_lease_agree:
  assumes l: "leased k owner l w" and job: "\<And>c v. holds_lease k owner v \<Longrightarrow> job c v = ri_execute inp c v"
  shows "run_under_lease host (inp\<lparr>ri_execute := job\<rparr>) i key ms interval start w
    = run_under_lease host inp i key ms interval start w"
proof -
  have step: "andThen (runner_saveSyncRun host inp entry) (\<lambda>_. andThen assertActive (\<lambda>_. andThen (job c) g)) w
     = andThen (runner_saveSyncRun host inp entry) (\<lambda>_. andThen assertActive (\<lambda>_. andThen (ri_execute inp c) g)) w"
    for entry c and g :: "jsval \<Rightarrow> (runner_world, jsval) eff"
  proof (rule andThen_agree, rule andThen_agree)
    fix u t b t' assume "runner_saveSyncRun host inp entry w = (Inr u, t)" "assertActive t = (Inr b, t')"
    then have "holds_lease k owner t'"
      using leased.after [OF lease.keeps_save(1) l] assertActive_held by blast
    then show "andThen (job c) g t' = andThen (ri_execute inp c) g t'" by (simp add: andThen_run job)
  qed
  show ?thesis unfolding run_under_lease_def parts_same fields_same by (simp add: step)
qed

lemma run_op_valid:
  assumes "createSyncLockKey i = Inr k" "plain_text owner" "run_positiveInteger v f = Inr l"
  shows "op_valid (Renew k owner l t)"
  using assms createSyncLockKey_plain safe_number_InrD unfolding op_valid_def run_positiveInteger_def by fastforce

text \<open>A run that got the lease and its heartbeat works under the lease.\<close>

lemma run_reaches_lease:
  assumes p: "prepared k owner w" and v: "op_valid (Renew k owner l 0)"
    and st: "runner_now w = (Inr start, w1)" "breathe w1 = (Inr u, w2)"
      "in_worker (clocked (stale_aware_acquire (lock_input k owner l))) w2 = (Inr q, w3)" "lr_ok q"
      "createLeaseHeartbeat k owner l interval (jopt_int (lr_expiresAt q)) attempts w3 = (Inr u', w4)"
  shows "leased k owner l w4"
proof -
  have "prepared k owner w2"
    using prepared.after [OF prepared.keeps_breathe] st(1,2)
      prepared.after [OF prepared.keeps_calm [OF runner_now_calm] p] by blast
  then obtain x where "prepared k owner w3" "lr_expiresAt q = Some x" "grantable k owner l x w3"
    using acquired [OF _ v st(3,4)] by blast
  with st(5) v show ?thesis using heartbeat_leased by metis
qed

lemma job_agrees:
  assumes p: "prepared k owner w" and key: "createSyncLockKey (ri_fields inp) = Inr k" and owner: "plain_text owner"
    "run_normalizeId (ri_uuids inp 0) (jget (ri_fields inp) ''syncRunId'') = Inr owner"
    and job: "\<And>c v. holds_lease k owner v \<Longrightarrow> job c v = ri_execute inp c v"
  shows "runReliableSync host (inp\<lparr>ri_execute := job\<rparr>) w = runReliableSync host inp w"
proof -
  have agree: "try_catch_finally (run_under_lease host (inp\<lparr>ri_execute := job\<rparr>) owner k l interval start) H F v
      = try_catch_finally (run_under_lease host inp owner k l interval start) H F v"
    if "leased k owner l v" for l interval start H F v
    using under_lease_agree [OF that job] by (simp add: try_catch_finally_def)
  show ?thesis
    unfolding runReliableSync_def Let_def fields_same parts_same key owner(2) check_Inr
  proof (intro check_agree andThen_agree, goal_cases)
    case (1 l interval start w1 u w2 q w3)
    have v: "op_valid (Renew k owner l 0)" using run_op_valid [OF key owner(1) 1(1)] .
    show ?case
    proof (cases "lr_ok q")
      case True
      then show ?thesis
        by (simp only: not_True_eq_False if_False)
          (rule andThen_agree, rule agree, rule run_reaches_lease [OF p v 1(3,4,5)])
    qed simp
  qed
qed

text \<open>A run that returns: the job ran under the lease, and the lease still stood when the job was done.\<close>

lemma andThen_InrE:
  assumes "andThen m f s = (Inr y, u)"
  obtains x t where "m s = (Inr x, t)" "f x t = (Inr y, u)"
  using assms by (auto simp: andThen_run split: prod.splits sum.splits)

lemma check_InrE:
  assumes "check r f s = (Inr y, u)"
  obtains x where "r = Inr x" "f x s = (Inr y, u)"
  using assms by (cases r) (auto simp: check_run throw_run)

lemma triple_any: "triple P m (\<lambda>_ _. True) (\<lambda>_. True)"
  by (simp add: triple_def split: sum.split)

lemma record_failure_throws: "record_failure host inp i start e w \<noteq> (Inr x, w')"
proof -
  have "triple (\<lambda>_. True) (record_failure host inp i start e) (\<lambda>_ _. False) (\<lambda>_. True)"
    unfolding record_failure_def by (intro triple_andThen [OF triple_any] triple_throw) simp
  then show ?thesis using triple_InrD by fastforce
qed

lemma record_busy_throws: "record_busy host inp i k start x w \<noteq> (Inr r, w')"
proof -
  have "triple (\<lambda>_. True) (record_busy host inp i k start x) (\<lambda>_ _. False) (\<lambda>_. True)"
    unfolding record_busy_def Let_def by (intro triple_andThen [OF triple_any] triple_check triple_throw; simp)
  then show ?thesis using triple_InrD by fastforce
qed

lemma try_InrE:
  assumes "try_catch_finally m (record_failure host inp i start) f s = (Inr x, u)"
  obtains t where "m s = (Inr x, t)" "f None t = (Inr (), u)"
  using assms record_failure_throws
  by (fastforce simp: try_catch_finally_def Let_def split: prod.splits sum.splits)

lemma completed_under_lease:
  assumes l: "leased k owner l w" and job: "\<And>c. evolves (keeping (leased k owner l)) (ri_execute inp c)"
    and run: "run_under_lease host inp owner k ms interval start w = (Inr v, w')"
  shows "\<exists>w1 r w2 w3. holds_lease k owner w1
    \<and> ri_execute inp \<lparr>sc_syncRunId = owner, sc_lockKey = k\<rparr> w1 = (Inr r, w2)
    \<and> assertActive w2 = (Inr True, w3) \<and> holds_lease k owner w3 \<and> v = jput ''syncRunId'' (JStr owner) (JObj (spread r))"
proof -
  obtain entry u w0 b w1 r w2 c w3 where st: "runner_saveSyncRun host inp entry w = (Inr u, w0)"
      "assertActive w0 = (Inr b, w1)" "ri_execute inp \<lparr>sc_syncRunId = owner, sc_lockKey = k\<rparr> w1 = (Inr r, w2)"
      "assertActive w2 = (Inr c, w3)" and v: "v = jput ''syncRunId'' (JStr owner) (JObj (spread r))"
    using run unfolding run_under_lease_def by (elim andThen_InrE) (auto simp: ret_run)
  have w1: "leased k owner l w1 \<and> holds_lease k owner w1"
    using leased.after [OF lease.keeps_save(1) l st(1)] st(2) assertActive_held by blast
  then have "leased k owner l w2" using leased.after [OF job] st(3) by blast
  then have "holds_lease k owner w3" using st(4) assertActive_held by blast
  moreover have "c = True"
    using st(4) by (auto simp: assertActive_def eff_simps fail_heartbeat_def setTerminalError_def set_heartbeat_def
        report_def split: option.splits if_splits prod.splits sum.splits)
  ultimately show ?thesis using w1 st(3,4) v by metis
qed

lemma success_under_lease:
  assumes p: "prepared k owner w" and key: "createSyncLockKey (ri_fields inp) = Inr k" and owner: "plain_text owner"
    "run_normalizeId (ri_uuids inp 0) (jget (ri_fields inp) ''syncRunId'') = Inr owner"
    and job: "\<And>c l. evolves (keeping (leased k owner l)) (ri_execute inp c)"
    and run: "runReliableSync host inp w = (Inr v, w')"
  shows "\<exists>w1 r w2 w3. holds_lease k owner w1
    \<and> ri_execute inp \<lparr>sc_syncRunId = owner, sc_lockKey = k\<rparr> w1 = (Inr r, w2)
    \<and> assertActive w2 = (Inr True, w3) \<and> holds_lease k owner w3 \<and> v = jput ''syncRunId'' (JStr owner) (JObj (spread r))"
proof -
  obtain l interval start w1 u w2 q w3 where l: "run_positiveInteger (nullish (jget (ri_fields inp) ''leaseMs'') (jint 600000)) ''leaseMs'' = Inr l"
    and st: "runner_now w = (Inr start, w1)" "breathe w1 = (Inr u, w2)"
      "in_worker (clocked (stale_aware_acquire (lock_input k owner l))) w2 = (Inr q, w3)"
    and fin: "(if \<not> lr_ok q then record_busy host inp owner k start (lr_expiresAt q)
      else andThen (createLeaseHeartbeat k owner l (jint interval) (jopt_int (lr_expiresAt q)) (jget (ri_fields inp) ''renewAttempts''))
        (\<lambda>_. try_catch_finally (run_under_lease host inp owner k l interval start)
          (record_failure host inp owner start) (release_lease host inp owner k))) w3 = (Inr v, w')"
    using run unfolding runReliableSync_def Let_def key owner(2) check_Inr
    by (elim check_InrE andThen_InrE) blast
  have ok: "lr_ok q" using fin record_busy_throws by (auto split: if_splits)
  with fin obtain u' w4 t where "createLeaseHeartbeat k owner l (jint interval) (jopt_int (lr_expiresAt q))
      (jget (ri_fields inp) ''renewAttempts'') w3 = (Inr u', w4)"
    and body: "run_under_lease host inp owner k l interval start w4 = (Inr v, t)"
    by (auto elim!: andThen_InrE try_InrE)
  then have "leased k owner l w4"
    using run_reaches_lease [OF p run_op_valid [OF key owner(1) l] st ok] by blast
  then show ?thesis using completed_under_lease [OF _ job body] by blast
qed

subsection \<open>The lease is given back\<close>

text \<open>The others keep the lock table keyed and the database without faults, and do not lock under this run's name.\<close>

definition tame :: "string \<Rightarrow> string \<Rightarrow> (int \<Rightarrow> d1 \<Rightarrow> d1) \<Rightarrow> bool" where
  "tame k owner f \<longleftrightarrow> (\<forall>t s. quiet s \<and> locks_keyed s \<longrightarrow> quiet (f t s) \<and> locks_keyed (f t s) \<and>
     (\<not> owned owner (d1_holder s k) \<longrightarrow> \<not> owned owner (d1_holder (f t s) k)))"

definition sound :: "string \<Rightarrow> string \<Rightarrow> runner_world \<Rightarrow> bool" where
  "sound k owner w \<longleftrightarrow> quiet (rn_db w) \<and> locks_keyed (rn_db w) \<and> (\<forall>n f. Elsewhere f \<in> set (rn_others w n) \<longrightarrow> tame k owner f)"

definition given_back :: "string \<Rightarrow> string \<Rightarrow> runner_world \<Rightarrow> bool" where
  "given_back k owner w \<longleftrightarrow> sound k owner w \<and> \<not> owned owner (d1_holder (rn_db w) k)"

lemma calm_sound: "calm_step w w' \<Longrightarrow> sound k owner w \<Longrightarrow> sound k owner w'"
  using calm_holder [of w w'] by (auto simp: sound_def calm_step_def lock_free_def keeping_def)

lemma calm_given_back: "calm_step w w' \<Longrightarrow> given_back k owner w \<Longrightarrow> given_back k owner w'"
  using calm_holder [of w w'] calm_sound by (simp add: given_back_def)

lemma sound_elsewhere: "tame k owner f \<Longrightarrow> evolves (keeping (sound k owner)) (elsewhere f)"
  by (auto simp: tame_def keeping_def evolves_def sound_def elsewhere_run)

interpretation given_back: runner_steps "given_back k owner" "tame k owner" for k owner
proof
  show "given_back k owner w'" if "calm_step w w'" "given_back k owner w" for w w'
    using that by (rule calm_given_back)
  show "tame k owner f" if "given_back k owner w" "Elsewhere f \<in> set (rn_others w n)" for w f n
    using that by (simp add: given_back_def sound_def)
  show "evolves (keeping (given_back k owner)) (elsewhere f)" if "tame k owner f" for f
    using that by (auto simp: tame_def keeping_def evolves_def given_back_def sound_def elsewhere_run)
qed

interpretation sound: runner_steps "sound k owner" "tame k owner" for k owner
proof
  show "sound k owner w'" if "calm_step w w'" "sound k owner w" for w w' using that by (rule calm_sound)
  show "tame k owner f" if "sound k owner w" "Elsewhere f \<in> set (rn_others w n)" for w f n
    using that by (simp add: sound_def)
qed (rule sound_elsewhere)

lemma fault_blind_locks [simp]: "fault_blind (keeping locks_keyed)"
  by (simp add: fault_blind_def keeping_def locks_keyed_def)

lemma renew_keyed: "evolves (keeping locks_keyed) (d1_renew i t)"
  unfolding d1_renew_def by (intro evolves_intro) (auto simp: keeping_def keyed_sql_renew)

lemma in_worker_sound:
  assumes "\<And>t. evolves (keeping locks_keyed) (f t)" "\<And>t. evolves quiet_kept (f t)"
  shows "evolves (keeping (sound k owner)) (in_worker (clocked f))"
  using assms by (auto simp: evolves_def keeping_def sound_def in_worker_def clocked_def read_clock_def with_db_def
      eff_simps split: prod.splits; metis snd_conv)

lemma try_renew_sound: "evolves (keeping (sound k owner)) (try_renew h attempt)"
proof -
  have set: "evolves (keeping (sound k owner)) (set_heartbeat f)" for f
    unfolding set_heartbeat_def by (intro evolves_intro) (simp add: keeping_def sound_def)
  show ?thesis unfolding try_renew_def
    by (intro evolves_intro sound.keeps_breathe in_worker_sound renew_keyed lock_quiet set
        sound.keeps_calm [OF runner_now_calm] sound.keeps_calm [OF fail_heartbeat_calm]; simp)
qed

lemma renew_from_sound: "evolves (keeping (sound k owner)) (renew_from h n attempt e)"
proof (induction n arbitrary: attempt e)
  case 0
  show ?case by (simp, intro sound.keeps_calm evolves_intro)
next
  case (Suc n)
  show ?case unfolding renew_from.simps
    by (intro evolves_intro try_renew_sound Suc.IH sound.keeps_breathe) auto
qed

lemma renewNow_sound: "evolves (keeping (sound k owner)) renewNow"
  unfolding renewNow_def by (intro evolves_intro renew_from_sound) auto

interpretation soundness: runner_renewing "sound k owner" "tame k owner" for k owner
  by unfold_locales (rule renewNow_sound)

lemma deliver_sound: "evolves (keeping (sound k owner)) (deliver_result_warnings host inp i t r)"
  unfolding deliver_result_warnings_def warning_not_delivered_def Let_def
  by (intro evolves_intro soundness.keeps_save soundness.keeps_pause; auto intro!: sound.keeps_calm evolves_intro warning_locks warning_quiet)

lemma record_failure_sound: "evolves (keeping (sound k owner)) (record_failure host inp i start e)"
  unfolding record_failure_def
  by (intro evolves_intro soundness.keeps_save; auto intro: sound.keeps_calm evolves_intro)

lemma run_under_lease_sound:
  assumes "\<And>c. evolves (keeping (sound k owner)) (ri_execute inp c)"
  shows "evolves (keeping (sound k owner)) (run_under_lease host inp i key ms interval start)"
  unfolding run_under_lease_def
  by (intro evolves_intro soundness.keeps_save assms deliver_sound sound.keeps_calm [OF assertActive_calm]
      sound.keeps_calm [OF runner_now_calm]; simp)

lemma release_gives_back:
  assumes "plain_text k" "plain_text owner"
  shows "triple (sound k owner) (in_worker (with_db (d1_release (release_input k owner))))
    (\<lambda>_. given_back k owner) (given_back k owner)"
proof -
  have after: "given_back k owner w'"
    if w: "sound k owner w" and run: "in_worker (with_db (d1_release (release_input k owner))) w = (r, w')" for w r w'
  proof -
    have v: "op_valid (Release k owner)" using assms by (simp add: op_valid_def)
    have q: "quiet (rn_db w)" "locks_keyed (rn_db w)" using w by (simp_all add: sound_def)
    then have w': "rn_db w' = snd (sql_release k owner (rn_db w))" "rn_others w' = rn_others w"
      using run by (auto simp: in_worker_def with_db_def d1_release_run [OF v] run_sql_quiet)
    moreover have "\<not> owned owner (d1_holder (snd (sql_release k owner (rn_db w))) k)"
      by (simp add: holder_sql_release [OF q(2)] owned_def)
    ultimately show ?thesis using w q keyed_sql_release [OF q(2)]
      by (simp add: given_back_def sound_def quiet_def)
  qed
  show ?thesis by (rule tripleI) (rule after; assumption)+
qed

lemma for_each_returns: "(\<And>x w. \<exists>t. f x w = (Inr (), t)) \<Longrightarrow> \<exists>t. for_each f xs w = (Inr (), t)"
proof (induction xs arbitrary: w)
  case (Cons x xs)
  obtain t where "f x w = (Inr (), t)" using Cons.prems by blast
  then show ?case using Cons by (simp add: andThen_run)
qed (simp add: ret_run)

lemma breathe_returns: "\<exists>t. breathe w = (Inr (), t)"
proof -
  have "\<exists>t. while_renewing x v = (Inr (), t)" for x v
    by (cases x) (simp_all add: ret_run elsewhere_run)
  then have "\<exists>t. for_each while_renewing xs v = (Inr (), t)" for xs v by (rule for_each_returns)
  then show ?thesis by (simp add: breathe_def andThen_run next_events_def)
qed

lemma release_lease_gives_back:
  assumes "plain_text k" "plain_text owner"
  shows "triple (sound k owner) (release_lease host inp owner k e) (\<lambda>_. given_back k owner) (given_back k owner)"
proof -
  let ?S = "sound k owner" and ?G = "given_back k owner"
  have calm: "triple ?G m (\<lambda>_. ?G) ?G" if "evolves calm_step m" for m :: "(runner_world, 'a) eff"
    using given_back.keeps_calm [OF that] by (simp add: keeps_triple)
  have stop: "triple ?S stop_heartbeat (\<lambda>_. ?S) ?G"
    by (rule tripleI) (auto simp: stop_heartbeat_def set_heartbeat_def modify_def sound_def)
  have breathes: "triple ?G breathe (\<lambda>_. ?G) ?G"
    using given_back.keeps_breathe by (simp add: keeps_triple)
  have free: "triple ?G (in_worker (store_saveSystemAlert a)) (\<lambda>_. ?G) ?G" "triple ?G runner_now (\<lambda>_. ?G) ?G"
    "triple ?G (report stage x) (\<lambda>_. ?G) ?G" for a stage x
    by (intro calm evolves_intro store_free)+
  have start: "triple ?S breathe (\<lambda>_. ?S) ?G"
  proof (rule tripleI)
    fix w x w' assume "?S w" "breathe w = (Inr x, w')"
    then show "?S w'" using sound.after [OF sound.keeps_breathe] by blast
  next
    fix w e w' assume "breathe w = (Inl e, w')"
    then show "?G w'" using breathe_returns [of w] by auto
  qed
  show ?thesis unfolding release_lease_def
    by (intro triple_andThen [OF stop] triple_catching [where R = ?G] triple_andThen [OF start]
        triple_andThen [OF release_gives_back [OF assms]] triple_if triple_ret triple_throw
        triple_andThen [OF free(2)] triple_check triple_andThen [where R = "\<lambda>_. ?G"] breathes free)
qed

lemma resolved_interval:
  assumes "resolveRenewInterval v l = Inr n" "is_safe l"
  shows "resolveRenewInterval (jint n) l = Inr n"
proof -
  have "0 < n \<and> n < l"
    using assms(1) safe_number_InrD
    by (auto simp: resolveRenewInterval_def bind_res_Inr_iff run_positiveInteger_def split: if_splits; fastforce)
  moreover from this have "is_safe n" using assms(2) by (simp add: is_safe_def)
  ultimately show ?thesis by (simp add: resolveRenewInterval_def is_absent_def run_positiveInteger_def)
qed

text \<open>A refused or failed acquisition leaves nothing behind; a granted one is followed by the heartbeat and the run.\<close>

lemma busy_gives_back:
  assumes s: "given_back k owner w" and v: "op_valid (Renew k owner l 0)"
    and run: "in_worker (clocked (stale_aware_acquire (lock_input k owner l))) w = (r, w')"
    and no: "\<And>q. r = Inr q \<Longrightarrow> \<not> lr_ok q"
  shows "given_back k owner w'"
proof -
  let ?t = "next_clock w" and ?s = "rn_db w" and ?x = "Acquire k owner l (next_clock w)"
  have va: "op_valid ?x" and q: "quiet ?s" "locks_keyed ?s" and o: "\<not> owned owner (d1_holder ?s k)"
    using s v by (auto simp: given_back_def sound_def op_valid_def)
  obtain s' where s': "stale_aware_acquire (lock_input k owner l) ?t ?s = (r, s')"
    and w': "w' = w\<lparr>rn_worker := (rn_worker w)\<lparr>ww_ticks := Suc (ww_ticks (rn_worker w)), ww_db := s'\<rparr>\<rparr>"
    using run by (auto simp: in_worker_def clocked_def read_clock_def with_db_def next_clock_def eff_simps split: prod.splits)
  have "quiet s'" using evolvesD [OF lock_quiet(1) s'] q by (simp add: keeping_def)
  moreover have "locks_keyed s'" using stale_lock.inv_step [OF q(2) va] s' by (auto split: sum.splits)
  moreover have "\<not> owned owner (d1_holder s' k)"
  proof -
    obtain r0 s0 where r0: "d1_acquire (lock_input k owner l) ?t ?s = (Inr r0, s0)"
        "s0 = snd (sql_acquire k owner ?t (?t + l) ?s)" "lr_ok r0 = (0 < fst (sql_acquire k owner ?t (?t + l) ?s))"
      by (simp add: d1_acquire_run [OF va] run_sql_quiet [OF q(1)])
    have "\<not> lr_ok r0" using stale_acquire_same [OF r0(1)] no s' by auto
    then have "d1_holder s0 k = d1_holder ?s k"
      using r0(2,3) changes_sql_acquire [OF q(2)] by (simp add: holder_sql_acquire)
    moreover have "s' = s0 \<or> s' = spend_fault s0"
      using r0(1) s' by (cases rule: stale_aware_cases [of "lock_input k owner l" ?t ?s]) auto
    ultimately show ?thesis using o by auto
  qed
  ultimately show ?thesis using s by (simp add: given_back_def sound_def w')
qed

lemma acquired_sound:
  assumes s: "given_back k owner w" and v: "op_valid (Renew k owner l 0)"
    and run: "in_worker (clocked (stale_aware_acquire (lock_input k owner l))) w = (r, w')"
  shows "sound k owner w'"
proof -
  have va: "op_valid (Acquire k owner l (next_clock w))" and q: "quiet (rn_db w)" "locks_keyed (rn_db w)"
    using s v by (auto simp: given_back_def sound_def op_valid_def)
  obtain s' where s': "stale_aware_acquire (lock_input k owner l) (next_clock w) (rn_db w) = (r, s')"
    and w': "w' = w\<lparr>rn_worker := (rn_worker w)\<lparr>ww_ticks := Suc (ww_ticks (rn_worker w)), ww_db := s'\<rparr>\<rparr>"
    using run by (auto simp: in_worker_def clocked_def read_clock_def with_db_def next_clock_def eff_simps split: prod.splits)
  have "quiet s'" using evolvesD [OF lock_quiet(1) s'] q by (simp add: keeping_def)
  moreover have "locks_keyed s'" using stale_lock.inv_step [OF q(2) va] s' by (auto split: sum.splits)
  ultimately show ?thesis using s by (simp add: given_back_def sound_def w')
qed

lemma record_busy_given_back:
  "triple (given_back k owner) (record_busy host inp i key start x) (\<lambda>_. given_back k owner) (given_back k owner)"
  unfolding keeps_triple [symmetric] record_busy_def Let_def
  by (intro evolves_intro given_back.keeps_breathe; auto intro: given_back.keeps_calm evolves_intro store_free)

lemma heartbeat_starts:
  assumes "plain_text k" "plain_text owner" "resolveRenewInterval (jint n) l = Inr n"
    and "run_positiveInteger (nullish attempts (jint 3)) ''renewAttempts'' = Inr a"
  shows "triple (sound k owner) (createLeaseHeartbeat k owner l (jint n) x attempts) (\<lambda>_. sound k owner) (\<lambda>_. False)"
  using assms
  by (intro tripleI) (auto simp: createLeaseHeartbeat_def run_requireText_def eff_simps runner_now_def in_worker_def
    read_clock_def set_heartbeat_def sound_def split: sum.splits)

lemma try_gives_back:
  assumes job: "\<And>c. evolves (keeping (sound k owner)) (ri_execute inp c)" and plain: "plain_text k" "plain_text owner"
  shows "triple (sound k owner) (try_catch_finally (run_under_lease host inp owner k l n start)
    (record_failure host inp owner start) (release_lease host inp owner k)) (\<lambda>_. given_back k owner) (given_back k owner)"
proof -
  have "given_back k owner u"
    if w: "sound k owner w" and run: "try_catch_finally (run_under_lease host inp owner k l n start)
      (record_failure host inp owner start) (release_lease host inp owner k) w = (r, u)" for w r u
  proof -
    obtain r1 t1 where m: "run_under_lease host inp owner k l n start w = (r1, t1)" by force
    have t1: "sound k owner t1" using sound.after [OF run_under_lease_sound w m] job by blast
    obtain pr r2 t2 where f: "release_lease host inp owner k pr t2 = (r2, u)" and t2: "sound k owner t2"
    proof (cases r1)
      case (Inl e)
      obtain x t2 where h: "record_failure host inp owner start e t1 = (x, t2)" by force
      have "sound k owner t2" by (rule sound.after [OF record_failure_sound t1 h])
      with that run m Inl h show thesis
        by (auto simp: try_catch_finally_def split: prod.splits sum.splits)
    next
      case (Inr x)
      with that run m t1 show thesis
        by (auto simp: try_catch_finally_def split: prod.splits sum.splits)
    qed
    then show ?thesis using release_lease_gives_back [OF plain]
      by (cases r2) (auto dest: triple_InrD triple_InlD)
  qed
  then show ?thesis by (intro tripleI)
qed

lemma run_gives_back:
  assumes start: "given_back k owner w" and key: "createSyncLockKey (ri_fields inp) = Inr k" and owner: "plain_text owner"
    "run_normalizeId (ri_uuids inp 0) (jget (ri_fields inp) ''syncRunId'') = Inr owner"
    and attempts: "run_positiveInteger (nullish (jget (ri_fields inp) ''renewAttempts'') (jint 3)) ''renewAttempts'' = Inr a"
    and job: "\<And>c. evolves (keeping (sound k owner)) (ri_execute inp c)"
  shows "given_back k owner (snd (runReliableSync host inp w))"
proof -
  let ?G = "given_back k owner" and ?S = "sound k owner"
  have k: "plain_text k" using createSyncLockKey_plain [OF key] .
  have keeps: "triple ?G runner_now (\<lambda>_. ?G) ?G" "triple ?G breathe (\<lambda>_. ?G) ?G"
    unfolding keeps_triple [symmetric] by (intro given_back.keeps_calm given_back.keeps_breathe runner_now_calm)+
  have acquire: "triple ?G (in_worker (clocked (stale_aware_acquire (lock_input k owner l))))
     (\<lambda>q w. if lr_ok q then ?S w else ?G w) ?G" if "op_valid (Renew k owner l 0)" for l
    by (rule tripleI) (auto intro: acquired_sound [OF _ that] busy_gives_back [OF _ that])
  have "triple ?G (runReliableSync host inp) (\<lambda>_. ?G) ?G"
    unfolding runReliableSync_def Let_def key owner(2) check_Inr
  proof (intro triple_check triple_andThen [OF keeps(1)] triple_andThen [OF keeps(2)], goal_cases)
    case (3 l n t u)
    have v: "op_valid (Renew k owner l 0)" by (rule run_op_valid [OF key owner(1) 3(1)])
    have n: "resolveRenewInterval (jint n) l = Inr n"
      using resolved_interval [OF 3(2)] v by (simp add: op_valid_def)
    have beat: "triple ?S (createLeaseHeartbeat k owner l (jint n) x (jget (ri_fields inp) ''renewAttempts'')) (\<lambda>_. ?S) ?G" for x
      by (rule triple_weaken [OF heartbeat_starts [OF k owner(1) n attempts]]) auto
    show ?case
    proof (rule triple_andThen [OF acquire [OF v]])
      fix q
      show "triple (\<lambda>w. if lr_ok q then ?S w else ?G w)
        (if \<not> lr_ok q then record_busy host inp owner k t (lr_expiresAt q)
         else andThen (createLeaseHeartbeat k owner l (jint n) (jopt_int (lr_expiresAt q)) (jget (ri_fields inp) ''renewAttempts''))
           (\<lambda>_. try_catch_finally (run_under_lease host inp owner k l n t) (record_failure host inp owner t)
             (release_lease host inp owner k))) (\<lambda>_. ?G) ?G"
        using record_busy_given_back triple_andThen [OF beat try_gives_back [OF job k owner(1)]]
        by (cases "lr_ok q") auto
    qed
  qed auto
  then show ?thesis using start by (cases "runReliableSync host inp w"; cases "fst (runReliableSync host inp w)")
      (auto dest: triple_InrD triple_InlD)
qed

subsection \<open>A busy scope\<close>

lemma quiet_moment:
  assumes "rn_others w (rn_awaits w) = []"
  shows "runner_now w = (Inr (next_clock w), w\<lparr>rn_worker := (rn_worker w)\<lparr>ww_ticks := Suc (ww_ticks (rn_worker w))\<rparr>\<rparr>)"
    and "breathe w = (Inr (), w\<lparr>rn_awaits := Suc (rn_awaits w)\<rparr>)"
  using assms by (simp_all add: runner_now_def in_worker_def read_clock_def next_clock_def breathe_def next_events_def eff_simps)

definition acquire_world :: "runner_world \<Rightarrow> d1 \<Rightarrow> runner_world" where
  "acquire_world w s = w\<lparr>rn_awaits := Suc (rn_awaits w),
     rn_worker := (rn_worker w)\<lparr>ww_ticks := ww_ticks (rn_worker w) + 2, ww_db := s\<rparr>\<rparr>"

definition acquire_time :: "runner_world \<Rightarrow> int" where
  "acquire_time w = ww_clock (rn_worker w) (Suc (ww_ticks (rn_worker w)))"

lemma run_after_acquire:
  assumes "createSyncLockKey (ri_fields inp) = Inr k"
    and "run_normalizeId (ri_uuids inp 0) (jget (ri_fields inp) ''syncRunId'') = Inr owner"
    and "run_positiveInteger (nullish (jget (ri_fields inp) ''leaseMs'') (jint 600000)) ''leaseMs'' = Inr l"
    and "resolveRenewInterval (jget (ri_fields inp) ''renewIntervalMs'') l = Inr n"
    and "rn_others w (rn_awaits w) = []"
    and "stale_aware_acquire (lock_input k owner l) (acquire_time w) (rn_db w) = (Inr q, s)"
  shows "runReliableSync host inp w = (if \<not> lr_ok q then record_busy host inp owner k (next_clock w) (lr_expiresAt q)
      else andThen (createLeaseHeartbeat k owner l (jint n) (jopt_int (lr_expiresAt q)) (jget (ri_fields inp) ''renewAttempts''))
        (\<lambda>_. try_catch_finally (run_under_lease host inp owner k l n (next_clock w))
          (record_failure host inp owner (next_clock w)) (release_lease host inp owner k))) (acquire_world w s)"
proof -
  let ?w1 = "w\<lparr>rn_worker := (rn_worker w)\<lparr>ww_ticks := Suc (ww_ticks (rn_worker w))\<rparr>\<rparr>"
  have "breathe ?w1 = (Inr (), ?w1\<lparr>rn_awaits := Suc (rn_awaits w)\<rparr>)"
    using quiet_moment(2) [of ?w1] assms(5) by simp
  then show ?thesis using assms quiet_moment(1) [OF assms(5)]
    by (simp add: runReliableSync_def Let_def andThen_run in_worker_def clocked_def read_clock_def with_db_def
        acquire_world_def acquire_time_def)
qed

lemma busy_run:
  assumes "createSyncLockKey (ri_fields inp) = Inr k" and owner: "plain_text owner"
    "run_normalizeId (ri_uuids inp 0) (jget (ri_fields inp) ''syncRunId'') = Inr owner"
    and "run_positiveInteger (nullish (jget (ri_fields inp) ''leaseMs'') (jint 600000)) ''leaseMs'' = Inr l"
    and "resolveRenewInterval (jget (ri_fields inp) ''renewIntervalMs'') l = Inr n"
    and "rn_others w (rn_awaits w) = []" "quiet (rn_db w)" "locks_keyed (rn_db w)"
    and "d1_holder (rn_db w) k = Some (v, e)" "v \<noteq> owner" "acquire_time w < e" "is_safe e" "0 \<le> e"
  shows "runReliableSync host inp w = record_busy host inp owner k (next_clock w) (Some e) (acquire_world w (rn_db w))"
proof -
  have "op_valid (Acquire k owner l (acquire_time w))"
    using run_op_valid [OF assms(1) owner(1) assms(4)] by (simp add: op_valid_def)
  then have "stale_aware_acquire (lock_input k owner l) (acquire_time w) (rn_db w)
      = (Inr \<lparr>lr_ok = False, lr_lockKey = k, lr_ownerId = owner, lr_expiresAt = Some e\<rparr>, rn_db w)"
    using assms by (intro stale_acquire_busy)
  from run_after_acquire [OF assms(1,3,4,5,6) this] show ?thesis by simp
qed

text \<open>What the record of a skipped run can fail with.\<close>

definition record_fails_with :: "js_host \<Rightarrow> run_input \<Rightarrow> jserror \<Rightarrow> bool" where
  "record_fails_with host inp x \<longleftrightarrow> (\<exists>entry. createSyncLogEntry host (ri_uuids inp 0) entry = Inl x)
     \<or> (\<exists>entry w. fst (store_saveSyncRun entry w) = Inl x)"

lemma record_busy_error:
  "\<exists>x w'. record_busy host inp i k start e w = (Inl x, w') \<and>
     (x = markReliabilityHandled (busy_error k e) (Some i) \<or> record_fails_with host inp x)"
proof -
  obtain r w' where run: "record_busy host inp i k start e w = (r, w')" by force
  then obtain x where x: "r = Inl x" using record_busy_throws by (cases r) blast+
  have "record_fails_with host inp x" if "x \<noteq> markReliabilityHandled (busy_error k e) (Some i)"
    using run that breathe_returns unfolding x record_busy_def Let_def record_fails_with_def
    by (auto simp: andThen_run check_run throw_run runner_now_def in_worker_def read_clock_def
        split: prod.splits sum.splits; metis fst_conv old.prod.inject sum.distinct(1))
  with run x show ?thesis by blast
qed

lemma busy_error_known:
  "err_code (markReliabilityHandled (busy_error k x) i) = Some ''SYNC_LOCK_BUSY''"
  "err_retryable (markReliabilityHandled (busy_error k x) i) = Some True"
  "jget (err_details (markReliabilityHandled (busy_error k x) i)) ''expiresAt'' = jopt_int x"
  "err_syncRunId (markReliabilityHandled (busy_error k x) i) = i"
proof -
  have t: "trim (''Sync lock is busy: '' @ k) \<noteq> []" using trim_visible by (simp add: is_space_def)
  show "err_code (markReliabilityHandled (busy_error k x) i) = Some ''SYNC_LOCK_BUSY''"
    "err_retryable (markReliabilityHandled (busy_error k x) i) = Some True"
    "jget (err_details (markReliabilityHandled (busy_error k x) i)) ''expiresAt'' = jopt_int x"
    using t unfolding markReliabilityHandled_def busy_error_def transientError_def runtime_error_def
    by (simp_all add: freezeDetails_def is_object_def normalizeCode_def trim_def is_space_def to_upper_def
        upper_char_def is_lower_char_def Let_def)
qed (simp add: markReliabilityHandled_def)

subsection \<open>An invalid number of renewal attempts\<close>

text \<open>It is found out after the lock was taken and before the block that gives it back.\<close>

lemma invalid_attempts_leave_lease:
  assumes "createSyncLockKey (ri_fields inp) = Inr k" and owner: "plain_text owner"
    "run_normalizeId (ri_uuids inp 0) (jget (ri_fields inp) ''syncRunId'') = Inr owner"
    and "run_positiveInteger (nullish (jget (ri_fields inp) ''leaseMs'') (jint 600000)) ''leaseMs'' = Inr l"
    and "resolveRenewInterval (jget (ri_fields inp) ''renewIntervalMs'') l = Inr n"
    and "run_positiveInteger (nullish (jget (ri_fields inp) ''renewAttempts'') (jint 3)) ''renewAttempts'' = Inl x"
    and "rn_others w (rn_awaits w) = []" "quiet (rn_db w)" "locks_keyed (rn_db w)" "d1_holder (rn_db w) k = None"
  shows "\<exists>w'. runReliableSync host inp w = (Inl x, w') \<and> d1_holder (rn_db w') k = Some (owner, acquire_time w + l)"
proof -
  let ?t = "acquire_time w"
  have v: "op_valid (Acquire k owner l ?t)"
    using run_op_valid [OF assms(1) owner(1) assms(4)] by (simp add: op_valid_def)
  obtain r s where a: "stale_aware_acquire (lock_input k owner l) ?t (rn_db w) = (Inr r, s)" "lr_ok r"
    using stale_lock.available [OF assms(9,8) v] assms(10) by auto
  have h: "d1_holder s k = Some (owner, ?t + l)"
    using stale_lock.granted [OF assms(9) v a] by simp
  have i: "resolveRenewInterval (jint n) l = Inr n"
    using resolved_interval [OF assms(5)] v by (simp add: op_valid_def)
  show ?thesis using run_after_acquire [OF assms(1,3,4,5,7) a(1)] a(2) h v i assms(6)
    by (simp add: andThen_run createLeaseHeartbeat_def run_requireText_def op_valid_def check_run throw_run acquire_world_def)
qed

subsection \<open>Keys of scopes\<close>

lemma unreserved_kept: "list_all uri_unreserved s \<Longrightarrow> escapePart s = s"
proof -
  have "\<not> uri_unreserved (CHR ''%'')" by code_simp
  then have "c \<noteq> CHR ''%''" if "uri_unreserved c" for c using that by auto
  then show "list_all uri_unreserved s \<Longrightarrow> ?thesis"
    by (induction s) (auto simp: escapePart_def encodeURIComponent_def)
qed

lemma escapePart_no_colon: "CHR '':'' \<notin> set (escapePart s)"
proof -
  have d: "\<forall>d \<in> set [0..<16]. CHR '':'' \<noteq> upper_hex d" and u: "\<not> uri_unreserved (CHR '':'')" by code_simp+
  have "of_char a div 16 \<in> set [0..<16::nat]" "of_char a mod 16 \<in> set [0..<16::nat]" for a :: char
    by (simp_all add: less_mult_imp_div_less)
  with d have "CHR '':'' \<noteq> upper_hex (of_char a div 16)" "CHR '':'' \<noteq> upper_hex (of_char a mod 16)" for a :: char by blast+
  then show ?thesis using u by (auto simp: escapePart_def encodeURIComponent_def split: if_splits)
qed

definition sync_scope :: "string \<Rightarrow> string \<Rightarrow> string \<Rightarrow> string \<Rightarrow> jsval" where
  "sync_scope customer platform account syncType = JObj [(''customerProfile'', JStr customer), (''platform'', JStr platform),
     (''accountKey'', JStr account), (''syncType'', JStr syncType)]"

lemma scope_parts:
  assumes "createSyncLockKey (sync_scope a p b t) = Inr k"
  shows "k = join '':'' (map escapePart [trim a, to_lower (trim p), trim b, trim t])"
  using assms by (auto simp: createSyncLockKey_def sync_scope_def bind_res_Inr_iff run_requireText_def requireText_def
      split: if_splits)

lemma keys_separate:
  assumes "createSyncLockKey (sync_scope a p b t) = Inr k" "createSyncLockKey (sync_scope a' p' b' t') = Inr k"
  shows "map escapePart [trim a, to_lower (trim p), trim b, trim t] = map escapePart [trim a', to_lower (trim p'), trim b', trim t']"
  using scope_parts [OF assms(1)] scope_parts [OF assms(2)] escapePart_no_colon
  by (intro join_colon_inj) auto

text \<open>Escaping is not injective: \<open>%\<close> becomes \<open>_25\<close>, and \<open>_\<close> stays what it is.\<close>

lemma lock_keys_collide:
  "createSyncLockKey (sync_scope ''a%'' ''p'' ''b'' ''t'') = createSyncLockKey (sync_scope ''a_25'' ''p'' ''b'' ''t'')"
  by code_simp

subsection \<open>Other users of the lock\<close>

text \<open>Every operation of another owner on the lock manager defers to the lease, and is tame.\<close>

lemma lock_user_defers:
  assumes "\<And>t. op_valid (x t) \<and> op_owner (x t) \<noteq> owner \<and> (\<forall>e. t < e \<longrightarrow> op_before (x t) e)"
  shows "defers_to k owner (\<lambda>t s. snd (stale_lock_step (x t) s))"
proof -
  have keep: "d1_holder (snd (stale_lock_step (x t) s)) k = Some (owner, e)"
    if "locks_keyed s" "t < e" "d1_holder s k = Some (owner, e)" for t s e
  proof (cases "op_key (x t) = k")
    case True
    then show ?thesis using stale_lock.protected [of s "x t" owner e] that assms by blast
  next
    case False
    then show ?thesis using stale_lock.other_key [of s "x t" k] that assms by simp
  qed
  then show ?thesis unfolding defers_to_def using stale_lock.inv_step assms by blast
qed

lemma acquire_run_keeps:
  assumes "quiet s" "locks_keyed s" "v \<noteq> owner" "op_valid (Acquire k' v l t)"
  shows "\<not> owned owner (d1_holder s k) \<Longrightarrow> \<not> owned owner (d1_holder (snd (stale_aware_acquire (lock_input k' v l) t s)) k)"
proof (cases "d1_acquire (lock_input k' v l) t s")
  case (Pair r0 s0)
  have "s0 = snd (sql_acquire k' v t (t + l) s)"
    using Pair by (simp add: d1_acquire_run [OF assms(4)] run_sql_quiet [OF assms(1)])
  then have "owned owner (d1_holder s0 k) \<Longrightarrow> owned owner (d1_holder s k)"
    using assms(3) by (auto simp: holder_sql_acquire owned_def split: if_splits)
  then show "\<not> owned owner (d1_holder s k) \<Longrightarrow> ?thesis" using Pair
    by (cases rule: stale_aware_cases [of "lock_input k' v l" t s]) auto
qed

lemma stale_acquire_step: "snd (stale_lock_step (Acquire k v l t) s) = snd (stale_aware_acquire (lock_input k v l) t s)"
  by (auto split: prod.splits sum.splits)

lemma rival_tame:
  assumes "v \<noteq> owner" "op_valid (Acquire k' v l 0)"
  shows "tame k owner (\<lambda>t s. snd (stale_aware_acquire (lock_input k' v l) t s))"
proof -
  have v: "op_valid (Acquire k' v l t)" for t using assms(2) by (simp add: op_valid_def)
  have "quiet (snd (stale_aware_acquire i t s))" if "quiet s" for i t s
    using lock_quiet(1) that by (auto simp: evolves_def keeping_def)
  moreover have "locks_keyed (snd (stale_aware_acquire (lock_input k' v l) t s))" if "locks_keyed s" for t s
    using stale_lock.inv_step [OF that v [of t]] unfolding stale_acquire_step .
  ultimately show ?thesis using acquire_run_keeps [OF _ _ assms(1) v] by (auto simp: tame_def)
qed

lemma rival_defers:
  assumes "v \<noteq> owner" "op_valid (Acquire k' v l 0)"
  shows "defers_to k owner (\<lambda>t s. snd (stale_aware_acquire (lock_input k' v l) t s))"
proof -
  have "op_valid (Acquire k' v l t)" for t using assms(2) by (simp add: op_valid_def)
  then show ?thesis using lock_user_defers [of "\<lambda>t. Acquire k' v l t" owner k, unfolded stale_acquire_step] assms(1) by simp
qed

end
