(* ===== verification/Runner_Progress.thy ===== *)
theory Runner_Progress
  imports Runner_Guarantees
begin

text \<open>
  An undisturbed run of the reliable runner ends well: no other invocation acts, no statement and no
  send fails, the clock stays before the end of the lease, and the records of the run are storable.
\<close>

definition fair :: "int \<Rightarrow> runner_world \<Rightarrow> bool" where
  "fair limit w \<longleftrightarrow> (\<forall>i. rn_others w i = []) \<and> quiet (rn_db w) \<and> (\<forall>i. ww_sendFaults (rn_worker w) i = None)
     \<and> (\<forall>i. 0 \<le> ww_clock (rn_worker w) i \<and> is_safe (ww_clock (rn_worker w) i) \<and> ww_clock (rn_worker w) i < limit)
     \<and> mono (ww_clock (rn_worker w))"

definition storable :: "jsval \<Rightarrow> bool" where
  "storable e \<longleftrightarrow> (\<forall>v. quiet (ww_db v) \<and> (\<forall>i. ww_sendFaults v i = None)
     \<and> (\<forall>i. 0 \<le> ww_clock v i \<and> is_safe (ww_clock v i)) \<longrightarrow> (\<exists>v'. store_saveSyncRun e v = (Inr (), v')))"

definition accepted :: "js_host \<Rightarrow> run_input \<Rightarrow> jsval \<Rightarrow> bool" where
  "accepted host inp entry \<longleftrightarrow> (\<exists>e. createSyncLogEntry host (ri_uuids inp 0) entry = Inr e \<and> storable e)"

text \<open>Steps that also leave the heartbeat alone.\<close>

definition still :: "runner_world \<Rightarrow> runner_world \<Rightarrow> bool" where
  "still w w' \<longleftrightarrow> calm_step w w' \<and> rn_heartbeat w' = rn_heartbeat w"

definition beating :: "int \<Rightarrow> runner_world \<Rightarrow> bool" where
  "beating limit w \<longleftrightarrow> fair limit w \<and> hb_terminal (rn_heartbeat w) = None \<and> hb_expiresAt (rn_heartbeat w) = limit"

lemma still_trans: "still u v \<Longrightarrow> still v w \<Longrightarrow> still u w"
  using transpD [OF calm_step_preorder(2)] by (auto simp: still_def)

lemma still_fair: "still w w' \<Longrightarrow> fair limit w \<Longrightarrow> fair limit w'"
  by (auto simp: still_def calm_step_def lock_free_def fair_def keeping_def)

lemma still_beating: "still w w' \<Longrightarrow> beating limit w \<Longrightarrow> beating limit w'"
  using still_fair by (auto simp: beating_def still_def)

lemma still_in_worker: "evolves lock_free m \<Longrightarrow> m (rn_worker w) = (r, v) \<Longrightarrow> still w (w\<lparr>rn_worker := v\<rparr>)"
  by (drule (1) evolvesD) (auto simp: still_def calm_step_def Let_def)

lemma still_awaits: "still w (w\<lparr>rn_awaits := n\<rparr>)"
  by (simp add: still_def calm_step_def Let_def lock_free_def unchanged_def keeping_def)

lemma pause_fair: "fair limit w \<Longrightarrow> pause w = (Inr (), w\<lparr>rn_awaits := Suc (rn_awaits w)\<rparr>)"
  by (simp add: pause_def next_events_def andThen_run ret_run fair_def)

lemma saved_fair:
  assumes "fair limit w" "accepted host inp entry"
  shows "\<exists>w'. runner_saveSyncRun host inp entry w = (Inr (), w') \<and> still w w'"
proof -
  obtain e where e: "createSyncLogEntry host (ri_uuids inp 0) entry = Inr e" "storable e"
    using assms(2) by (auto simp: accepted_def)
  let ?w = "w\<lparr>rn_awaits := Suc (rn_awaits w)\<rparr>"
  obtain v where v: "store_saveSyncRun e (rn_worker ?w) = (Inr (), v)"
    using e(2) assms(1) by (force simp: storable_def fair_def)
  have "still w (?w\<lparr>rn_worker := v\<rparr>)"
    using still_trans [OF still_awaits still_in_worker [OF store_free(1) v]] .
  then show ?thesis using e(1) pause_fair [OF assms(1)] v
    by (simp add: runner_saveSyncRun_def andThen_run in_worker_def)
qed

lemma now_still: "\<exists>w'. runner_now w = (Inr (next_clock w), w') \<and> still w w'"
  using still_in_worker [OF read_clock_free] by (force simp: runner_now_def in_worker_def read_clock_def next_clock_def)

lemma assertActive_passes:
  assumes "beating limit w"
  shows "\<exists>w'. assertActive w = (Inr True, w') \<and> still w w'"
proof -
  obtain w' where w': "runner_now w = (Inr (next_clock w), w')" "still w w'" using now_still by blast
  moreover have "next_clock w < hb_expiresAt (rn_heartbeat w)"
    using assms by (simp add: beating_def fair_def next_clock_def)
  ultimately show ?thesis using assms by (simp add: assertActive_def eff_simps beating_def)
qed

text \<open>The part under the lease, for a job that returns \<open>r\<close> and leaves the heartbeat alone.\<close>

lemma completes_under_lease:
  assumes b: "beating limit w" and job: "\<And>c v. beating limit v \<Longrightarrow> \<exists>v'. ri_execute inp c v = (Inr r, v') \<and> still v v'"
    and running: "accepted host inp (JObj (run_identity inp owner
       @ [(''source'', jget (ri_fields inp) ''source''), (''status'', JStr ''running''), (''startedAt'', jint start),
          (''details'', JObj [(''lockKey'', JStr k), (''leaseMs'', jint l), (''renewIntervalMs'', jint n)])]))"
    and finished: "\<And>v. beating limit v \<Longrightarrow> still w v \<Longrightarrow> accepted host inp (completion_entry inp owner start (next_clock v) r)"
    and silent: "jget (ri_fields inp) ''alertOnResultWarnings'' \<noteq> JBool True"
  shows "\<exists>w'. run_under_lease host inp owner k l n start w = (Inr (jput ''syncRunId'' (JStr owner) (JObj (spread r))), w') \<and> still w w'"
proof -
  obtain w1 where w1: "runner_saveSyncRun host inp (JObj (run_identity inp owner
       @ [(''source'', jget (ri_fields inp) ''source''), (''status'', JStr ''running''), (''startedAt'', jint start),
          (''details'', JObj [(''lockKey'', JStr k), (''leaseMs'', jint l), (''renewIntervalMs'', jint n)])])) w = (Inr (), w1)"
    and s1: "still w w1"
    using saved_fair [OF _ running] b by (auto simp: beating_def)
  obtain w2 where w2: "assertActive w1 = (Inr True, w2)" and s2: "still w w2"
    using assertActive_passes [OF still_beating [OF s1 b]] still_trans [OF s1] by blast
  obtain w3 where w3: "ri_execute inp \<lparr>sc_syncRunId = owner, sc_lockKey = k\<rparr> w2 = (Inr r, w3)" and s3: "still w w3"
    using job [OF still_beating [OF s2 b]] still_trans [OF s2] by blast
  obtain w4 where w4: "assertActive w3 = (Inr True, w4)" and s4: "still w w4"
    using assertActive_passes [OF still_beating [OF s3 b]] still_trans [OF s3] by blast
  obtain w5 where w5: "runner_now w4 = (Inr (next_clock w4), w5)" and s5: "still w w5"
    using now_still still_trans [OF s4] by blast
  have b5: "fair limit w5" using still_beating [OF s5 b] by (simp add: beating_def)
  obtain w6 where w6: "runner_saveSyncRun host inp (completion_entry inp owner start (next_clock w4) r) w5 = (Inr (), w6)"
    and s6: "still w w6"
    using saved_fair [OF b5 finished [OF still_beating [OF s4 b] s4]] still_trans [OF s5] by blast
  have quiet: "deliver_result_warnings host inp owner t r = ret ()" for t
    using silent by (simp add: deliver_result_warnings_def Let_def)
  show ?thesis using w1 w2 w3 w4 w5 w6 s6 by (simp add: run_under_lease_def andThen_run quiet ret_run)
qed

lemma release_returns:
  assumes w: "quiet (rn_db w)" "locks_keyed (rn_db w)" "d1_holder (rn_db w) k = Some (owner, e)" "\<And>i. rn_others w i = []"
    and plain: "plain_text k" "plain_text owner"
  shows "\<exists>w'. release_lease host inp owner k None w = (Inr (), w')"
proof -
  have v: "op_valid (Release k owner)" using plain by (simp add: op_valid_def)
  have "0 < fst (sql_release k owner (rn_db w))"
    using changes_sql_release [OF w(2)] w(3) by (simp add: owned_def)
  then show ?thesis using w(1,4)
    by (simp add: release_lease_def stop_heartbeat_def set_heartbeat_def breathe_def next_events_def eff_simps
        in_worker_def with_db_def d1_release_run [OF v])
qed

lemma heartbeat_beats:
  assumes "fair limit w" "0 < limit" "plain_text k" "plain_text owner" "resolveRenewInterval (jint n) l = Inr n"
    and "run_positiveInteger (nullish attempts (jint 3)) ''renewAttempts'' = Inr a"
  shows "\<exists>w'. createLeaseHeartbeat k owner l (jint n) (jopt_int (Some limit)) attempts w = (Inr (), w')
    \<and> beating limit w' \<and> rn_db w' = rn_db w \<and> ww_clock (rn_worker w') = ww_clock (rn_worker w)
    \<and> ww_ticks (rn_worker w) \<le> ww_ticks (rn_worker w')"
proof -
  obtain w' where w': "runner_now w = (Inr (next_clock w), w')" "still w w'" using now_still by blast
  have "rn_db w' = rn_db w" "ww_clock (rn_worker w') = ww_clock (rn_worker w)"
    "ww_ticks (rn_worker w) \<le> ww_ticks (rn_worker w')"
    using w'(1) by (auto simp: runner_now_def in_worker_def read_clock_def)
  with w' still_fair [OF w'(2) assms(1)] assms show ?thesis
    by (simp add: createLeaseHeartbeat_def run_requireText_def eff_simps set_heartbeat_def beating_def fair_def)
qed

lemma undisturbed_run:
  assumes key: "createSyncLockKey (ri_fields inp) = Inr k" and owner: "plain_text owner"
    "run_normalizeId (ri_uuids inp 0) (jget (ri_fields inp) ''syncRunId'') = Inr owner"
    and lease: "run_positiveInteger (nullish (jget (ri_fields inp) ''leaseMs'') (jint 600000)) ''leaseMs'' = Inr l"
    and interval: "resolveRenewInterval (jget (ri_fields inp) ''renewIntervalMs'') l = Inr n"
    and attempts: "run_positiveInteger (nullish (jget (ri_fields inp) ''renewAttempts'') (jint 3)) ''renewAttempts'' = Inr a"
    and w: "fair (acquire_time w + l) w" "locks_keyed (rn_db w)" "free_for owner (acquire_time w) (d1_holder (rn_db w) k)"
    and job: "\<And>c v. beating (acquire_time w + l) v \<Longrightarrow> \<exists>v'. ri_execute inp c v = (Inr r, v') \<and> still v v'"
    and running: "accepted host inp (JObj (run_identity inp owner
       @ [(''source'', jget (ri_fields inp) ''source''), (''status'', JStr ''running''), (''startedAt'', jint (next_clock w)),
          (''details'', JObj [(''lockKey'', JStr k), (''leaseMs'', jint l), (''renewIntervalMs'', jint n)])]))"
    and finished: "\<And>t. t \<in> range (ww_clock (rn_worker w)) \<Longrightarrow> next_clock w \<le> t \<Longrightarrow>
      accepted host inp (completion_entry inp owner (next_clock w) t r)"
    and silent: "jget (ri_fields inp) ''alertOnResultWarnings'' \<noteq> JBool True"
  shows "\<exists>w'. runReliableSync host inp w = (Inr (jput ''syncRunId'' (JStr owner) (JObj (spread r))), w')"
proof -
  let ?t = "acquire_time w" and ?v = "jput ''syncRunId'' (JStr owner) (JObj (spread r))"
  have k: "plain_text k" using createSyncLockKey_plain [OF key] .
  have v: "op_valid (Acquire k owner l ?t)" using run_op_valid [OF key owner(1) lease] by (simp add: op_valid_def)
  have l: "is_safe l" "0 < l" using v by (simp_all add: op_valid_def)
  have quiet: "quiet (rn_db w)" and alone: "\<And>i. rn_others w i = []" and t: "0 \<le> ?t" "next_clock w \<le> ?t"
    using w(1) by (auto simp: fair_def acquire_time_def next_clock_def monoD)
  obtain q s where a: "stale_aware_acquire (lock_input k owner l) ?t (rn_db w) = (Inr q, s)" "lr_ok q"
    using stale_lock.available [OF w(2) quiet v] w(3) by (auto simp: free_for_def split: option.splits)
  have g: "d1_holder s k = Some (owner, ?t + l)" "lr_expiresAt q = Some (?t + l)"
    using stale_lock.granted [OF w(2) v a] by auto
  have s: "quiet s" "locks_keyed s"
    using evolvesD [OF lock_quiet(1) a(1)] quiet stale_lock.inv_step [OF w(2) v] a(1) by (auto simp: keeping_def)
  have fair: "fair (?t + l) (acquire_world w s)"
    using w(1) s(1) by (simp add: fair_def acquire_world_def)
  obtain w4 where w4: "createLeaseHeartbeat k owner l (jint n) (jopt_int (Some (?t + l))) (jget (ri_fields inp) ''renewAttempts'')
      (acquire_world w s) = (Inr (), w4)" "beating (?t + l) w4" "rn_db w4 = s"
    and clock: "ww_clock (rn_worker w4) = ww_clock (rn_worker w)" and ticks: "ww_ticks (rn_worker w) + 2 \<le> ww_ticks (rn_worker w4)"
    using heartbeat_beats [OF fair _ k owner(1) resolved_interval [OF interval l(1)] attempts] t(1) l(2)
    by (auto simp: acquire_world_def)
  have tick: "?t \<le> next_clock w4"
    using w(1) clock ticks by (simp add: fair_def acquire_time_def next_clock_def monoD)
  obtain w5 where w5: "run_under_lease host inp owner k l n (next_clock w) w4 = (Inr ?v, w5)" "still w4 w5"
  proof -
    have "accepted host inp (completion_entry inp owner (next_clock w) (next_clock u) r)" if "still w4 u" for u
    proof (rule finished)
      have "calm_step w4 u" using that by (simp add: still_def)
      then show "next_clock u \<in> range (ww_clock (rn_worker w))"
        using clock by (simp add: calm_step_def lock_free_def next_clock_def)
      show "next_clock w \<le> next_clock u"
        using calm_next [OF \<open>calm_step w4 u\<close>] w4(2) tick t(2) by (auto simp: beating_def fair_def)
    qed
    then show thesis using that completes_under_lease [OF w4(2) job running _ silent] by blast
  qed
  have c: "calm_step w4 w5" using w5(2) by (simp add: still_def)
  have f: "fair (?t + l) w5" using still_fair [OF w5(2)] w4(2) by (simp add: beating_def)
  have "\<exists>w6. release_lease host inp owner k None w5 = (Inr (), w6)"
    by (rule release_returns) (use f calm_holder [OF c] g(1) s(2) w4(3) k owner(1) in \<open>simp_all add: fair_def\<close>)
  then obtain w6 where "release_lease host inp owner k None w5 = (Inr (), w6)" ..
  then show ?thesis
    using run_after_acquire [OF key owner(2) lease interval alone a(1)] a(2) g(2) w4(1) w5(1)
    by (simp add: andThen_run try_catch_finally_def)
qed

subsection \<open>Storable records\<close>

text \<open>
  An entry that passes this check is stored by every database without faults: its details and the time
  of the write do not decide whether it is accepted.
\<close>

definition bindable :: "jsval \<Rightarrow> bool" where
  "bindable e \<longleftrightarrow> \<not> isl (rel_requireText (jget e ''syncId'') ''syncId'') \<and> \<not> isl (nullableText (jget e ''customerProfile''))
     \<and> \<not> isl (rel_requireText (jget e ''platform'') ''platform'') \<and> \<not> isl (nullableText (jget e ''accountKey''))
     \<and> \<not> isl (nullableText (jget e ''source'')) \<and> \<not> isl (rel_requireText (jget e ''syncType'') ''syncType'')
     \<and> (case rel_requireText (jget e ''status'') ''status'' of Inr t \<Rightarrow> run_status_ok t | Inl _ \<Rightarrow> False)
     \<and> \<not> isl (nullableInteger (jget e ''startedAt'')) \<and> \<not> isl (nullableInteger (jget e ''finishedAt''))
     \<and> list_all (\<lambda>f. \<not> isl (rel_nonNegativeInteger (nullish (jget e f) (jint 0)) f))
         [''recordsPulled'', ''recordsCreated'', ''recordsUpdated'', ''recordsSkipped'', ''recordsWritten'', ''retryCount'']
     \<and> \<not> isl (nullableText (jget e ''errorCode'')) \<and> \<not> isl (nullableOperationalText (jget e ''errorMessage'') (jget e ''errorCode''))"

definition storable_check :: "jsval \<Rightarrow> bool" where
  "storable_check e \<longleftrightarrow> bindable e \<and>
     (case toSyncRunMirrorPayload e of Inl _ \<Rightarrow> False | Inr p \<Rightarrow>
        (case requirePayload p of Inl _ \<Rightarrow> False | Inr p' \<Rightarrow>
           \<not> isl (buildReliabilityMirrorOutboxId (JStr ''saveSyncRun'') p') \<and> length (json_print (json_norm p')) < 1000))"

definition accepted_check :: "js_host \<Rightarrow> string \<Rightarrow> jsval \<Rightarrow> bool" where
  "accepted_check host uuid entry = (case createSyncLogEntry host uuid entry of Inr e \<Rightarrow> storable_check e | Inl _ \<Rightarrow> False)"

lemma not_Inl: "\<not> isl r \<longleftrightarrow> (\<exists>y. r = Inr y)"
  by (cases r) simp_all

lemma bindable_binds:
  assumes "bindable e"
  shows "\<exists>row. bindRun e now = Inr row \<and> run_status_ok (sr_status row)"
proof -
  obtain t where "rel_requireText (jget e ''status'') ''status'' = Inr t" "run_status_ok t"
    using assms by (auto simp: bindable_def split: sum.split_asm)
  then show ?thesis using assms unfolding bindable_def not_Inl list.pred_inject
    by (elim exE conjE) (simp add: bindRun_def)
qed

lemma schedule_quiet:
  assumes "requirePayload p = Inr p'" "buildReliabilityMirrorOutboxId (JStr ''saveSyncRun'') p' = Inr i" "serializePayload p' = Inr j"
    and "quiet s" "0 \<le> t" "is_safe t"
  shows "\<exists>u. schedule (JObj [(''method'', JStr ''saveSyncRun''), (''payload'', p)]) t s = (Inr (), u)"
proof -
  have m: "mirror_method (JStr ''saveSyncRun'') = Inr ''saveSyncRun''" by code_simp
  have "mir_timestamp (jint t) ''createdAt'' = Inr t" using assms(5,6) by (simp add: mir_timestamp_def)
  then show ?thesis using assms m by (simp add: schedule_def eff_simps nullish_def)
qed

lemma storable_check: "storable_check e \<Longrightarrow> storable e"
  unfolding storable_def
proof (intro allI impI)
  fix v :: worker_world assume c: "storable_check e" and v: "quiet (ww_db v) \<and> (\<forall>i. ww_sendFaults v i = None) \<and>
     (\<forall>i. 0 \<le> ww_clock v i \<and> is_safe (ww_clock v i))"
  let ?t = "ww_clock v (ww_ticks v)"
  have pay: "case toSyncRunMirrorPayload e of Inl _ \<Rightarrow> False | Inr p \<Rightarrow>
        (case requirePayload p of Inl _ \<Rightarrow> False | Inr p' \<Rightarrow>
           \<not> isl (buildReliabilityMirrorOutboxId (JStr ''saveSyncRun'') p') \<and> length (json_print (json_norm p')) < 1000)"
    using c unfolding storable_check_def by blast
  obtain p where p: "toSyncRunMirrorPayload e = Inr p"
    using pay by (cases "toSyncRunMirrorPayload e") simp_all
  obtain p' where p': "requirePayload p = Inr p'" using pay p by (cases "requirePayload p") simp_all
  have two: "\<not> isl (buildReliabilityMirrorOutboxId (JStr ''saveSyncRun'') p') \<and> length (json_print (json_norm p')) < 1000"
    using pay unfolding p p' sum.case .
  obtain i where i: "buildReliabilityMirrorOutboxId (JStr ''saveSyncRun'') p' = Inr i" using iffD1 [OF not_Inl] two by blast
  obtain j where j: "serializePayload p' = Inr j" using two by (simp add: serializePayload_def)
  obtain row where row: "bindRun e ?t = Inr row" "run_status_ok (sr_status row)"
    using bindable_binds c unfolding storable_check_def by blast
  obtain s where s: "sql_put_run row (ww_db v) = Inr s" "quiet s"
    using row(2) v by (simp add: sql_put_run_def quiet_def)
  obtain u where "schedule (JObj [(''method'', JStr ''saveSyncRun''), (''payload'', p)]) ?t s = (Inr (), u)"
    using schedule_quiet [OF p' i j s(2)] v by blast
  then have "durable_saveSyncRun e None ?t (ww_db v) = (Inr True, u)"
    using row(1) s v p by (simp add: durable_saveSyncRun_def saveSyncRun_def scheduleMirror_def eff_simps)
  then show "\<exists>v'. store_saveSyncRun e v = (Inr (), v')"
    using v by (simp add: store_saveSyncRun_def clocked_def read_clock_def with_db_def queue_send_def eff_simps)
qed

lemma accepted_check: "accepted_check host (ri_uuids inp 0) entry \<Longrightarrow> accepted host inp entry"
  using storable_check by (auto simp: accepted_check_def accepted_def split: sum.splits)

end
