(* ===== verification/Runner_Properties.thy ===== *)
theory Runner_Properties
  imports Runner_Progress Worker_Properties
begin

text \<open>
  The properties of the reliable runner, each with its witness: a run for one scope, with a rival that
  asks for the same lock while the run lasts, or a scope that is already taken.
\<close>

subsection \<open>The worlds of the witnesses\<close>

abbreviation ex_scope :: string where
  "ex_scope \<equiv> ''acme:youtube:a1:organic''"

definition ex_rival :: "int \<Rightarrow> d1 \<Rightarrow> d1" where
  "ex_rival t s = snd (stale_aware_acquire (lock_input ex_scope ''rival'' 5000) t s)"

definition ex_runner :: "(nat \<Rightarrow> other_event list) \<Rightarrow> d1 \<Rightarrow> runner_world" where
  "ex_runner events db = \<lparr>rn_worker = ex_world\<lparr>ww_db := db\<rparr>,
     rn_heartbeat = \<lparr>hb_lockKey = [], hb_ownerId = [], hb_leaseMs = 1, hb_attempts = 0, hb_expiresAt = 0,
       hb_stopped = True, hb_terminal = None\<rparr>,
     rn_reports = [], rn_others = events, rn_awaits = 0\<rparr>"

definition ex_events :: "nat \<Rightarrow> other_event list" where
  "ex_events n = (if n = 1 then [TimerTick, Elsewhere ex_rival] else [])"

definition ex_sync :: run_input where
  "ex_sync = \<lparr>ri_fields = JObj [(''customerProfile'', JStr ''acme''), (''platform'', JStr ''youtube''),
       (''accountKey'', JStr ''a1''), (''syncType'', JStr ''organic''), (''syncRunId'', JStr ''run'')],
     ri_uuids = (\<lambda>_. ''uuid''), ri_execute = (\<lambda>_. ret (JObj [(''mode'', JStr ''full'')])), ri_outbox = False\<rparr>"


lemma ex_sync_identity:
  "createSyncLockKey (ri_fields ex_sync) = Inr ex_scope" "plain_text ''run''"
  "run_normalizeId (ri_uuids ex_sync 0) (jget (ri_fields ex_sync) ''syncRunId'') = Inr ''run''"
  by code_simp+

lemma ex_sync_numbers:
  "run_positiveInteger (nullish (jget (ri_fields ex_sync) ''leaseMs'') (jint 600000)) ''leaseMs'' = Inr 600000"
  "resolveRenewInterval (jget (ri_fields ex_sync) ''renewIntervalMs'') 600000 = Inr 200000"
  "run_positiveInteger (nullish (jget (ri_fields ex_sync) ''renewAttempts'') (jint 3)) ''renewAttempts'' = Inr 3"
  by code_simp+

lemma ex_rival_other: "op_valid (Acquire ex_scope ''rival'' 5000 0)"
  by code_simp

lemma ex_prepared: "prepared ex_scope ''run'' (ex_runner ex_events empty_d1)"
  using rival_defers [OF _ ex_rival_other, of "''run''" ex_scope]
  by (auto simp: prepared_def orderly_def ex_runner_def ex_events_def ex_world_def ex_rival_def [abs_def] mono_def
      locks_keyed_def empty_d1_def keyed_def split: if_splits)


lemma ex_records:
  "accepted ex_host ex_sync (JObj (run_identity ex_sync ''run''
     @ [(''source'', jget (ri_fields ex_sync) ''source''), (''status'', JStr ''running''), (''startedAt'', jint 1700000000000),
        (''details'', JObj [(''lockKey'', JStr ex_scope), (''leaseMs'', jint 600000), (''renewIntervalMs'', jint 200000)])]))"
  "accepted ex_host ex_sync (completion_entry ex_sync ''run'' 1700000000000 1700000000000 (JObj [(''mode'', JStr ''full'')]))"
  by (rule accepted_check; code_simp)+

lemma ex_sync_silent: "jget (ri_fields ex_sync) ''alertOnResultWarnings'' \<noteq> JBool True"
  by (simp add: ex_sync_def)

lemma ex_undisturbed:
  defines "w \<equiv> ex_runner (\<lambda>_. []) empty_d1"
  shows "fair (acquire_time w + 600000) w" "locks_keyed (rn_db w)" "free_for ''run'' (acquire_time w) (d1_holder (rn_db w) ex_scope)"
    and "next_clock w = 1700000000000" "range (ww_clock (rn_worker w)) = {1700000000000}"
    and "ri_execute ex_sync c v = (Inr (JObj [(''mode'', JStr ''full'')]), v)"
  by (auto simp: w_def fair_def ex_runner_def ex_world_def quiet_def empty_d1_def locks_keyed_def keyed_def d1_holder_def
      row_at_def free_for_def acquire_time_def next_clock_def is_safe_def max_safe_def monoI ex_sync_def ret_def)

lemma ex_job: "\<exists>v'. ri_execute ex_sync c v = (Inr (JObj [(''mode'', JStr ''full'')]), v') \<and> still v v'"
  using ex_undisturbed(6) still_awaits [of v "rn_awaits v"] by simp

lemma ex_run_returns:
  "\<exists>w'. runReliableSync ex_host ex_sync (ex_runner (\<lambda>_. []) empty_d1)
     = (Inr (jput ''syncRunId'' (JStr ''run'') (JObj (spread (JObj [(''mode'', JStr ''full'')])))), w')"
  using ex_records ex_job
  by (intro undisturbed_run [OF ex_sync_identity ex_sync_numbers ex_undisturbed(1-3)])
    (auto simp: ex_undisturbed(4,5) ex_sync_silent)

subsection \<open>The properties\<close>

text \<open>
  C2: a job starts only while its run holds the lease of the scope. Two jobs that agree on every
  world in which the lock table names the run with an expiry the clock had not reached give the same
  run, so that no run calls its job anywhere else: whatever the other invocations do at the awaits
  (as long as they defer to a lease that has not expired, which every operation of the lock manager
  does), whatever faults the statements meet and however often the heartbeat renews.
\<close>

theorem job_needs_the_lease:
  assumes "prepared k owner w" "createSyncLockKey (ri_fields inp) = Inr k" "plain_text owner"
    and "run_normalizeId (ri_uuids inp 0) (jget (ri_fields inp) ''syncRunId'') = Inr owner"
    and "\<And>c v. holds_lease k owner v \<Longrightarrow> job c v = ri_execute inp c v"
  shows "runReliableSync host (inp\<lparr>ri_execute := job\<rparr>) w = runReliableSync host inp w"
  by (rule job_agrees [OF assms])

theorem job_needs_the_lease_witness:
  "runReliableSync ex_host (ex_sync\<lparr>ri_execute := \<lambda>c v. if holds_lease ex_scope ''run'' v
       then ri_execute ex_sync c v else throw (plain_error ''not locked'') v\<rparr>) (ex_runner ex_events empty_d1)
     = runReliableSync ex_host ex_sync (ex_runner ex_events empty_d1)"
  by (rule job_needs_the_lease [OF ex_prepared ex_sync_identity]) simp

text \<open>
  C3: a run that returns held the lease to the end. When a run with a job that keeps the lease
  machinery intact returns a value, the job was called under the lease, returned a result, the check
  after the job passed with the lease still held, and the value is that result with the run id.
\<close>

theorem success_means_lease_held:
  assumes "prepared k owner w" "createSyncLockKey (ri_fields inp) = Inr k" "plain_text owner"
    and "run_normalizeId (ri_uuids inp 0) (jget (ri_fields inp) ''syncRunId'') = Inr owner"
    and "\<And>c l. evolves (keeping (leased k owner l)) (ri_execute inp c)"
    and "runReliableSync host inp w = (Inr v, w')"
  shows "\<exists>w1 r w2 w3. holds_lease k owner w1
    \<and> ri_execute inp \<lparr>sc_syncRunId = owner, sc_lockKey = k\<rparr> w1 = (Inr r, w2)
    \<and> assertActive w2 = (Inr True, w3) \<and> holds_lease k owner w3 \<and> v = jput ''syncRunId'' (JStr owner) (JObj (spread r))"
  by (rule success_under_lease [OF assms])

theorem success_means_lease_held_witness:
  "\<exists>w1 r w2 w3. holds_lease ex_scope ''run'' w1
    \<and> ri_execute ex_sync \<lparr>sc_syncRunId = ''run'', sc_lockKey = ex_scope\<rparr> w1 = (Inr r, w2)
    \<and> assertActive w2 = (Inr True, w3) \<and> holds_lease ex_scope ''run'' w3"
proof -
  have "prepared ex_scope ''run'' (ex_runner (\<lambda>_. []) empty_d1)"
    by (simp add: prepared_def orderly_def ex_runner_def ex_world_def mono_def locks_keyed_def empty_d1_def keyed_def)
  moreover have "evolves (keeping (leased ex_scope ''run'' l)) (ri_execute ex_sync c)" for c l
    by (simp add: ex_sync_def evolves_ret)
  moreover obtain w' where "runReliableSync ex_host ex_sync (ex_runner (\<lambda>_. []) empty_d1)
      = (Inr (jput ''syncRunId'' (JStr ''run'') (JObj (spread (JObj [(''mode'', JStr ''full'')])))), w')"
    using ex_run_returns by blast
  ultimately show ?thesis using success_means_lease_held [OF _ ex_sync_identity] by blast
qed







end
