(* ===== verification/Paged_Source.thy ===== *)
theory Paged_Source
  imports Effects
begin

text \<open>
  Bounded paging over a source (\<open>application/src/pagination/paged-source.js\<close>): pages are read one at
  a time, handed to the caller, and never collected. The provider (\<open>readPage\<close>), the report
  (\<open>onPage\<close>) and the caller (\<open>consumePage\<close>) are parameters that act on a state of their own.

  The generator is its loop with the body of the \<open>for await\<close> as an argument: a yield runs the body and
  resumes when it returns; when it throws the generator is closed. The loop is bounded by
  \<open>maxPages\<close>, so that the recursion is over the pages that may still be read.
\<close>

definition DEFAULT_MAX_PAGES :: int where
  "DEFAULT_MAX_PAGES = 1000"

record page_request =
  rq_cursor :: "string option"
  rq_pageNumber :: nat

record page_response =
  rp_items :: "jsval list"
  rp_hasMore :: bool
  rp_nextCursor :: "string option"
  rp_metadata :: jsval

record source_page = page_response +
  pg_pageNumber :: nat
  pg_cursor :: "string option"

record page_report =
  pr_pageNumber :: nat
  pr_itemCount :: nat
  pr_hasMore :: bool

record 's paged_input =
  in_readPage :: "(page_request \<Rightarrow> ('s, jsval) eff) option"
  in_consumePage :: "(source_page \<Rightarrow> ('s, unit) eff) option"
  in_onPage :: "(page_report \<Rightarrow> ('s, unit) eff) option"
  in_maxPages :: jsval
  in_initialCursor :: jsval

record paged_summary =
  ps_pagesProcessed :: nat
  ps_itemsProcessed :: nat

subsection \<open>Validation\<close>

definition requireFunction :: "'f option \<Rightarrow> string \<Rightarrow> jserror + 'f" where
  "requireFunction v fieldName = (case v of Some f \<Rightarrow> Inr f
     | None \<Rightarrow> Inl (type_error (''Paged source requires '' @ fieldName)))"

definition page_positiveInteger :: "jsval \<Rightarrow> string \<Rightarrow> jserror + nat" where
  "page_positiveInteger v fieldName = (case safe_int (js_number v) of
     Some n \<Rightarrow> if n \<le> 0 then Inl (type_error (''Paged source '' @ fieldName @ '' must be a positive integer''))
               else Inr (nat n)
   | None \<Rightarrow> Inl (type_error (''Paged source '' @ fieldName @ '' must be a positive integer'')))"

definition optionalCursor :: "jsval \<Rightarrow> jserror + string option" where
  "optionalCursor v = (if is_absent v then Inr None
     else case v of
       JStr s \<Rightarrow> if trim s = [] then Inl (type_error ''Paged source cursor must be a non-empty string'')
                 else Inr (Some (trim s))
     | _ \<Rightarrow> Inl (type_error ''Paged source cursor must be a non-empty string''))"

definition freezeMetadata :: "jsval \<Rightarrow> jserror + jsval" where
  "freezeMetadata v = (if is_nullish v then Inr (JObj [])
     else if is_object v then Inr v
     else Inl (type_error ''Paged source metadata must be an object''))"

definition page_details :: "nat \<Rightarrow> jsval" where
  "page_details n = JObj [(''pageNumber'', jint (int n))]"

definition normalizePage :: "jsval \<Rightarrow> nat \<Rightarrow> jserror + page_response" where
  "normalizePage v pageNumber =
     (if \<not> is_object v
      then Inl (permanentError ''Paged source response must be an object'' ''PAGED_SOURCE_RESPONSE_INVALID''
             (page_details pageNumber))
      else case jget v ''items'' of
        JArr items \<Rightarrow>
          bind_res (optionalCursor (jget v ''nextCursor'')) (\<lambda>nextCursor.
          bind_res (freezeMetadata (jget v ''metadata'')) (\<lambda>metadata.
          Inr \<lparr>rp_items = items, rp_hasMore = (jget v ''hasMore'' = JBool True),
               rp_nextCursor = nextCursor, rp_metadata = metadata\<rparr>))
      | _ \<Rightarrow> Inl (permanentError ''Paged source response must contain an items array''
             ''PAGED_SOURCE_RESPONSE_INVALID'' (page_details pageNumber)))"

subsection \<open>The loop\<close>

text \<open>The guards on the cursor of a response.\<close>

definition cursor_guard :: "page_response \<Rightarrow> string option \<Rightarrow> string set \<Rightarrow> nat \<Rightarrow> jserror + unit" where
  "cursor_guard response cursor visited pageNumber =
     (if rp_hasMore response
      then (case rp_nextCursor response of
          None \<Rightarrow> Inl (permanentError ''Paged source returned hasMore without a next cursor''
                    ''PAGED_SOURCE_CURSOR_MISSING'' (page_details pageNumber))
        | Some next \<Rightarrow>
            if Some next = cursor \<or> next \<in> visited
            then Inl (permanentError ''Paged source returned a repeated cursor''
                    ''PAGED_SOURCE_CURSOR_REPEATED'' (page_details pageNumber))
            else Inr ())
      else if rp_nextCursor response \<noteq> None
      then Inl (permanentError ''Paged source returned a next cursor while hasMore is false''
             ''PAGED_SOURCE_CURSOR_UNEXPECTED'' (page_details pageNumber))
      else Inr ())"

definition page_of :: "page_response \<Rightarrow> nat \<Rightarrow> string option \<Rightarrow> source_page" where
  "page_of response pageNumber cursor =
     \<lparr>rp_items = rp_items response, rp_hasMore = rp_hasMore response, rp_nextCursor = rp_nextCursor response,
      rp_metadata = rp_metadata response, pg_pageNumber = pageNumber, pg_cursor = cursor\<rparr>"

definition report_of :: "page_response \<Rightarrow> nat \<Rightarrow> page_report" where
  "report_of response pageNumber = \<lparr>pr_pageNumber = pageNumber,
     pr_itemCount = length (rp_items response), pr_hasMore = rp_hasMore response\<rparr>"

text \<open>\<open>page_loop left\<close> may read \<open>left\<close> more pages; \<open>acc\<close> is what the body carries from page to page.\<close>

primrec page_loop ::
    "nat \<Rightarrow> (page_request \<Rightarrow> ('s, jsval) eff) \<Rightarrow> (page_report \<Rightarrow> ('s, unit) eff) \<Rightarrow>
     (source_page \<Rightarrow> 'a \<Rightarrow> ('s, 'a) eff) \<Rightarrow> nat \<Rightarrow> string option \<Rightarrow> string set \<Rightarrow> nat \<Rightarrow> 'a \<Rightarrow> ('s, 'a) eff" where
  "page_loop 0 readPage onPage body maxPages cursor visited pageNumber acc =
     throw (permanentError ''Paged source exceeded the configured maximum pages''
       ''PAGED_SOURCE_MAX_PAGES_EXCEEDED'' (JObj [(''maxPages'', jint (int maxPages))]))"
| "page_loop (Suc left) readPage onPage body maxPages cursor visited pageNumber acc =
     andThen (readPage \<lparr>rq_cursor = cursor, rq_pageNumber = pageNumber\<rparr>) (\<lambda>value.
     check (normalizePage value pageNumber) (\<lambda>response.
     check (cursor_guard response cursor visited pageNumber) (\<lambda>_.
     andThen (onPage (report_of response pageNumber)) (\<lambda>_.
     andThen (body (page_of response pageNumber cursor) acc) (\<lambda>acc'.
     if \<not> rp_hasMore response then ret acc'
     else page_loop left readPage onPage body maxPages (rp_nextCursor response)
            (set_option (rp_nextCursor response) \<union> visited) (pageNumber + 1) acc')))))"

definition page_reporter :: "'s paged_input \<Rightarrow> page_report \<Rightarrow> ('s, unit) eff" where
  "page_reporter inp = (case in_onPage inp of Some f \<Rightarrow> f | None \<Rightarrow> (\<lambda>_. ret ()))"

definition iteratePagedSourcePages ::
    "'s paged_input \<Rightarrow> (source_page \<Rightarrow> 'a \<Rightarrow> ('s, 'a) eff) \<Rightarrow> 'a \<Rightarrow> ('s, 'a) eff" where
  "iteratePagedSourcePages inp body acc =
     check (requireFunction (in_readPage inp) ''readPage'') (\<lambda>readPage.
     check (page_positiveInteger (nullish (in_maxPages inp) (jint DEFAULT_MAX_PAGES)) ''maxPages'') (\<lambda>maxPages.
     check (optionalCursor (in_initialCursor inp)) (\<lambda>cursor.
     page_loop maxPages readPage (page_reporter inp) body maxPages cursor (set_option cursor) 1 acc)))"

text \<open>The body of the loop in \<open>consumePagedSource\<close>.\<close>

definition count_page :: "(source_page \<Rightarrow> ('s, unit) eff) \<Rightarrow> source_page \<Rightarrow> paged_summary \<Rightarrow> ('s, paged_summary) eff" where
  "count_page consumePage page n = andThen (consumePage page) (\<lambda>_.
     ret \<lparr>ps_pagesProcessed = ps_pagesProcessed n + 1,
          ps_itemsProcessed = ps_itemsProcessed n + length (rp_items page)\<rparr>)"

definition consumePagedSource :: "'s paged_input \<Rightarrow> ('s, paged_summary) eff" where
  "consumePagedSource inp =
     check (requireFunction (in_consumePage inp) ''consumePage'') (\<lambda>consumePage.
     iteratePagedSourcePages inp (count_page consumePage) \<lparr>ps_pagesProcessed = 0, ps_itemsProcessed = 0\<rparr>)"

lemma consume_run:
  assumes "in_consumePage inp = Some consume" "in_readPage inp = Some read"
  shows "consumePagedSource inp =
     check (page_positiveInteger (nullish (in_maxPages inp) (jint DEFAULT_MAX_PAGES)) ''maxPages'') (\<lambda>maxPages.
     check (optionalCursor (in_initialCursor inp)) (\<lambda>cursor.
     page_loop maxPages read (page_reporter inp) (count_page consume) maxPages cursor (set_option cursor) 1
       \<lparr>ps_pagesProcessed = 0, ps_itemsProcessed = 0\<rparr>))"
  using assms by (simp add: consumePagedSource_def iteratePagedSourcePages_def requireFunction_def)

section \<open>Guarantees\<close>

subsection \<open>Watching a run\<close>

text \<open>
  A watched run keeps the requests it made and the pages whose consumption returned. Watching does
  not change what a run does.
\<close>

record 's watched =
  wt_state :: 's
  wt_asked :: "page_request list"
  wt_consumed :: "source_page list"

definition on_state :: "('s, 'a) eff \<Rightarrow> ('s watched, 'a) eff" where
  "on_state m w = (fst (m (wt_state w)), w\<lparr>wt_state := snd (m (wt_state w))\<rparr>)"

definition ask :: "(page_request \<Rightarrow> ('s, jsval) eff) \<Rightarrow> page_request \<Rightarrow> ('s watched, jsval) eff" where
  "ask read q = andThen (modify (\<lambda>w. w\<lparr>wt_asked := wt_asked w @ [q]\<rparr>)) (\<lambda>_. on_state (read q))"

definition take_in :: "(source_page \<Rightarrow> ('s, unit) eff) \<Rightarrow> source_page \<Rightarrow> ('s watched, unit) eff" where
  "take_in consume page = andThen (on_state (consume page)) (\<lambda>_.
     modify (\<lambda>w. w\<lparr>wt_consumed := wt_consumed w @ [page]\<rparr>))"

definition watch :: "'s paged_input \<Rightarrow> 's watched paged_input" where
  "watch inp = \<lparr>in_readPage = map_option ask (in_readPage inp),
     in_consumePage = map_option take_in (in_consumePage inp),
     in_onPage = map_option (\<lambda>f r. on_state (f r)) (in_onPage inp),
     in_maxPages = in_maxPages inp, in_initialCursor = in_initialCursor inp\<rparr>"

definition unwatched :: "('s watched, 'a) eff \<Rightarrow> ('s, 'a) eff \<Rightarrow> bool" where
  "unwatched m n \<longleftrightarrow> (\<forall>w. n (wt_state w) = (fst (m w), wt_state (snd (m w))))"

lemma unwatched_andThen:
  "unwatched m n \<Longrightarrow> (\<And>x. unwatched (f x) (g x)) \<Longrightarrow> unwatched (andThen m f) (andThen n g)"
  by (auto simp: unwatched_def andThen_run split: prod.split sum.split)

lemma unwatched_check: "(\<And>x. unwatched (f x) (g x)) \<Longrightarrow> unwatched (check r f) (check r g)"
  by (cases r) (auto simp: unwatched_def throw_def)

lemma unwatched_if: "(c \<Longrightarrow> unwatched m n) \<Longrightarrow> (\<not> c \<Longrightarrow> unwatched m' n') \<Longrightarrow>
    unwatched (if c then m else m') (if c then n else n')"
  by simp

lemma unwatched_basic: "unwatched (ret x) (ret x)" "unwatched (throw e) (throw e)" "unwatched (on_state m) m"
  "unwatched (ask read q) (read q)" "unwatched (take_in consume page) (consume page)"
  by (auto simp: unwatched_def ret_def throw_def on_state_def ask_def take_in_def eff_simps prod_eq_iff
      split: prod.split sum.split)

lemma unwatched_loop:
  assumes "\<And>q. unwatched (read q) (read' q)" "\<And>r. unwatched (report r) (report' r)"
    "\<And>p a. unwatched (body p a) (body' p a)"
  shows "unwatched (page_loop left read report body m c v n acc) (page_loop left read' report' body' m c v n acc)"
  by (induction left arbitrary: c v n acc)
    (auto intro!: assms unwatched_andThen unwatched_check unwatched_if unwatched_basic(1,2))

lemma watch_fields [simp]:
  "in_readPage (watch inp) = map_option ask (in_readPage inp)"
  "in_consumePage (watch inp) = map_option take_in (in_consumePage inp)"
  "in_maxPages (watch inp) = in_maxPages inp" "in_initialCursor (watch inp) = in_initialCursor inp"
  by (simp_all add: watch_def)

lemma unwatched_reporter: "unwatched (page_reporter (watch inp) r) (page_reporter inp r)"
  by (cases "in_onPage inp") (simp_all add: page_reporter_def watch_def unwatched_basic)

lemma unwatched_consume: "unwatched (consumePagedSource (watch inp)) (consumePagedSource inp)"
proof (cases "in_consumePage inp")
  case (Some consume)
  show ?thesis
  proof (cases "in_readPage inp")
    case (Some read)
    have body: "unwatched (count_page (take_in consume) p a) (count_page consume p a)" for p a
      unfolding count_page_def by (rule unwatched_andThen unwatched_basic)+
    show ?thesis
      using Some \<open>in_consumePage inp = Some consume\<close>
      by (auto simp: consume_run intro!: unwatched_check unwatched_loop unwatched_basic unwatched_reporter body)
  qed (simp add: Some consumePagedSource_def iteratePagedSourcePages_def requireFunction_def unwatched_basic)
qed (simp add: consumePagedSource_def requireFunction_def unwatched_basic)

subsection \<open>The requests and the pages of a run\<close>

text \<open>
  After some pages: the requests are numbered, their cursors are distinct, each page answers its
  request, announces a next one and carries its cursor, and all of them but possibly the last were
  consumed.
\<close>

definition asked_well :: "page_request list \<Rightarrow> bool" where
  "asked_well qs \<longleftrightarrow> distinct (map rq_cursor qs) \<and> map rq_pageNumber qs = [1..<Suc (length qs)]"

definition pages_of :: "page_request list \<Rightarrow> source_page list \<Rightarrow> bool" where
  "pages_of qs ps \<longleftrightarrow> length ps \<le> length qs
     \<and> (\<forall>i < length ps. pg_cursor (ps ! i) = rq_cursor (qs ! i) \<and> pg_pageNumber (ps ! i) = Suc i)
     \<and> (\<forall>i. Suc i < length qs \<longrightarrow> i < length ps \<and> rp_hasMore (ps ! i)
          \<and> rq_cursor (qs ! Suc i) = rp_nextCursor (ps ! i))"

definition tally :: "source_page list \<Rightarrow> paged_summary" where
  "tally ps = \<lparr>ps_pagesProcessed = length ps, ps_itemsProcessed = length (concat (map rp_items ps))\<rparr>"

definition run_log :: "nat \<Rightarrow> 's watched \<Rightarrow> bool" where
  "run_log m w \<longleftrightarrow> asked_well (wt_asked w) \<and> length (wt_asked w) \<le> m \<and> pages_of (wt_asked w) (wt_consumed w)"

definition logged :: "page_request list \<Rightarrow> source_page list \<Rightarrow> 's watched \<Rightarrow> bool" where
  "logged qs ps w \<longleftrightarrow> wt_asked w = qs \<and> wt_consumed w = ps"

lemma ask_triple: "triple (logged qs ps) (ask read q) (\<lambda>_. logged (qs @ [q]) ps) (logged (qs @ [q]) ps)"
  by (rule tripleI) (auto simp: ask_def eff_simps on_state_def logged_def)

lemma on_state_triple: "triple (logged qs ps) (on_state m) (\<lambda>_. logged qs ps) (logged qs ps)"
  by (rule tripleI) (auto simp: on_state_def logged_def)

lemma take_in_triple: "triple (logged qs ps) (take_in consume p) (\<lambda>_. logged qs (ps @ [p])) (logged qs ps)"
  by (rule tripleI) (auto simp: take_in_def eff_simps on_state_def logged_def split: sum.splits prod.splits)

lemma pages_of_ask:
  assumes "pages_of qs ps" "length ps = length qs" "qs \<noteq> [] \<Longrightarrow> rp_hasMore (last ps) \<and> rq_cursor q = rp_nextCursor (last ps)"
  shows "pages_of (qs @ [q]) ps"
  unfolding pages_of_def
proof (intro conjI allI impI)
  show "length ps \<le> length (qs @ [q])" using assms(2) by simp
  show "pg_cursor (ps ! i) = rq_cursor ((qs @ [q]) ! i)" "pg_pageNumber (ps ! i) = Suc i" if "i < length ps" for i
    using assms(1,2) that by (simp_all add: pages_of_def nth_append)
  fix i assume i: "Suc i < length (qs @ [q])"
  then show "i < length ps" using assms(2) by simp
  have "rp_hasMore (ps ! i) \<and> rq_cursor ((qs @ [q]) ! Suc i) = rp_nextCursor (ps ! i)"
  proof (cases "Suc i < length qs")
    case True
    then show ?thesis using assms(1) by (simp add: pages_of_def nth_append)
  next
    case False
    then have "Suc i = length qs" "qs \<noteq> []" using i by auto
    moreover from this have "ps ! i = last ps"
      using assms(2) by (metis diff_Suc_1 last_conv_nth length_0_conv)
    ultimately show ?thesis using assms(3) by (simp add: nth_append)
  qed
  then show "rp_hasMore (ps ! i)" "rq_cursor ((qs @ [q]) ! Suc i) = rp_nextCursor (ps ! i)" by blast+
qed

lemma pages_of_take:
  assumes "pages_of (qs @ [q]) ps" "length ps = length qs" "pg_cursor p = rq_cursor q" "pg_pageNumber p = Suc (length qs)"
  shows "pages_of (qs @ [q]) (ps @ [p])"
  unfolding pages_of_def
proof (intro conjI allI impI)
  show "length (ps @ [p]) \<le> length (qs @ [q])" using assms(2) by simp
  show "pg_cursor ((ps @ [p]) ! i) = rq_cursor ((qs @ [q]) ! i)" "pg_pageNumber ((ps @ [p]) ! i) = Suc i"
    if "i < length (ps @ [p])" for i
    using assms that by (auto simp: pages_of_def nth_append less_Suc_eq)
  fix i assume i: "Suc i < length (qs @ [q])"
  then have "i < length ps \<and> rp_hasMore (ps ! i) \<and> rq_cursor ((qs @ [q]) ! Suc i) = rp_nextCursor (ps ! i)"
    using assms(1) unfolding pages_of_def by blast
  then show "i < length (ps @ [p])" "rp_hasMore ((ps @ [p]) ! i)"
    "rq_cursor ((qs @ [q]) ! Suc i) = rp_nextCursor ((ps @ [p]) ! i)"
    by (simp_all add: nth_append)
qed


lemma tally_snoc: "\<lparr>ps_pagesProcessed = ps_pagesProcessed (tally ps) + 1,
    ps_itemsProcessed = ps_itemsProcessed (tally ps) + length (rp_items p)\<rparr> = tally (ps @ [p])"
  by (simp add: tally_def)

text \<open>What a run leaves in the log, whether it returns or throws.\<close>

definition finished :: "nat \<Rightarrow> paged_summary \<Rightarrow> 's watched \<Rightarrow> bool" where
  "finished m n w \<longleftrightarrow> run_log m w \<and> n = tally (wt_consumed w)
     \<and> length (wt_consumed w) = length (wt_asked w) \<and> wt_consumed w \<noteq> []
     \<and> \<not> rp_hasMore (last (wt_consumed w))"

lemma loop_log:
  assumes report: "\<And>r qs ps. triple (logged qs ps) (report r) (\<lambda>_. logged qs ps) (logged qs ps)"
  shows "asked_well qs \<Longrightarrow> pages_of qs ps \<Longrightarrow> length ps = length qs \<Longrightarrow> length qs + left \<le> m \<Longrightarrow>
    cursor \<notin> rq_cursor ` set qs \<Longrightarrow> (\<forall>c. Some c \<in> insert cursor (rq_cursor ` set qs) \<longrightarrow> c \<in> visited) \<Longrightarrow>
    (qs \<noteq> [] \<Longrightarrow> rp_hasMore (last ps) \<and> cursor = rp_nextCursor (last ps)) \<Longrightarrow>
    triple (logged qs ps) (page_loop left (ask read) report (count_page (take_in consume)) mx cursor visited
      (Suc (length qs)) (tally ps)) (finished m) (run_log m)"
proof (induction left arbitrary: qs ps cursor visited)
  case 0
  then show ?case by (auto intro!: triple_throw simp: logged_def run_log_def)
next
  case (Suc left)
  let ?q = "\<lparr>rq_cursor = cursor, rq_pageNumber = Suc (length qs)\<rparr>"
  have well: "asked_well (qs @ [?q])" using Suc.prems(1,5) by (auto simp: asked_well_def)
  have pages: "pages_of (qs @ [?q]) ps" using Suc.prems(2,3,7) by (intro pages_of_ask) auto
  have log: "logged (qs @ [?q]) ps w \<Longrightarrow> run_log m w" for w :: "'a watched"
    using well pages Suc.prems(4) by (auto simp: logged_def run_log_def)
  show ?case
    unfolding page_loop.simps
  proof (rule triple_andThen, rule triple_weaken [OF ask_triple], assumption, assumption, erule log)
    fix v
    show "triple (logged (qs @ [?q]) ps) (check (normalizePage v (Suc (length qs))) (\<lambda>response.
       check (cursor_guard response cursor visited (Suc (length qs))) (\<lambda>_.
       andThen (report (report_of response (Suc (length qs)))) (\<lambda>_.
       andThen (count_page (take_in consume) (page_of response (Suc (length qs)) cursor) (tally ps)) (\<lambda>acc'.
       if \<not> rp_hasMore response then ret acc'
       else page_loop left (ask read) report (count_page (take_in consume)) mx (rp_nextCursor response)
              (set_option (rp_nextCursor response) \<union> visited) (Suc (length qs) + 1) acc'))))) (finished m) (run_log m)"
    proof (rule triple_check, erule log, rule triple_check, erule log)
      fix response u
      assume guard: "cursor_guard response cursor visited (Suc (length qs)) = Inr u"
      let ?p = "page_of response (Suc (length qs)) cursor"
      have pages': "pages_of (qs @ [?q]) (ps @ [?p])"
        using pages Suc.prems(3) by (rule pages_of_take) (simp_all add: page_of_def)
      have log': "logged (qs @ [?q]) (ps @ [?p]) w \<Longrightarrow> run_log m w" for w :: "'a watched"
        using well pages' Suc.prems(4) by (auto simp: logged_def run_log_def)
      have count: "triple (logged (qs @ [?q]) ps) (count_page (take_in consume) ?p (tally ps))
          (\<lambda>n w. n = tally (ps @ [?p]) \<and> logged (qs @ [?q]) (ps @ [?p]) w) (run_log m)"
        unfolding count_page_def tally_snoc
        by (rule triple_andThen [OF triple_weaken [OF take_in_triple]], assumption, assumption, erule log)
          (rule triple_ret, simp)
      have rest: "triple (\<lambda>w. n = tally (ps @ [?p]) \<and> logged (qs @ [?q]) (ps @ [?p]) w)
          (if \<not> rp_hasMore response then ret n
           else page_loop left (ask read) report (count_page (take_in consume)) mx (rp_nextCursor response)
              (set_option (rp_nextCursor response) \<union> visited) (Suc (length qs) + 1) n) (finished m) (run_log m)" for n
      proof (cases "rp_hasMore response")
        case False
        have "finished m n w" if "n = tally (ps @ [?p])" "logged (qs @ [?q]) (ps @ [?p]) w" for w :: "'a watched"
          using that log' Suc.prems(3) False by (auto simp: finished_def logged_def page_of_def)
        then show ?thesis using False by (auto intro!: triple_ret)
      next
        case True
        then obtain c where c: "rp_nextCursor response = Some c" "Some c \<noteq> cursor" "c \<notin> visited"
          using guard by (auto simp: cursor_guard_def split: option.splits if_splits)
        have "triple (logged (qs @ [?q]) (ps @ [?p]))
            (page_loop left (ask read) report (count_page (take_in consume)) mx (Some c) (insert c visited)
              (Suc (length (qs @ [?q]))) (tally (ps @ [?p]))) (finished m) (run_log m)"
          using well pages' Suc.prems(3-6) c True by (intro Suc.IH) (auto simp: page_of_def)
        then show ?thesis
          using True c(1) by (cases "n = tally (ps @ [?p])") (auto simp: triple_def)
      qed
      show "triple (logged (qs @ [?q]) ps)
         (andThen (report (report_of response (Suc (length qs)))) (\<lambda>_.
            andThen (count_page (take_in consume) ?p (tally ps)) (\<lambda>acc'.
            if \<not> rp_hasMore response then ret acc'
            else page_loop left (ask read) report (count_page (take_in consume)) mx (rp_nextCursor response)
              (set_option (rp_nextCursor response) \<union> visited) (Suc (length qs) + 1) acc'))) (finished m) (run_log m)"
        by (rule triple_andThen [OF triple_weaken [OF report]], assumption, assumption, erule log)
          (rule triple_andThen [OF count rest])
    qed
  qed
qed


definition page_limit :: "'s paged_input \<Rightarrow> nat" where
  "page_limit inp = (case page_positiveInteger (nullish (in_maxPages inp) (jint DEFAULT_MAX_PAGES)) ''maxPages'' of
     Inr m \<Rightarrow> m | Inl _ \<Rightarrow> 0)"

definition fresh_watch :: "'s \<Rightarrow> 's watched" where
  "fresh_watch s = \<lparr>wt_state = s, wt_asked = [], wt_consumed = []\<rparr>"

lemma reporter_triple: "triple (logged qs ps) (page_reporter (watch inp) r) (\<lambda>_. logged qs ps) (logged qs ps)"
  by (cases "in_onPage inp") (simp_all add: page_reporter_def watch_def on_state_triple triple_ret)

lemma run_log_empty: "logged [] [] w \<Longrightarrow> run_log m w"
  by (auto simp: logged_def run_log_def asked_well_def pages_of_def)

lemma consume_log:
  "triple (logged [] []) (consumePagedSource (watch inp)) (finished (page_limit inp)) (run_log (page_limit inp))"
proof (cases "in_consumePage inp = None \<or> in_readPage inp = None")
  case True
  then have "\<exists>e. consumePagedSource (watch inp) = throw e"
    by (cases "in_consumePage inp") (auto simp: consumePagedSource_def iteratePagedSourcePages_def requireFunction_def)
  then show ?thesis by (auto intro!: triple_throw run_log_empty)
next
  case False
  then obtain consume read where fns: "in_consumePage inp = Some consume" "in_readPage inp = Some read" by auto
  then have run: "consumePagedSource (watch inp)
    = check (page_positiveInteger (nullish (in_maxPages inp) (jint DEFAULT_MAX_PAGES)) ''maxPages'') (\<lambda>maxPages.
      check (optionalCursor (in_initialCursor inp)) (\<lambda>cursor.
      page_loop maxPages (ask read) (page_reporter (watch inp)) (count_page (take_in consume)) maxPages cursor
        (set_option cursor) 1 \<lparr>ps_pagesProcessed = 0, ps_itemsProcessed = 0\<rparr>))"
    by (simp add: consume_run [of "watch inp" "take_in consume" "ask read"])
  show ?thesis
    unfolding run
  proof (intro triple_check run_log_empty)
    fix m cursor
    assume m: "page_positiveInteger (nullish (in_maxPages inp) (jint DEFAULT_MAX_PAGES)) ''maxPages'' = Inr m"
    have limit: "page_limit inp = m" unfolding page_limit_def m by simp
    have "triple (logged [] []) (page_loop m (ask read) (page_reporter (watch inp)) (count_page (take_in consume)) m
        cursor (set_option cursor) (Suc (length ([] :: page_request list))) (tally [])) (finished m) (run_log m)"
      by (rule loop_log [OF reporter_triple]) (auto simp: asked_well_def pages_of_def)
    then show "triple (logged [] []) (page_loop m (ask read) (page_reporter (watch inp)) (count_page (take_in consume)) m
        cursor (set_option cursor) 1 \<lparr>ps_pagesProcessed = 0, ps_itemsProcessed = 0\<rparr>)
        (finished (page_limit inp)) (run_log (page_limit inp))"
      by (simp add: limit tally_def)
  qed
qed

subsection \<open>A source that answers\<close>

text \<open>
  A provider serves \<open>chunks\<close> when it answers the cursor of each chunk with the items of the chunk and
  the cursor of the next one.
\<close>

definition chunk_cursor :: "string option \<Rightarrow> string list \<Rightarrow> nat \<Rightarrow> string option" where
  "chunk_cursor start names i = (if i = 0 then start else Some (names ! i))"

definition chunk_value :: "jsval list list \<Rightarrow> string list \<Rightarrow> nat \<Rightarrow> jsval" where
  "chunk_value chunks names i = JObj [(''items'', JArr (chunks ! i)), (''hasMore'', JBool (Suc i < length chunks)),
     (''nextCursor'', if Suc i < length chunks then JStr (names ! Suc i) else JNull)]"

definition serves :: "(page_request \<Rightarrow> ('s, jsval) eff) \<Rightarrow> string option \<Rightarrow> string list \<Rightarrow> jsval list list \<Rightarrow> bool" where
  "serves read start names chunks \<longleftrightarrow> length names = length chunks
     \<and> distinct names \<and> (\<forall>c \<in> set names. trim c = c \<and> c \<noteq> []) \<and> start \<notin> Some ` set (tl names)
     \<and> (\<forall>i < length chunks. \<forall>n s. \<exists>t.
          read \<lparr>rq_cursor = chunk_cursor start names i, rq_pageNumber = n\<rparr> s = (Inr (chunk_value chunks names i), t))"

definition always_returns :: "('s, 'a) eff \<Rightarrow> bool" where
  "always_returns m \<longleftrightarrow> (\<forall>s. \<exists>x t. m s = (Inr x, t))"

lemma chunk_page:
  assumes "serves read start names chunks" "i < length chunks"
  shows "normalizePage (chunk_value chunks names i) n = Inr \<lparr>rp_items = chunks ! i, rp_hasMore = (Suc i < length chunks),
    rp_nextCursor = (if Suc i < length chunks then Some (names ! Suc i) else None), rp_metadata = JObj []\<rparr>"
  using assms
  by (auto simp: serves_def normalizePage_def chunk_value_def is_object_def optionalCursor_def is_absent_def
      freezeMetadata_def)

lemma serve_loop:
  assumes serve: "serves read start names chunks"
    and consume: "\<And>p. always_returns (consume p)" and report: "\<And>r. always_returns (report r)"
    and still: "\<And>r w. wt_consumed (snd (report r w)) = wt_consumed w"
  shows "i < length chunks \<Longrightarrow> visited \<inter> set (drop (Suc i) names) = {} \<Longrightarrow>
    (\<exists>w'. page_loop left (ask read) report (count_page (take_in consume)) m (chunk_cursor start names i) visited (Suc i) n w
       = ((if length chunks - i \<le> left
           then Inr \<lparr>ps_pagesProcessed = ps_pagesProcessed n + (length chunks - i),
                     ps_itemsProcessed = ps_itemsProcessed n + length (concat (drop i chunks))\<rparr>
           else Inl (permanentError ''Paged source exceeded the configured maximum pages''
             ''PAGED_SOURCE_MAX_PAGES_EXCEEDED'' (JObj [(''maxPages'', jint (int m))]))), w')
       \<and> map rp_items (wt_consumed w') = map rp_items (wt_consumed w) @ take left (drop i chunks))"
proof (induction left arbitrary: i visited n w)
  case 0
  then show ?case by (simp add: throw_def)
next
  case (Suc left)
  let ?c = "chunk_cursor start names i"
  let ?resp = "\<lparr>rp_items = chunks ! i, rp_hasMore = (Suc i < length chunks),
    rp_nextCursor = (if Suc i < length chunks then Some (names ! Suc i) else None), rp_metadata = JObj []\<rparr>"
  let ?p = "page_of ?resp (Suc i) ?c"
  let ?n = "\<lparr>ps_pagesProcessed = ps_pagesProcessed n + 1, ps_itemsProcessed = ps_itemsProcessed n + length (chunks ! i)\<rparr>"
  obtain t where t: "read \<lparr>rq_cursor = ?c, rq_pageNumber = Suc i\<rparr> (wt_state w) = (Inr (chunk_value chunks names i), t)"
    using serve Suc.prems(1) unfolding serves_def by meson
  obtain w1 where w1: "ask read \<lparr>rq_cursor = ?c, rq_pageNumber = Suc i\<rparr> w = (Inr (chunk_value chunks names i), w1)"
      "wt_consumed w1 = wt_consumed w"
    using t by (simp add: ask_def eff_simps on_state_def)
  obtain w2 where w2: "report (report_of ?resp (Suc i)) w1 = (Inr (), w2)" "wt_consumed w2 = wt_consumed w"
  proof -
    obtain x t where "report (report_of ?resp (Suc i)) w1 = (Inr x, t)"
      using report [of "report_of ?resp (Suc i)"] unfolding always_returns_def by blast
    then show thesis using that [of t] still [of "report_of ?resp (Suc i)" w1] w1(2) by simp
  qed
  obtain t3 where t3: "consume ?p (wt_state w2) = (Inr (), t3)"
    using consume [of ?p] unfolding always_returns_def by (metis (full_types) old.unit.exhaust)
  obtain w3 where w3: "count_page (take_in consume) ?p n w2 = (Inr ?n, w3)"
      "wt_consumed w3 = wt_consumed w @ [?p]"
    using t3 w2(2) by (simp add: count_page_def take_in_def eff_simps on_state_def page_of_def)
  have names: "length names = length chunks" "distinct names" "start \<notin> Some ` set (tl names)"
    using serve by (simp_all add: serves_def)
  have drop: "Suc i < length chunks \<Longrightarrow> drop (Suc i) names = names ! Suc i # drop (Suc (Suc i)) names"
    using names(1) by (simp add: Cons_nth_drop_Suc)
  have guard: "cursor_guard ?resp ?c visited (Suc i) = Inr ()"
  proof (cases "Suc i < length chunks")
    case True
    have "names ! Suc i \<notin> visited" using Suc.prems(2) drop [OF True] by auto
    moreover have "Some (names ! Suc i) \<noteq> ?c"
    proof (cases "i = 0")
      case True
      have "names ! Suc 0 \<in> set (tl names)"
        using \<open>Suc i < length chunks\<close> names(1) by (metis True One_nat_def length_tl less_diff_conv nth_mem nth_tl
            add.commute plus_1_eq_Suc)
      then show ?thesis using names(3) True by (auto simp: chunk_cursor_def)
    next
      case False
      then show ?thesis using True names(1,2) by (simp add: chunk_cursor_def nth_eq_iff_index_eq)
    qed
    ultimately show ?thesis using True by (simp add: cursor_guard_def)
  qed (simp add: cursor_guard_def)
  have step: "page_loop (Suc left) (ask read) report (count_page (take_in consume)) m ?c visited (Suc i) n w
     = (if \<not> Suc i < length chunks then ret ?n
        else page_loop left (ask read) report (count_page (take_in consume)) m (rp_nextCursor ?resp)
          (set_option (rp_nextCursor ?resp) \<union> visited) (Suc (Suc i)) ?n) w3"
    by (simp add: andThen_run w1(1) chunk_page [OF serve Suc.prems(1)] guard w2(1) w3(1))
  show ?case
  proof (cases "Suc i < length chunks")
    case False
    then have "length chunks - i = 1" "drop i chunks = [chunks ! i]"
      using Suc.prems(1) by (auto simp: Cons_nth_drop_Suc [symmetric])
    then show ?thesis using step False w3(2) by (simp add: ret_def page_of_def)
  next
    case True
    have "insert (names ! Suc i) visited \<inter> set (drop (Suc (Suc i)) names) = {}"
      using Suc.prems(2) drop [OF True] names(2) by (metis Int_insert_left distinct.simps(2) distinct_drop
          disjoint_insert(2) list.simps(15))
    from Suc.IH [OF True this, of ?n w3] obtain w' where w': "page_loop left (ask read) report (count_page (take_in consume)) m
          (chunk_cursor start names (Suc i)) (insert (names ! Suc i) visited) (Suc (Suc i)) ?n w3
       = ((if length chunks - Suc i \<le> left
           then Inr \<lparr>ps_pagesProcessed = ps_pagesProcessed ?n + (length chunks - Suc i),
                     ps_itemsProcessed = ps_itemsProcessed ?n + length (concat (drop (Suc i) chunks))\<rparr>
           else Inl (permanentError ''Paged source exceeded the configured maximum pages''
             ''PAGED_SOURCE_MAX_PAGES_EXCEEDED'' (JObj [(''maxPages'', jint (int m))]))), w')"
      "map rp_items (wt_consumed w') = map rp_items (wt_consumed w3) @ take left (drop (Suc i) chunks)"
      by blast
    have "drop i chunks = chunks ! i # drop (Suc i) chunks" using Suc.prems(1) by (simp add: Cons_nth_drop_Suc)
    moreover have "length chunks - i = Suc (length chunks - Suc i)" using True by simp
    ultimately show ?thesis using step True w' w3(2) by (simp add: chunk_cursor_def page_of_def)
  qed
qed

end
