(* ===== verification/Explicit_Null.thy ===== *)
theory Explicit_Null
  imports Table_Sync_Guarantees
begin

text \<open>
  The repository wrapper that clears cells (\<open>explicit-null-update-repository.js\<close>): a source row with
  a null in a selected field leaves the field out of a creation and writes an explicit null in an
  update. Between the plan and the write the null travels as a marker.

  The marker is a symbol of the module. It is represented by \<open>JNum (NFrac 0 0)\<close>, a decimal without
  decimals, which stands for no JavaScript number and is equal to itself only; a value that holds
  no marker is \<open>unmarked\<close>. The wrapped repository is the record of the table engine, so that the
  wrapper is a repository of the engine again.
\<close>

definition EXPLICIT_NULL :: jsval where
  "EXPLICIT_NULL = JNum (NFrac 0 0)"

subsection \<open>Validation\<close>

definition null_requireArray :: "jsval \<Rightarrow> string \<Rightarrow> jserror + jsval list" where
  "null_requireArray v f = (case v of JArr xs \<Rightarrow> Inr xs
     | _ \<Rightarrow> Inl (type_error (''Explicit-null update repository requires array '' @ f)))"

definition null_requireObject :: "jsval \<Rightarrow> string \<Rightarrow> jserror + (string \<times> jsval) list" where
  "null_requireObject v f = (case v of JObj kvs \<Rightarrow> Inr kvs
     | _ \<Rightarrow> Inl (type_error (''Explicit-null update repository requires object '' @ f)))"

definition null_requireText :: "jsval \<Rightarrow> string \<Rightarrow> jserror + string" where
  "null_requireText v f = (case v of
     JStr s \<Rightarrow> if trim s = [] then Inl (type_error (''Explicit-null update repository requires '' @ f)) else Inr (trim s)
   | _ \<Rightarrow> Inl (type_error (''Explicit-null update repository requires '' @ f)))"

definition normalizeFieldNames :: "jsval \<Rightarrow> jserror + string list" where
  "normalizeFieldNames v =
     bind_res (null_requireArray v ''fieldNames'') (\<lambda>xs.
     bind_res (map_res (\<lambda>x. null_requireText x ''fieldName'') xs) (\<lambda>names.
     if length names = 0 then Inl (type_error ''Explicit-null update repository requires at least one fieldName'')
     else if card (set names) \<noteq> length names then Inl (type_error ''Explicit-null update fieldNames must be unique'')
     else Inr names))"

definition requireRepositoryMethod :: "'m option \<Rightarrow> string \<Rightarrow> jserror + 'm" where
  "requireRepositoryMethod m name = (case m of Some f \<Rightarrow> Inr f
     | None \<Rightarrow> Inl (type_error (''Explicit-null update repository requires repository.'' @ name @ ''()'')))"

subsection \<open>Rows\<close>

definition stripExplicitNullFields :: "jsval \<Rightarrow> jserror + jsval" where
  "stripExplicitNullFields row = bind_res (null_requireObject row ''row'')
     (\<lambda>kvs. Inr (JObj (filter (\<lambda>(k, v). v \<noteq> EXPLICIT_NULL) kvs)))"

definition materializeExplicitNullFields :: "jsval \<Rightarrow> jserror + jsval" where
  "materializeExplicitNullFields row = bind_res (null_requireObject row ''fields'')
     (\<lambda>kvs. Inr (JObj (map (\<lambda>(k, v). (k, if v = EXPLICIT_NULL then JNull else v)) kvs)))"

text \<open>\<open>{ ...value }\<close>: the own enumerable properties of a value.\<close>

definition own_entries :: "jsval \<Rightarrow> (string \<times> jsval) list" where
  "own_entries v = (case v of
       JObj kvs \<Rightarrow> kvs
     | JArr xs \<Rightarrow> zip (map nat_text [0..<length xs]) xs
     | JStr s \<Rightarrow> zip (map nat_text [0..<length s]) (map (\<lambda>c. JStr [c]) s)
     | _ \<Rightarrow> [])"

fun mark_nulls :: "string list \<Rightarrow> (string \<times> jsval) list \<Rightarrow> (string \<times> jsval) list \<Rightarrow> (string \<times> jsval) list" where
  "mark_nulls [] source out = out"
| "mark_nulls (f # fs) source out =
     mark_nulls fs source (if map_of source f = Some JNull then map_set f EXPLICIT_NULL out else out)"

definition mark_row :: "string list \<Rightarrow> jsval \<times> jsval \<Rightarrow> jserror + jsval" where
  "mark_row names sp =
     bind_res (null_requireObject (fst sp) ''source row'') (\<lambda>source.
     bind_res (null_requireObject (snd sp) ''prepared row'') (\<lambda>prepared.
     Inr (JObj (mark_nulls names source prepared))))"

fun mark_missing :: "string list \<Rightarrow> string list \<Rightarrow> (string \<times> jsval) list \<Rightarrow> (string \<times> jsval) list" where
  "mark_missing [] incoming out = out"
| "mark_missing (f # fs) incoming out =
     mark_missing fs incoming (if f \<in> set incoming \<and> map_of out f = None then map_set f EXPLICIT_NULL out else out)"

definition mark_existing :: "string list \<Rightarrow> string list \<Rightarrow> jsval \<Rightarrow> jserror + jsval" where
  "mark_existing names incoming record =
     bind_res (null_requireObject (nullish (jget record ''fields'') (JObj [])) ''record.fields'') (\<lambda>kvs.
     Inr (JObj (map_set ''fields'' (JObj (mark_missing names incoming kvs)) (own_entries record))))"

definition plain_record :: "jsval \<Rightarrow> jserror + jsval" where
  "plain_record record =
     bind_res (null_requireText (nullish (jget record ''recordId'') (jget record ''record_id'')) ''recordId'') (\<lambda>i.
     bind_res (null_requireObject (nullish (jget record ''fields'') (JObj [])) ''record.fields'') (\<lambda>kvs.
     Inr (JObj [(''recordId'', JStr i), (''fields'', JObj kvs)])))"

definition cleared_update :: "jsval \<Rightarrow> jserror + jsval" where
  "cleared_update record = bind_res (materializeExplicitNullFields (jget record ''fields''))
     (\<lambda>kvs. Inr (JObj (map_set ''fields'' kvs (own_entries record))))"

subsection \<open>The wrapper\<close>

definition null_prepareRows :: "string list \<Rightarrow> 'r repository \<Rightarrow> string \<Rightarrow> jsval list \<Rightarrow> string \<Rightarrow> ('r, jsval list) eff" where
  "null_prepareRows names repo tableId rows context =
     andThen (prepareRows repo tableId rows context) (\<lambda>prepared.
     if length prepared \<noteq> length rows
     then throw (plain_error ''Explicit-null update repository requires one prepared row per source row'')
     else check (map_res (mark_row names) (zip rows prepared)) ret)"

definition null_prepareExistingRecords ::
    "string list \<Rightarrow> 'r repository \<Rightarrow> string \<Rightarrow> jsval list \<Rightarrow> string list \<Rightarrow> ('r, jsval) eff" where
  "null_prepareExistingRecords names repo tableId records incoming =
     andThen (case prepareExistingRecords repo of
         Some prepare \<Rightarrow> prepare tableId records incoming
       | None \<Rightarrow> check (map_res plain_record records) (\<lambda>rs. ret (JArr rs))) (\<lambda>normalized.
     check (null_requireArray normalized ''normalized records'') (\<lambda>rs.
     check (map_res (mark_existing names incoming) rs) (\<lambda>marked. ret (JArr marked))))"

definition null_createMany :: "'r repository \<Rightarrow> string \<Rightarrow> jsval list \<Rightarrow> ('r, jsval) eff" where
  "null_createMany repo tableId rows = check (map_res stripExplicitNullFields rows) (createMany repo tableId)"

definition null_updateMany :: "'r repository \<Rightarrow> string \<Rightarrow> jsval list \<Rightarrow> ('r, jsval) eff" where
  "null_updateMany repo tableId records = check (map_res cleared_update records) (updateMany repo tableId)"

definition ExplicitNullUpdateRepository :: "string list \<Rightarrow> 'r repository \<Rightarrow> 'r repository" where
  "ExplicitNullUpdateRepository names repo =
     \<lparr>prepareRows = null_prepareRows names repo,
      listByFieldValues = Some (\<lambda>t f ks.
        check (requireRepositoryMethod (listByFieldValues repo) ''listByFieldValues'') (\<lambda>read. read t f ks)),
      listAll = Some (\<lambda>t. check (requireRepositoryMethod (listAll repo) ''listAll'') (\<lambda>read. read t)),
      prepareExistingRecords = Some (null_prepareExistingRecords names repo),
      createMany = null_createMany repo,
      updateMany = null_updateMany repo\<rparr>"

definition createExplicitNullUpdateRepository :: "'r repository \<Rightarrow> jsval \<Rightarrow> jserror + 'r repository" where
  "createExplicitNullUpdateRepository repo fieldNames =
     bind_res (normalizeFieldNames fieldNames) (\<lambda>names. Inr (ExplicitNullUpdateRepository names repo))"


section \<open>Guarantees\<close>

subsection \<open>Marked rows\<close>

definition unmarked :: "jsval \<Rightarrow> bool" where
  "unmarked v \<longleftrightarrow> (\<forall>(k, x) \<in> set (own_entries v). x \<noteq> EXPLICIT_NULL)"

definition cleared :: "string list \<Rightarrow> jsval \<Rightarrow> string \<Rightarrow> bool" where
  "cleared names source f \<longleftrightarrow> f \<in> set names \<and> jget source f = JNull"

lemma mark_nulls_of:
  "map_of (mark_nulls names source out) f
     = (if f \<in> set names \<and> map_of source f = Some JNull then Some EXPLICIT_NULL else map_of out f)"
  by (induction names source out rule: mark_nulls.induct) (auto simp: map_set_of)

lemma mark_nulls_distinct: "distinct (map fst out) \<Longrightarrow> distinct (map fst (mark_nulls names source out))"
  by (induction names source out rule: mark_nulls.induct) (auto simp: map_set_distinct)

lemma mark_missing_of:
  "map_of (mark_missing names incoming out) f
     = (if f \<in> set names \<and> f \<in> set incoming \<and> map_of out f = None then Some EXPLICIT_NULL else map_of out f)"
  by (induction names incoming out rule: mark_missing.induct) (auto simp: map_set_of)

text \<open>The row a creation and an update write.\<close>

definition created_row :: "jsval \<Rightarrow> jsval" where
  "created_row row = JObj (filter (\<lambda>(k, v). v \<noteq> EXPLICIT_NULL) (own_entries row))"

definition updated_row :: "jsval \<Rightarrow> jsval" where
  "updated_row row = JObj (map (\<lambda>(k, v). (k, if v = EXPLICIT_NULL then JNull else v)) (own_entries row))"

lemma strip_object: "is_object row \<Longrightarrow> stripExplicitNullFields row = Inr (created_row row)"
  by (cases row) (simp_all add: is_object_def stripExplicitNullFields_def null_requireObject_def created_row_def own_entries_def)

lemma materialize_object: "is_object row \<Longrightarrow> materializeExplicitNullFields row = Inr (updated_row row)"
  by (cases row)
    (simp_all add: is_object_def materializeExplicitNullFields_def null_requireObject_def updated_row_def own_entries_def)

lemma cleared_update_row: "is_object row \<Longrightarrow> cleared_update (update_row i row) = Inr (update_row i (updated_row row))"
  by (simp add: cleared_update_def materialize_object update_row_def own_entries_def)

lemma map_of_unmarked: "map_of (map (\<lambda>(k, v). (k, if v = EXPLICIT_NULL then JNull else v)) kvs) f
    = map_option (\<lambda>v. if v = EXPLICIT_NULL then JNull else v) (map_of kvs f)"
  by (induction kvs) auto

lemma map_of_stripped: "distinct (map fst kvs) \<Longrightarrow> map_of (filter (\<lambda>(k, v). v \<noteq> EXPLICIT_NULL) kvs) f
    = (if map_of kvs f = Some EXPLICIT_NULL then None else map_of kvs f)"
proof (induction kvs)
  case (Cons p kvs)
  have "map_of kvs (fst p) = None" using Cons.prems by (simp add: map_of_eq_None_iff)
  then show ?case using Cons by (cases p) auto
qed simp

lemma tidy_entries: "tidy (JObj kvs) \<Longrightarrow> distinct (map fst kvs)"
  by simp

text \<open>A marked row, read through both writes.\<close>

lemma mark_row_writes:
  assumes "mark_row names (source, prepared) = Inr row" "tidy prepared" "unmarked prepared"
  shows "is_object row"
    and "jget (created_row row) f = (if cleared names source f then JUndef else jget prepared f)"
    and "jget (updated_row row) f = (if cleared names source f then JNull else jget prepared f)"
proof -
  obtain skvs pkvs where objs: "source = JObj skvs" "prepared = JObj pkvs"
    and row: "row = JObj (mark_nulls names skvs pkvs)"
    using assms(1) by (auto simp: mark_row_def bind_res_Inr_iff null_requireObject_def split: jsval.splits)
  have d: "distinct (map fst (mark_nulls names skvs pkvs))"
    using assms(2) objs by (intro mark_nulls_distinct) simp
  have c: "cleared names source f \<longleftrightarrow> f \<in> set names \<and> map_of skvs f = Some JNull"
    by (auto simp: cleared_def objs split: option.splits)
  have u: "map_of pkvs f \<noteq> Some EXPLICIT_NULL"
    using assms(3) by (auto simp: unmarked_def own_entries_def objs dest!: map_of_SomeD)
  show "is_object row" by (simp add: row is_object_def)
  show "jget (created_row row) f = (if cleared names source f then JUndef else jget prepared f)"
    using u by (auto simp: row created_row_def own_entries_def map_of_stripped [OF d] mark_nulls_of c [unfolded objs] objs)
  show "jget (updated_row row) f = (if cleared names source f then JNull else jget prepared f)"
    using u by (auto simp: row updated_row_def own_entries_def map_of_unmarked mark_nulls_of c [unfolded objs] objs split: option.splits)
qed

subsection \<open>Plans of the wrapper\<close>

text \<open>Where the rows of a plan come from, for any repository.\<close>

lemma plan_from_prepared:
  assumes "planByKey le pol R input w = (Inr plan, w')"
  obtains (empty) "pl_createRows plan = []" "pl_updateRows plan = []"
  | (prepared) rows unique dups keyField prepared r
      where "jget input ''rows'' = JArr rows" "deduplicateRowsByKey (JArr rows) (JStr keyField) = Inr (unique, dups)"
        "eng_requireText (jget input ''keyField'') ''keyField'' = Inr keyField"
        "prepareRows R (pl_tableId plan) unique keyField (sy_repo w) = (Inr prepared, r)"
        "set (pl_createRows plan) \<subseteq> set prepared"
        "\<forall>u \<in> set (pl_updateRows plan). \<exists>i. \<exists>row \<in> set prepared. u = update_row i row"
proof -
  obtain t keyField rows unique dups where start: "requireRepository R = Inr R"
      "eng_requireText (jget input ''tableId'') ''tableId'' = Inr t"
      "eng_requireText (jget input ''keyField'') ''keyField'' = Inr keyField"
      "jget input ''rows'' = JArr rows" "deduplicateRowsByKey (JArr rows) (JStr keyField) = Inr (unique, dups)"
    using assms
    by (auto simp: planByKey_def eff_simps requireRepository_def eng_requireArray_def split: sum.splits jsval.splits if_splits)
  show thesis
  proof (cases "unique = []")
    case True
    have "pl_createRows plan = []" "pl_updateRows plan = []"
      using assms start True
      by (auto simp: planByKey_def eff_simps eng_requireArray_def createPlan_def empty_plan_def)
    then show thesis by (rule empty)
  next
    case False
    obtain prepared r index q where prep: "prepareRows R t unique keyField (sy_repo w) = (Inr prepared, r)"
      and q: "plan_rows le keyField index prepared \<lparr>pp_create = [], pp_update = [], pp_skipped = 0, pp_counts = []\<rparr> = Inr q"
      and plan: "pl_createRows plan = pp_create q" "pl_updateRows plan = pp_update q" "pl_tableId plan = t"
      using assms start False
      by (auto simp: planByKey_def eff_simps eng_requireArray_def createPlan_def on_repo_def
          split: sum.splits prod.splits) (metis prod.collapse)+
    show thesis
      using prepared [OF start(4,5,3), of prepared r] prep plan plan_rows_spec [OF q] by auto
  qed
qed

lemma marked_rows:
  assumes "null_prepareRows names repo t rows f r = (Inr marked, r')"
  obtains prepared where "prepareRows repo t rows f r = (Inr prepared, r')" "length prepared = length rows"
    "length marked = length rows" "\<forall>i < length rows. mark_row names (rows ! i, prepared ! i) = Inr (marked ! i)"
proof -
  obtain prepared where inner: "prepareRows repo t rows f r = (Inr prepared, r')" "length prepared = length rows"
    and marks: "map_res (mark_row names) (zip rows prepared) = Inr marked"
    using assms by (auto simp: null_prepareRows_def eff_simps split: prod.splits sum.splits if_splits)
  have "length marked = length xs \<and> (\<forall>i < length xs. g (xs ! i) = Inr (marked ! i))"
    if "map_res g xs = Inr marked" for g :: "jsval \<times> jsval \<Rightarrow> jserror + jsval" and xs marked
    using that
  proof (induction xs arbitrary: marked)
    case (Cons x xs)
    then show ?case by (auto simp: bind_res_Inr_iff nth_Cons split: nat.split)
  qed simp
  from this [OF marks] show thesis using that [OF inner] inner(2) by simp
qed

lemma mark_row_object: "mark_row names sp = Inr row \<Longrightarrow> is_object row"
  by (auto simp: mark_row_def bind_res_Inr_iff is_object_def)

lemma wrapper_prepares [simp]: "prepareRows (ExplicitNullUpdateRepository names repo) = null_prepareRows names repo"
  "createMany (ExplicitNullUpdateRepository names repo) = null_createMany repo"
  "updateMany (ExplicitNullUpdateRepository names repo) = null_updateMany repo"
  by (simp_all add: ExplicitNullUpdateRepository_def)

definition plain_update :: "jsval \<Rightarrow> jsval" where
  "plain_update u = update_row (jget u ''recordId'') (updated_row (jget u ''fields''))"

definition plain_plan :: "sync_plan \<Rightarrow> sync_plan" where
  "plain_plan p = p\<lparr>pl_createRows := map created_row (pl_createRows p),
     pl_updateRows := map plain_update (pl_updateRows p)\<rparr>"

lemma plan_objects:
  assumes "planByKey le pol (ExplicitNullUpdateRepository names repo) input w = (Inr plan, w')"
  shows "\<forall>row \<in> set (pl_createRows plan). is_object row"
    and "\<forall>u \<in> set (pl_updateRows plan). \<exists>i row. u = update_row i row \<and> is_object row"
proof -
  have "(\<forall>row \<in> set (pl_createRows plan). is_object row)
    \<and> (\<forall>u \<in> set (pl_updateRows plan). \<exists>i row. u = update_row i row \<and> is_object row)"
    using assms
  proof (cases rule: plan_from_prepared)
    case (prepared rows unique dups keyField prepared r)
    have "is_object row" if "row \<in> set prepared" for row
      using prepared(4) marked_rows [of names repo] that mark_row_object by (auto simp: in_set_conv_nth) metis
    then show ?thesis using prepared(5,6) by blast
  qed simp
  then show "\<forall>row \<in> set (pl_createRows plan). is_object row"
    "\<forall>u \<in> set (pl_updateRows plan). \<exists>i row. u = update_row i row \<and> is_object row" by blast+
qed

lemma null_create: "\<forall>row \<in> set rows. is_object row \<Longrightarrow> null_createMany repo t rows = createMany repo t (map created_row rows)"
  by (simp add: null_createMany_def map_res_Inr [where g = created_row] strip_object)

lemma null_update:
  assumes "\<forall>u \<in> set ups. \<exists>i row. u = update_row i row \<and> is_object row"
  shows "null_updateMany repo t ups = updateMany repo t (map plain_update ups)"
proof -
  have "cleared_update u = Inr (plain_update u)" if u: "u \<in> set ups" for u
  proof -
    obtain i row where "u = update_row i row" "is_object row" using assms u by blast
    then show ?thesis by (simp add: cleared_update_row plain_update_def) (simp add: update_row_def)
  qed
  then show ?thesis by (simp add: null_updateMany_def map_res_Inr [where g = plain_update])
qed

lemma write_phase_map: "(\<And>xs. xs = rows \<Longrightarrow> write xs = write' (map g xs)) \<Longrightarrow>
    write_phase write rows f t w = write_phase write' (map g rows) f t w"
  by (auto simp: write_phase_def split: prod.split sum.split)

lemma partial_error_plain: "buildTablePartialError cause (plain_plan p) = buildTablePartialError cause p"
  by (simp add: buildTablePartialError_def plain_plan_def fun_eq_iff)

lemma execute_wrapped:
  assumes "planByKey le pol (ExplicitNullUpdateRepository names repo) input w = (Inr plan, w')"
  shows "executePlan (ExplicitNullUpdateRepository names repo) plan v = executePlan repo (plain_plan plan) v"
proof -
  let ?t = "pl_tableId plan"
  have c: "write_phase (null_createMany repo ?t) (pl_createRows plan) f t u
      = write_phase (createMany repo ?t) (map created_row (pl_createRows plan)) f t u" for f t u
    by (rule write_phase_map) (use plan_objects(1) [OF assms] null_create in auto)
  have d: "write_phase (null_updateMany repo ?t) (pl_updateRows plan) f t u
      = write_phase (updateMany repo ?t) (map plain_update (pl_updateRows plan)) f t u" for f t u
    by (rule write_phase_map) (use plan_objects(2) [OF assms] null_update in auto)
  have [simp]: "pl_id (plain_plan plan) = pl_id plan" "pl_tableId (plain_plan plan) = ?t"
    "pl_skipped (plain_plan plan) = pl_skipped plan" "pl_duplicateInputRows (plain_plan plan) = pl_duplicateInputRows plan"
    "pl_createRows (plain_plan plan) = map created_row (pl_createRows plan)"
    "pl_updateRows (plain_plan plan) = map plain_update (pl_updateRows plan)"
    by (simp_all add: plain_plan_def)
  show ?thesis
    by (auto simp: executePlan_def partial_error_plain eff_simps c d split: prod.split sum.split)
qed


subsection \<open>What reaches the destination\<close>

lemma deduplicated_rows:
  assumes "deduplicateRowsByKey (JArr rows) (JStr f) = Inr (unique, dups)"
  shows "set unique \<subseteq> set rows"
proof
  fix r assume "r \<in> set unique"
  then obtain i where i: "i < length unique" "r = unique ! i" by (auto simp: in_set_conv_nth)
  obtain ks where "list_all2 (\<lambda>k r. last_row (trim f) k rows = Some r) ks unique"
    using deduplicate_spec(2) [OF assms] by blast
  then have "last_row (trim f) (ks ! i) rows = Some r" using i by (auto simp: list_all2_conv_all_nth)
  then show "r \<in> set rows" using last_row_key by blast
qed

text \<open>A destination that prepares each row on its own, without markers.\<close>

definition prepares_with :: "'r repository \<Rightarrow> (jsval \<Rightarrow> jsval) \<Rightarrow> jsval list \<Rightarrow> bool" where
  "prepares_with repo prep sources \<longleftrightarrow> (\<forall>t rows f r. \<exists>r'. prepareRows repo t rows f r = (Inr (map prep rows), r'))
     \<and> (\<forall>row \<in> set sources. tidy (prep row) \<and> unmarked (prep row))"

definition carries_source :: "string list \<Rightarrow> (jsval \<Rightarrow> jsval) \<Rightarrow> jsval \<Rightarrow> jsval \<Rightarrow> bool" where
  "carries_source names prep s row \<longleftrightarrow>
     (\<forall>g. jget (created_row row) g = (if cleared names s g then JUndef else jget (prep s) g))
   \<and> (\<forall>g. jget (updated_row row) g = (if cleared names s g then JNull else jget (prep s) g))"

lemma marked_source:
  assumes prep: "prepares_with repo prep sources" and sub: "set rows \<subseteq> set sources"
    and marked: "null_prepareRows names repo t rows f r = (Inr marked, r')" and row: "row \<in> set marked"
  shows "\<exists>s \<in> set rows. carries_source names prep s row"
proof -
  obtain prepared where inner: "prepareRows repo t rows f r = (Inr prepared, r')" "length marked = length rows"
      "\<forall>i < length rows. mark_row names (rows ! i, prepared ! i) = Inr (marked ! i)"
    using marked_rows [OF marked] by metis
  have "prepared = map prep rows" using prep inner(1) unfolding prepares_with_def by (metis Pair_inject sum.inject(2))
  moreover obtain i where "i < length rows" "row = marked ! i"
    using row inner(2) by (auto simp: in_set_conv_nth)
  ultimately have "mark_row names (rows ! i, prep (rows ! i)) = Inr row" "rows ! i \<in> set rows"
    using inner(3) by auto
  moreover have "tidy (prep (rows ! i))" "unmarked (prep (rows ! i))"
    using prep sub \<open>rows ! i \<in> set rows\<close> unfolding prepares_with_def by blast+
  ultimately have "carries_source names prep (rows ! i) row"
    using mark_row_writes [of names "rows ! i" "prep (rows ! i)" row] unfolding carries_source_def by blast
  then show ?thesis using \<open>rows ! i \<in> set rows\<close> by blast
qed

lemma wrapped_writes:
  assumes prep: "prepares_with repo prep rows" and rows: "jget input ''rows'' = JArr rows"
    and plan: "planByKey le pol (ExplicitNullUpdateRepository names repo) input w = (Inr plan, w')"
  shows "\<forall>row \<in> set (pl_createRows (plain_plan plan)). \<exists>s \<in> set rows.
      \<forall>g. jget row g = (if cleared names s g then JUndef else jget (prep s) g)"
    and "\<forall>u \<in> set (pl_updateRows (plain_plan plan)). \<exists>s \<in> set rows.
      \<forall>g. jget (jget u ''fields'') g = (if cleared names s g then JNull else jget (prep s) g)"
proof -
  have from_rows: "(\<forall>row \<in> set (pl_createRows plan). \<exists>s \<in> set rows. carries_source names prep s row)
    \<and> (\<forall>u \<in> set (pl_updateRows plan). \<exists>i row. u = update_row i row \<and> (\<exists>s \<in> set rows. carries_source names prep s row))"
    using plan
  proof (cases rule: plan_from_prepared)
    case (prepared xs unique dups keyField marked r)
    have sub: "set unique \<subseteq> set rows" using deduplicated_rows [OF prepared(2)] prepared(1) rows by simp
    then have "\<forall>row \<in> set marked. \<exists>s \<in> set rows. carries_source names prep s row"
      using marked_source [OF prep sub prepared(4) [unfolded wrapper_prepares]] by blast
    then show ?thesis using prepared(5,6) by blast
  qed simp
  have fields: "jget (plain_update (update_row i row)) ''fields'' = updated_row row" for i row
    by (simp add: plain_update_def update_row_def)
  have "\<exists>s \<in> set rows. \<forall>g. jget (created_row row) g = (if cleared names s g then JUndef else jget (prep s) g)"
    if "row \<in> set (pl_createRows plan)" for row
    using from_rows that unfolding carries_source_def by blast
  moreover have "\<exists>s \<in> set rows. \<forall>g. jget (jget (plain_update u) ''fields'') g
      = (if cleared names s g then JNull else jget (prep s) g)" if u: "u \<in> set (pl_updateRows plan)" for u
  proof -
    obtain i row s where "u = update_row i row" "s \<in> set rows" "carries_source names prep s row" using from_rows u by blast
    then show ?thesis unfolding carries_source_def by (metis fields)
  qed
  ultimately have "(\<forall>row \<in> set (pl_createRows plan). \<exists>s \<in> set rows.
      \<forall>g. jget (created_row row) g = (if cleared names s g then JUndef else jget (prep s) g))
    \<and> (\<forall>u \<in> set (pl_updateRows plan). \<exists>s \<in> set rows.
      \<forall>g. jget (jget (plain_update u) ''fields'') g = (if cleared names s g then JNull else jget (prep s) g))"
    by blast
  then show "\<forall>row \<in> set (pl_createRows (plain_plan plan)). \<exists>s \<in> set rows.
      \<forall>g. jget row g = (if cleared names s g then JUndef else jget (prep s) g)"
    "\<forall>u \<in> set (pl_updateRows (plain_plan plan)). \<exists>s \<in> set rows.
      \<forall>g. jget (jget u ''fields'') g = (if cleared names s g then JNull else jget (prep s) g)"
    by (simp_all add: plain_plan_def)
qed

subsection \<open>Cleared cells at rest\<close>

lemma marker_normal [simp]: "normalizeComparable le EXPLICIT_NULL = EXPLICIT_NULL"
  "normalizeComparable le a = EXPLICIT_NULL \<longleftrightarrow> a = EXPLICIT_NULL"
  by (simp_all add: EXPLICIT_NULL_def normalize_scalar)

lemma deepEqual_marker: "deepEqual a EXPLICIT_NULL \<longleftrightarrow> a = EXPLICIT_NULL" "deepEqual EXPLICIT_NULL b \<longleftrightarrow> b = EXPLICIT_NULL"
  "EXPLICIT_NULL \<noteq> JUndef" "JUndef \<noteq> EXPLICIT_NULL"
  by (cases a; simp add: EXPLICIT_NULL_def) (cases b; auto simp: EXPLICIT_NULL_def)+

lemma deepEqual_undef: "deepEqual JUndef b \<longleftrightarrow> b = JUndef"
  by (cases b) auto

lemma changed_fields_of_cleared:
  assumes mark: "mark_existing names incoming record = Inr existing"
    and fields: "nullish (jget record ''fields'') (JObj []) = JObj kvs" "unmarked (JObj kvs)"
    and row: "fst ` set row \<subseteq> set incoming" "\<forall>(k, v) \<in> set row. v \<noteq> JUndef \<and> (v = EXPLICIT_NULL \<longrightarrow> k \<in> set names)"
  shows "listChangedFieldNames le (jget existing ''fields'') (JObj row)
    = Inr (map fst (filter (\<lambda>(k, v). if v = EXPLICIT_NULL then map_of kvs k \<noteq> None
        else \<not> deepEqual (normalizeComparable le (jget (JObj kvs) k)) (normalizeComparable le v)) row))"
proof -
  have existing: "jget existing ''fields'' = JObj (mark_missing names incoming kvs)"
    using mark fields(1) by (auto simp: mark_existing_def null_requireObject_def map_set_of)
  have changed: "(\<not> deepEqual (normalizeComparable le (jget (JObj (mark_missing names incoming kvs)) k)) (normalizeComparable le v))
      = (if v = EXPLICIT_NULL then map_of kvs k \<noteq> None
         else \<not> deepEqual (normalizeComparable le (jget (JObj kvs) k)) (normalizeComparable le v))"
    if kv: "(k, v) \<in> set row" for k v
  proof -
    have k: "k \<in> set incoming" "v \<noteq> JUndef" "v = EXPLICIT_NULL \<Longrightarrow> k \<in> set names" using row kv by auto
    have plain: "map_of kvs k \<noteq> Some EXPLICIT_NULL"
      using fields(2) by (auto simp: unmarked_def own_entries_def dest!: map_of_SomeD)
    show ?thesis
      using k plain
      by (cases "map_of kvs k") (auto simp: mark_missing_of deepEqual_marker deepEqual_undef normalize_scalar)
  qed
  have "filter (\<lambda>(k, v). \<not> deepEqual (normalizeComparable le (jget (JObj (mark_missing names incoming kvs)) k))
        (normalizeComparable le v)) row
    = filter (\<lambda>(k, v). if v = EXPLICIT_NULL then map_of kvs k \<noteq> None
        else \<not> deepEqual (normalizeComparable le (jget (JObj kvs) k)) (normalizeComparable le v)) row"
  proof (rule filter_cong [OF refl])
    fix z assume "z \<in> set row"
    then obtain k v where "z = (k, v)" "(k, v) \<in> set row" by (metis surj_pair)
    then show "(case z of (k, v) \<Rightarrow> \<not> deepEqual (normalizeComparable le (jget (JObj (mark_missing names incoming kvs)) k))
        (normalizeComparable le v))
      = (case z of (k, v) \<Rightarrow> if v = EXPLICIT_NULL then map_of kvs k \<noteq> None
        else \<not> deepEqual (normalizeComparable le (jget (JObj kvs) k)) (normalizeComparable le v))"
      using changed by (simp only: prod.case)
  qed
  then show ?thesis by (simp only: listChangedFieldNames_def existing requirePlainObject_def bind_res_simps jsval.case)
qed

text \<open>The wrapper always offers a read by keys, so that the engine never falls back to a full scan.\<close>

lemma full_scan_is_lost:
  assumes "listByFieldValues repo = None"
  shows "readExistingRecords (ExplicitNullUpdateRepository names repo) t f ks r
    = (Inl (type_error ''Explicit-null update repository requires repository.listByFieldValues()''), r)"
  using assms
  by (simp add: readExistingRecords_def ExplicitNullUpdateRepository_def requireRepositoryMethod_def eff_simps)

end
