(* ===== verification/Report_Period.thy ===== *)
theory Report_Period
  imports Queue_Jobs Runtime_Config
begin

text \<open>
  Reporting periods and the jobs of the dashboard presets: \<open>application/src/reports/report-period.js\<close>,
  \<open>buildDashboardPresetJob\<close> of \<open>dashboard-report-request.js\<close> and the setting keys of
  \<open>config/src/report-settings.seed.js\<close>.

  A \<open>Date\<close> argument is its time value, \<open>None\<close> for an invalid one. Date texts are compared as the
  code compares them, as strings.
\<close>

subsection \<open>Dates\<close>

text \<open>The text of a day number, as \<open>addDaysDateOnly\<close> builds it.\<close>

definition day_text :: "int \<Rightarrow> string" where
  "day_text z = (if max_time < \<bar>z * ms_per_day\<bar> then ''NaN-NaN-NaN''
     else let (y, m, d) = civil_from_days z
          in pad_left 4 (int_text y) @ ''-'' @ pad_left 2 (int_text m) @ ''-'' @ pad_left 2 (int_text d))"

text \<open>The day number of a date text that \<open>requireDateOnly\<close> has returned.\<close>

definition day_of :: "string \<Rightarrow> int" where
  "day_of date = utc_day (text_int (take 4 date)) (text_int (take 2 (drop 5 date))) (text_int (take 2 (drop 8 date)))"

definition date_label :: "string \<Rightarrow> jsval" where
  "date_label l = JObj [(''label'', JStr l)]"

definition addDaysDateOnly :: "jsval \<Rightarrow> int \<Rightarrow> jserror + string" where
  "addDaysDateOnly v days =
     bind_res (requireDateOnly v (date_label ''date'')) (\<lambda>date.
     if \<not> is_safe days then Inl (type_error ''days must be an integer'')
     else Inr (day_text (day_of date + days)))"

definition inclusiveDayCount :: "jsval \<Rightarrow> jsval \<Rightarrow> jserror + int" where
  "inclusiveDayCount start final =
     bind_res (requireDateOnly start (date_label ''start'')) (\<lambda>s.
     bind_res (requireDateOnly final (date_label ''end'')) (\<lambda>e.
     let startMs = day_of s * ms_per_day; endMs = day_of e * ms_per_day in
     if endMs < startMs then Inl (range_error ''end must not be before start'')
     else Inr ((endMs - startMs) div 86400000 + 1)))"

subsection \<open>The period\<close>

definition REPORT_DAY_COUNTS :: "(string \<times> int) list" where
  "REPORT_DAY_COUNTS = [(''daily_organic_report'', 1), (''weekly_organic_report'', 7)]"

definition REPORT_ROLLING_PRESET_DAYS :: "int list" where
  "REPORT_ROLLING_PRESET_DAYS = [1, 3, 7, 9, 15, 30, 90]"

definition REPORT_PERIOD_KINDS :: "string list" where
  "REPORT_PERIOD_KINDS = [''rolling_days'', ''custom_range'']"

definition DEFAULT_CUSTOM_RANGE_MAX_DAYS :: int where
  "DEFAULT_CUSTOM_RANGE_MAX_DAYS = 366"

definition COMPARISON_MODES :: "string list" where
  "COMPARISON_MODES = [''none'', ''previous_period'']"

record report_period =
  rp_periodKind :: string
  rp_windowDays :: int
  rp_periodStart :: string
  rp_periodEnd :: string
  rp_comparisonMode :: string
  rp_compareStart :: "string option"
  rp_compareEnd :: "string option"

definition period_requireText :: "jsval \<Rightarrow> string \<Rightarrow> jserror + string" where
  "period_requireText v f = requireText (''Report period requires '' @ f) v"

definition period_positiveInteger :: "jsval \<Rightarrow> string \<Rightarrow> jserror + int" where
  "period_positiveInteger v f = (case safe_int (js_number v) of
     Some n \<Rightarrow> if n \<le> 0 then Inl (type_error (''Report period requires positive integer '' @ f)) else Inr n
   | None \<Rightarrow> Inl (type_error (''Report period requires positive integer '' @ f)))"

definition requireComparisonMode :: "jsval \<Rightarrow> jserror + string" where
  "requireComparisonMode v = bind_res (period_requireText v ''comparisonMode'') (\<lambda>t.
     if t \<notin> set COMPARISON_MODES then Inl (plain_error (''Unsupported report comparison mode: '' @ t)) else Inr t)"

definition requirePeriodKind :: "jsval \<Rightarrow> jserror + string" where
  "requirePeriodKind v = bind_res (period_requireText v ''periodKind'') (\<lambda>raw.
     let t = to_lower raw in
     if t \<notin> set REPORT_PERIOD_KINDS then Inl (plain_error (''Unsupported report period kind: '' @ t)) else Inr t)"

definition requirePresetDays :: "jsval \<Rightarrow> jserror + int" where
  "requirePresetDays v = bind_res (period_positiveInteger v ''windowDays'') (\<lambda>days.
     if days \<notin> set REPORT_ROLLING_PRESET_DAYS
     then Inl (range_error (''windowDays must be one of: '' @ join '', '' (map int_text REPORT_ROLLING_PRESET_DAYS)))
     else Inr days)"

definition previousPeriod :: "string \<Rightarrow> int \<Rightarrow> jserror + string \<times> string" where
  "previousPeriod periodStart days =
     bind_res (addDaysDateOnly (JStr periodStart) (- 1)) (\<lambda>compareEnd.
     bind_res (addDaysDateOnly (JStr compareEnd) (- (days - 1))) (\<lambda>compareStart.
     Inr (compareStart, compareEnd)))"

text \<open>\<open>todayInTimeZone\<close> of a \<open>Date\<close>.\<close>

definition today_of_date :: "js_host \<Rightarrow> string \<Rightarrow> int option \<Rightarrow> jserror + string" where
  "today_of_date host zone now = (case now of
       None \<Rightarrow> bind_res (date_requireText (JStr zone) ''timeZone'') (\<lambda>_.
         Inl (type_error ''now must be a valid Date-compatible value''))
     | Some n \<Rightarrow> todayInTimeZone host (JStr zone) n)"

definition lastCompletedDay :: "js_host \<Rightarrow> string \<Rightarrow> int option \<Rightarrow> jserror + string" where
  "lastCompletedDay host zone now = bind_res (today_of_date host zone now) (\<lambda>today. addDaysDateOnly (JStr today) (- 1))"

text \<open>The start and the length of the period: the two branches on its kind.\<close>

definition period_window :: "string \<Rightarrow> jsval \<Rightarrow> string \<Rightarrow> jserror + string \<times> int" where
  "period_window periodKind inp periodEnd =
     (if periodKind = ''rolling_days''
      then bind_res (requirePresetDays (jget inp ''windowDays'')) (\<lambda>windowDays.
           bind_res (addDaysDateOnly (JStr periodEnd) (- (windowDays - 1))) (\<lambda>periodStart.
           Inr (periodStart, windowDays)))
      else bind_res (requireDateOnly (jget inp ''periodStart'') (date_label ''periodStart'')) (\<lambda>periodStart.
           bind_res (inclusiveDayCount (JStr periodStart) (JStr periodEnd)) (\<lambda>windowDays.
           bind_res (period_positiveInteger (nullish (jget inp ''maxCustomRangeDays'')
                       (jint DEFAULT_CUSTOM_RANGE_MAX_DAYS)) ''maxCustomRangeDays'') (\<lambda>maximum.
           if maximum < windowDays
           then Inl (range_error (''custom report range exceeds '' @ int_text maximum @ '' inclusive days''))
           else Inr (periodStart, windowDays)))))"

definition resolveReportPeriod :: "js_host \<Rightarrow> jsval \<Rightarrow> int option \<Rightarrow> jserror + report_period" where
  "resolveReportPeriod host inp now =
     bind_res (period_requireText (nullish (jget inp ''timeZone'') (JStr ''Asia/Bangkok'')) ''timeZone'') (\<lambda>timeZone.
     bind_res (requireComparisonMode (nullish (jget inp ''comparisonMode'') (JStr ''previous_period''))) (\<lambda>comparisonMode.
     bind_res (requirePeriodKind (nullish (jget inp ''periodKind'') (JStr ''rolling_days''))) (\<lambda>periodKind.
     bind_res (lastCompletedDay host timeZone now) (\<lambda>last.
     bind_res (if truthy (jget inp ''periodEnd'')
               then requireDateOnly (jget inp ''periodEnd'') (date_label ''periodEnd'') else Inr last) (\<lambda>periodEnd.
     if last < periodEnd
     then Inl (range_error ''periodEnd must not be after the last completed reporting day'')
     else
     bind_res (period_window periodKind inp periodEnd) (\<lambda>(periodStart, windowDays).
     bind_res (if comparisonMode = ''none'' then Inr (None, None)
               else bind_res (previousPeriod periodStart windowDays) (\<lambda>(s, e). Inr (Some s, Some e)))
       (\<lambda>(compareStart, compareEnd).
     Inr \<lparr>rp_periodKind = periodKind, rp_windowDays = windowDays, rp_periodStart = periodStart,
          rp_periodEnd = periodEnd, rp_comparisonMode = comparisonMode, rp_compareStart = compareStart,
          rp_compareEnd = compareEnd\<rparr>)))))))"

text \<open>The report of a fixed type. \<open>orp_legacy\<close>: the reply leaves out the kind and the length of the window.\<close>

record organic_report_period =
  orp_reportType :: string
  orp_period :: report_period
  orp_legacy :: bool

definition requireReportType :: "jsval \<Rightarrow> jserror + string" where
  "requireReportType v = bind_res (period_requireText v ''reportType'') (\<lambda>t.
     if t \<notin> fst ` set REPORT_DAY_COUNTS then Inl (plain_error (''Unsupported organic report type: '' @ t)) else Inr t)"

definition resolveOrganicReportPeriod :: "js_host \<Rightarrow> jsval \<Rightarrow> int option \<Rightarrow> jserror + organic_report_period" where
  "resolveOrganicReportPeriod host inp now =
     bind_res (requireReportType (jget inp ''reportType'')) (\<lambda>reportType.
     bind_res (resolveReportPeriod host
       (jput ''windowDays'' (nullish (jget inp ''windowDays'') (jopt_int (map_of REPORT_DAY_COUNTS reportType)))
       (jput ''periodKind'' (nullish (jget inp ''periodKind'') (JStr ''rolling_days'')) inp)) now) (\<lambda>resolved.
     Inr \<lparr>orp_reportType = reportType, orp_period = resolved,
          orp_legacy = (jget inp ''periodKind'' = JUndef \<and> jget inp ''windowDays'' = JUndef)\<rparr>))"

subsection \<open>Setting keys and preset jobs\<close>

definition REPORT_SETTING_PROFILE_ALIASES :: "(string \<times> string) list" where
  "REPORT_SETTING_PROFILE_ALIASES =
     [(''dev_ft_pumkin'', ''integration_workspace''), (''uat_chemistry_k'', ''integration_workspace'')]"

definition REPORT_SETTING_TEMPLATES :: "(string \<times> string \<times> string) list" where
  "REPORT_SETTING_TEMPLATES = [(''integration_workspace'', ''integration_workspace'', ''chemistry_k''),
     (''chemistry_k'', ''chemistry_k'', ''chemistry_k'')]"

definition DASHBOARD_REPORT_PRESET_DAYS :: "int list" where
  "DASHBOARD_REPORT_PRESET_DAYS = [1, 3, 7, 9, 15, 30, 90]"

definition DASHBOARD_REPORT_PLATFORM_SCOPES :: "string list" where
  "DASHBOARD_REPORT_PLATFORM_SCOPES = [''facebook'', ''instagram'', ''tiktok'', ''youtube'', ''meta_ads'',
     ''google_ads'', ''tiktok_ads'', ''woocommerce'', ''chatwoot'']"

definition seed_requireText :: "jsval \<Rightarrow> string \<Rightarrow> jserror + string" where
  "seed_requireText v f = requireText (''Report setting seed requires '' @ f) v"

definition requirePlatformScope :: "jsval \<Rightarrow> jserror + string" where
  "requirePlatformScope v = bind_res (seed_requireText v ''platformScope'') (\<lambda>t.
     if t \<notin> set DASHBOARD_REPORT_PLATFORM_SCOPES
     then Inl (type_error (''Unsupported report platform scope: '' @ t)) else Inr t)"

definition requireWindowDays :: "jsval \<Rightarrow> jserror + int" where
  "requireWindowDays v =
     (let bad = Inl (type_error (''Report setting windowDays must be one of ''
              @ join '', '' (map int_text DASHBOARD_REPORT_PRESET_DAYS)))
      in case safe_int (js_number v) of
        Some n \<Rightarrow> if n \<in> set DASHBOARD_REPORT_PRESET_DAYS then Inr n else bad
      | None \<Rightarrow> bad)"

definition createDashboardReportSettingKey :: "jsval \<Rightarrow> jserror + string" where
  "createDashboardReportSettingKey inp =
     bind_res (seed_requireText (jget inp ''profileKey'') ''profileKey'') (\<lambda>requested.
     let profileKey = or_else (map_of REPORT_SETTING_PROFILE_ALIASES requested) requested in
     if profileKey \<notin> fst ` set REPORT_SETTING_TEMPLATES
     then Inl (plain_error (''Unsupported report setting profile: '' @ requested))
     else bind_res (requirePlatformScope (jget inp ''platformScope'')) (\<lambda>platformScope.
          bind_res (requireWindowDays (jget inp ''windowDays'')) (\<lambda>windowDays.
          Inr (profileKey @ '':'' @ platformScope @ '':rolling:'' @ int_text windowDays @ ''d''))))"

definition dash_requireText :: "jsval \<Rightarrow> string \<Rightarrow> jserror + string" where
  "dash_requireText v f = requireText (f @ '' is required'') v"

definition requireTimestamp :: "jsval \<Rightarrow> string \<Rightarrow> jserror + int" where
  "requireTimestamp v f = (case v of
       JNum n \<Rightarrow> (case safe_int n of
           Some t \<Rightarrow> if t < 0 then Inl (type_error (f @ '' must be an epoch millisecond'')) else Inr t
         | None \<Rightarrow> Inl (type_error (f @ '' must be an epoch millisecond'')))
     | _ \<Rightarrow> Inl (type_error (f @ '' must be an epoch millisecond'')))"

definition date_of_ms :: "int \<Rightarrow> int option" where
  "date_of_ms n = (if \<bar>n\<bar> \<le> max_time then Some n else None)"

definition buildDashboardPresetJob :: "js_host \<Rightarrow> jsval \<Rightarrow> int \<Rightarrow> jserror + jsval" where
  "buildDashboardPresetJob host inp now =
     bind_res (requireTimestamp (nullish (jget inp ''requestedAt'') (jint now)) ''requestedAt'') (\<lambda>requestedAt.
     bind_res (resolveReportPeriod host (JObj [(''periodKind'', JStr ''rolling_days''),
         (''windowDays'', jget inp ''windowDays''), (''periodEnd'', jget inp ''periodEnd''),
         (''comparisonMode'', nullish (jget inp ''comparisonMode'') (JStr ''previous_period'')),
         (''timeZone'', jget inp ''timeZone'')]) (date_of_ms requestedAt)) (\<lambda>period.
     let trigger = nullish (jget inp ''trigger'') (JStr ''dashboard_preset'') in
     if trigger \<notin> {JStr ''dashboard_preset'', JStr ''dashboard_scheduled''}
     then Inl (type_error ''Dashboard preset trigger is unsupported'')
     else
     let sourceWatermark = optionalText (jget inp ''sourceWatermark'') in
     if trigger = JStr ''dashboard_preset'' \<and> sourceWatermark = None
     then Inl (type_error ''sourceWatermark is required'')
     else if date_of_ms requestedAt = None then Inl (range_error ''Invalid time value'')
     else
     bind_res (dash_requireText (jget inp ''reportSettingKey'') ''reportSettingKey'') (\<lambda>reportSettingKey.
     bind_res (dash_requireText (jget inp ''platformScope'') ''platformScope'') (\<lambda>platformScope.
     Inr (JObj ([(''schemaVersion'', jint 1), (''type'', JStr REPORT_MATERIALIZATION_GENERATE), (''trigger'', trigger),
        (''requestedAt'', JStr (iso_text requestedAt)), (''reportSettingKey'', JStr reportSettingKey),
        (''platformScope'', JStr platformScope), (''periodKind'', JStr (rp_periodKind period)),
        (''windowDays'', jint (rp_windowDays period)), (''periodEnd'', JStr (rp_periodEnd period)),
        (''comparisonMode'', JStr (rp_comparisonMode period))]
        @ (case sourceWatermark of Some s \<Rightarrow> [(''sourceWatermark'', JStr s)] | None \<Rightarrow> [])))))))"


section \<open>Guarantees\<close>

text \<open>A date the code accepts: the text of a day of the years 2000 to 2100.\<close>

definition is_day :: "int \<Rightarrow> string \<Rightarrow> bool" where
  "is_day z t \<longleftrightarrow> (\<exists>y m d. civil_from_days z = (y, m, d) \<and> t = date_text y m d \<and> 2000 \<le> y \<and> y \<le> 2100)"

lemma requireDateOnly_day:
  assumes "requireDateOnly v (date_label l) = Inr t"
  obtains z where "is_day z t" "day_of t = z"
proof -
  obtain raw where v: "v = JStr raw" using assms by (cases v) (simp_all add: requireDateOnly_def Let_def)
  have "jget (date_label l) ''minYear'' = JUndef" "jget (date_label l) ''maxYear'' = JUndef"
    by (simp_all add: date_label_def)
  from requireDateOnly_iff [OF this] assms v obtain y m d where t: "t = date_text y m d" "2000 \<le> y" "y \<le> 2100"
    and real: "real_date y m d" by blast
  have civil: "civil_from_days (days_from_civil y m d) = (y, m, d)" and m: "1 \<le> m" "m \<le> 12"
    using real by (auto simp: real_date_def)
  note d = civil_day_bound [OF civil]
  have "length (pad_int 4 y) = 4" "length (pad_int 2 m) = 2" "length (pad_int 2 d) = 2"
    using pad_int_ok [of y 4] pad_int_ok [of m 2] pad_int_ok [of d 2] t m d by simp_all
  then have "day_of t = utc_day y m d"
    using t m d by (simp add: day_of_def date_text_def text_int_pad numeral_eq_Suc)
  then have "day_of t = days_from_civil y m d" using utc_day_real [of y m d] t m by simp
  moreover have "is_day (days_from_civil y m d) t" unfolding is_day_def using civil t by blast
  ultimately show thesis using that by blast
qed

lemma int_text_pad: "0 \<le> n \<Longrightarrow> pad_left k (int_text n) = pad_int k n"
  by (simp add: pad_int_def int_text_def)

lemma year_day_small: "civil_from_days z = (y, m, d) \<Longrightarrow> 1000 \<le> y \<Longrightarrow> y \<le> 9999 \<Longrightarrow> \<bar>z * ms_per_day\<bar> \<le> max_time"
proof (elim civil_parts)
  fix era yoe doy :: int
  assume b: "era = (z + 719468) div 146097" "0 \<le> yoe" "yoe < 400" and y: "y = yoe + era * 400 + (if m \<le> 2 then 1 else 0)"
    "1000 \<le> y" "y \<le> 9999"
  have "0 \<le> era" "era \<le> 25" using y b(2,3) by (auto split: if_splits)
  then have "0 \<le> z + 719468" "z + 719468 \<le> 146097 * 26" using b(1) by linarith+
  then have "\<bar>z\<bar> \<le> 100000000" by linarith
  then have "\<bar>z\<bar> * 86400000 \<le> 100000000 * 86400000" by (rule mult_right_mono) simp
  then show ?thesis unfolding max_time_def by (simp add: abs_mult)
qed

text \<open>Adding days to a date adds to its day number.\<close>

lemma day_text_date:
  assumes "civil_from_days z = (y, m, d)" "1000 \<le> y" "y \<le> 9999"
  shows "day_text z = date_text y m d"
proof -
  have "1 \<le> m" "1 \<le> d" using days_of_civil [OF assms(1)] civil_day_bound [OF assms(1)] by auto
  then show ?thesis
    using year_day_small [OF assms] assms by (simp add: day_text_def date_text_def int_text_pad)
qed

lemma addDays_day:
  assumes "addDaysDateOnly v k = Inr t"
  obtains z where "is_day z (trim (js_text v))" "t = day_text (z + k)"
proof -
  obtain date where date: "requireDateOnly v (date_label ''date'') = Inr date" and t: "t = day_text (day_of date + k)"
    using assms by (auto simp: addDaysDateOnly_def bind_res_Inr_iff split: if_splits)
  obtain z where z: "is_day z date" "day_of date = z" using requireDateOnly_day [OF date] .
  have "date = trim (js_text v)"
    using date by (cases v) (auto simp: requireDateOnly_def Let_def bind_res_Inr_iff split: option.splits list.splits prod.splits if_splits)
  then show thesis using that z t by simp
qed

lemma date_text_trim: "0 \<le> y \<Longrightarrow> y \<le> 9999 \<Longrightarrow> 1 \<le> m \<Longrightarrow> m \<le> 12 \<Longrightarrow> 1 \<le> d \<Longrightarrow> d \<le> 31 \<Longrightarrow>
    trim (date_text y m d) = date_text y m d"
proof -
  assume b: "0 \<le> y" "y \<le> 9999" "1 \<le> m" "m \<le> 12" "1 \<le> d" "d \<le> 31"
  have y: "length (pad_int 4 y) = 4" "list_all is_digit (pad_int 4 y)"
    and d: "length (pad_int 2 d) = 2" "list_all is_digit (pad_int 2 d)"
    using pad_int_ok [of y 4] pad_int_ok [of d 2] b by simp_all
  have space: "\<not> is_space c" if "is_digit c" for c
    using that by (auto simp: is_digit_def is_space_def less_eq_char_def)
  have hd: "hd (date_text y m d) = hd (pad_int 4 y)" "date_text y m d \<noteq> []"
    and last: "last (date_text y m d) = last (pad_int 2 d)"
    using y(1) d(1) by (auto simp: date_text_def hd_append last_append)
  have "is_digit (hd (pad_int 4 y))" "is_digit (last (pad_int 2 d))"
    using y d hd_in_set [of "pad_int 4 y"] last_in_set [of "pad_int 2 d"]
    by (metis list.size(3) list_all_iff zero_neq_numeral)+
  then show ?thesis using space hd last by (intro trim_ends) auto
qed

lemma is_day_trim: "is_day z t \<Longrightarrow> trim t = t \<and> day_text z = t"
  unfolding is_day_def using days_of_civil civil_day_bound day_text_date date_text_trim by fastforce

text \<open>Around the supported years a day and its text determine each other.\<close>

lemma near_civil:
  assumes "0 \<le> z" "z \<le> 100000"
  obtains y m d where "civil_from_days z = (y, m, d)" "1000 \<le> y" "y \<le> 9999" "day_text z = date_text y m d"
proof -
  obtain y m d where civil: "civil_from_days z = (y, m, d)" using prod_cases3 by blast
  have "1000 \<le> y \<and> y \<le> 9999"
    using civil
  proof (elim civil_parts)
    fix era yoe :: int
    assume "era = (z + 719468) div 146097" "0 \<le> yoe" "yoe < 400"
      and y: "y = yoe + era * 400 + (if m \<le> 2 then 1 else 0)"
    then have "4 \<le> era" "era \<le> 5" using assms by linarith+
    then show ?thesis using y \<open>0 \<le> yoe\<close> \<open>yoe < 400\<close> by (auto split: if_splits)
  qed
  then show thesis using that [OF civil] day_text_date [OF civil] by blast
qed

lemma day_text_near:
  assumes "0 \<le> z" "z \<le> 100000"
  shows "trim (day_text z) = day_text z"
proof -
  obtain y m d where z: "civil_from_days z = (y, m, d)" "1000 \<le> y" "y \<le> 9999" "day_text z = date_text y m d"
    using near_civil [OF assms] .
  then show ?thesis using date_text_trim [of y m d] days_of_civil [OF z(1)] civil_day_bound [OF z(1)] by simp
qed

lemma date_text_parts:
  assumes "civil_from_days z = (y, m, d)" "1000 \<le> y" "y \<le> 9999"
  shows "date_only_parts (date_text y m d) = Some ((pad_int 4 y, pad_int 2 m, pad_int 2 d), [])
    \<and> text_int (pad_int 4 y) = y \<and> text_int (pad_int 2 m) = m \<and> text_int (pad_int 2 d) = d"
  using date_only_parts_text [of y m d "[]"] assms days_of_civil [OF assms(1)] civil_day_bound [OF assms(1)]
  by (simp add: text_int_pad)

lemma day_text_inj:
  assumes "0 \<le> z" "z \<le> 100000" "0 \<le> x" "x \<le> 100000" "day_text z = day_text x"
  shows "z = x"
proof -
  obtain y m d where z: "civil_from_days z = (y, m, d)" "1000 \<le> y" "y \<le> 9999" "day_text z = date_text y m d"
    using near_civil [OF assms(1,2)] .
  obtain y' m' d' where x: "civil_from_days x = (y', m', d')" "1000 \<le> y'" "y' \<le> 9999" "day_text x = date_text y' m' d'"
    using near_civil [OF assms(3,4)] .
  have "(y, m, d) = (y', m', d')"
    using date_text_parts [OF z(1-3)] date_text_parts [OF x(1-3)] z(4) x(4) assms(5) by (metis Pair_inject option.inject)
  then show ?thesis using days_of_civil [OF z(1)] days_of_civil [OF x(1)] by simp
qed

lemma is_day_bounds: "is_day z t \<Longrightarrow> 10000 \<le> z \<and> z \<le> 50000"
proof -
  assume "is_day z t"
  then obtain y m d where civil: "civil_from_days z = (y, m, d)" and y: "2000 \<le> y" "y \<le> 2100"
    by (auto simp: is_day_def)
  have m: "days_from_civil y m d = z" "1 \<le> m" "m \<le> 12" using days_of_civil [OF civil] by auto
  have d: "1 \<le> d" "d \<le> 31" using civil_day_bound [OF civil] by auto
  define Y where "Y = (if m \<le> 2 then y - 1 else y)"
  define mp where "mp = (if 2 < m then m - 3 else m + 9)"
  have Y: "1999 \<le> Y" "Y \<le> 2100" and mp: "0 \<le> mp" "mp \<le> 11" using y m(2,3) by (auto simp: Y_def mp_def)
  have z: "z = (Y div 400) * 146097 + (Y mod 400 * 365 + Y mod 400 div 4 - Y mod 400 div 100 + ((153 * mp + 2) div 5 + d - 1)) - 719468"
    using m(1) by (simp add: days_from_civil_def Let_def Y_def mp_def)
  define q r where "q = Y div 400" and "r = Y mod 400"
  have Yq: "Y = 400 * q + r" and r: "0 \<le> r" "r < 400" unfolding q_def r_def by simp_all
  have q: "q = 4 \<or> q = 5" using Y unfolding q_def by linarith
  have b: "0 \<le> (153 * mp + 2) div 5" "(153 * mp + 2) div 5 \<le> 337" using mp by linarith+
  have c: "0 \<le> r div 4" "r div 4 \<le> 99" "0 \<le> r div 100" "r div 100 \<le> 3" using r by linarith+
  have "z = q * 146097 + (r * 365 + r div 4 - r div 100 + ((153 * mp + 2) div 5 + d - 1)) - 719468"
    using z unfolding q_def r_def .
  with q show ?thesis
  proof (elim disjE)
    assume *: "q = 4" "z = q * 146097 + (r * 365 + r div 4 - r div 100 + ((153 * mp + 2) div 5 + d - 1)) - 719468"
    then have "399 \<le> r" using Yq Y by linarith
    then show ?thesis using * b c d r by linarith
  next
    assume *: "q = 5" "z = q * 146097 + (r * 365 + r div 4 - r div 100 + ((153 * mp + 2) div 5 + d - 1)) - 719468"
    then have "r \<le> 100" using Yq Y by linarith
    then show ?thesis using * b c d r by linarith
  qed
qed

subsection \<open>The window of a period\<close>

lemma requireDateOnly_trim: "requireDateOnly v options = Inr t \<Longrightarrow> trim t = t \<and> t = trim (js_text v)"
  by (cases v) (auto simp: requireDateOnly_def Let_def bind_res_Inr_iff split: option.splits list.splits prod.splits if_splits)

lemma window_days:
  assumes win: "period_window kind inp periodEnd = Inr (start, w)" and plain: "trim periodEnd = periodEnd"
    and kind: "kind \<in> set REPORT_PERIOD_KINDS"
  obtains e where "is_day e periodEnd" "start = day_text (e - w + 1)" "trim start = start" "1 \<le> w" "0 \<le> e - w + 1"
    "kind = ''rolling_days'' \<longrightarrow> w \<in> set REPORT_ROLLING_PRESET_DAYS"
proof (cases "kind = ''rolling_days''")
  case True
  then have w: "requirePresetDays (jget inp ''windowDays'') = Inr w"
    and start: "addDaysDateOnly (JStr periodEnd) (- (w - 1)) = Inr start"
    using win by (auto simp: period_window_def bind_res_Inr_iff)
  have days: "w \<in> set REPORT_ROLLING_PRESET_DAYS" using w by (auto simp: requirePresetDays_def bind_res_Inr_iff split: if_splits)
  then have b: "1 \<le> w" "w \<le> 90" by (auto simp: REPORT_ROLLING_PRESET_DAYS_def)
  obtain e where e: "is_day e periodEnd" "start = day_text (e + - (w - 1))"
    using addDays_day [OF start] plain by auto
  have "trim start = start" unfolding e(2) by (rule day_text_near) (use is_day_bounds [OF e(1)] b in auto)
  have at: "start = day_text (e - w + 1)" using e(2) by (simp add: algebra_simps)
  show thesis
    by (rule that [OF e(1) at \<open>trim start = start\<close> b(1)]) (use is_day_bounds [OF e(1)] b days in auto)
next
  case False
  then have start: "requireDateOnly (jget inp ''periodStart'') (date_label ''periodStart'') = Inr start"
    and count: "inclusiveDayCount (JStr start) (JStr periodEnd) = Inr w"
    using win by (auto simp: period_window_def bind_res_Inr_iff split: if_splits)
  obtain s' e' where read: "requireDateOnly (JStr start) (date_label ''start'') = Inr s'"
      "requireDateOnly (JStr periodEnd) (date_label ''end'') = Inr e'"
    and w: "day_of s' * ms_per_day \<le> day_of e' * ms_per_day" "w = (day_of e' * ms_per_day - day_of s' * ms_per_day) div 86400000 + 1"
    using count by (auto simp: inclusiveDayCount_def bind_res_Inr_iff Let_def split: if_splits)
  have same: "s' = start" "e' = periodEnd"
    using requireDateOnly_trim [OF read(1), THEN conjunct2] requireDateOnly_trim [OF read(2), THEN conjunct2]
      requireDateOnly_trim [OF start, THEN conjunct1] plain by simp_all
  obtain s e where day: "is_day s start" "day_of start = s" "is_day e periodEnd" "day_of periodEnd = e"
    using requireDateOnly_day [OF read(1)] requireDateOnly_day [OF read(2)] same by metis
  have "e * 86400000 - s * 86400000 = (e - s) * 86400000" by (rule left_diff_distrib [symmetric])
  then have "(e * 86400000 - s * 86400000) div 86400000 = e - s" by simp
  then have w: "w = e - s + 1" "s \<le> e" using w day same by simp_all
  have s: "e - w + 1 = s" using w by simp
  have at: "start = day_text (e - w + 1)" "trim start = start" using is_day_trim [OF day(1)] unfolding s by simp_all
  show thesis
    by (rule that [OF day(3) at]) (use w is_day_bounds [OF day(1)] False in simp_all)
qed

lemma last_completed_plain:
  assumes "lastCompletedDay host zone now = Inr t"
  shows "trim t = t"
proof -
  obtain today where "addDaysDateOnly (JStr today) (- 1) = Inr t"
    using assms by (auto simp: lastCompletedDay_def bind_res_Inr_iff)
  then obtain z where z: "is_day z (trim (js_text (JStr today)))" "t = day_text (z + - 1)" by (rule addDays_day)
  show ?thesis unfolding z(2) by (rule day_text_near) (use is_day_bounds [OF z(1)] in auto)
qed

lemma previous_days:
  assumes "previousPeriod (day_text s) w = Inr (cs, ce)" "0 \<le> s" "s \<le> 100000"
  shows "ce = day_text (s - 1) \<and> cs = day_text (s - w)"
proof -
  have ce: "addDaysDateOnly (JStr (day_text s)) (- 1) = Inr ce" and cs: "addDaysDateOnly (JStr ce) (- (w - 1)) = Inr cs"
    using assms(1) by (auto simp: previousPeriod_def bind_res_Inr_iff)
  obtain z where z: "is_day z (trim (day_text s))" "ce = day_text (z + - 1)" using addDays_day [OF ce] by auto
  have "z = s"
    using day_text_inj [of z s] is_day_trim [OF z(1)] is_day_bounds [OF z(1)] day_text_near [OF assms(2,3)] assms(2,3) by simp
  obtain x where x: "is_day x (trim ce)" "cs = day_text (x + - (w - 1))" using addDays_day [OF cs] by auto
  have b: "0 \<le> z + - 1" "z + - 1 \<le> 100000" using is_day_bounds [OF z(1)] by auto
  have "x = s - 1"
    using day_text_inj [of x "s - 1"] is_day_trim [OF x(1)] is_day_bounds [OF x(1)] day_text_near [OF b] b z(2) \<open>z = s\<close> by simp
  then show ?thesis using z(2) x(2) \<open>z = s\<close> by (simp add: algebra_simps)
qed

text \<open>The period as day numbers: the window of \<open>w\<close> days that ends on day \<open>e\<close>, and the one before it.\<close>

definition period_days :: "report_period \<Rightarrow> int \<Rightarrow> bool" where
  "period_days p e \<longleftrightarrow> (let w = rp_windowDays p in
     is_day e (rp_periodEnd p) \<and> 1 \<le> w \<and> rp_periodStart p = day_text (e - w + 1)
   \<and> (if rp_comparisonMode p = ''none'' then rp_compareStart p = None \<and> rp_compareEnd p = None
      else rp_compareEnd p = Some (day_text (e - w)) \<and> rp_compareStart p = Some (day_text (e - 2 * w + 1))))"

lemma resolved_period_days:
  assumes "resolveReportPeriod host inp now = Inr p"
  shows "\<exists>e zone last. period_days p e \<and> lastCompletedDay host zone now = Inr last \<and> rp_periodEnd p \<le> last
    \<and> (rp_periodKind p = ''rolling_days'' \<longrightarrow> rp_windowDays p \<in> set REPORT_ROLLING_PRESET_DAYS)"
proof -
  obtain zone mode kind last end_day start w cmp where
      mode: "requireComparisonMode (nullish (jget inp ''comparisonMode'') (JStr ''previous_period'')) = Inr mode"
    and kind: "requirePeriodKind (nullish (jget inp ''periodKind'') (JStr ''rolling_days'')) = Inr kind"
    and last: "lastCompletedDay host zone now = Inr last"
    and end_day: "(if truthy (jget inp ''periodEnd'')
               then requireDateOnly (jget inp ''periodEnd'') (date_label ''periodEnd'') else Inr last) = Inr end_day"
    and le: "\<not> last < end_day"
    and win: "period_window kind inp end_day = Inr (start, w)"
    and cmp: "(if mode = ''none'' then Inr (None, None)
               else bind_res (previousPeriod start w) (\<lambda>(s, e). Inr (Some s, Some e))) = Inr cmp"
    and p: "p = \<lparr>rp_periodKind = kind, rp_windowDays = w, rp_periodStart = start,
          rp_periodEnd = end_day, rp_comparisonMode = mode, rp_compareStart = fst cmp, rp_compareEnd = snd cmp\<rparr>"
    using assms by (auto simp: resolveReportPeriod_def bind_res_Inr_iff split_beta split: if_splits)
  have "trim end_day = end_day"
    using end_day last_completed_plain [OF last] requireDateOnly_trim by (auto split: if_splits)
  moreover have "kind \<in> set REPORT_PERIOD_KINDS"
    using kind by (auto simp: requirePeriodKind_def bind_res_Inr_iff Let_def split: if_splits)
  ultimately obtain e where e: "is_day e end_day" "start = day_text (e - w + 1)" "trim start = start" "1 \<le> w" "0 \<le> e - w + 1"
      "kind = ''rolling_days'' \<longrightarrow> w \<in> set REPORT_ROLLING_PRESET_DAYS"
    using window_days [OF win] by blast
  have "if mode = ''none'' then cmp = (None, None) else cmp = (Some (day_text (e - 2 * w + 1)), Some (day_text (e - w)))"
  proof (cases "mode = ''none''")
    case False
    then obtain cs ce where prev: "previousPeriod start w = Inr (cs, ce)" "cmp = (Some cs, Some ce)"
      using cmp by (auto simp: bind_res_Inr_iff)
    then have "addDaysDateOnly (JStr start) (- 1) = Inr ce" by (auto simp: previousPeriod_def bind_res_Inr_iff)
    then obtain z where "is_day z (trim (js_text (JStr start)))" by (rule addDays_day)
    then have z: "is_day z (trim start)" by simp
    have start: "start = day_text z" using is_day_trim [OF z] e(3) by simp
    have "ce = day_text (z - 1) \<and> cs = day_text (z - w)"
      by (rule previous_days) (use prev(1) start is_day_bounds [OF z] in auto)
    moreover have "z = e - w + 1"
      using day_text_inj [of z "e - w + 1"] start e(2,4,5) is_day_bounds [OF z] is_day_bounds [OF e(1)] by simp
    ultimately show ?thesis using prev(2) False by (simp add: algebra_simps)
  qed (use cmp in simp)
  then have "period_days p e" using e by (simp add: period_days_def p)
  then show ?thesis using last le e(6) by (auto simp: p not_less)
qed

end
