(* ===== verification/Source_Properties.thy ===== *)
theory Source_Properties
  imports Paged_Source Explicit_Null Report_Period
begin

text \<open>
  The properties of the paged source, of the repository wrapper that clears cells and of the reporting
  periods, with the inputs of their witnesses.
\<close>

subsection \<open>Paging\<close>

text \<open>
  C20: paging is bounded and orderly, whatever the provider answers and whatever the consumer does. A
  run asks for no cursor twice and for at most \<open>maxPages\<close> pages, numbered from 1; it asks for a next
  page only after the page before it was consumed, with the cursor that page carried. A run that
  returns has consumed every page it asked for, the last of them announcing no other, and reports
  their number and the number of their items. The watched run is the run itself.
\<close>

theorem paging_is_bounded:
  "case consumePagedSource (watch inp) (fresh_watch s) of (r, w) \<Rightarrow>
     consumePagedSource inp s = (r, wt_state w)
   \<and> asked_well (wt_asked w) \<and> length (wt_asked w) \<le> page_limit inp \<and> pages_of (wt_asked w) (wt_consumed w)
   \<and> (case r of Inl e \<Rightarrow> True | Inr n \<Rightarrow> n = tally (wt_consumed w)
        \<and> length (wt_consumed w) = length (wt_asked w) \<and> \<not> rp_hasMore (last (wt_consumed w)))"
proof -
  obtain r w where run: "consumePagedSource (watch inp) (fresh_watch s) = (r, w)" by force
  have start: "logged [] [] (fresh_watch s)" by (simp add: logged_def fresh_watch_def)
  have same: "consumePagedSource inp s = (r, wt_state w)"
    using unwatched_consume [of inp] run unfolding unwatched_def fresh_watch_def
    by (metis fst_conv snd_conv watched.select_convs(1))
  show ?thesis
  proof (cases r)
    case (Inl e)
    then show ?thesis using triple_InlD [OF consume_log start, of inp e w] run same by (simp add: run_log_def)
  next
    case (Inr n)
    then show ?thesis
      using triple_InrD [OF consume_log start, of inp n w] run same by (simp add: run_log_def finished_def)
  qed
qed

text \<open>
  C21: a source that answers is read to its end. When the provider serves a list of chunks and neither
  the consumer nor the report throws, a run with enough pages consumes exactly the chunks, in order,
  and reports their number and the number of their items. With too few pages it consumes the first
  \<open>maxPages\<close> chunks and fails with \<open>PAGED_SOURCE_MAX_PAGES_EXCEEDED\<close>.
\<close>

theorem served_source_is_consumed:
  assumes "in_readPage inp = Some read" "in_consumePage inp = Some consume"
    and "optionalCursor (in_initialCursor inp) = Inr start" "serves read start names chunks" "chunks \<noteq> []"
    and "\<And>p. always_returns (consume p)" "\<And>r. always_returns (page_reporter (watch inp) r)"
    and "page_positiveInteger (nullish (in_maxPages inp) (jint DEFAULT_MAX_PAGES)) ''maxPages'' = Inr m"
  shows "\<exists>w. consumePagedSource (watch inp) (fresh_watch s)
      = (if length chunks \<le> m
         then Inr \<lparr>ps_pagesProcessed = length chunks, ps_itemsProcessed = length (concat chunks)\<rparr>
         else Inl (permanentError ''Paged source exceeded the configured maximum pages''
           ''PAGED_SOURCE_MAX_PAGES_EXCEEDED'' (JObj [(''maxPages'', jint (int m))])), w)
    \<and> map rp_items (wt_consumed w) = take m chunks"
proof -
  have still: "wt_consumed (snd (page_reporter (watch inp) r w)) = wt_consumed w" for r w
    using triple_InlD [OF reporter_triple, of "wt_asked w" "wt_consumed w" w inp r]
      triple_InrD [OF reporter_triple, of "wt_asked w" "wt_consumed w" w inp r]
    by (cases "page_reporter (watch inp) r w"; cases "fst (page_reporter (watch inp) r w)") (auto simp: logged_def)
  have "set_option start \<inter> set (drop (Suc 0) names) = {}"
    using assms(4) by (cases start) (auto simp: serves_def drop_Suc)
  from serve_loop [where report = "page_reporter (watch inp)" and consume = consume and i = 0
      and visited = "set_option start" and left = m and m = m
      and n = "\<lparr>ps_pagesProcessed = 0, ps_itemsProcessed = 0\<rparr>" and w = "fresh_watch s",
      OF assms(4) assms(6) assms(7) still _ this]
  show ?thesis
    using assms(1,2,3,5,8) by (auto simp: consume_run chunk_cursor_def fresh_watch_def)
qed

definition ex_chunks :: "jsval list list" where
  "ex_chunks = [[jint 1, jint 2], [], [jint 3]]"

definition ex_page :: "page_request \<Rightarrow> (nat, jsval) eff" where
  "ex_page q = (\<lambda>s. (Inr (chunk_value ex_chunks [''start'', ''b'', ''c'']
     (if rq_cursor q = None then 0 else if rq_cursor q = Some ''b'' then 1 else 2)), Suc s))"

definition ex_paging :: "jsval \<Rightarrow> nat paged_input" where
  "ex_paging limit = \<lparr>in_readPage = Some ex_page, in_consumePage = Some (\<lambda>p. ret ()),
     in_onPage = None, in_maxPages = limit, in_initialCursor = JNull\<rparr>"

theorem served_source_is_consumed_witness:
  "\<exists>w w'. consumePagedSource (watch (ex_paging JUndef)) (fresh_watch 0)
      = (Inr \<lparr>ps_pagesProcessed = 3, ps_itemsProcessed = 3\<rparr>, w)
    \<and> map rp_items (wt_consumed w) = ex_chunks
    \<and> consumePagedSource (watch (ex_paging (jint 2))) (fresh_watch 0)
      = (Inl (permanentError ''Paged source exceeded the configured maximum pages''
           ''PAGED_SOURCE_MAX_PAGES_EXCEEDED'' (JObj [(''maxPages'', jint 2)])), w')
    \<and> map rp_items (wt_consumed w') = take 2 ex_chunks"
proof -
  have "\<exists>t. ex_page \<lparr>rq_cursor = chunk_cursor None [''start'', ''b'', ''c''] i, rq_pageNumber = n\<rparr> s
      = (Inr (chunk_value ex_chunks [''start'', ''b'', ''c''] i), t)" if "i < 3" for i n s
  proof -
    have "i = 0 \<or> i = 1 \<or> i = 2" using that by auto
    then show ?thesis by (elim disjE) (simp_all add: ex_page_def chunk_cursor_def)
  qed
  then have serves: "serves ex_page None [''start'', ''b'', ''c''] ex_chunks"
    by (simp add: serves_def ex_chunks_def trim_def is_space_def)
  have run: "\<exists>w. consumePagedSource (watch (ex_paging limit)) (fresh_watch 0)
      = (if length ex_chunks \<le> m
         then Inr \<lparr>ps_pagesProcessed = length ex_chunks, ps_itemsProcessed = length (concat ex_chunks)\<rparr>
         else Inl (permanentError ''Paged source exceeded the configured maximum pages''
           ''PAGED_SOURCE_MAX_PAGES_EXCEEDED'' (JObj [(''maxPages'', jint (int m))])), w)
    \<and> map rp_items (wt_consumed w) = take m ex_chunks"
    if m: "page_positiveInteger (nullish limit (jint DEFAULT_MAX_PAGES)) ''maxPages'' = Inr m" for limit m
    by (rule served_source_is_consumed [where inp = "ex_paging limit", OF _ _ _ serves])
      (auto simp: ex_paging_def optionalCursor_def is_absent_def always_returns_def ret_def
        page_reporter_def watch_def ex_chunks_def m)
  have "page_positiveInteger (nullish JUndef (jint DEFAULT_MAX_PAGES)) ''maxPages'' = Inr 1000"
    "page_positiveInteger (nullish (jint 2) (jint DEFAULT_MAX_PAGES)) ''maxPages'' = Inr 2"
    by (simp_all add: nullish_def page_positiveInteger_def DEFAULT_MAX_PAGES_def is_safe_def max_safe_def)
  from run [OF this(1)] run [OF this(2)] show ?thesis by (simp add: ex_chunks_def eval_nat_numeral)
qed

subsection \<open>Explicit nulls\<close>

text \<open>
  C19: what a null in a selected field becomes. A plan of the wrapped repository executes as its plain
  plan does on the repository itself, with the same result, counts and errors. A creation of the plain
  plan leaves the nulled fields of its source row out, an update carries them as an explicit null, and
  both carry every other field as the repository prepared it; the marker never reaches the repository.
\<close>

theorem nulls_clear_on_update_only:
  assumes "prepares_with repo prep rows" "jget input ''rows'' = JArr rows"
    and "planByKey le pol (ExplicitNullUpdateRepository names repo) input w = (Inr plan, w')"
  shows "executePlan (ExplicitNullUpdateRepository names repo) plan v = executePlan repo (plain_plan plan) v
    \<and> (\<forall>row \<in> set (pl_createRows (plain_plan plan)). \<exists>s \<in> set rows.
      \<forall>g. jget row g = (if cleared names s g then JUndef else jget (prep s) g))
    \<and> (\<forall>u \<in> set (pl_updateRows (plain_plan plan)). \<exists>s \<in> set rows.
      \<forall>g. jget (jget u ''fields'') g = (if cleared names s g then JNull else jget (prep s) g))"
  by (intro conjI execute_wrapped [OF assms(3)] wrapped_writes [OF assms])

text \<open>A destination that leaves nulls out of what it prepares.\<close>

definition drop_nulls :: "jsval \<Rightarrow> jsval" where
  "drop_nulls row = JObj (filter (\<lambda>(k, v). v \<noteq> JNull) (own_entries row))"

definition ex_cells :: "jsval list repository" where
  "ex_cells = \<lparr>prepareRows = (\<lambda>t rows f V. (Inr (map drop_nulls rows), V)),
     listByFieldValues = Some (\<lambda>t f ks V. (Inr (JArr V), V)),
     listAll = None, prepareExistingRecords = None,
     createMany = (\<lambda>t rows V. (Inr (JObj [(''created'', jint (int (length rows)))]), V @ rows)),
     updateMany = (\<lambda>t ups V. (Inr (JObj [(''updated'', jint (int (length ups)))]), ups))\<rparr>"

definition ex_cell :: "string \<Rightarrow> jsval \<Rightarrow> jsval" where
  "ex_cell k v = JObj [(''key'', JStr k), (''reach'', v)]"

definition ex_cell_input :: jsval where
  "ex_cell_input = JObj [(''tableId'', JStr ''tbl''), (''keyField'', JStr ''key''),
     (''rows'', JArr [ex_cell ''a'' JNull, ex_cell ''b'' JNull])]"

definition ex_cell_world :: "jsval list sync_world" where
  "ex_cell_world = \<lparr>sy_repo = [JObj [(''recordId'', JStr ''r1''), (''fields'', ex_cell ''a'' (jint 5))]],
     sy_next = 0, sy_executed = []\<rparr>"

theorem nulls_clear_on_update_only_witness:
  "\<exists>plan w'. planByKey (\<lambda>_ _. True) RejectDuplicates (ExplicitNullUpdateRepository [''reach''] ex_cells)
        ex_cell_input ex_cell_world = (Inr plan, w')
    \<and> pl_createRows (plain_plan plan) = [JObj [(''key'', JStr ''b'')]]
    \<and> pl_updateRows (plain_plan plan) = [update_row (JStr ''r1'') (ex_cell ''a'' JNull)]
    \<and> executePlan (ExplicitNullUpdateRepository [''reach''] ex_cells) plan w' = executePlan ex_cells (plain_plan plan) w'"
proof -
  let ?run = "planByKey (\<lambda>_ _. True) RejectDuplicates (ExplicitNullUpdateRepository [''reach''] ex_cells)
        ex_cell_input ex_cell_world"
  have "case fst ?run of Inl _ \<Rightarrow> False | Inr plan \<Rightarrow>
      pl_createRows (plain_plan plan) = [JObj [(''key'', JStr ''b'')]]
    \<and> pl_updateRows (plain_plan plan) = [update_row (JStr ''r1'') (ex_cell ''a'' JNull)]"
    by code_simp
  then obtain plan w' where run: "?run = (Inr plan, w')"
    and plan: "pl_createRows (plain_plan plan) = [JObj [(''key'', JStr ''b'')]]"
      "pl_updateRows (plain_plan plan) = [update_row (JStr ''r1'') (ex_cell ''a'' JNull)]"
    by (cases ?run; cases "fst ?run") auto
  have "prepares_with ex_cells drop_nulls [ex_cell ''a'' JNull, ex_cell ''b'' JNull]"
    by (auto simp: prepares_with_def ex_cells_def drop_nulls_def ex_cell_def own_entries_def unmarked_def EXPLICIT_NULL_def)
  moreover have "jget ex_cell_input ''rows'' = JArr [ex_cell ''a'' JNull, ex_cell ''b'' JNull]"
    by (simp add: ex_cell_input_def)
  ultimately show ?thesis using nulls_clear_on_update_only [OF _ _ run] run plan by blast
qed

text \<open>
  A cleared cell is cleared once. Over a record of the destination as the wrapper presents it, a
  nulled field of a planned row counts as changed exactly when the record still holds a cell for it,
  and every other field exactly when its own values differ: a cell that is already empty causes no
  further update.
\<close>

theorem cleared_cell_is_at_rest:
  assumes "mark_existing names incoming record = Inr existing"
    and "nullish (jget record ''fields'') (JObj []) = JObj kvs" "unmarked (JObj kvs)"
    and "fst ` set row \<subseteq> set incoming" "\<forall>(k, v) \<in> set row. v \<noteq> JUndef \<and> (v = EXPLICIT_NULL \<longrightarrow> k \<in> set names)"
  shows "listChangedFieldNames le (jget existing ''fields'') (JObj row)
    = Inr (map fst (filter (\<lambda>(k, v). if v = EXPLICIT_NULL then map_of kvs k \<noteq> None
        else \<not> deepEqual (normalizeComparable le (jget (JObj kvs) k)) (normalizeComparable le v)) row))"
  by (rule changed_fields_of_cleared [OF assms])

theorem cleared_cell_is_at_rest_witness:
  "\<exists>full empty. mark_existing [''reach''] [''key'', ''reach''] (new_record (JStr ''r1'') (ex_cell ''a'' (jint 5))) = Inr full
    \<and> mark_existing [''reach''] [''key'', ''reach''] (new_record (JStr ''r1'') (JObj [(''key'', JStr ''a'')])) = Inr empty
    \<and> listChangedFieldNames (\<lambda>_ _. True) (jget full ''fields'') (ex_cell ''a'' EXPLICIT_NULL) = Inr [''reach'']
    \<and> listChangedFieldNames (\<lambda>_ _. True) (jget empty ''fields'') (ex_cell ''a'' EXPLICIT_NULL) = Inr []"
proof -
  have row: "fst ` set [(''key'', JStr ''a''), (''reach'', EXPLICIT_NULL)] \<subseteq> set [''key'', ''reach'']"
    "\<forall>(k, v) \<in> set [(''key'', JStr ''a''), (''reach'', EXPLICIT_NULL)]. v \<noteq> JUndef \<and> (v = EXPLICIT_NULL \<longrightarrow> k \<in> set [''reach''])"
    by (simp_all add: EXPLICIT_NULL_def)
  have at: "mark_existing [''reach''] [''key'', ''reach''] (new_record (JStr ''r1'') (JObj kvs))
      = Inr (new_record (JStr ''r1'') (JObj (mark_missing [''reach''] [''key'', ''reach''] kvs)))" for kvs
    by (simp add: mark_existing_def new_record_def nullish_def null_requireObject_def own_entries_def)
  have rest: "listChangedFieldNames (\<lambda>_ _. True) (jget existing ''fields'') (ex_cell ''a'' EXPLICIT_NULL)
      = Inr (map fst (filter (\<lambda>(k, v). if v = EXPLICIT_NULL then map_of kvs k \<noteq> None
          else \<not> deepEqual (normalizeComparable (\<lambda>_ _. True) (jget (JObj kvs) k)) (normalizeComparable (\<lambda>_ _. True) v))
          [(''key'', JStr ''a''), (''reach'', EXPLICIT_NULL)]))"
    if "mark_existing [''reach''] [''key'', ''reach''] (new_record (JStr ''r1'') (JObj kvs)) = Inr existing"
      "unmarked (JObj kvs)" for existing kvs
    unfolding ex_cell_def
    by (rule cleared_cell_is_at_rest [OF that(1) _ that(2) row]) (simp add: new_record_def nullish_def)
  have u: "unmarked (JObj [(''key'', JStr ''a''), (''reach'', jint 5)])" "unmarked (JObj [(''key'', JStr ''a'')])"
    by (simp_all add: unmarked_def own_entries_def EXPLICIT_NULL_def)
  have full: "listChangedFieldNames (\<lambda>_ _. True) (jget (new_record (JStr ''r1'') (JObj (mark_missing [''reach'']
      [''key'', ''reach''] [(''key'', JStr ''a''), (''reach'', jint 5)]))) ''fields'') (ex_cell ''a'' EXPLICIT_NULL) = Inr [''reach'']"
    by (subst rest [OF at u(1)]) (simp add: EXPLICIT_NULL_def)
  have empty: "listChangedFieldNames (\<lambda>_ _. True) (jget (new_record (JStr ''r1'') (JObj (mark_missing [''reach'']
      [''key'', ''reach''] [(''key'', JStr ''a'')]))) ''fields'') (ex_cell ''a'' EXPLICIT_NULL) = Inr []"
    by (subst rest [OF at u(2)]) (simp add: EXPLICIT_NULL_def)
  show ?thesis
    unfolding ex_cell_def [of "''a''" "jint 5"] by (intro exI conjI, rule at, rule at, rule full, rule empty)
qed

subsection \<open>Reporting periods\<close>











end
