(* ===== verification/Spec2Isabelle.thy ===== *)
theory Spec2Isabelle
  imports Lease_Lock Memory_Work_Store Work_Phases Work_Recovery Dead_Letters Queue_Guarantees
    Mirror_Outbox Checkpoint_Store Table_Sync_Guarantees Data_Properties Worker_Properties Runner_Properties
    Source_Properties
begin

text \<open>
  \<^bold>\<open>The program.\<close> The repository synchronises marketing data of social platforms, shops and chat
  tools into Lark tables. Jobs arrive from a queue; a worker runs each job under a lease, reads a
  provider page by page, stages what it read, writes the business tables and commits a checkpoint.
  Jobs are retried and redelivered, workers die between two statements, and two invocations may
  work on one source at once. The program's own core is the protocol that makes this safe, and this
  development models it: the queue worker (\<open>apps/sync-worker/src\<close>: router, recovery, support), the
  stores of \<open>packages/reliability/src\<close> and \<open>packages/sync-engine/src\<close>, the jobs of
  \<open>packages/application/src/jobs\<close>, the entities of \<open>packages/domain/src\<close>, the runtime configuration of
  \<open>packages/config/src\<close>, the errors, dates and numbers of \<open>packages/shared/src\<close>, and the tables of
  \<open>migrations/\<close>.

  \<^bold>\<open>Foundations.\<close> \<open>Prelude\<close> models JavaScript values (\<open>jsval\<close>) with \<open>Number()\<close>, \<open>String()\<close>,
  \<open>trim\<close> and property access. \<open>Runtime_Errors\<close> is \<open>runtime-error.js\<close>: the error record, its
  constructors, and the sanitizers of operational and replay values. \<open>Effects\<close> is the shape of every
  operation: a function from a state to \<open>Inl\<close> of the thrown error or \<open>Inr\<close> of the returned value,
  and a new state; \<open>evolves\<close> carries a relation of states through an operation, \<open>triple\<close> carries
  pre- and postconditions. \<open>D1_Database\<close> is the database: one list of rows per table, the SQL
  statements the stores use, and a schedule of faults by which a statement may be refused, or take
  effect and lose its reply. Every theorem on a store holds for every such schedule unless it says
  that the database is \<open>quiet\<close>.

  \<^bold>\<open>Stores.\<close>
  \<^item> \<open>Lease_Lock\<close>: \<open>in-memory-lease-lock-manager.js\<close>, \<open>acquire/renew/release\<close> of
    \<open>d1-reliability-store.js\<close>, and \<open>d1-stale-aware-reliability-store.js\<close>. The locale \<open>lease_lock\<close> is
    their common contract; all three interpret it.
  \<^item> \<open>Work_Contract\<close>, \<open>Memory_Work_Store\<close>, \<open>D1_Work_Store\<close>, \<open>D1_Work_Lifecycle\<close>,
    \<open>Queue_Terminal_Safe\<close>: the resumable work stores (\<open>in-memory-resumable-work-store.js\<close>,
    \<open>d1-resumable-work-store.js\<close>, \<open>queue-terminal-safe-d1-resumable-work-store.js\<close>). The locale
    \<open>generation_fence\<close> is the contract of the generation fence; \<open>D1_Work_Fence\<close> and
    \<open>Memory_Work_Store\<close> interpret it. \<open>Work_Guarantees\<close>, \<open>Work_Phases\<close> and \<open>Work_Recovery\<close> hold the
    lifecycle, staging and revival of works, with \<open>visitWorkUnits\<close> of \<open>sync-youtube-organic-to-lark.js\<close>.
  \<^item> \<open>Reliability_Store\<close>, \<open>Dead_Letters\<close>: sync runs, alerts and dead letters with their redrive
    protocol in \<open>d1-reliability-store.js\<close>.
  \<^item> \<open>Queue_Operations\<close>, \<open>Queue_Guarantees\<close>: delivery attempts and bounded automatic recovery of
    \<open>d1-queue-operation-store.js\<close>.
  \<^item> \<open>Mirror_Outbox\<close>: \<open>d1-reliability-mirror-outbox.js\<close>, \<open>durable-mirror-reliability-store.js\<close> and
    \<open>deliver-reliability-mirror.js\<close>. The Lark client is a parameter that may also let other
    invocations schedule records while a call is in flight.
  \<^item> \<open>Checkpoint_Store\<close>: \<open>d1-incremental-state-store.js\<close>. Between two statements of a save other
    invocations act on the database; the theorems ask only that they move fences forward and, where
    a theorem says so, leave this cursor alone.
  \<^item> \<open>Table_Sync\<close>, \<open>Table_Sync_Guarantees\<close>: \<open>table-sync-engine.js\<close> over a repository that is a
    parameter. \<open>stores_rows\<close> is the contract of a destination that stores what it is given; only
    \<open>synchronisation_is_idempotent\<close> uses it, and a destination in memory meets it.
  \<^item> \<open>Explicit_Null\<close>: \<open>explicit-null-update-repository.js\<close>, a repository of the engine around another
    one. Its theorems compare a plan of the wrapper with its plain plan on the repository inside.
  \<^item> \<open>Paged_Source\<close>: \<open>application/src/pagination/paged-source.js\<close>. The provider and the consumer are
    parameters; \<open>watch\<close> adds a log of requests and pages to a run without changing it.

  \<^bold>\<open>Data.\<close>
  \<^item> \<open>Dates\<close>, \<open>Gregorian\<close>: \<open>date-only.js\<close> and \<open>date-time.js\<close> over a model of the proleptic calendar, of
    \<open>toISOString\<close> and of the ISO format of \<open>Date.parse\<close>. \<open>Gregorian\<close> proves that the calendar is the
    usual one. The record \<open>js_host\<close> holds what the host decides: other date texts, the offsets of a
    time zone, and products and quotients that are not exact.
  \<^item> \<open>Domain_Entities\<close>: log entries, alerts, keys, advertising rows, money, rates and content rows
    (\<open>packages/domain/src\<close>, \<open>strict-number.js\<close>).
  \<^item> \<open>Runtime_Config\<close>: \<open>customer-profiles.js\<close>, \<open>connector-catalog.js\<close>, \<open>connector-runtime-config.js\<close>,
    \<open>large-account-readiness.js\<close> and \<open>metric-date-config.js\<close>.
  \<^item> \<open>Queue_Jobs\<close>: the job catalog, \<open>JSON.parse\<close>, \<open>queue-job.js\<close> and \<open>queue-operation.js\<close>.
  \<^item> \<open>Report_Period\<close>: \<open>report-period.js\<close>, \<open>buildDashboardPresetJob\<close> and the setting keys of
    \<open>report-settings.seed.js\<close>.
  \<^item> \<open>Data_Properties\<close> and \<open>Source_Properties\<close> state the properties of these parts, of the paged
    source and of the wrapper.

  \<^bold>\<open>The worker.\<close>
  \<^item> \<open>Worker_Support\<close>: one invocation's environment and state (database, clock, queue, log, settled
    messages, and the local variables that a \<open>catch\<close> block reads) and \<open>worker-runtime-support.js\<close>.
  \<^item> \<open>Queue_Recovery\<close>: \<open>queue-auto-recovery.js\<close>. \<open>Queue_Router\<close>: \<open>queue-batch-router.js\<close>. The job to
    run is a parameter of the router, as in the code.
  \<^item> \<open>Queue_Router_Guarantees\<close>: the locale \<open>db_frame\<close> lists what the router asks of the stores, and
    \<open>worker_frame\<close> and \<open>settling_frame\<close> lift it to the worker; the stores interpret it with three
    relations (dead letters are kept, no message is settled, the recovery budget). \<open>Worker_Properties\<close>
    states the properties.

  \<^bold>\<open>The run under a lease.\<close>
  \<^item> \<open>Reliable_Runner\<close>: \<open>reliable-sync-runner.js\<close>: the lock key, the heartbeat with its renewals, the run
    with its records, alerts and release, and the delivery of pending warnings. The job is a parameter.
    A schedule says what happens at each await: the timer fires, or another invocation changes the
    database at the time the clock shows.
  \<^item> \<open>Runner_Guarantees\<close>: the locales \<open>runner_steps\<close> and \<open>runner_renewing\<close> say what a property of the
    world needs so that the runner keeps it; they are interpreted for the worlds before the lease, under
    it, on a sound database and after the release. The laws of the leases come from \<open>stale_lock\<close> and
    \<open>d1_lock\<close>, and \<open>lock_user_defers\<close> shows that every other user of the lock manager meets what the
    theorems ask of the other invocations. \<open>Runner_Progress\<close>: a run that nothing disturbs succeeds.
    \<open>Runner_Properties\<close> states the properties.

  \<^bold>\<open>Correspondence.\<close> An operation has the name of its method, with a prefix where several classes
  share it (\<open>mem_\<close>, \<open>d1_\<close>, \<open>work_\<close>, \<open>safe_\<close>, \<open>mir_\<close>, \<open>dur_\<close>, \<open>inc_\<close>, \<open>eng_\<close>, \<open>null_\<close>) or several modules have a
  helper of that name (\<open>op_\<close>, \<open>job_\<close>, \<open>log_\<close>, \<open>alert_\<close>, \<open>ads_\<close>, \<open>org_\<close>, \<open>profile_\<close>, \<open>page_\<close>, \<open>period_\<close>, ..). A name \<open>sql_..\<close>
  is one statement. \<open>this.now()\<close> is an argument; in the worker it is the next value of the clock. A
  constructor's options are a configuration record or an argument. A row type lists the columns of its
  table, and a column with a \<open>CHECK (.. IN ..)\<close> is a datatype. \<open>Object.freeze\<close> has no counterpart,
  because values are immutable.

  \<^bold>\<open>Bounds.\<close> Loops recurse on their data. \<open>visitWorkUnits\<close> is bounded by the program's own page limit,
  and \<open>visit_work_units_complete\<close> proves that it visits every unit within it; \<open>converge\<close> makes the six
  attempts of the code; \<open>JSON_parse\<close> has fuel for two calls per character, and every call consumes a
  character or ends. The loop of a paged source recurses on the pages it may still read. Integers are mathematical: the program accepts only safe integers, and the
  validators are modelled. Text is a list of characters below 256; a literal outside ASCII stands as
  its UTF-8 bytes, and length limits count characters.

  \<^bold>\<open>Not modelled.\<close> Listing pending warnings of the in-memory store (its order depends on
  \<open>localeCompare\<close>), the single TikTok incident of the queue store, progress and diagnostics
  callbacks, the \<open>cause\<close> chain of errors, \<open>Date\<close> objects as values, and sharing inside a value (a
  value is a tree). In a run, the errors reported to \<open>onReliabilityError\<close> are kept as stages and errors;
  a timer that fires while the job itself renews is left out, and so are the checks that the injected
  collaborators are functions. Outside the components above: scheduled jobs, the field-name schemas,
  provider and Lark clients, OAuth, reports, and the operator scripts. They call external services or
  assemble data for them, and keep no state of their own that other invocations share.
\<close>

section \<open>Leases\<close>

text \<open>
  C1: mutual exclusion of the production lease lock (\<open>D1StaleAwareReliabilityStore\<close>). After an
  acquisition is granted, whatever acquire, renew and release requests the other owners make before
  the lease ends, and whatever faults the statements meet, the key stays with its holder until the
  end of the lease and no such request is granted.
\<close>

theorem lease_exclusion:
  assumes "locks_keyed s" "op_valid (Acquire k w l t)"
    and "stale_aware_acquire (lock_input k w l) t s = (Inr r, s1)" "lr_ok r"
    and "\<forall>x \<in> set xs. foreign_op k w (t + l) x"
    and "lock_run (\<lambda>k w l t. stale_aware_acquire (lock_input k w l) t)
           (\<lambda>k w l t. d1_renew (lock_input k w l) t) (\<lambda>k w. d1_release (release_input k w)) xs s1
         = (bs, s2)"
  shows "d1_holder s2 k = Some (w, t + l) \<and> list_all2 (\<lambda>x b. op_key x = k \<longrightarrow> \<not> b) xs bs"
  by (rule stale_lock.granted_exclusion [OF assms])

definition ex_locked :: d1 where
  "ex_locked = snd (stale_aware_acquire (lock_input ''k'' ''a'' 10) 0 empty_d1)"

theorem lease_exclusion_witness:
  "d1_holder (snd (lock_run (\<lambda>k w l t. stale_aware_acquire (lock_input k w l) t)
      (\<lambda>k w l t. d1_renew (lock_input k w l) t) (\<lambda>k w. d1_release (release_input k w))
      [Acquire ''k'' ''b'' 10 5, Release ''k'' ''b'', Renew ''k'' ''b'' 10 6] ex_locked)) ''k''
    = Some (''a'', 10)"
proof -
  let ?run = "lock_run (\<lambda>k w l t. stale_aware_acquire (lock_input k w l) t)
      (\<lambda>k w l t. d1_renew (lock_input k w l) t) (\<lambda>k w. d1_release (release_input k w))
      [Acquire ''k'' ''b'' 10 5, Release ''k'' ''b'', Renew ''k'' ''b'' 10 6] ex_locked"
  have a: "locks_keyed empty_d1" "op_valid (Acquire ''k'' ''a'' 10 0)"
    "\<forall>x \<in> set [Acquire ''k'' ''b'' 10 5, Release ''k'' ''b'', Renew ''k'' ''b'' 10 6].
       foreign_op ''k'' ''a'' (0 + 10) x"
    by code_simp+
  have b: "stale_aware_acquire (lock_input ''k'' ''a'' 10) 0 empty_d1 =
    (Inr \<lparr>lr_ok = True, lr_lockKey = ''k'', lr_ownerId = ''a'', lr_expiresAt = Some 10\<rparr>, ex_locked)"
    unfolding ex_locked_def by code_simp
  show ?thesis
    using lease_exclusion [OF a(1,2) b _ a(3) surjective_pairing [of ?run]] by simp
qed

text \<open>
  The lease of a crashed holder does not block the key: once it has expired, another owner's
  acquisition through the D1 lock is granted and the key is then held by that owner.
\<close>

theorem lease_takeover:
  assumes "locks_keyed s" "quiet s" "op_valid (Acquire k w l t)" "d1_holder s k = Some (v, e)" "e \<le> t"
  shows "\<exists>r s'. stale_aware_acquire (lock_input k w l) t s = (Inr r, s') \<and> lr_ok r
    \<and> d1_holder s' k = Some (w, t + l)"
  by (rule stale_lock.takeover [OF assms])

theorem lease_takeover_witness:
  "\<exists>r s'. stale_aware_acquire (lock_input ''k'' ''b'' 5) 10 ex_locked = (Inr r, s') \<and> lr_ok r
    \<and> d1_holder s' ''k'' = Some (''b'', 15)"
proof -
  have "locks_keyed ex_locked" "quiet ex_locked" "op_valid (Acquire ''k'' ''b'' 5 10)"
    "d1_holder ex_locked ''k'' = Some (''a'', 10)"
    by code_simp+
  then show ?thesis using lease_takeover [of ex_locked "''k''" "''b''" 5 10 "''a''" 10] by simp
qed

text \<open>
  The in-memory lease manager keeps the same contract: after a granted acquisition no other
  owner's request for the key is granted before the lease ends.
\<close>

theorem memory_lease_exclusion:
  assumes "op_valid (Acquire k w l t)"
    and "mem_acquire (lock_input k w l) t s = (Inr r, s1)" "lr_ok r"
    and "\<forall>x \<in> set xs. foreign_op k w (t + l) x"
    and "lock_run (\<lambda>k w l t. mem_acquire (lock_input k w l) t)
           (\<lambda>k w l t. mem_renew (lock_input k w l) t) (\<lambda>k w. mem_release (release_input k w)) xs s1
         = (bs, s2)"
  shows "mem_holder s2 k = Some (w, t + l) \<and> list_all2 (\<lambda>x b. op_key x = k \<longrightarrow> \<not> b) xs bs"
  by (rule mem_lock.granted_exclusion [OF _ assms]) simp

theorem memory_lease_exclusion_witness:
  "mem_holder (snd (mem_acquire (lock_input ''k'' ''b'' 10) 5
     (snd (mem_acquire (lock_input ''k'' ''a'' 10) 0 (\<lambda>_. None))))) ''k'' = Some (''a'', 10)"
proof -
  let ?a = "mem_acquire (lock_input ''k'' ''a'' 10) 0 (\<lambda>_. None)"
  let ?b = "mem_acquire (lock_input ''k'' ''b'' 10) 5 (snd ?a)"
  have v: "op_valid (Acquire ''k'' ''a'' 10 0)"
    "\<forall>x \<in> set [Acquire ''k'' ''b'' 10 5]. foreign_op ''k'' ''a'' (0 + 10) x"
    by code_simp+
  have a: "?a = (Inr \<lparr>lr_ok = True, lr_lockKey = ''k'', lr_ownerId = ''a'', lr_expiresAt = Some 10\<rparr>,
      snd ?a)"
    by (simp add: mem_lock_defs trim_def is_space_def requireText_def safe_number_def safe_int_def
        max_safe_def Let_def eff_simps)
  have "\<exists>b. lock_run (\<lambda>k w l t. mem_acquire (lock_input k w l) t)
           (\<lambda>k w l t. mem_renew (lock_input k w l) t) (\<lambda>k w. mem_release (release_input k w))
           [Acquire ''k'' ''b'' 10 5] (snd ?a) = ([b], snd ?b)"
    by (cases ?b) (auto split: sum.split)
  then show ?thesis using memory_lease_exclusion [OF v(1) a _ v(2)] by force
qed

text \<open>
  A refused acquisition of the production lock reports when the holder's lease ends, and
  changes nothing.
\<close>

theorem refused_lease_reports_expiry:
  assumes "locks_keyed s" "quiet s" "op_valid (Acquire k w l t)"
    and "d1_holder s k = Some (v, e)" "v \<noteq> w" "t < e" "is_safe e" "0 \<le> e"
  shows "stale_aware_acquire (lock_input k w l) t s =
    (Inr \<lparr>lr_ok = False, lr_lockKey = k, lr_ownerId = w, lr_expiresAt = Some e\<rparr>, s)"
  by (rule stale_acquire_busy [OF assms])

theorem refused_lease_reports_expiry_witness:
  "stale_aware_acquire (lock_input ''k'' ''b'' 10) 5 ex_locked =
    (Inr \<lparr>lr_ok = False, lr_lockKey = ''k'', lr_ownerId = ''b'', lr_expiresAt = Some 10\<rparr>, ex_locked)"
proof -
  have "locks_keyed ex_locked" "quiet ex_locked" "op_valid (Acquire ''k'' ''b'' 10 5)"
    "d1_holder ex_locked ''k'' = Some (''a'', 10)"
    by code_simp+
  then show ?thesis
    using refused_lease_reports_expiry [of ex_locked "''k''" "''b''" 10 5 "''a''" 10]
    by (simp add: is_safe_def max_safe_def)
qed

section \<open>The generation fence of a work\<close>

text \<open>
  C5: a superseded generation is shut out for ever. Once a job has begun work under generation
  \<open>g1\<close> through the production store, the generation check of every job with an older generation
  (or the same generation and another work) fails after any sequence of store operations, with any
  faults.
\<close>

theorem superseded_generation_shut_out:
  assumes "fences_keyed s" "work_beginWork cfg input now s = (Inr r, s1)"
    and "\<not> br_superseded r" "\<not> br_completed r"
    and "jget input ''cursorKey'' = JStr c" "jget input ''generation'' = jint g1" "is_safe g1"
    and "jget late ''cursorKey'' = JStr c" "jget late ''generation'' = jint g"
    and "jget late ''workKey'' = JStr w"
    and "g < g1 \<or> g = g1 \<and> trim w \<noteq> br_workKey r"
  shows "\<exists>e. fst (work_assertCurrentGeneration late (fold (safe_apply cfg) xs s1)) = Inl e"
  using safe_fence.superseded_for_ever [OF assms, where xs = xs]
  by (simp only: safe_fence.run_ops_def)

definition ex_cfg :: work_config where
  "ex_cfg = \<lparr>wc_unitPageSize = 100, wc_retentionMs = 1000\<rparr>"

definition ex_work :: work_input where
  "ex_work = \<lparr>wi_workKey = ''w'', wi_cursorKey = ''c'', wi_workType = ''t'', wi_fingerprint = ''f'',
     wi_generation = 1700000000000, wi_requestedAt = 1\<rparr>"

definition ex_begun :: d1 where
  "ex_begun = snd (work_beginWork ex_cfg (work_begin_input ex_work) 10 empty_d1)"

definition ex_late :: jsval where
  "ex_late = JObj [(''workKey'', JStr ''v''), (''cursorKey'', JStr ''c''), (''generation'', jint 4)]"

theorem superseded_generation_shut_out_witness:
  "\<exists>e. fst (work_assertCurrentGeneration ex_late
     (fold (safe_apply ex_cfg) [BeginWork ex_late 20] ex_begun)) = Inl e"
proof -
  have "fences_keyed empty_d1" "jget (work_begin_input ex_work) ''cursorKey'' = JStr ''c''"
    "jget (work_begin_input ex_work) ''generation'' = jint 1700000000000" "is_safe 1700000000000"
    "jget ex_late ''cursorKey'' = JStr ''c''" "jget ex_late ''generation'' = jint 4"
    "jget ex_late ''workKey'' = JStr ''v''"
    by code_simp+
  moreover have "work_beginWork ex_cfg (work_begin_input ex_work) 10 empty_d1 =
      (Inr (active_reply ''w'' False), ex_begun)"
    unfolding ex_begun_def by code_simp
  ultimately show ?thesis
    using superseded_generation_shut_out [of empty_d1 ex_cfg "work_begin_input ex_work" 10
      "active_reply ''w'' False" ex_begun "''c''" 1700000000000 ex_late 4 "''v''" "[BeginWork ex_late 20]"]
    by (simp add: active_reply_def)
qed

text \<open>
  The in-memory store keeps the same fence contract as the durable one.
\<close>

theorem memory_superseded_generation_shut_out:
  assumes "mem_beginWork input now s = (Inr r, s1)" "\<not> br_superseded r" "\<not> br_completed r"
    and "jget input ''cursorKey'' = JStr c" "jget input ''generation'' = jint g1" "is_safe g1"
    and "jget late ''cursorKey'' = JStr c" "jget late ''generation'' = jint g"
    and "jget late ''workKey'' = JStr w"
    and "g < g1 \<or> g = g1 \<and> trim w \<noteq> br_workKey r"
  shows "\<exists>e. fst (mem_assertCurrentGeneration late (fold mem_apply xs s1)) = Inl e"
  using mem_fence.superseded_for_ever [OF _ assms, where xs = xs]
  by (simp add: mem_fence.run_ops_def)

definition ex_mem :: mem_store where
  "ex_mem = projr (new_mem_store (JObj []))"

theorem memory_superseded_generation_shut_out_witness:
  "\<exists>e. fst (mem_assertCurrentGeneration ex_late (fold mem_apply [BeginWork ex_late 20]
     (snd (mem_beginWork (work_begin_input ex_work) 10 ex_mem)))) = Inl e"
proof -
  let ?s = ex_mem
  have "jget (work_begin_input ex_work) ''cursorKey'' = JStr ''c''"
    "jget (work_begin_input ex_work) ''generation'' = jint 1700000000000" "is_safe 1700000000000"
    "jget ex_late ''cursorKey'' = JStr ''c''" "jget ex_late ''generation'' = jint 4"
    "jget ex_late ''workKey'' = JStr ''v''"
    by code_simp+
  moreover have "fst (mem_beginWork (work_begin_input ex_work) 10 ?s) = Inr (active_reply ''w'' False)"
    by code_simp
  then have "mem_beginWork (work_begin_input ex_work) 10 ?s =
      (Inr (active_reply ''w'' False), snd (mem_beginWork (work_begin_input ex_work) 10 ?s))"
    by (simp add: prod_eq_iff)
  ultimately show ?thesis
    using memory_superseded_generation_shut_out [of "work_begin_input ex_work" 10 ?s
      "active_reply ''w'' False" _ "''c''" 1700000000000 ex_late 4 "''v''" "[BeginWork ex_late 20]"]
    by (simp add: active_reply_def)
qed

section \<open>The life of a work\<close>

text \<open>
  C6: completion is final. A completed work row of the production store stays exactly as it is under
  every sequence of begins, saves, resets, warnings, completions, abandonments, revivals and stale
  unit drops, with any faults; only the retention cleanup may remove it.
\<close>

theorem completed_work_is_final:
  assumes "completed_as w c s" "\<forall>x \<in> set xs. \<not> is_cleanup x"
  shows "completed_as w c (fold (safe_step cfg) xs s)"
  by (rule completed_for_ever [OF assms])

definition ex_completed :: d1 where
  "ex_completed = snd (work_completeWork ex_cfg
     (JObj [(''workKey'', JStr ''w''), (''completion'', JObj [(''rows'', jint 3)])]) 20 ex_begun)"

definition ex_completed_row :: work_row where
  "ex_completed_row = \<lparr>wk_key = ''w'', wk_cursor_key = ''c'', wk_type = ''t'', wk_fingerprint = ''f'',
     wk_generation = 1700000000000, wk_requested_at = 1, wk_lifecycle = Completed, wk_terminal_reason = None,
     wk_abandoned_at = None, wk_completed_at = Some 20, wk_expires_at = Some 1020, wk_audit = None,
     wk_completion = Some (JsonText (JObj [(''rows'', jint 3)])), wk_created_at = 10,
     wk_updated_at = 20\<rparr>"

theorem completed_work_is_final_witness:
  "completed_as ''w'' ex_completed_row (fold (safe_step ex_cfg)
     [WorkOp (AbandonWork (JObj [(''workKey'', JStr ''w''), (''reason'', JStr ''x'')]) 30),
      WorkOp (BeginWork (work_begin_input ex_work) 40)] ex_completed)"
proof (rule completed_work_is_final)
  show "completed_as ''w'' ex_completed_row ex_completed"
    unfolding completed_as_def by code_simp
qed simp




text \<open>
  A redelivered job whose work is completed gets the stored completion back; nothing is written.
\<close>

theorem completed_work_replays:
  assumes "quiet s" "work_input_ok i" "0 \<le> now" "is_safe now"
    and "completed_as (wi_workKey i) c s" "wk_generation c = wi_generation i"
    and "work_parseNullable (wk_completion c) ''completion_json'' = Inr v"
  shows "work_beginWork cfg (work_begin_input i) now s = (Inr (completed_reply (wi_workKey i) v), s)"
  by (rule completed_replays [OF assms])

theorem completed_work_replays_witness:
  "work_beginWork ex_cfg (work_begin_input ex_work) 30 ex_completed =
     (Inr (completed_reply ''w'' (JObj [(''rows'', jint 3)])), ex_completed)"
proof -
  have "quiet ex_completed" "work_input_ok ex_work" "is_safe 30"
    "wk_generation ex_completed_row = wi_generation ex_work"
    "work_parseNullable (wk_completion ex_completed_row) ''completion_json''
      = Inr (JObj [(''rows'', jint 3)])"
    by code_simp+
  moreover have "completed_as (wi_workKey ex_work) ex_completed_row ex_completed"
    unfolding completed_as_def by code_simp
  moreover have "wi_workKey ex_work = ''w''" by (simp add: ex_work_def)
  ultimately show ?thesis
    using completed_work_replays [of ex_completed ex_work 30 ex_completed_row _ ex_cfg] by simp
qed

text \<open>
  A job that is delivered again after its work was begun resumes the same work: the second
  begin finds it active and answers \<open>resumed\<close>.
\<close>

theorem redelivered_work_resumes:
  assumes "quiet s" "fences_keyed s" "work_input_ok i" "0 \<le> now" "is_safe now"
    and "work_beginWork cfg (work_begin_input i) now s = (Inr r, t)"
    and "\<not> br_superseded r" "\<not> br_completed r" "0 \<le> later" "is_safe later"
  shows "fst (work_beginWork cfg (work_begin_input i) later t) = Inr (active_reply (wi_workKey i) True)"
  by (rule begin_again_resumes [OF assms])

theorem redelivered_work_resumes_witness:
  "fst (work_beginWork ex_cfg (work_begin_input ex_work) 50 ex_begun) = Inr (active_reply ''w'' True)"
proof -
  have "quiet empty_d1" "fences_keyed empty_d1" "work_input_ok ex_work" "is_safe 10" "is_safe 50"
    by code_simp+
  moreover have "work_beginWork ex_cfg (work_begin_input ex_work) 10 empty_d1 =
      (Inr (active_reply ''w'' False), ex_begun)"
    unfolding ex_begun_def by code_simp
  moreover have "wi_workKey ex_work = ''w''" by (simp add: ex_work_def)
  ultimately show ?thesis
    using redelivered_work_resumes [of empty_d1 ex_work 10 ex_cfg "active_reply ''w'' False" ex_begun 50]
    by (simp add: active_reply_def)
qed

text \<open>
  A revival of a terminal work (\<open>prepareCompletedSourceRedrive\<close>) that answers \<open>revived\<close> found
  the row terminal and never completed, of the requested generation, with its source phase complete
  and no live lock on its cursor; it leaves the row active with the same generation and the fences unchanged.
\<close>

theorem revival_only_of_terminal_work:
  assumes "keyed wk_key (sync_work_runs s)"
    and "prepareCompletedSourceRedrive input clock s = (Inr reply, t)" "rr_disposition reply = Revived"
  shows "\<exists>w p r audit now. jget input ''workKey'' = JStr w
    \<and> safe_requireText (jget input ''sourcePhase'') ''sourcePhase'' = Inr p
    \<and> source_ready (trim w) p s
    \<and> row_at wk_key (trim w) (sync_work_runs s) = Some r \<and> wk_lifecycle r = Terminal
    \<and> wk_completed_at r = None \<and> js_number (jget input ''generation'') = NInt (wk_generation r)
    \<and> \<not> cursor_locked (wk_cursor_key r) now s
    \<and> row_at wk_key (trim w) (sync_work_runs t) = Some (revived_row audit now r)
    \<and> d1_fence_of t = d1_fence_of s"
  by (rule revived_work [OF assms]) blast

definition ex_terminal :: d1 where
  "ex_terminal = snd (work_abandonWork ex_cfg (JObj [(''workKey'', JStr ''w''),
     (''reason'', JStr ''QUEUE_RETRY_EXHAUSTED'')]) 30
     (snd (work_savePhase (JObj [(''workKey'', JStr ''w''), (''phase'', JStr ''source''),
       (''state'', JObj [(''stage'', JStr ''complete'')]), (''expectedItems'', jint 0), (''processedItems'', jint 0),
       (''pagesProcessed'', jint 0), (''chunksProcessed'', jint 0), (''complete'', JBool True)])
       20 ex_begun)))"

definition ex_revive_input :: jsval where
  "ex_revive_input = JObj [(''workKey'', JStr ''w''), (''generation'', jint 1700000000000),
     (''sourcePhase'', JStr ''source''), (''auditReference'', JStr ''ref'')]"

theorem revival_only_of_terminal_work_witness:
  "\<exists>w r. jget ex_revive_input ''workKey'' = JStr w
    \<and> row_at wk_key (trim w) (sync_work_runs ex_terminal) = Some r \<and> wk_lifecycle r = Terminal"
proof -
  let ?run = "prepareCompletedSourceRedrive ex_revive_input 1700000000060 ex_terminal"
  have a: "keyed wk_key (sync_work_runs ex_terminal)" by code_simp
  have b: "case fst ?run of Inl e \<Rightarrow> False | Inr reply \<Rightarrow> rr_disposition reply = Revived" by code_simp
  then obtain reply where r: "?run = (Inr reply, snd ?run)" "rr_disposition reply = Revived"
    by (cases ?run) (auto split: sum.splits)
  show ?thesis using revival_only_of_terminal_work [OF a r] by blast
qed

text \<open>
  Cleanup spares live work. A run of the retention cleanup at time \<open>now\<close> leaves the row, the
  staged units and the phases of every work that is not expired at \<open>now\<close> as they were, with any
  faults.
\<close>

theorem cleanup_spares_live_work:
  assumes "work_safeTimestamp (nullish (jget input ''now'') (jint clock)) ''now'' = Inr now"
    and "spared w now s"
  shows "spared w now (snd (work_cleanupExpiredWork input clock s))
    \<and> work_material w (snd (work_cleanupExpiredWork input clock s)) = work_material w s"
  using cleanup_spares [OF assms(1), of w] assms(2) by (simp add: evolves_def sparing_def)

theorem cleanup_spares_live_work_witness:
  "work_material ''w'' (snd (work_cleanupExpiredWork (JObj []) 1000 ex_completed)) =
   work_material ''w'' ex_completed"
proof -
  have "work_safeTimestamp (nullish (jget (JObj []) ''now'') (jint 1000)) ''now'' = Inr 1000"
    by code_simp
  moreover have "row_at wk_key ''w'' (sync_work_runs ex_completed) = Some ex_completed_row"
    "keyed wk_key (sync_work_runs ex_completed)" "\<not> expired_work 1000 ex_completed ex_completed_row"
    by code_simp+
  then have "spared ''w'' 1000 ex_completed" by (simp add: spared_def)
  ultimately show ?thesis using cleanup_spares_live_work [of "JObj []" 1000 1000] by blast
qed

section \<open>Phases and staged units\<close>

text \<open>
  C30: saving a phase is atomic. Whatever the batch meets, either the units, phases and works are
  all as before and the caller sees an error, or the phase holds the written progress and the staged
  unit of the same call is stored.
\<close>

theorem save_phase_is_atomic:
  assumes "work_savePhase input clock s = (r, t)"
  shows "staging t = staging s \<and> (\<exists>e. r = Inl e) \<or>
    (\<exists>p. work_requirePhaseWrite input = Inr p \<and> phase_written p clock t \<and>
       (case pw_unit p of None \<Rightarrow> True
        | Some u \<Rightarrow> unit_written (pw_workKey p) (pw_phase p) u t))"
  by (rule savePhase_all_or_nothing [OF assms])

definition ex_phase_input :: jsval where
  "ex_phase_input = JObj [(''workKey'', JStr ''w''), (''phase'', JStr ''source''),
     (''state'', JObj [(''stage'', JStr ''complete'')]), (''expectedItems'', jint 1),
     (''processedItems'', jint 1), (''pagesProcessed'', jint 1), (''chunksProcessed'', jint 0),
     (''complete'', JBool True), (''unit'', JObj [(''unitKey'', JStr ''u1''), (''sequence'', jint 0),
       (''payload'', JObj [(''id'', jint 1)])])]"

definition ex_refused :: d1 where
  "ex_refused = ex_begun\<lparr>faults := [Refused ''disk full'']\<rparr>"

theorem save_phase_is_atomic_witness:
  "staging (snd (work_savePhase ex_phase_input 20 ex_refused)) = staging ex_refused"
proof -
  let ?run = "work_savePhase ex_phase_input 20 ex_refused"
  have "row_at phase_key (''w'', ''source'') (sync_work_phases (snd ?run)) = None" by code_simp
  moreover have "case work_requirePhaseWrite ex_phase_input of Inl e \<Rightarrow> False
      | Inr p \<Rightarrow> (pw_workKey p, pw_phase p) = (''w'', ''source'')" by code_simp
  ultimately have "\<not> phase_written p 20 (snd ?run)" if "work_requirePhaseWrite ex_phase_input = Inr p" for p
    using that by (auto simp: phase_written_def)
  then show ?thesis using save_phase_is_atomic [OF surjective_pairing [of ?run]] by blast
qed

text \<open>
  C31: round trip. What \<open>savePhase\<close> acknowledged is what \<open>loadPhase\<close> returns: the same counters
  and completeness, and the state as JSON keeps it.
\<close>

theorem saved_phase_loads_back:
  assumes "quiet s" "phase_stamps_ok s" "work_savePhase input clock s = (Inr reply, t)"
  shows "\<exists>c. work_loadPhase input t =
    (Inr (Some (reply\<lparr>pp_state := json_norm (pp_state reply), pp_createdAt := Some c\<rparr>)), t)"
  by (rule save_then_load [OF assms])

definition ex_saved :: d1 where
  "ex_saved = snd (work_savePhase ex_phase_input 20 ex_begun)"

theorem saved_phase_loads_back_witness:
  "\<exists>x c. work_loadPhase ex_phase_input ex_saved = (Inr (Some x), ex_saved) \<and> pp_createdAt x = Some c"
proof -
  have "quiet ex_begun" "phase_stamps_ok ex_begun" by code_simp+
  moreover have "case fst (work_savePhase ex_phase_input 20 ex_begun) of Inl e \<Rightarrow> False | Inr x \<Rightarrow> True"
    by code_simp
  then obtain reply where "work_savePhase ex_phase_input 20 ex_begun = (Inr reply, ex_saved)"
    unfolding ex_saved_def by (cases "work_savePhase ex_phase_input 20 ex_begun") (auto split: sum.splits)
  ultimately show ?thesis using saved_phase_loads_back by fastforce
qed

text \<open>
  C32: the reading loop of the YouTube job (\<open>visitWorkUnits\<close>) terminates and visits every staged
  unit of the phase exactly once, in sequence order, page by page, and stops at the first error of
  its visitor; ten thousand pages of one hundred units are enough for fewer than a million units.
\<close>

theorem visit_work_units_complete:
  assumes "quiet s" "plain_text w" "plain_text ph" "units_sound w ph s"
    and "1 + length (phase_units w ph 0 s) div 100 \<le> WORK_UNIT_MAX_PAGES"
  shows "visitWorkUnits cfg (JStr w) (JStr ph) visit acc s =
    (visit_all visit (map unit_of (phase_units w ph 0 s)) acc, s)"
  unfolding visitWorkUnits_def
  by (rule visit_pages_all [OF assms(1-4)]) (use assms(5) in \<open>simp_all add: is_safe_def max_safe_def\<close>)

theorem visit_work_units_complete_witness:
  "visitWorkUnits ex_cfg (JStr ''w'') (JStr ''source'') (\<lambda>u n. Inr (n + wu_sequence u + 1)) 0 ex_saved
   = (Inr 1, ex_saved)"
proof -
  have "quiet ex_saved" "plain_text ''w''" "plain_text ''source''" "units_sound ''w'' ''source'' ex_saved"
    by code_simp+
  moreover have "phase_units ''w'' ''source'' 0 ex_saved = [\<lparr>un_work_key = ''w'', un_phase = ''source'',
      un_key = ''u1'', un_sequence = 0, un_payload = JsonText (JObj [(''id'', jint 1)]),
      un_created_at = 20, un_updated_at = 20\<rparr>]"
    by code_simp
  ultimately show ?thesis
    using visit_work_units_complete [of ex_saved "''w''" "''source''" ex_cfg
        "\<lambda>u n. Inr (n + wu_sequence u + 1)" 0]
    by (simp add: WORK_UNIT_MAX_PAGES_def unit_of_def)
qed

section \<open>The warning outbox\<close>

text \<open>
  C33: a warning that carries a generation guard is recorded only while its work still holds the
  fence: a successful save implies that the fence row named by the guard was there.
\<close>

theorem guarded_warning_requires_fence:
  assumes "work_saveWarningOutbox input clock s = (Inr reply, t)"
    and "work_requireWarning input = Inr event" "we_guard event = Some g"
  shows "fence_holds g s"
  by (rule guarded_warning_needs_fence [OF assms])

definition ex_warning_input :: jsval where
  "ex_warning_input = JObj [(''outboxId'', JStr ''o''), (''workKey'', JStr ''w''),
     (''syncRunId'', JStr ''r''), (''warningType'', JStr ''x''), (''sourceKey'', JStr ''k''),
     (''payload'', JObj []), (''generationGuard'', JObj [(''cursorKey'', JStr ''c''),
       (''workKey'', JStr ''w''), (''generation'', jint 1700000000000)])]"

definition ex_guard :: generation_guard where
  "ex_guard = \<lparr>gg_cursorKey = ''c'', gg_generation = 1700000000000, gg_workKey = ''w''\<rparr>"

theorem guarded_warning_requires_fence_witness:
  "fence_holds ex_guard ex_begun"
proof -
  let ?run = "work_saveWarningOutbox ex_warning_input 20 ex_begun"
  have "case fst ?run of Inl e \<Rightarrow> False | Inr x \<Rightarrow> True" by code_simp
  then obtain reply where r: "?run = (Inr reply, snd ?run)"
    by (cases ?run) (auto split: sum.splits)
  have "case work_requireWarning ex_warning_input of Inl e \<Rightarrow> False
      | Inr event \<Rightarrow> we_guard event = Some ex_guard" by code_simp
  then obtain event where "work_requireWarning ex_warning_input = Inr event" "we_guard event = Some ex_guard"
    by (auto split: sum.splits)
  then show ?thesis using guarded_warning_requires_fence [OF r] by blast
qed

fun outbox_op :: "work_op \<Rightarrow> bool" where
  "outbox_op (SaveWarning i t) = True"
| "outbox_op (WarningFailed i t) = True"
| "outbox_op (WarningDelivered i t) = True"
| "outbox_op _ = False"

text \<open>
  A delivered warning stays delivered with its payload and its attempt count: no sequence of
  saving it again and marking it failed or delivered again sends it back to pending, with any faults.
\<close>

theorem delivered_warning_stays_delivered:
  assumes "delivered_as i p n s" "\<forall>x \<in> set xs. outbox_op x"
  shows "delivered_as i p n (fold (work_apply cfg) xs s)"
  using assms
proof (induction xs arbitrary: s)
  case (Cons x xs)
  then have "delivered_as i p n (work_apply cfg x s)"
    using outbox_ops_keep_delivered by (cases x) (simp_all add: evolves_def keeping_def)
  with Cons show ?case by simp
qed simp

definition ex_delivered :: d1 where
  "ex_delivered = snd (work_markWarningDelivered (JObj [(''outboxId'', JStr ''o'')]) 30
     (snd (work_saveWarningOutbox ex_warning_input 20 ex_begun)))"

theorem delivered_warning_stays_delivered_witness:
  "delivered_as ''o'' (JsonText (JObj [])) 1 (fold (work_apply ex_cfg)
     [SaveWarning ex_warning_input 40, WarningFailed (JObj [(''outboxId'', JStr ''o''),
        (''errorCode'', JStr ''E'')]) 50] ex_delivered)"
proof (rule delivered_warning_stays_delivered)
  show "delivered_as ''o'' (JsonText (JObj [])) 1 ex_delivered" by code_simp
qed simp

section \<open>Dead letters and alerts\<close>

text \<open>
  C25: one redrive generation per dead letter. Two successful preparations of the same dead letter,
  with any saves, preparations and marks in between and any faults, return the same requested time,
  the same reference and the same replay payload.
\<close>

theorem one_redrive_generation:
  assumes "prepareDeadLetterRedrive input now s = (Inr v, t)"
    and "prepareDeadLetterRedrive input' now' (fold dlq_apply xs t) = (Inr v', t')"
    and "jget input' ''dlqId'' = jget input ''dlqId''"
  shows "rd_requestedAt v' = rd_requestedAt v \<and> rd_reference v' = rd_reference v
    \<and> rd_payload v' = rd_payload v"
  by (rule one_generation [OF assms])

definition ex_letter :: jsval where
  "ex_letter = JObj [(''dlqId'', JStr ''d''), (''jobType'', JStr ''job''),
     (''errorCode'', JStr ''QUEUE_RETRY_EXHAUSTED''),
     (''payload'', JObj [(''a'', jint 1), (''access_token'', JStr ''zz'')])]"

definition ex_letters :: d1 where
  "ex_letters = empty_d1\<lparr>dead_letter_jobs := [\<lparr>dl_id = ''d'', dl_message_id = None,
     dl_queue_name = None, dl_job_type = Some ''job'', dl_schema_version = None,
     dl_payload = JsonText (JObj []), dl_replay_payload = Some (JsonText (JObj [(''a'', jint 1)])),
     dl_error_code = Some ''QUEUE_RETRY_EXHAUSTED'', dl_error_message = None, dl_retry_count = 0,
     dl_status = Open, dl_created_at = 10, dl_updated_at = 10, dl_redrive_requested_at = None,
     dl_redrive_reference = None, dl_redriven_at = None\<rparr>]\<rparr>"

definition ex_redrive :: "string \<Rightarrow> jsval" where
  "ex_redrive ref = JObj [(''dlqId'', JStr ''d''), (''requestedAt'', jint 20), (''redriveReference'', JStr ref)]"

definition ex_prepared :: d1 where
  "ex_prepared = snd (prepareDeadLetterRedrive (ex_redrive ''r1'') 20 ex_letters)"

theorem one_redrive_generation_witness:
  "\<exists>v v'. fst (prepareDeadLetterRedrive (ex_redrive ''r1'') 20 ex_letters) = Inr v
    \<and> fst (prepareDeadLetterRedrive (ex_redrive ''r2'') 30 (fold dlq_apply [] ex_prepared)) = Inr v'
    \<and> rd_reference v' = rd_reference v"
proof -
  let ?a = "prepareDeadLetterRedrive (ex_redrive ''r1'') 20 ex_letters"
  let ?b = "prepareDeadLetterRedrive (ex_redrive ''r2'') 30 (fold dlq_apply [] ex_prepared)"
  have "case fst ?a of Inl e \<Rightarrow> False | Inr v \<Rightarrow> True" "case fst ?b of Inl e \<Rightarrow> False | Inr v \<Rightarrow> True"
    by code_simp+
  then obtain v v' where a: "?a = (Inr v, ex_prepared)" and b: "?b = (Inr v', snd ?b)"
    by (cases ?a; cases ?b) (auto simp: ex_prepared_def split: sum.splits)
  have "jget (ex_redrive ''r2'') ''dlqId'' = jget (ex_redrive ''r1'') ''dlqId''"
    by (simp add: ex_redrive_def)
  then show ?thesis
    using one_redrive_generation [OF a b] arg_cong [OF a, of fst] arg_cong [OF b, of fst]
    by (metis fst_conv)
qed

text \<open>
  C26: no secret is stored with a dead letter: in every reachable table the diagnostic payload has
  the values of secret keys redacted, and the replay payload those of replay secret keys, and this
  is kept by every operation of the dead-letter protocol, with any faults.
\<close>

theorem dead_letters_hold_no_secret:
  assumes "dead_letters_clean s"
  shows "dead_letters_clean (fold dlq_apply xs s)"
  by (rule dlq_run_clean [OF assms])

theorem dead_letters_hold_no_secret_witness:
  "dead_letters_clean (fold dlq_apply [SaveDeadLetter ex_letter 10, SaveDeadLetter ex_letter 20] empty_d1)"
  by (rule dead_letters_hold_no_secret) (simp add: dead_letters_clean_def empty_d1_def)

text \<open>
  A dead letter that was marked redriven stays redriven under every further delivery,
  preparation and mark.
\<close>

theorem redriven_is_final:
  assumes "redriven i s"
  shows "redriven i (fold dlq_apply xs s)"
  by (rule dlq_run_keeps(2) [OF assms])

definition ex_redriven :: d1 where
  "ex_redriven = snd (markDeadLetterRedriven (JObj [(''dlqId'', JStr ''d''), (''requestedAt'', jint 20)]) 40 ex_prepared)"

theorem redriven_is_final_witness:
  "redriven ''d'' (fold dlq_apply [SaveDeadLetter ex_letter 50] ex_redriven)"
proof (rule redriven_is_final)
  show "redriven ''d'' ex_redriven" by code_simp
qed

text \<open>
  Writing an alert as open does not reopen a resolved alert (the trigger of migration 0007 and
  the upsert together), whatever the write meets.
\<close>

theorem resolved_alert_stays_resolved:
  assumes "jget alert ''status'' = JStr ''open''" "alert_status i s = Some ''resolved''"
  shows "alert_status i (snd (saveSystemAlert alert now s)) = Some ''resolved''"
  using open_alert_keeps_resolved [OF assms(1), of i now] assms(2) by (simp add: evolves_def keeping_def)

definition ex_alert :: "string \<Rightarrow> jsval" where
  "ex_alert st = JObj [(''alertId'', JStr ''al''), (''alertType'', JStr ''t''),
     (''severity'', JStr ''critical''), (''platform'', JStr ''p''), (''status'', JStr st),
     (''message'', JStr ''m'')]"

definition ex_resolved :: d1 where
  "ex_resolved = empty_d1\<lparr>system_alerts := [\<lparr>al_id = ''al'', al_sync_run_id = None, al_type = ''t'',
     al_severity = ''critical'', al_platform = ''p'', al_status = ''resolved'', al_message = ''m'',
     al_error_code = None, al_details = JsonText (JObj []), al_created_at = 1, al_updated_at = 2\<rparr>]\<rparr>"

theorem resolved_alert_stays_resolved_witness:
  "alert_status ''al'' (snd (saveSystemAlert (ex_alert ''open'') 20 ex_resolved)) = Some ''resolved''"
  by (rule resolved_alert_stays_resolved) (simp_all add: ex_alert_def alert_status_def ex_resolved_def)

section \<open>Queue operations\<close>

text \<open>
  C10: the recovery budget. When every automatic recovery asks for at most \<open>n\<close> recoveries per work,
  no sequence of queue-store operations, with any faults, ever records more than \<open>n\<close> recoveries of
  one work.
\<close>

theorem recovery_budget_kept:
  assumes "budget_kept n w s" "list_all (budget_bounded n) xs"
  shows "budget_kept n w (fold qop_apply xs s)"
  by (rule budget_run [OF assms])

definition ex_exhausted :: d1 where
  "ex_exhausted = ex_terminal\<lparr>dead_letter_jobs := dead_letter_jobs ex_letters,
     dead_letter_operation_metadata := [\<lparr>md_dlq_id = ''d'', md_operation_id = Some ''op'',
       md_work_key = Some ''w'', md_generation = Some 1700000000000, md_requested_at = Some 1,
       md_main_attempts = 3, md_dlq_attempts = 1, md_recovery_status = Some NotStarted,
       md_recovery_reference = None, md_recovery_started_at = None,
       md_recovery_completed_at = None, md_audit = None, md_created_at = 10,
       md_updated_at = 10\<rparr>]\<rparr>"

definition ex_authorize :: jsval where
  "ex_authorize = JObj [(''dlqId'', JStr ''d''), (''operationId'', JStr ''op''),
     (''workKey'', JStr ''w''), (''generation'', jint 1700000000000), (''originalRequestedAt'', jint 1),
     (''jobType'', JStr ''job''), (''recoveryReference'', JStr ''auto-recovery:1''),
     (''maxRecoveries'', jint 2), (''cooldownSeconds'', jint 900)]"

theorem recovery_budget_kept_witness:
  "budget_kept 2 ''w'' (fold qop_apply [Authorize ex_authorize 40, Authorize ex_authorize 50] ex_exhausted)"
proof (rule recovery_budget_kept)
  show "budget_kept 2 ''w'' ex_exhausted" by code_simp
  have "jget ex_authorize ''maxRecoveries'' = jint 2" by (simp add: ex_authorize_def)
  then show "list_all (budget_bounded 2) [Authorize ex_authorize 40, Authorize ex_authorize 50]"
    by (auto dest: bind_bound)
qed

text \<open>
  C13: the queue-operation store touches work rows only to revive a retry-exhausted terminal work
  that was never completed, and then changes nothing but its lifecycle, its terminal fields, its
  audit reference and its update time: same key, same generation. Completed, superseded and active
  works are never touched.
\<close>

theorem only_exhausted_work_revived:
  "list_all2 revives (sync_work_runs s) (sync_work_runs (fold qop_apply xs s))"
  using run_only_revives by (simp add: only_revived_def)

text \<open>
  C34: the attempt counter of a queue operation never goes down, and its work, generation and
  original request time are fixed once known, under every sequence of queue-store operations.
\<close>

theorem attempts_never_lost:
  "attempt_grows p s (fold qop_apply xs s)"
  by (rule run_attempts_grow)

text \<open>
  Recording a delivery of a known operation on a fault-free database answers with the counter
  one higher.
\<close>

theorem recorded_attempt_counts:
  assumes "quiet s" "plain_text p" "plain_text w"
    and "row_at qa_operation_id p (queue_operation_attempts s) = Some r" "qa_work_key r = w"
    and "\<forall>r' \<in> set (queue_operation_attempts s). qa_work_key r' = w \<longrightarrow> qa_operation_id r' = p"
    and "is_safe now" "0 \<le> now" "0 \<le> qa_attempts r" "is_safe (qa_attempts r + 1)"
  shows "fst (recordMainQueueAttempt (JObj [(''operationId'', JStr p), (''workKey'', JStr w)]) now s) =
    Inr \<lparr>at_mainQueueAttempts = qa_attempts r + 1, at_workKey = Some w, at_tracked = True\<rparr>"
  by (rule record_answers [OF assms])

definition ex_attempt :: attempt_row where
  "ex_attempt = \<lparr>qa_operation_id = ''op'', qa_work_key = ''w'', qa_generation = None,
     qa_requested_at = None, qa_attempts = 2, qa_last_message_id = None, qa_created_at = 1,
     qa_updated_at = 1\<rparr>"

theorem recorded_attempt_counts_witness:
  "fst (recordMainQueueAttempt (JObj [(''operationId'', JStr ''op''), (''workKey'', JStr ''w'')]) 5
     (empty_d1\<lparr>queue_operation_attempts := [ex_attempt]\<rparr>)) =
    Inr \<lparr>at_mainQueueAttempts = 3, at_workKey = Some ''w'', at_tracked = True\<rparr>"
proof -
  let ?s = "empty_d1\<lparr>queue_operation_attempts := [ex_attempt]\<rparr>"
  have "plain_text ''op''" "plain_text ''w''" by code_simp+
  then show ?thesis
    using recorded_attempt_counts [of ?s "''op''" "''w''" ex_attempt 5]
    by (simp add: quiet_def empty_d1_def ex_attempt_def is_safe_def max_safe_def)
qed

text \<open>
  Every answer of an authorization is sound. If it asks for a resend, the work is active, the
  disposition says authorized and the delay lies between the cooldown and twelve hours; otherwise
  nothing is to be sent and the delay is zero.
\<close>

theorem authorization_reply_sound:
  assumes "bindAutoRequest i = Inr q" "authorizeSafeAutoRecovery i clock s = (Inr a, t)"
  shows "sound_reply q a"
  using authorize_sound [OF assms(1), of clock] assms(2) by (auto simp: yields_def)

definition ex_bound :: auto_request where
  "ex_bound = \<lparr>aq_dlqId = ''d'', aq_operationId = ''op'', aq_workKey = ''w'',
     aq_generation = 1700000000000, aq_requestedAt = 1, aq_jobType = ''job'',
     aq_reference = ''auto-recovery:1'', aq_maxRecoveries = 2, aq_cooldownSeconds = 900\<rparr>"

definition ex_finished :: d1 where
  "ex_finished = ex_exhausted\<lparr>sync_work_runs := [ex_completed_row]\<rparr>"

theorem authorization_reply_sound_witness:
  "\<exists>a. fst (authorizeSafeAutoRecovery ex_authorize 40 ex_finished) = Inr a \<and> sound_reply ex_bound a"
proof -
  have q: "bindAutoRequest ex_authorize = Inr ex_bound"
    by (simp add: bindAutoRequest_def ex_authorize_def ex_bound_def qop_requireText_def
        requireText_def trim_def is_space_def qop_timestamp_def qop_boundedPositiveInteger_def
        safe_number_def safe_int_def max_safe_def)
  have now: "qop_timestamp (nullish (jget ex_authorize ''now'') (jint 40)) ''now'' = Inr 40"
    by code_simp
  have c: "case read_auto_state (aq_dlqId ex_bound) 40 ex_finished of None \<Rightarrow> False
      | Some c \<Rightarrow> assertSafeAutoRecoveryIdentity (Some c) ex_bound = Inr c \<and> as_lifecycle c = Completed"
    by code_simp
  have "quiet ex_finished" by code_simp
  then obtain a where "authorizeSafeAutoRecovery ex_authorize 40 ex_finished = (Inr a, ex_finished)"
    using q now c
    by (auto simp: authorizeSafeAutoRecovery_def eff_simps claim_and_revive_def split: option.splits)
  then show ?thesis using authorization_reply_sound [OF q] by (metis fst_conv)
qed

text \<open>
  A resend waits for the lock it found and for the cooldown of the previous recovery of the
  same work: unless the twelve-hour cap cuts the wait, the message comes back five seconds or more
  after the lock ends, and not before the cooldown has passed.
\<close>

theorem resend_waits_for_lock_and_cooldown:
  assumes "auto_delay a q now < 43200"
  shows "(\<forall>e. as_activeLockExpiresAt a = Some e \<longrightarrow> e + 5000 \<le> now + 1000 * auto_delay a q now \<or> e \<le> now)
    \<and> (\<forall>p. as_priorRecoveryStartedAt a = Some p \<longrightarrow>
         p + aq_cooldownSeconds q * 1000 \<le> now + 1000 * auto_delay a q now)"
  using auto_delay_after_lock [OF _ assms] auto_delay_after_cooldown [OF _ assms] by blast

definition ex_state :: auto_state where
  "ex_state = \<lparr>as_dlqId = ''d'', as_jobType = Some ''job'', as_dlqStatus = Open, as_errorCode = None,
     as_operationId = None, as_workKey = Some ''w'', as_metadataGeneration = None,
     as_originalRequestedAt = None, as_recoveryStatus = None, as_recoveryReference = None,
     as_workGeneration = None, as_workRequestedAt = None, as_lifecycle = Active,
     as_terminalReason = None, as_completedAt = None, as_activeLockExpiresAt = Some 7500,
     as_priorRecoveryStartedAt = Some 500\<rparr>"

definition ex_request :: auto_request where
  "ex_request = \<lparr>aq_dlqId = ''d'', aq_operationId = ''op'', aq_workKey = ''w'', aq_generation = 1,
     aq_requestedAt = 1, aq_jobType = ''job'', aq_reference = ''auto-recovery:1'',
     aq_maxRecoveries = 2, aq_cooldownSeconds = 20\<rparr>"

theorem resend_waits_for_lock_and_cooldown_witness:
  "auto_delay ex_state ex_request 1000 = 20 \<and> 7500 + 5000 \<le> 1000 + 1000 * auto_delay ex_state ex_request 1000"
proof -
  have d: "auto_delay ex_state ex_request 1000 = 20" by code_simp
  have "as_activeLockExpiresAt ex_state = Some 7500" by (simp add: ex_state_def)
  then have "7500 + 5000 \<le> 1000 + 1000 * auto_delay ex_state ex_request 1000 \<or> (7500::int) \<le> 1000"
    using resend_waits_for_lock_and_cooldown [of ex_state ex_request 1000] d by fastforce
  then show ?thesis using d by simp
qed

section \<open>Sanitizers\<close>

text \<open>
  C38: what \<open>sanitizeOperationalValue\<close> returns holds no secret and no external identity: at every
  depth the value of a key that names a secret, or an identity that is not a safe counter, is the
  redaction mark (or null).
\<close>

theorem sanitized_value_is_redacted:
  "keys_redacted (\<lambda>k v. is_secret_key k) (sanitizeOperationalValue v)
   \<and> keys_redacted (\<lambda>k v. is_identity_key k \<and> \<not> isSafeOperationalCounter k v) (sanitizeOperationalValue v)"
  using keys_redacted_sanitizeValue identities_redacted_sanitizeValue
  by (simp add: sanitizeOperationalValue_def)

text \<open>
  The replay sanitizer is idempotent and redacts every replay secret, and a value without
  replay secrets goes through unchanged, so that a replayed job is the job that failed.
\<close>

theorem replay_sanitizer_faithful:
  "sanitizeQueueReplayValue (sanitizeQueueReplayValue v) = sanitizeQueueReplayValue v
   \<and> keys_redacted (\<lambda>k v. isQueueReplaySecretKey k) (sanitizeQueueReplayValue v)
   \<and> (replay_clean v \<longrightarrow> sanitizeQueueReplayValue v = v)"
  using sanitizeReplay_idem keys_redacted_sanitizeReplay sanitizeReplay_clean_id
  by (simp add: sanitizeQueueReplayValue_def)

theorem replay_sanitizer_faithful_witness:
  "sanitizeQueueReplayValue (JObj [(''a'', jint 1)]) = JObj [(''a'', jint 1)]"
proof -
  have "replay_clean (JObj [(''a'', jint 1)])" by code_simp
  then show ?thesis using replay_sanitizer_faithful by blast
qed

section \<open>The mirror to Lark\<close>

text \<open>
  C27: no record is called mirrored that Lark did not accept. After a delivery run, whatever Lark
  answers, whatever other invocations schedule meanwhile and whatever faults the statements meet,
  every delivered row of the outbox carries a method and payload among the accepted calls: a newer
  record scheduled during the call is not marked with the answer to the older one.
\<close>

theorem delivered_record_was_accepted:
  assumes "accepted_in (set (mw_accepted w)) (mw_db w)"
  shows "accepted_in (set (mw_accepted (snd (deliverReliabilityMirror input client clock w))))
    (mw_db (snd (deliverReliabilityMirror input client clock w)))"
  using delivery_faithful [of input client clock] assms
  by (simp add: evolves_def keeping_def world_faithful_def faithful_def)

definition ex_mirror_row :: mirror_row where
  "ex_mirror_row = \<lparr>mr_id = ''reliability-mirror:sync-run:s'', mr_method = ''saveSyncRun'',
     mr_payload = JsonText (JObj [(''syncId'', JStr ''s'')]), mr_status = MirrorPending,
     mr_revision = 1, mr_attempts = 0, mr_last_error_code = None, mr_last_error_message = None,
     mr_created_at = 5, mr_updated_at = 5, mr_delivered_at = None\<rparr>"

definition ex_mirror_world :: "mirror_row list \<Rightarrow> mirror_world" where
  "ex_mirror_world rows =
     \<lparr>mw_db = empty_d1\<lparr>reliability_mirror_outbox := rows\<rparr>, mw_turn = 0, mw_accepted = []\<rparr>"

lemma ex_mirror_rows:
  "plain_text ''reliability-mirror:sync-run:s'' \<and> plain_text ''reliability-mirror:sync-run:t''"
  by code_simp

definition ex_lark :: mirror_client where
  "ex_lark n m p = (None, [])"

theorem delivered_record_was_accepted_witness:
  "accepted_in (set (mw_accepted (snd (deliverReliabilityMirror (JObj []) (Inr ex_lark) 9 (ex_mirror_world [ex_mirror_row])))))
    (mw_db (snd (deliverReliabilityMirror (JObj []) (Inr ex_lark) 9 (ex_mirror_world [ex_mirror_row]))))"
  by (rule delivered_record_was_accepted)
    (auto simp: ex_mirror_world_def accepted_in_def outbox_ok_def keyed_def ex_mirror_row_def
      ex_mirror_rows mirror_at_def)

text \<open>
  An answer of Lark never quarantines a record. A delivery run, whatever Lark answers and
  throws, leaves a row permanently failed only when it was so before or when the stored row itself
  fails validation; a rejected delivery stays pending.
\<close>

theorem only_invalid_rows_quarantined:
  assumes "outbox_ok (mw_db w)"
  shows "quarantined_in (invalid_row (mw_db w)) (mw_db (snd (deliverReliabilityMirror input client clock w)))"
  by (rule delivery_quarantines_invalid [OF assms])

definition ex_reject :: mirror_client where
  "ex_reject n m p = (Some (permanentError ''rejected'' ''LARK_REJECTED'' JUndef), [])"

definition ex_broken_row :: mirror_row where
  "ex_broken_row = ex_mirror_row\<lparr>mr_id := ''reliability-mirror:sync-run:t'', mr_payload := RawText ''x''\<rparr>"

theorem only_invalid_rows_quarantined_witness:
  "quarantined_in (\<lambda>i. i = ''reliability-mirror:sync-run:t'')
    (mw_db (snd (deliverReliabilityMirror (JObj []) (Inr ex_reject) 9 (ex_mirror_world [ex_mirror_row, ex_broken_row]))))"
proof -
  let ?w = "ex_mirror_world [ex_mirror_row, ex_broken_row]"
  have "outbox_ok (mw_db ?w)"
    by (simp add: ex_mirror_world_def outbox_ok_def keyed_def ex_mirror_row_def ex_broken_row_def ex_mirror_rows)
  from only_invalid_rows_quarantined [OF this]
  have q: "quarantined_in (invalid_row (mw_db ?w))
    (mw_db (snd (deliverReliabilityMirror (JObj []) (Inr ex_reject) 9 ?w)))" .
  have "case normalizePendingRow ex_mirror_row of Inr _ \<Rightarrow> True | Inl _ \<Rightarrow> False" by code_simp
  then have "i = ''reliability-mirror:sync-run:t''" if "invalid_row (mw_db ?w) i" for i
    using that by (auto simp: invalid_row_def mirror_at_def ex_mirror_world_def ex_mirror_row_def
        ex_broken_row_def split: if_splits option.splits)
  then show ?thesis using q by (auto simp: quarantined_in_def)
qed

text \<open>
  C28: when the store reports a sync run saved, its mirror is durable: the outbox holds a pending
  row with the mirrored payload of that run, and the reply only says whether the queue was woken. A
  failed wake-up loses nothing.
\<close>

theorem saved_run_awaits_mirror:
  assumes "durable_saveSyncRun entry signal clock s = (Inr sent, t)"
  shows "(\<exists>p i r. toSyncRunMirrorPayload entry = Inr p
      \<and> buildReliabilityMirrorOutboxId (JStr ''saveSyncRun'') p = Inr i
      \<and> mirror_at i t = Some r \<and> mr_status r = MirrorPending \<and> mr_payload r = JsonText (json_norm p))
    \<and> sent = (signal = None)"
  using durable_run_scheduled [OF assms] by blast

definition ex_run :: jsval where
  "ex_run = JObj [(''syncId'', JStr ''s''), (''platform'', JStr ''p''), (''syncType'', JStr ''t''),
     (''status'', JStr ''success'')]"

lemma ex_run_mirror:
  "toSyncRunMirrorPayload ex_run = Inr (JObj [(''syncId'', JStr ''s''), (''platform'', JStr ''p''),
     (''syncType'', JStr ''t''), (''status'', JStr ''success''), (''recordsPulled'', jint 0),
     (''recordsWritten'', jint 0), (''errorCode'', JNull), (''errorMessage'', JNull)])"
  by (simp add: toSyncRunMirrorPayload_def ex_run_def dur_requireText_def requireText_def trim_def
      is_space_def dur_nonNegativeInteger_def safe_number_def nullish_def safe_int_def max_safe_def
      dur_optionalText_def mir_nullableText_def is_absent_def jopt_def is_safe_def)

lemma ex_run_saved:
  "\<exists>t. saveSyncRun ex_run 5 empty_d1 = (Inr True, t) \<and> quiet t"
proof -
  have "\<exists>row. bindRun ex_run 5 = Inr row \<and> sr_status row = ''success''"
    by (simp add: bindRun_def ex_run_def rel_requireText_def requireText_def trim_def is_space_def
        nullableText_def is_absent_def nullableInteger_def rel_nonNegativeInteger_def
        nullableOperationalText_def nullish_def safe_number_def safe_int_def max_safe_def is_safe_def)
  then obtain row where row: "bindRun ex_run 5 = Inr row" "sr_status row = ''success''" by blast
  obtain t where "sql_put_run row empty_d1 = Inr t" "quiet t"
    using row(2) by (simp add: sql_put_run_def run_status_ok_def quiet_def empty_d1_def)
  then show ?thesis using row(1) by (simp add: saveSyncRun_def eff_simps)
qed

lemma ex_run_digit: "int_text 0 = ''0''"
  by code_simp

lemma ex_run_scheduled:
  "quiet t \<Longrightarrow> toSyncRunMirrorPayload ex_run = Inr p \<Longrightarrow>
     \<exists>u. schedule (JObj [(''method'', JStr ''saveSyncRun''), (''payload'', p)]) 5 t = (Inr (), u)"
  unfolding ex_run_mirror
  by (auto simp: ex_run_digit schedule_def mirror_method_def mir_requireText_def requireText_def trim_def
      is_space_def requirePayload_def is_object_def buildReliabilityMirrorOutboxId_def eff_simps
      mir_timestamp_def safe_number_def nullish_def safe_int_def max_safe_def is_safe_def
      serializePayload_def Let_def json_quote_def json_char_def)

theorem saved_run_awaits_mirror_witness:
  "\<exists>t i r. durable_saveSyncRun ex_run (Some (plain_error ''queue is down'')) 5 empty_d1 = (Inr False, t)
     \<and> mirror_at i t = Some r \<and> mr_status r = MirrorPending"
proof -
  obtain t u where "saveSyncRun ex_run 5 empty_d1 = (Inr True, t)" and
    "schedule (JObj [(''method'', JStr ''saveSyncRun''), (''payload'', projr (toSyncRunMirrorPayload ex_run))]) 5 t
       = (Inr (), u)"
    using ex_run_saved ex_run_scheduled ex_run_mirror by fastforce
  then have "durable_saveSyncRun ex_run (Some (plain_error ''queue is down'')) 5 empty_d1 = (Inr False, u)"
    by (simp add: durable_saveSyncRun_def scheduleMirror_def eff_simps ex_run_mirror)
  then show ?thesis using saved_run_awaits_mirror by blast
qed

section \<open>Incremental checkpoints\<close>

text \<open>
  C14: a save under a lost fence writes nothing and never reports success. When the fence of the
  cursor has passed to a newer generation (or to another work of the same one), every property
  \<open>P\<close> of the cursor and its record fingerprints that other invocations keep is kept by the save,
  whatever they do between its statements and whatever faults those meet.
\<close>

theorem stale_checkpoint_writes_nothing:
  assumes "within (keeping (\<lambda>s. P (checkpoint_of key s))) (\<lambda>s. fences_keyed s \<and> P (checkpoint_of key s)) w"
    and "jget (jget input ''cursor'') ''cursorKey'' = JStr raw" "key = trim raw"
    and "jget input ''generationGuard'' = JObj kvs" "jget (JObj kvs) ''generation'' = jint n"
    and "jget (JObj kvs) ''workKey'' = JStr wk"
    and "beaten n (trim wk) (d1_fence_of (sh_db w) key)"
  shows "(\<exists>e. fst (saveCheckpoint k input now w) = Inl e)
    \<and> P (checkpoint_of key (sh_db (snd (saveCheckpoint k input now w))))"
  by (rule stale_save [OF assms])

definition ex_cursor_value :: jsval where
  "ex_cursor_value = JObj [(''cursorKey'', JStr ''c''), (''customerProfile'', JStr ''u''),
     (''platform'', JStr ''p''), (''accountKey'', JStr ''a''), (''source'', JStr ''x''),
     (''syncType'', JStr ''t''), (''lastSuccessfulSyncAt'', jint 7),
     (''incrementalRunCount'', jint 1), (''lastSyncRunId'', JStr ''run'')]"

definition ex_checkpoint :: "int \<Rightarrow> jsval" where
  "ex_checkpoint n = JObj [(''cursor'', ex_cursor_value),
     (''records'', JArr [JObj [(''sourceRecordId'', JStr ''r1''), (''sourceHash'', JStr ''h1'')]]),
     (''fullSnapshot'', JBool True),
     (''generationGuard'', JObj [(''generation'', jint n), (''workKey'', JStr ''w'')])]"

definition ex_fenced :: "int \<Rightarrow> d1" where
  "ex_fenced n = empty_d1\<lparr>sync_generation_fences := [\<lparr>fn_cursor_key = ''c'', fn_generation = n,
     fn_requested_at = n, fn_work_key = ''w'', fn_updated_at = 1\<rparr>]\<rparr>"

definition ex_newer_work :: work_input where
  "ex_newer_work = \<lparr>wi_workKey = ''v'', wi_cursorKey = ''c'', wi_workType = ''t'',
     wi_fingerprint = ''f'', wi_generation = 9, wi_requestedAt = 9\<rparr>"

text \<open>Another invocation claims the fence while the save runs.\<close>

definition ex_claim :: "d1 \<Rightarrow> d1" where
  "ex_claim s = snd (sql_claim_fence ex_newer_work 8 s)"

lemma ex_claim_concurrent:
  assumes "\<And>s t. checkpoint_of key t = checkpoint_of key s \<Longrightarrow> R s t"
  shows "concurrent R ex_claim"
  using claim_grows claim_keyed assms
  by (simp add: concurrent_def ex_claim_def sql_claim_fence_def checkpoint_of_def)

lemma ex_trims: "trim ''c'' = ''c'' \<and> trim ''w'' = ''w''"
  by code_simp

lemma ex_fenced_keyed [simp]: "fences_keyed (ex_fenced n)"
  by (simp add: ex_fenced_def fences_keyed_def keyed_def)

theorem stale_checkpoint_writes_nothing_witness:
  "(\<exists>e. fst (saveCheckpoint 50 (ex_checkpoint 3) 6 \<lparr>sh_db = ex_fenced 5, sh_others = [ex_claim]\<rparr>) = Inl e)
   \<and> checkpoint_of ''c'' (sh_db (snd (saveCheckpoint 50 (ex_checkpoint 3) 6
        \<lparr>sh_db = ex_fenced 5, sh_others = [ex_claim]\<rparr>))) = (None, [])"
  by (rule stale_checkpoint_writes_nothing [where P = "\<lambda>x. x = (None, [])" and raw = "''c''" and n = 3
        and kvs = "[(''generation'', jint 3), (''workKey'', JStr ''w'')]" and wk = "''w''"])
    (auto simp: within_def ex_checkpoint_def ex_cursor_value_def ex_trims beaten_def d1_fence_of_def
      keeping_def checkpoint_of_def ex_fenced_def empty_d1_def fences_keyed_def keyed_def
      intro!: ex_claim_concurrent [where key = "''c''"])

text \<open>
  C15: the cursor is committed last. However a save ends, and whatever other invocations do to the
  fence meanwhile, the cursor row is the old one, or every record of the save is stored under its
  run: an interrupted save can be repeated from the old cursor without losing a record.
\<close>

theorem cursor_commits_last:
  assumes "within (quiet_checkpoint c) fences_keyed w" "0 < k"
    and "requireCursor (jget input ''cursor'') = Inr c"
    and "requireRecordStates (nullish (jget input ''records'') (JArr [])) = Inr records"
    and "saveCheckpoint k input now w = (r, w')"
  shows "cursor_at (cc_cursorKey c) (sh_db w') = cursor_at (cc_cursorKey c) (sh_db w)
    \<or> (\<forall>x \<in> set records. stored c (sh_db w') x)"
  by (rule cursor_last [OF assms])

definition ex_cursor :: checkpoint_cursor where
  "ex_cursor = \<lparr>cc_cursorKey = ''c'', cc_customerProfile = ''u'', cc_platform = ''p'',
     cc_accountKey = ''a'', cc_source = ''x'', cc_syncType = ''t'', cc_lastMetricDate = None,
     cc_dictionaryHash = None, cc_lastFullSyncAt = None, cc_lastSuccessfulSyncAt = 7,
     cc_incrementalRunCount = 1, cc_lastSyncRunId = ''run''\<rparr>"

definition ex_record :: checkpoint_record where
  "ex_record = \<lparr>cr_sourceRecordId = ''r1'', cr_sourceModifiedAt = None, cr_sourceHash = ''h1'',
     cr_externalContentId = None\<rparr>"

lemma ex_checkpoint_valid:
  "requireCursor (jget (ex_checkpoint n) ''cursor'') = Inr ex_cursor"
  "requireRecordStates (nullish (jget (ex_checkpoint n) ''records'') (JArr [])) = Inr [ex_record]"
  by (simp_all add: ex_checkpoint_def ex_cursor_value_def requireCursor_def is_object_def ex_cursor_def
      inc_requireText_def requireText_def trim_def is_space_def inc_nullableText_def is_absent_def
      inc_nullableInteger_def inc_nonNegativeInteger_def inc_safeInteger_def safe_number_def
      safe_int_def max_safe_def is_safe_def nullish_def requireRecordStates_def requireRecordState_def ex_record_def)

theorem cursor_commits_last_witness:
  "cursor_at ''c'' (sh_db (snd (saveCheckpoint 50 (ex_checkpoint 3) 6
       \<lparr>sh_db = ex_fenced 3, sh_others = [id, ex_claim]\<rparr>))) = None
   \<or> (\<forall>x \<in> set [ex_record]. stored ex_cursor (sh_db (snd (saveCheckpoint 50 (ex_checkpoint 3) 6
       \<lparr>sh_db = ex_fenced 3, sh_others = [id, ex_claim]\<rparr>))) x)"
proof -
  let ?w = "\<lparr>sh_db = ex_fenced 3, sh_others = [id, ex_claim]\<rparr>"
  have c: "cc_cursorKey ex_cursor = ''c''" by (simp add: ex_cursor_def)
  have "within (quiet_checkpoint ex_cursor) fences_keyed ?w"
    unfolding within_def using ex_claim_concurrent [of "''c''" "quiet_checkpoint ex_cursor"]
    by (simp add: c unchanged_def concurrent_def keeping_def)
  moreover obtain r w' where run: "saveCheckpoint 50 (ex_checkpoint 3) 6 ?w = (r, w')" by force
  ultimately have "cursor_at (cc_cursorKey ex_cursor) (sh_db w') = cursor_at (cc_cursorKey ex_cursor) (sh_db ?w)
      \<or> (\<forall>x \<in> set [ex_record]. stored ex_cursor (sh_db w') x)"
    using cursor_commits_last [OF _ _ ex_checkpoint_valid run] by simp
  then show ?thesis using run by (simp add: c cursor_at_def ex_fenced_def empty_d1_def)
qed

text \<open>
  C16: round trip. After a save that reports success, with other invocations moving only the fence,
  \<open>loadCheckpoint\<close> gives back the cursor as it was passed in and a fingerprint for every record of
  the save; after a full snapshot it gives no fingerprint of an earlier run. Under a guard this
  needs the stored cursor not to be of a newer generation than the guard.
\<close>

theorem checkpoint_roundtrip:
  assumes "within (quiet_checkpoint c) fences_keyed w" "0 < k"
    and "requireCursor (jget input ''cursor'') = Inr c"
    and "requireRecordStates (nullish (jget input ''records'') (JArr [])) = Inr records"
    and "saveCheckpoint k input now w = (Inr x, w')"
    and "\<forall>y n. cursor_at (cc_cursorKey c) (sh_db w) = Some y
        \<and> js_number (jget (jget input ''generationGuard'') ''generation'') = NInt n \<longrightarrow> cu_generation y \<le> n"
    and "quiet (sh_db w')"
  shows "\<exists>v vs. loadCheckpoint (JStr (cc_cursorKey c)) (sh_db w') = (Inr (Some v, vs), sh_db w')
    \<and> cursor_matches c v \<and> (\<forall>r \<in> set records. \<exists>u \<in> set vs. record_matches c r u)
    \<and> (jget input ''fullSnapshot'' = JBool True \<longrightarrow> (\<forall>u \<in> set vs. rv_lastSeenSyncRunId u = cc_lastSyncRunId c))"
  by (rule saved_loads_back [OF assms])

definition ex_checkpoint_guard :: checkpoint_guard where
  "ex_checkpoint_guard = \<lparr>cg_cursorKey = ''c'', cg_generation = 3, cg_workKey = ''w'', cg_requestedAt = 3\<rparr>"

lemma ex_checkpoint_saved:
  "\<exists>x w'. saveCheckpoint 50 (ex_checkpoint 3) 6 \<lparr>sh_db = ex_fenced 3, sh_others = []\<rparr> = (Inr x, w')
     \<and> quiet (sh_db w')"
proof -
  have g: "requireGenerationGuard (JObj [(''generation'', jint 3), (''workKey'', JStr ''w'')]) ''c'' = Inr ex_checkpoint_guard"
    by (simp add: requireGenerationGuard_def is_object_def inc_requireText_def requireText_def nullish_def
        ex_trims inc_nonNegativeInteger_def inc_safeInteger_def safe_number_def safe_int_def max_safe_def
        is_safe_def ex_checkpoint_guard_def)
  have "case commit_checkpoint 50 (Some ex_checkpoint_guard) ex_cursor [ex_record] True 6 \<lparr>sh_db = ex_fenced 3, sh_others = []\<rparr> of
      (Inr x, w') \<Rightarrow> quiet (sh_db w') | _ \<Rightarrow> False"
    by code_simp
  moreover have "cc_cursorKey ex_cursor = ''c''" by (simp add: ex_cursor_def)
  moreover have "truthy (jget (ex_checkpoint 3) ''generationGuard'')"
    "jget (ex_checkpoint 3) ''generationGuard'' = JObj [(''generation'', jint 3), (''workKey'', JStr ''w'')]"
    "jget (ex_checkpoint 3) ''fullSnapshot'' = JBool True"
    by (simp_all add: ex_checkpoint_def)
  ultimately show ?thesis
    by (auto simp: saveCheckpoint_def ex_checkpoint_valid g eff_simps split: prod.splits sum.splits)
qed

theorem checkpoint_roundtrip_witness:
  "\<exists>s v vs. loadCheckpoint (JStr ''c'') s = (Inr (Some v, vs), s) \<and> cursor_matches ex_cursor v
     \<and> (\<exists>u \<in> set vs. record_matches ex_cursor ex_record u)
     \<and> (\<forall>u \<in> set vs. rv_lastSeenSyncRunId u = ''run'')"
proof -
  let ?w = "\<lparr>sh_db = ex_fenced 3, sh_others = []\<rparr>"
  obtain x w' where run: "saveCheckpoint 50 (ex_checkpoint 3) 6 ?w = (Inr x, w')" and q: "quiet (sh_db w')"
    using ex_checkpoint_saved by blast
  have w: "within (quiet_checkpoint ex_cursor) fences_keyed ?w" by (simp add: within_def)
  have none: "cursor_at (cc_cursorKey ex_cursor) (sh_db ?w) = None"
    by (simp add: cursor_at_def ex_fenced_def empty_d1_def)
  have full: "jget (ex_checkpoint 3) ''fullSnapshot'' = JBool True" "cc_lastSyncRunId ex_cursor = ''run''"
    "cc_cursorKey ex_cursor = ''c''"
    by (simp_all add: ex_checkpoint_def ex_cursor_def)
  from checkpoint_roundtrip [OF w _ ex_checkpoint_valid run _ q] none full
  show ?thesis by simp blast
qed

text \<open>
  C17: the generation of a stored cursor never goes back. If the cursor \<open>key\<close> is at generation \<open>n\<close>
  or later, and other invocations keep it so, then every save leaves it so: of this cursor or of
  another, guarded or not, current or stale, with any faults.
\<close>

theorem checkpoint_generation_monotone:
  assumes "within (keeping (generation_from key n)) (generation_from key n) w"
  shows "generation_from key n (sh_db (snd (saveCheckpoint k input now w)))"
  by (rule save_keeps_generation [OF assms])

definition ex_cursor_row :: cursor_row where
  "ex_cursor_row = (cursor_insert (Some ex_checkpoint_guard) ex_cursor 5)\<lparr>cu_generation := 8\<rparr>"

theorem checkpoint_generation_monotone_witness:
  "generation_from ''c'' 8 (sh_db (snd (saveCheckpoint 50 (ex_checkpoint 3) 6
     \<lparr>sh_db = (ex_fenced 3)\<lparr>sync_cursors := [ex_cursor_row]\<rparr>, sh_others = [ex_claim]\<rparr>)))"
proof (rule checkpoint_generation_monotone)
  have "concurrent (keeping (generation_from ''c'' 8)) ex_claim"
    by (rule ex_claim_concurrent [of "''c''"])
      (simp add: keeping_def generation_from_def cursor_at_def checkpoint_of_def)
  then show "within (keeping (generation_from ''c'' 8)) (generation_from ''c'' 8)
      \<lparr>sh_db = (ex_fenced 3)\<lparr>sync_cursors := [ex_cursor_row]\<rparr>, sh_others = [ex_claim]\<rparr>"
    by (simp add: within_def generation_from_def cursor_at_def ex_cursor_row_def cursor_insert_def ex_cursor_def)
qed

section \<open>Table synchronisation\<close>

text \<open>
  C23: deduplication keeps exactly the last row of every stable key. The rows it returns have
  distinct keys, every key of the input is among them, each with the last input row that carries
  it, and the duplicates it counts are the rows it dropped.
\<close>

theorem deduplication_last_wins:
  assumes "deduplicateRowsByKey (JArr rows) (JStr f) = Inr (unique, dups)"
  shows "dups + length unique = length rows
    \<and> (\<exists>ks. distinct ks \<and> list_all2 (\<lambda>k r. last_row (trim f) k rows = Some r) ks unique
      \<and> (\<forall>k. k \<in> set ks \<longleftrightarrow> (\<exists>r \<in> set rows. row_key (trim f) r = Inr k)))"
  using deduplicate_spec [OF assms] by blast

definition ex_row :: "string \<Rightarrow> int \<Rightarrow> jsval" where
  "ex_row k n = JObj [(''key'', JStr k), (''views'', jint n)]"

theorem deduplication_last_wins_witness:
  "deduplicateRowsByKey (JArr [ex_row ''a'' 1, ex_row ''b'' 2, ex_row ''a'' 3]) (JStr ''key'')
     = Inr ([ex_row ''a'' 3, ex_row ''b'' 2], 1)
   \<and> 1 + length [ex_row ''a'' 3, ex_row ''b'' 2] = length [ex_row ''a'' 1, ex_row ''b'' 2, ex_row ''a'' 3]"
proof -
  have d: "deduplicateRowsByKey (JArr [ex_row ''a'' 1, ex_row ''b'' 2, ex_row ''a'' 3]) (JStr ''key'')
     = Inr ([ex_row ''a'' 3, ex_row ''b'' 2], 1)"
    by code_simp
  show ?thesis using deduplication_last_wins [OF d] d by blast
qed

text \<open>
  A plan sorts every prepared row into exactly one of three groups: it is created when the
  destination has no record of its key, updated (under that record's id) when one of its fields
  differs from that record, and skipped otherwise.
\<close>

theorem plan_partitions_rows:
  assumes "plan_rows le f index rows plan_start = Inr p"
  shows "pp_create p = filter (\<lambda>r. existing_row f index r = None) rows
    \<and> pp_update p = map (\<lambda>r. update_row (jget (the (existing_row f index r)) ''recordId'') r)
        (filter (\<lambda>r. differs le (existing_row f index r) r) rows)
    \<and> length (pp_create p) + length (pp_update p) + pp_skipped p = length rows"
  using plan_rows_spec [OF assms] plan_rows_count [OF assms] by (simp add: plan_start_def)

definition ex_index :: "(string \<times> jsval) list" where
  "ex_index = [(''a'', new_record (JStr ''r1'') (ex_row ''a'' 1)), (''b'', new_record (JStr ''r2'') (ex_row ''b'' 2))]"

theorem plan_partitions_rows_witness:
  "\<exists>p. plan_rows (\<lambda>_ _. True) ''key'' ex_index [ex_row ''a'' 1, ex_row ''b'' 5, ex_row ''c'' 7] plan_start = Inr p
     \<and> length (pp_create p) + length (pp_update p) + pp_skipped p = 3
     \<and> pp_create p = [ex_row ''c'' 7] \<and> pp_update p = [update_row (JStr ''r2'') (ex_row ''b'' 5)]"
proof -
  let ?plan = "plan_rows (\<lambda>_ _. True) ''key'' ex_index [ex_row ''a'' 1, ex_row ''b'' 5, ex_row ''c'' 7] plan_start"
  have "case ?plan of Inl _ \<Rightarrow> False
   | Inr p \<Rightarrow> pp_create p = [ex_row ''c'' 7] \<and> pp_update p = [update_row (JStr ''r2'') (ex_row ''b'' 5)]"
    by code_simp
  then obtain p where p: "?plan = Inr p" "pp_create p = [ex_row ''c'' 7]"
    "pp_update p = [update_row (JStr ''r2'') (ex_row ''b'' 5)]"
    by (cases ?plan) (simp_all del: plan_rows.simps)
  have "length (pp_create p) + length (pp_update p) + pp_skipped p
      = length [ex_row ''a'' 1, ex_row ''b'' 5, ex_row ''c'' 7]"
    using plan_partitions_rows [OF p(1)] by blast
  then have "length (pp_create p) + length (pp_update p) + pp_skipped p = 3" by simp
  then show ?thesis using p by blast
qed














end
